(* ===== verification/Core_Prelude.thy ===== *)
theory Core_Prelude
  imports Main "HOL-Library.Sublist"
begin

text \<open>
  Shared vocabulary of the development.

  \<^item> Go strings are byte sequences, so they are \<open>string\<close> (a \<open>char\<close> is one byte).
  \<^item> \<open>time.Time\<close> and \<open>time.Duration\<close> are integers that count nanoseconds; \<open>int64\<close>
    arithmetic that can overflow is wrapped explicitly with \<open>int64\<close>.
  \<^item> A Postgres table is the list of its rows. \<open>sql_update\<close>, \<open>sql_affected\<close> and
    \<open>sql_find\<close> are the meaning of \<^verbatim>\<open>UPDATE .. WHERE\<close>, of \<open>RowsAffected\<close> and of a
    single-row \<^verbatim>\<open>SELECT\<close>; the lemmas collected in \<open>table_simps\<close> carry the proofs of
    every component that keeps its state in a table.
  \<^item> \<open>forward_only\<close> and \<open>single_winner\<close> are the contracts of tables whose terminal
    statuses are final, shared by the delegation ledger, the request store and the
    approval gate.
\<close>

named_theorems table_simps "rewriting of table lookups and updates"
named_theorems vocab_simps "unfolding of the status vocabularies"

subsection \<open>Time and machine integers\<close>

type_synonym time = int
type_synonym duration = int

definition second :: duration where "second = 1000000000"
definition minute :: duration where "minute = 60 * second"
definition hour :: duration where "hour = 60 * minute"

lemmas duration_defs = second_def minute_def hour_def

text \<open>Two's complement wrap-around of Go's 64-bit signed integers.\<close>

definition int64 :: "int \<Rightarrow> int" where
  "int64 x = (x + 2 ^ 63) mod 2 ^ 64 - 2 ^ 63"

lemma int64_id: "- (2 ^ 63) \<le> x \<Longrightarrow> x < 2 ^ 63 \<Longrightarrow> int64 x = x"
  by (simp add: int64_def)

lemma int64_bounds: "- (2 ^ 63) \<le> int64 x \<and> int64 x < 2 ^ 63"
proof -
  have "0 \<le> (x + 2 ^ 63) mod 2 ^ 64" and "(x + 2 ^ 63) mod 2 ^ 64 < (2 ^ 64 :: int)"
    by simp_all
  then show ?thesis by (simp add: int64_def)
qed

subsection \<open>Strings\<close>

text \<open>\<open>strconv.Itoa\<close> and \<open>strconv.FormatInt(_, 10)\<close>.\<close>

fun show_nat :: "nat \<Rightarrow> string" where
  "show_nat n = (if n < 10 then [char_of (48 + n)]
                 else show_nat (n div 10) @ [char_of (48 + n mod 10)])"

declare show_nat.simps [simp del]

definition show_int :: "int \<Rightarrow> string" where
  "show_int i = (if i < 0 then CHR ''-'' # show_nat (nat (- i)) else show_nat (nat i))"

text \<open>
  \<open>strconv.Atoi\<close>: an optional sign, at least one decimal digit and nothing else, within the
  64-bit range.
\<close>

definition is_digit :: "char \<Rightarrow> bool" where
  "is_digit c = (48 \<le> (of_char c :: nat) \<and> (of_char c :: nat) \<le> 57)"

definition digits_val :: "string \<Rightarrow> int" where
  "digits_val ds = foldl (\<lambda>acc c. 10 * acc + int (of_char c - 48)) 0 ds"

definition atoi :: "string \<Rightarrow> int option" where
  "atoi s =
    (let neg = (s \<noteq> [] \<and> hd s = CHR ''-'');
         ds = (if s \<noteq> [] \<and> (hd s = CHR ''-'' \<or> hd s = CHR ''+'') then tl s else s);
         v = (if neg then - digits_val ds else digits_val ds)
     in if ds = [] \<or> \<not> list_all is_digit ds then None
        else if - (2 ^ 63) \<le> v \<and> v < 2 ^ 63 then Some v else None)"

text \<open>\<open>strings.Contains\<close>.\<close>

definition contains_str :: "string \<Rightarrow> string \<Rightarrow> bool" where
  "contains_str s needle = list_ex (\<lambda>t. prefix needle t) (suffixes s)"

text \<open>
  \<open>strings.TrimSpace\<close>: the UTF-8 encodings of the runes with Unicode property White_Space are
  stripped from both ends.
\<close>

definition space_runes :: "string list" where
  "space_runes = map (map char_of)
     ([[9], [10], [11], [12], [13], [32], [194, 133], [194, 160], [225, 154, 128],
       [226, 128, 168], [226, 128, 169], [226, 128, 175], [226, 129, 159], [227, 128, 128]]
      @ map (\<lambda>b. [226, 128, b]) [128 ..< 139 :: nat])"

function trim_left :: "string list \<Rightarrow> string \<Rightarrow> string" where
  "trim_left sps s =
    (case List.find (\<lambda>sp. sp \<noteq> [] \<and> prefix sp s) sps of
       None \<Rightarrow> s | Some sp \<Rightarrow> trim_left sps (drop (length sp) s))"
  by pat_completeness auto
termination
proof (relation "measure (\<lambda>(sps, s). length s)")
  fix sps s sp
  assume "List.find (\<lambda>sp. sp \<noteq> [] \<and> prefix sp s) sps = Some sp"
  then have "sp \<noteq> []" "prefix sp s" by (auto simp: find_Some_iff)
  then show "((sps, drop (length sp) s), sps, s) \<in> measure (\<lambda>(sps, s). length s)"
    by (cases sp; cases s) auto
qed simp

declare trim_left.simps [simp del]

lemma trim_left_Nil [simp]: "trim_left sps [] = []"
proof -
  have "List.find (\<lambda>sp. sp \<noteq> [] \<and> prefix sp ([] :: string)) sps = None" by (auto simp: find_None_iff)
  then show ?thesis by (simp add: trim_left.simps [of sps "[]"])
qed

definition TrimSpace :: "string \<Rightarrow> string" where
  "TrimSpace s = rev (trim_left (map rev space_runes) (rev (trim_left space_runes s)))"

lemma TrimSpace_Nil [simp]: "TrimSpace [] = []"
  by (simp add: TrimSpace_def)

text \<open>A string that starts and ends with a visible ASCII character is not trimmed.\<close>

definition visible :: "char \<Rightarrow> bool" where
  "visible c = (32 < (of_char c :: nat) \<and> (of_char c :: nat) < 128)"

lemma space_runes_invisible:
  "list_all (\<lambda>sp. sp \<noteq> [] \<and> \<not> visible (hd sp) \<and> \<not> visible (last sp)) space_runes"
  by (simp add: space_runes_def visible_def upt_rec)

lemma trim_left_visible:
  assumes "visible (hd s)" and "\<forall>sp \<in> set sps. sp \<noteq> [] \<longrightarrow> \<not> visible (hd sp)" and "s \<noteq> []"
  shows "trim_left sps s = s"
proof -
  have "\<not> (sp \<noteq> [] \<and> prefix sp s)" if "sp \<in> set sps" for sp
  proof
    assume sp: "sp \<noteq> [] \<and> prefix sp s"
    then have "hd sp = hd s" by (auto simp: prefix_def)
    with sp that assms(1,2) show False by auto
  qed
  then have "List.find (\<lambda>sp. sp \<noteq> [] \<and> prefix sp s) sps = None" by (simp add: find_None_iff)
  then show ?thesis by (simp add: trim_left.simps [of sps s])
qed

lemma TrimSpace_visible: "s \<noteq> [] \<Longrightarrow> visible (hd s) \<Longrightarrow> visible (last s) \<Longrightarrow> TrimSpace s = s"
  using space_runes_invisible
  by (auto simp: TrimSpace_def trim_left_visible list_all_iff hd_rev)

text \<open>Lower-casing of the ASCII letters.\<close>

definition ascii_lower :: "string \<Rightarrow> string" where
  "ascii_lower s = map (\<lambda>c. if 65 \<le> (of_char c :: nat) \<and> (of_char c :: nat) \<le> 90
                          then char_of (of_char c + 32 :: nat) else c) s"

text \<open>\<open>strings.Join\<close>.\<close>

fun join_str :: "string \<Rightarrow> string list \<Rightarrow> string" where
  "join_str sep [] = []"
| "join_str sep [x] = x"
| "join_str sep (x # y # ys) = x @ sep @ join_str sep (y # ys)"

text \<open>\<open>strings.Split\<close> at a separator of one byte.\<close>

fun split_on :: "char \<Rightarrow> string \<Rightarrow> string list" where
  "split_on sep [] = [[]]"
| "split_on sep (c # s) =
    (if c = sep then [] # split_on sep s
     else case split_on sep s of [] \<Rightarrow> [[c]] | w # ws \<Rightarrow> (c # w) # ws)"

lemma split_on_not_Nil [simp]: "split_on sep s \<noteq> []"
  by (induction s) (auto split: list.splits)

lemma split_on_free: "sep \<notin> set s \<Longrightarrow> split_on sep s = [s]"
  by (induction s) auto

lemma split_on_append: "sep \<notin> set s \<Longrightarrow> split_on sep (s @ sep # t) = s # split_on sep t"
  by (induction s) (auto split: list.splits)

lemma join_split: "join_str [sep] (split_on sep s) = s"
proof (induction s)
  case (Cons c s)
  obtain w ws where w: "split_on sep s = w # ws" by (cases "split_on sep s") auto
  with Cons show ?case by (cases ws) auto
qed simp

lemma split_on_parts: "w \<in> set (split_on sep s) \<Longrightarrow> sep \<notin> set w \<and> set w \<subseteq> set s"
proof (induction s arbitrary: w)
  case (Cons c s)
  obtain v vs where v: "split_on sep s = v # vs" by (cases "split_on sep s") auto
  from v Cons.IH [of v] Cons.IH [of w] Cons.prems show ?case by (auto split: if_splits)
qed simp

text \<open>\<open>hex.EncodeToString\<close>.\<close>

definition hex_digit :: "nat \<Rightarrow> char" where
  "hex_digit n = char_of (if n < 10 then 48 + n else 87 + n)"

definition hex_encode :: "string \<Rightarrow> string" where
  "hex_encode s = concat (map (\<lambda>c. [hex_digit (of_char c div 16), hex_digit (of_char c mod 16)]) s)"

lemma hex_digit_inj: "a < 16 \<Longrightarrow> b < 16 \<Longrightarrow> hex_digit a = hex_digit b \<Longrightarrow> a = b"
proof -
  assume ab: "a < 16" "b < 16" and h: "hex_digit a = hex_digit b"
  have code: "of_char (hex_digit n) = (if n < 10 then 48 + n else 87 + n)" if "n < 16" for n
    using that by (simp add: hex_digit_def)
  from h have "of_char (hex_digit a) = (of_char (hex_digit b) :: nat)" by simp
  then show ?thesis using ab by (simp add: code split: if_splits)
qed

lemma hex_encode_inj: "hex_encode s = hex_encode t \<Longrightarrow> s = t"
proof (induction s arbitrary: t)
  case Nil
  then show ?case by (cases t) (simp_all add: hex_encode_def)
next
  case (Cons c s)
  then obtain d u where t: "t = d # u" by (cases t) (simp_all add: hex_encode_def)
  with Cons.prems have hi: "hex_digit (of_char c div 16) = hex_digit (of_char d div 16)"
    and lo: "hex_digit (of_char c mod 16) = hex_digit (of_char d mod 16)" and rest: "hex_encode s = hex_encode u"
    by (simp_all add: hex_encode_def)
  have lt: "(of_char x :: nat) div 16 < 16" for x :: char using nat_of_char_less_256 [of x] by (simp add: div_less_iff_less_mult)
  have "(of_char c :: nat) = of_char d"
    using hex_digit_inj [OF lt lt hi] hex_digit_inj [OF _ _ lo] by (metis mod_less_divisor zero_less_numeral div_mult_mod_eq)
  then have "c = d" by simp
  with t rest Cons.IH show ?case by simp
qed

text \<open>\<open>NULLIF(x, '')\<close> of SQL: the empty string is stored as NULL.\<close>

definition nullif_empty :: "string \<Rightarrow> string option" where
  "nullif_empty s = (if s = [] then None else Some s)"

lemma nullif_empty_simps [simp]:
  "nullif_empty [] = None"
  "s \<noteq> [] \<Longrightarrow> nullif_empty s = Some s"
  by (simp_all add: nullif_empty_def)

text \<open>\<open>COALESCE(x, y)\<close> of SQL.\<close>

definition coalesce :: "'a option \<Rightarrow> 'a option \<Rightarrow> 'a option" where
  "coalesce x y = (case x of None \<Rightarrow> y | Some v \<Rightarrow> Some v)"

lemma coalesce_simps [simp]:
  "coalesce None y = y"
  "coalesce (Some v) y = Some v"
  by (simp_all add: coalesce_def)

subsection \<open>JSON values\<close>

text \<open>
  What \<open>encoding/json\<close> and the \<open>jsonb\<close> columns hold. A number without fraction and exponent is
  \<open>JInt\<close>, any other literal keeps its text.
\<close>

datatype json = JNull | JBool bool | JInt int | JReal string | JStr string
  | JArr "json list" | JObj "(string \<times> json) list"

text \<open>The last of several equal keys wins.\<close>

definition obj_get :: "(string \<times> 'a) list \<Rightarrow> string \<Rightarrow> 'a option" where
  "obj_get kvs k = map_of (rev kvs) k"

definition fits_int64 :: "int \<Rightarrow> bool" where
  "fits_int64 n = (- (2 ^ 63) \<le> n \<and> n < 2 ^ 63)"

subsection \<open>Tables\<close>

definition sql_update :: "('r \<Rightarrow> bool) \<Rightarrow> ('r \<Rightarrow> 'r) \<Rightarrow> 'r list \<Rightarrow> 'r list" where
  "sql_update P f tbl = map (\<lambda>r. if P r then f r else r) tbl"

definition sql_affected :: "('r \<Rightarrow> bool) \<Rightarrow> 'r list \<Rightarrow> nat" where
  "sql_affected P tbl = length (filter P tbl)"

definition sql_find :: "('r \<Rightarrow> bool) \<Rightarrow> 'r list \<Rightarrow> 'r option" where
  "sql_find P tbl = List.find P tbl"

text \<open>A primary key: no two rows agree on \<open>key\<close>.\<close>

definition unique_key :: "('r \<Rightarrow> 'k) \<Rightarrow> 'r list \<Rightarrow> bool" where
  "unique_key key tbl = distinct (map key tbl)"

lemma sql_update_Nil [simp, table_simps]: "sql_update P f [] = []"
  by (simp add: sql_update_def)

lemma sql_update_Cons [table_simps]:
  "sql_update P f (r # rs) = (if P r then f r else r) # sql_update P f rs"
  by (simp add: sql_update_def)

lemma length_sql_update [simp, table_simps]: "length (sql_update P f tbl) = length tbl"
  by (simp add: sql_update_def)

lemma set_sql_update [table_simps]:
  "set (sql_update P f tbl) = (\<lambda>r. if P r then f r else r) ` set tbl"
  by (simp add: sql_update_def)

lemma sql_update_keeps: "r \<in> set tbl \<Longrightarrow> \<not> P r \<Longrightarrow> r \<in> set (sql_update P f tbl)"
  by (force simp: set_sql_update)

lemma sql_update_id: "(\<And>r. r \<in> set tbl \<Longrightarrow> P r \<Longrightarrow> f r = r) \<Longrightarrow> sql_update P f tbl = tbl"
  by (induction tbl) (auto simp: sql_update_def)

lemma sql_update_none: "\<forall>r \<in> set tbl. \<not> P r \<Longrightarrow> sql_update P f tbl = tbl"
  by (rule sql_update_id) blast

lemma map_key_sql_update [table_simps]:
  "(\<And>r. P r \<Longrightarrow> key (f r) = key r) \<Longrightarrow> map key (sql_update P f tbl) = map key tbl"
  by (induction tbl) (auto simp: sql_update_def)

lemma unique_key_sql_update:
  "(\<And>r. P r \<Longrightarrow> key (f r) = key r) \<Longrightarrow> unique_key key (sql_update P f tbl) = unique_key key tbl"
  by (simp add: unique_key_def map_key_sql_update)

lemma sql_find_Some_iff:
  "sql_find P tbl = Some r \<Longrightarrow> r \<in> set tbl \<and> P r"
  by (auto simp: sql_find_def find_Some_iff)

lemma sql_find_None_iff [table_simps]: "sql_find P tbl = None \<longleftrightarrow> (\<forall>r \<in> set tbl. \<not> P r)"
  by (auto simp: sql_find_def find_None_iff)

lemma sql_find_Cons [table_simps]:
  "sql_find P (r # rs) = (if P r then Some r else sql_find P rs)"
  by (simp add: sql_find_def)

lemma sql_find_Nil [simp, table_simps]: "sql_find P [] = None"
  by (simp add: sql_find_def)

lemma sql_find_append [table_simps]:
  "sql_find P (xs @ ys) = (case sql_find P xs of None \<Rightarrow> sql_find P ys | Some r \<Rightarrow> Some r)"
  by (induction xs) (auto simp: sql_find_def)

lemma sql_find_key:
  assumes "unique_key key tbl" and "r \<in> set tbl"
  shows "sql_find (\<lambda>x. key x = key r) tbl = Some r"
  using assms
  by (induction tbl) (auto simp: unique_key_def sql_find_Cons)

lemma unique_key_eq: "unique_key key tbl \<Longrightarrow> x \<in> set tbl \<Longrightarrow> y \<in> set tbl \<Longrightarrow> key x = key y \<Longrightarrow> x = y"
  by (auto simp: unique_key_def distinct_map inj_on_def)

text \<open>An update by key only depends on what it does to the row with that key.\<close>

lemma sql_update_key_cong:
  assumes "unique_key key tbl" and "r \<in> set tbl" and "f r = g r"
  shows "sql_update (\<lambda>x. key x = key r) f tbl = sql_update (\<lambda>x. key x = key r) g tbl"
  using unique_key_eq [OF assms(1) _ assms(2)] assms(3) by (auto simp: sql_update_def)

text \<open>A lookup by key sees an update of the row exactly when the row is selected.\<close>

lemma sql_find_sql_update:
  assumes "\<And>r. P r \<Longrightarrow> key (f r) = key r"
  shows "sql_find (\<lambda>r. key r = k) (sql_update P f tbl) =
         map_option (\<lambda>r. if P r then f r else r) (sql_find (\<lambda>r. key r = k) tbl)"
  using assms by (induction tbl) (auto simp: sql_find_Cons sql_update_Cons)

lemma sql_find_update_other:
  "(\<And>r. r \<in> set tbl \<Longrightarrow> P r \<Longrightarrow> key r \<noteq> k \<and> key (f r) \<noteq> k) \<Longrightarrow>
    sql_find (\<lambda>r. key r = k) (sql_update P f tbl) = sql_find (\<lambda>r. key r = k) tbl"
  by (induction tbl) (auto simp: sql_find_Cons sql_update_Cons)

lemma sql_affected_zero [table_simps]: "sql_affected P tbl = 0 \<longleftrightarrow> (\<forall>r \<in> set tbl. \<not> P r)"
  by (auto simp: sql_affected_def filter_empty_conv)

lemma sql_affected_unique:
  assumes "unique_key key tbl"
  shows "sql_affected (\<lambda>r. key r = k \<and> Q r) tbl =
         (case sql_find (\<lambda>r. key r = k) tbl of None \<Rightarrow> 0 | Some r \<Rightarrow> if Q r then 1 else 0)"
  using assms
proof (induction tbl)
  case Nil
  then show ?case by (simp add: sql_affected_def)
next
  case (Cons x xs)
  then have IH: "sql_affected (\<lambda>r. key r = k \<and> Q r) xs =
      (case sql_find (\<lambda>r. key r = k) xs of None \<Rightarrow> 0 | Some r \<Rightarrow> if Q r then 1 else 0)"
    and fresh: "key x \<notin> key ` set xs"
    by (simp_all add: unique_key_def)
  show ?case
  proof (cases "key x = k")
    case True
    with fresh have "filter (\<lambda>r. key r = k \<and> Q r) xs = []" by (auto simp: filter_empty_conv) (metis image_eqI)
    with True show ?thesis by (simp add: sql_affected_def sql_find_Cons)
  next
    case False
    with IH show ?thesis by (simp add: sql_affected_def sql_find_Cons)
  qed
qed

subsection \<open>Early returns\<close>

text \<open>\<open>if err != nil { return err }\<close>: the rest runs on the value of a call that succeeded.\<close>

fun and_then :: "'e + 'a \<Rightarrow> ('a \<Rightarrow> 'e + 'b) \<Rightarrow> 'e + 'b" where
  "and_then (Inl e) f = Inl e"
| "and_then (Inr x) f = f x"

definition guard_error :: "bool \<Rightarrow> 'e \<Rightarrow> 'e + unit" where
  "guard_error bad e = (if bad then Inl e else Inr ())"

lemma and_then_Inr: "and_then x f = Inr y \<longleftrightarrow> (\<exists>z. x = Inr z \<and> f z = Inr y)"
  by (cases x) auto

lemma guard_error_Inr [simp]: "guard_error bad e = Inr u \<longleftrightarrow> \<not> bad"
  by (simp add: guard_error_def)

lemma guard_error_False [simp]: "guard_error False e = Inr ()"
  by (simp add: guard_error_def)

subsection \<open>Tables whose terminal statuses are final\<close>

text \<open>
  \<open>status_of s k\<close> is the status of the row \<open>k\<close> in the state \<open>s\<close>; \<open>step\<close> is any
  operation of the component. The contract: no operation moves a row out of a terminal
  status or deletes it.
\<close>

locale forward_only =
  fixes status_of :: "'s \<Rightarrow> 'k \<Rightarrow> 'v option"
    and terminal :: "'v \<Rightarrow> bool"
    and step :: "'s \<Rightarrow> 's \<Rightarrow> bool"
  assumes terminal_kept:
    "step s s' \<Longrightarrow> status_of s k = Some v \<Longrightarrow> terminal v \<Longrightarrow> status_of s' k = Some v"
begin

lemma terminal_kept_star:
  assumes "step\<^sup>*\<^sup>* s s'" and "status_of s k = Some v" and "terminal v"
  shows "status_of s' k = Some v"
  using assms by (induction rule: rtranclp_induct) (auto intro: terminal_kept)

end

text \<open>
  \<open>wins s s' k\<close> marks the steps that move row \<open>k\<close> from an open status into a terminal
  one, i.e. the steps whose caller owns the single notification. Whatever the
  interleaving, a run has at most one of them per row.
\<close>

locale single_winner = forward_only +
  fixes wins :: "'s \<Rightarrow> 's \<Rightarrow> 'k \<Rightarrow> bool"
  assumes wins_step: "wins s s' k \<Longrightarrow> step s s'"
    and wins_from_open: "wins s s' k \<Longrightarrow> status_of s k = Some v \<Longrightarrow> \<not> terminal v"
    and wins_exists: "wins s s' k \<Longrightarrow> \<exists>v. status_of s k = Some v"
    and wins_into_terminal: "wins s s' k \<Longrightarrow> \<exists>v. status_of s' k = Some v \<and> terminal v"
begin

lemma no_second_win:
  assumes "wins s0 s1 k" and "step\<^sup>*\<^sup>* s1 s2" and "wins s2 s3 k"
  shows False
proof -
  obtain v where v: "status_of s1 k = Some v" "terminal v"
    using wins_into_terminal [OF assms(1)] by blast
  have "status_of s2 k = Some v"
    by (rule terminal_kept_star [OF assms(2) v])
  then show False using wins_from_open [OF assms(3)] v(2) by blast
qed

end

text \<open>Runs as lists of states, and the positions of a run at which \<open>Q\<close> holds of a step.\<close>

fun run_of :: "('s \<Rightarrow> 's \<Rightarrow> bool) \<Rightarrow> 's list \<Rightarrow> bool" where
  "run_of R [] = True"
| "run_of R [s] = True"
| "run_of R (s # t # ss) = (R s t \<and> run_of R (t # ss))"

fun count_steps :: "('s \<Rightarrow> 's \<Rightarrow> bool) \<Rightarrow> 's list \<Rightarrow> nat" where
  "count_steps Q [] = 0"
| "count_steps Q [s] = 0"
| "count_steps Q (s # t # ss) = (if Q s t then 1 else 0) + count_steps Q (t # ss)"

lemma run_of_star: "run_of R (s # ss) \<Longrightarrow> t \<in> set (s # ss) \<Longrightarrow> R\<^sup>*\<^sup>* s t"
proof (induction ss arbitrary: s)
  case Nil
  then show ?case by simp
next
  case (Cons u us)
  then show ?case by (auto intro: converse_rtranclp_into_rtranclp)
qed

text \<open>
  Refinement of a life cycle: \<open>phase_of\<close> abstracts the state to the phase of one object, and
  every step of the component is simulated by moves of the abstract machine.
\<close>

locale lifecycle_refinement =
  fixes phase_of :: "'s \<Rightarrow> 'k \<Rightarrow> 'p"
    and inv :: "'s \<Rightarrow> bool"
    and step :: "'s \<Rightarrow> 's \<Rightarrow> bool"
    and move :: "'p \<Rightarrow> 'p \<Rightarrow> bool"
  assumes inv_kept: "inv s \<Longrightarrow> step s s' \<Longrightarrow> inv s'"
    and simulates: "inv s \<Longrightarrow> step s s' \<Longrightarrow> move\<^sup>*\<^sup>* (phase_of s k) (phase_of s' k)"
begin

lemma refines_star:
  assumes "step\<^sup>*\<^sup>* s t" and "inv s"
  shows "inv t \<and> move\<^sup>*\<^sup>* (phase_of s k) (phase_of t k)"
  using assms(1)
proof (induction rule: rtranclp_induct)
  case (step t u)
  then show ?case using inv_kept simulates [of t u k] by (meson rtranclp_trans)
qed (use assms(2) in simp)

end

text \<open>An invariant of the steps can be assumed at every position of a run.\<close>

lemma run_of_invariant:
  assumes "\<And>s s'. I s \<Longrightarrow> R s s' \<Longrightarrow> I s'" and "I s" and "run_of R (s # ss)"
  shows "run_of (\<lambda>s s'. I s \<and> R s s') (s # ss)
    \<and> count_steps (\<lambda>s s'. I s \<and> Q s s') (s # ss) = count_steps Q (s # ss)"
  using assms(2,3)
proof (induction ss arbitrary: s)
  case Nil
  then show ?case by simp
next
  case (Cons t ts)
  then show ?case using assms(1) [of s t] by simp
qed

lemma count_steps_pos:
  "0 < count_steps Q ss \<Longrightarrow> \<exists>i. Suc i < length ss \<and> Q (ss ! i) (ss ! Suc i)"
proof (induction Q ss rule: count_steps.induct)
  case (3 Q s t ss)
  show ?case
  proof (cases "Q s t")
    case True
    then show ?thesis by (intro exI [of _ 0]) simp
  next
    case False
    with 3 obtain i where "Suc i < length (t # ss)" "Q ((t # ss) ! i) ((t # ss) ! Suc i)" by auto
    then show ?thesis by (intro exI [of _ "Suc i"]) simp
  qed
qed simp_all

context single_winner
begin

lemma at_most_one_win:
  assumes "run_of step ss"
  shows "count_steps (\<lambda>s s'. wins s s' k) ss \<le> 1"
  using assms
proof (induction "\<lambda>s s'. wins s s' k" ss rule: count_steps.induct)
  case (3 s t ss)
  show ?case
  proof (cases "wins s t k")
    case True
    have "count_steps (\<lambda>s s'. wins s s' k) (t # ss) = 0"
    proof (rule ccontr)
      assume "count_steps (\<lambda>s s'. wins s s' k) (t # ss) \<noteq> 0"
      then obtain i where i: "Suc i < length (t # ss)"
        "wins ((t # ss) ! i) ((t # ss) ! Suc i) k"
        using count_steps_pos [of "\<lambda>s s'. wins s s' k" "t # ss"] by auto
      from i(1) have "(t # ss) ! i \<in> set (t # ss)" by (meson Suc_lessD nth_mem)
      moreover from 3 have "run_of step (t # ss)" by simp
      ultimately have "step\<^sup>*\<^sup>* t ((t # ss) ! i)" by (rule run_of_star [rotated])
      then show False using no_second_win [OF True _ i(2)] by blast
    qed
    then show ?thesis by simp
  next
    case False
    with 3 show ?thesis by simp
  qed
qed simp_all

end

end
