(* ===== verification/Access.thy ===== *)
theory Access
  imports Core_Prelude
begin

text \<open>
  Hierarchy-based communication control (\<^verbatim>\<open>internal/registry/access.go\<close>).

  The \<open>workspaces\<close> table is a list of rows of which the queries read \<open>id\<close> and
  \<open>parent_id\<close>. \<open>down\<close> is the set of ids whose lookup fails with a database error
  during the call. The bounded parent-chain walk is characterised by iterated parents, and
  \<open>CanCommunicate\<close> by the documented communication rules.
\<close>

subsection \<open>Model\<close>

definition maxAncestorWalk :: nat where "maxAncestorWalk = 32"

record workspace_row =
  ws_id :: string
  ws_parent_id :: "string option"

record workspaceRef =
  ref_ID :: string
  ref_ParentID :: "string option"

definition getWorkspaceRef :: "(string \<Rightarrow> bool) \<Rightarrow> workspace_row list \<Rightarrow> string \<Rightarrow> workspaceRef option" where
  "getWorkspaceRef down tbl i =
    (if down i then None
     else case sql_find (\<lambda>r. ws_id r = i) tbl of
         None \<Rightarrow> None
       | Some r \<Rightarrow> Some \<lparr>ref_ID = ws_id r, ref_ParentID = ws_parent_id r\<rparr>)"

text \<open>The loop of \<open>isAncestorOf\<close>; \<open>n\<close> iterations are left.\<close>

fun ancestor_walk :: "(string \<Rightarrow> workspaceRef option) \<Rightarrow> nat \<Rightarrow> string \<Rightarrow> string \<Rightarrow> bool" where
  "ancestor_walk q 0 ancestorID current = False"
| "ancestor_walk q (Suc n) ancestorID current =
    (case q current of
       None \<Rightarrow> False
     | Some ref \<Rightarrow>
        (case ref_ParentID ref of
           None \<Rightarrow> False
         | Some p \<Rightarrow> if p = ancestorID then True else ancestor_walk q n ancestorID p))"

definition isAncestorOf :: "(string \<Rightarrow> workspaceRef option) \<Rightarrow> string \<Rightarrow> string \<Rightarrow> bool" where
  "isAncestorOf q ancestorID childID = ancestor_walk q maxAncestorWalk ancestorID childID"

definition CanCommunicate :: "(string \<Rightarrow> workspaceRef option) \<Rightarrow> string \<Rightarrow> string \<Rightarrow> bool" where
  "CanCommunicate q callerID targetID =
    (if callerID = targetID then True
     else case q callerID of None \<Rightarrow> False | Some caller \<Rightarrow>
     (case q targetID of None \<Rightarrow> False | Some target \<Rightarrow>
      if ref_ParentID caller \<noteq> None \<and> ref_ParentID target \<noteq> None
         \<and> ref_ParentID caller = ref_ParentID target then True
      else if ref_ParentID target = Some (ref_ID caller) then True
      else if ref_ParentID caller = Some (ref_ID target) then True
      else if (case ref_ParentID target of None \<Rightarrow> False | Some p \<Rightarrow> isAncestorOf q callerID p) then True
      else if (case ref_ParentID caller of None \<Rightarrow> False | Some p \<Rightarrow> isAncestorOf q targetID p) then True
      else False))"

subsection \<open>Iterated parents\<close>

definition parent :: "(string \<Rightarrow> workspaceRef option) \<Rightarrow> string \<Rightarrow> string option" where
  "parent q x = Option.bind (q x) ref_ParentID"

fun up :: "(string \<Rightarrow> workspaceRef option) \<Rightarrow> nat \<Rightarrow> string \<Rightarrow> string option" where
  "up q 0 x = Some x"
| "up q (Suc k) x = (case parent q x of None \<Rightarrow> None | Some p \<Rightarrow> up q k p)"

lemma up_1: "up q (Suc 0) x = parent q x"
  by (simp split: option.splits)

lemma ancestor_walk_iff:
  "ancestor_walk q n a x \<longleftrightarrow> (\<exists>k. 1 \<le> k \<and> k \<le> n \<and> up q k x = Some a)"
proof (induction n arbitrary: x)
  case 0
  then show ?case by auto
next
  case (Suc n)
  have split: "(\<exists>k. 1 \<le> k \<and> k \<le> Suc n \<and> P k) \<longleftrightarrow> P (Suc 0) \<or> (\<exists>k. 1 \<le> k \<and> k \<le> n \<and> P (Suc k))"
    for P :: "nat \<Rightarrow> bool"
    by (auto simp: Suc_le_eq) (metis Suc_le_mono Suc_pred gr0_conv_Suc not_less_zero old.nat.exhaust zero_less_Suc)
  show ?case
    unfolding split using Suc by (auto simp: parent_def up_1 split: option.splits)
qed

text \<open>
  The interface \<open>CanCommunicate\<close> relies on: a lookup by id returns the row with that id.
\<close>

locale ref_lookup =
  fixes q :: "string \<Rightarrow> workspaceRef option"
  assumes ref_id: "q x = Some r \<Longrightarrow> ref_ID r = x"
begin

lemma parent_ref: "q x = Some r \<Longrightarrow> parent q x = ref_ParentID r"
  by (simp add: parent_def)

lemma can_communicate_iff:
  "CanCommunicate q a b \<longleftrightarrow> a = b \<or>
    (q a \<noteq> None \<and> q b \<noteq> None \<and>
      ((\<exists>p. parent q a = Some p \<and> parent q b = Some p)
       \<or> (\<exists>k. 1 \<le> k \<and> k \<le> Suc maxAncestorWalk \<and> up q k b = Some a)
       \<or> (\<exists>k. 1 \<le> k \<and> k \<le> Suc maxAncestorWalk \<and> up q k a = Some b)))"
proof (cases "a = b \<or> q a = None \<or> q b = None")
  case True
  then show ?thesis by (auto simp: CanCommunicate_def split: option.splits)
next
  case False
  then obtain ra rb where r: "q a = Some ra" "q b = Some rb" "a \<noteq> b" by auto
  have walk: "(\<exists>k. 1 \<le> k \<and> k \<le> Suc maxAncestorWalk \<and> up q k x = Some y) \<longleftrightarrow>
      parent q x = Some y \<or> (\<exists>p. parent q x = Some p \<and> isAncestorOf q y p)" for x y
    using ancestor_walk_iff [of q "Suc maxAncestorWalk" y x]
    by (auto simp: isAncestorOf_def parent_def split: option.splits if_splits)
  show ?thesis
    unfolding walk using r ref_id [OF r(1)] ref_id [OF r(2)]
    by (auto simp: CanCommunicate_def parent_ref split: option.splits)
qed

lemma can_communicate_sym: "CanCommunicate q a b = CanCommunicate q b a"
  unfolding can_communicate_iff by metis

lemma can_communicate_related:
  "CanCommunicate q a b \<Longrightarrow> \<exists>c i j. up q i a = Some c \<and> up q j b = Some c"
  unfolding can_communicate_iff by (metis up.simps(1) up_1)

end

interpretation wsdb: ref_lookup "getWorkspaceRef down tbl" for down tbl
  by unfold_locales
    (auto simp: getWorkspaceRef_def split: if_splits option.splits dest: sql_find_Some_iff)

subsection \<open>Properties\<close>

text \<open>
  C11: \<open>CanCommunicate\<close> decides exactly the documented rules. Two different workspaces may
  talk iff both rows can be read and they are siblings under the same non-root parent, or
  one is an ancestor of the other at a distance of at most 33 (the direct parent plus the 32
  steps of the bounded walk); a workspace may always talk to itself.
\<close>

theorem CanCommunicate_rules:
  "CanCommunicate (getWorkspaceRef down tbl) a b \<longleftrightarrow> a = b \<or>
    (getWorkspaceRef down tbl a \<noteq> None \<and> getWorkspaceRef down tbl b \<noteq> None \<and>
      ((\<exists>p. parent (getWorkspaceRef down tbl) a = Some p \<and> parent (getWorkspaceRef down tbl) b = Some p)
       \<or> (\<exists>k. 1 \<le> k \<and> k \<le> 33 \<and> up (getWorkspaceRef down tbl) k b = Some a)
       \<or> (\<exists>k. 1 \<le> k \<and> k \<le> 33 \<and> up (getWorkspaceRef down tbl) k a = Some b)))"
  using wsdb.can_communicate_iff [of down tbl a b] by (simp add: maxAncestorWalk_def)

text \<open>
  hierarchy isolation. Whoever may talk shares a common ancestor-or-self, so workspaces of
  different trees never reach each other, and the relation is symmetric.
\<close>

theorem CanCommunicate_isolated:
  assumes "CanCommunicate (getWorkspaceRef down tbl) a b"
  shows "CanCommunicate (getWorkspaceRef down tbl) b a
    \<and> (\<exists>c i j. up (getWorkspaceRef down tbl) i a = Some c \<and> up (getWorkspaceRef down tbl) j b = Some c)"
  using assms wsdb.can_communicate_sym wsdb.can_communicate_related by blast

definition example_org :: "workspace_row list" where
  "example_org =
    [\<lparr>ws_id = ''pm'', ws_parent_id = None\<rparr>,
     \<lparr>ws_id = ''lead'', ws_parent_id = Some ''pm''\<rparr>,
     \<lparr>ws_id = ''eng'', ws_parent_id = Some ''lead''\<rparr>,
     \<lparr>ws_id = ''ops'', ws_parent_id = Some ''pm''\<rparr>]"

theorem CanCommunicate_isolated_witness:
  "CanCommunicate (getWorkspaceRef (\<lambda>_. False) example_org) ''eng'' ''pm''
   \<and> CanCommunicate (getWorkspaceRef (\<lambda>_. False) example_org) ''pm'' ''eng''
   \<and> \<not> CanCommunicate (getWorkspaceRef (\<lambda>_. False) example_org) ''eng'' ''ops''"
proof -
  have h: "CanCommunicate (getWorkspaceRef (\<lambda>_. False) example_org) ''eng'' ''pm''"
    and n: "\<not> CanCommunicate (getWorkspaceRef (\<lambda>_. False) example_org) ''eng'' ''ops''"
    by (simp_all add: CanCommunicate_def getWorkspaceRef_def example_org_def isAncestorOf_def
        maxAncestorWalk_def numeral_eq_Suc sql_find_Cons)
  from CanCommunicate_isolated [OF h] h n show ?thesis by blast
qed

text \<open>
  lookups fail closed. A caller or target whose row is missing or whose lookup fails is
  denied, unless the two are the same workspace.
\<close>

theorem CanCommunicate_fail_closed:
  assumes "a \<noteq> b" and "down a \<or> down b \<or> a \<notin> ws_id ` set tbl \<or> b \<notin> ws_id ` set tbl"
  shows "\<not> CanCommunicate (getWorkspaceRef down tbl) a b"
proof -
  have "getWorkspaceRef down tbl a = None \<or> getWorkspaceRef down tbl b = None"
    using assms(2) by (auto simp: getWorkspaceRef_def split: option.splits dest!: sql_find_Some_iff)
  with assms(1) show ?thesis by (auto simp: wsdb.can_communicate_iff)
qed

theorem CanCommunicate_fail_closed_witness:
  "\<not> CanCommunicate (getWorkspaceRef (\<lambda>i. i = ''lead'') example_org) ''lead'' ''pm''"
  using CanCommunicate_fail_closed [of "''lead''" "''pm''" "\<lambda>i. i = ''lead''" example_org] by simp

end
