(* ===== verification/Org_Tree.thy ===== *)
theory Org_Tree
  imports Core_Prelude
begin

text \<open>
  The tree of workspaces as the tenant boundary: the bounded walks up and down \<open>parent_id\<close>
  (\<^verbatim>\<open>internal/handlers/org_scope.go\<close>, the two recursive queries of
  \<^verbatim>\<open>internal/handlers/workspace_reparent.go\<close>) and the memory namespaces derived from them
  (\<^verbatim>\<open>internal/memory/namespace/resolver.go\<close>).

  A recursive query is the list of its rows; its depth guard is the number of hops left, so
  every walk ends on every table, cyclic ones included. \<open>org_root_at\<close> is the unbounded meaning:
  the chain of parents of a workspace ends at a parentless row after so many hops. \<open>pg\<close> is the
  reading of a text parameter as a UUID by the database: the canonical text, or \<open>None\<close> for a
  value the database refuses.
\<close>

subsection \<open>The table and its walks\<close>

record ws_node =
  wn_id :: string
  wn_parent :: "string option"
  wn_name :: string
  wn_status :: string

type_synonym ws_table = "ws_node list"

abbreviation node :: "ws_table \<Rightarrow> string \<Rightarrow> ws_node option" where
  "node tbl i \<equiv> sql_find (\<lambda>r. wn_id r = i) tbl"

fun chain :: "nat \<Rightarrow> ws_table \<Rightarrow> string \<Rightarrow> ws_node list" where
  "chain 0 tbl i = (case node tbl i of None \<Rightarrow> [] | Some r \<Rightarrow> [r])"
| "chain (Suc n) tbl i =
    (case node tbl i of
       None \<Rightarrow> []
     | Some r \<Rightarrow> r # (case wn_parent r of None \<Rightarrow> [] | Some p \<Rightarrow> chain n tbl p))"

text \<open>The chain a query starts from its parameter: a database error, or the rows.\<close>

datatype org_error = ErrNoOrgRoot | ErrOrgDB

definition chain_query ::
  "(string \<Rightarrow> string option) \<Rightarrow> bool \<Rightarrow> nat \<Rightarrow> ws_table \<Rightarrow> string \<Rightarrow> org_error + ws_node list" where
  "chain_query pg fails n tbl workspaceID =
    (if fails then Inl ErrOrgDB
     else case pg workspaceID of None \<Rightarrow> Inl ErrOrgDB | Some i \<Rightarrow> Inr (chain n tbl i))"

definition orgRootMaxChainDepth :: nat where "orgRootMaxChainDepth = 64"

definition orgRootID ::
  "(string \<Rightarrow> string option) \<Rightarrow> bool \<Rightarrow> ws_table \<Rightarrow> string \<Rightarrow> org_error + string" where
  "orgRootID pg fails tbl workspaceID =
    (case chain_query pg fails orgRootMaxChainDepth tbl workspaceID of
       Inl e \<Rightarrow> Inl e
     | Inr rows \<Rightarrow>
        (case filter (\<lambda>r. wn_parent r = None) rows of
           [] \<Rightarrow> Inl ErrNoOrgRoot
         | r # _ \<Rightarrow> if wn_id r = [] then Inl ErrNoOrgRoot else Inr (wn_id r)))"

definition sameOrg ::
  "(string \<Rightarrow> string option) \<Rightarrow> (string \<Rightarrow> bool) \<Rightarrow> ws_table \<Rightarrow> string \<Rightarrow> string \<Rightarrow> org_error + bool" where
  "sameOrg pg fails tbl a b =
    (if a = b then Inr True
     else case orgRootID pg (fails a) tbl a of
         Inl e \<Rightarrow> Inl e
       | Inr rootA \<Rightarrow>
          (case orgRootID pg (fails b) tbl b of
             Inl e \<Rightarrow> Inl e
           | Inr rootB \<Rightarrow> Inr (rootA = rootB)))"

subsection \<open>Memory namespaces\<close>

definition maxChainDepth :: nat where "maxChainDepth = 50"

datatype NamespaceKind = KindWorkspace | KindTeam | KindOrg

record Namespace =
  ns_Name :: string
  ns_Kind :: NamespaceKind
  ns_Writable :: bool
  ns_DisplayName :: string

datatype namespace_error = ErrWorkspaceNotFound | ErrWalkChain

definition walkChain ::
  "(string \<Rightarrow> string option) \<Rightarrow> bool \<Rightarrow> ws_table \<Rightarrow> string \<Rightarrow> namespace_error + ws_node list" where
  "walkChain pg fails tbl workspaceID =
    (case chain_query pg fails maxChainDepth tbl workspaceID of
       Inl e \<Rightarrow> Inl ErrWalkChain
     | Inr [] \<Rightarrow> Inl ErrWorkspaceNotFound
     | Inr rows \<Rightarrow> Inr (map (\<lambda>r. r\<lparr>wn_parent := Option.bind (wn_parent r) nullif_empty\<rparr>) rows))"

definition derive :: "ws_node list \<Rightarrow> string \<times> string \<times> string" where
  "derive ch =
    (wn_id (hd ch), (case wn_parent (hd ch) of Some p \<Rightarrow> p | None \<Rightarrow> wn_id (hd ch)), wn_id (last ch))"

definition deriveNames :: "ws_node list \<Rightarrow> string \<times> string \<times> string" where
  "deriveNames ch =
    (wn_name (hd ch),
     (if wn_parent (hd ch) \<noteq> None \<and> length ch > 1 then wn_name (ch ! 1) else wn_name (hd ch)),
     wn_name (last ch))"

definition ReadableNamespaces ::
  "(string \<Rightarrow> string option) \<Rightarrow> bool \<Rightarrow> ws_table \<Rightarrow> string \<Rightarrow> namespace_error + Namespace list" where
  "ReadableNamespaces pg fails tbl workspaceID =
    (case walkChain pg fails tbl workspaceID of
       Inl e \<Rightarrow> Inl e
     | Inr ch \<Rightarrow>
        (case (derive ch, deriveNames ch) of
           ((wsID, teamID, orgID), (wsName, teamName, orgName)) \<Rightarrow>
             Inr [\<lparr>ns_Name = ''workspace:'' @ wsID, ns_Kind = KindWorkspace, ns_Writable = True, ns_DisplayName = wsName\<rparr>,
                  \<lparr>ns_Name = ''team:'' @ teamID, ns_Kind = KindTeam, ns_Writable = True, ns_DisplayName = teamName\<rparr>,
                  \<lparr>ns_Name = ''org:'' @ orgID, ns_Kind = KindOrg, ns_Writable = (wn_parent (hd ch) = None),
                   ns_DisplayName = orgName\<rparr>]))"

definition WritableNamespaces ::
  "(string \<Rightarrow> string option) \<Rightarrow> bool \<Rightarrow> ws_table \<Rightarrow> string \<Rightarrow> namespace_error + Namespace list" where
  "WritableNamespaces pg fails tbl workspaceID =
    (case ReadableNamespaces pg fails tbl workspaceID of
       Inl e \<Rightarrow> Inl e
     | Inr nss \<Rightarrow> Inr (filter ns_Writable nss))"

definition CanWrite ::
  "(string \<Rightarrow> string option) \<Rightarrow> bool \<Rightarrow> ws_table \<Rightarrow> string \<Rightarrow> string \<Rightarrow> namespace_error + bool" where
  "CanWrite pg fails tbl workspaceID ns =
    (case WritableNamespaces pg fails tbl workspaceID of
       Inl e \<Rightarrow> Inl e
     | Inr nss \<Rightarrow> Inr (\<exists>x \<in> set nss. ns_Name x = ns))"

definition IntersectReadable ::
  "(string \<Rightarrow> string option) \<Rightarrow> bool \<Rightarrow> ws_table \<Rightarrow> string \<Rightarrow> string list \<Rightarrow> namespace_error + string list" where
  "IntersectReadable pg fails tbl workspaceID requested =
    (case ReadableNamespaces pg fails tbl workspaceID of
       Inl e \<Rightarrow> Inl e
     | Inr nss \<Rightarrow>
        (if requested = [] then Inr (map ns_Name nss)
         else Inr (filter (\<lambda>want. want \<in> ns_Name ` set nss) requested)))"

subsection \<open>The meaning of the walks\<close>

inductive org_root_at :: "ws_table \<Rightarrow> string \<Rightarrow> string \<Rightarrow> nat \<Rightarrow> bool" for tbl :: ws_table where
  at_root: "node tbl i = Some r \<Longrightarrow> wn_parent r = None \<Longrightarrow> org_root_at tbl i i 0"
| at_child: "node tbl i = Some r \<Longrightarrow> wn_parent r = Some p \<Longrightarrow> org_root_at tbl p root d \<Longrightarrow>
    org_root_at tbl i root (Suc d)"

inductive_cases org_root_atE: "org_root_at tbl i root d"

lemma org_root_at_det: "org_root_at tbl i r d \<Longrightarrow> org_root_at tbl i r' d' \<Longrightarrow> r = r' \<and> d = d'"
proof (induction arbitrary: r' d' rule: org_root_at.induct)
  case (at_root i r)
  from at_root(3) show ?case by (rule org_root_atE) (use at_root(1,2) in auto)
next
  case (at_child i r p root d)
  from at_child(5) show ?case
    by (rule org_root_atE) (use at_child(1,2,4) in auto)
qed

lemma org_root_at_node: "org_root_at tbl i r d \<Longrightarrow> node tbl i \<noteq> None"
  by (cases rule: org_root_at.cases) auto

lemma org_root_is_root: "org_root_at tbl i r d \<Longrightarrow> org_root_at tbl r r 0"
  by (induction rule: org_root_at.induct) (auto intro: org_root_at.intros)

text \<open>What the rows of a bounded walk are: the ancestors, one per hop.\<close>

lemma chain_Nil: "chain n tbl i = [] \<longleftrightarrow> node tbl i = None"
  by (cases n) (auto split: option.splits)

lemma chain_hd: "node tbl i = Some r \<Longrightarrow> hd (chain n tbl i) = r"
  by (cases n) (auto split: option.splits)

lemma chain_bounded: "length (chain n tbl i) \<le> Suc n"
  by (induction n arbitrary: i) (auto split: option.splits)

lemma chain_short:
  "org_root_at tbl i root d \<Longrightarrow> d \<le> n \<Longrightarrow>
    chain n tbl i \<noteq> [] \<and> wn_id (last (chain n tbl i)) = root \<and> wn_parent (last (chain n tbl i)) = None"
proof (induction arbitrary: n rule: org_root_at.induct)
  case (at_root i r)
  then show ?case by (cases n) (auto dest: sql_find_Some_iff)
next
  case (at_child i r p root d)
  then obtain m where "n = Suc m" by (cases n) auto
  with at_child show ?case by simp
qed

lemma chain_root:
  "chain n tbl i \<noteq> [] \<Longrightarrow> wn_parent (last (chain n tbl i)) = None \<Longrightarrow>
    \<exists>d \<le> n. org_root_at tbl i (wn_id (last (chain n tbl i))) d"
proof (induction n arbitrary: i)
  case 0
  then show ?case by (auto split: option.splits dest: sql_find_Some_iff intro: at_root)
next
  case (Suc n)
  then obtain r where r: "node tbl i = Some r" by (auto split: option.splits)
  show ?case
  proof (cases "wn_parent r")
    case None
    with r show ?thesis by (auto dest: sql_find_Some_iff intro: at_root)
  next
    case (Some p)
    show ?thesis
    proof (cases "chain n tbl p = []")
      case True
      with Suc(3) r Some show ?thesis by simp
    next
      case False
      with Suc r Some obtain d where "d \<le> n" "org_root_at tbl p (wn_id (last (chain n tbl p))) d" by fastforce
      with False r Some show ?thesis by (auto intro: at_child)
    qed
  qed
qed

text \<open>Inside a walk only the last row can be parentless, so the two ways to read the root agree.\<close>

lemma chain_parentless:
  "filter (\<lambda>r. wn_parent r = None) (chain n tbl i) =
    (if chain n tbl i \<noteq> [] \<and> wn_parent (last (chain n tbl i)) = None then [last (chain n tbl i)] else [])"
proof (induction n arbitrary: i)
  case 0
  then show ?case by (auto split: option.splits)
next
  case (Suc n)
  then show ?case by (cases "node tbl i") (auto split: option.splits)
qed

text \<open>Every row of a walk has the root of its start.\<close>

lemma chain_same_root:
  "org_root_at tbl i root d \<Longrightarrow> r \<in> set (chain n tbl i) \<Longrightarrow> \<exists>e. org_root_at tbl (wn_id r) root e"
proof (induction arbitrary: n rule: org_root_at.induct)
  case (at_root i x)
  then show ?case by (cases n) (auto dest: sql_find_Some_iff intro: org_root_at.at_root)
next
  case (at_child i x p root d)
  have "wn_id x = i" using sql_find_Some_iff [OF at_child(1)] by simp
  then have top: "org_root_at tbl (wn_id x) root (Suc d)"
    using org_root_at.at_child [OF at_child(1-3)] by simp
  from at_child(5) show ?case
  proof (cases n)
    case 0
    with at_child top show ?thesis by auto
  next
    case (Suc m)
    with at_child top show ?thesis by auto
  qed
qed

text \<open>A walk cut off by its bound stops at a workspace that is not the root.\<close>

lemma chain_long:
  "org_root_at tbl i root d \<Longrightarrow> n < d \<Longrightarrow>
    chain n tbl i \<noteq> [] \<and> (\<exists>e > 0. org_root_at tbl (wn_id (last (chain n tbl i))) root e)"
proof (induction n arbitrary: i d)
  case 0
  then obtain r p e where r: "node tbl i = Some r" "wn_parent r = Some p" "org_root_at tbl p root e"
    by (auto elim: org_root_atE)
  from at_child [OF r] sql_find_Some_iff [OF r(1)] r(1) show ?case by auto
next
  case (Suc n)
  then obtain r p e where r: "node tbl i = Some r" "wn_parent r = Some p" "org_root_at tbl p root e" "d = Suc e"
    by (auto elim: org_root_atE)
  with Suc.IH [OF r(3)] Suc.prems(2) show ?case by simp
qed

lemma orgRootID_Inr:
  "orgRootID pg False tbl i = Inr root \<longleftrightarrow>
    root \<noteq> [] \<and> (\<exists>j. pg i = Some j \<and> (\<exists>d \<le> orgRootMaxChainDepth. org_root_at tbl j root d))"
proof (cases "pg i")
  case None
  then show ?thesis by (simp add: orgRootID_def chain_query_def)
next
  case (Some j)
  let ?ch = "chain orgRootMaxChainDepth tbl j"
  have "(\<exists>d \<le> orgRootMaxChainDepth. org_root_at tbl j root d) \<longleftrightarrow>
      ?ch \<noteq> [] \<and> wn_parent (last ?ch) = None \<and> wn_id (last ?ch) = root"
    using chain_root [of orgRootMaxChainDepth tbl j] chain_short [of tbl j root _ orgRootMaxChainDepth] by blast
  with Some show ?thesis by (auto simp: orgRootID_def chain_query_def chain_parentless)
qed

subsection \<open>Trees\<close>

text \<open>A sound table: ids are non-empty and unique, and every chain of parents ends.\<close>

definition tree_ok :: "ws_table \<Rightarrow> bool" where
  "tree_ok tbl \<longleftrightarrow> unique_key wn_id tbl
    \<and> (\<forall>r \<in> set tbl. wn_id r \<noteq> [] \<and> (\<exists>root d. org_root_at tbl (wn_id r) root d))"

lemma tree_root: "tree_ok tbl \<Longrightarrow> node tbl i \<noteq> None \<Longrightarrow> i \<noteq> [] \<and> (\<exists>root d. org_root_at tbl i root d)"
  unfolding tree_ok_def by (metis (mono_tags, lifting) not_None_eq sql_find_Some_iff)

lemma tree_parent:
  "tree_ok tbl \<Longrightarrow> node tbl i = Some r \<Longrightarrow> wn_parent r = Some p \<Longrightarrow> node tbl p \<noteq> None \<and> p \<noteq> []"
proof -
  assume t: "tree_ok tbl" and i: "node tbl i = Some r" and p: "wn_parent r = Some p"
  from tree_root [OF t, of i] i obtain root d where "org_root_at tbl i root d" by auto
  then have "node tbl p \<noteq> None" by (rule org_root_atE) (use i p org_root_at_node in auto)
  with tree_root [OF t] show ?thesis by blast
qed

text \<open>The three namespaces of a workspace, read off the tree.\<close>

definition team_of :: "ws_node \<Rightarrow> string" where
  "team_of r = (case wn_parent r of Some p \<Rightarrow> p | None \<Rightarrow> wn_id r)"

lemma readable_names:
  assumes "tree_ok tbl" and "ReadableNamespaces pg fails tbl a = Inr nss"
  obtains i r where "pg a = Some i" and "node tbl i = Some r" and "\<not> fails"
    and "map ns_Name nss = [''workspace:'' @ i, ''team:'' @ team_of r, ''org:'' @ wn_id (last (chain maxChainDepth tbl i))]"
    and "map ns_Writable nss = [True, True, wn_parent r = None]"
proof -
  from assms(2) obtain i where i: "pg a = Some i" "\<not> fails" and ne: "chain maxChainDepth tbl i \<noteq> []"
    by (auto simp: ReadableNamespaces_def walkChain_def chain_query_def split: if_splits option.splits list.splits)
  then obtain r where r: "node tbl i = Some r" using chain_Nil by fastforce
  let ?f = "\<lambda>r. r\<lparr>wn_parent := Option.bind (wn_parent r) nullif_empty\<rparr>"
  have hd: "hd (map ?f (chain maxChainDepth tbl i)) = ?f r"
    using chain_hd [OF r] ne by (simp add: hd_map)
  have par: "Option.bind (wn_parent r) nullif_empty = wn_parent r"
    using tree_parent [OF assms(1) r] by (cases "wn_parent r") (auto simp: nullif_empty_def)
  have lst: "wn_id (last (map ?f (chain maxChainDepth tbl i))) = wn_id (last (chain maxChainDepth tbl i))"
    using ne by (simp add: last_map)
  have id: "wn_id r = i" using sql_find_Some_iff [OF r] by simp
  have w: "walkChain pg fails tbl a = Inr (map ?f (chain maxChainDepth tbl i))"
    using i ne by (auto simp: walkChain_def chain_query_def split: list.splits)
  obtain wn tn gn where dn: "deriveNames (map ?f (chain maxChainDepth tbl i)) = (wn, tn, gn)"
    by (cases "deriveNames (map ?f (chain maxChainDepth tbl i))") auto
  have dv: "derive (map ?f (chain maxChainDepth tbl i)) =
      (i, team_of r, wn_id (last (chain maxChainDepth tbl i)))"
    by (simp only: derive_def hd lst) (simp add: id par team_of_def split: option.split)
  have "nss = [\<lparr>ns_Name = ''workspace:'' @ i, ns_Kind = KindWorkspace, ns_Writable = True, ns_DisplayName = wn\<rparr>,
      \<lparr>ns_Name = ''team:'' @ team_of r, ns_Kind = KindTeam, ns_Writable = True, ns_DisplayName = tn\<rparr>,
      \<lparr>ns_Name = ''org:'' @ wn_id (last (chain maxChainDepth tbl i)), ns_Kind = KindOrg,
       ns_Writable = (wn_parent r = None), ns_DisplayName = gn\<rparr>]"
    using assms(2) unfolding ReadableNamespaces_def w by (simp add: dv dn hd par)
  with that [OF i(1) r i(2)] show thesis by simp
qed

lemma team_same_root:
  assumes "tree_ok tbl" and "node tbl i = Some r" and "org_root_at tbl i root d"
  shows "\<exists>e. org_root_at tbl (team_of r) root e"
proof (cases "wn_parent r")
  case None
  with assms show ?thesis using sql_find_Some_iff [OF assms(2)] by (auto simp: team_of_def)
next
  case (Some p)
  from assms(3) show ?thesis
    by (rule org_root_atE) (use assms(2) Some in \<open>auto simp: team_of_def\<close>)
qed

text \<open>Every namespace of a workspace is named after a workspace of its own organisation.\<close>

lemma readable_same_root:
  assumes "tree_ok tbl" and "ReadableNamespaces pg fails tbl a = Inr nss" and "x \<in> set nss"
    and "pg a = Some i" and "org_root_at tbl i root d"
  shows "\<exists>j e. ns_Name x \<in> {''workspace:'' @ j, ''team:'' @ j, ''org:'' @ j} \<and> org_root_at tbl j root e"
proof -
  from readable_names [OF assms(1,2)] assms(4) obtain r where r: "node tbl i = Some r"
    and n: "map ns_Name nss = [''workspace:'' @ i, ''team:'' @ team_of r, ''org:'' @ wn_id (last (chain maxChainDepth tbl i))]"
    by (metis option.inject)
  have "ns_Name x \<in> set (map ns_Name nss)" using assms(3) by simp
  then have "ns_Name x \<in> {''workspace:'' @ i, ''team:'' @ team_of r, ''org:'' @ wn_id (last (chain maxChainDepth tbl i))}"
    unfolding n by simp
  moreover have "chain maxChainDepth tbl i \<noteq> []" using r chain_Nil by (metis option.distinct(1))
  then have "\<exists>e. org_root_at tbl (wn_id (last (chain maxChainDepth tbl i))) root e"
    using chain_same_root [OF assms(5) last_in_set] by blast
  ultimately show ?thesis using team_same_root [OF assms(1) r assms(5)] assms(5) by blast
qed

text \<open>What a workspace can write: a readable namespace, and that of an organisation only as its root.\<close>

lemma can_write_names:
  assumes "tree_ok tbl" and "ReadableNamespaces pg fails tbl a = Inr nss" and "pg a = Some i"
    and "CanWrite pg fails tbl a n = Inr True"
  shows "n \<in> ns_Name ` set nss \<and> (\<forall>k. n = ''org:'' @ k \<longrightarrow> k = i \<and> org_root_at tbl i i 0)"
proof -
  from readable_names [OF assms(1,2)] assms(3) obtain r where r: "node tbl i = Some r"
    and nm: "map ns_Name nss = [''workspace:'' @ i, ''team:'' @ team_of r, ''org:'' @ wn_id (last (chain maxChainDepth tbl i))]"
    and wr: "map ns_Writable nss = [True, True, wn_parent r = None]"
    by (metis option.inject)
  from assms(2,4) obtain x where x: "x \<in> set nss" "ns_Writable x" "ns_Name x = n"
    by (auto simp: CanWrite_def WritableNamespaces_def)
  from nm obtain n1 n2 n3 where l: "nss = [n1, n2, n3]" by (auto simp: map_eq_Cons_conv)
  have "k = i \<and> org_root_at tbl i i 0" if "n = ''org:'' @ k" for k
  proof -
    from x l nm that have "x = n3" by auto
    with x(2) l wr have p: "wn_parent r = None" by auto
    have "wn_id (last (chain maxChainDepth tbl i)) = i"
      using chain_short [OF at_root [OF r p], of maxChainDepth] by simp
    with \<open>x = n3\<close> x(3) l nm that at_root [OF r p] show ?thesis by auto
  qed
  with x show ?thesis by auto
qed

text \<open>
  Chains of 51 to 64 hops are resolved by the organisation walk but not by the resolver, which
  then reads the organisation namespace of a workspace on the way.
\<close>

lemma deep_chain_other_namespace:
  assumes "tree_ok tbl" and "ReadableNamespaces pg fails tbl a = Inr nss" and "pg a = Some i"
    and "org_root_at tbl i root d" and "maxChainDepth < d" and "d \<le> orgRootMaxChainDepth"
  shows "orgRootID pg False tbl a = Inr root \<and> ''org:'' @ root \<notin> ns_Name ` set nss"
proof -
  from readable_names [OF assms(1,2)] assms(3) obtain r where
    n: "map ns_Name nss = [''workspace:'' @ i, ''team:'' @ team_of r, ''org:'' @ wn_id (last (chain maxChainDepth tbl i))]"
    by (metis option.inject)
  from chain_long [OF assms(4,5)] obtain e where "e > 0" "org_root_at tbl (wn_id (last (chain maxChainDepth tbl i))) root e" by blast
  with org_root_is_root [OF assms(4)] org_root_at_det have "wn_id (last (chain maxChainDepth tbl i)) \<noteq> root" by fastforce
  then have "''org:'' @ root \<notin> set (map ns_Name nss)" unfolding n by simp
  moreover have "root \<noteq> []" using tree_root [OF assms(1)] org_root_at_node [OF org_root_is_root [OF assms(4)]] by blast
  ultimately show ?thesis using assms(3,4,6) by (auto simp: orgRootID_Inr)
qed

lemma prefix_names:
  "{''workspace:'' @ j, ''team:'' @ j, ''org:'' @ j} \<inter> {''workspace:'' @ k, ''team:'' @ k, ''org:'' @ k} \<noteq> {} \<Longrightarrow> j = k"
  by auto

subsection \<open>Properties\<close>

text \<open>
  C33: memory isolation. A memory namespace that two workspaces of a sound tree can both read
  belongs to workspaces of one organisation, whatever the depth of the tree and also when the walk
  is cut off by its depth bound; every write is to a readable namespace, and the namespace of an
  organisation is written by its root only.
\<close>

theorem namespaces_isolated:
  assumes "tree_ok tbl" and "ReadableNamespaces pg fa tbl a = Inr na" and "ReadableNamespaces pg fb tbl b = Inr nb"
    and "x \<in> set na" and "y \<in> set nb" and "ns_Name x = ns_Name y"
  shows "\<exists>i j root d e. pg a = Some i \<and> pg b = Some j \<and> org_root_at tbl i root d \<and> org_root_at tbl j root e
    \<and> (\<forall>n. CanWrite pg fa tbl a n = Inr True \<longrightarrow>
          n \<in> ns_Name ` set na \<and> (\<forall>k. n = ''org:'' @ k \<longrightarrow> k = i \<and> i = root))"
proof -
  obtain i j where i: "pg a = Some i" "node tbl i \<noteq> None" and j: "pg b = Some j" "node tbl j \<noteq> None"
    using readable_names [OF assms(1,2)] readable_names [OF assms(1,3)] by (metis option.distinct(1))
  from tree_root [OF assms(1) i(2)] tree_root [OF assms(1) j(2)]
  obtain ri di rj dj where r: "org_root_at tbl i ri di" "org_root_at tbl j rj dj" by blast
  from readable_same_root [OF assms(1,2,4) i(1) r(1)] obtain k e
    where k: "ns_Name x \<in> {''workspace:'' @ k, ''team:'' @ k, ''org:'' @ k}" "org_root_at tbl k ri e" by blast
  from readable_same_root [OF assms(1,3,5) j(1) r(2)] obtain l f
    where l: "ns_Name y \<in> {''workspace:'' @ l, ''team:'' @ l, ''org:'' @ l}" "org_root_at tbl l rj f" by blast
  from k(1) l(1) assms(6) prefix_names [of k l] have "k = l" by auto
  with k(2) l(2) org_root_at_det have "ri = rj" by blast
  moreover have "n \<in> ns_Name ` set na \<and> (\<forall>k. n = ''org:'' @ k \<longrightarrow> k = i \<and> i = ri)"
    if "CanWrite pg fa tbl a n = Inr True" for n
    using can_write_names [OF assms(1,2) i(1) that] org_root_at_det [OF r(1)] by blast
  ultimately show ?thesis using i j r by blast
qed

definition example_nodes :: ws_table where
  "example_nodes =
    [\<lparr>wn_id = ''root'', wn_parent = None, wn_name = ''Org'', wn_status = ''online''\<rparr>,
     \<lparr>wn_id = ''team'', wn_parent = Some ''root'', wn_name = ''Team'', wn_status = ''online''\<rparr>,
     \<lparr>wn_id = ''dev'', wn_parent = Some ''team'', wn_name = ''Dev'', wn_status = ''online''\<rparr>,
     \<lparr>wn_id = ''solo'', wn_parent = None, wn_name = ''Solo'', wn_status = ''online''\<rparr>]"

lemma example_roots:
  "org_root_at example_nodes ''root'' ''root'' 0" "org_root_at example_nodes ''team'' ''root'' 1"
  "org_root_at example_nodes ''dev'' ''root'' (Suc 1)" "org_root_at example_nodes ''solo'' ''solo'' 0"
proof -
  have n: "node example_nodes ''root'' = Some (example_nodes ! 0)" "node example_nodes ''team'' = Some (example_nodes ! 1)"
    "node example_nodes ''dev'' = Some (example_nodes ! 2)" "node example_nodes ''solo'' = Some (example_nodes ! 3)"
    by (simp_all add: example_nodes_def sql_find_Cons)
  show r: "org_root_at example_nodes ''root'' ''root'' 0" "org_root_at example_nodes ''solo'' ''solo'' 0"
    using n by (auto intro!: at_root simp: example_nodes_def)
  from at_child [OF n(2) _ r(1)] show t: "org_root_at example_nodes ''team'' ''root'' 1" by (simp add: example_nodes_def)
  from at_child [OF n(3) _ t] show "org_root_at example_nodes ''dev'' ''root'' (Suc 1)" by (simp add: example_nodes_def)
qed

lemma example_tree: "tree_ok example_nodes"
proof -
  have "unique_key wn_id example_nodes" by (simp add: unique_key_def example_nodes_def)
  moreover have "wn_id r \<noteq> [] \<and> (\<exists>root d. org_root_at example_nodes (wn_id r) root d)"
    if "r \<in> set example_nodes" for r
  proof -
    from that have "wn_id r \<in> {''root'', ''team'', ''dev'', ''solo''}" by (auto simp: example_nodes_def)
    then consider "wn_id r = ''root''" | "wn_id r = ''team''" | "wn_id r = ''dev''" | "wn_id r = ''solo''" by blast
    then show ?thesis by cases (use example_roots in \<open>simp_all, blast+\<close>)
  qed
  ultimately show ?thesis by (simp add: tree_ok_def)
qed

lemma example_namespaces:
  "ReadableNamespaces Some False example_nodes ''dev'' = Inr
    [\<lparr>ns_Name = ''workspace:dev'', ns_Kind = KindWorkspace, ns_Writable = True, ns_DisplayName = ''Dev''\<rparr>,
     \<lparr>ns_Name = ''team:team'', ns_Kind = KindTeam, ns_Writable = True, ns_DisplayName = ''Team''\<rparr>,
     \<lparr>ns_Name = ''org:root'', ns_Kind = KindOrg, ns_Writable = False, ns_DisplayName = ''Org''\<rparr>]"
  "ReadableNamespaces Some False example_nodes ''root'' = Inr
    [\<lparr>ns_Name = ''workspace:root'', ns_Kind = KindWorkspace, ns_Writable = True, ns_DisplayName = ''Org''\<rparr>,
     \<lparr>ns_Name = ''team:root'', ns_Kind = KindTeam, ns_Writable = True, ns_DisplayName = ''Org''\<rparr>,
     \<lparr>ns_Name = ''org:root'', ns_Kind = KindOrg, ns_Writable = True, ns_DisplayName = ''Org''\<rparr>]"
  by (simp_all add: ReadableNamespaces_def walkChain_def chain_query_def derive_def deriveNames_def maxChainDepth_def
      example_nodes_def sql_find_Cons numeral_eq_Suc)

theorem namespaces_isolated_witness:
  "(\<exists>root d e. org_root_at example_nodes ''dev'' root d \<and> org_root_at example_nodes ''root'' root e)
   \<and> CanWrite Some False example_nodes ''dev'' ''org:root'' = Inr False"
proof -
  have c: "CanWrite Some False example_nodes ''dev'' ''org:root'' = Inr False"
    by (simp add: CanWrite_def WritableNamespaces_def example_namespaces)
  show ?thesis
    using namespaces_isolated [OF example_tree example_namespaces, of
      "\<lparr>ns_Name = ''org:root'', ns_Kind = KindOrg, ns_Writable = False, ns_DisplayName = ''Org''\<rparr>"
      "\<lparr>ns_Name = ''org:root'', ns_Kind = KindOrg, ns_Writable = True, ns_DisplayName = ''Org''\<rparr>"] c
    by auto
qed

text \<open>
  the tenant walk ends and fails closed. On every table, cyclic ones included, the recursive
  query yields at most 65 rows; \<open>orgRootID\<close> gives a root exactly for the chains that reach a
  parentless row within 64 hops, \<open>errNoOrgRoot\<close> or a database error otherwise, and two distinct
  workspaces count as one organisation only if both chains reach the same root.
\<close>

theorem org_walk_ends:
  "length (chain orgRootMaxChainDepth tbl i) \<le> 65
   \<and> (orgRootID pg fails tbl a = Inr root \<longleftrightarrow>
        \<not> fails \<and> root \<noteq> [] \<and> (\<exists>j. pg a = Some j \<and> (\<exists>d \<le> 64. org_root_at tbl j root d)))
   \<and> (sameOrg pg fl tbl a b = Inr True \<longleftrightarrow>
        a = b \<or> (\<exists>r j k. r \<noteq> [] \<and> \<not> fl a \<and> \<not> fl b \<and> pg a = Some j \<and> pg b = Some k
                  \<and> (\<exists>d \<le> 64. org_root_at tbl j r d) \<and> (\<exists>d \<le> 64. org_root_at tbl k r d)))"
proof -
  have f: "orgRootID pg f tbl c = Inr r \<longleftrightarrow> \<not> f \<and> orgRootID pg False tbl c = Inr r" for f c r
    by (simp add: orgRootID_def chain_query_def)
  have s: "sameOrg pg fl tbl a b = Inr True \<longleftrightarrow>
      a = b \<or> (\<exists>r. orgRootID pg (fl a) tbl a = Inr r \<and> orgRootID pg (fl b) tbl b = Inr r)"
    by (auto simp: sameOrg_def split: sum.splits)
  show ?thesis
    unfolding s f [of _ a] f [of _ b] orgRootID_Inr
    using chain_bounded [of orgRootMaxChainDepth tbl i] by (auto simp: orgRootMaxChainDepth_def)
qed

end
