(* ===== verification/Reparent.thy ===== *)
theory Reparent
  imports Org_Tree
begin

text \<open>
  Moving a workspace in the tree (\<^verbatim>\<open>internal/handlers/workspace_reparent.go\<close>), the guarded
  change of \<open>parent_id\<close>.

  The transaction reads the roots of both ends once before it holds its locks and everything
  else after: \<open>db0\<close> is the database at the unlocked read, \<open>db\<close> the one under the locks, so that
  moves committed in between are covered. \<open>fails\<close> says which statements fail. A rejection is
  its status and code; the message texts and the details are not modelled, nor is \<open>updated_at\<close>.
\<close>

subsection \<open>Rejections\<close>

definition reparentMaxDepth :: nat where "reparentMaxDepth = 64"

definition reparentCodeInvalid :: string where "reparentCodeInvalid = ''WORKSPACE_REPARENT_INVALID_PARENT_ID''"
definition reparentCodeSelf :: string where "reparentCodeSelf = ''WORKSPACE_REPARENT_SELF''"
definition reparentCodeNotFound :: string where "reparentCodeNotFound = ''WORKSPACE_REPARENT_PARENT_NOT_FOUND''"
definition reparentCodeCycle :: string where "reparentCodeCycle = ''WORKSPACE_REPARENT_CYCLE''"
definition reparentCodeCrossOrg :: string where "reparentCodeCrossOrg = ''WORKSPACE_REPARENT_CROSS_ORG''"
definition reparentCodeRootPromotion :: string where
  "reparentCodeRootPromotion = ''WORKSPACE_REPARENT_ROOT_PROMOTION_FORBIDDEN''"
definition reparentCodeNameConflict :: string where "reparentCodeNameConflict = ''WORKSPACE_REPARENT_NAME_CONFLICT''"
definition reparentCodeUnresolvable :: string where "reparentCodeUnresolvable = ''WORKSPACE_REPARENT_ORG_UNRESOLVABLE''"
definition reparentCodeConcurrent :: string where
  "reparentCodeConcurrent = ''WORKSPACE_REPARENT_CONCURRENT_MODIFICATION''"

datatype reparentError = Reject int string | ReparentDB

datatype reparent_site =
  AtBegin | AtLocateSource | AtLocateTarget | AtLock | AtRecheck | AtNoopRoot | AtDescendants | AtSourceRoot
  | AtTargetRoot | AtChildren | AtUpdate | AtTokens | AtAllowCopy | AtAllowClear | AtVerify | AtCommit

subsection \<open>State and outcome\<close>

record allow_row =
  pa_org :: string
  pa_plugin :: string
  pa_by :: string
  pa_at :: time

record org_db =
  od_workspaces :: ws_table
  od_tokens :: "(string \<times> string option) list"
  od_allow :: "allow_row list"

record reparentOutcome =
  ro_Changed :: bool
  ro_Adopted :: bool
  ro_OldParent :: string
  ro_NewParent :: string
  ro_OrgRoot :: string
  ro_Lost :: "string list"
  ro_Gained :: "string list"

definition parseReparentTarget :: "(string \<Rightarrow> bool) \<Rightarrow> json \<Rightarrow> reparentError + string option" where
  "parseReparentTarget uuid_ok raw =
    (case raw of
       JNull \<Rightarrow> Inr None
     | JStr s \<Rightarrow>
        if s = [] then Inl (Reject 400 reparentCodeInvalid)
        else if \<not> uuid_ok s then Inl (Reject 400 reparentCodeInvalid)
        else Inr (Some s)
     | _ \<Rightarrow> Inl (Reject 400 reparentCodeInvalid))"

subsection \<open>The walks of the transaction\<close>

definition reparentOrgRoot ::
  "(string \<Rightarrow> string option) \<Rightarrow> bool \<Rightarrow> ws_table \<Rightarrow> string \<Rightarrow> reparentError + (string \<times> bool)" where
  "reparentOrgRoot pg fails tbl workspaceID =
    (case chain_query pg fails reparentMaxDepth tbl workspaceID of
       Inl e \<Rightarrow> Inl ReparentDB
     | Inr rows \<Rightarrow>
        Inr (if rows \<noteq> [] \<and> wn_parent (last rows) = None then (wn_id (last rows), True) else ([], False)))"

definition children :: "ws_table \<Rightarrow> string list \<Rightarrow> ws_node list" where
  "children tbl ids = filter (\<lambda>r. wn_parent r \<in> Some ` set ids \<and> wn_status r \<noteq> ''removed'') tbl"

fun descend :: "nat \<Rightarrow> ws_table \<Rightarrow> string list \<Rightarrow> ws_node list" where
  "descend 0 tbl ids = children tbl ids"
| "descend (Suc n) tbl ids = children tbl ids @ descend n tbl (map wn_id (children tbl ids))"

definition reparentIsDescendant ::
  "(string \<Rightarrow> string option) \<Rightarrow> bool \<Rightarrow> ws_table \<Rightarrow> string \<Rightarrow> string \<Rightarrow> reparentError + bool" where
  "reparentIsDescendant pg fails tbl workspaceID candidate =
    (if workspaceID = candidate then Inr True
     else if fails then Inl ReparentDB
     else case (pg workspaceID, pg candidate) of
         (Some i, Some c) \<Rightarrow> Inr (c \<in> wn_id ` set (descend reparentMaxDepth tbl [i]))
       | _ \<Rightarrow> Inl ReparentDB)"

definition add_lock :: "string \<Rightarrow> string list \<Rightarrow> string list" where
  "add_lock i ids = (if i = [] \<or> i \<in> set ids then ids else ids @ [i])"

definition lock_rows ::
  "(string \<Rightarrow> string option) \<Rightarrow> bool \<Rightarrow> ws_table \<Rightarrow> string list \<Rightarrow> reparentError + (string \<Rightarrow> ws_node option)" where
  "lock_rows pg fails tbl ids =
    (if fails \<or> None \<in> pg ` set ids then Inl ReparentDB
     else Inr (\<lambda>x. if Some x \<in> pg ` set ids then node tbl x else None))"

subsection \<open>The transaction\<close>

text \<open>Step 0: the unlocked reads. \<open>target\<close> is \<open>None\<close> when the caller asked for no parent.\<close>

definition locate ::
  "(string \<Rightarrow> string option) \<Rightarrow> (reparent_site \<Rightarrow> bool) \<Rightarrow> ws_table \<Rightarrow> string \<Rightarrow> string option
     \<Rightarrow> reparentError + ((string \<times> bool) \<times> string)" where
  "locate pg fails tbl workspaceID target =
    and_then (reparentOrgRoot pg (fails AtLocateSource) tbl workspaceID) (\<lambda>src.
      case target of
        None \<Rightarrow> Inr (src, [])
      | Some t \<Rightarrow>
          if t = workspaceID then Inr (src, [])
          else and_then (reparentOrgRoot pg (fails AtLocateTarget) tbl t) (\<lambda>(r, _). Inr (src, r)))"

definition lock_ids :: "string \<Rightarrow> string option \<Rightarrow> string \<Rightarrow> string \<Rightarrow> string list" where
  "lock_ids workspaceID target srcRoot targetRoot =
    add_lock targetRoot (add_lock srcRoot
      (case target of
         Some t \<Rightarrow> if t \<noteq> workspaceID then add_lock t [workspaceID] else [workspaceID]
       | None \<Rightarrow> [workspaceID]))"

text \<open>What the checks under the locks decide: nothing to do, or a move with its root afterwards.\<close>

datatype reparent_decision = Unchanged reparentOutcome | MoveTo string string bool string string

definition no_change :: "string \<Rightarrow> string \<Rightarrow> string \<Rightarrow> reparentOutcome" where
  "no_change oldParent newParent root =
    \<lparr>ro_Changed = False, ro_Adopted = False, ro_OldParent = oldParent, ro_NewParent = newParent, ro_OrgRoot = root,
     ro_Lost = [], ro_Gained = []\<rparr>"

definition child_count :: "ws_table \<Rightarrow> string \<Rightarrow> nat" where
  "child_count tbl i = length (filter (\<lambda>r. wn_parent r = Some i \<and> wn_status r \<noteq> ''removed'') tbl)"

definition decide_move ::
  "(string \<Rightarrow> string option) \<Rightarrow> (reparent_site \<Rightarrow> bool) \<Rightarrow> ws_table \<Rightarrow> string \<Rightarrow> string \<Rightarrow> string
     \<Rightarrow> reparentError + reparent_decision" where
  "decide_move pg fails tbl workspaceID oldParent target =
    and_then (reparentIsDescendant pg (fails AtDescendants) tbl workspaceID target) (\<lambda>isDesc.
    and_then (guard_error isDesc (Reject 422 reparentCodeCycle)) (\<lambda>_.
    and_then (reparentOrgRoot pg (fails AtSourceRoot) tbl workspaceID) (\<lambda>(oldRoot, ok).
    and_then (guard_error (\<not> ok) (Reject 409 reparentCodeUnresolvable)) (\<lambda>_.
    and_then (reparentOrgRoot pg (fails AtTargetRoot) tbl target) (\<lambda>(targetRoot, tok).
    and_then (guard_error (\<not> tok) (Reject 409 reparentCodeUnresolvable)) (\<lambda>_.
      if oldRoot = targetRoot then Inr (MoveTo target oldParent False oldRoot targetRoot)
      else if oldParent = [] then
        and_then (guard_error (fails AtChildren) ReparentDB) (\<lambda>_.
        and_then (guard_error (child_count tbl workspaceID > 0) (Reject 422 reparentCodeCrossOrg)) (\<lambda>_.
          Inr (MoveTo target oldParent True targetRoot targetRoot)))
      else Inl (Reject 422 reparentCodeCrossOrg)))))))"

definition decide_target ::
  "(string \<Rightarrow> string option) \<Rightarrow> (reparent_site \<Rightarrow> bool) \<Rightarrow> ws_table \<Rightarrow> (string \<Rightarrow> ws_node option) \<Rightarrow> string \<Rightarrow> string
     \<Rightarrow> string option \<Rightarrow> reparentError + reparent_decision" where
  "decide_target pg fails tbl locked workspaceID oldParent target =
    (case target of
       None \<Rightarrow>
         if oldParent = [] then Inr (Unchanged (no_change [] [] workspaceID))
         else Inl (Reject 422 reparentCodeRootPromotion)
     | Some t \<Rightarrow>
         if t = workspaceID then Inl (Reject 422 reparentCodeSelf)
         else if oldParent = t then
           and_then (reparentOrgRoot pg (fails AtNoopRoot) tbl workspaceID) (\<lambda>(root, ok).
           and_then (guard_error (\<not> ok) (Reject 409 reparentCodeUnresolvable)) (\<lambda>_.
             Inr (Unchanged (no_change oldParent t root))))
         else case locked t of
             None \<Rightarrow> Inl (Reject 422 reparentCodeNotFound)
           | Some newParent \<Rightarrow>
               if wn_status newParent = ''removed'' then Inl (Reject 422 reparentCodeNotFound)
               else decide_move pg fails tbl workspaceID oldParent t)"

definition old_parent :: "ws_node \<Rightarrow> string" where
  "old_parent self = (case wn_parent self of None \<Rightarrow> [] | Some p \<Rightarrow> p)"

definition decide_reparent ::
  "(string \<Rightarrow> string option) \<Rightarrow> (reparent_site \<Rightarrow> bool) \<Rightarrow> ws_table \<Rightarrow> string \<Rightarrow> string option
     \<Rightarrow> (string \<times> bool) \<Rightarrow> string \<Rightarrow> reparentError + reparent_decision" where
  "decide_reparent pg fails tbl workspaceID target src targetCandidate =
    and_then (lock_rows pg (fails AtLock) tbl (lock_ids workspaceID target (fst src) targetCandidate)) (\<lambda>locked.
      case locked workspaceID of
        None \<Rightarrow> Inl (Reject 404 reparentCodeNotFound)
      | Some self \<Rightarrow>
          and_then (reparentOrgRoot pg (fails AtRecheck) tbl workspaceID) (\<lambda>again.
          and_then (guard_error (snd again \<noteq> snd src \<or> fst again \<noteq> fst src) (Reject 409 reparentCodeConcurrent)) (\<lambda>_.
          and_then (guard_error (wn_status self = ''removed'') (Reject 404 reparentCodeNotFound)) (\<lambda>_.
            decide_target pg fails tbl locked workspaceID (old_parent self) target))))"

text \<open>Steps 8 to 9: the write, the migration of the anchors, the verification of the result.\<close>

definition zero_uuid :: string where "zero_uuid = ''00000000-0000-0000-0000-000000000000''"

definition index_parent :: "ws_node \<Rightarrow> string" where
  "index_parent r = (case wn_parent r of None \<Rightarrow> zero_uuid | Some p \<Rightarrow> p)"

definition set_parent :: "string \<Rightarrow> string \<Rightarrow> ws_table \<Rightarrow> ws_table" where
  "set_parent i p tbl = sql_update (\<lambda>r. wn_id r = i) (\<lambda>r. r\<lparr>wn_parent := Some p\<rparr>) tbl"

definition name_clash :: "ws_table \<Rightarrow> string \<Rightarrow> string \<Rightarrow> bool" where
  "name_clash tbl i p \<longleftrightarrow>
    (\<exists>self \<in> set tbl. wn_id self = i \<and> wn_status self \<noteq> ''removed''
      \<and> (\<exists>r \<in> set tbl. wn_id r \<noteq> i \<and> wn_status r \<noteq> ''removed'' \<and> index_parent r = p \<and> wn_name r = wn_name self))"

definition copy_allow :: "string \<Rightarrow> string \<Rightarrow> allow_row list \<Rightarrow> allow_row list" where
  "copy_allow targetRoot workspaceID rows =
    rows @ filter (\<lambda>n. \<not> (\<exists>r \<in> set rows. pa_org r = targetRoot \<and> pa_plugin r = pa_plugin n))
             (map (\<lambda>r. r\<lparr>pa_org := targetRoot\<rparr>) (filter (\<lambda>r. pa_org r = workspaceID) rows))"

definition migrate_anchors :: "string \<Rightarrow> string \<Rightarrow> org_db \<Rightarrow> org_db" where
  "migrate_anchors targetRoot workspaceID db =
    db\<lparr>od_tokens := map (\<lambda>(t, org). (t, if org = Some workspaceID then Some targetRoot else org)) (od_tokens db),
       od_allow := filter (\<lambda>r. pa_org r \<noteq> workspaceID) (copy_allow targetRoot workspaceID (od_allow db))\<rparr>"

definition move_outcome :: "string \<Rightarrow> string \<Rightarrow> string \<Rightarrow> bool \<Rightarrow> string \<Rightarrow> string \<Rightarrow> reparentOutcome" where
  "move_outcome workspaceID target oldParent adoption expectedRoot targetRoot =
    \<lparr>ro_Changed = True, ro_Adopted = adoption, ro_OldParent = oldParent, ro_NewParent = target, ro_OrgRoot = expectedRoot,
     ro_Lost = (if adoption then [''team:'' @ workspaceID, ''org:'' @ workspaceID @ '' (writable)''] else [''team:'' @ oldParent]),
     ro_Gained = [''team:'' @ target] @ (if adoption then [''org:'' @ targetRoot @ '' (read-only)''] else [])\<rparr>"

definition write_move ::
  "(string \<Rightarrow> string option) \<Rightarrow> (reparent_site \<Rightarrow> bool) \<Rightarrow> org_db \<Rightarrow> string \<Rightarrow> string
     \<Rightarrow> string \<Rightarrow> bool \<Rightarrow> string \<Rightarrow> string \<Rightarrow> reparentError + (reparentOutcome \<times> org_db)" where
  "write_move pg fails db workspaceID target oldParent adoption expectedRoot targetRoot =
    and_then (guard_error (fails AtUpdate) ReparentDB) (\<lambda>_.
    and_then (guard_error (name_clash (od_workspaces db) workspaceID target) (Reject 409 reparentCodeNameConflict)) (\<lambda>_.
    let moved = db\<lparr>od_workspaces := set_parent workspaceID target (od_workspaces db)\<rparr> in
    and_then (guard_error (adoption \<and> (fails AtTokens \<or> fails AtAllowCopy \<or> fails AtAllowClear)) ReparentDB) (\<lambda>_.
    let moved = (if adoption then migrate_anchors targetRoot workspaceID moved else moved) in
    and_then (reparentOrgRoot pg (fails AtVerify) (od_workspaces moved) workspaceID) (\<lambda>(postRoot, ok).
    and_then (guard_error (\<not> ok) (Reject 409 reparentCodeCycle)) (\<lambda>_.
    and_then (guard_error (postRoot \<noteq> expectedRoot) (Reject 422 reparentCodeCrossOrg)) (\<lambda>_.
    and_then (guard_error (fails AtCommit) ReparentDB) (\<lambda>_.
      Inr (move_outcome workspaceID target oldParent adoption expectedRoot targetRoot, moved))))))))"

definition reparent_tx ::
  "(string \<Rightarrow> bool) \<Rightarrow> (string \<Rightarrow> string option) \<Rightarrow> (reparent_site \<Rightarrow> bool) \<Rightarrow> org_db \<Rightarrow> org_db \<Rightarrow> string \<Rightarrow> json
     \<Rightarrow> reparentError + (reparentOutcome \<times> org_db)" where
  "reparent_tx uuid_ok pg fails db0 db workspaceID raw =
    and_then (parseReparentTarget uuid_ok raw) (\<lambda>target.
    and_then (guard_error (fails AtBegin) ReparentDB) (\<lambda>_.
    and_then (locate pg fails (od_workspaces db0) workspaceID target) (\<lambda>(src, targetCandidate).
    and_then (decide_reparent pg fails (od_workspaces db) workspaceID target src targetCandidate) (\<lambda>dec.
      case dec of
        Unchanged out \<Rightarrow> Inr (out, db)
      | MoveTo t oldParent adoption expectedRoot targetRoot \<Rightarrow>
          write_move pg fails db workspaceID t oldParent adoption expectedRoot targetRoot))))"

text \<open>Every error returns with the transaction rolled back.\<close>

definition applyReparent ::
  "(string \<Rightarrow> bool) \<Rightarrow> (string \<Rightarrow> string option) \<Rightarrow> (reparent_site \<Rightarrow> bool) \<Rightarrow> org_db \<Rightarrow> org_db \<Rightarrow> string \<Rightarrow> json
     \<Rightarrow> (reparentError + reparentOutcome) \<times> org_db" where
  "applyReparent uuid_ok pg fails db0 db workspaceID raw =
    (case reparent_tx uuid_ok pg fails db0 db workspaceID raw of
       Inl e \<Rightarrow> (Inl e, db)
     | Inr (out, db') \<Rightarrow> (Inr out, db'))"


text \<open>
  The parent a caller names on creation. \<open>anchor\<close> is the organisation an org token is bound to
  (empty for other callers); \<open>agent_id\<close> is \<open>DeterministicPlatformAgentID\<close>, a hash of the organisation.
\<close>

definition orgAnchorMatchesRoot :: "(string \<Rightarrow> string) \<Rightarrow> string \<Rightarrow> string \<Rightarrow> bool" where
  "orgAnchorMatchesRoot agent_id orgAnchor root =
    (if orgAnchor = [] \<or> root = [] then False else orgAnchor = root \<or> agent_id orgAnchor = root)"

definition validateCreateParentID ::
  "(string \<Rightarrow> bool) \<Rightarrow> (string \<Rightarrow> string option) \<Rightarrow> (string \<Rightarrow> string) \<Rightarrow> bool \<Rightarrow> bool \<Rightarrow> ws_table \<Rightarrow> string \<Rightarrow> string
     \<Rightarrow> reparentError + unit" where
  "validateCreateParentID uuid_ok pg agent_id status_fails root_fails tbl anchor raw =
    (if raw = [] then Inr ()
     else if \<not> uuid_ok raw then Inl (Reject 400 reparentCodeInvalid)
     else if status_fails then Inl ReparentDB
     else case pg raw of
         None \<Rightarrow> Inl ReparentDB
       | Some i \<Rightarrow>
          (case node tbl i of
             None \<Rightarrow> Inl (Reject 422 reparentCodeNotFound)
           | Some r \<Rightarrow>
              if wn_status r = ''removed'' then Inl (Reject 422 reparentCodeNotFound)
              else if anchor = [] then Inr ()
              else case orgRootID pg root_fails tbl raw of
                  Inl ErrNoOrgRoot \<Rightarrow> Inl (Reject 422 reparentCodeUnresolvable)
                | Inl ErrOrgDB \<Rightarrow> Inl ReparentDB
                | Inr parentRoot \<Rightarrow>
                    if \<not> orgAnchorMatchesRoot agent_id anchor parentRoot then Inl (Reject 403 reparentCodeCrossOrg)
                    else Inr ()))"

subsection \<open>What a move does to the tree\<close>

lemma reparentOrgRoot_ok:
  "reparentOrgRoot pg fails tbl i = Inr (root, True) \<longleftrightarrow>
    \<not> fails \<and> (\<exists>j. pg i = Some j \<and> (\<exists>d \<le> reparentMaxDepth. org_root_at tbl j root d))"
proof (cases "pg i")
  case None
  then show ?thesis by (simp add: reparentOrgRoot_def chain_query_def)
next
  case (Some j)
  let ?ch = "chain reparentMaxDepth tbl j"
  have "(\<exists>d \<le> reparentMaxDepth. org_root_at tbl j root d) \<longleftrightarrow>
      ?ch \<noteq> [] \<and> wn_parent (last ?ch) = None \<and> wn_id (last ?ch) = root"
    using chain_root [of reparentMaxDepth tbl j] chain_short [of tbl j root _ reparentMaxDepth] by blast
  with Some show ?thesis by (auto simp: reparentOrgRoot_def chain_query_def)
qed

text \<open>The subtree: \<open>below tbl x i\<close> holds when \<open>i\<close> is \<open>x\<close> or an ancestor of it.\<close>

inductive below :: "ws_table \<Rightarrow> string \<Rightarrow> string \<Rightarrow> bool" for tbl :: ws_table where
  below_refl: "below tbl i i"
| below_up: "node tbl x = Some r \<Longrightarrow> wn_parent r = Some p \<Longrightarrow> below tbl p i \<Longrightarrow> below tbl x i"

lemma below_root: "below tbl x i \<Longrightarrow> org_root_at tbl x root d \<Longrightarrow> \<exists>e. org_root_at tbl i root e"
proof (induction arbitrary: d rule: below.induct)
  case (below_up x r p i)
  from below_up(5) obtain e where "org_root_at tbl p root e"
    by (rule org_root_atE) (use below_up(1,2) in auto)
  then show ?case by (rule below_up(4))
qed blast

lemma below_child:
  "below tbl x i \<Longrightarrow> x \<noteq> i \<Longrightarrow> \<exists>c \<in> set tbl. wn_parent c = Some i \<and> below tbl x (wn_id c)"
proof (induction rule: below.induct)
  case (below_up x r p i)
  show ?case
  proof (cases "p = i")
    case True
    with below_up(1,2) show ?thesis using sql_find_Some_iff [OF below_up(1)] below_refl by blast
  next
    case False
    with below_up(4) obtain c where "c \<in> set tbl" "wn_parent c = Some i" "below tbl p (wn_id c)" by blast
    with below_up(1,2) show ?thesis using below.below_up by blast
  qed
qed blast

lemma node_set_parent:
  "node (set_parent i p tbl) x = map_option (\<lambda>r. if wn_id r = i then r\<lparr>wn_parent := Some p\<rparr> else r) (node tbl x)"
  unfolding set_parent_def by (rule sql_find_sql_update) simp

lemma node_set_parent_other: "x \<noteq> i \<Longrightarrow> node (set_parent i p tbl) x = node tbl x"
  unfolding node_set_parent by (cases "node tbl x") (auto dest: sql_find_Some_iff)

lemma map_id_set_parent: "map wn_id (set_parent i p tbl) = map wn_id tbl"
  unfolding set_parent_def by (rule map_key_sql_update) simp

text \<open>Roots after a write: a workspace keeps its root unless it is below the one that moved.\<close>

lemma set_parent_roots:
  assumes "org_root_at (set_parent i p tbl) i new d'"
  shows "org_root_at tbl x root d \<Longrightarrow>
    (\<exists>e. org_root_at (set_parent i p tbl) x root e) \<or> (below tbl x i \<and> (\<exists>e. org_root_at (set_parent i p tbl) x new e))"
proof (induction rule: org_root_at.induct)
  case (at_root x r)
  show ?case
  proof (cases "x = i")
    case True
    with assms below_refl show ?thesis by blast
  next
    case False
    then have "node (set_parent i p tbl) x = Some r" using node_set_parent_other at_root(1) by simp
    with at_root(2) org_root_at.at_root show ?thesis by blast
  qed
next
  case (at_child x r q root d)
  show ?case
  proof (cases "x = i")
    case True
    with assms below_refl show ?thesis by blast
  next
    case False
    then have "node (set_parent i p tbl) x = Some r" using node_set_parent_other at_child(1) by simp
    from at_child(4) org_root_at.at_child [OF this at_child(2)] below_up [OF at_child(1,2)] show ?thesis by blast
  qed
qed

lemma set_parent_tree:
  assumes "tree_ok tbl" and "org_root_at (set_parent i p tbl) i new d'"
  shows "tree_ok (set_parent i p tbl)"
proof -
  have ids: "wn_id ` set (set_parent i p tbl) = wn_id ` set tbl"
    using map_id_set_parent [of i p tbl] by (metis set_map)
  have "wn_id r \<noteq> [] \<and> (\<exists>root d. org_root_at (set_parent i p tbl) (wn_id r) root d)" if "r \<in> set (set_parent i p tbl)" for r
  proof -
    from that ids obtain r0 where "r0 \<in> set tbl" "wn_id r0 = wn_id r" by (metis imageE imageI)
    with assms(1) have "wn_id r \<noteq> []" "\<exists>root d. org_root_at tbl (wn_id r) root d"
      unfolding tree_ok_def by metis+
    with set_parent_roots [OF assms(2)] show ?thesis by blast
  qed
  with assms(1) show ?thesis
    by (simp add: tree_ok_def unique_key_def map_id_set_parent)
qed

subsection \<open>What the checks establish\<close>

text \<open>The database reads its own canonical text of a UUID as itself.\<close>

definition canonical_reader :: "(string \<Rightarrow> string option) \<Rightarrow> bool" where
  "canonical_reader pg \<longleftrightarrow> (\<forall>s c. pg s = Some c \<longrightarrow> pg c = Some c)"

lemma decide_move_Inr:
  assumes "decide_move pg fails tbl ws oldParent target = Inr dec" and "pg ws = Some ws" and "pg target = Some target"
  obtains oldRoot targetRoot adoption d e where
    "dec = MoveTo target oldParent adoption targetRoot targetRoot"
    "org_root_at tbl ws oldRoot d" "org_root_at tbl target targetRoot e" "ws \<noteq> target"
    "adoption = (oldRoot \<noteq> targetRoot)" "adoption \<Longrightarrow> oldParent = [] \<and> child_count tbl ws = 0"
proof -
  from assms(1) obtain oldRoot ok targetRoot tok
    where d: "reparentIsDescendant pg (fails AtDescendants) tbl ws target = Inr False"
      and s: "reparentOrgRoot pg (fails AtSourceRoot) tbl ws = Inr (oldRoot, True)"
      and t: "reparentOrgRoot pg (fails AtTargetRoot) tbl target = Inr (targetRoot, True)"
      and dec: "(if oldRoot = targetRoot then Inr (MoveTo target oldParent False oldRoot targetRoot)
        else if oldParent = [] then
          and_then (guard_error (fails AtChildren) ReparentDB) (\<lambda>_.
          and_then (guard_error (child_count tbl ws > 0) (Reject 422 reparentCodeCrossOrg)) (\<lambda>_.
            Inr (MoveTo target oldParent True targetRoot targetRoot)))
        else Inl (Reject 422 reparentCodeCrossOrg)) = Inr dec"
    unfolding decide_move_def and_then_Inr by (auto simp only: and_then_Inr guard_error_Inr split: prod.splits) auto
  from d have "ws \<noteq> target" by (auto simp: reparentIsDescendant_def)
  moreover from s assms(2) obtain k where "org_root_at tbl ws oldRoot k" by (auto simp: reparentOrgRoot_ok)
  moreover from t assms(3) obtain k where "org_root_at tbl target targetRoot k" by (auto simp: reparentOrgRoot_ok)
  ultimately show thesis
    using dec that [of "oldRoot \<noteq> targetRoot" targetRoot oldRoot] by (auto simp: and_then_Inr split: if_splits)
qed

lemma decide_target_Inr:
  assumes "decide_target pg fails tbl locked ws oldParent target = Inr dec"
  obtains out where "dec = Unchanged out" "\<not> ro_Changed out"
  | t np where "target = Some t" "t \<noteq> ws" "oldParent \<noteq> t" "locked t = Some np" "wn_status np \<noteq> ''removed''"
      "decide_move pg fails tbl ws oldParent t = Inr dec"
proof (cases target)
  case None
  with assms that(1) show thesis by (auto simp: decide_target_def no_change_def split: if_splits)
next
  case (Some t)
  show thesis
  proof (cases "oldParent = t")
    case True
    with assms Some that(1) show thesis
      by (auto simp: decide_target_def no_change_def and_then_Inr split: if_splits)
  next
    case False
    with assms Some that(2) [OF Some] show thesis by (auto simp: decide_target_def split: if_splits option.splits)
  qed
qed

lemma lock_rows_Inr:
  assumes "lock_rows pg fails tbl ids = Inr locked" and "canonical_reader pg" and "locked x = Some r"
  shows "node tbl x = Some r \<and> pg x = Some x"
  using assms by (auto simp: lock_rows_def canonical_reader_def split: if_splits)

lemma decide_reparent_Inr:
  assumes "decide_reparent pg fails tbl ws target src cand = Inr dec" and "canonical_reader pg"
  obtains self locked where "node tbl ws = Some self" "pg ws = Some ws" "wn_status self \<noteq> ''removed''"
    "decide_target pg fails tbl locked ws (old_parent self) target = Inr dec"
    "\<And>x r. locked x = Some r \<Longrightarrow> node tbl x = Some r \<and> pg x = Some x"
proof -
  from assms(1) obtain locked where l: "lock_rows pg (fails AtLock) tbl (lock_ids ws target (fst src) cand) = Inr locked"
    unfolding decide_reparent_def and_then_Inr by blast
  note lk = lock_rows_Inr [OF l assms(2)]
  from assms(1) l obtain self where self: "locked ws = Some self" "wn_status self \<noteq> ''removed''"
    and dec: "decide_target pg fails tbl locked ws (old_parent self) target = Inr dec"
    by (cases "locked ws") (auto simp: decide_reparent_def and_then_Inr)
  show thesis using that [OF _ _ self(2) dec lk] lk [OF self(1)] by blast
qed

text \<open>The shape of a committed move, for every choice of faults and of the unlocked reads.\<close>

record move_facts =
  mf_target :: string
  mf_self :: ws_node
  mf_old :: string
  mf_new :: string

definition moved :: "org_db \<Rightarrow> string \<Rightarrow> move_facts \<Rightarrow> reparentOutcome \<Rightarrow> org_db \<Rightarrow> bool" where
  "moved db ws f out db' \<longleftrightarrow>
    node (od_workspaces db) ws = Some (mf_self f) \<and> wn_status (mf_self f) \<noteq> ''removed'' \<and> mf_target f \<noteq> ws
    \<and> (\<exists>np. node (od_workspaces db) (mf_target f) = Some np \<and> wn_status np \<noteq> ''removed'')
    \<and> old_parent (mf_self f) \<noteq> mf_target f
    \<and> (\<exists>d. org_root_at (od_workspaces db) ws (mf_old f) d)
    \<and> (\<exists>d. org_root_at (od_workspaces db) (mf_target f) (mf_new f) d)
    \<and> (\<exists>d. org_root_at (set_parent ws (mf_target f) (od_workspaces db)) ws (mf_new f) d)
    \<and> (mf_old f \<noteq> mf_new f \<longrightarrow> old_parent (mf_self f) = [] \<and> child_count (od_workspaces db) ws = 0)
    \<and> \<not> name_clash (od_workspaces db) ws (mf_target f)
    \<and> out = move_outcome ws (mf_target f) (old_parent (mf_self f)) (mf_old f \<noteq> mf_new f) (mf_new f) (mf_new f)
    \<and> db' = (let db1 = db\<lparr>od_workspaces := set_parent ws (mf_target f) (od_workspaces db)\<rparr>
             in if mf_old f \<noteq> mf_new f then migrate_anchors (mf_new f) ws db1 else db1)"

lemma migrate_workspaces [simp]: "od_workspaces (migrate_anchors r ws db) = od_workspaces db"
  by (simp add: migrate_anchors_def)

lemma write_move_Inr:
  assumes "write_move pg fails db ws t oldParent adoption expected targetRoot = Inr (out, db')" and "pg ws = Some ws"
  shows "(\<exists>d. org_root_at (set_parent ws t (od_workspaces db)) ws expected d)
    \<and> \<not> name_clash (od_workspaces db) ws t
    \<and> out = move_outcome ws t oldParent adoption expected targetRoot
    \<and> db' = (let db1 = db\<lparr>od_workspaces := set_parent ws t (od_workspaces db)\<rparr>
             in if adoption then migrate_anchors targetRoot ws db1 else db1)"
proof -
  let ?m = "let db1 = db\<lparr>od_workspaces := set_parent ws t (od_workspaces db)\<rparr>
             in if adoption then migrate_anchors targetRoot ws db1 else db1"
  have ws: "od_workspaces ?m = set_parent ws t (od_workspaces db)" by (simp add: Let_def)
  from assms(1) have "reparentOrgRoot pg (fails AtVerify) (od_workspaces ?m) ws = Inr (expected, True)"
    and r: "\<not> name_clash (od_workspaces db) ws t" "out = move_outcome ws t oldParent adoption expected targetRoot" "db' = ?m"
    unfolding write_move_def by (auto simp: and_then_Inr Let_def split: prod.splits if_splits)
  with assms(2) show ?thesis unfolding ws by (auto simp: reparentOrgRoot_ok)
qed

lemma applyReparent_cases:
  assumes "applyReparent uuid_ok pg fails db0 db ws raw = (res, db')" and "canonical_reader pg"
  obtains e where "res = Inl e" "db' = db"
  | out where "res = Inr out" "\<not> ro_Changed out" "db' = db"
  | f out where "res = Inr out" "moved db ws f out db'"
proof (cases "reparent_tx uuid_ok pg fails db0 db ws raw")
  case (Inl e)
  with assms(1) that(1) [of e] show thesis by (auto simp: applyReparent_def)
next
  case (Inr p)
  then obtain out where tx: "reparent_tx uuid_ok pg fails db0 db ws raw = Inr (out, db')" and res: "res = Inr out"
    using assms(1) by (cases p) (simp add: applyReparent_def)
  from tx obtain target src cand dec where
    dec: "decide_reparent pg fails (od_workspaces db) ws target src cand = Inr dec"
    and fin: "(case dec of Unchanged out \<Rightarrow> Inr (out, db)
        | MoveTo t oldParent adoption expectedRoot targetRoot \<Rightarrow>
            write_move pg fails db ws t oldParent adoption expectedRoot targetRoot) = Inr (out, db')"
    unfolding reparent_tx_def by (auto simp: and_then_Inr)
  obtain self locked where
    self: "node (od_workspaces db) ws = Some self" "pg ws = Some ws" "wn_status self \<noteq> ''removed''"
    and dt: "decide_target pg fails (od_workspaces db) locked ws (old_parent self) target = Inr dec"
    and lk: "\<And>x r. locked x = Some r \<Longrightarrow> node (od_workspaces db) x = Some r \<and> pg x = Some x"
    by (rule decide_reparent_Inr [OF dec assms(2)]) (rule that, assumption+)
  from dt show thesis
  proof (cases rule: decide_target_Inr)
    case (1 o1)
    with fin res that(2) show thesis by simp
  next
    case (2 t np)
    obtain oldRoot targetRoot adoption d e where
      m: "dec = MoveTo t (old_parent self) adoption targetRoot targetRoot"
      "org_root_at (od_workspaces db) ws oldRoot d" "org_root_at (od_workspaces db) t targetRoot e" "ws \<noteq> t"
      "adoption = (oldRoot \<noteq> targetRoot)" "adoption \<Longrightarrow> old_parent self = [] \<and> child_count (od_workspaces db) ws = 0"
      by (rule decide_move_Inr [OF 2(6) self(2) conjunct2 [OF lk [OF 2(4)]]]) (rule that, assumption+)
    from fin m(1) write_move_Inr [of pg fails db ws t "old_parent self" adoption targetRoot targetRoot out db'] self(2)
    have w: "(\<exists>d. org_root_at (set_parent ws t (od_workspaces db)) ws targetRoot d)
      \<and> \<not> name_clash (od_workspaces db) ws t \<and> out = move_outcome ws t (old_parent self) adoption targetRoot targetRoot
      \<and> db' = (let db1 = db\<lparr>od_workspaces := set_parent ws t (od_workspaces db)\<rparr>
             in if adoption then migrate_anchors targetRoot ws db1 else db1)" by simp
    have "moved db ws \<lparr>mf_target = t, mf_self = self, mf_old = oldRoot, mf_new = targetRoot\<rparr> out db'"
      unfolding moved_def using self 2 lk [OF 2(4)] m w by auto
    with res that(3) show thesis by blast
  qed
qed

lemma child_count_zero:
  "child_count tbl i = 0 \<longleftrightarrow> (\<forall>c \<in> set tbl. wn_parent c = Some i \<longrightarrow> wn_status c = ''removed'')"
  by (auto simp: child_count_def filter_empty_conv)

lemma old_parent_root:
  assumes "tree_ok tbl" and "node tbl ws = Some self" and "old_parent self = []"
  shows "org_root_at tbl ws ws 0"
proof (cases "wn_parent self")
  case None
  with assms(2) show ?thesis by (rule at_root)
next
  case (Some p)
  with assms tree_parent [OF assms(1,2)] show ?thesis by (simp add: old_parent_def)
qed

lemma moved_workspaces: "moved db ws f out db' \<Longrightarrow> od_workspaces db' = set_parent ws (mf_target f) (od_workspaces db)"
  by (auto simp: moved_def Let_def)

text \<open>The unique index on names: live workspaces under one parent have distinct names.\<close>

definition names_ok :: "ws_table \<Rightarrow> bool" where
  "names_ok tbl \<longleftrightarrow> (\<forall>r \<in> set tbl. \<forall>s \<in> set tbl. wn_status r \<noteq> ''removed'' \<and> wn_status s \<noteq> ''removed''
     \<and> index_parent r = index_parent s \<and> wn_name r = wn_name s \<longrightarrow> wn_id r = wn_id s)"

lemma set_parent_names:
  assumes "names_ok tbl" and "\<not> name_clash tbl i p"
  shows "names_ok (set_parent i p tbl)"
proof -
  let ?f = "\<lambda>r. if wn_id r = i then r\<lparr>wn_parent := Some p\<rparr> else r"
  have set: "set (set_parent i p tbl) = ?f ` set tbl" by (simp add: set_parent_def set_sql_update)
  have same: "wn_id r = wn_id s" if rs: "r \<in> set tbl" "s \<in> set tbl"
    and eq: "wn_status (?f r) \<noteq> ''removed''" "wn_status (?f s) \<noteq> ''removed''"
      "index_parent (?f r) = index_parent (?f s)" "wn_name (?f r) = wn_name (?f s)" for r s
  proof (rule ccontr)
    assume ne: "wn_id r \<noteq> wn_id s"
    have clash: "\<not> (wn_id x = i \<and> wn_status x \<noteq> ''removed'' \<and> wn_id y \<noteq> i \<and> wn_status y \<noteq> ''removed''
        \<and> index_parent y = p \<and> wn_name y = wn_name x)" if "x \<in> set tbl" "y \<in> set tbl" for x y
      using assms(2) that by (auto simp: name_clash_def)
    consider "wn_id r = i" | "wn_id s = i" | "wn_id r \<noteq> i" "wn_id s \<noteq> i" by blast
    then show False
    proof cases
      case 1
      with clash [OF rs] eq ne show False by (simp add: index_parent_def split: if_splits)
    next
      case 2
      with clash [OF rs(2,1)] eq ne show False by (simp add: index_parent_def split: if_splits)
    next
      case 3
      with assms(1) [unfolded names_ok_def, rule_format, OF rs] eq ne show False by simp
    qed
  qed
  have id: "wn_id (?f r) = wn_id r" for r by simp
  show ?thesis
    unfolding names_ok_def set
  proof (intro ballI impI, elim imageE conjE, hypsubst, unfold id)
    fix r s
    assume "r \<in> set tbl" "s \<in> set tbl" "wn_status (?f r) \<noteq> ''removed''" "wn_status (?f s) \<noteq> ''removed''"
      "index_parent (?f r) = index_parent (?f s)" "wn_name (?f r) = wn_name (?f s)"
    then show "wn_id r = wn_id s" by (rule same)
  qed
qed

text \<open>Whose organisation a committed move changes: nobody's, or that of a root that is adopted.\<close>

lemma moved_roots:
  assumes "tree_ok (od_workspaces db)" and "moved db ws f out db'" and "org_root_at (od_workspaces db) x root d"
  shows "(\<exists>e. org_root_at (od_workspaces db') x root e)
    \<or> (ro_Adopted out \<and> root = ws \<and> (\<exists>e. org_root_at (od_workspaces db') x (ro_OrgRoot out) e)
       \<and> (x = ws \<or> (\<exists>c \<in> set (od_workspaces db). wn_parent c = Some ws \<and> wn_status c = ''removed''
                      \<and> below (od_workspaces db) x (wn_id c))))"
proof -
  let ?t = "od_workspaces db" and ?t' = "od_workspaces db'"
  note m = assms(2) [unfolded moved_def] and w = moved_workspaces [OF assms(2)]
  from m w obtain d' where "org_root_at ?t' ws (mf_new f) d'" by auto
  from set_parent_roots [OF this [unfolded w] assms(3)] show ?thesis
  proof
    assume b: "below ?t x ws \<and> (\<exists>e. org_root_at (set_parent ws (mf_target f) ?t) x (mf_new f) e)"
    have root: "root = mf_old f" using below_root [OF conjunct1 [OF b] assms(3)] m org_root_at_det by blast
    show ?thesis
    proof (cases "mf_old f = mf_new f")
      case True
      with b root w show ?thesis by auto
    next
      case False
      with m have "old_parent (mf_self f) = []" and cc: "child_count ?t ws = 0" by auto
      with m old_parent_root [OF assms(1)] org_root_at_det have "mf_old f = ws" by blast
      with False b root w m cc below_child [of ?t x ws] show ?thesis
        by (auto simp: move_outcome_def child_count_zero)
    qed
  qed (auto simp: w)
qed

subsection \<open>Properties\<close>

text \<open>
  C6: the organisation invariant of a move. Whatever fails and whatever other moves committed
  between the unlocked reads and the locks, a request keeps the table a forest of ended chains,
  changes nothing when it is rejected, and keeps the organisation of every workspace, with one
  exception: a root that joins another organisation changes its own, and of the workspaces the
  caller did not name only those that hang below a removed child of it. Live siblings keep
  distinct names.
\<close>

theorem reparent_keeps_orgs:
  assumes "tree_ok (od_workspaces db)" and "canonical_reader pg"
    and "applyReparent uuid_ok pg fails db0 db ws raw = (res, db')"
  shows "tree_ok (od_workspaces db') \<and> (names_ok (od_workspaces db) \<longrightarrow> names_ok (od_workspaces db'))
    \<and> (\<forall>e. res = Inl e \<longrightarrow> db' = db)
    \<and> (\<forall>x root d. org_root_at (od_workspaces db) x root d \<longrightarrow>
        (\<exists>e. org_root_at (od_workspaces db') x root e)
        \<or> (\<exists>out. res = Inr out \<and> ro_Adopted out \<and> root = ws
            \<and> (\<exists>e. org_root_at (od_workspaces db') x (ro_OrgRoot out) e)
            \<and> (x = ws \<or> (\<exists>c \<in> set (od_workspaces db). wn_parent c = Some ws \<and> wn_status c = ''removed''
                          \<and> below (od_workspaces db) x (wn_id c)))))"
  using assms(3,2)
proof (cases rule: applyReparent_cases)
  case (3 f out)
  from moved_workspaces [OF 3(2)] 3(2) obtain d where "org_root_at (set_parent ws (mf_target f) (od_workspaces db)) ws (mf_new f) d"
    by (auto simp: moved_def)
  from set_parent_tree [OF assms(1) this] moved_workspaces [OF 3(2)] have "tree_ok (od_workspaces db')" by simp
  moreover have "names_ok (od_workspaces db) \<longrightarrow> names_ok (od_workspaces db')"
    using set_parent_names 3(2) moved_workspaces [OF 3(2)] by (auto simp: moved_def)
  ultimately show ?thesis using moved_roots [OF assms(1) 3(2)] 3(1) by blast
qed (use assms(1) in auto)

subsection \<open>Moves that are admitted\<close>

lemma descend_below:
  assumes "unique_key wn_id tbl"
  shows "r \<in> set (descend n tbl ids) \<Longrightarrow> \<exists>i \<in> set ids. below tbl (wn_id r) i"
proof (induction n arbitrary: ids)
  case 0
  then obtain i where "i \<in> set ids" "wn_parent r = Some i" "r \<in> set tbl" by (auto simp: children_def)
  with below_up [OF sql_find_key [OF assms, of r]] below_refl show ?case by blast
next
  case (Suc n)
  have one: "\<exists>i \<in> set ids. below tbl (wn_id c) i" if "c \<in> set (children tbl ids)" for c
  proof -
    from that obtain i where "i \<in> set ids" "wn_parent c = Some i" "c \<in> set tbl" by (auto simp: children_def)
    with below_up [OF sql_find_key [OF assms, of c]] below_refl show ?thesis by blast
  qed
  have trans: "below tbl x i" if "below tbl x y" "below tbl y i" for x y i
    using that by (induction rule: below.induct) (auto intro: below_up)
  from Suc.prems consider "r \<in> set (children tbl ids)" | "r \<in> set (descend n tbl (map wn_id (children tbl ids)))" by auto
  then show ?case
  proof cases
    case 1
    then show ?thesis by (rule one)
  next
    case 2
    from Suc.IH [OF this] obtain c where "c \<in> set (children tbl ids)" "below tbl (wn_id r) (wn_id c)" by auto
    with one trans show ?thesis by blast
  qed
qed

lemma set_parent_keeps_root:
  "org_root_at tbl x root d \<Longrightarrow> \<not> below tbl x i \<Longrightarrow> org_root_at (set_parent i p tbl) x root d"
proof (induction rule: org_root_at.induct)
  case (at_root x r)
  then have "x \<noteq> i" using below_refl by blast
  with at_root show ?case by (auto intro: org_root_at.at_root simp: node_set_parent_other)
next
  case (at_child x r q root d)
  then have "x \<noteq> i" "\<not> below tbl q i" using below_refl below_up by blast+
  with at_child show ?case by (auto intro: org_root_at.at_child simp: node_set_parent_other)
qed

lemma applyReparent_move:
  assumes "tree_ok (od_workspaces db)" and "\<forall>r \<in> set (od_workspaces db). pg (wn_id r) = Some (wn_id r)"
    and "node (od_workspaces db) ws = Some self" and "wn_status self \<noteq> ''removed''"
    and "node (od_workspaces db) t = Some np" and "wn_status np \<noteq> ''removed''"
    and "wn_parent self \<noteq> Some t" and "\<not> below (od_workspaces db) t ws" and "uuid_ok t"
    and "org_root_at (od_workspaces db) ws root d" and "d \<le> 64"
    and "org_root_at (od_workspaces db) t root e" and "e < 64"
    and "\<not> name_clash (od_workspaces db) ws t"
  shows "applyReparent uuid_ok pg (\<lambda>_. False) db db ws (JStr t) =
    (Inr \<lparr>ro_Changed = True, ro_Adopted = False, ro_OldParent = old_parent self, ro_NewParent = t, ro_OrgRoot = root,
          ro_Lost = [''team:'' @ old_parent self], ro_Gained = [''team:'' @ t]\<rparr>,
     db\<lparr>od_workspaces := set_parent ws t (od_workspaces db)\<rparr>)"
proof -
  let ?tbl = "od_workspaces db"
  have ids: "x \<noteq> []" "pg x = Some x" if "node ?tbl x \<noteq> None" for x
    using that tree_root [OF assms(1)] assms(2) by (auto dest!: sql_find_Some_iff)
  have pg: "pg ws = Some ws" "pg t = Some t" "pg root = Some root" and ne: "t \<noteq> []" "ws \<noteq> t" "root \<noteq> []"
    using ids assms(3,5,8) org_root_at_node [OF org_root_is_root [OF assms(10)]] below_refl by auto
  have roots: "reparentOrgRoot pg False ?tbl ws = Inr (root, True)" "reparentOrgRoot pg False ?tbl t = Inr (root, True)"
    using assms(10,11,12) less_imp_le [OF assms(13)] pg unfolding reparentOrgRoot_ok reparentMaxDepth_def by blast+
  have desc: "reparentIsDescendant pg False ?tbl ws t = Inr False"
    using descend_below [of ?tbl _ reparentMaxDepth "[ws]"] assms(1,8) ne pg
    by (auto simp: reparentIsDescendant_def tree_ok_def)
  have mv: "decide_move pg (\<lambda>_. False) ?tbl ws (old_parent self) t = Inr (MoveTo t (old_parent self) False root root)"
    by (simp add: decide_move_def desc roots)
  have par: "old_parent self \<noteq> t" using assms(7) ne by (auto simp: old_parent_def split: option.splits)
  let ?l = "lock_ids ws (Some t) root root"
  have "set ?l = {ws, t, root}" using ne by (auto simp: lock_ids_def add_lock_def)
  then obtain locked where lk: "lock_rows pg False ?tbl ?l = Inr locked" "locked ws = Some self" "locked t = Some np"
    using pg assms(3,5) by (auto simp: lock_rows_def)
  have dec: "decide_reparent pg (\<lambda>_. False) ?tbl ws (Some t) (root, True) root = Inr (MoveTo t (old_parent self) False root root)"
    using lk ne par assms(4,6) by (simp add: decide_reparent_def roots decide_target_def mv)
  have self': "node (set_parent ws t ?tbl) ws = Some (self\<lparr>wn_parent := Some t\<rparr>)"
    using assms(3) sql_find_Some_iff [OF assms(3)] by (simp add: node_set_parent)
  have "org_root_at (set_parent ws t ?tbl) ws root (Suc e)"
    using org_root_at.at_child [OF self' _ set_parent_keeps_root [OF assms(12,8)]] by simp
  then have post: "reparentOrgRoot pg False (set_parent ws t ?tbl) ws = Inr (root, True)"
    using pg assms(13) by (auto simp: reparentOrgRoot_ok reparentMaxDepth_def intro!: exI [of _ "Suc e"])
  show ?thesis
    using ne assms(9,14)
    by (simp add: applyReparent_def reparent_tx_def parseReparentTarget_def locate_def roots dec write_move_def post
        move_outcome_def)
qed

text \<open>
  legitimate moves go through. Without faults and without concurrent moves, a live workspace
  can be put under every live workspace of its organisation that is not below it, whose own
  chain leaves room for one more hop and under which its name is free; the only change of the
  database is the parent of that workspace, and the outcome names the team namespaces that change.
\<close>

theorem reparent_admits_moves:
  assumes "tree_ok (od_workspaces db)" and "\<forall>r \<in> set (od_workspaces db). pg (wn_id r) = Some (wn_id r)"
    and "node (od_workspaces db) ws = Some self" and "wn_status self \<noteq> ''removed''"
    and "node (od_workspaces db) t = Some np" and "wn_status np \<noteq> ''removed''"
    and "wn_parent self \<noteq> Some t" and "\<not> below (od_workspaces db) t ws" and "uuid_ok t"
    and "org_root_at (od_workspaces db) ws root d" and "d \<le> 64"
    and "org_root_at (od_workspaces db) t root e" and "e < 64"
    and "\<not> name_clash (od_workspaces db) ws t"
  shows "applyReparent uuid_ok pg (\<lambda>_. False) db db ws (JStr t) =
    (Inr \<lparr>ro_Changed = True, ro_Adopted = False, ro_OldParent = old_parent self, ro_NewParent = t, ro_OrgRoot = root,
          ro_Lost = [''team:'' @ old_parent self], ro_Gained = [''team:'' @ t]\<rparr>,
     db\<lparr>od_workspaces := set_parent ws t (od_workspaces db)\<rparr>)"
  using assms by (rule applyReparent_move)

definition example_org_db :: org_db where
  "example_org_db = \<lparr>od_workspaces = example_nodes, od_tokens = [(''tok'', Some ''solo'')],
    od_allow = [\<lparr>pa_org = ''solo'', pa_plugin = ''browser'', pa_by = ''admin'', pa_at = 1\<rparr>]\<rparr>"

definition dev_node :: ws_node where
  "dev_node = \<lparr>wn_id = ''dev'', wn_parent = Some ''team'', wn_name = ''Dev'', wn_status = ''online''\<rparr>"

lemma example_move_facts:
  "node (od_workspaces example_org_db) ''dev'' = Some dev_node"
  "\<exists>np. node (od_workspaces example_org_db) ''root'' = Some np \<and> wn_status np = ''online''"
  "\<not> below (od_workspaces example_org_db) ''root'' ''dev''"
  "\<not> name_clash (od_workspaces example_org_db) ''dev'' ''root''"
proof -
  show "\<not> below (od_workspaces example_org_db) ''root'' ''dev''"
  proof
    assume "below (od_workspaces example_org_db) ''root'' ''dev''"
    then show False
      by cases (auto simp: example_org_db_def example_nodes_def sql_find_Cons)
  qed
qed (simp_all add: example_org_db_def example_nodes_def dev_node_def sql_find_Cons name_clash_def index_parent_def zero_uuid_def)

definition dev_moved :: reparentOutcome where
  "dev_moved = \<lparr>ro_Changed = True, ro_Adopted = False, ro_OldParent = ''team'', ro_NewParent = ''root'', ro_OrgRoot = ''root'',
    ro_Lost = [''team:team''], ro_Gained = [''team:root'']\<rparr>"

lemma example_move:
  "applyReparent (\<lambda>_. True) Some (\<lambda>_. False) example_org_db example_org_db ''dev'' (JStr ''root'') =
    (Inr dev_moved, example_org_db\<lparr>od_workspaces := set_parent ''dev'' ''root'' (od_workspaces example_org_db)\<rparr>)"
proof -
  from example_move_facts(2) obtain np where np: "node (od_workspaces example_org_db) ''root'' = Some np" "wn_status np = ''online''"
    by blast
  have "od_workspaces example_org_db = example_nodes" by (simp add: example_org_db_def)
  then show ?thesis
    using applyReparent_move [of example_org_db Some "''dev''" dev_node "''root''" np "\<lambda>_. True" "''root''" "Suc 1" 0]
      example_move_facts np example_tree example_roots(1,3)
    by (simp add: dev_node_def dev_moved_def old_parent_def)
qed

theorem reparent_admits_moves_witness:
  "applyReparent (\<lambda>_. True) Some (\<lambda>_. False) example_org_db example_org_db ''dev'' (JStr ''root'') =
    (Inr \<lparr>ro_Changed = True, ro_Adopted = False, ro_OldParent = ''team'', ro_NewParent = ''root'', ro_OrgRoot = ''root'',
          ro_Lost = [''team:team''], ro_Gained = [''team:root'']\<rparr>,
     example_org_db\<lparr>od_workspaces := set_parent ''dev'' ''root'' (od_workspaces example_org_db)\<rparr>)"
proof -
  from example_move_facts(2) obtain np where np: "node (od_workspaces example_org_db) ''root'' = Some np" "wn_status np = ''online''"
    by blast
  have "od_workspaces example_org_db = example_nodes" by (simp add: example_org_db_def)
  then show ?thesis
    using reparent_admits_moves [of example_org_db Some "''dev''" dev_node "''root''" np "\<lambda>_. True" "''root''" "Suc 1" 0]
      example_move_facts np example_tree example_roots(1,3)
    by (simp add: dev_node_def old_parent_def)
qed

theorem reparent_keeps_orgs_witness:
  "tree_ok (set_parent ''dev'' ''root'' example_nodes)
   \<and> (\<exists>e. org_root_at (set_parent ''dev'' ''root'' example_nodes) ''dev'' ''root'' e)"
proof -
  have w: "od_workspaces example_org_db = example_nodes" by (simp add: example_org_db_def)
  show ?thesis
    using reparent_keeps_orgs [OF _ _ example_move] example_tree example_roots(3)
    by (auto simp: w canonical_reader_def dev_moved_def)
qed

text \<open>The namespaces of a moved workspace.\<close>

lemma readable_total:
  assumes "tree_ok tbl" and "pg i = Some i" and "node tbl i = Some r" and "org_root_at tbl i root d" and "d \<le> maxChainDepth"
  shows "\<exists>nss. ReadableNamespaces pg False tbl i = Inr nss
    \<and> ns_Name ` set nss = {''workspace:'' @ i, ''team:'' @ team_of r, ''org:'' @ root}"
proof -
  have "chain maxChainDepth tbl i \<noteq> []" using chain_Nil assms(3) by (metis option.distinct(1))
  then obtain nss where n: "ReadableNamespaces pg False tbl i = Inr nss"
    using assms(2) by (cases "chain maxChainDepth tbl i")
      (auto simp: ReadableNamespaces_def walkChain_def chain_query_def derive_def deriveNames_def)
  from readable_names [OF assms(1) n] assms(2,3)
  have "map ns_Name nss = [''workspace:'' @ i, ''team:'' @ team_of r, ''org:'' @ wn_id (last (chain maxChainDepth tbl i))]"
    by (metis option.inject)
  then have "set (map ns_Name nss) = {''workspace:'' @ i, ''team:'' @ team_of r, ''org:'' @ root}"
    using chain_short [OF assms(4,5)] by (simp del: set_map)
  with n show ?thesis by simp
qed

lemma moved_parent:
  assumes "tree_ok (od_workspaces db)" and "moved db ws f out db'" and "\<not> ro_Adopted out"
  shows "wn_parent (mf_self f) = Some (ro_OldParent out) \<and> ro_OldParent out \<noteq> ro_NewParent out"
proof -
  note m = assms(2) [unfolded moved_def]
  with assms(3) have same: "mf_old f = mf_new f" by (auto simp: move_outcome_def)
  have "wn_parent (mf_self f) \<noteq> None"
  proof
    assume "wn_parent (mf_self f) = None"
    with m same have new: "mf_new f = ws" using at_root org_root_at_det by metis
    let ?t = "set_parent ws (mf_target f) (od_workspaces db)"
    from m new obtain d where "org_root_at ?t ws ws d" by auto
    then have "org_root_at ?t ws ws 0" by (rule org_root_is_root)
    then obtain r where "node ?t ws = Some r" "wn_parent r = None" by (rule org_root_atE) auto
    with m show False by (auto simp: node_set_parent split: if_splits dest: sql_find_Some_iff)
  qed
  with m show ?thesis by (auto simp: move_outcome_def old_parent_def)
qed

text \<open>
  the reported namespace delta is the real one. For a committed move whose chains stay
  within the 50 hops the memory resolver walks, the namespaces the resolver lets the workspace
  read before but not after are exactly those listed as lost, and those it reads after but not
  before exactly those listed as gained: the old and the new team, and for an adoption also the
  organisation (listed with a note on its write access).
\<close>

theorem reparent_reports_delta:
  assumes "tree_ok (od_workspaces db)" and "canonical_reader pg"
    and "applyReparent uuid_ok pg fails db0 db ws raw = (Inr out, db')" and "ro_Changed out" and "pg ws = Some ws"
    and "org_root_at (od_workspaces db) ws old d" and "d \<le> 50"
    and "org_root_at (od_workspaces db') ws new e" and "e \<le> 50"
  shows "\<exists>before after. ReadableNamespaces pg False (od_workspaces db) ws = Inr before
    \<and> ReadableNamespaces pg False (od_workspaces db') ws = Inr after
    \<and> (if ro_Adopted out
       then ns_Name ` set before - ns_Name ` set after = {''team:'' @ ws, ''org:'' @ ws}
         \<and> ns_Name ` set after - ns_Name ` set before = {''team:'' @ ro_NewParent out, ''org:'' @ new}
         \<and> ro_Lost out = [''team:'' @ ws, ''org:'' @ ws @ '' (writable)'']
         \<and> ro_Gained out = [''team:'' @ ro_NewParent out, ''org:'' @ new @ '' (read-only)'']
       else ns_Name ` set before - ns_Name ` set after = set (ro_Lost out)
         \<and> ns_Name ` set after - ns_Name ` set before = set (ro_Gained out))"
  using assms(3,2)
proof (cases rule: applyReparent_cases)
  case (3 f out')
  then have mv: "moved db ws f out db'" by simp
  note m = mv [unfolded moved_def] and w = moved_workspaces [OF mv]
  have tree': "tree_ok (od_workspaces db')"
    using set_parent_tree [OF assms(1)] m w by auto
  have self': "node (od_workspaces db') ws = Some ((mf_self f)\<lparr>wn_parent := Some (mf_target f)\<rparr>)"
    using conjunct1 [OF m] sql_find_Some_iff [OF conjunct1 [OF m]] by (simp add: w node_set_parent)
  have new: "new = mf_new f" using m w assms(8) org_root_at_det by metis
  have old: "old = mf_old f" using m assms(6) org_root_at_det by metis
  obtain nb where nb: "ReadableNamespaces pg False (od_workspaces db) ws = Inr nb"
    "ns_Name ` set nb = {''workspace:'' @ ws, ''team:'' @ team_of (mf_self f), ''org:'' @ old}"
    using readable_total [of "od_workspaces db" pg ws "mf_self f" old d] assms(1,5,6,7) conjunct1 [OF m]
    by (auto simp: maxChainDepth_def)
  obtain na where na: "ReadableNamespaces pg False (od_workspaces db') ws = Inr na"
    "ns_Name ` set na = {''workspace:'' @ ws, ''team:'' @ mf_target f, ''org:'' @ new}"
    using readable_total [of "od_workspaces db'" pg ws _ new e] tree' assms(5,8,9) self'
    by (auto simp: maxChainDepth_def team_of_def)
  have out: "out = move_outcome ws (mf_target f) (old_parent (mf_self f)) (old \<noteq> new) new new" using m new old by simp
  show ?thesis
  proof (cases "ro_Adopted out")
    case True
    then have ne: "old \<noteq> new" by (simp add: out move_outcome_def)
    with m new old have "old_parent (mf_self f) = []" by auto
    with assms(1) m old_parent_root have r: "org_root_at (od_workspaces db) ws ws 0" by metis
    then have "old = ws" using assms(6) org_root_at_det by metis
    moreover have "team_of (mf_self f) = ws"
      using \<open>old_parent (mf_self f) = []\<close> tree_parent [OF assms(1) conjunct1 [OF m]] sql_find_Some_iff [OF conjunct1 [OF m]]
      by (auto simp: team_of_def old_parent_def split: option.splits)
    moreover have tgt: "mf_target f \<noteq> ws" using m by simp
    ultimately have "ns_Name ` set nb - ns_Name ` set na = {''team:'' @ ws, ''org:'' @ ws}"
      "ns_Name ` set na - ns_Name ` set nb = {''team:'' @ mf_target f, ''org:'' @ new}"
      using ne unfolding nb(2) na(2) by auto
    with nb(1) na(1) ne show ?thesis by (simp add: out move_outcome_def)
  next
    case False
    then have eq: "old = new" by (simp add: out move_outcome_def)
    from moved_parent [OF assms(1) mv False] have "team_of (mf_self f) = ro_OldParent out" "ro_OldParent out \<noteq> mf_target f"
      by (auto simp: team_of_def out move_outcome_def)
    then have "ns_Name ` set nb - ns_Name ` set na = {''team:'' @ ro_OldParent out}"
      "ns_Name ` set na - ns_Name ` set nb = {''team:'' @ mf_target f}"
      unfolding nb(2) na(2) using eq by auto
    with nb(1) na(1) eq show ?thesis by (simp add: out move_outcome_def)
  qed
qed (use assms(4) in auto)

theorem reparent_reports_delta_witness:
  "\<exists>before after. ReadableNamespaces Some False example_nodes ''dev'' = Inr before
    \<and> ReadableNamespaces Some False (set_parent ''dev'' ''root'' example_nodes) ''dev'' = Inr after
    \<and> ns_Name ` set before - ns_Name ` set after = {''team:team''}
    \<and> ns_Name ` set after - ns_Name ` set before = {''team:root''}"
proof -
  have w: "od_workspaces example_org_db = example_nodes" by (simp add: example_org_db_def)
  have self': "node (set_parent ''dev'' ''root'' example_nodes) ''dev'' = Some (dev_node\<lparr>wn_parent := Some ''root''\<rparr>)"
    using example_move_facts(1) by (simp add: node_set_parent w dev_node_def)
  have "org_root_at (set_parent ''dev'' ''root'' example_nodes) ''root'' ''root'' 0"
    using set_parent_keeps_root [OF example_roots(1)] example_move_facts(3) by (simp add: w)
  then have "org_root_at (set_parent ''dev'' ''root'' example_nodes) ''dev'' ''root'' 1"
    using at_child [OF self'] by simp
  then show ?thesis
    using reparent_reports_delta [OF _ _ example_move, of "''root''" "Suc 1" "''root''" 1] example_tree example_roots(3)
    by (simp add: w canonical_reader_def dev_moved_def)
qed

end
