(* ===== verification/Textutil.thy ===== *)
theory Textutil
  imports Core_Prelude
begin

text \<open>
  Rune-safe truncation (\<^verbatim>\<open>internal/textutil/truncate.go\<close>).

  A Go string is its bytes; \<open>s[:cut]\<close> is \<open>take cut s\<close>. \<open>RuneStart\<close> is
  \<open>utf8.RuneStart\<close> and \<open>valid_utf8\<close> is \<open>utf8.ValidString\<close> (the table of first bytes
  and accept ranges of \<^verbatim>\<open>unicode/utf8\<close>). The three truncation functions are shown to
  respect their caps, to cut at rune boundaries only and to keep valid UTF-8 valid.
  The locale \<open>preview_cap\<close> is what the delegation ledger relies on.
\<close>

subsection \<open>UTF-8\<close>

abbreviation byte :: "char \<Rightarrow> nat" where "byte c \<equiv> of_char c"

text \<open>\<open>utf8.RuneStart\<close>: \<open>b & 0xC0 != 0x80\<close>, i.e. the two top bits are not \<open>10\<close>.\<close>

definition RuneStart :: "char \<Rightarrow> bool" where
  "RuneStart c = (byte c div 64 \<noteq> 2)"

definition cont :: "char \<Rightarrow> bool" where
  "cont c = (128 \<le> byte c \<and> byte c \<le> 191)"

definition in_range :: "nat \<Rightarrow> nat \<Rightarrow> char \<Rightarrow> bool" where
  "in_range lo hi c = (lo \<le> byte c \<and> byte c \<le> hi)"

text \<open>
  The length of the valid rune at the head of a byte string: \<open>None\<close> where
  \<open>utf8.DecodeRuneInString\<close> reports \<open>RuneError\<close> of width one. The cases are those of
  the \<open>first\<close> and \<open>acceptRanges\<close> tables.
\<close>

fun rune_len :: "string \<Rightarrow> nat option" where
  "rune_len [] = None"
| "rune_len (a # s) =
    (if byte a < 128 then Some 1
     else if in_range 194 223 a then
       (case s of b # _ \<Rightarrow> if cont b then Some 2 else None | _ \<Rightarrow> None)
     else if in_range 224 239 a then
       (case s of b # c # _ \<Rightarrow>
          if in_range (if byte a = 224 then 160 else 128) (if byte a = 237 then 159 else 191) b
             \<and> cont c then Some 3 else None
        | _ \<Rightarrow> None)
     else if in_range 240 244 a then
       (case s of b # c # d # _ \<Rightarrow>
          if in_range (if byte a = 240 then 144 else 128) (if byte a = 244 then 143 else 191) b
             \<and> cont c \<and> cont d then Some 4 else None
        | _ \<Rightarrow> None)
     else None)"

function valid_utf8 :: "string \<Rightarrow> bool" where
  "valid_utf8 s = (if s = [] then True else
     case rune_len s of None \<Rightarrow> False | Some n \<Rightarrow> valid_utf8 (drop n s))"
  by pat_completeness auto

lemma rune_len_pos: "rune_len s = Some n \<Longrightarrow> 0 < n \<and> n \<le> length s"
  by (cases s) (auto split: if_splits list.splits)

termination valid_utf8
  by (relation "measure length") (auto dest: rune_len_pos)

declare valid_utf8.simps [simp del]

text \<open>The width by which \<open>range\<close> over a string advances: an invalid byte counts as one rune.\<close>

definition rune_width :: "string \<Rightarrow> nat" where
  "rune_width s = (case rune_len s of None \<Rightarrow> 1 | Some n \<Rightarrow> n)"

lemma rune_width_pos: "0 < rune_width s"
  by (auto simp: rune_width_def dest: rune_len_pos split: option.splits)

subsection \<open>The truncation functions\<close>

definition ellipsis :: string where
  "ellipsis = [char_of (226 :: nat), char_of (128 :: nat), char_of (166 :: nat)]"

text \<open>The loop \<open>for cut > 0 && !utf8.RuneStart(s[cut]) { cut-- }\<close>.\<close>

fun walk_back :: "string \<Rightarrow> nat \<Rightarrow> nat" where
  "walk_back s 0 = 0"
| "walk_back s (Suc n) = (if \<not> RuneStart (s ! Suc n) then walk_back s n else Suc n)"

definition TruncateBytes :: "string \<Rightarrow> int \<Rightarrow> string" where
  "TruncateBytes s maxBytes =
    (if int (length s) \<le> maxBytes then s
     else if maxBytes < int (length ellipsis) then []
     else take (walk_back s (nat (maxBytes - int (length ellipsis)))) s @ ellipsis)"

definition TruncateBytesNoMarker :: "string \<Rightarrow> int \<Rightarrow> string" where
  "TruncateBytesNoMarker s maxBytes =
    (if int (length s) \<le> maxBytes then s
     else if maxBytes \<le> 0 then []
     else take (walk_back s (nat maxBytes)) s)"

text \<open>
  The loop \<open>for i := range s\<close> of \<open>TruncateRunes\<close>: \<open>i\<close> is the byte offset of the
  current rune and \<open>rest\<close> the bytes from there on. The result is the cut offset, \<open>None\<close>
  when the loop ends before the cap is reached.
\<close>

function rune_cut :: "string \<Rightarrow> nat \<Rightarrow> nat \<Rightarrow> nat \<Rightarrow> nat option" where
  "rune_cut rest i count maxRunes =
    (if rest = [] then None
     else if count = maxRunes then Some i
     else rune_cut (drop (rune_width rest) rest) (i + rune_width rest) (Suc count) maxRunes)"
  by pat_completeness auto
termination
  by (relation "measure (\<lambda>(rest, _, _, _). length rest)") (auto simp: rune_width_pos)

declare rune_cut.simps [simp del]

definition TruncateRunes :: "string \<Rightarrow> int \<Rightarrow> string" where
  "TruncateRunes s maxRunes =
    (if maxRunes \<le> 0 then []
     else if int (length s) \<le> maxRunes then s
     else case rune_cut s 0 0 (nat maxRunes) of None \<Rightarrow> s | Some i \<Rightarrow> take i s @ ellipsis)"

text \<open>\<open>utf8.RuneCountInString\<close>, used to state what \<open>TruncateRunes\<close> counts.\<close>

function rune_count :: "string \<Rightarrow> nat" where
  "rune_count s = (if s = [] then 0 else Suc (rune_count (drop (rune_width s) s)))"
  by pat_completeness auto
termination
  by (relation "measure length") (auto simp: rune_width_pos)

declare rune_count.simps [simp del]

subsection \<open>Cutting at rune boundaries\<close>

lemma length_ellipsis [simp]: "length ellipsis = 3"
  by (simp add: ellipsis_def)

lemma cont_not_RuneStart: "cont c \<Longrightarrow> \<not> RuneStart c"
  by (auto simp: cont_def RuneStart_def)

lemma walk_back_le: "walk_back s n \<le> n"
  by (induction s n rule: walk_back.induct) auto

lemma walk_back_start: "walk_back s n = 0 \<or> RuneStart (s ! walk_back s n)"
  by (induction s n rule: walk_back.induct) auto

text \<open>Nothing between the cut and the cap starts a rune: the cut is the largest admissible one.\<close>

lemma walk_back_maximal: "walk_back s n < j \<Longrightarrow> j \<le> n \<Longrightarrow> \<not> RuneStart (s ! j)"
proof (induction s n rule: walk_back.induct)
  case (2 s n)
  then show ?case by (cases "j = Suc n") (auto split: if_splits)
qed simp

lemma rune_tail_cont:
  assumes "rune_len s = Some n" and "0 < i" and "i < n"
  shows "cont (s ! i)"
proof (cases s)
  case Nil
  with assms(1) show ?thesis by simp
next
  case (Cons a t)
  have sub: "in_range lo hi b \<Longrightarrow> 128 \<le> lo \<Longrightarrow> hi \<le> 191 \<Longrightarrow> cont b" for lo hi b
    by (auto simp: in_range_def cont_def)
  have i: "i = 1 \<or> i = 2 \<or> i = 3" if "n \<le> 4" using assms that by auto
  show ?thesis using assms Cons i
    by (auto split: if_splits list.splits simp: nth_Cons' intro: sub)
qed

lemma rune_len_take: "rune_len s = Some n \<Longrightarrow> n \<le> k \<Longrightarrow> rune_len (take k s) = Some n"
  by (cases s) (auto split: if_splits list.splits simp: take_Cons')

lemma rune_len_take_rev: "rune_len (take k s) = Some n \<Longrightarrow> rune_len s = Some n"
  by (cases s) (auto split: if_splits list.splits simp: take_Cons')

lemma rune_len_append: "rune_len s = Some n \<Longrightarrow> rune_len (s @ t) = Some n"
  using rune_len_take_rev [of "length s" "s @ t" n] by simp

lemma rune_len_head: "rune_len (a # s) = Some n \<Longrightarrow> RuneStart a"
  by (auto simp: RuneStart_def in_range_def split: if_splits)

lemma valid_head:
  assumes "valid_utf8 s" and "s \<noteq> []"
  obtains n where "rune_len s = Some n" "valid_utf8 (drop n s)" "0 < n" "n \<le> length s"
proof -
  from assms obtain n where n: "rune_len s = Some n" "valid_utf8 (drop n s)"
    by (auto simp: valid_utf8.simps [of s] split: option.splits)
  with rune_len_pos [OF n(1)] that show thesis by blast
qed

text \<open>A cut at a byte that starts a rune splits a valid string into valid strings.\<close>

lemma valid_take:
  assumes "valid_utf8 s" and "k = 0 \<or> k \<ge> length s \<or> RuneStart (s ! k)"
  shows "valid_utf8 (take k s)"
  using assms
proof (induction s arbitrary: k rule: length_induct)
  case (1 s)
  show ?case
  proof (cases "s = [] \<or> k = 0 \<or> k \<ge> length s")
    case True
    with "1.prems"(1) show ?thesis by (auto simp: valid_utf8.simps [of "[]"])
  next
    case False
    with "1.prems"(1) obtain n where n: "rune_len s = Some n" and rest: "valid_utf8 (drop n s)"
      and n_pos: "0 < n" and n_le: "n \<le> length s"
      by (auto elim: valid_head)
    have "n \<le> k"
      using "1.prems"(2) False rune_tail_cont [OF n, of k] cont_not_RuneStart
      by (meson linorder_not_le not_gr_zero)
    have "RuneStart (drop n s ! (k - n)) \<or> k - n = 0 \<or> k - n \<ge> length (drop n s)"
      using "1.prems"(2) False \<open>n \<le> k\<close> n_le by auto
    then have IH: "valid_utf8 (take (k - n) (drop n s))"
      using "1.IH" rest n_pos False by (metis (no_types) diff_less length_drop length_greater_0_conv)
    have len: "rune_len (take k s) = Some n"
      by (rule rune_len_take [OF n \<open>n \<le> k\<close>])
    show ?thesis
      using IH len \<open>n \<le> k\<close> False
      by (subst valid_utf8.simps) (auto simp: drop_take)
  qed
qed

lemma valid_ellipsis: "valid_utf8 ellipsis"
  by (simp add: ellipsis_def valid_utf8.simps in_range_def cont_def)


lemma valid_append: "valid_utf8 s \<Longrightarrow> valid_utf8 t \<Longrightarrow> valid_utf8 (s @ t)"
proof (induction s rule: length_induct)
  case (1 s)
  show ?case
  proof (cases "s = []")
    case True
    with "1.prems" show ?thesis by simp
  next
    case False
    with "1.prems"(1) obtain n where n: "rune_len s = Some n" and rest: "valid_utf8 (drop n s)"
      and "0 < n" "n \<le> length s"
      by (auto elim: valid_head)
    with False have "length (drop n s) < length s" by simp
    with "1.IH" rest "1.prems"(2) have "valid_utf8 (drop n s @ t)" by blast
    with False rune_len_append [OF n, of t] \<open>n \<le> length s\<close> show ?thesis
      by (simp add: valid_utf8.simps [of "s @ t"])
  qed
qed

text \<open>Conversely, where a valid string has a valid proper prefix, the next byte starts a rune.\<close>

lemma valid_prefix_boundary:
  assumes "valid_utf8 s" and "valid_utf8 (take j s)" and "j < length s"
  shows "RuneStart (s ! j)"
  using assms
proof (induction s arbitrary: j rule: length_induct)
  case (1 s)
  from "1.prems"(3) have "s \<noteq> []" by auto
  with "1.prems"(1) obtain n where n: "rune_len s = Some n" and rest: "valid_utf8 (drop n s)"
    and pos: "0 < n" "n \<le> length s"
    by (rule valid_head)
  show ?case
  proof (cases "j = 0")
    case True
    from \<open>s \<noteq> []\<close> obtain a t where "s = a # t" by (cases s) auto
    with n True rune_len_head [of a t n] show ?thesis by simp
  next
    case False
    with "1.prems"(3) have "take j s \<noteq> []" by auto
    with "1.prems"(2) obtain m where m: "rune_len (take j s) = Some m"
      and rest': "valid_utf8 (drop m (take j s))"
      by (rule valid_head)
    from rune_len_take_rev [OF m] n have "m = n" by simp
    with rune_len_pos [OF m] have "n \<le> j" by simp
    have "length (drop n s) < length s" using pos by simp
    moreover from rest' have "valid_utf8 (take (j - n) (drop n s))"
      using \<open>m = n\<close> \<open>n \<le> j\<close> by (simp add: drop_take)
    ultimately have "RuneStart (drop n s ! (j - n))"
      using "1.IH" rest "1.prems"(3) \<open>n \<le> j\<close> by (metis diff_less_mono length_drop)
    with \<open>n \<le> j\<close> "1.prems"(3) show ?thesis by simp
  qed
qed

subsection \<open>What the functions guarantee\<close>

text \<open>
  \<open>TruncateBytesNoMarker\<close> computes the longest valid prefix within the cap. For a valid
  UTF-8 input the result is a prefix of the input, valid UTF-8, at most \<open>max 0 maxBytes\<close>
  bytes long, and no valid prefix of the input that fits the cap is longer.
\<close>

theorem TruncateBytesNoMarker_longest:
  assumes "valid_utf8 s"
  shows "prefix (TruncateBytesNoMarker s maxBytes) s
    \<and> valid_utf8 (TruncateBytesNoMarker s maxBytes)
    \<and> int (length (TruncateBytesNoMarker s maxBytes)) \<le> max 0 maxBytes
    \<and> (\<forall>p. prefix p s \<and> valid_utf8 p \<and> int (length p) \<le> maxBytes \<longrightarrow>
          length p \<le> length (TruncateBytesNoMarker s maxBytes))"
proof (cases "int (length s) \<le> maxBytes \<or> maxBytes \<le> 0")
  case True
  have "length p = 0" if "int (length p) \<le> maxBytes" "maxBytes \<le> 0" for p :: string
    using that by linarith
  with True assms show ?thesis
    by (auto simp: TruncateBytesNoMarker_def valid_utf8.simps [of "[]"] dest: prefix_length_le)
next
  case False
  let ?m = "nat maxBytes" and ?k = "walk_back s (nat maxBytes)"
  from False have res: "TruncateBytesNoMarker s maxBytes = take ?k s"
    and m: "?m < length s" "int ?m = maxBytes"
    by (auto simp: TruncateBytesNoMarker_def)
  note k_le = walk_back_le [of s ?m]
  have "valid_utf8 (take ?k s)"
    using assms walk_back_start [of s ?m] by (auto intro: valid_take)
  moreover have "length p \<le> ?k" if p: "prefix p s" "valid_utf8 p" "int (length p) \<le> maxBytes" for p
  proof (rule ccontr)
    assume "\<not> length p \<le> ?k"
    then have gt: "?k < length p" and le: "length p \<le> ?m" using p(3) m(2) by auto
    from p(1) have "p = take (length p) s" by (auto simp: prefix_def)
    with p(2) assms le m(1) have "RuneStart (s ! length p)"
      by (metis order_le_less_trans valid_prefix_boundary)
    with walk_back_maximal [OF gt le] show False by simp
  qed
  ultimately show ?thesis using res m k_le by (auto simp: take_is_prefix)
qed

theorem TruncateBytesNoMarker_longest_witness:
  "valid_utf8 ''ab'' \<and> TruncateBytesNoMarker ''ab'' 1 = ''a''
   \<and> valid_utf8 (TruncateBytesNoMarker ''ab'' 1)"
proof -
  have v: "valid_utf8 ''ab''" by (simp add: valid_utf8.simps)
  have "TruncateBytesNoMarker ''ab'' 1 = ''a''"
    by (simp add: TruncateBytesNoMarker_def RuneStart_def)
  with v TruncateBytesNoMarker_longest [OF v, of 1] show ?thesis by simp
qed

text \<open>
  \<open>TruncateBytes\<close> never exceeds a non-negative cap, ellipsis included, returns the input
  untouched when it fits, and keeps valid UTF-8 valid.
\<close>

theorem TruncateBytes_capped:
  assumes "valid_utf8 s" and "0 \<le> maxBytes"
  shows "int (length (TruncateBytes s maxBytes)) \<le> maxBytes
    \<and> valid_utf8 (TruncateBytes s maxBytes)
    \<and> (int (length s) \<le> maxBytes \<longleftrightarrow> TruncateBytes s maxBytes = s)"
proof (cases "int (length s) \<le> maxBytes \<or> maxBytes < 3")
  case True
  with assms show ?thesis
    by (auto simp: TruncateBytes_def valid_utf8.simps [of "[]"])
next
  case False
  let ?k = "walk_back s (nat (maxBytes - 3))"
  from False have res: "TruncateBytes s maxBytes = take ?k s @ ellipsis"
    by (simp add: TruncateBytes_def)
  have k: "int ?k \<le> maxBytes - 3" using walk_back_le [of s "nat (maxBytes - 3)"] False by linarith
  have "valid_utf8 (take ?k s)"
    using assms walk_back_start [of s "nat (maxBytes - 3)"] by (auto intro: valid_take)
  then have "valid_utf8 (take ?k s @ ellipsis)" by (rule valid_append [OF _ valid_ellipsis])
  moreover have "length (take ?k s @ ellipsis) \<le> nat maxBytes" using k by simp
  moreover from this False have "length (take ?k s @ ellipsis) < length s" by linarith
  then have "take ?k s @ ellipsis \<noteq> s" by (metis less_irrefl)
  ultimately show ?thesis using res False assms(2) by auto
qed

theorem TruncateBytes_capped_witness:
  "int (length (TruncateBytes ''abcdef'' 5)) \<le> 5 \<and> TruncateBytes ''abcdef'' 5 = ''ab'' @ ellipsis"
proof -
  have v: "valid_utf8 ''abcdef''" by (simp add: valid_utf8.simps)
  have "TruncateBytes ''abcdef'' 5 = ''ab'' @ ellipsis"
    by (simp add: TruncateBytes_def RuneStart_def numeral_2_eq_2)
  with TruncateBytes_capped [OF v, of 5] show ?thesis by simp
qed

lemma rune_width_take:
  "s \<noteq> [] \<Longrightarrow> rune_width s \<le> k \<Longrightarrow> rune_width (take k s) = rune_width s"
  using rune_len_take [of s _ k] rune_len_take_rev [of k s]
  by (cases "rune_len (take k s)") (auto simp: rune_width_def split: option.splits)

text \<open>The loop of \<open>TruncateRunes\<close> stops at the offset that holds exactly the runes still allowed.\<close>

lemma rune_cut_spec:
  assumes "c \<le> m"
  shows "(rune_count rest \<le> m - c \<longrightarrow> rune_cut rest i c m = None) \<and>
    (m - c < rune_count rest \<longrightarrow>
      (\<exists>k. rune_cut rest i c m = Some (i + k) \<and> k \<le> length rest \<and> rune_count (take k rest) = m - c))"
  using assms
proof (induction rest i c m rule: rune_cut.induct)
  case (1 rest i c m)
  let ?w = "rune_width rest"
  show ?case
  proof (cases "rest = [] \<or> c = m")
    case True
    then show ?thesis
      by (auto simp: rune_cut.simps [of rest] rune_count.simps [of rest] rune_count.simps [of "[]"])
  next
    case False
    with "1.prems" have c: "Suc c \<le> m" and ne: "rest \<noteq> []" by auto
    have cnt: "rune_count rest = Suc (rune_count (drop ?w rest))"
      using ne by (simp add: rune_count.simps [of rest])
    have cut: "rune_cut rest i c m = rune_cut (drop ?w rest) (i + ?w) (Suc c) m"
      using False by (simp add: rune_cut.simps [of rest])
    note IH = "1.IH" [OF ne _ c]
    show ?thesis
    proof (cases "rune_count rest \<le> m - c")
      case True
      with IH False cnt cut c show ?thesis by auto
    next
      case gt: False
      with cnt c have "m - Suc c < rune_count (drop ?w rest)" by linarith
      with IH False obtain k where k: "rune_cut (drop ?w rest) (i + ?w) (Suc c) m = Some (i + ?w + k)"
        "k \<le> length (drop ?w rest)" "rune_count (take k (drop ?w rest)) = m - Suc c" by auto
      have w: "?w \<le> length rest"
        using ne by (cases "rune_len rest") (auto simp: rune_width_def Suc_le_eq dest: rune_len_pos)
      have "rune_count (take (?w + k) rest) = Suc (rune_count (drop ?w (take (?w + k) rest)))"
        using ne rune_width_pos [of rest] rune_width_take [OF ne, of "?w + k"]
        by (simp add: rune_count.simps [of "take (?w + k) rest"])
      then have "rune_count (take (?w + k) rest) = m - c"
        using k(3) c by (simp add: drop_take)
      with k(1,2) cut gt w show ?thesis by (auto intro!: exI [of _ "?w + k"])
    qed
  qed
qed

lemma rune_count_le_length: "rune_count s \<le> length s"
proof (induction s rule: rune_count.induct)
  case (1 s)
  show ?case
  proof (cases "s = []")
    case False
    with 1 have "rune_count (drop (rune_width s) s) \<le> length s - rune_width s" by simp
    with False rune_width_pos [of s] have "Suc (rune_count (drop (rune_width s) s)) \<le> length s"
      by (cases s) auto
    with False show ?thesis by (simp add: rune_count.simps [of s])
  qed (simp add: rune_count.simps [of "[]"])
qed

text \<open>
  \<open>TruncateRunes\<close> counts user-visible runes: with a positive cap the input is returned
  unchanged exactly when it has at most \<open>maxRunes\<close> runes, and otherwise the result is a
  prefix of exactly \<open>maxRunes\<close> runes followed by the marker. This holds for invalid UTF-8
  too, where every undecodable byte counts as one rune.
\<close>

theorem TruncateRunes_counts:
  assumes "0 < maxRunes"
  shows "if int (rune_count s) \<le> maxRunes then TruncateRunes s maxRunes = s
         else (\<exists>k. k \<le> length s \<and> TruncateRunes s maxRunes = take k s @ ellipsis
                 \<and> int (rune_count (take k s)) = maxRunes)"
proof -
  have spec: "(rune_count s \<le> nat maxRunes \<longrightarrow> rune_cut s 0 0 (nat maxRunes) = None) \<and>
    (nat maxRunes < rune_count s \<longrightarrow> (\<exists>k. rune_cut s 0 0 (nat maxRunes) = Some k
        \<and> k \<le> length s \<and> rune_count (take k s) = nat maxRunes))"
    using rune_cut_spec [of 0 "nat maxRunes" s 0] by simp
  show ?thesis
  proof (cases "int (rune_count s) \<le> maxRunes")
    case True
    with spec assms show ?thesis by (auto simp: TruncateRunes_def)
  next
    case False
    with spec assms obtain k where k: "rune_cut s 0 0 (nat maxRunes) = Some k"
      "k \<le> length s" "rune_count (take k s) = nat maxRunes" by auto
    moreover from False have "\<not> int (length s) \<le> maxRunes"
      using rune_count_le_length [of s] by linarith
    ultimately show ?thesis using False assms by (auto simp: TruncateRunes_def)
  qed
qed

theorem TruncateRunes_counts_witness:
  "TruncateRunes ''abcd'' 2 = ''ab'' @ ellipsis \<and> (\<exists>k. TruncateRunes ''abcd'' 2 = take k ''abcd'' @ ellipsis)"
proof -
  have c: "rune_count ''abcd'' = 4"
    by (simp add: rune_count.simps rune_width_def)
  have "TruncateRunes ''abcd'' 2 = ''ab'' @ ellipsis"
    by (simp add: TruncateRunes_def rune_cut.simps rune_width_def)
  moreover have "\<exists>k. TruncateRunes ''abcd'' 2 = take k ''abcd'' @ ellipsis"
    using TruncateRunes_counts [of 2 "''abcd''"] c by auto
  ultimately show ?thesis by blast
qed

subsection \<open>The contract of a capped preview column\<close>

text \<open>
  What a writer of a bounded text column needs from its truncation function: the cap in
  bytes, prefixes only, and valid text stays valid.
\<close>

locale preview_cap =
  fixes trunc :: "string \<Rightarrow> string" and cap :: nat
  assumes trunc_le: "length (trunc s) \<le> cap"
    and trunc_fits: "length s \<le> cap \<Longrightarrow> trunc s = s"
    and trunc_prefix: "prefix (trunc s) s"
    and trunc_valid: "valid_utf8 s \<Longrightarrow> valid_utf8 (trunc s)"
begin

lemma trunc_idem: "trunc (trunc s) = trunc s"
  by (rule trunc_fits [OF trunc_le])

lemma stored_le: "nullif_empty (trunc s) = Some p \<Longrightarrow> length p \<le> cap"
  using trunc_le [of s] by (auto simp: nullif_empty_def split: if_splits)

lemma stored_valid: "valid_utf8 s \<Longrightarrow> nullif_empty (trunc s) = Some p \<Longrightarrow> valid_utf8 p"
  using trunc_valid [of s] by (auto simp: nullif_empty_def split: if_splits)

end

lemma TruncateBytesNoMarker_length:
  "0 \<le> maxBytes \<Longrightarrow> length (TruncateBytesNoMarker s maxBytes) \<le> nat maxBytes"
  using walk_back_le [of s "nat maxBytes"]
  by (auto simp: TruncateBytesNoMarker_def le_nat_iff min.coboundedI2)

lemma TruncateBytesNoMarker_prefix: "prefix (TruncateBytesNoMarker s maxBytes) s"
  by (auto simp: TruncateBytesNoMarker_def take_is_prefix)

lemma TruncateBytesNoMarker_valid: "valid_utf8 s \<Longrightarrow> valid_utf8 (TruncateBytesNoMarker s maxBytes)"
  using walk_back_start [of s "nat maxBytes"]
  by (auto simp: TruncateBytesNoMarker_def valid_utf8.simps [of "[]"] intro: valid_take)

end
