(* ===== verification/Upload_Names.thy ===== *)
theory Upload_Names
  imports Textutil
begin

text \<open>
  The text a chat upload carries into paths and headers
  (\<^verbatim>\<open>internal/handlers/chat_files.go\<close>): \<open>SanitizeFilename\<close>, \<open>safeMimetype\<close>, \<open>urlPathEscape\<close>
  and \<open>contentDispositionAttachment\<close>, on arbitrary bytes. A loop over the runes of a string sees
  every valid encoding as one rune and every other byte as the replacement rune.

  The sanitised name is a fixed point of the sanitiser within its length cap; the header cannot be
  broken out of, and both file names it carries can be read back from it.
\<close>

subsection \<open>Runes\<close>

definition replacement_rune :: string where
  "replacement_rune = [char_of (239 :: nat), char_of (191 :: nat), char_of (189 :: nat)]"

function runes :: "string \<Rightarrow> string list" where
  "runes s = (if s = [] then []
     else (case rune_len s of None \<Rightarrow> replacement_rune | Some n \<Rightarrow> take n s) # runes (drop (rune_width s) s))"
  by pat_completeness auto
termination
  by (relation "measure length") (auto simp: rune_width_pos)

declare runes.simps [simp del]

definition ascii_rune :: "string \<Rightarrow> bool" where
  "ascii_rune r = (case r of [c] \<Rightarrow> byte c < 128 | _ \<Rightarrow> False)"

subsection \<open>Model\<close>

text \<open>\<open>filepath.Base\<close> on a host whose separator is the slash.\<close>

definition path_base :: "string \<Rightarrow> string" where
  "path_base path =
    (if path = [] then ''.''
     else let p = rev (dropWhile (\<lambda>c. c = CHR ''/'') (rev path));
              b = rev (takeWhile (\<lambda>c. c \<noteq> CHR ''/'') (rev p))
          in if b = [] then ''/'' else b)"

definition filename_char :: "char \<Rightarrow> bool" where
  "filename_char c = (in_range 97 122 c \<or> in_range 65 90 c \<or> in_range 48 57 c \<or> c \<in> {CHR ''.'', CHR ''_'', CHR ''-''})"

definition safe_rune :: "string \<Rightarrow> string" where
  "safe_rune r = (case r of [c] \<Rightarrow> if filename_char c then [c] else ''_'' | _ \<Rightarrow> ''_'')"

definition replace_unsafe :: "string \<Rightarrow> string" where
  "replace_unsafe s = concat (map safe_rune (runes s))"

definition name_ext :: "string \<Rightarrow> string" where
  "name_ext base =
    (let tail = rev (takeWhile (\<lambda>c. c \<noteq> CHR ''.'') (rev base))
     in if CHR ''.'' \<in> set base \<and> length tail + 1 \<le> 16 then CHR ''.'' # tail else [])"

definition SanitizeFilename :: "string \<Rightarrow> string" where
  "SanitizeFilename name =
    (let base = map (\<lambda>c. if c = CHR '' '' then CHR ''_'' else c) (path_base name);
         base = replace_unsafe base;
         base = (if length base > 100 then take (100 - length (name_ext base)) base @ name_ext base else base)
     in if base = [] \<or> base = ''.'' \<or> base = ''..'' then ''file'' else base)"

definition octet_stream :: string where "octet_stream = ''application/octet-stream''"

definition invisible_rune :: "string \<Rightarrow> bool" where
  "invisible_rune r = (case r of [c] \<Rightarrow> byte c < 33 \<or> byte c > 126 | _ \<Rightarrow> True)"

definition safeMimetype :: "string \<Rightarrow> string" where
  "safeMimetype raw =
    (let raw = TrimSpace (takeWhile (\<lambda>c. c \<noteq> CHR '';'') raw)
     in if raw = [] then []
        else if list_ex invisible_rune (runes raw) then octet_stream
        else case split_on (CHR ''/'') raw of
            [a, b] \<Rightarrow> if a = [] \<or> b = [] then octet_stream else raw
          | _ \<Rightarrow> octet_stream)"

definition hex_upper :: "nat \<Rightarrow> char" where
  "hex_upper n = (if n < 10 then char_of (48 + n) else char_of (55 + n))"

definition unreserved :: "char \<Rightarrow> bool" where
  "unreserved c = (in_range 65 90 c \<or> in_range 97 122 c \<or> in_range 48 57 c \<or> c \<in> {CHR ''-'', CHR ''.'', CHR ''_'', CHR ''~''})"

definition escape_byte :: "char \<Rightarrow> string" where
  "escape_byte c = (if unreserved c then [c] else [CHR ''%'', hex_upper (byte c div 16), hex_upper (byte c mod 16)])"

definition urlPathEscape :: "string \<Rightarrow> string" where
  "urlPathEscape s = concat (map escape_byte s)"

abbreviation dquote :: char where "dquote \<equiv> CHR 0x22"
abbreviation backslash :: char where "backslash \<equiv> CHR 0x5C"

definition control_rune :: "string \<Rightarrow> bool" where
  "control_rune r = (case r of [c] \<Rightarrow> byte c < 32 \<or> byte c = 127 | _ \<Rightarrow> False)"

definition quote_rune :: "string \<Rightarrow> string" where
  "quote_rune r =
    (if r = [CHR 0x0D] \<or> r = [CHR 0x0A] then []
     else if r = [dquote] \<or> r = [backslash] then backslash # r
     else if control_rune r then []
     else r)"

definition contentDispositionAttachment :: "string \<Rightarrow> string" where
  "contentDispositionAttachment name =
    ''attachment; filename='' @ [dquote] @ concat (map quote_rune (runes name)) @ [dquote]
      @ ''; filename*=UTF-8'' @ [CHR 0x27, CHR 0x27] @ urlPathEscape name"

subsection \<open>Runes are ASCII or above it\<close>

lemma rune_len_ascii: "rune_len (c # s) = Some 1 \<longleftrightarrow> byte c < 128"
  by (auto simp: in_range_def split: list.splits)

lemma rune_bytes:
  assumes "rune_len s = Some n"
  shows "(n = 1 \<and> byte (hd s) < 128) \<or> (n > 1 \<and> (\<forall>c \<in> set (take n s). 128 \<le> byte c))"
proof (cases s)
  case Nil
  with assms show ?thesis by simp
next
  case (Cons a t)
  with assms show ?thesis
    by (auto simp: in_range_def cont_def split: if_splits list.splits)
qed

lemma runes_cases:
  "r \<in> set (runes s) \<Longrightarrow> ascii_rune r \<or> (length r \<noteq> 1 \<and> r \<noteq> [] \<and> (\<forall>c \<in> set r. 128 \<le> byte c))"
proof (induction s rule: runes.induct)
  case (1 s)
  show ?case
  proof (cases "s = []")
    case True
    with "1.prems" show ?thesis by (simp add: runes.simps)
  next
    case False
    then consider "r \<in> set (runes (drop (rune_width s) s))"
      | "r = (case rune_len s of None \<Rightarrow> replacement_rune | Some n \<Rightarrow> take n s)"
      using "1.prems" by (subst (asm) runes.simps) auto
    then show ?thesis
    proof cases
      case 1
      with "1.IH" False show ?thesis by blast
    next
      case 2
      show ?thesis
      proof (cases "rune_len s")
        case None
        with 2 show ?thesis by (simp add: replacement_rune_def)
      next
        case (Some n)
        from rune_bytes [OF Some] show ?thesis
        proof
          assume "n = 1 \<and> byte (hd s) < 128"
          with 2 Some False show ?thesis by (cases s) (auto simp: ascii_rune_def)
        next
          assume n: "n > 1 \<and> (\<forall>c \<in> set (take n s). 128 \<le> byte c)"
          with 2 Some rune_len_pos [OF Some] show ?thesis by auto
        qed
      qed
    qed
  qed
qed

lemma runes_ascii: "(\<And>c. c \<in> set s \<Longrightarrow> byte c < 128) \<Longrightarrow> runes s = map (\<lambda>c. [c]) s"
proof (induction s)
  case Nil
  then show ?case by (simp add: runes.simps)
next
  case (Cons c s)
  then have "byte c < 128" by simp
  then have "rune_len (c # s) = Some 1" by simp
  then have "runes (c # s) = [c] # runes s"
    by (subst runes.simps) (simp add: rune_width_def del: rune_len.simps)
  with Cons show ?case by simp
qed

subsection \<open>File names\<close>

lemma filename_char_ascii: "filename_char c \<Longrightarrow> byte c < 128 \<and> c \<noteq> CHR ''/'' \<and> c \<noteq> CHR '' ''"
  by (auto simp: filename_char_def in_range_def)

lemma filename_underscore [simp]: "filename_char (CHR ''_'')"
  by (simp add: filename_char_def)

lemma replace_unsafe_chars: "c \<in> set (replace_unsafe s) \<Longrightarrow> filename_char c"
proof -
  assume "c \<in> set (replace_unsafe s)"
  then obtain r where "c \<in> set (safe_rune r)" by (auto simp: replace_unsafe_def)
  then show ?thesis by (cases r; cases "tl r") (auto simp: safe_rune_def split: if_splits)
qed

lemma replace_unsafe_id:
  assumes "\<And>c. c \<in> set s \<Longrightarrow> filename_char c"
  shows "replace_unsafe s = s"
proof -
  have "runes s = map (\<lambda>c. [c]) s" using assms filename_char_ascii by (intro runes_ascii) blast
  then have "replace_unsafe s = concat (map (\<lambda>c. if filename_char c then [c] else ''_'') s)"
    by (simp add: replace_unsafe_def safe_rune_def comp_def)
  also have "\<dots> = concat (map (\<lambda>c. [c]) s)" using assms by (intro arg_cong [of _ _ concat] map_cong) auto
  finally show ?thesis by simp
qed

lemma name_ext_spec: "set (name_ext b) \<subseteq> set b \<and> length (name_ext b) \<le> 16"
  by (auto simp: name_ext_def Let_def dest: set_takeWhileD)

lemma path_base_id:
  assumes "s \<noteq> []" and "CHR ''/'' \<notin> set s"
  shows "path_base s = s"
proof -
  have d: "dropWhile (\<lambda>c. c = CHR ''/'') (rev s) = rev s"
    unfolding dropWhile_eq_self_iff using assms last_in_set [of s] by (metis hd_rev)
  have "takeWhile (\<lambda>c. c \<noteq> CHR ''/'') (rev s) = rev s"
    using assms(2) by (auto simp: takeWhile_eq_all_conv)
  with assms(1) d show ?thesis by (simp add: path_base_def del: takeWhile_eq_all_conv)
qed

lemma sanitized_chars: "c \<in> set (SanitizeFilename name) \<Longrightarrow> filename_char c"
  using name_ext_spec by (auto simp: SanitizeFilename_def Let_def filename_char_def [of "CHR ''f''"]
      filename_char_def [of "CHR ''i''"] filename_char_def [of "CHR ''l''"] filename_char_def [of "CHR ''e''"] in_range_def
      split: if_splits dest: in_set_takeD replace_unsafe_chars subsetD)

lemma sanitized_shape:
  "SanitizeFilename name \<noteq> [] \<and> length (SanitizeFilename name) \<le> 100
   \<and> SanitizeFilename name \<noteq> ''.'' \<and> SanitizeFilename name \<noteq> ''..''"
proof -
  define b where "b = replace_unsafe (map (\<lambda>c. if c = CHR '' '' then CHR ''_'' else c) (path_base name))"
  define d where "d = (if length b > 100 then take (100 - length (name_ext b)) b @ name_ext b else b)"
  have "length d \<le> 100" using name_ext_spec [of b] by (auto simp: d_def)
  moreover have "SanitizeFilename name = (if d = [] \<or> d = ''.'' \<or> d = ''..'' then ''file'' else d)"
    unfolding SanitizeFilename_def Let_def b_def d_def by (rule refl)
  ultimately show ?thesis by auto
qed

text \<open>
  C40: a sanitised file name is a plain name. Whatever bytes the client sends, the result is 1 to
  100 bytes of letters, digits, dot, dash and underscore, hence free of separators, and is not a
  directory reference; sanitising is idempotent, so a name that passed once is never rewritten.
\<close>

theorem SanitizeFilename_safe:
  "1 \<le> length (SanitizeFilename name) \<and> length (SanitizeFilename name) \<le> 100
   \<and> list_all filename_char (SanitizeFilename name) \<and> SanitizeFilename name \<noteq> ''.'' \<and> SanitizeFilename name \<noteq> ''..''
   \<and> SanitizeFilename (SanitizeFilename name) = SanitizeFilename name"
proof -
  let ?n = "SanitizeFilename name"
  note ch = sanitized_chars [of _ name] and sh = sanitized_shape [of name]
  have sep: "CHR ''/'' \<notin> set ?n" "CHR '' '' \<notin> set ?n" using ch filename_char_ascii by blast+
  have pb: "path_base ?n = ?n" using path_base_id [of ?n] sh sep by blast
  have "map (\<lambda>c. if c = CHR '' '' then CHR ''_'' else c) (path_base ?n) = ?n"
    unfolding pb using sep by (intro map_idI) auto
  with replace_unsafe_id [of ?n] ch sh have "SanitizeFilename ?n = ?n"
    by (simp add: SanitizeFilename_def [of ?n] Let_def del: One_nat_def)
  with sh ch show ?thesis by (auto simp: list_all_iff Suc_le_eq)
qed

subsection \<open>Headers\<close>

text \<open>How a client reads the header: the quoted string up to its closing quote, and percent decoding.\<close>

fun unquote :: "string \<Rightarrow> (string \<times> string) option" where
  "unquote [] = None"
| "unquote (c # s) =
    (if c = dquote then Some ([], s)
     else if c = backslash then
       (case s of [] \<Rightarrow> None | d # t \<Rightarrow> map_option (\<lambda>(x, r). (d # x, r)) (unquote t))
     else map_option (\<lambda>(x, r). (c # x, r)) (unquote s))"

definition hex_val :: "char \<Rightarrow> nat" where
  "hex_val c = (if byte c < 58 then byte c - 48 else byte c - 55)"

fun pct_decode :: "string \<Rightarrow> string" where
  "pct_decode [] = []"
| "pct_decode (c # s) =
    (if c = CHR ''%'' then
       (case s of a # b # t \<Rightarrow> char_of (16 * hex_val a + hex_val b) # pct_decode t | _ \<Rightarrow> c # s)
     else c # pct_decode s)"

lemma hex_val_upper: "n < 16 \<Longrightarrow> hex_val (hex_upper n) = n"
  by (simp add: hex_val_def hex_upper_def)

lemma pct_decode_escape: "pct_decode (urlPathEscape s) = s"
proof (induction s)
  case (Cons c s)
  have "byte c div 16 < 16" by (simp add: less_mult_imp_div_less)
  with Cons show ?case
    by (auto simp: urlPathEscape_def escape_byte_def unreserved_def hex_val_upper in_range_def)
qed (simp add: urlPathEscape_def)

lemma unquote_plain:
  "dquote \<notin> set r \<Longrightarrow> backslash \<notin> set r \<Longrightarrow> unquote (r @ s) = map_option (\<lambda>(x, t). (r @ x, t)) (unquote s)"
  by (cases "unquote s"; induction r) auto

lemma unquote_rune:
  assumes "ascii_rune r \<or> (length r \<noteq> 1 \<and> r \<noteq> [] \<and> (\<forall>c \<in> set r. 128 \<le> byte c))"
  shows "unquote (quote_rune r @ s) = map_option (\<lambda>(x, t). ((if control_rune r then [] else r) @ x, t)) (unquote s)"
  using assms
proof
  assume "ascii_rune r"
  then obtain c where "r = [c]" by (auto simp: ascii_rune_def split: list.splits)
  then show ?thesis
    by (cases "unquote s") (auto simp: quote_rune_def control_rune_def)
next
  assume h: "length r \<noteq> 1 \<and> r \<noteq> [] \<and> (\<forall>c \<in> set r. 128 \<le> byte c)"
  then have "quote_rune r = r" "\<not> control_rune r" by (auto simp: quote_rune_def control_rune_def split: list.splits)
  moreover have "dquote \<notin> set r" "backslash \<notin> set r" using h by auto
  ultimately show ?thesis by (simp add: unquote_plain)
qed

lemma unquote_runes:
  assumes "\<And>r. r \<in> set rs \<Longrightarrow> ascii_rune r \<or> (length r \<noteq> 1 \<and> r \<noteq> [] \<and> (\<forall>c \<in> set r. 128 \<le> byte c))"
  shows "unquote (concat (map quote_rune rs) @ dquote # s) = Some (concat (filter (\<lambda>r. \<not> control_rune r) rs), s)"
  using assms
proof (induction rs)
  case (Cons r rs)
  then show ?case using unquote_rune [of r "concat (map quote_rune rs) @ dquote # s"] by auto
qed simp

lemma quote_rune_bytes:
  assumes "ascii_rune r \<or> (length r \<noteq> 1 \<and> r \<noteq> [] \<and> (\<forall>c \<in> set r. 128 \<le> byte c))" and "c \<in> set (quote_rune r)"
  shows "32 \<le> byte c \<and> byte c \<noteq> 127"
  using assms by (auto simp: quote_rune_def control_rune_def ascii_rune_def split: list.splits if_splits)

lemma hex_upper_bytes: "n < 16 \<Longrightarrow> 48 \<le> byte (hex_upper n) \<and> byte (hex_upper n) < 127"
  by (simp add: hex_upper_def)

lemma escape_bytes:
  assumes "c \<in> set (urlPathEscape s)"
  shows "32 \<le> byte c \<and> byte c \<noteq> 127"
proof -
  from assms obtain d where d: "c \<in> set (escape_byte d)" by (auto simp: urlPathEscape_def)
  have "byte d div 16 < 16" "byte d mod 16 < 16" by (simp_all add: less_mult_imp_div_less)
  note hex = this [THEN hex_upper_bytes]
  from d consider "unreserved d" "c = d" | "c = CHR ''%''" | "c = hex_upper (byte d div 16)" | "c = hex_upper (byte d mod 16)"
    by (auto simp: escape_byte_def split: if_splits)
  then show ?thesis
  proof cases
    case 1
    then show ?thesis by (auto simp: unreserved_def in_range_def)
  qed (use hex in auto)
qed

text \<open>
  the download header cannot be broken out of. For every file name, valid UTF-8 or not, the
  header has no control byte, its quoted string ends where the code closed it and reads back as
  the name without control characters, and the extended parameter decodes to the exact bytes of
  the name.
\<close>

theorem disposition_safe:
  "\<exists>body. contentDispositionAttachment name = ''attachment; filename='' @ [dquote] @ body
    \<and> unquote body = Some (concat (filter (\<lambda>r. \<not> control_rune r) (runes name)),
        ''; filename*=UTF-8'' @ [CHR 0x27, CHR 0x27] @ urlPathEscape name)
    \<and> pct_decode (urlPathEscape name) = name
    \<and> list_all (\<lambda>c. 32 \<le> byte c \<and> byte c \<noteq> 127) (contentDispositionAttachment name)"
proof -
  let ?q = "concat (map quote_rune (runes name))" and ?t = "''; filename*=UTF-8'' @ [CHR 0x27, CHR 0x27] @ urlPathEscape name"
  have "list_all (\<lambda>c. 32 \<le> byte c \<and> byte c \<noteq> 127) ?q"
    using quote_rune_bytes [OF runes_cases] by (force simp: list_all_iff)
  moreover have "list_all (\<lambda>c. 32 \<le> byte c \<and> byte c \<noteq> 127) (urlPathEscape name)"
    using escape_bytes by (auto simp: list_all_iff)
  ultimately have "list_all (\<lambda>c. 32 \<le> byte c \<and> byte c \<noteq> 127) (contentDispositionAttachment name)"
    by (simp add: contentDispositionAttachment_def)
  moreover have "unquote (?q @ dquote # ?t) = Some (concat (filter (\<lambda>r. \<not> control_rune r) (runes name)), ?t)"
    by (rule unquote_runes) (rule runes_cases)
  moreover have "contentDispositionAttachment name = ''attachment; filename='' @ [dquote] @ ?q @ dquote # ?t"
    by (simp add: contentDispositionAttachment_def)
  ultimately show ?thesis using pct_decode_escape by blast
qed

subsection \<open>Content types\<close>

lemma trim_left_subset: "set (trim_left sps s) \<subseteq> set s"
proof (induction sps s rule: trim_left.induct)
  case (1 sps s)
  then show ?case
    by (subst trim_left.simps) (auto split: option.splits dest: in_set_dropD)
qed

lemma TrimSpace_subset: "set (TrimSpace s) \<subseteq> set s"
  using trim_left_subset [of "map rev space_runes" "rev (trim_left space_runes s)"] trim_left_subset [of space_runes s]
  by (auto simp: TrimSpace_def)

lemma visible_runes:
  "\<not> list_ex invisible_rune (runes s) \<Longrightarrow>
    c \<in> set s \<Longrightarrow> 33 \<le> byte c \<and> byte c \<le> 126"
proof (induction s rule: runes.induct)
  case (1 s)
  show ?case
  proof (cases "s = []")
    case True
    with 1 show ?thesis by simp
  next
    case False
    let ?r = "case rune_len s of None \<Rightarrow> replacement_rune | Some n \<Rightarrow> take n s"
    have r: "runes s = ?r # runes (drop (rune_width s) s)" using False by (subst runes.simps) simp
    with "1.prems"(1) have h: "\<not> invisible_rune ?r"
      and t: "\<not> list_ex invisible_rune (runes (drop (rune_width s) s))"
      by simp_all
    then obtain d where d: "?r = [d]" "33 \<le> byte d" "byte d \<le> 126" by (auto simp: invisible_rune_def split: list.splits)
    then obtain n where n: "rune_len s = Some n" "take n s = [d]"
      by (auto simp: replacement_rune_def split: option.splits)
    with rune_len_pos [OF n(1)] have "n = 1" by (metis length_take length_Cons list.size(3) min.absorb2 One_nat_def)
    with n have "s = d # drop (rune_width s) s"
      by (metis append_Cons append_Nil append_take_drop_id option.simps(5) rune_width_def)
    with "1.IH" [OF False t] "1.prems"(2) d show ?thesis by (metis set_ConsD)
  qed
qed

text \<open>
  A stored content type is empty, the default, or one visible type and subtype without parameters.
\<close>

lemma safeMimetype_shape:
  "safeMimetype raw = [] \<or> (list_all (\<lambda>c. 33 \<le> byte c \<and> byte c \<le> 126 \<and> c \<noteq> CHR '';'') (safeMimetype raw)
    \<and> length (split_on (CHR ''/'') (safeMimetype raw)) = 2)"
proof -
  have o: "list_all (\<lambda>c. 33 \<le> byte c \<and> byte c \<le> 126 \<and> c \<noteq> CHR '';'') octet_stream"
    "length (split_on (CHR ''/'') octet_stream) = 2" by (simp_all add: octet_stream_def)
  define t where "t = TrimSpace (takeWhile (\<lambda>c. c \<noteq> CHR '';'') raw)"
  have semi: "CHR '';'' \<notin> set t" using TrimSpace_subset set_takeWhileD by (fastforce simp: t_def)
  have "safeMimetype raw = [] \<or> safeMimetype raw = octet_stream
      \<or> (safeMimetype raw = t \<and> (\<exists>a b. split_on (CHR ''/'') t = [a, b]) \<and> \<not> list_ex invisible_rune (runes t))"
    unfolding safeMimetype_def Let_def t_def [symmetric] by (simp split: list.split)
  then consider "safeMimetype raw = []" | "safeMimetype raw = octet_stream"
    | a b where "safeMimetype raw = t" "split_on (CHR ''/'') t = [a, b]" "\<not> list_ex invisible_rune (runes t)"
    by blast
  then show ?thesis
  proof cases
    case 3
    with visible_runes [OF 3(3)] semi show ?thesis by (auto simp: list_all_iff)
  qed (use o in auto)
qed

end
