(* ===== verification/Pending_Uploads.thy ===== *)
theory Pending_Uploads
  imports Upload_Names
begin

text \<open>
  Chat uploads for workspaces that poll: the staging table
  (\<^verbatim>\<open>internal/pendinguploads/storage.go\<close>, \<^verbatim>\<open>sweeper.go\<close>), the limits
  (\<^verbatim>\<open>internal/uploads/limits.go\<close>), the endpoints a workspace fetches and acknowledges with
  (\<^verbatim>\<open>internal/handlers/pending_uploads.go\<close>) and the upload itself (\<open>uploadPollMode\<close> of
  \<^verbatim>\<open>internal/handlers/chat_files.go\<close>).

  \<open>Storage\<close> is the Go interface, a record of operations on a state; \<open>postgres\<close> is its
  implementation on the table, with every statement that can fail. The handlers take any
  implementation. The locale \<open>upload_storage\<close> states what the interface promises, its lemmas are
  the behaviour of the handlers under every interleaving of calls, and \<open>postgres\<close> is an instance of it.
\<close>

subsection \<open>Limits and rows\<close>

record UploadLimits =
  PerFileBytes :: int
  PerRequestBytes :: int
  MaxAttachmentsPerMessage :: int

definition DefaultUploadLimits :: UploadLimits where
  "DefaultUploadLimits = \<lparr>PerFileBytes = 100 * 1024 * 1024, PerRequestBytes = 100 * 1024 * 1024, MaxAttachmentsPerMessage = 10\<rparr>"

definition MaxFileBytes :: int where "MaxFileBytes = PerFileBytes DefaultUploadLimits"

definition upload_ttl :: duration where "upload_ttl = 24 * hour"

record upload_record =
  pu_FileID :: string
  pu_WorkspaceID :: string
  pu_Content :: string
  pu_Filename :: string
  pu_Mimetype :: string
  pu_SizeBytes :: int
  pu_CreatedAt :: time
  pu_FetchedAt :: "time option"
  pu_AckedAt :: "time option"
  pu_ExpiresAt :: time

type_synonym upload_table = "upload_record list"

record PutItem =
  pi_Content :: string
  pi_Filename :: string
  pi_Mimetype :: string

datatype upload_error = ErrNotFound | ErrTooLarge | ErrEmptyContent | ErrEmptyFilename | ErrLongFilename | ErrUploadDB

definition new_upload :: "string \<Rightarrow> time \<Rightarrow> string \<Rightarrow> PutItem \<Rightarrow> upload_record" where
  "new_upload fid now ws it =
    \<lparr>pu_FileID = fid, pu_WorkspaceID = ws, pu_Content = pi_Content it, pu_Filename = pi_Filename it,
     pu_Mimetype = pi_Mimetype it, pu_SizeBytes = int (length (pi_Content it)), pu_CreatedAt = now,
     pu_FetchedAt = None, pu_AckedAt = None, pu_ExpiresAt = now + upload_ttl\<rparr>"

text \<open>The check of one file, the same in \<open>Put\<close> and in the batches.\<close>

definition validate_item :: "PutItem \<Rightarrow> upload_error + unit" where
  "validate_item it =
    (if pi_Content it = [] then Inl ErrEmptyContent
     else if int (length (pi_Content it)) > MaxFileBytes then Inl ErrTooLarge
     else if pi_Filename it = [] then Inl ErrEmptyFilename
     else if length (pi_Filename it) > 100 then Inl ErrLongFilename
     else Inr ())"

fun validatePutBatchItems :: "PutItem list \<Rightarrow> upload_error + unit" where
  "validatePutBatchItems [] = Inr ()"
| "validatePutBatchItems (it # items) = and_then (validate_item it) (\<lambda>_. validatePutBatchItems items)"

subsection \<open>The interface\<close>

text \<open>
  Every operation takes the time of the database; the operations that insert take the ids the
  database draws, the \<open>n\<close>-th for the \<open>n\<close>-th row.
\<close>

record 's Storage =
  st_Put :: "time \<Rightarrow> (nat \<Rightarrow> string) \<Rightarrow> string \<Rightarrow> PutItem \<Rightarrow> 's \<Rightarrow> (upload_error + string) \<times> 's"
  st_PutBatch :: "time \<Rightarrow> (nat \<Rightarrow> string) \<Rightarrow> string \<Rightarrow> PutItem list \<Rightarrow> 's \<Rightarrow> (upload_error + string list) \<times> 's"
  st_PutBatchTx :: "time \<Rightarrow> (nat \<Rightarrow> string) \<Rightarrow> string \<Rightarrow> PutItem list \<Rightarrow> 's \<Rightarrow> (upload_error + string list) \<times> 's"
  st_Get :: "time \<Rightarrow> string \<Rightarrow> 's \<Rightarrow> upload_error + upload_record"
  st_MarkFetched :: "time \<Rightarrow> string \<Rightarrow> 's \<Rightarrow> upload_error option \<times> 's"
  st_Ack :: "time \<Rightarrow> string \<Rightarrow> 's \<Rightarrow> upload_error option \<times> 's"
  st_Sweep :: "time \<Rightarrow> duration \<Rightarrow> 's \<Rightarrow> (upload_error + nat \<times> nat) \<times> 's"

subsection \<open>The Postgres implementation\<close>

record storage_faults =
  sf_begin :: bool
  sf_insert :: "nat option"
  sf_commit :: bool
  sf_get :: bool
  sf_mark :: bool
  sf_mark_rows :: bool
  sf_ack :: bool
  sf_ack_rows :: bool
  sf_requery :: bool
  sf_sweep :: bool

definition Put :: "storage_faults \<Rightarrow> time \<Rightarrow> (nat \<Rightarrow> string) \<Rightarrow> string \<Rightarrow> PutItem \<Rightarrow> upload_table
    \<Rightarrow> (upload_error + string) \<times> upload_table" where
  "Put fl now fresh ws it tbl =
    (case validate_item it of
       Inl e \<Rightarrow> (Inl e, tbl)
     | Inr _ \<Rightarrow>
        if sf_insert fl \<noteq> None then (Inl ErrUploadDB, tbl)
        else (Inr (fresh 0), tbl @ [new_upload (fresh 0) now ws it]))"

text \<open>The rows of a batch; \<open>n\<close> rows are already inserted.\<close>

fun putBatchInsertRows ::
  "storage_faults \<Rightarrow> time \<Rightarrow> (nat \<Rightarrow> string) \<Rightarrow> string \<Rightarrow> nat \<Rightarrow> PutItem list \<Rightarrow> upload_table
     \<Rightarrow> (upload_error + string list) \<times> upload_table" where
  "putBatchInsertRows fl now fresh ws n [] tbl = (Inr [], tbl)"
| "putBatchInsertRows fl now fresh ws n (it # items) tbl =
    (if sf_insert fl = Some n then (Inl ErrUploadDB, tbl)
     else case putBatchInsertRows fl now fresh ws (Suc n) items (tbl @ [new_upload (fresh n) now ws it]) of
         (Inl e, tbl') \<Rightarrow> (Inl e, tbl')
       | (Inr ids, tbl') \<Rightarrow> (Inr (fresh n # ids), tbl'))"

text \<open>A batch in its own transaction: every error rolls the rows back.\<close>

definition PutBatch ::
  "storage_faults \<Rightarrow> time \<Rightarrow> (nat \<Rightarrow> string) \<Rightarrow> string \<Rightarrow> PutItem list \<Rightarrow> upload_table
     \<Rightarrow> (upload_error + string list) \<times> upload_table" where
  "PutBatch fl now fresh ws items tbl =
    (if items = [] then (Inr [], tbl)
     else case validatePutBatchItems items of
         Inl e \<Rightarrow> (Inl e, tbl)
       | Inr _ \<Rightarrow>
          if sf_begin fl then (Inl ErrUploadDB, tbl)
          else case putBatchInsertRows fl now fresh ws 0 items tbl of
              (Inl e, _) \<Rightarrow> (Inl e, tbl)
            | (Inr ids, tbl') \<Rightarrow> if sf_commit fl then (Inl ErrUploadDB, tbl) else (Inr ids, tbl'))"

text \<open>A batch in the transaction of the caller, who commits or rolls back.\<close>

definition PutBatchTx ::
  "storage_faults \<Rightarrow> time \<Rightarrow> (nat \<Rightarrow> string) \<Rightarrow> string \<Rightarrow> PutItem list \<Rightarrow> upload_table
     \<Rightarrow> (upload_error + string list) \<times> upload_table" where
  "PutBatchTx fl now fresh ws items tbl =
    (if items = [] then (Inr [], tbl)
     else case validatePutBatchItems items of
         Inl e \<Rightarrow> (Inl e, tbl)
       | Inr _ \<Rightarrow> putBatchInsertRows fl now fresh ws 0 items tbl)"

definition unexpired :: "time \<Rightarrow> string \<Rightarrow> upload_record \<Rightarrow> bool" where
  "unexpired now fid r = (pu_FileID r = fid \<and> pu_ExpiresAt r > now)"

definition Get :: "storage_faults \<Rightarrow> time \<Rightarrow> string \<Rightarrow> upload_table \<Rightarrow> upload_error + upload_record" where
  "Get fl now fid tbl =
    (if sf_get fl then Inl ErrUploadDB
     else case sql_find (unexpired now fid) tbl of None \<Rightarrow> Inl ErrNotFound | Some r \<Rightarrow> Inr r)"

definition MarkFetched :: "storage_faults \<Rightarrow> time \<Rightarrow> string \<Rightarrow> upload_table \<Rightarrow> upload_error option \<times> upload_table" where
  "MarkFetched fl now fid tbl =
    (if sf_mark fl then (Some ErrUploadDB, tbl)
     else let tbl' = sql_update (unexpired now fid) (\<lambda>r. r\<lparr>pu_FetchedAt := Some now\<rparr>) tbl
          in if sf_mark_rows fl then (Some ErrUploadDB, tbl')
             else if sql_affected (unexpired now fid) tbl = 0 then (Some ErrNotFound, tbl')
             else (None, tbl'))"

definition unacked :: "time \<Rightarrow> string \<Rightarrow> upload_record \<Rightarrow> bool" where
  "unacked now fid r = (pu_FileID r = fid \<and> pu_AckedAt r = None \<and> pu_ExpiresAt r > now)"

definition Ack :: "storage_faults \<Rightarrow> time \<Rightarrow> string \<Rightarrow> upload_table \<Rightarrow> upload_error option \<times> upload_table" where
  "Ack fl now fid tbl =
    (if sf_ack fl then (Some ErrUploadDB, tbl)
     else let tbl' = sql_update (unacked now fid) (\<lambda>r. r\<lparr>pu_AckedAt := Some now\<rparr>) tbl
          in if sf_ack_rows fl then (Some ErrUploadDB, tbl')
             else if sql_affected (unacked now fid) tbl = 1 then (None, tbl')
             else if sf_requery fl then (Some ErrUploadDB, tbl')
             else case sql_find (unexpired now fid) tbl' of
                 None \<Rightarrow> (Some ErrNotFound, tbl')
               | Some _ \<Rightarrow> (None, tbl'))"

definition retention_cutoff :: "time \<Rightarrow> duration \<Rightarrow> time" where
  "retention_cutoff now ackRetention = now - (max 0 ackRetention div second) * second"

definition sweepable :: "time \<Rightarrow> duration \<Rightarrow> upload_record \<Rightarrow> bool" where
  "sweepable now ackRetention r =
    (case pu_AckedAt r of Some a \<Rightarrow> a < retention_cutoff now ackRetention | None \<Rightarrow> pu_ExpiresAt r < now)"

definition Sweep_uploads ::
  "storage_faults \<Rightarrow> time \<Rightarrow> duration \<Rightarrow> upload_table \<Rightarrow> (upload_error + nat \<times> nat) \<times> upload_table" where
  "Sweep_uploads fl now ackRetention tbl =
    (if sf_sweep fl then (Inl ErrUploadDB, tbl)
     else (Inr (length (filter (\<lambda>r. sweepable now ackRetention r \<and> pu_AckedAt r \<noteq> None) tbl),
                length (filter (\<lambda>r. sweepable now ackRetention r \<and> pu_AckedAt r = None) tbl)),
           filter (\<lambda>r. \<not> sweepable now ackRetention r) tbl))"

definition postgres :: "storage_faults \<Rightarrow> upload_table Storage" where
  "postgres fl = \<lparr>st_Put = Put fl, st_PutBatch = PutBatch fl, st_PutBatchTx = PutBatchTx fl, st_Get = Get fl,
     st_MarkFetched = MarkFetched fl, st_Ack = Ack fl, st_Sweep = Sweep_uploads fl\<rparr>"

subsection \<open>The sweeper\<close>

definition DefaultAckRetention :: duration where "DefaultAckRetention = hour"

record sweep_metrics =
  sm_acked :: nat
  sm_expired :: nat
  sm_errors :: nat

definition sweepOnce :: "'s Storage \<Rightarrow> duration \<Rightarrow> time \<Rightarrow> 's \<times> sweep_metrics \<Rightarrow> 's \<times> sweep_metrics" where
  "sweepOnce st ackRetention now sm =
    (case sm of (s, m) \<Rightarrow>
      (case st_Sweep st now ackRetention s of
         (Inl e, s') \<Rightarrow> (s', m\<lparr>sm_errors := sm_errors m + 1\<rparr>)
       | (Inr (acked, expired), s') \<Rightarrow>
           (s', m\<lparr>sm_acked := sm_acked m + acked, sm_expired := sm_expired m + expired\<rparr>)))"

text \<open>The loop: a sweep at the start and one per tick until the context is cancelled.\<close>

definition StartSweeper :: "'s Storage option \<Rightarrow> duration \<Rightarrow> time \<Rightarrow> time list \<Rightarrow> 's \<times> sweep_metrics \<Rightarrow> 's \<times> sweep_metrics" where
  "StartSweeper st ackRetention start ticks sm =
    (case st of
       None \<Rightarrow> sm
     | Some storage \<Rightarrow>
         let ret = (if ackRetention = 0 then DefaultAckRetention else ackRetention)
         in fold (sweepOnce storage ret) (start # ticks) sm)"

subsection \<open>The endpoints\<close>

text \<open>\<open>parse\<close> is \<open>uuid.Parse\<close> followed by its text form; \<open>sent\<close> is false when the connection broke.\<close>

datatype upload_response =
    UploadRejected int string
  | UploadFile string string string string
  | UploadAcked bool

definition GetContent ::
  "'s Storage \<Rightarrow> (string \<Rightarrow> string option) \<Rightarrow> bool \<Rightarrow> time \<Rightarrow> string \<Rightarrow> string \<Rightarrow> 's \<Rightarrow> upload_response \<times> 's" where
  "GetContent st parse sent now workspaceID fileIDStr s =
    (if parse workspaceID = None then (UploadRejected 400 ''invalid workspace ID'', s)
     else case parse fileIDStr of
         None \<Rightarrow> (UploadRejected 400 ''invalid file_id'', s)
       | Some fileID \<Rightarrow>
          (case st_Get st now fileID s of
             Inl ErrNotFound \<Rightarrow> (UploadRejected 404 ''pending upload not found or expired'', s)
           | Inl _ \<Rightarrow> (UploadRejected 500 ''storage error'', s)
           | Inr rec \<Rightarrow>
              if pu_WorkspaceID rec \<noteq> workspaceID then (UploadRejected 404 ''pending upload not found'', s)
              else
                let mimetype = (if pu_Mimetype rec = [] then octet_stream else pu_Mimetype rec);
                    resp = UploadFile mimetype (contentDispositionAttachment (pu_Filename rec))
                             (show_int (pu_SizeBytes rec)) (pu_Content rec)
                in if \<not> sent then (resp, s) else (resp, snd (st_MarkFetched st now fileID s))))"

definition Ack_upload ::
  "'s Storage \<Rightarrow> (string \<Rightarrow> string option) \<Rightarrow> time \<Rightarrow> time \<Rightarrow> string \<Rightarrow> string \<Rightarrow> 's \<Rightarrow> upload_response \<times> 's" where
  "Ack_upload st parse now ack_now workspaceID fileIDStr s =
    (if parse workspaceID = None then (UploadRejected 400 ''invalid workspace ID'', s)
     else case parse fileIDStr of
         None \<Rightarrow> (UploadRejected 400 ''invalid file_id'', s)
       | Some fileID \<Rightarrow>
          (case st_Get st now fileID s of
             Inl ErrNotFound \<Rightarrow> (UploadRejected 404 ''pending upload not found, expired, or already acked'', s)
           | Inl _ \<Rightarrow> (UploadRejected 500 ''storage error'', s)
           | Inr rec \<Rightarrow>
              if pu_WorkspaceID rec \<noteq> workspaceID then (UploadRejected 404 ''pending upload not found'', s)
              else case st_Ack st ack_now fileID s of
                  (Some ErrNotFound, s') \<Rightarrow> (UploadAcked True, s')
                | (Some _, s') \<Rightarrow> (UploadRejected 500 ''storage error'', s')
                | (None, s') \<Rightarrow> (UploadAcked False, s')))"

subsection \<open>The upload\<close>

record form_file =
  ff_Size :: int
  ff_Filename :: string
  ff_ContentType :: string
  ff_read :: "string option"

record upload_activity =
  ua_workspace :: string
  ua_file_id :: string
  ua_name :: string
  ua_mime :: string
  ua_size :: nat
  ua_uri :: string

record 's chat_db =
  ch_store :: 's
  ch_activity :: "upload_activity list"
  ch_events :: "upload_activity list"

datatype poll_response = PollRejected int string | PollStaged "upload_activity list"

text \<open>Reading the parts: all of them before anything is written.\<close>

definition prepare_file :: "form_file \<Rightarrow> poll_response + PutItem" where
  "prepare_file fh =
    (if ff_Size fh > MaxFileBytes then Inl (PollRejected 413 ''file exceeds per-file cap'')
     else case ff_read fh of
         None \<Rightarrow> Inl (PollRejected 400 ''could not read file part'')
       | Some content \<Rightarrow>
          if int (length content) > MaxFileBytes then Inl (PollRejected 413 ''file exceeds per-file cap'')
          else Inr \<lparr>pi_Content = content, pi_Filename = SanitizeFilename (ff_Filename fh),
                    pi_Mimetype = safeMimetype (ff_ContentType fh)\<rparr>)"

fun prepare_files :: "form_file list \<Rightarrow> poll_response + PutItem list" where
  "prepare_files [] = Inr []"
| "prepare_files (fh # fhs) =
    and_then (prepare_file fh) (\<lambda>it. and_then (prepare_files fhs) (\<lambda>its. Inr (it # its)))"

definition activity_of :: "string \<Rightarrow> PutItem \<Rightarrow> string \<Rightarrow> upload_activity" where
  "activity_of workspaceID it fid =
    \<lparr>ua_workspace = workspaceID, ua_file_id = fid, ua_name = pi_Filename it, ua_mime = pi_Mimetype it,
     ua_size = length (pi_Content it), ua_uri = ''platform-pending:'' @ workspaceID @ ''/'' @ fid\<rparr>"

record poll_faults =
  pl_form :: bool
  pl_begin :: bool
  pl_activity :: bool
  pl_commit :: bool

text \<open>The transaction: the staged files and their activity rows commit together, the events follow the commit.\<close>

definition stage_files ::
  "'s Storage \<Rightarrow> poll_faults \<Rightarrow> time \<Rightarrow> (nat \<Rightarrow> string) \<Rightarrow> string \<Rightarrow> string \<Rightarrow> PutItem list \<Rightarrow> 's chat_db \<Rightarrow> poll_response \<times> 's chat_db" where
  "stage_files st fl now fresh workspaceID wsUUID items db =
    (if pl_begin fl then (PollRejected 500 ''could not stage files'', db)
     else case st_PutBatchTx st now fresh wsUUID items (ch_store db) of
         (Inl e, _) \<Rightarrow>
           (if e = ErrTooLarge then (PollRejected 413 ''one or more files exceed per-file cap'', db)
            else (PollRejected 500 ''could not stage files'', db))
       | (Inr fileIDs, s') \<Rightarrow>
           (let acts = map2 (activity_of workspaceID) items fileIDs
            in if pl_activity fl then (PollRejected 500 ''could not log upload activity'', db)
               else if pl_commit fl then (PollRejected 500 ''could not stage files'', db)
               else (PollStaged acts,
                     \<lparr>ch_store = s', ch_activity = ch_activity db @ acts, ch_events = ch_events db @ acts\<rparr>)))"

definition uploadPollMode ::
  "'s Storage \<Rightarrow> (string \<Rightarrow> string option) \<Rightarrow> poll_faults \<Rightarrow> time \<Rightarrow> (nat \<Rightarrow> string) \<Rightarrow> string \<Rightarrow> form_file list
     \<Rightarrow> 's chat_db \<Rightarrow> poll_response \<times> 's chat_db" where
  "uploadPollMode st parse fl now fresh workspaceID headers db =
    (if pl_form fl then (PollRejected 400 ''malformed multipart body'', db)
     else if headers = [] then (PollRejected 400 ''no files field in request'', db)
     else if length headers > 64 then (PollRejected 400 ''too many files (limit 64)'', db)
     else case parse workspaceID of
         None \<Rightarrow> (PollRejected 400 ''invalid workspace ID'', db)
       | Some wsUUID \<Rightarrow>
          (case prepare_files headers of
             Inl resp \<Rightarrow> (resp, db)
           | Inr items \<Rightarrow> stage_files st fl now fresh workspaceID wsUUID items db))"

subsection \<open>What the interface promises\<close>

text \<open>
  The abstract content of a storage: what was staged under an id and when it was acknowledged.
\<close>

record stored =
  su_workspace :: string
  su_content :: string
  su_filename :: string
  su_mimetype :: string
  su_expires :: time
  su_acked :: "time option"

definition stored_of :: "upload_record \<Rightarrow> stored" where
  "stored_of r = \<lparr>su_workspace = pu_WorkspaceID r, su_content = pu_Content r, su_filename = pu_Filename r,
     su_mimetype = pu_Mimetype r, su_expires = pu_ExpiresAt r, su_acked = pu_AckedAt r\<rparr>"

definition stage :: "time \<Rightarrow> string \<Rightarrow> PutItem \<Rightarrow> stored" where
  "stage now ws it = \<lparr>su_workspace = ws, su_content = pi_Content it, su_filename = pi_Filename it,
     su_mimetype = pi_Mimetype it, su_expires = now + upload_ttl, su_acked = None\<rparr>"

lemma stored_of_sel [simp]:
  "su_workspace (stored_of r) = pu_WorkspaceID r" "su_content (stored_of r) = pu_Content r"
  "su_filename (stored_of r) = pu_Filename r" "su_mimetype (stored_of r) = pu_Mimetype r"
  "su_expires (stored_of r) = pu_ExpiresAt r" "su_acked (stored_of r) = pu_AckedAt r"
  by (simp_all add: stored_of_def)

text \<open>Fresh ids for the first \<open>n\<close> rows.\<close>

definition fresh_ids :: "(nat \<Rightarrow> string) \<Rightarrow> nat \<Rightarrow> (string \<Rightarrow> stored option) \<Rightarrow> bool" where
  "fresh_ids fresh n view \<longleftrightarrow> distinct (map fresh [0..<n]) \<and> (\<forall>i < n. view (fresh i) = None)"

definition staged :: "time \<Rightarrow> string \<Rightarrow> PutItem list \<Rightarrow> string list \<Rightarrow> (string \<Rightarrow> stored option) \<Rightarrow> (string \<Rightarrow> stored option) \<Rightarrow> bool" where
  "staged now ws items ids view view' \<longleftrightarrow> length ids = length items
    \<and> (\<forall>i < length items. view' (ids ! i) = Some (stage now ws (items ! i)))
    \<and> (\<forall>k. k \<notin> set ids \<longrightarrow> view' k = view k)"

text \<open>The calls other clients make, at a given time; sweeps use one retention.\<close>

inductive storage_step :: "'s Storage \<Rightarrow> ('s \<Rightarrow> string \<Rightarrow> stored option) \<Rightarrow> duration \<Rightarrow> time \<Rightarrow> 's \<Rightarrow> 's \<Rightarrow> bool"
  for st :: "'s Storage" and view :: "'s \<Rightarrow> string \<Rightarrow> stored option" and R :: duration where
  step_put: "fresh_ids fresh 1 (view s) \<Longrightarrow> storage_step st view R now s (snd (st_Put st now fresh ws it s))"
| step_batch: "fresh_ids fresh (length items) (view s) \<Longrightarrow>
    storage_step st view R now s (snd (st_PutBatch st now fresh ws items s))"
| step_fetched: "storage_step st view R now s (snd (st_MarkFetched st now fid s))"
| step_ack: "storage_step st view R now s (snd (st_Ack st now fid s))"
| step_sweep: "storage_step st view R now s (snd (st_Sweep st now R s))"

inductive storage_run :: "'s Storage \<Rightarrow> ('s \<Rightarrow> string \<Rightarrow> stored option) \<Rightarrow> duration \<Rightarrow> time \<Rightarrow> 's \<Rightarrow> time \<Rightarrow> 's \<Rightarrow> bool"
  for st :: "'s Storage" and view :: "'s \<Rightarrow> string \<Rightarrow> stored option" and R :: duration and t0 :: time and s0 :: 's where
  run_start: "storage_run st view R t0 s0 t0 s0"
| run_step: "storage_run st view R t0 s0 t s \<Longrightarrow> t \<le> t' \<Longrightarrow> storage_step st view R t' s s' \<Longrightarrow>
    storage_run st view R t0 s0 t' s'"

locale upload_storage =
  fixes st :: "'s Storage" and view :: "'s \<Rightarrow> string \<Rightarrow> stored option" and ok :: "'s \<Rightarrow> bool"
  assumes get_found: "ok s \<Longrightarrow> st_Get st now fid s = Inr r \<Longrightarrow> view s fid = Some (stored_of r) \<and> now < pu_ExpiresAt r"
    and get_size: "ok s \<Longrightarrow> st_Get st now fid s = Inr r \<Longrightarrow> pu_SizeBytes r = int (length (pu_Content r))"
    and get_missing: "ok s \<Longrightarrow> st_Get st now fid s = Inl e \<Longrightarrow> view s fid = Some u \<Longrightarrow> now < su_expires u \<Longrightarrow> e = ErrUploadDB"
    and put_staged: "ok s \<Longrightarrow> fresh_ids fresh 1 (view s) \<Longrightarrow> st_Put st now fresh ws it s = (res, s') \<Longrightarrow>
        ok s' \<and> (case res of Inl e \<Rightarrow> view s' = view s | Inr fid \<Rightarrow> staged now ws [it] [fid] (view s) (view s') \<and> view s fid = None)"
    and batch_staged: "ok s \<Longrightarrow> fresh_ids fresh (length items) (view s) \<Longrightarrow> st_PutBatch st now fresh ws items s = (resb, s') \<Longrightarrow>
        ok s' \<and> (case resb of Inl e \<Rightarrow> view s' = view s
                 | Inr ids \<Rightarrow> staged now ws items ids (view s) (view s') \<and> (\<forall>k \<in> set ids. view s k = None))"
    and tx_staged: "ok s \<Longrightarrow> fresh_ids fresh (length items) (view s) \<Longrightarrow> st_PutBatchTx st now fresh ws items s = (Inr ids, s') \<Longrightarrow>
        ok s' \<and> staged now ws items ids (view s) (view s') \<and> distinct ids"
    and fetched_view: "ok s \<Longrightarrow> ok (snd (st_MarkFetched st now fid s)) \<and> view (snd (st_MarkFetched st now fid s)) = view s"
    and ack_view: "ok s \<Longrightarrow> ok (snd (st_Ack st now fid s)) \<and>
        (view (snd (st_Ack st now fid s)) = view s
         \<or> (\<exists>u. view s fid = Some u \<and> su_acked u = None
              \<and> view (snd (st_Ack st now fid s)) = (view s)(fid \<mapsto> u\<lparr>su_acked := Some now\<rparr>)))"
    and sweep_view: "ok s \<Longrightarrow> ok (snd (st_Sweep st now R s)) \<and>
        (view (snd (st_Sweep st now R s)) k = view s k
         \<or> (\<exists>u. view s k = Some u \<and> view (snd (st_Sweep st now R s)) k = None
              \<and> (case su_acked u of None \<Rightarrow> su_expires u < now | Some a \<Rightarrow> a < retention_cutoff now R)))"
begin

text \<open>A step of anybody: the staged file stays, possibly acknowledged now, or is swept.\<close>

lemma step_keeps:
  assumes "storage_step st view R now s s'" and "ok s" and "view s k = Some u"
  shows "ok s' \<and> (view s' k = Some u \<or> (su_acked u = None \<and> view s' k = Some (u\<lparr>su_acked := Some now\<rparr>))
    \<or> (view s' k = None \<and> (case su_acked u of None \<Rightarrow> su_expires u < now | Some a \<Rightarrow> a < retention_cutoff now R)))"
  using assms
proof cases
  case (step_put fresh ws it)
  obtain res where p: "st_Put st now fresh ws it s = (res, s')" using step_put(1) by (metis prod.collapse)
  from put_staged [OF assms(2) step_put(2) p] assms(3) have "ok s' \<and> view s' k = Some u"
    by (cases res; cases "k = projr res") (auto simp: staged_def)
  then show ?thesis by simp
next
  case (step_batch fresh items ws)
  obtain res where p: "st_PutBatch st now fresh ws items s = (res, s')" using step_batch(1) by (metis prod.collapse)
  from batch_staged [OF assms(2) step_batch(2) p] assms(3) have "ok s' \<and> view s' k = Some u"
    by (cases res; cases "k \<in> set (projr res)") (auto simp: staged_def)
  then show ?thesis by simp
next
  case (step_fetched fid)
  then show ?thesis using fetched_view [OF assms(2)] assms(3) by simp
next
  case (step_ack fid)
  from ack_view [OF assms(2), of now fid] assms(3) show ?thesis unfolding step_ack by (cases "k = fid") auto
next
  case step_sweep
  from sweep_view [OF assms(2), of now R k] assms(3) show ?thesis unfolding step_sweep by auto
qed

text \<open>Within its lifetime and the retention, a staged file survives every interleaving.\<close>

definition survives :: "time \<Rightarrow> string \<Rightarrow> stored \<Rightarrow> 's \<Rightarrow> bool" where
  "survives t0 k u s \<longleftrightarrow> ok s \<and> (\<exists>u'. view s k = Some u' \<and> u'\<lparr>su_acked := su_acked u\<rparr> = u \<and> (\<forall>a. su_acked u' = Some a \<longrightarrow> t0 \<le> a))"

lemma run_survives:
  assumes "storage_run st view R t0 s0 t s" and "ok s0" and "view s0 k = Some u" and "su_acked u = None"
    and "t \<le> su_expires u" and "t0 \<le> t" and "retention_cutoff t R \<le> t0"
  shows "survives t0 k u s"
  using assms(1,5,6,7)
proof (induction rule: storage_run.induct)
  case run_start
  with assms(2,3,4) show ?case by (auto simp: survives_def)
next
  case (run_step t s t' s')
  have mono: "t0 \<le> t" using run_step(1) by (induction rule: storage_run.induct) auto
  have cut: "retention_cutoff t R \<le> t0" using run_step(2,7) by (simp add: retention_cutoff_def)
  from run_step.IH mono cut run_step(2,5) have "survives t0 k u s" by simp
  then obtain u' where u': "ok s" "view s k = Some u'" "u'\<lparr>su_acked := su_acked u\<rparr> = u"
    "\<And>a. su_acked u' = Some a \<Longrightarrow> t0 \<le> a" by (auto simp: survives_def)
  have ex: "su_expires u' = su_expires u" using u'(3) by (metis stored.select_convs(5) stored.surjective stored.update_convs(6))
  from step_keeps [OF run_step(3) u'(1,2)] show ?case
  proof (elim conjE disjE)
    assume "view s' k = Some (u'\<lparr>su_acked := Some t'\<rparr>)" "ok s'"
    with u'(3) run_step(6) show ?thesis by (auto simp: survives_def)
  next
    assume "case su_acked u' of None \<Rightarrow> su_expires u' < t' | Some a \<Rightarrow> a < retention_cutoff t' R"
    with ex run_step(5,7) u'(4) show ?thesis by (auto split: option.splits)
  qed (use u' in \<open>auto simp: survives_def\<close>)
qed

text \<open>What a fetch answers, and to whom.\<close>

lemma get_content_owner:
  assumes "ok s" and "view s fid = Some u" and "now < su_expires u" and "parse (su_workspace u) \<noteq> None" and "parse f = Some fid"
  shows "fst (GetContent st parse sent now (su_workspace u) f s) =
      UploadFile (if su_mimetype u = [] then octet_stream else su_mimetype u) (contentDispositionAttachment (su_filename u))
        (show_int (int (length (su_content u)))) (su_content u)
    \<or> fst (GetContent st parse sent now (su_workspace u) f s) = UploadRejected 500 ''storage error''"
proof (cases "st_Get st now fid s")
  case (Inl e)
  with get_missing [OF assms(1) Inl assms(2,3)] assms(4,5) show ?thesis by (auto simp: GetContent_def)
next
  case (Inr r)
  from get_found [OF assms(1) Inr] assms(2) have "u = stored_of r" by simp
  with get_size [OF assms(1) Inr] Inr assms(4,5) show ?thesis by (auto simp: GetContent_def stored_of_def Let_def)
qed

lemma get_content_serves:
  assumes "ok s" and "fst (GetContent st parse sent now ws f s) = UploadFile m d l c"
  shows "\<exists>fid u. parse f = Some fid \<and> view s fid = Some u \<and> su_workspace u = ws \<and> su_content u = c \<and> now < su_expires u"
proof -
  from assms(2) obtain fid r where "parse f = Some fid" "st_Get st now fid s = Inr r" "pu_WorkspaceID r = ws" "pu_Content r = c"
    by (auto simp: GetContent_def Let_def split: if_splits option.splits sum.splits upload_error.splits)
  with get_found [OF assms(1)] show ?thesis by (auto simp: stored_of_def)
qed

lemma endpoints_foreign:
  assumes "ok s" and "view s fid = Some u" and "parse f = Some fid" and "su_workspace u \<noteq> ws"
  shows "view (snd (GetContent st parse sent now ws f s)) = view s
    \<and> (\<exists>code why. fst (GetContent st parse sent now ws f s) = UploadRejected code why)
    \<and> snd (Ack_upload st parse now now' ws f s) = s
    \<and> (\<exists>code why. fst (Ack_upload st parse now now' ws f s) = UploadRejected code why)"
proof (cases "st_Get st now fid s")
  case (Inl e)
  with assms(3) show ?thesis by (cases "parse ws"; cases e) (auto simp: GetContent_def Ack_upload_def)
next
  case (Inr r)
  from get_found [OF assms(1) Inr] assms(2,4) have "pu_WorkspaceID r \<noteq> ws" by (auto simp: stored_of_def)
  with Inr assms(3) show ?thesis by (cases "parse ws") (auto simp: GetContent_def Ack_upload_def)
qed

end

subsection \<open>The table keeps the promise\<close>

definition table_view :: "upload_table \<Rightarrow> string \<Rightarrow> stored option" where
  "table_view tbl k = map_option stored_of (sql_find (\<lambda>r. pu_FileID r = k) tbl)"

definition uploads_ok :: "upload_table \<Rightarrow> bool" where
  "uploads_ok tbl \<longleftrightarrow> unique_key pu_FileID tbl
    \<and> (\<forall>r \<in> set tbl. pu_SizeBytes r = int (length (pu_Content r)) \<and> 0 < pu_SizeBytes r \<and> pu_SizeBytes r \<le> MaxFileBytes
         \<and> 1 \<le> length (pu_Filename r) \<and> length (pu_Filename r) \<le> 100)"

lemma find_unexpired:
  assumes "unique_key pu_FileID tbl"
  shows "sql_find (unexpired now fid) tbl =
    (case sql_find (\<lambda>r. pu_FileID r = fid) tbl of None \<Rightarrow> None | Some r \<Rightarrow> if now < pu_ExpiresAt r then Some r else None)"
  using assms
proof (induction tbl)
  case (Cons r tbl)
  then have IH: "sql_find (unexpired now fid) tbl =
      (case sql_find (\<lambda>r. pu_FileID r = fid) tbl of None \<Rightarrow> None | Some r \<Rightarrow> if now < pu_ExpiresAt r then Some r else None)"
    by (simp add: unique_key_def)
  show ?case
  proof (cases "pu_FileID r = fid")
    case True
    with Cons.prems have "sql_find (\<lambda>r. pu_FileID r = fid) tbl = None"
      by (auto simp: unique_key_def sql_find_None_iff) (metis image_eqI)
    with IH True show ?thesis by (simp add: sql_find_Cons unexpired_def [of now fid r])
  next
    case False
    with IH show ?thesis by (simp add: sql_find_Cons unexpired_def [of now fid r])
  qed
qed simp

lemma uploads_ok_update:
  assumes "uploads_ok tbl" and "\<And>r. pu_FileID (f r) = pu_FileID r \<and> pu_SizeBytes (f r) = pu_SizeBytes r
    \<and> pu_Content (f r) = pu_Content r \<and> pu_Filename (f r) = pu_Filename r"
  shows "uploads_ok (sql_update P f tbl)"
  using assms unique_key_sql_update [of P pu_FileID f tbl] by (auto simp: uploads_ok_def set_sql_update)

lemma table_view_update:
  assumes "\<And>r. pu_FileID (f r) = pu_FileID r"
  shows "table_view (sql_update P f tbl) k =
    map_option (\<lambda>r. stored_of (if P r then f r else r)) (sql_find (\<lambda>r. pu_FileID r = k) tbl)"
  unfolding table_view_def using sql_find_sql_update [of P pu_FileID f k tbl] assms by (simp add: option.map_comp comp_def)

lemma table_view_append: "table_view (tbl @ [r]) k =
    (case table_view tbl k of None \<Rightarrow> if pu_FileID r = k then Some (stored_of r) else None | Some u \<Rightarrow> Some u)"
  by (simp add: table_view_def sql_find_append sql_find_Cons split: option.split)

lemma stored_new: "stored_of (new_upload fid now ws it) = stage now ws it"
  by (simp add: stored_of_def new_upload_def stage_def)

definition item_ok :: "PutItem \<Rightarrow> bool" where
  "item_ok it = (validate_item it = Inr ())"

lemma item_ok_iff:
  "item_ok it \<longleftrightarrow> pi_Content it \<noteq> [] \<and> int (length (pi_Content it)) \<le> MaxFileBytes
    \<and> pi_Filename it \<noteq> [] \<and> length (pi_Filename it) \<le> 100"
  by (auto simp: item_ok_def validate_item_def)

lemma validate_batch: "validatePutBatchItems items = Inr u \<longleftrightarrow> list_all item_ok items"
  by (induction items) (auto simp: and_then_Inr item_ok_def)

lemma uploads_ok_append:
  "uploads_ok tbl \<Longrightarrow> item_ok it \<Longrightarrow> table_view tbl fid = None \<Longrightarrow> uploads_ok (tbl @ [new_upload fid now ws it])"
  by (auto simp: uploads_ok_def unique_key_def new_upload_def item_ok_iff table_view_def sql_find_None_iff Suc_le_eq)

text \<open>The rows of a batch, one after the other.\<close>

lemma insert_rows:
  assumes "uploads_ok tbl" and "list_all item_ok items"
    and "distinct (map fresh [n..<n + length items])" and "\<forall>i. n \<le> i \<and> i < n + length items \<longrightarrow> table_view tbl (fresh i) = None"
    and "putBatchInsertRows fl now fresh ws n items tbl = (Inr ids, tbl')"
  shows "uploads_ok tbl' \<and> ids = map fresh [n..<n + length items] \<and> staged now ws items ids (table_view tbl) (table_view tbl')"
  using assms
proof (induction items arbitrary: n tbl ids)
  case Nil
  then show ?case by (simp add: staged_def)
next
  case (Cons it items)
  let ?t = "tbl @ [new_upload (fresh n) now ws it]"
  have ups: "[n..<n + length (it # items)] = n # [Suc n..<Suc n + length items]" by (simp add: upt_rec)
  from Cons.prems(5) obtain ids' where rec: "putBatchInsertRows fl now fresh ws (Suc n) items ?t = (Inr ids', tbl')"
    and ids: "ids = fresh n # ids'" by (auto split: if_splits prod.splits sum.splits)
  have free: "table_view tbl (fresh n) = None" using Cons.prems(4) by simp
  have ok: "uploads_ok ?t" using uploads_ok_append [OF Cons.prems(1) _ free] Cons.prems(2) by simp
  have new: "table_view ?t k = (if k = fresh n then Some (stage now ws it) else table_view tbl k)" for k
    using free by (auto simp: table_view_append stored_new split: option.splits) (simp_all add: new_upload_def)
  have dist: "distinct (map fresh [Suc n..<Suc n + length items])" "fresh n \<notin> set (map fresh [Suc n..<Suc n + length items])"
    using Cons.prems(3) unfolding ups by simp_all
  have "\<forall>i \<in> {Suc n..<Suc n + length items}. fresh i \<noteq> fresh n" using dist(2) by (metis imageI set_map set_upt)
  then have "\<forall>i. Suc n \<le> i \<and> i < Suc n + length items \<longrightarrow> table_view ?t (fresh i) = None"
    using Cons.prems(4) by (simp add: new)
  have "list_all item_ok items" using Cons.prems(2) by simp
  note IH = Cons.IH [OF ok this dist(1) \<open>\<forall>i. Suc n \<le> i \<and> i < Suc n + length items \<longrightarrow> table_view ?t (fresh i) = None\<close> rec]
  note IH = IH [THEN conjunct1] IH [THEN conjunct2, THEN conjunct1] IH [THEN conjunct2, THEN conjunct2]
  have "fresh n \<notin> set ids'" using IH(2) dist(2) by simp
  with IH(3) have "staged now ws (it # items) ids (table_view tbl) (table_view tbl')"
    unfolding staged_def ids by (auto simp: new nth_Cons' less_Suc_eq_0_disj)
  with IH(1,2) show ?case unfolding ids ups by simp
qed

lemma PutBatchTx_staged:
  assumes "uploads_ok tbl" and "fresh_ids fresh (length items) (table_view tbl)" and "PutBatchTx fl now fresh ws items tbl = (Inr ids, tbl')"
  shows "uploads_ok tbl' \<and> staged now ws items ids (table_view tbl) (table_view tbl') \<and> ids = map fresh [0..<length items]
    \<and> list_all item_ok items"
proof (cases "items = []")
  case True
  with assms show ?thesis by (auto simp: PutBatchTx_def staged_def)
next
  case False
  with assms(3) have v: "list_all item_ok items" and r: "putBatchInsertRows fl now fresh ws 0 items tbl = (Inr ids, tbl')"
    by (auto simp: PutBatchTx_def validate_batch split: sum.splits)
  from insert_rows [OF assms(1) v _ _ r] assms(2) v show ?thesis unfolding fresh_ids_def by auto
qed

lemma PutBatch_Tx:
  assumes "PutBatch fl now fresh ws items tbl = (res, tbl')"
  shows "(\<exists>e. res = Inl e \<and> tbl' = tbl) \<or> (\<exists>ids. res = Inr ids \<and> PutBatchTx fl now fresh ws items tbl = (Inr ids, tbl'))"
  using assms by (auto simp: PutBatch_def PutBatchTx_def split: if_splits sum.splits prod.splits)

lemma sweep_table:
  assumes "uploads_ok tbl"
  shows "table_view (filter (\<lambda>r. \<not> Q r) tbl) k = table_view tbl k
    \<or> (\<exists>r \<in> set tbl. Q r \<and> table_view tbl k = Some (stored_of r) \<and> table_view (filter (\<lambda>r. \<not> Q r) tbl) k = None)"
proof (cases "sql_find (\<lambda>r. pu_FileID r = k) tbl")
  case None
  then have "sql_find (\<lambda>r. pu_FileID r = k) (filter (\<lambda>r. \<not> Q r) tbl) = None" by (auto simp: sql_find_None_iff)
  with None show ?thesis by (simp add: table_view_def)
next
  case (Some r)
  then have r: "r \<in> set tbl" "pu_FileID r = k" by (auto dest: sql_find_Some_iff)
  have uq: "unique_key pu_FileID tbl" using assms by (simp add: uploads_ok_def)
  show ?thesis
  proof (cases "Q r")
    case True
    then have "sql_find (\<lambda>r. pu_FileID r = k) (filter (\<lambda>r. \<not> Q r) tbl) = None"
      using unique_key_eq [OF uq _ r(1)] r(2) by (auto simp: sql_find_None_iff)
    with True Some r show ?thesis by (auto simp: table_view_def)
  next
    case False
    have "unique_key pu_FileID (filter (\<lambda>r. \<not> Q r) tbl)" using uq by (simp add: unique_key_def distinct_map_filter)
    from sql_find_key [OF this, of r] r False Some show ?thesis by (simp add: table_view_def)
  qed
qed

interpretation pg: upload_storage "postgres fl" table_view uploads_ok for fl
proof
  fix s :: upload_table and now :: time and fid :: string
  assume ok: "uploads_ok s"
  then have uq: "unique_key pu_FileID s" by (simp add: uploads_ok_def)
  {
    fix r assume "st_Get (postgres fl) now fid s = Inr r"
    then have f: "sql_find (\<lambda>r. pu_FileID r = fid) s = Some r" and e: "now < pu_ExpiresAt r"
      by (auto simp: postgres_def Get_def find_unexpired [OF uq] split: if_splits option.splits)
    then show "table_view s fid = Some (stored_of r) \<and> now < pu_ExpiresAt r" by (simp add: table_view_def)
    from f ok show "pu_SizeBytes r = int (length (pu_Content r))" by (auto simp: uploads_ok_def dest: sql_find_Some_iff)
  }
  {
    fix e u assume "st_Get (postgres fl) now fid s = Inl e" "table_view s fid = Some u" "now < su_expires u"
    then show "e = ErrUploadDB"
      by (auto simp: postgres_def Get_def find_unexpired [OF uq] table_view_def stored_of_def split: if_splits option.splits)
  }
  {
    fix fresh ws it res s'
    assume f: "fresh_ids fresh 1 (table_view s)" and p: "st_Put (postgres fl) now fresh ws it s = (res, s')"
    show "uploads_ok s' \<and> (case res of Inl e \<Rightarrow> table_view s' = table_view s
        | Inr fid \<Rightarrow> staged now ws [it] [fid] (table_view s) (table_view s') \<and> table_view s fid = None)"
    proof (cases res)
      case (Inl e)
      with p ok show ?thesis by (auto simp: postgres_def Put_def split: sum.splits if_splits)
    next
      case (Inr fid')
      with p have r: "item_ok it" "fid' = fresh 0" "s' = s @ [new_upload (fresh 0) now ws it]"
        by (auto simp: postgres_def Put_def item_ok_def split: sum.splits if_splits)
      have free: "table_view s (fresh 0) = None" using f by (simp add: fresh_ids_def)
      have "table_view s' k = (if k = fresh 0 then Some (stage now ws it) else table_view s k)" for k
        using free by (auto simp: r table_view_append stored_new split: option.splits) (simp_all add: new_upload_def)
      with uploads_ok_append [OF ok r(1) free] free Inr r show ?thesis by (simp add: staged_def)
    qed
  }
  {
    fix fresh items ws resb s'
    assume f: "fresh_ids fresh (length items) (table_view s)" and p: "st_PutBatch (postgres fl) now fresh ws items s = (resb, s')"
    then have "PutBatch fl now fresh ws items s = (resb, s')" by (simp add: postgres_def)
    from PutBatch_Tx [OF this] show "uploads_ok s' \<and> (case resb of Inl e \<Rightarrow> table_view s' = table_view s
        | Inr ids \<Rightarrow> staged now ws items ids (table_view s) (table_view s') \<and> (\<forall>k \<in> set ids. table_view s k = None))"
    proof (elim disjE exE conjE)
      fix ids assume r: "resb = Inr ids" "PutBatchTx fl now fresh ws items s = (Inr ids, s')"
      from PutBatchTx_staged [OF ok f r(2)] f r(1) show ?thesis by (auto simp: fresh_ids_def)
    qed (use ok in simp)
  }
  {
    fix fresh items ws ids s'
    assume f: "fresh_ids fresh (length items) (table_view s)" and p: "st_PutBatchTx (postgres fl) now fresh ws items s = (Inr ids, s')"
    then have "PutBatchTx fl now fresh ws items s = (Inr ids, s')" by (simp add: postgres_def)
    from PutBatchTx_staged [OF ok f this] f
    show "uploads_ok s' \<and> staged now ws items ids (table_view s) (table_view s') \<and> distinct ids" unfolding fresh_ids_def by metis
  }
  have same: "stored_of (if P r then r\<lparr>pu_FetchedAt := x\<rparr> else r) = stored_of r" for P x r by (simp add: stored_of_def)
  have m: "table_view (sql_update P (\<lambda>r. r\<lparr>pu_FetchedAt := x\<rparr>) s) = table_view s" for P x
    by (intro ext, subst table_view_update, simp) (simp only: same table_view_def)
  show "uploads_ok (snd (st_MarkFetched (postgres fl) now fid s)) \<and> table_view (snd (st_MarkFetched (postgres fl) now fid s)) = table_view s"
    using ok uploads_ok_update [OF ok, of "\<lambda>r. r\<lparr>pu_FetchedAt := Some now\<rparr>"]
    by (auto simp: postgres_def MarkFetched_def Let_def m)
  have a: "table_view (sql_update (unacked now fid) (\<lambda>r. r\<lparr>pu_AckedAt := Some now\<rparr>) s) = table_view s
      \<or> (\<exists>u. table_view s fid = Some u \<and> su_acked u = None
           \<and> table_view (sql_update (unacked now fid) (\<lambda>r. r\<lparr>pu_AckedAt := Some now\<rparr>) s) = (table_view s)(fid \<mapsto> u\<lparr>su_acked := Some now\<rparr>))"
    (is "?same \<or> ?acked")
  proof (cases "\<exists>r. sql_find (\<lambda>r. pu_FileID r = fid) s = Some r \<and> unacked now fid r")
    case True
    then obtain r where r: "sql_find (\<lambda>r. pu_FileID r = fid) s = Some r" "unacked now fid r" by blast
    have "table_view (sql_update (unacked now fid) (\<lambda>r. r\<lparr>pu_AckedAt := Some now\<rparr>) s) k
        = ((table_view s)(fid \<mapsto> (stored_of r)\<lparr>su_acked := Some now\<rparr>)) k" for k
    proof (cases "k = fid")
      case True
      with r show ?thesis by (subst table_view_update) (simp_all add: stored_of_def)
    next
      case False
      then show ?thesis
        by (subst table_view_update) (auto simp: table_view_def unacked_def dest!: sql_find_Some_iff split: option.splits
            intro!: map_option_cong)
    qed
    then have ?acked using r by (intro exI [of _ "stored_of r"]) (auto simp: table_view_def stored_of_def unacked_def)
    then show ?thesis ..
  next
    case False
    have "table_view (sql_update (unacked now fid) (\<lambda>r. r\<lparr>pu_AckedAt := Some now\<rparr>) s) k = table_view s k" for k
    proof (cases "sql_find (\<lambda>r. pu_FileID r = k) s")
      case (Some r)
      with False have "\<not> unacked now fid r" using sql_find_Some_iff [OF Some] by (auto simp: unacked_def)
      with Some show ?thesis by (subst table_view_update) (simp_all add: table_view_def)
    qed (subst table_view_update, simp_all add: table_view_def)
    then have ?same by blast
    then show ?thesis ..
  qed
  have oka: "uploads_ok (sql_update (unacked now fid) (\<lambda>r. r\<lparr>pu_AckedAt := Some now\<rparr>) s)"
    by (rule uploads_ok_update [OF ok]) simp
  show "uploads_ok (snd (st_Ack (postgres fl) now fid s)) \<and>
      (table_view (snd (st_Ack (postgres fl) now fid s)) = table_view s
       \<or> (\<exists>u. table_view s fid = Some u \<and> su_acked u = None
            \<and> table_view (snd (st_Ack (postgres fl) now fid s)) = (table_view s)(fid \<mapsto> u\<lparr>su_acked := Some now\<rparr>)))"
    using a oka ok by (simp add: postgres_def Ack_def Let_def split: option.split)
  fix R k
  have okf: "uploads_ok (filter (\<lambda>r. \<not> sweepable now R r) s)"
    using ok by (auto simp: uploads_ok_def unique_key_def distinct_map_filter)
  show "uploads_ok (snd (st_Sweep (postgres fl) now R s)) \<and>
      (table_view (snd (st_Sweep (postgres fl) now R s)) k = table_view s k
       \<or> (\<exists>u. table_view s k = Some u \<and> table_view (snd (st_Sweep (postgres fl) now R s)) k = None
            \<and> (case su_acked u of None \<Rightarrow> su_expires u < now | Some a \<Rightarrow> a < retention_cutoff now R)))"
  proof -
    have "case su_acked (stored_of r) of None \<Rightarrow> su_expires (stored_of r) < now | Some a \<Rightarrow> a < retention_cutoff now R"
      if "sweepable now R r" for r
      using that by (simp add: sweepable_def split: option.splits)
    with sweep_table [OF ok, of "sweepable now R" k]
    have "table_view (filter (\<lambda>r. \<not> sweepable now R r) s) k = table_view s k
       \<or> (\<exists>u. table_view s k = Some u \<and> table_view (filter (\<lambda>r. \<not> sweepable now R r) s) k = None
            \<and> (case su_acked u of None \<Rightarrow> su_expires u < now | Some a \<Rightarrow> a < retention_cutoff now R))" by blast
    with okf ok show ?thesis by (simp add: postgres_def Sweep_uploads_def)
  qed
qed

subsection \<open>Properties\<close>

text \<open>
  C32: a staged file is delivered. Whatever other clients stage, fetch, acknowledge or sweep in
  between and whatever their calls do, a file that was staged at some time can be fetched by its
  workspace with its exact bytes, type and name until its 24 hours or the retention of the sweeps
  are over, whichever comes first; the only other answer is a failure of the query itself.
\<close>

theorem staged_file_delivered:
  assumes "uploads_ok tbl" and "table_view tbl fid = Some u" and "su_acked u = None"
    and "storage_run (postgres fl) table_view R t0 tbl t tbl'" and "t \<le> now" and "now < su_expires u"
    and "retention_cutoff t R \<le> t0" and "parse (su_workspace u) \<noteq> None" and "parse f = Some fid"
  shows "fst (GetContent (postgres fl') parse sent now (su_workspace u) f tbl') =
      UploadFile (if su_mimetype u = [] then octet_stream else su_mimetype u) (contentDispositionAttachment (su_filename u))
        (show_int (int (length (su_content u)))) (su_content u)
    \<or> fst (GetContent (postgres fl') parse sent now (su_workspace u) f tbl') = UploadRejected 500 ''storage error''"
proof -
  have "t0 \<le> t" using assms(4) by (induction rule: storage_run.induct) auto
  from pg.run_survives [OF assms(4,1,2,3) _ this assms(7)] assms(5,6)
  have "pg.survives t0 fid u tbl'" by simp
  then obtain u' where u': "uploads_ok tbl'" "table_view tbl' fid = Some u'" "u'\<lparr>su_acked := su_acked u\<rparr> = u"
    by (auto simp: pg.survives_def)
  then have same: "su_workspace u' = su_workspace u" "su_content u' = su_content u" "su_filename u' = su_filename u"
    "su_mimetype u' = su_mimetype u" "su_expires u' = su_expires u"
    by (metis stored.select_convs stored.surjective stored.update_convs(6))+
  from pg.get_content_owner [OF u'(1,2), of now parse f fl' sent, unfolded same] assms(6,8,9) show ?thesis by blast
qed

text \<open>
  uploads are private to their workspace. Bytes are only ever served to the workspace they
  were staged for and before they expire; a request of any other workspace, with whatever file
  id, is rejected, changes nothing of what is staged and acknowledges nothing.
\<close>

theorem uploads_private:
  assumes "uploads_ok tbl" and "table_view tbl fid = Some u" and "parse f = Some fid"
  shows "(fst (GetContent (postgres fl) parse sent now ws f tbl) = UploadFile m d l c \<longrightarrow>
            ws = su_workspace u \<and> c = su_content u \<and> now < su_expires u)
    \<and> (ws \<noteq> su_workspace u \<longrightarrow>
         table_view (snd (GetContent (postgres fl) parse sent now ws f tbl)) = table_view tbl
         \<and> snd (Ack_upload (postgres fl) parse now now' ws f tbl) = tbl
         \<and> (\<exists>code why. fst (Ack_upload (postgres fl) parse now now' ws f tbl) = UploadRejected code why))"
  using pg.get_content_serves [OF assms(1), of fl parse sent now ws f m d l c] pg.endpoints_foreign [of tbl fid u parse f ws fl sent now now']
    assms by auto

lemma prepared_names: "prepare_files hs = Inr items \<Longrightarrow>
    length items = length hs \<and> map pi_Filename items = map (\<lambda>h. SanitizeFilename (ff_Filename h)) hs
    \<and> map (\<lambda>it. Some (pi_Content it)) items = map ff_read hs"
  by (induction hs arbitrary: items) (auto simp: and_then_Inr prepare_file_def split: if_splits option.splits)

lemma prepare_rejects: "prepare_files hs = Inl r \<Longrightarrow> \<exists>code why. r = PollRejected code why"
proof (induction hs)
  case (Cons h hs)
  show ?case
  proof (cases "prepare_file h")
    case (Inl r')
    with Cons.prems show ?thesis by (auto simp: prepare_file_def split: if_splits option.splits)
  next
    case (Inr it)
    with Cons show ?thesis by (cases "prepare_files hs") auto
  qed
qed simp

lemma stage_files_cases:
  assumes "stage_files (postgres sf) fl now fresh ws wsid items db = (resp, db')"
  shows "(\<exists>code why. resp = PollRejected code why \<and> db' = db)
    \<or> (\<exists>ids s'. PutBatchTx sf now fresh wsid items (ch_store db) = (Inr ids, s')
        \<and> resp = PollStaged (map2 (activity_of ws) items ids)
        \<and> db' = \<lparr>ch_store = s', ch_activity = ch_activity db @ map2 (activity_of ws) items ids,
                ch_events = ch_events db @ map2 (activity_of ws) items ids\<rparr>)"
proof -
  obtain res s' where p: "PutBatchTx sf now fresh wsid items (ch_store db) = (res, s')" by fastforce
  with assms show ?thesis
    by (cases res) (auto simp: stage_files_def postgres_def Let_def split: if_splits)
qed

text \<open>
  a multi-file upload is staged as a whole or not at all. Either the request is rejected and
  nothing is stored, logged or broadcast, or every part has one staged file holding its exact
  bytes under its sanitised name, and one activity row and one event that name this file, in the
  order of the parts, next to everything that was there before.
\<close>

theorem poll_upload_atomic:
  assumes "uploads_ok (ch_store db)" and "fresh_ids fresh (length hs) (table_view (ch_store db))"
    and "uploadPollMode (postgres sf) parse fl now fresh ws hs db = (resp, db')"
  shows "(\<exists>code why. resp = PollRejected code why \<and> db' = db)
    \<or> (\<exists>items ids wsid. resp = PollStaged (map2 (activity_of ws) items ids) \<and> parse ws = Some wsid
        \<and> ids = map fresh [0..<length hs] \<and> hs \<noteq> [] \<and> length hs \<le> 64
        \<and> map (\<lambda>it. Some (pi_Content it)) items = map ff_read hs
        \<and> map pi_Filename items = map (\<lambda>h. SanitizeFilename (ff_Filename h)) hs
        \<and> uploads_ok (ch_store db') \<and> staged now wsid items ids (table_view (ch_store db)) (table_view (ch_store db'))
        \<and> ch_activity db' = ch_activity db @ map2 (activity_of ws) items ids
        \<and> ch_events db' = ch_events db @ map2 (activity_of ws) items ids)"
proof -
  consider code why where "resp = PollRejected code why" "db' = db"
    | wsid items where "parse ws = Some wsid" "prepare_files hs = Inr items" "hs \<noteq> []" "length hs \<le> 64"
      "stage_files (postgres sf) fl now fresh ws wsid items db = (resp, db')"
  proof (cases "parse ws"; cases "prepare_files hs")
    fix wsid r assume "parse ws = Some wsid" "prepare_files hs = Inl r"
    with assms(3) prepare_rejects [of hs r] that(1) show thesis by (auto simp: uploadPollMode_def split: if_splits)
  qed (use assms(3) that in \<open>auto simp: uploadPollMode_def split: if_splits\<close>)
  then show ?thesis
  proof cases
    case 2
    from stage_files_cases [OF 2(5)] show ?thesis
    proof (elim disjE exE conjE)
      fix ids s' assume r: "PutBatchTx sf now fresh wsid items (ch_store db) = (Inr ids, s')"
        "resp = PollStaged (map2 (activity_of ws) items ids)"
        "db' = \<lparr>ch_store = s', ch_activity = ch_activity db @ map2 (activity_of ws) items ids,
           ch_events = ch_events db @ map2 (activity_of ws) items ids\<rparr>"
      from prepared_names [OF 2(2)] PutBatchTx_staged [OF assms(1) _ r(1)] assms(2) 2 r show ?thesis by auto
    qed blast
  qed blast
qed

definition no_storage_faults :: storage_faults where
  "no_storage_faults = \<lparr>sf_begin = False, sf_insert = None, sf_commit = False, sf_get = False, sf_mark = False,
     sf_mark_rows = False, sf_ack = False, sf_ack_rows = False, sf_requery = False, sf_sweep = False\<rparr>"

definition note_item :: PutItem where
  "note_item = \<lparr>pi_Content = ''hello'', pi_Filename = ''note.txt'', pi_Mimetype = ''text/plain''\<rparr>"

definition note_table :: upload_table where
  "note_table = [new_upload ''f1'' 0 ''ws'' note_item]"

lemma note_table_ok: "uploads_ok note_table" "table_view note_table ''f1'' = Some (stage 0 ''ws'' note_item)"
  by (simp_all add: uploads_ok_def unique_key_def note_table_def new_upload_def note_item_def table_view_def sql_find_Cons
      stored_of_def stage_def MaxFileBytes_def DefaultUploadLimits_def)

text \<open>The example: fetched and acknowledged once, then swept ten minutes later and fetched again.\<close>

definition note_later :: upload_table where
  "note_later = snd (Sweep_uploads no_storage_faults (10 * minute) DefaultAckRetention (snd (Ack no_storage_faults minute ''f1'' note_table)))"

lemma note_run: "storage_run (postgres no_storage_faults) table_view DefaultAckRetention 0 note_table (10 * minute) note_later"
proof -
  have "storage_step (postgres no_storage_faults) table_view DefaultAckRetention minute note_table
      (snd (Ack no_storage_faults minute ''f1'' note_table))"
    using step_ack [of "postgres no_storage_faults"] by (simp add: postgres_def)
  then have "storage_run (postgres no_storage_faults) table_view DefaultAckRetention 0 note_table minute
      (snd (Ack no_storage_faults minute ''f1'' note_table))"
    by (rule run_step [OF run_start, rotated]) (simp add: duration_defs)
  moreover have "storage_step (postgres no_storage_faults) table_view DefaultAckRetention (10 * minute)
      (snd (Ack no_storage_faults minute ''f1'' note_table)) note_later"
    unfolding note_later_def using step_sweep [of "postgres no_storage_faults"] by (simp add: postgres_def)
  moreover have "minute \<le> 10 * minute" by (simp add: duration_defs)
  ultimately show ?thesis by (blast intro: run_step)
qed

theorem staged_file_delivered_witness:
  "fst (GetContent (postgres no_storage_faults) Some True hour ''ws'' ''f1'' note_later) =
    UploadFile ''text/plain'' (contentDispositionAttachment ''note.txt'') (show_int 5) ''hello''"
proof -
  have "fst (GetContent (postgres no_storage_faults) Some True hour ''ws'' ''f1'' note_later) \<noteq> UploadRejected 500 ''storage error''"
    by (auto simp: GetContent_def postgres_def Get_def no_storage_faults_def Let_def split: option.splits)
  then show ?thesis
    using staged_file_delivered [OF note_table_ok(1,2) _ note_run, of hour Some "''f1''" no_storage_faults True]
    by (simp add: stage_def note_item_def upload_ttl_def duration_defs retention_cutoff_def DefaultAckRetention_def)
qed

theorem uploads_private_witness:
  "snd (Ack_upload (postgres no_storage_faults) Some 0 0 ''other'' ''f1'' note_table) = note_table
   \<and> table_view (snd (GetContent (postgres no_storage_faults) Some True 0 ''other'' ''f1'' note_table)) = table_view note_table"
  using uploads_private [OF note_table_ok, of Some "''f1''" no_storage_faults True 0 "''other''"]
  by (simp add: stage_def)

definition note_form :: form_file where
  "note_form = \<lparr>ff_Size = 5, ff_Filename = ''../note.txt'', ff_ContentType = ''text/plain'', ff_read = Some ''hello''\<rparr>"

definition no_poll_faults :: poll_faults where
  "no_poll_faults = \<lparr>pl_form = False, pl_begin = False, pl_activity = False, pl_commit = False\<rparr>"

definition empty_chat :: "upload_table chat_db" where
  "empty_chat = \<lparr>ch_store = [], ch_activity = [], ch_events = []\<rparr>"

theorem poll_upload_atomic_witness:
  "\<exists>resp db'. uploadPollMode (postgres no_storage_faults) Some no_poll_faults 0 (\<lambda>_. ''f1'') ''ws'' [note_form] empty_chat = (resp, db')
    \<and> length (ch_activity db') = 1 \<and> ch_events db' = ch_activity db'"
proof -
  obtain resp db' where u: "uploadPollMode (postgres no_storage_faults) Some no_poll_faults 0 (\<lambda>_. ''f1'') ''ws'' [note_form] empty_chat = (resp, db')"
    by fastforce
  have f: "fresh_ids (\<lambda>_. ''f1'') (length [note_form]) (table_view (ch_store empty_chat))" "uploads_ok (ch_store empty_chat)"
    by (simp_all add: fresh_ids_def empty_chat_def table_view_def uploads_ok_def unique_key_def)
  let ?n = "SanitizeFilename ''../note.txt''"
  have n: "?n \<noteq> []" "length ?n \<le> 100" using sanitized_shape by blast+
  then have "\<exists>acts. resp = PollStaged acts"
    using u by (auto simp: uploadPollMode_def no_poll_faults_def note_form_def prepare_file_def MaxFileBytes_def DefaultUploadLimits_def
        stage_files_def postgres_def PutBatchTx_def validate_item_def no_storage_faults_def Let_def)
  with poll_upload_atomic [OF f(2,1) u] show ?thesis
    using u by (auto simp: empty_chat_def)
qed

end
