(* ===== verification/Budget.thy ===== *)
theory Budget
  imports Core_Prelude
begin

text \<open>
  The multi-period budget (\<^verbatim>\<open>internal/handlers/budget_periods.go\<close>, \<^verbatim>\<open>budget.go\<close>), its
  enforcement (\<open>checkWorkspaceBudget\<close> of \<^verbatim>\<open>a2a_proxy.go\<close>) and the spend bookkeeping of the
  heartbeat (\<^verbatim>\<open>registry.go\<close>).

  JSON documents are values of the datatype \<open>json\<close>; their lexing is not modelled, a body that
  does not parse is \<open>None\<close>. \<open>map[BudgetPeriod]int64\<close> is a map. Limits and spends are 64-bit, so
  the one subtraction is wrapped. Database calls that fail are flags.
\<close>

subsection \<open>Periods and limits\<close>

datatype BudgetPeriod = PeriodHourly | PeriodDaily | PeriodWeekly | PeriodMonthly

fun period_name :: "BudgetPeriod \<Rightarrow> string" where
  "period_name PeriodHourly = ''hourly''"
| "period_name PeriodDaily = ''daily''"
| "period_name PeriodWeekly = ''weekly''"
| "period_name PeriodMonthly = ''monthly''"

record budgetPeriodDef =
  bp_Name :: BudgetPeriod
  bp_Window :: duration

definition budgetPeriods :: "budgetPeriodDef list" where
  "budgetPeriods =
    [\<lparr>bp_Name = PeriodHourly, bp_Window = hour\<rparr>,
     \<lparr>bp_Name = PeriodDaily, bp_Window = 24 * hour\<rparr>,
     \<lparr>bp_Name = PeriodWeekly, bp_Window = 7 * 24 * hour\<rparr>,
     \<lparr>bp_Name = PeriodMonthly, bp_Window = 30 * 24 * hour\<rparr>]"

definition spendLedgerRetention :: duration where "spendLedgerRetention = 35 * 24 * hour"

text \<open>\<open>json.Unmarshal\<close> into \<open>*int64\<close> and into \<open>map[string]*int64\<close>.\<close>

fun unmarshal_int_ptr :: "json \<Rightarrow> int option option" where
  "unmarshal_int_ptr JNull = Some None"
| "unmarshal_int_ptr (JInt n) = (if fits_int64 n then Some (Some n) else None)"
| "unmarshal_int_ptr _ = None"

fun unmarshal_int_map :: "json \<Rightarrow> (string \<times> int option) list option" where
  "unmarshal_int_map JNull = Some []"
| "unmarshal_int_map (JObj kvs) =
    (if list_all (\<lambda>(k, v). unmarshal_int_ptr v \<noteq> None) kvs
     then Some (map (\<lambda>k. (k, the (unmarshal_int_ptr (the (obj_get kvs k))))) (remdups (map fst kvs)))
     else None)"
| "unmarshal_int_map _ = None"

type_synonym limits = "BudgetPeriod \<rightharpoonup> int"

definition parseBudgetLimits :: "json option \<Rightarrow> limits" where
  "parseBudgetLimits raw =
    (case raw of None \<Rightarrow> Map.empty
     | Some doc \<Rightarrow>
        (case unmarshal_int_map doc of None \<Rightarrow> Map.empty
         | Some m \<Rightarrow>
            fold (\<lambda>d out. case map_of m (period_name (bp_Name d)) of
                Some (Some v) \<Rightarrow> if v \<ge> 0 then out(bp_Name d \<mapsto> v) else out
              | _ \<Rightarrow> out) budgetPeriods Map.empty))"

definition encodeBudgetLimits :: "limits \<Rightarrow> json" where
  "encodeBudgetLimits lim =
    JObj (concat (map (\<lambda>d. case lim (bp_Name d) of
        None \<Rightarrow> [] | Some v \<Rightarrow> if v \<ge> 0 then [(period_name (bp_Name d), JInt v)] else []) budgetPeriods))"

subsection \<open>The spend ledger\<close>

record spend_event =
  se_workspace :: string
  se_delta :: int
  se_at :: time

definition pgInterval :: "duration \<Rightarrow> string" where
  "pgInterval d = show_int (d div second) @ '' seconds''"

definition recordSpendDelta ::
  "bool \<Rightarrow> bool \<Rightarrow> time \<Rightarrow> string \<Rightarrow> int \<Rightarrow> spend_event list \<Rightarrow> bool \<times> spend_event list" where
  "recordSpendDelta insert_fails prune_fails now workspaceID deltaCents events =
    (if deltaCents \<le> 0 then (True, events)
     else if insert_fails then (False, events)
     else
       let events' = events @ [\<lparr>se_workspace = workspaceID, se_delta = deltaCents, se_at = now\<rparr>]
       in (True,
           if prune_fails then events'
           else filter (\<lambda>e. \<not> (se_workspace e = workspaceID \<and> se_at e < now - spendLedgerRetention)) events'))"

definition sum_since :: "spend_event list \<Rightarrow> time \<Rightarrow> int" where
  "sum_since events t = sum_list (map se_delta (filter (\<lambda>e. se_at e > t) events))"

text \<open>
  The single query: the outer predicate bounds to 30 days, the filters to 1 hour, 24 hours,
  7 days and 30 days. A sum that does not fit 64 bits fails the scan.
\<close>

definition spendByPeriod :: "bool \<Rightarrow> time \<Rightarrow> string \<Rightarrow> spend_event list \<Rightarrow> (BudgetPeriod \<Rightarrow> int) option" where
  "spendByPeriod fails now workspaceID events =
    (let rows = filter (\<lambda>e. se_workspace e = workspaceID \<and> se_at e > now - 30 * 24 * hour) events;
         h = sum_since rows (now - hour);
         d = sum_since rows (now - 24 * hour);
         w = sum_since rows (now - 7 * 24 * hour);
         mo = sum_since rows (now - 30 * 24 * hour)
     in if fails \<or> \<not> list_all fits_int64 [h, d, w, mo] then None
        else Some (\<lambda>p. case p of PeriodHourly \<Rightarrow> h | PeriodDaily \<Rightarrow> d | PeriodWeekly \<Rightarrow> w | PeriodMonthly \<Rightarrow> mo))"

definition exceededPeriods :: "limits \<Rightarrow> (BudgetPeriod \<Rightarrow> int) \<Rightarrow> BudgetPeriod list" where
  "exceededPeriods lim spend =
    concat (map (\<lambda>d. case lim (bp_Name d) of
        None \<Rightarrow> [] | Some l \<Rightarrow> if spend (bp_Name d) \<ge> l then [bp_Name d] else []) budgetPeriods)"

subsection \<open>The endpoints\<close>

record periodBudget =
  pb_Limit :: "int option"
  pb_Spend :: int
  pb_Remaining :: "int option"

record budgetResponse =
  br_Periods :: "BudgetPeriod \<Rightarrow> periodBudget"
  br_BudgetLimit :: "int option"
  br_MonthlySpend :: int
  br_BudgetRemaining :: "int option"

definition period_budget :: "limits \<Rightarrow> (BudgetPeriod \<Rightarrow> int) \<Rightarrow> BudgetPeriod \<Rightarrow> periodBudget" where
  "period_budget lim spend p =
    (case lim p of
       None \<Rightarrow> \<lparr>pb_Limit = None, pb_Spend = spend p, pb_Remaining = None\<rparr>
     | Some l \<Rightarrow> \<lparr>pb_Limit = Some l, pb_Spend = spend p, pb_Remaining = Some (int64 (l - spend p))\<rparr>)"

definition buildBudgetResponse ::
  "bool \<Rightarrow> time \<Rightarrow> string \<Rightarrow> json option \<Rightarrow> spend_event list \<Rightarrow> budgetResponse option" where
  "buildBudgetResponse fails now workspaceID limitsRaw events =
    (let lim = parseBudgetLimits limitsRaw
     in case spendByPeriod fails now workspaceID events of
          None \<Rightarrow> None
        | Some spend \<Rightarrow>
           let periods = period_budget lim spend;
               m = periods PeriodMonthly
           in Some \<lparr>br_Periods = periods,
                    br_BudgetLimit = (if pb_Limit m \<noteq> None then pb_Limit m else None),
                    br_MonthlySpend = spend PeriodMonthly,
                    br_BudgetRemaining = (if pb_Limit m \<noteq> None then pb_Remaining m else None)\<rparr>)"

record budget_ws =
  bw_id :: string
  bw_status :: string
  bw_limits :: json
  bw_limit :: "int option"
  bw_monthly_spend :: int
  bw_updated_at :: time

record budget_faults =
  bf_read :: bool
  bf_update :: bool
  bf_spend :: bool

definition no_budget_faults :: budget_faults where
  "no_budget_faults = \<lparr>bf_read = False, bf_update = False, bf_spend = False\<rparr>"

datatype budget_reply =
    BudgetFailed nat string
  | BudgetView budgetResponse
  | BudgetUpdated

definition live_ws :: "string \<Rightarrow> budget_ws list \<Rightarrow> budget_ws option" where
  "live_ws workspaceID tbl = sql_find (\<lambda>r. bw_id r = workspaceID \<and> bw_status r \<noteq> ''removed'') tbl"

definition GetBudget ::
  "budget_faults \<Rightarrow> time \<Rightarrow> string \<Rightarrow> budget_ws list \<Rightarrow> spend_event list \<Rightarrow> budget_reply" where
  "GetBudget fl now workspaceID tbl events =
    (if bf_read fl then BudgetFailed 500 ''query failed''
     else case live_ws workspaceID tbl of
         None \<Rightarrow> BudgetFailed 404 ''workspace not found''
       | Some r \<Rightarrow>
          (case buildBudgetResponse (bf_spend fl) now workspaceID (Some (bw_limits r)) events of
             None \<Rightarrow> BudgetFailed 500 ''query failed''
           | Some resp \<Rightarrow> BudgetView resp))"

definition known_period :: "string \<Rightarrow> BudgetPeriod option" where
  "known_period k = map_option bp_Name (List.find (\<lambda>d. period_name (bp_Name d) = k) budgetPeriods)"

text \<open>The loop over the decoded \<open>budget_limits\<close>, in the order of the document.\<close>

fun patch_limits :: "(string \<times> int option) list \<Rightarrow> limits \<Rightarrow> string + limits" where
  "patch_limits [] lim = Inr lim"
| "patch_limits ((k, v) # kvs) lim =
    (case known_period k of
       None \<Rightarrow> Inl (''unknown budget period: '' @ k @ '' (allowed: hourly, daily, weekly, monthly)'')
     | Some p \<Rightarrow>
        (case v of
           None \<Rightarrow> patch_limits kvs lim
         | Some n \<Rightarrow>
            if n < 0 then Inl (''budget limit for '' @ k @ '' must be >= 0 (USD cents)'')
            else patch_limits kvs (lim(p \<mapsto> n))))"

definition patch_fields :: "(string \<times> json) list \<Rightarrow> string + limits" where
  "patch_fields raw =
    (case obj_get raw ''budget_limits'' of
       Some doc \<Rightarrow>
         (case unmarshal_int_map doc of
            None \<Rightarrow> Inl (''budget_limits must be an object of period'' @ map char_of [226 :: nat, 134, 146] @ ''int|null'')
          | Some m \<Rightarrow> patch_limits m Map.empty)
     | None \<Rightarrow>
         (case obj_get raw ''budget_limit'' of
            None \<Rightarrow> Inl ''budget_limits or budget_limit field is required''
          | Some doc \<Rightarrow>
             (case unmarshal_int_ptr doc of
                None \<Rightarrow> Inl ''budget_limit must be an integer (USD cents) or null''
              | Some None \<Rightarrow> Inr Map.empty
              | Some (Some v) \<Rightarrow>
                 if v < 0 then Inl ''budget_limit must be >= 0 (USD cents)''
                 else Inr [PeriodMonthly \<mapsto> v])))"

text \<open>\<open>ShouldBindJSON\<close> into a map of raw messages: an object, or null for the nil map.\<close>

definition patch_request :: "json option \<Rightarrow> string + limits" where
  "patch_request body =
    (case body of
       Some (JObj kvs) \<Rightarrow> patch_fields kvs
     | Some JNull \<Rightarrow> patch_fields []
     | _ \<Rightarrow> Inl ''invalid request body'')"

definition PatchBudget ::
  "budget_faults \<Rightarrow> time \<Rightarrow> string \<Rightarrow> json option \<Rightarrow> budget_ws list \<Rightarrow> spend_event list
     \<Rightarrow> budget_reply \<times> budget_ws list" where
  "PatchBudget fl now workspaceID body tbl events =
    (case patch_request body of
       Inl msg \<Rightarrow> (BudgetFailed 400 msg, tbl)
     | Inr lim \<Rightarrow>
        if bf_read fl \<or> live_ws workspaceID tbl = None then (BudgetFailed 404 ''workspace not found'', tbl)
        else if bf_update fl then (BudgetFailed 500 ''update failed'', tbl)
        else
          let encoded = encodeBudgetLimits lim;
              tbl' = sql_update (\<lambda>r. bw_id r = workspaceID)
                (\<lambda>r. r\<lparr>bw_limits := encoded, bw_limit := lim PeriodMonthly, bw_updated_at := now\<rparr>) tbl
          in case buildBudgetResponse (bf_spend fl) now workspaceID (Some encoded) events of
               None \<Rightarrow> (BudgetUpdated, tbl')
             | Some resp \<Rightarrow> (BudgetView resp, tbl'))"

text \<open>\<open>None\<close> is the nil error: the call may go on.\<close>

definition checkWorkspaceBudget ::
  "budget_faults \<Rightarrow> time \<Rightarrow> string \<Rightarrow> budget_ws list \<Rightarrow> spend_event list
     \<Rightarrow> (nat \<times> BudgetPeriod list) option" where
  "checkWorkspaceBudget fl now workspaceID tbl events =
    (if bf_read fl then None
     else case sql_find (\<lambda>r. bw_id r = workspaceID) tbl of
         None \<Rightarrow> None
       | Some r \<Rightarrow>
          let lim = parseBudgetLimits (Some (bw_limits r))
          in if list_all (\<lambda>d. lim (bp_Name d) = None) budgetPeriods then None
             else case spendByPeriod (bf_spend fl) now workspaceID events of
                 None \<Rightarrow> None
               | Some spend \<Rightarrow>
                  let over = exceededPeriods lim spend
                  in if over = [] then None else Some (402, over))"

subsection \<open>The heartbeat's bookkeeping\<close>

definition maxMonthlySpend :: int where "maxMonthlySpend = 1000000000000"

record beat_faults =
  hb_select :: bool
  hb_insert :: bool
  hb_prune :: bool
  hb_update :: bool

definition no_beat_faults :: beat_faults where
  "no_beat_faults = \<lparr>hb_select = False, hb_insert = False, hb_prune = False, hb_update = False\<rparr>"

text \<open>
  The spend part of a heartbeat that reports the cumulative figure \<open>reported\<close>: a failed read of
  the previous figure leaves it at zero.
\<close>

definition heartbeat_spend ::
  "beat_faults \<Rightarrow> time \<Rightarrow> string \<Rightarrow> int \<Rightarrow> budget_ws list \<times> spend_event list \<Rightarrow> budget_ws list \<times> spend_event list" where
  "heartbeat_spend fl now workspaceID reported st =
    (case st of (tbl, events) \<Rightarrow>
      let prevSpend = (if hb_select fl then 0
                       else case sql_find (\<lambda>r. bw_id r = workspaceID) tbl of None \<Rightarrow> 0 | Some r \<Rightarrow> bw_monthly_spend r);
          spend = (if reported < 0 then 0 else reported);
          spend = (if spend > maxMonthlySpend then maxMonthlySpend else spend);
          delta = (if spend - prevSpend < 0 then spend else spend - prevSpend);
          events' = (if spend > 0 \<and> delta > 0
                     then snd (recordSpendDelta (hb_insert fl) (hb_prune fl) now workspaceID delta events)
                     else events);
          tbl' = (if hb_update fl then tbl
                  else sql_update (\<lambda>r. bw_id r = workspaceID \<and> bw_status r \<noteq> ''removed'')
                         (\<lambda>r. r\<lparr>bw_monthly_spend := (if spend > 0 then spend else bw_monthly_spend r),
                                bw_updated_at := now\<rparr>) tbl)
      in (tbl', events'))"

subsection \<open>Windows\<close>

definition period_window :: "BudgetPeriod \<Rightarrow> duration" where
  "period_window p = bp_Window (the (List.find (\<lambda>d. bp_Name d = p) budgetPeriods))"

text \<open>The specification of per-period spend: the sum over one trailing window.\<close>

definition window_spend :: "spend_event list \<Rightarrow> string \<Rightarrow> time \<Rightarrow> duration \<Rightarrow> int" where
  "window_spend events ws now w =
    sum_list (map se_delta (filter (\<lambda>e. se_workspace e = ws \<and> se_at e > now - w) events))"

lemma period_window_simps:
  "period_window PeriodHourly = hour" "period_window PeriodDaily = 24 * hour"
  "period_window PeriodWeekly = 7 * 24 * hour" "period_window PeriodMonthly = 30 * 24 * hour"
  by (simp_all add: period_window_def budgetPeriods_def)

lemma period_window_le: "period_window p \<le> 30 * 24 * hour"
  by (cases p) (simp_all add: period_window_simps duration_defs)

lemma sum_since_window:
  assumes "w \<le> w'"
  shows "sum_since (filter (\<lambda>e. se_workspace e = ws \<and> se_at e > now - w') events) (now - w) =
    window_spend events ws now w"
proof -
  have "filter (\<lambda>e. se_at e > now - w) (filter (\<lambda>e. se_workspace e = ws \<and> se_at e > now - w') events) =
      filter (\<lambda>e. se_workspace e = ws \<and> se_at e > now - w) events"
    using assms by (auto simp: intro!: filter_cong)
  then show ?thesis by (simp add: sum_since_def window_spend_def)
qed

text \<open>The four hand-written filters of the query are the windows of \<open>budgetPeriods\<close>.\<close>

lemma spendByPeriod_windows:
  assumes "spendByPeriod fails now ws events = Some spend"
  shows "spend p = window_spend events ws now (period_window p)" and "fits_int64 (spend p)"
proof -
  have mono: "hour \<le> 30 * 24 * hour" "24 * hour \<le> 30 * 24 * hour" "7 * 24 * hour \<le> 30 * 24 * hour"
    "30 * 24 * hour \<le> 30 * 24 * hour"
    by (simp_all add: duration_defs)
  note windows = sum_since_window [OF mono(1)] sum_since_window [OF mono(2)]
    sum_since_window [OF mono(3)] sum_since_window [OF mono(4)]
  have fits: "list_all (\<lambda>p. fits_int64 (window_spend events ws now (period_window p)))
      [PeriodHourly, PeriodDaily, PeriodWeekly, PeriodMonthly]"
    and eq: "spend = (\<lambda>p. case p of PeriodHourly \<Rightarrow> window_spend events ws now hour
      | PeriodDaily \<Rightarrow> window_spend events ws now (24 * hour)
      | PeriodWeekly \<Rightarrow> window_spend events ws now (7 * 24 * hour)
      | PeriodMonthly \<Rightarrow> window_spend events ws now (30 * 24 * hour))"
    using assms unfolding spendByPeriod_def Let_def windows period_window_simps list.pred_inject
    by (simp_all only: option.inject option.distinct simp_thms de_Morgan_disj not_not list.pred_inject
        split: if_splits)
  show "spend p = window_spend events ws now (period_window p)"
    unfolding eq by (cases p) (simp_all only: period_window_simps BudgetPeriod.case)
  then show "fits_int64 (spend p)" using fits by (cases p) (simp_all only: list.pred_inject)
qed

lemma window_spend_append:
  "window_spend (xs @ ys) ws now w = window_spend xs ws now w + window_spend ys ws now w"
  by (simp add: window_spend_def)

text \<open>A row that the retention may drop is outside of every window from then on.\<close>

lemma window_spend_prune:
  assumes "w \<le> 30 * 24 * hour" and "now \<le> now'"
  shows "window_spend (filter (\<lambda>e. \<not> (se_workspace e = k \<and> se_at e < now - spendLedgerRetention)) events) ws now' w =
    window_spend events ws now' w"
proof -
  have "filter (\<lambda>e. se_workspace e = ws \<and> se_at e > now' - w)
        (filter (\<lambda>e. \<not> (se_workspace e = k \<and> se_at e < now - spendLedgerRetention)) events) =
      filter (\<lambda>e. se_workspace e = ws \<and> se_at e > now' - w) events"
    using assms by (auto simp: spendLedgerRetention_def duration_defs intro!: filter_cong)
  then show ?thesis by (simp add: window_spend_def)
qed

lemma window_spend_record:
  assumes "0 < delta" and "w \<le> 30 * 24 * hour" and "now \<le> now'"
  shows "window_spend (snd (recordSpendDelta False pf now k delta events)) ws now' w =
    window_spend events ws now' w + (if ws = k \<and> now > now' - w then delta else 0)"
  using assms window_spend_prune [OF assms(2,3), of k "events @ [\<lparr>se_workspace = k, se_delta = delta, se_at = now\<rparr>]" ws]
  by (auto simp: recordSpendDelta_def Let_def window_spend_append) (auto simp: window_spend_def)

text \<open>
  recording a spend increment at \<open>now\<close> adds exactly that amount to each rolling period of
  that workspace whose window still contains \<open>now\<close>, at every later time, and to nothing else;
  the opportunistic pruning of the ledger is never visible in any period.
\<close>

theorem spend_ledger_exact:
  assumes "0 < delta" and "now \<le> now'"
    and "spendByPeriod False now' ws events = Some before"
    and "spendByPeriod False now' ws (snd (recordSpendDelta False prune_fails now k delta events)) = Some after"
  shows "after p = before p + (if ws = k \<and> now > now' - period_window p then delta else 0)"
  using window_spend_record [OF assms(1) period_window_le assms(2)]
    spendByPeriod_windows(1) [OF assms(3)] spendByPeriod_windows(1) [OF assms(4)]
  by simp

theorem spend_ledger_exact_witness:
  "spendByPeriod False 5 ''w'' (snd (recordSpendDelta False False 5 ''w'' 7 [])) =
     Some (\<lambda>p. case p of PeriodHourly \<Rightarrow> 7 | PeriodDaily \<Rightarrow> 7 | PeriodWeekly \<Rightarrow> 7 | PeriodMonthly \<Rightarrow> 7)
   \<and> (\<exists>after. spendByPeriod False 5 ''w'' (snd (recordSpendDelta False False 5 ''w'' 7 [])) = Some after
        \<and> after PeriodDaily = 7)"
proof -
  have b: "spendByPeriod False 5 ''w'' [] = Some (\<lambda>p. case p of PeriodHourly \<Rightarrow> 0 | PeriodDaily \<Rightarrow> 0
      | PeriodWeekly \<Rightarrow> 0 | PeriodMonthly \<Rightarrow> 0)"
    by (simp add: spendByPeriod_def sum_since_def fits_int64_def)
  have a: "spendByPeriod False 5 ''w'' (snd (recordSpendDelta False False 5 ''w'' 7 [])) =
     Some (\<lambda>p. case p of PeriodHourly \<Rightarrow> 7 | PeriodDaily \<Rightarrow> 7 | PeriodWeekly \<Rightarrow> 7 | PeriodMonthly \<Rightarrow> 7)"
    by (simp add: spendByPeriod_def recordSpendDelta_def sum_since_def fits_int64_def
        spendLedgerRetention_def duration_defs)
  from spend_ledger_exact [OF _ _ b a, of PeriodDaily] a show ?thesis
    by (simp add: period_window_simps duration_defs)
qed

subsection \<open>Limits\<close>

definition limits_ok :: "limits \<Rightarrow> bool" where
  "limits_ok lim \<longleftrightarrow> (\<forall>p v. lim p = Some v \<longrightarrow> 0 \<le> v \<and> v < 2 ^ 63)"

lemma limits_ok_upd: "limits_ok lim \<Longrightarrow> 0 \<le> v \<Longrightarrow> v < 2 ^ 63 \<Longrightarrow> limits_ok (lim(p \<mapsto> v))"
  by (auto simp: limits_ok_def)

lemma limits_ok_empty [simp]: "limits_ok Map.empty"
  by (simp add: limits_ok_def)

lemma period_name_inj: "period_name p = period_name q \<Longrightarrow> p = q"
  by (cases p; cases q) simp_all

lemma unmarshal_int_ptr_fits: "unmarshal_int_ptr v = Some (Some n) \<Longrightarrow> fits_int64 n"
  by (cases v) (auto split: if_splits)

lemma unmarshal_int_map_fits:
  assumes "unmarshal_int_map doc = Some m" and "(k, Some n) \<in> set m"
  shows "fits_int64 n"
proof (cases doc)
  case (JObj kvs)
  with assms have all: "list_all (\<lambda>(k, v). unmarshal_int_ptr v \<noteq> None) kvs"
    and m: "m = map (\<lambda>k. (k, the (unmarshal_int_ptr (the (obj_get kvs k))))) (remdups (map fst kvs))"
    by (auto split: if_splits)
  from assms(2) obtain k' where k': "k' \<in> set (map fst kvs)" "Some n = the (unmarshal_int_ptr (the (obj_get kvs k')))"
    unfolding m by auto
  from k'(1) obtain v where v: "obj_get kvs k' = Some v"
    unfolding obj_get_def by (metis list.set_map map_of_eq_None_iff not_None_eq set_rev)
  then have "(k', v) \<in> set kvs" by (metis map_of_SomeD obj_get_def set_rev)
  with all have "unmarshal_int_ptr v \<noteq> None" by (auto simp: list_all_iff)
  with v k'(2) show ?thesis by (intro unmarshal_int_ptr_fits [of v]) auto
qed (use assms in auto)

lemma obj_get_append: "obj_get (xs @ ys) k = (case obj_get ys k of None \<Rightarrow> obj_get xs k | Some v \<Rightarrow> Some v)"
  by (simp add: obj_get_def map_add_def split: option.split)

lemma obj_get_Nil [simp]: "obj_get [] k = None"
  by (simp add: obj_get_def)

lemma obj_get_Cons: "obj_get ((a, v) # xs) k = (case obj_get xs k of None \<Rightarrow> if a = k then Some v else None | Some w \<Rightarrow> Some w)"
  by (simp add: obj_get_def map_add_def split: option.split)

text \<open>Decoding an object of integers is looking its keys up.\<close>

lemma map_of_unmarshal:
  assumes "unmarshal_int_map (JObj kvs) = Some m"
  shows "map_of m k = map_option (\<lambda>v. the (unmarshal_int_ptr v)) (obj_get kvs k)"
proof -
  from assms have m: "m = map (\<lambda>k. (k, the (unmarshal_int_ptr (the (obj_get kvs k))))) (remdups (map fst kvs))"
    by (simp split: if_splits)
  show ?thesis
  proof (cases "k \<in> fst ` set kvs")
    case True
    then obtain v where "obj_get kvs k = Some v"
      unfolding obj_get_def by (metis map_of_eq_None_iff not_None_eq set_rev)
    with True show ?thesis by (simp add: m map_of_map_restrict restrict_map_def)
  next
    case False
    then have "obj_get kvs k = None" unfolding obj_get_def by (metis map_of_eq_None_iff set_rev)
    with False show ?thesis by (simp add: m map_of_map_restrict restrict_map_def)
  qed
qed

lemma fits_limit: "limits_ok lim \<Longrightarrow> lim p = Some v \<Longrightarrow> 0 \<le> v \<and> fits_int64 v"
  by (force simp: limits_ok_def fits_int64_def)

lemma period_names: "map bp_Name budgetPeriods = [PeriodHourly, PeriodDaily, PeriodWeekly, PeriodMonthly]"
  by (simp add: budgetPeriods_def)

lemma over_periods:
  "concat (map (\<lambda>d. g (bp_Name d)) budgetPeriods) = g PeriodHourly @ g PeriodDaily @ g PeriodWeekly @ g PeriodMonthly"
  by (simp add: budgetPeriods_def)

lemma encode_lookup:
  assumes "limits_ok lim" and "encodeBudgetLimits lim = JObj kvs"
  shows "obj_get kvs (period_name p) = map_option JInt (lim p)"
    and "list_all (\<lambda>(k, v). unmarshal_int_ptr v \<noteq> None) kvs"
proof -
  let ?e = "\<lambda>q. case lim q of None \<Rightarrow> [] | Some v \<Rightarrow> [(period_name q, JInt v)]"
  have ge: "(case lim q of None \<Rightarrow> [] | Some v \<Rightarrow> if 0 \<le> v then [(period_name q, JInt v)] else []) = ?e q" for q
    using fits_limit [OF assms(1)] by (auto split: option.split)
  have kvs: "kvs = ?e PeriodHourly @ ?e PeriodDaily @ ?e PeriodWeekly @ ?e PeriodMonthly"
    using assms(2) unfolding encodeBudgetLimits_def ge
      over_periods [of "\<lambda>q. case lim q of None \<Rightarrow> [] | Some v \<Rightarrow> [(period_name q, JInt v)]"] by simp
  have one: "obj_get (?e q) (period_name p) = (if p = q then map_option JInt (lim p) else None)" for q
    using period_name_inj [of q p] by (auto simp: obj_get_Cons split: option.split)
  show "obj_get kvs (period_name p) = map_option JInt (lim p)"
    unfolding kvs obj_get_append one by (cases p) (simp_all split: option.split)
  have "list_all (\<lambda>(k, v). unmarshal_int_ptr v \<noteq> None) (?e q)" for q
    using fits_limit [OF assms(1)] by (auto split: option.split)
  then show "list_all (\<lambda>(k, v). unmarshal_int_ptr v \<noteq> None) kvs" unfolding kvs by simp
qed

lemma parse_lookup:
  assumes "unmarshal_int_map doc = Some m"
  shows "parseBudgetLimits (Some doc) p =
    (case map_of m (period_name p) of Some (Some v) \<Rightarrow> if v \<ge> 0 then Some v else None | _ \<Rightarrow> None)"
proof -
  define put :: "BudgetPeriod \<Rightarrow> limits \<Rightarrow> limits" where
    "put q out = (case map_of m (period_name q) of
      Some (Some v) \<Rightarrow> if v \<ge> 0 then out(q \<mapsto> v) else out | _ \<Rightarrow> out)" for q out
  have "parseBudgetLimits (Some doc) = fold (\<lambda>d. put (bp_Name d)) budgetPeriods Map.empty"
    using assms by (simp add: parseBudgetLimits_def put_def [abs_def])
  also have "\<dots> = fold put (map bp_Name budgetPeriods) Map.empty" by (simp add: fold_map comp_def)
  finally have all: "parseBudgetLimits (Some doc) =
      put PeriodMonthly (put PeriodWeekly (put PeriodDaily (put PeriodHourly Map.empty)))"
    by (simp add: period_names)
  have other: "q \<noteq> p \<Longrightarrow> put q out p = out p" for q out
    by (auto simp: put_def split: option.split)
  have own: "out p = None \<Longrightarrow> put p out p = (case map_of m (period_name p) of
      Some (Some v) \<Rightarrow> if v \<ge> 0 then Some v else None | _ \<Rightarrow> None)" for out
    by (auto simp: put_def split: option.split)
  show ?thesis unfolding all by (cases p) (use own other in \<open>simp_all del: period_name.simps\<close>)
qed

text \<open>What is stored is what is read back.\<close>

lemma parse_encode: "limits_ok lim \<Longrightarrow> parseBudgetLimits (Some (encodeBudgetLimits lim)) = lim"
proof
  fix p
  assume ok: "limits_ok lim"
  obtain kvs where kvs: "encodeBudgetLimits lim = JObj kvs" by (simp add: encodeBudgetLimits_def)
  then obtain m where m: "unmarshal_int_map (JObj kvs) = Some m"
    using encode_lookup(2) [OF ok kvs] by simp
  have "map_of m (period_name p) = map_option (\<lambda>v. the (unmarshal_int_ptr v)) (map_option JInt (lim p))"
    using map_of_unmarshal [OF m] encode_lookup(1) [OF ok kvs] by metis
  then show "parseBudgetLimits (Some (encodeBudgetLimits lim)) p = lim p"
    using parse_lookup [OF m, of p] kvs fits_limit [OF ok, of p] by (cases "lim p") auto
qed

lemma patch_limits_ok:
  assumes "\<And>k n. (k, Some n) \<in> set m \<Longrightarrow> fits_int64 n" and "limits_ok lim"
    and "patch_limits m lim = Inr lim'"
  shows "limits_ok lim'"
  using assms
proof (induction m lim rule: patch_limits.induct)
  case (2 k v kvs lim)
  from "2.prems"(3) obtain p where p: "known_period k = Some p" by (auto split: option.splits)
  show ?case
  proof (cases v)
    case None
    with 2 p show ?thesis by auto
  next
    case (Some n)
    with "2.prems"(1) [of k n] have "fits_int64 n" by simp
    with Some "2.prems" p have n: "limits_ok (lim(p \<mapsto> n))" "patch_limits kvs (lim(p \<mapsto> n)) = Inr lim'" "\<not> n < 0"
      by (auto simp: fits_int64_def intro!: limits_ok_upd split: if_splits)
    show ?thesis by (rule "2.IH"(2) [OF p Some n(3) _ n(1,2)]) (use "2.prems"(1) in auto)
  qed
qed simp

lemma patch_fields_ok:
  assumes "patch_fields raw = Inr lim"
  shows "limits_ok lim"
proof (cases "obj_get raw ''budget_limits''")
  case (Some doc)
  with assms obtain m where "unmarshal_int_map doc = Some m" "patch_limits m Map.empty = Inr lim"
    unfolding patch_fields_def by (cases "unmarshal_int_map doc") simp_all
  then show ?thesis by (intro patch_limits_ok [of m Map.empty lim]) (auto dest: unmarshal_int_map_fits)
next
  case None
  with assms obtain doc where doc: "obj_get raw ''budget_limit'' = Some doc"
    unfolding patch_fields_def by (cases "obj_get raw ''budget_limit''") simp_all
  with None assms obtain ov where o: "unmarshal_int_ptr doc = Some ov"
    unfolding patch_fields_def by (cases "unmarshal_int_ptr doc") simp_all
  show ?thesis
  proof (cases ov)
    case None
    with o doc \<open>obj_get raw ''budget_limits'' = None\<close> assms show ?thesis by (auto simp: patch_fields_def)
  next
    case (Some v)
    have "\<not> v < 0" "lim = [PeriodMonthly \<mapsto> v]"
      using Some o doc \<open>obj_get raw ''budget_limits'' = None\<close> assms
      unfolding patch_fields_def by (simp_all split: if_splits)
    moreover have "fits_int64 v" using o Some by (auto dest: unmarshal_int_ptr_fits)
    ultimately show ?thesis by (simp add: limits_ok_upd fits_int64_def)
  qed
qed

lemma patch_request_ok: "patch_request body = Inr lim \<Longrightarrow> limits_ok lim"
  by (auto simp: patch_request_def intro: patch_fields_ok split: option.splits json.splits)

subsection \<open>Properties of the endpoints\<close>

lemma live_ws_unique:
  assumes "unique_key bw_id tbl" and "live_ws ws tbl = Some r"
  shows "sql_find (\<lambda>x. bw_id x = ws) tbl = Some r" and "bw_id r = ws" and "r \<in> set tbl"
proof -
  have r: "r \<in> set tbl" "bw_id r = ws" using sql_find_Some_iff [OF assms(2) [unfolded live_ws_def]] by auto
  with sql_find_key [OF assms(1) r(1)] show "sql_find (\<lambda>x. bw_id x = ws) tbl = Some r"
    and "bw_id r = ws" and "r \<in> set tbl" by auto
qed

lemma parse_ok: "limits_ok (parseBudgetLimits (Some doc))"
proof (cases "unmarshal_int_map doc")
  case None
  then show ?thesis by (simp add: parseBudgetLimits_def)
next
  case (Some m)
  show ?thesis
    using unmarshal_int_map_fits [OF Some]
    by (auto simp: limits_ok_def parse_lookup [OF Some] fits_int64_def
        split: option.splits if_splits dest!: map_of_SomeD)
qed

lemma window_spend_nonneg:
  "list_all (\<lambda>e. 0 < se_delta e) events \<Longrightarrow> 0 \<le> window_spend events ws now w"
  unfolding window_spend_def by (rule sum_list_nonneg) (auto simp: list_all_iff)

text \<open>A spend that is at least zero cannot make the remaining amount wrap.\<close>

lemma remaining_exact:
  assumes "0 \<le> l" "l < 2 ^ 63" "0 \<le> s" "fits_int64 s"
  shows "int64 (l - s) = l - s"
  using assms by (intro int64_id) (auto simp: fits_int64_def)

definition over_budget :: "budgetResponse \<Rightarrow> BudgetPeriod \<Rightarrow> bool" where
  "over_budget resp p = (case pb_Remaining (br_Periods resp p) of None \<Rightarrow> False | Some x \<Rightarrow> x \<le> 0)"

text \<open>
  C39: what is displayed is what is enforced. Whenever the budget of a workspace can be shown,
  the proxy's check blocks with 402 exactly when the display has a period with no headroom
  left, and it names exactly those periods, in the canonical order.
\<close>

theorem display_is_enforcement:
  assumes "unique_key bw_id tbl" and "list_all (\<lambda>e. 0 < se_delta e) events"
    and "GetBudget no_budget_faults now ws tbl events = BudgetView resp"
  shows "checkWorkspaceBudget no_budget_faults now ws tbl events =
    (let over = filter (over_budget resp) [PeriodHourly, PeriodDaily, PeriodWeekly, PeriodMonthly]
     in if over = [] then None else Some (402, over))"
proof -
  from assms(3) obtain r where r: "live_ws ws tbl = Some r"
    by (auto simp: GetBudget_def no_budget_faults_def split: option.splits)
  define lim where "lim = parseBudgetLimits (Some (bw_limits r))"
  from assms(3) r obtain spend where spend: "spendByPeriod False now ws events = Some spend"
    and resp: "br_Periods resp = period_budget lim spend"
    by (auto simp: GetBudget_def no_budget_faults_def buildBudgetResponse_def Let_def lim_def split: option.splits)
  have ok: "limits_ok lim" unfolding lim_def by (rule parse_ok)
  have over: "over_budget resp p \<longleftrightarrow> (\<exists>l. lim p = Some l \<and> spend p \<ge> l)" for p
  proof (cases "lim p")
    case (Some l)
    have "0 \<le> spend p" using spendByPeriod_windows(1) [OF spend] window_spend_nonneg [OF assms(2)] by simp
    with Some ok spendByPeriod_windows(2) [OF spend, of p] show ?thesis
      using remaining_exact [of l "spend p"] by (auto simp: over_budget_def resp period_budget_def limits_ok_def)
  qed (simp add: over_budget_def resp period_budget_def)
  have ex: "exceededPeriods lim spend = filter (over_budget resp) [PeriodHourly, PeriodDaily, PeriodWeekly, PeriodMonthly]"
  proof -
    have "(case lim p of None \<Rightarrow> [] | Some l \<Rightarrow> if spend p \<ge> l then [p] else []) = filter (over_budget resp) [p]" for p
      by (auto simp: over split: option.split)
    then show ?thesis
      unfolding exceededPeriods_def
        over_periods [of "\<lambda>p. case lim p of None \<Rightarrow> [] | Some l \<Rightarrow> if spend p \<ge> l then [p] else []"] by simp
  qed
  have "exceededPeriods lim spend = []" if "list_all (\<lambda>d. lim (bp_Name d) = None) budgetPeriods"
    using that unfolding exceededPeriods_def by (simp add: list_all_iff)
  with ex show ?thesis
    using live_ws_unique(1) [OF assms(1) r] spend
    by (auto simp: checkWorkspaceBudget_def no_budget_faults_def Let_def lim_def)
qed

definition example_ws :: budget_ws where
  "example_ws = \<lparr>bw_id = ''w'', bw_status = ''online'', bw_limits = JObj [(''daily'', JInt 5)],
     bw_limit = None, bw_monthly_spend = 0, bw_updated_at = 0\<rparr>"

definition example_spend :: "spend_event list" where
  "example_spend = [\<lparr>se_workspace = ''w'', se_delta = 7, se_at = 3\<rparr>]"

lemma example_spend_view:
  "spendByPeriod False 5 ''w'' example_spend =
     Some (\<lambda>p. case p of PeriodHourly \<Rightarrow> 7 | PeriodDaily \<Rightarrow> 7 | PeriodWeekly \<Rightarrow> 7 | PeriodMonthly \<Rightarrow> 7)"
  by (simp add: spendByPeriod_def example_spend_def sum_since_def fits_int64_def duration_defs)

lemma example_limits: "parseBudgetLimits (Some (bw_limits example_ws)) = [PeriodDaily \<mapsto> 5]"
  by (simp add: parseBudgetLimits_def example_ws_def fits_int64_def obj_get_def budgetPeriods_def)

theorem display_is_enforcement_witness:
  "checkWorkspaceBudget no_budget_faults 5 ''w'' [example_ws] example_spend = Some (402, [PeriodDaily])"
proof -
  have live: "live_ws ''w'' [example_ws] = Some example_ws"
    by (simp add: live_ws_def sql_find_Cons example_ws_def)
  obtain resp where g: "GetBudget no_budget_faults 5 ''w'' [example_ws] example_spend = BudgetView resp"
    and p: "br_Periods resp = period_budget [PeriodDaily \<mapsto> 5] (\<lambda>p. case p of PeriodHourly \<Rightarrow> 7
      | PeriodDaily \<Rightarrow> 7 | PeriodWeekly \<Rightarrow> 7 | PeriodMonthly \<Rightarrow> 7)"
    by (simp add: GetBudget_def no_budget_faults_def live buildBudgetResponse_def example_limits example_spend_view Let_def)
  have "filter (over_budget resp) [PeriodHourly, PeriodDaily, PeriodWeekly, PeriodMonthly] = [PeriodDaily]"
    by (simp add: over_budget_def p period_budget_def int64_def)
  with display_is_enforcement [OF _ _ g] show ?thesis
    by (simp add: unique_key_def example_spend_def)
qed

text \<open>
  a budget change is all or nothing. A rejected request leaves the table untouched; an
  accepted one stores limits that decode to exactly the accepted map (null and absent periods
  have none, zero is kept), keeps the legacy monthly column equal to the monthly limit, and
  leaves every other workspace alone.
\<close>

theorem PatchBudget_stores:
  assumes "unique_key bw_id tbl" and "live_ws ws tbl = Some r"
  shows "case patch_request body of
      Inl msg \<Rightarrow> PatchBudget fl now ws body tbl events = (BudgetFailed 400 msg, tbl)
    | Inr lim \<Rightarrow>
       (if bf_read fl then PatchBudget fl now ws body tbl events = (BudgetFailed 404 ''workspace not found'', tbl)
        else if bf_update fl then PatchBudget fl now ws body tbl events = (BudgetFailed 500 ''update failed'', tbl)
        else (\<exists>r'. live_ws ws (snd (PatchBudget fl now ws body tbl events)) = Some r'
           \<and> parseBudgetLimits (Some (bw_limits r')) = lim \<and> bw_limit r' = lim PeriodMonthly
           \<and> filter (\<lambda>x. bw_id x \<noteq> ws) (snd (PatchBudget fl now ws body tbl events)) =
               filter (\<lambda>x. bw_id x \<noteq> ws) tbl))"
proof (cases "patch_request body")
  case (Inl msg)
  then show ?thesis by (simp add: PatchBudget_def)
next
  case (Inr lim)
  define r' where "r' = r\<lparr>bw_limits := encodeBudgetLimits lim, bw_limit := lim PeriodMonthly, bw_updated_at := now\<rparr>"
  define tbl' where "tbl' = sql_update (\<lambda>r. bw_id r = ws)
      (\<lambda>r. r\<lparr>bw_limits := encodeBudgetLimits lim, bw_limit := lim PeriodMonthly, bw_updated_at := now\<rparr>) tbl"
  have find: "sql_find (\<lambda>x. bw_id x = ws) tbl = Some r" and id: "bw_id r = ws"
    using live_ws_unique [OF assms] by blast+
  have live: "bw_status r \<noteq> ''removed''" using sql_find_Some_iff [OF assms(2) [unfolded live_ws_def]] by simp
  have uq: "unique_key bw_id tbl'" unfolding tbl'_def by (subst unique_key_sql_update) (simp_all add: assms(1))
  have find': "sql_find (\<lambda>x. bw_id x = ws) tbl' = Some r'"
    unfolding tbl'_def r'_def by (subst sql_find_sql_update) (simp_all add: find id)
  then have r': "r' \<in> set tbl'" "bw_id r' = ws" using sql_find_Some_iff by fastforce+
  have "live_ws ws tbl' = Some r'"
  proof (cases "live_ws ws tbl'")
    case None
    with r' live show ?thesis by (auto simp: live_ws_def sql_find_None_iff r'_def)
  next
    case (Some x)
    with live_ws_unique(1) [OF uq Some] find' show ?thesis by simp
  qed
  moreover have "filter (\<lambda>x. bw_id x \<noteq> ws) tbl' = filter (\<lambda>x. bw_id x \<noteq> ws) tbl"
    unfolding tbl'_def by (induction tbl) (auto simp: sql_update_Cons)
  moreover have "parseBudgetLimits (Some (bw_limits r')) = lim"
    by (simp add: r'_def parse_encode patch_request_ok [OF Inr])
  moreover have "snd (PatchBudget fl now ws body tbl events) = tbl'" if "\<not> bf_read fl" "\<not> bf_update fl"
    using that Inr assms(2) by (simp add: PatchBudget_def Let_def tbl'_def split: option.split)
  moreover have "bw_limit r' = lim PeriodMonthly" by (simp add: r'_def)
  ultimately show ?thesis using Inr assms(2) by (auto simp: PatchBudget_def)
qed

theorem PatchBudget_stores_witness:
  "\<exists>r'. live_ws ''w'' (snd (PatchBudget no_budget_faults 9 ''w''
        (Some (JObj [(''budget_limit'', JInt 20)])) [example_ws] [])) = Some r'
      \<and> bw_limit r' = Some 20 \<and> parseBudgetLimits (Some (bw_limits r')) = [PeriodMonthly \<mapsto> 20]"
proof -
  have u: "unique_key bw_id [example_ws]" by (simp add: unique_key_def)
  have l: "live_ws ''w'' [example_ws] = Some example_ws"
    by (simp add: live_ws_def sql_find_Cons example_ws_def)
  have "patch_request (Some (JObj [(''budget_limit'', JInt 20)])) = Inr [PeriodMonthly \<mapsto> 20]"
    by (simp add: patch_request_def patch_fields_def obj_get_def fits_int64_def)
  with PatchBudget_stores [OF u l, of no_budget_faults 9 "Some (JObj [(''budget_limit'', JInt 20)])" "[]"]
  show ?thesis by (auto simp: no_budget_faults_def)
qed

subsection \<open>Heartbeats and the ledger\<close>

lemma heartbeat_step:
  assumes "unique_key bw_id tbl" and "live_ws ws tbl = Some r"
    and "0 < c" and "c \<le> maxMonthlySpend" and "bw_monthly_spend r \<le> c" and "0 \<le> bw_monthly_spend r"
    and "heartbeat_spend no_beat_faults now ws c (tbl, events) = (tbl', events')"
  shows "unique_key bw_id tbl' \<and> (\<exists>r'. live_ws ws tbl' = Some r' \<and> bw_monthly_spend r' = c)"
    and "now \<le> now' \<Longrightarrow> now > now' - 30 * 24 * hour \<Longrightarrow>
      window_spend events' ws now' (30 * 24 * hour) =
        window_spend events ws now' (30 * 24 * hour) + (c - bw_monthly_spend r)"
proof -
  define f :: "budget_ws \<Rightarrow> budget_ws" where
    "f = (\<lambda>r. r\<lparr>bw_monthly_spend := (if c > 0 then c else bw_monthly_spend r), bw_updated_at := now\<rparr>)"
  define P :: "budget_ws \<Rightarrow> bool" where "P = (\<lambda>r. bw_id r = ws \<and> bw_status r \<noteq> ''removed'')"
  note find = live_ws_unique [OF assms(1,2)]
  have tbl': "tbl' = sql_update P f tbl"
    and events': "events' = (if 0 < c - bw_monthly_spend r
      then snd (recordSpendDelta False False now ws (c - bw_monthly_spend r) events) else events)"
    using assms(3-7) find(1) by (auto simp: heartbeat_spend_def no_beat_faults_def Let_def P_def f_def)
  have key: "bw_id (f x) = bw_id x" "bw_status (f x) = bw_status x" for x by (simp_all add: f_def)
  have uq: "unique_key bw_id tbl'" unfolding tbl' using assms(1) key by (simp add: unique_key_sql_update)
  have Pr: "P r" using sql_find_Some_iff [OF assms(2) [unfolded live_ws_def]] by (simp add: P_def)
  have "sql_find (\<lambda>x. bw_id x = ws) tbl' = Some (f r)"
    unfolding tbl' by (subst sql_find_sql_update) (simp_all add: key find(1) Pr)
  then have fr: "f r \<in> set tbl'" using sql_find_Some_iff by fastforce
  have "live_ws ws tbl' = Some (f r)"
  proof (cases "live_ws ws tbl'")
    case None
    with fr Pr show ?thesis by (auto simp: live_ws_def sql_find_None_iff P_def f_def)
  next
    case (Some x)
    with live_ws_unique(1) [OF uq Some] \<open>sql_find (\<lambda>x. bw_id x = ws) tbl' = Some (f r)\<close> show ?thesis by simp
  qed
  with uq assms(3) show "unique_key bw_id tbl' \<and> (\<exists>r'. live_ws ws tbl' = Some r' \<and> bw_monthly_spend r' = c)"
    by (auto simp: f_def)
  show "window_spend events' ws now' (30 * 24 * hour) =
      window_spend events ws now' (30 * 24 * hour) + (c - bw_monthly_spend r)"
    if "now \<le> now'" "now > now' - 30 * 24 * hour"
    using that assms(5) window_spend_record [of "c - bw_monthly_spend r" "30 * 24 * hour" now now' False ws events ws]
    by (auto simp: events')
qed

text \<open>A run of heartbeats of one workspace, each with its time and reported cumulative figure.\<close>

definition heartbeats ::
  "string \<Rightarrow> (time \<times> int) list \<Rightarrow> budget_ws list \<times> spend_event list \<Rightarrow> budget_ws list \<times> spend_event list" where
  "heartbeats ws beats st = fold (\<lambda>(now, c). heartbeat_spend no_beat_faults now ws c) beats st"

lemma heartbeats_conserve:
  assumes "unique_key bw_id tbl" and "live_ws ws tbl = Some r" and "0 \<le> bw_monthly_spend r"
    and "sorted (bw_monthly_spend r # map snd beats)"
    and "\<And>t c. (t, c) \<in> set beats \<Longrightarrow> 0 < c \<and> c \<le> maxMonthlySpend \<and> t \<le> now' \<and> t > now' - 30 * 24 * hour"
  shows "window_spend (snd (heartbeats ws beats (tbl, events))) ws now' (30 * 24 * hour) =
    window_spend events ws now' (30 * 24 * hour)
      + (last (bw_monthly_spend r # map snd beats) - bw_monthly_spend r)"
  using assms
proof (induction beats arbitrary: tbl r events)
  case (Cons b beats)
  obtain t c where b: "b = (t, c)" by fastforce
  have bc: "0 < c" "c \<le> maxMonthlySpend" "t \<le> now'" "t > now' - 30 * 24 * hour"
    using Cons.prems(5) [of t c] b by simp_all
  have le: "bw_monthly_spend r \<le> c" using Cons.prems(4) b by simp
  obtain tbl1 events1 where st: "heartbeat_spend no_beat_faults t ws c (tbl, events) = (tbl1, events1)" by fastforce
  note h = heartbeat_step [OF Cons.prems(1,2) bc(1,2) le Cons.prems(3) st]
  from h(1) obtain r1 where r1: "unique_key bw_id tbl1" "live_ws ws tbl1 = Some r1" "bw_monthly_spend r1 = c" by blast
  have "window_spend (snd (heartbeats ws beats (tbl1, events1))) ws now' (30 * 24 * hour) =
      window_spend events1 ws now' (30 * 24 * hour) + (last (bw_monthly_spend r1 # map snd beats) - bw_monthly_spend r1)"
    by (rule Cons.IH [OF r1(1,2)]) (use r1(3) bc Cons.prems(4,5) b in auto)
  then show ?case
    using h(2) [of now'] bc(3,4) r1(3) st b by (simp add: heartbeats_def)
qed (simp add: heartbeats_def)

text \<open>
  the ledger follows the agent's cumulative figure. Over any fault-free run of heartbeats
  with a non-decreasing figure, all within the last 30 days, the monthly period grows by
  exactly the growth of the figure, however the reports are batched.
\<close>

theorem spend_follows_reports:
  assumes "unique_key bw_id tbl" and "live_ws ws tbl = Some r" and "0 \<le> bw_monthly_spend r"
    and "sorted (bw_monthly_spend r # map snd beats)"
    and "\<forall>(t, c) \<in> set beats. 0 < c \<and> c \<le> maxMonthlySpend \<and> t \<le> now' \<and> t > now' - 30 * 24 * hour"
    and "spendByPeriod False now' ws events = Some before"
    and "spendByPeriod False now' ws (snd (heartbeats ws beats (tbl, events))) = Some after"
  shows "after PeriodMonthly = before PeriodMonthly
    + (last (bw_monthly_spend r # map snd beats) - bw_monthly_spend r)"
  using heartbeats_conserve [OF assms(1-4), of now' events] assms(5)
    spendByPeriod_windows(1) [OF assms(6), of PeriodMonthly] spendByPeriod_windows(1) [OF assms(7), of PeriodMonthly]
  by (fastforce simp: period_window_simps)

theorem spend_follows_reports_witness:
  "\<exists>after. spendByPeriod False 5 ''w'' (snd (heartbeats ''w'' [(3, 4), (4, 9)] ([example_ws], []))) = Some after
     \<and> after PeriodMonthly = 9"
proof -
  have u: "unique_key bw_id [example_ws]" by (simp add: unique_key_def)
  have l: "live_ws ''w'' [example_ws] = Some example_ws"
    by (simp add: live_ws_def sql_find_Cons example_ws_def)
  have m: "bw_monthly_spend example_ws = 0" by (simp add: example_ws_def)
  have b: "spendByPeriod False 5 ''w'' [] = Some (\<lambda>p. case p of PeriodHourly \<Rightarrow> 0 | PeriodDaily \<Rightarrow> 0
      | PeriodWeekly \<Rightarrow> 0 | PeriodMonthly \<Rightarrow> 0)"
    by (simp add: spendByPeriod_def sum_since_def fits_int64_def)
  have "snd (heartbeats ''w'' [(3, 4), (4, 9)] ([example_ws], [])) =
      [\<lparr>se_workspace = ''w'', se_delta = 4, se_at = 3\<rparr>, \<lparr>se_workspace = ''w'', se_delta = 5, se_at = 4\<rparr>]"
    by (simp add: heartbeats_def heartbeat_spend_def no_beat_faults_def example_ws_def sql_find_Cons
        sql_update_Cons recordSpendDelta_def maxMonthlySpend_def spendLedgerRetention_def duration_defs)
  then obtain after where a: "spendByPeriod False 5 ''w'' (snd (heartbeats ''w'' [(3, 4), (4, 9)] ([example_ws], []))) = Some after"
    by (simp add: spendByPeriod_def sum_since_def fits_int64_def duration_defs)
  from spend_follows_reports [OF u l _ _ _ b a] a show ?thesis
    by (simp add: m maxMonthlySpend_def duration_defs)
qed

text \<open>
  A heartbeat whose read of the previous figure fails takes it for zero and books the whole
  cumulative figure once more: here a workspace that spent 9 ends up with 18.
\<close>

theorem lost_read_counts_twice:
  "window_spend (snd (heartbeat_spend (no_beat_faults\<lparr>hb_select := True\<rparr>) 5 ''w'' 9
     (heartbeats ''w'' [(4, 9)] ([example_ws], [])))) ''w'' 5 (30 * 24 * hour) = 18"
  by (simp add: heartbeats_def heartbeat_spend_def no_beat_faults_def example_ws_def sql_find_Cons
      sql_update_Cons recordSpendDelta_def maxMonthlySpend_def spendLedgerRetention_def window_spend_def duration_defs)

end
