(* ===== verification/Requests.thy ===== *)
theory Requests
  imports Core_Prelude
begin

text \<open>
  The unified requests inbox (\<^verbatim>\<open>internal/handlers/request_store.go\<close>): tasks and approvals
  between users and agents.

  The store is the \<open>requests\<close> and \<open>request_messages\<close> tables together with what the operations
  send out: the broadcast events and the turns enqueued for requester agents. The generated
  UUID and the database clock are arguments. \<open>Respond\<close> is its two halves, the lookup with the
  guards and the guarded \<^verbatim>\<open>UPDATE\<close>, so that responders can race; \<open>request_step\<close> is one database
  round trip of any caller. Message texts are constructors that hold the interpolated values.
\<close>

subsection \<open>Data\<close>

datatype request_error = ErrRequestNotFound | ErrInvalidRequestAction | ErrInvalidRequestKind
  | ErrInvalidRequestParty | ErrSelfResponse | ErrRequestDB

record CreateRequestInput =
  ci_Kind :: string
  ci_RequesterType :: string
  ci_RequesterID :: string
  ci_OrgID :: string
  ci_RecipientType :: string
  ci_RecipientID :: string
  ci_Title :: string
  ci_Detail :: string
  ci_Priority :: "int option"

record RequestRow =
  req_id :: string
  req_kind :: string
  req_requester_type :: string
  req_requester_id :: string
  req_org_id :: "string option"
  req_recipient_type :: string
  req_recipient_id :: string
  req_title :: string
  req_detail :: "string option"
  req_status :: string
  req_responder_type :: "string option"
  req_responder_id :: "string option"
  req_priority :: "int option"
  req_created_at :: time
  req_updated_at :: time
  req_responded_at :: "time option"

record RequestMessageRow =
  rm_id :: string
  rm_request :: string
  rm_author_type :: string
  rm_author_id :: string
  rm_body :: string
  rm_created_at :: time

datatype request_event =
    EvCreated string string string string string string
  | EvResponded string string string string string string string
  | EvMessage string string string string string

datatype notify_text =
    TextResponded string string string string string
  | TextMoreInfo string string string string

record requester_note =
  rn_target :: string
  rn_key :: string
  rn_text :: notify_text

record request_store =
  rs_requests :: "RequestRow list"
  rs_messages :: "RequestMessageRow list"
  rs_events :: "request_event list"
  rs_notes :: "requester_note list"

record request_faults =
  rf_query :: bool
  rf_exec :: bool
  rf_affected :: bool
  rf_flip :: bool
  rf_enqueue :: bool

definition no_request_faults :: request_faults where
  "no_request_faults = \<lparr>rf_query = False, rf_exec = False, rf_affected = False, rf_flip = False, rf_enqueue = False\<rparr>"

subsection \<open>Operations\<close>

definition validParty :: "string \<Rightarrow> bool" where
  "validParty t = (t = ''user'' \<or> t = ''agent'')"

definition broadcastTarget :: "string \<Rightarrow> string \<Rightarrow> string \<Rightarrow> string \<Rightarrow> string" where
  "broadcastTarget requesterType requesterID recipientType recipientID =
    (if requesterType = ''agent'' \<and> requesterID \<noteq> [] then requesterID
     else if recipientType = ''agent'' \<and> recipientID \<noteq> [] then recipientID
     else [])"

definition notifyRequesterAgent :: "bool \<Rightarrow> RequestRow \<Rightarrow> string \<Rightarrow> notify_text \<Rightarrow> request_store \<Rightarrow> request_store" where
  "notifyRequesterAgent fails req idemKey txt st =
    (if fails then st
     else st\<lparr>rs_notes := rs_notes st @ [\<lparr>rn_target = req_requester_id req, rn_key = idemKey, rn_text = txt\<rparr>]\<rparr>)"

definition broadcast :: "string \<Rightarrow> request_event \<Rightarrow> request_store \<Rightarrow> request_store" where
  "broadcast target ev st = (if target = [] then st else st\<lparr>rs_events := rs_events st @ [ev]\<rparr>)"

definition Create ::
  "request_faults \<Rightarrow> string \<Rightarrow> time \<Rightarrow> CreateRequestInput \<Rightarrow> request_store
     \<Rightarrow> (request_error + string) \<times> request_store" where
  "Create fl newid now inp st =
    (if ci_Kind inp \<noteq> ''task'' \<and> ci_Kind inp \<noteq> ''approval'' then (Inl ErrInvalidRequestKind, st)
     else if \<not> validParty (ci_RequesterType inp) \<or> \<not> validParty (ci_RecipientType inp)
       then (Inl ErrInvalidRequestParty, st)
     else if rf_query fl \<or> (\<exists>r \<in> set (rs_requests st). req_id r = newid) then (Inl ErrRequestDB, st)
     else
       let row = \<lparr>req_id = newid, req_kind = ci_Kind inp,
             req_requester_type = ci_RequesterType inp, req_requester_id = ci_RequesterID inp,
             req_org_id = nullif_empty (ci_OrgID inp),
             req_recipient_type = ci_RecipientType inp, req_recipient_id = ci_RecipientID inp,
             req_title = ci_Title inp, req_detail = nullif_empty (ci_Detail inp), req_status = ''pending'',
             req_responder_type = None, req_responder_id = None, req_priority = ci_Priority inp,
             req_created_at = now, req_updated_at = now, req_responded_at = None\<rparr>;
           target = broadcastTarget (ci_RecipientType inp) (ci_RecipientID inp) (ci_RequesterType inp) (ci_RequesterID inp)
       in (Inr newid,
           broadcast target
             (EvCreated target newid (ci_Kind inp) (ci_RecipientType inp) (ci_RecipientID inp) (ci_Title inp))
             (st\<lparr>rs_requests := rs_requests st @ [row]\<rparr>)))"

definition Get :: "bool \<Rightarrow> string \<Rightarrow> request_store \<Rightarrow> request_error + RequestRow" where
  "Get fails i st =
    (if fails then Inl ErrRequestDB
     else case sql_find (\<lambda>r. req_id r = i) (rs_requests st) of
         None \<Rightarrow> Inl ErrRequestNotFound
       | Some r \<Rightarrow> Inr r)"

text \<open>\<open>bad\<close> are the ids whose row scan fails; such rows are skipped.\<close>

definition Messages :: "bool \<Rightarrow> (string \<Rightarrow> bool) \<Rightarrow> string \<Rightarrow> request_store \<Rightarrow> request_error + RequestMessageRow list" where
  "Messages fails bad i st =
    (if fails then Inl ErrRequestDB
     else Inr (filter (\<lambda>m. \<not> bad (rm_id m))
       (take 200 (sort_key rm_created_at (filter (\<lambda>m. rm_request m = i) (rs_messages st))))))"

definition queryRequests :: "bool \<Rightarrow> (string \<Rightarrow> bool) \<Rightarrow> RequestRow list \<Rightarrow> request_error + RequestRow list" where
  "queryRequests fails bad rows =
    (if fails then Inl ErrRequestDB
     else Inr (filter (\<lambda>r. \<not> bad (req_id r)) (take 50 (sort_key (\<lambda>r. - req_created_at r) rows))))"

definition ListInbox ::
  "bool \<Rightarrow> (string \<Rightarrow> bool) \<Rightarrow> string \<Rightarrow> string \<Rightarrow> string \<Rightarrow> request_store \<Rightarrow> request_error + RequestRow list" where
  "ListInbox fails bad recipientType recipientID status st =
    queryRequests fails bad (filter (\<lambda>r. req_recipient_type r = recipientType \<and> req_recipient_id r = recipientID
      \<and> (if status \<noteq> [] then req_status r = status else True)) (rs_requests st))"

definition ListOutgoing ::
  "bool \<Rightarrow> (string \<Rightarrow> bool) \<Rightarrow> string \<Rightarrow> string \<Rightarrow> string \<Rightarrow> request_store \<Rightarrow> request_error + RequestRow list" where
  "ListOutgoing fails bad requesterType requesterID status st =
    queryRequests fails bad (filter (\<lambda>r. req_requester_type r = requesterType \<and> req_requester_id r = requesterID
      \<and> (if status \<noteq> [] then req_status r = status else True)) (rs_requests st))"

definition ListPendingForOrg ::
  "bool \<Rightarrow> (string \<Rightarrow> bool) \<Rightarrow> (string \<rightharpoonup> string) \<Rightarrow> string \<Rightarrow> string \<Rightarrow> request_store
     \<Rightarrow> request_error + (RequestRow \<times> string option) list" where
  "ListPendingForOrg fails bad workspace_name orgID kind st =
    (case queryRequests fails bad (filter (\<lambda>r. req_status r \<in> {''pending'', ''info_requested''}
        \<and> (if orgID \<noteq> [] then req_org_id r = Some orgID else True)
        \<and> (if kind \<noteq> [] then req_kind r = kind else True)) (rs_requests st)) of
       Inl e \<Rightarrow> Inl e
     | Inr rows \<Rightarrow> Inr (map (\<lambda>r. (r, if req_requester_type r = ''agent'' then workspace_name (req_requester_id r) else None)) rows))"

definition actionToStatus :: "string \<Rightarrow> string \<Rightarrow> request_error + string" where
  "actionToStatus kind action =
    (if kind = ''approval'' \<and> (action = ''approved'' \<or> action = ''rejected'') then Inr action
     else if kind = ''task'' \<and> (action = ''done'' \<or> action = ''rejected'') then Inr action
     else Inl ErrInvalidRequestAction)"

definition open_row :: "string \<Rightarrow> RequestRow \<Rightarrow> bool" where
  "open_row i r = (req_id r = i \<and> req_status r \<in> {''pending'', ''info_requested''})"

text \<open>What \<open>Respond\<close> carries from its lookup to its \<^verbatim>\<open>UPDATE\<close>.\<close>

record respond_call =
  rc_id :: string
  rc_status :: string
  rc_type :: string
  rc_responder :: string
  rc_req :: RequestRow

definition respond_read ::
  "bool \<Rightarrow> string \<Rightarrow> string \<Rightarrow> string \<Rightarrow> string \<Rightarrow> request_store \<Rightarrow> request_error + respond_call" where
  "respond_read fails i action responderType responderID st =
    (let rt = (if responderType = [] then ''user'' else responderType);
         ri = (if responderID = [] then ''human'' else responderID)
     in if \<not> validParty rt then Inl ErrInvalidRequestParty
        else case Get fails i st of
            Inl e \<Rightarrow> Inl e
          | Inr req \<Rightarrow>
             if rt = req_requester_type req \<and> ri = req_requester_id req then Inl ErrSelfResponse
             else case actionToStatus (req_kind req) action of
                 Inl e \<Rightarrow> Inl e
               | Inr status \<Rightarrow>
                  Inr \<lparr>rc_id = i, rc_status = status, rc_type = rt, rc_responder = ri, rc_req = req\<rparr>)"

definition decide_row :: "time \<Rightarrow> respond_call \<Rightarrow> RequestRow \<Rightarrow> RequestRow" where
  "decide_row now c r = r\<lparr>req_status := rc_status c, req_responder_type := Some (rc_type c),
     req_responder_id := Some (rc_responder c), req_responded_at := Some now, req_updated_at := now\<rparr>"

definition respond_write ::
  "request_faults \<Rightarrow> time \<Rightarrow> respond_call \<Rightarrow> request_store \<Rightarrow> (request_error + RequestRow) \<times> request_store" where
  "respond_write fl now c st =
    (if rf_exec fl then (Inl ErrRequestDB, st)
     else
       let n = sql_affected (open_row (rc_id c)) (rs_requests st);
           st1 = st\<lparr>rs_requests := sql_update (open_row (rc_id c)) (decide_row now c) (rs_requests st)\<rparr>
       in if rf_affected fl then (Inl ErrRequestDB, st1)
          else if n = 0 then (Inl ErrRequestNotFound, st1)
          else
            let req = rc_req c;
                target = broadcastTarget (req_requester_type req) (req_requester_id req)
                           (req_recipient_type req) (req_recipient_id req);
                st2 = broadcast target (EvResponded target (rc_id c) (rc_status c) (rc_type c) (rc_responder c)
                        (req_title req) (req_kind req)) st1;
                by_whom = (if rc_type c = ''agent'' then ''agent '' @ rc_responder c else ''the user'');
                st3 = (if req_requester_type req = ''agent'' \<and> req_requester_id req \<noteq> []
                          \<and> (rc_type c \<noteq> ''agent'' \<or> rc_responder c \<noteq> req_requester_id req)
                       then notifyRequesterAgent (rf_enqueue fl) req (''request-responded:'' @ req_id req)
                              (TextResponded (req_kind req) (req_title req) (req_id req) (rc_status c) by_whom) st2
                       else st2)
            in (Inr (req\<lparr>req_status := rc_status c, req_responder_type := Some (rc_type c),
                       req_responder_id := Some (rc_responder c)\<rparr>), st3))"

definition Respond ::
  "request_faults \<Rightarrow> time \<Rightarrow> string \<Rightarrow> string \<Rightarrow> string \<Rightarrow> string \<Rightarrow> request_store
     \<Rightarrow> (request_error + RequestRow) \<times> request_store" where
  "Respond fl now i action responderType responderID st =
    (case respond_read (rf_query fl) i action responderType responderID st of
       Inl e \<Rightarrow> (Inl e, st)
     | Inr c \<Rightarrow> respond_write fl now c st)"

text \<open>The shared guarded \<^verbatim>\<open>UPDATE\<close> of \<open>RequestInfo\<close> and \<open>Cancel\<close>.\<close>

definition set_open_status :: "request_faults \<Rightarrow> time \<Rightarrow> string \<Rightarrow> string \<Rightarrow> request_store \<Rightarrow> (request_error option) \<times> request_store" where
  "set_open_status fl now i status st =
    (if rf_exec fl then (Some ErrRequestDB, st)
     else
       let n = sql_affected (open_row i) (rs_requests st);
           st1 = st\<lparr>rs_requests := sql_update (open_row i) (\<lambda>r. r\<lparr>req_status := status, req_updated_at := now\<rparr>) (rs_requests st)\<rparr>
       in if rf_affected fl then (Some ErrRequestDB, st1)
          else if n = 0 then (Some ErrRequestNotFound, st1) else (None, st1))"

definition RequestInfo :: "request_faults \<Rightarrow> time \<Rightarrow> string \<Rightarrow> request_store \<Rightarrow> (request_error option) \<times> request_store" where
  "RequestInfo fl now i st = set_open_status fl now i ''info_requested'' st"

definition Cancel :: "request_faults \<Rightarrow> time \<Rightarrow> string \<Rightarrow> request_store \<Rightarrow> (request_error option) \<times> request_store" where
  "Cancel fl now i st = set_open_status fl now i ''cancelled'' st"

definition AddMessage ::
  "request_faults \<Rightarrow> string \<Rightarrow> time \<Rightarrow> string \<Rightarrow> string \<Rightarrow> string \<Rightarrow> string \<Rightarrow> request_store
     \<Rightarrow> (request_error + string) \<times> request_store" where
  "AddMessage fl newid now i authorType authorID body st =
    (if \<not> validParty authorType then (Inl ErrInvalidRequestParty, st)
     else case Get (rf_query fl) i st of
         Inl e \<Rightarrow> (Inl e, st)
       | Inr req \<Rightarrow>
          if rf_exec fl then (Inl ErrRequestDB, st)
          else
            let st1 = st\<lparr>rs_messages := rs_messages st @
                  [\<lparr>rm_id = newid, rm_request = i, rm_author_type = authorType, rm_author_id = authorID,
                    rm_body = body, rm_created_at = now\<rparr>]\<rparr>;
                own = (authorType = req_requester_type req \<and> authorID = req_requester_id req);
                st2 = (if \<not> own \<and> \<not> rf_flip fl
                       then st1\<lparr>rs_requests := sql_update (open_row i)
                              (\<lambda>r. r\<lparr>req_status := ''info_requested'', req_updated_at := now\<rparr>) (rs_requests st1)\<rparr>
                       else st1);
                target = broadcastTarget (req_requester_type req) (req_requester_id req)
                           (req_recipient_type req) (req_recipient_id req);
                st3 = broadcast target (EvMessage target i newid authorType authorID) st2;
                st4 = (if \<not> own \<and> req_requester_type req = ''agent'' \<and> req_requester_id req \<noteq> []
                       then notifyRequesterAgent (rf_enqueue fl) req (''request-message:'' @ newid)
                              (TextMoreInfo (req_kind req) (req_title req) (req_id req) body) st3
                       else st3)
            in (Inr newid, st4))"

subsection \<open>Concurrent callers\<close>

datatype request_phase = CallIdle | CallPending respond_call | CallReturned respond_call "request_error + RequestRow"

record request_sys =
  sys_store :: request_store
  sys_calls :: "nat \<Rightarrow> request_phase"

inductive request_step :: "request_sys \<Rightarrow> request_sys \<Rightarrow> bool" where
  respond_lookup: "sys_calls s k = CallIdle \<Longrightarrow>
    respond_read fails i action rt ri (sys_store s) = Inr c \<Longrightarrow>
    request_step s (s\<lparr>sys_calls := (sys_calls s)(k := CallPending c)\<rparr>)"
| respond_update: "sys_calls s k = CallPending c \<Longrightarrow>
    respond_write fl now c (sys_store s) = (res, st') \<Longrightarrow>
    request_step s (s\<lparr>sys_store := st', sys_calls := (sys_calls s)(k := CallReturned c res)\<rparr>)"
| create: "Create fl newid now inp (sys_store s) = (r, st') \<Longrightarrow> request_step s (s\<lparr>sys_store := st'\<rparr>)"
| info: "RequestInfo fl now i (sys_store s) = (e, st') \<Longrightarrow> request_step s (s\<lparr>sys_store := st'\<rparr>)"
| cancel: "Cancel fl now i (sys_store s) = (e, st') \<Longrightarrow> request_step s (s\<lparr>sys_store := st'\<rparr>)"
| message: "AddMessage fl newid now i at ai body (sys_store s) = (r2, st') \<Longrightarrow> request_step s (s\<lparr>sys_store := st'\<rparr>)"

definition request_terminal :: "string \<Rightarrow> bool" where
  "request_terminal v = (v \<in> {''done'', ''rejected'', ''approved'', ''cancelled''})"

definition request_status :: "request_sys \<Rightarrow> string \<Rightarrow> string option" where
  "request_status s i = map_option req_status (sql_find (\<lambda>r. req_id r = i) (rs_requests (sys_store s)))"

text \<open>A caller's \<open>Respond\<close> returns success for request \<open>i\<close>.\<close>

definition request_wins :: "request_sys \<Rightarrow> request_sys \<Rightarrow> string \<Rightarrow> bool" where
  "request_wins s s' i \<longleftrightarrow> request_step s s' \<and>
    (\<exists>k c r. sys_calls s k = CallPending c \<and> sys_calls s' k = CallReturned c (Inr r) \<and> rc_id c = i)"

subsection \<open>What an operation can do to the table\<close>

lemma broadcast_requests [simp]: "rs_requests (broadcast t ev st) = rs_requests st"
  by (simp add: broadcast_def)

lemma notify_requests [simp]: "rs_requests (notifyRequesterAgent b r k t st) = rs_requests st"
  by (simp add: notifyRequesterAgent_def)

definition set_status :: "time \<Rightarrow> string \<Rightarrow> RequestRow \<Rightarrow> RequestRow" where
  "set_status now status r = r\<lparr>req_status := status, req_updated_at := now\<rparr>"

definition fresh_request :: "RequestRow list \<Rightarrow> RequestRow \<Rightarrow> bool" where
  "fresh_request tbl r \<longleftrightarrow> req_id r \<notin> req_id ` set tbl \<and> req_kind r \<in> {''task'', ''approval''}
     \<and> req_status r = ''pending'' \<and> req_responder_type r = None \<and> req_responder_id r = None"

lemma Create_effect:
  "rs_requests (snd (Create fl newid now inp st)) = rs_requests st \<or>
   (\<exists>r. rs_requests (snd (Create fl newid now inp st)) = rs_requests st @ [r] \<and> fresh_request (rs_requests st) r)"
  by (auto simp: Create_def Let_def fresh_request_def)

lemma set_open_status_effect:
  "rs_requests (snd (set_open_status fl now i v st)) = rs_requests st \<or>
   rs_requests (snd (set_open_status fl now i v st)) = sql_update (open_row i) (set_status now v) (rs_requests st)"
  by (simp add: set_open_status_def Let_def set_status_def [abs_def])

lemma AddMessage_effect:
  "rs_requests (snd (AddMessage fl newid now i at ai body st)) = rs_requests st \<or>
   rs_requests (snd (AddMessage fl newid now i at ai body st)) =
     sql_update (open_row i) (set_status now ''info_requested'') (rs_requests st)"
  by (simp add: AddMessage_def Let_def set_status_def [abs_def] split: sum.split)

lemma respond_write_effect:
  "rs_requests (snd (respond_write fl now c st)) = rs_requests st \<or>
   rs_requests (snd (respond_write fl now c st)) = sql_update (open_row (rc_id c)) (decide_row now c) (rs_requests st)"
  by (simp add: respond_write_def Let_def)

text \<open>Every step changes the table in one of three ways.\<close>

lemma request_step_effect:
  assumes "request_step s s'"
  obtains (same) "rs_requests (sys_store s') = rs_requests (sys_store s)"
  | (fresh) r where "rs_requests (sys_store s') = rs_requests (sys_store s) @ [r]"
      "fresh_request (rs_requests (sys_store s)) r" "sys_calls s' = sys_calls s"
  | (status) i now v where "v \<in> {''info_requested'', ''cancelled''}" "sys_calls s' = sys_calls s"
      "rs_requests (sys_store s') = sql_update (open_row i) (set_status now v) (rs_requests (sys_store s))"
  | (decide) k c res now where "sys_calls s k = CallPending c" "sys_calls s' = (sys_calls s)(k := CallReturned c res)"
      "rs_requests (sys_store s') = sql_update (open_row (rc_id c)) (decide_row now c) (rs_requests (sys_store s))"
  using assms
proof (cases rule: request_step.cases)
  case (respond_lookup k fails i action rt ri c)
  then show ?thesis by (intro same) simp
next
  case (respond_update k c fl now res st')
  with respond_write_effect [of fl now c "sys_store s"] show ?thesis using same decide by auto
next
  case (create fl newid now inp r st')
  with Create_effect [of fl newid now inp "sys_store s"] show ?thesis using same fresh by auto
next
  case (info fl now i e st')
  with set_open_status_effect [of fl now i "''info_requested''" "sys_store s"] show ?thesis
    using same status [of "''info_requested''"] by (auto simp: RequestInfo_def)
next
  case (cancel fl now i e st')
  with set_open_status_effect [of fl now i "''cancelled''" "sys_store s"] show ?thesis
    using same status [of "''cancelled''"] by (auto simp: Cancel_def)
next
  case (message fl newid now i at ai body r2 st')
  with AddMessage_effect [of fl newid now i at ai body "sys_store s"] show ?thesis
    using same status [of "''info_requested''"] by auto
qed

subsection \<open>The invariant\<close>

text \<open>A decision fits the kind of the request and is never the requester's own.\<close>

definition decision_ok :: "RequestRow \<Rightarrow> string \<Rightarrow> string \<Rightarrow> string \<Rightarrow> bool" where
  "decision_ok r status rt ri \<longleftrightarrow>
     (status = ''rejected'' \<or> (status = ''approved'' \<and> req_kind r = ''approval'') \<or> (status = ''done'' \<and> req_kind r = ''task''))
     \<and> \<not> (rt = req_requester_type r \<and> ri = req_requester_id r)"

definition request_ok :: "RequestRow \<Rightarrow> bool" where
  "request_ok r \<longleftrightarrow> req_kind r \<in> {''task'', ''approval''} \<and>
    (if req_status r \<in> {''pending'', ''info_requested'', ''cancelled''}
     then req_responder_type r = None \<and> req_responder_id r = None
     else (\<exists>rt ri. req_responder_type r = Some rt \<and> req_responder_id r = Some ri \<and> decision_ok r (req_status r) rt ri))"

definition call_ok :: "RequestRow list \<Rightarrow> respond_call \<Rightarrow> bool" where
  "call_ok tbl c \<longleftrightarrow> (\<exists>r \<in> set tbl. req_id r = rc_id c) \<and>
     (\<forall>r \<in> set tbl. req_id r = rc_id c \<longrightarrow> decision_ok r (rc_status c) (rc_type c) (rc_responder c))"

definition requests_ok :: "request_sys \<Rightarrow> bool" where
  "requests_ok s \<longleftrightarrow> unique_key req_id (rs_requests (sys_store s))
     \<and> list_all request_ok (rs_requests (sys_store s))
     \<and> (\<forall>k c. sys_calls s k = CallPending c \<longrightarrow> call_ok (rs_requests (sys_store s)) c)"

lemma request_fields [simp]:
  "req_id (set_status now v r) = req_id r" "req_kind (set_status now v r) = req_kind r"
  "req_status (set_status now v r) = v"
  "req_requester_type (set_status now v r) = req_requester_type r" "req_requester_id (set_status now v r) = req_requester_id r"
  "req_responder_type (set_status now v r) = req_responder_type r" "req_responder_id (set_status now v r) = req_responder_id r"
  "req_id (decide_row now c r) = req_id r" "req_kind (decide_row now c r) = req_kind r"
  "req_status (decide_row now c r) = rc_status c"
  "req_requester_type (decide_row now c r) = req_requester_type r" "req_requester_id (decide_row now c r) = req_requester_id r"
  "req_responder_type (decide_row now c r) = Some (rc_type c)" "req_responder_id (decide_row now c r) = Some (rc_responder c)"
  by (simp_all add: set_status_def decide_row_def)

text \<open>Updates that keep the immutable columns keep every pending call valid.\<close>

lemma call_ok_update:
  assumes "\<And>r. req_id (f r) = req_id r \<and> req_kind (f r) = req_kind r
      \<and> req_requester_type (f r) = req_requester_type r \<and> req_requester_id (f r) = req_requester_id r"
    and "call_ok tbl c"
  shows "call_ok (sql_update P f tbl) c"
proof -
  have dec: "decision_ok (f r) v rt ri = decision_ok r v rt ri" for r v rt ri
    using assms(1) [of r] by (simp add: decision_ok_def)
  let ?g = "\<lambda>r. if P r then f r else r"
  have g: "req_id (?g r) = req_id r" "decision_ok (?g r) v rt ri = decision_ok r v rt ri" for r v rt ri
    using assms(1) [of r] dec [of r] by simp_all
  from assms(2) show ?thesis
    unfolding call_ok_def set_sql_update by (simp only: ball_simps bex_simps g) simp
qed

lemma call_ok_fresh: "fresh_request tbl r \<Longrightarrow> call_ok tbl c \<Longrightarrow> call_ok (tbl @ [r]) c"
  unfolding call_ok_def fresh_request_def by (auto simp: image_iff)

lemma respond_read_ok:
  assumes "unique_key req_id (rs_requests st)" and "respond_read fails i action rt ri st = Inr c"
  shows "call_ok (rs_requests st) c"
proof -
  from assms(2) obtain req where g: "sql_find (\<lambda>r. req_id r = i) (rs_requests st) = Some req"
    and c: "rc_id c = i" "decision_ok req (rc_status c) (rc_type c) (rc_responder c)"
    by (auto simp: respond_read_def Get_def Let_def actionToStatus_def decision_ok_def
        split: if_splits sum.splits option.splits)
  have req: "req \<in> set (rs_requests st)" "req_id req = i" using sql_find_Some_iff [OF g] by auto
  then have "r = req" if "r \<in> set (rs_requests st)" "req_id r = i" for r
    using unique_key_eq [OF assms(1) that(1) req(1)] that(2) by simp
  with req c show ?thesis unfolding call_ok_def by metis
qed

lemma request_ok_set: "request_ok r \<Longrightarrow> open_row i r \<Longrightarrow> v \<in> {''info_requested'', ''cancelled''} \<Longrightarrow> request_ok (set_status now v r)"
  by (auto simp: request_ok_def open_row_def split: if_splits)

lemma request_ok_decide:
  "request_ok r \<Longrightarrow> decision_ok r (rc_status c) (rc_type c) (rc_responder c) \<Longrightarrow> request_ok (decide_row now c r)"
  by (auto simp: request_ok_def decision_ok_def)

lemma requests_ok_step:
  assumes "requests_ok s" and "request_step s s'"
  shows "requests_ok s'"
  using assms(2)
proof (cases rule: request_step_effect)
  case same
  have "call_ok (rs_requests (sys_store s)) c" if "sys_calls s' k = CallPending c" for k c
    using assms(2)
  proof (cases rule: request_step.cases)
    case (respond_lookup k' fails i action rt ri c')
    have "call_ok (rs_requests (sys_store s)) c'"
      using assms(1) respond_lookup by (intro respond_read_ok) (auto simp: requests_ok_def)
    with that respond_lookup assms(1) show ?thesis by (auto simp: requests_ok_def split: if_splits)
  qed (use that assms(1) in \<open>auto simp: requests_ok_def split: if_splits\<close>)
  with same assms(1) show ?thesis by (simp add: requests_ok_def)
next
  case (fresh r)
  have "request_ok r" using fresh(2) by (auto simp: fresh_request_def request_ok_def)
  with fresh assms(1) call_ok_fresh [OF fresh(2)] show ?thesis
    by (auto simp: requests_ok_def unique_key_def fresh_request_def)
next
  case (status i now v)
  have "call_ok (sql_update (open_row i) (set_status now v) (rs_requests (sys_store s))) c"
    if "call_ok (rs_requests (sys_store s)) c" for c
    by (rule call_ok_update [OF _ that]) simp
  moreover have "list_all request_ok (sql_update (open_row i) (set_status now v) (rs_requests (sys_store s)))"
    using assms(1) status(1) request_ok_set by (auto simp: requests_ok_def list_all_iff set_sql_update)
  ultimately show ?thesis using assms(1) status by (simp add: requests_ok_def unique_key_sql_update)
next
  case (decide k c res now)
  have c: "call_ok (rs_requests (sys_store s)) c" using assms(1) decide(1) by (auto simp: requests_ok_def)
  have "call_ok (sql_update (open_row (rc_id c)) (decide_row now c) (rs_requests (sys_store s))) c'"
    if "call_ok (rs_requests (sys_store s)) c'" for c'
    by (rule call_ok_update [OF _ that]) simp
  moreover have "list_all request_ok (sql_update (open_row (rc_id c)) (decide_row now c) (rs_requests (sys_store s)))"
    using assms(1) c
    by (auto simp: requests_ok_def list_all_iff set_sql_update call_ok_def open_row_def intro: request_ok_decide)
  ultimately show ?thesis using assms(1) decide by (auto simp: requests_ok_def unique_key_sql_update split: if_splits)
qed

subsection \<open>Decisions are final and unique\<close>

lemma request_status_update:
  assumes "rs_requests (sys_store s') = sql_update (open_row i) f (rs_requests (sys_store s))"
    and "\<And>r. req_id (f r) = req_id r"
  shows "request_status s' j =
    map_option (\<lambda>r. if open_row i r then req_status (f r) else req_status r)
      (sql_find (\<lambda>r. req_id r = j) (rs_requests (sys_store s)))"
  using sql_find_sql_update [of "open_row i" req_id f j "rs_requests (sys_store s)"] assms
  by (cases "sql_find (\<lambda>r. req_id r = j) (rs_requests (sys_store s))") (auto simp: request_status_def)

lemma open_not_terminal: "open_row i r \<Longrightarrow> \<not> request_terminal (req_status r)"
  by (auto simp: open_row_def request_terminal_def)

lemma request_terminal_kept:
  assumes "request_step s s'" and "request_status s j = Some v" and "request_terminal v"
  shows "request_status s' j = Some v"
proof -
  from assms(2) obtain r where r: "sql_find (\<lambda>r. req_id r = j) (rs_requests (sys_store s)) = Some r" "req_status r = v"
    by (auto simp: request_status_def)
  have no: "\<not> open_row i r" for i using open_not_terminal r(2) assms(3) by blast
  from assms(1) show ?thesis
  proof (cases rule: request_step_effect)
    case same
    with assms(2) show ?thesis by (simp add: request_status_def)
  next
    case (fresh x)
    with r show ?thesis by (simp add: request_status_def sql_find_append)
  next
    case (status i now w)
    from request_status_update [OF status(3)] r no show ?thesis by simp
  next
    case (decide k c res now)
    from request_status_update [OF decide(3)] r no show ?thesis by simp
  qed
qed

lemma respond_write_success:
  assumes "respond_write fl now c st = (Inr row, st')"
  shows "rs_requests st' = sql_update (open_row (rc_id c)) (decide_row now c) (rs_requests st)"
    and "\<exists>r \<in> set (rs_requests st). open_row (rc_id c) r"
proof -
  from assms have "sql_affected (open_row (rc_id c)) (rs_requests st) \<noteq> 0"
    and upd: "rs_requests st' = sql_update (open_row (rc_id c)) (decide_row now c) (rs_requests st)"
    by (auto simp: respond_write_def Let_def split: if_splits)
  then show "rs_requests st' = sql_update (open_row (rc_id c)) (decide_row now c) (rs_requests st)"
    and "\<exists>r \<in> set (rs_requests st). open_row (rc_id c) r"
    by (auto simp: sql_affected_zero)
qed

lemma request_wins_inversion:
  assumes "requests_ok s" and "request_wins s s' i"
  obtains r and c :: respond_call where "sql_find (\<lambda>r. req_id r = i) (rs_requests (sys_store s)) = Some r" "open_row i r"
    "request_status s' i = Some (rc_status c)" "request_terminal (rc_status c)"
proof -
  from assms(2) obtain k c row where st: "request_step s s'" and p: "sys_calls s k = CallPending c"
    and ret: "sys_calls s' k = CallReturned c (Inr row)" and i: "rc_id c = i"
    by (auto simp: request_wins_def)
  from st p ret obtain fl now st' where w: "respond_write fl now c (sys_store s) = (Inr row, st')"
    and s': "sys_store s' = st'"
    by (cases rule: request_step.cases) (auto split: if_splits)
  note suc = respond_write_success [OF w]
  from suc(2) i obtain r where r: "r \<in> set (rs_requests (sys_store s))" "open_row i r" by auto
  then have "req_id r = i" by (simp add: open_row_def)
  with sql_find_key [of req_id "rs_requests (sys_store s)" r] assms(1) r(1)
  have f: "sql_find (\<lambda>r. req_id r = i) (rs_requests (sys_store s)) = Some r" by (auto simp: requests_ok_def)
  have u: "rs_requests (sys_store s') = sql_update (open_row (rc_id c)) (decide_row now c) (rs_requests (sys_store s))"
    using suc(1) s' by simp
  have "request_status s' i = Some (rc_status c)"
    using request_status_update [OF u, of i] f r(2) i by simp
  moreover have "request_terminal (rc_status c)"
  proof -
    have "call_ok (rs_requests (sys_store s)) c" using assms(1) p by (auto simp: requests_ok_def)
    with r(1) \<open>req_id r = i\<close> i show ?thesis by (auto simp: call_ok_def decision_ok_def request_terminal_def)
  qed
  ultimately show thesis using that f r(2) by blast
qed

interpretation requests: single_winner request_status request_terminal
  "\<lambda>s s'. requests_ok s \<and> request_step s s'" "\<lambda>s s' i. requests_ok s \<and> request_wins s s' i"
proof unfold_locales
  fix s s' :: request_sys and i :: string and v :: string
  show "request_status s' i = Some v" if "requests_ok s \<and> request_step s s'" "request_status s i = Some v" "request_terminal v"
    using that request_terminal_kept by blast
  assume w: "requests_ok s \<and> request_wins s s' i"
  then show "requests_ok s \<and> request_step s s'" by (simp add: request_wins_def)
  from w have ok: "requests_ok s" and win: "request_wins s s' i" by auto
  obtain r and c :: respond_call where r: "sql_find (\<lambda>r. req_id r = i) (rs_requests (sys_store s)) = Some r" "open_row i r"
    "request_status s' i = Some (rc_status c)" "request_terminal (rc_status c)"
    by (rule request_wins_inversion [OF ok win])
  then show "\<exists>v. request_status s i = Some v" and "\<exists>v. request_status s' i = Some v \<and> request_terminal v"
    by (auto simp: request_status_def)
  show "\<not> request_terminal v" if "request_status s i = Some v"
    using that r(1,2) open_not_terminal by (auto simp: request_status_def)
qed

lemma request_run_ok:
  assumes "requests_ok s" and "run_of request_step (s # ss)"
  shows "run_of (\<lambda>s s'. requests_ok s \<and> request_step s s') (s # ss)
    \<and> count_steps (\<lambda>s s'. requests_ok s \<and> Q s s') (s # ss) = count_steps Q (s # ss)"
  by (rule run_of_invariant [where I = requests_ok and R = request_step])
    (use assms requests_ok_step in auto)

text \<open>
  C22: a request is decided at most once. However the calls of any number of responders, the
  canceller and the clarifying messages interleave, at most one \<open>Respond\<close> of a request ever
  succeeds, and once the request is done, rejected, approved or cancelled its status never
  changes again.
\<close>

theorem request_decided_once:
  assumes "requests_ok s" and "run_of request_step (s # ss)"
  shows "count_steps (\<lambda>t t'. request_wins t t' i) (s # ss) \<le> 1
    \<and> (\<forall>t \<in> set (s # ss). \<forall>v. request_status s i = Some v \<and> request_terminal v \<longrightarrow> request_status t i = Some v)"
proof
  note run = request_run_ok [OF assms]
  show "count_steps (\<lambda>t t'. request_wins t t' i) (s # ss) \<le> 1"
    using run [of "\<lambda>t t'. request_wins t t' i"] requests.at_most_one_win [of "s # ss" i] by simp
  show "\<forall>t \<in> set (s # ss). \<forall>v. request_status s i = Some v \<and> request_terminal v \<longrightarrow> request_status t i = Some v"
  proof (intro ballI allI impI)
    fix t v
    assume "t \<in> set (s # ss)" and v: "request_status s i = Some v \<and> request_terminal v"
    then have "(\<lambda>s s'. requests_ok s \<and> request_step s s')\<^sup>*\<^sup>* s t"
      using run [of "\<lambda>_ _. True"] by (intro run_of_star) auto
    with v show "request_status t i = Some v" using requests.terminal_kept_star by blast
  qed
qed

text \<open>
  nobody decides their own request, and a decision always fits its kind. In every state that
  any interleaving of the operations can reach, faults included, a decided request carries a
  responder that is not its requester, approvals are never done, tasks are never approved, and
  open or cancelled requests carry no responder.
\<close>

theorem requests_ok_reachable:
  assumes "requests_ok s" and "request_step\<^sup>*\<^sup>* s t"
  shows "requests_ok t"
  using assms(2,1) by (induction rule: rtranclp_induct) (auto intro: requests_ok_step)

definition example_request :: RequestRow where
  "example_request = \<lparr>req_id = ''r1'', req_kind = ''approval'', req_requester_type = ''agent'',
     req_requester_id = ''w1'', req_org_id = None, req_recipient_type = ''user'', req_recipient_id = [],
     req_title = ''deploy'', req_detail = None, req_status = ''pending'', req_responder_type = None,
     req_responder_id = None, req_priority = None, req_created_at = 0, req_updated_at = 0, req_responded_at = None\<rparr>"

definition example_store :: request_store where
  "example_store = \<lparr>rs_requests = [example_request], rs_messages = [], rs_events = [], rs_notes = []\<rparr>"

definition example_sys :: request_sys where
  "example_sys = \<lparr>sys_store = example_store, sys_calls = (\<lambda>_. CallIdle)\<rparr>"

lemma example_sys_ok: "requests_ok example_sys"
  by (simp add: requests_ok_def example_sys_def example_store_def unique_key_def request_ok_def example_request_def)

lemma example_cancel_step:
  "request_step example_sys (example_sys\<lparr>sys_store := snd (Cancel no_request_faults 5 ''r1'' example_store)\<rparr>)"
  by (rule request_step.cancel [of no_request_faults 5 "''r1''" _ "fst (Cancel no_request_faults 5 ''r1'' example_store)"])
    (simp add: example_sys_def)

theorem request_decided_once_witness:
  "count_steps (\<lambda>t t'. request_wins t t' ''r1'')
     [example_sys, example_sys\<lparr>sys_store := snd (Cancel no_request_faults 5 ''r1'' example_store)\<rparr>] \<le> 1"
  using request_decided_once [OF example_sys_ok, of "[example_sys\<lparr>sys_store := snd (Cancel no_request_faults 5 ''r1'' example_store)\<rparr>]" "''r1''"]
    example_cancel_step by simp

theorem requests_ok_reachable_witness:
  "requests_ok (example_sys\<lparr>sys_store := snd (Cancel no_request_faults 5 ''r1'' example_store)\<rparr>)"
  by (rule requests_ok_reachable [OF example_sys_ok]) (use example_cancel_step in blast)

text \<open>
  the decision reaches the agent that asked. A fault-free response by someone else, with an
  action that fits the kind, to an open request raised by an agent succeeds, stores the
  decision with its responder, announces it once on the requester's workspace, and enqueues
  exactly one turn for the requester; a second response is told the request is gone and
  changes and sends nothing.
\<close>

theorem Respond_delivers:
  assumes "unique_key req_id (rs_requests st)" and "r \<in> set (rs_requests st)"
    and "req_status r = ''pending'' \<or> req_status r = ''info_requested''"
    and "req_requester_type r = ''agent''" and "req_requester_id r \<noteq> []"
    and "rt = ''user'' \<or> rt = ''agent''" and "ri \<noteq> []"
    and "\<not> (rt = ''agent'' \<and> ri = req_requester_id r)"
    and "actionToStatus (req_kind r) action = Inr action"
    and "actionToStatus (req_kind r) action2 = Inr action2"
    and "Respond no_request_faults now (req_id r) action rt ri st = (res, st')"
  shows "res = Inr (r\<lparr>req_status := action, req_responder_type := Some rt, req_responder_id := Some ri\<rparr>)
    \<and> sql_find (\<lambda>x. req_id x = req_id r) (rs_requests st') =
        Some (r\<lparr>req_status := action, req_responder_type := Some rt, req_responder_id := Some ri,
               req_responded_at := Some now, req_updated_at := now\<rparr>)
    \<and> rs_events st' = rs_events st @ [EvResponded (req_requester_id r) (req_id r) action rt ri (req_title r) (req_kind r)]
    \<and> (\<exists>txt. rs_notes st' = rs_notes st @
         [\<lparr>rn_target = req_requester_id r, rn_key = ''request-responded:'' @ req_id r, rn_text = txt\<rparr>])
    \<and> Respond no_request_faults now2 (req_id r) action2 rt ri st' = (Inl ErrRequestNotFound, st')"
proof -
  let ?c = "\<lparr>rc_id = req_id r, rc_status = action, rc_type = rt, rc_responder = ri, rc_req = r\<rparr>"
  have f: "sql_find (\<lambda>x. req_id x = req_id r) (rs_requests st) = Some r" by (rule sql_find_key [OF assms(1,2)])
  have op: "open_row (req_id r) r" using assms(3) by (auto simp: open_row_def)
  have read: "respond_read False (req_id r) action rt ri st = Inr ?c"
    using assms(4-9) f by (auto simp: respond_read_def Get_def validParty_def)
  have "sql_affected (open_row (req_id r)) (rs_requests st) \<noteq> 0"
    using op assms(2) by (auto simp: sql_affected_zero)
  with read have out: "res = Inr (r\<lparr>req_status := action, req_responder_type := Some rt, req_responder_id := Some ri\<rparr>)"
      "rs_requests st' = sql_update (open_row (req_id r)) (decide_row now ?c) (rs_requests st)"
      "rs_events st' = rs_events st @ [EvResponded (req_requester_id r) (req_id r) action rt ri (req_title r) (req_kind r)]"
      "\<exists>txt. rs_notes st' = rs_notes st @
         [\<lparr>rn_target = req_requester_id r, rn_key = ''request-responded:'' @ req_id r, rn_text = txt\<rparr>]"
    using assms(4,5,8,11)
    by (auto simp: Respond_def no_request_faults_def respond_write_def Let_def broadcastTarget_def broadcast_def
        notifyRequesterAgent_def)
  have f': "sql_find (\<lambda>x. req_id x = req_id r) (rs_requests st') = Some (decide_row now ?c r)"
    unfolding out(2) by (subst sql_find_sql_update) (simp_all add: f op)
  have fin: "action \<in> {''done'', ''rejected'', ''approved''}"
    using assms(9) by (auto simp: actionToStatus_def split: if_splits)
  have read2: "respond_read False (req_id r) action2 rt ri st' =
      Inr \<lparr>rc_id = req_id r, rc_status = action2, rc_type = rt, rc_responder = ri, rc_req = decide_row now ?c r\<rparr>"
    using assms(4-8,10) f' by (auto simp: respond_read_def Get_def validParty_def)
  have uq': "unique_key req_id (rs_requests st')" unfolding out(2) using assms(1) by (simp add: unique_key_sql_update)
  have none: "\<not> open_row (req_id r) x" if "x \<in> set (rs_requests st')" for x
  proof
    assume o: "open_row (req_id r) x"
    then have "req_id x = req_id r" by (simp add: open_row_def)
    with sql_find_key [OF uq' that] f' have "x = decide_row now ?c r" by simp
    with o fin show False by (auto simp: open_row_def)
  qed
  then have "sql_affected (open_row (req_id r)) (rs_requests st') = 0"
    "sql_update (open_row (req_id r)) g (rs_requests st') = rs_requests st'" for g
    by (auto simp: sql_affected_zero intro: sql_update_none)
  with read2 have "Respond no_request_faults now2 (req_id r) action2 rt ri st' = (Inl ErrRequestNotFound, st')"
    by (simp add: Respond_def no_request_faults_def respond_write_def Let_def)
  with out f' show ?thesis by (simp add: decide_row_def)
qed

theorem Respond_delivers_witness:
  "fst (Respond no_request_faults 9 ''r1'' ''approved'' ''user'' ''ann'' example_store) =
     Inr (example_request\<lparr>req_status := ''approved'', req_responder_type := Some ''user'', req_responder_id := Some ''ann''\<rparr>)"
proof -
  obtain res st' where r: "Respond no_request_faults 9 (req_id example_request) ''approved'' ''user'' ''ann'' example_store = (res, st')"
    by (metis surj_pair)
  from Respond_delivers [OF _ _ _ _ _ _ _ _ _ _ r, of "''rejected''" 10] r show ?thesis
    by (simp add: example_store_def example_request_def unique_key_def actionToStatus_def)
qed

end
