(* ===== verification/Delegation_Ledger.thy ===== *)
theory Delegation_Ledger
  imports Textutil
begin

text \<open>
  The delegation ledger (\<^verbatim>\<open>internal/handlers/delegation_ledger.go\<close>).

  The \<open>delegations\<close> table is the list of its rows. A database call that returns an error is
  a fault flag of the operation that makes it. \<open>SetStatus\<close> is written as the two halves
  the code has, \<open>setStatus_read\<close> (the \<^verbatim>\<open>SELECT\<close> and the guards) and \<open>setStatus_write\<close>
  (the compare-and-swap \<^verbatim>\<open>UPDATE\<close>), so that any interleaving of concurrent callers can be
  stated: \<open>ledger_step\<close> is one database round trip of one of them. The forward-only rule
  and the single-reply rule are proved for every such run.
\<close>

subsection \<open>Data\<close>

record delegation_row =
  dl_id :: string
  dl_caller :: string
  dl_callee :: string
  dl_task_preview :: string
  dl_status :: string
  dl_last_heartbeat :: "time option"
  dl_deadline :: time
  dl_result_preview :: "string option"
  dl_error_detail :: "string option"
  dl_updated_at :: time
  dl_idempotency_key :: "string option"

type_synonym ledger = "delegation_row list"

definition previewCap :: int where "previewCap = 4096"

record InsertOpts =
  io_DelegationID :: string
  io_CallerID :: string
  io_CalleeID :: string
  io_TaskPreview :: string
  io_IdempotencyKey :: string
  io_Deadline :: "time option"

datatype insert_log = InsertSkipped | InsertFailed | InsertExecuted

text \<open>
  \<^verbatim>\<open>INSERT .. ON CONFLICT (delegation_id) DO NOTHING\<close>: a row with that id makes the
  statement a no-op; a clash on the other unique index, \<open>(caller_id, idempotency_key)\<close>, is
  not the arbiter of the clause and raises a unique violation.
\<close>

definition Insert :: "bool \<Rightarrow> time \<Rightarrow> InsertOpts \<Rightarrow> ledger \<Rightarrow> insert_log \<times> ledger" where
  "Insert fails now opts tbl =
    (if io_DelegationID opts = [] \<or> io_CallerID opts = [] \<or> io_CalleeID opts = []
     then (InsertSkipped, tbl)
     else
       let deadline = (case io_Deadline opts of None \<Rightarrow> now + 6 * hour | Some d \<Rightarrow> d);
           idemArg = nullif_empty (io_IdempotencyKey opts)
       in if fails then (InsertFailed, tbl)
          else if \<exists>r \<in> set tbl. dl_id r = io_DelegationID opts then (InsertExecuted, tbl)
          else if idemArg \<noteq> None
               \<and> (\<exists>r \<in> set tbl. dl_caller r = io_CallerID opts \<and> dl_idempotency_key r = idemArg)
               then (InsertFailed, tbl)
          else (InsertExecuted, tbl @
            [\<lparr>dl_id = io_DelegationID opts, dl_caller = io_CallerID opts, dl_callee = io_CalleeID opts,
              dl_task_preview = TruncateBytesNoMarker (io_TaskPreview opts) previewCap,
              dl_status = ''queued'', dl_last_heartbeat = None, dl_deadline = deadline,
              dl_result_preview = None, dl_error_detail = None, dl_updated_at = now,
              dl_idempotency_key = idemArg\<rparr>]))"

subsection \<open>The status vocabulary\<close>

definition DelegationTerminalStates :: "string list" where
  "DelegationTerminalStates = [''completed'', ''failed'']"

definition DelegationInFlightStates :: "string list" where
  "DelegationInFlightStates = [''queued'', ''dispatched'', ''in_progress'', ''stuck'']"

definition DelegationAllStates :: "string list" where
  "DelegationAllStates = DelegationInFlightStates @ DelegationTerminalStates"

definition IsValidDelegationStatus :: "string \<Rightarrow> bool" where
  "IsValidDelegationStatus s = list_ex (\<lambda>v. v = s) DelegationAllStates"

definition IsTerminalDelegationStatus :: "string \<Rightarrow> bool" where
  "IsTerminalDelegationStatus s = list_ex (\<lambda>v. v = s) DelegationTerminalStates"

definition sqlTerminalStates :: string where
  "sqlTerminalStates = join_str '','' (map (\<lambda>s. [char_of (39 :: nat)] @ s @ [char_of (39 :: nat)]) DelegationTerminalStates)"

definition sqlInFlightStates :: string where
  "sqlInFlightStates = join_str '','' (map (\<lambda>s. [char_of (39 :: nat)] @ s @ [char_of (39 :: nat)]) DelegationInFlightStates)"

text \<open>\<open>status IN (sqlInFlightStates())\<close> as a predicate on rows.\<close>

definition in_flight :: "delegation_row \<Rightarrow> bool" where
  "in_flight r = (dl_status r \<in> set DelegationInFlightStates)"

definition allowedTransitions :: "(string \<times> string list) list" where
  "allowedTransitions =
    [(''queued'', [''dispatched'', ''in_progress'', ''completed'', ''failed'', ''stuck'']),
     (''stuck'', [''completed'', ''failed'']),
     (''dispatched'', [''in_progress'', ''completed'', ''failed'', ''stuck'']),
     (''in_progress'', [''completed'', ''failed'', ''stuck''])]"

text \<open>\<open>next, ok := allowedTransitions[current]; ok && next[status]\<close>.\<close>

definition transition_allowed :: "string \<Rightarrow> string \<Rightarrow> bool" where
  "transition_allowed current status =
    (case map_of allowedTransitions current of None \<Rightarrow> False | Some nxt \<Rightarrow> status \<in> set nxt)"

lemmas ledger_vocab [vocab_simps] =
  DelegationTerminalStates_def DelegationInFlightStates_def DelegationAllStates_def
  IsValidDelegationStatus_def IsTerminalDelegationStatus_def allowedTransitions_def
  transition_allowed_def

subsection \<open>Reply authority and \<open>SetStatus\<close>\<close>

datatype ReplyAuthority = ReplyNotMine | ReplyMine | ReplyUnarbitrated | ReplyDeferred

definition mayReply :: "ReplyAuthority \<Rightarrow> bool" where
  "mayReply a = (a = ReplyMine \<or> a = ReplyUnarbitrated)"

datatype ledger_error = ErrMissingField | ErrDatabase | ErrInvalidTransition

record status_call =
  sc_id :: string
  sc_status :: string
  sc_error :: string
  sc_result :: string

record ledger_faults =
  select_fails :: bool
  update_fails :: bool
  affected_fails :: bool

definition no_faults :: ledger_faults where
  "no_faults = \<lparr>select_fails = False, update_fails = False, affected_fails = False\<rparr>"

text \<open>
  What \<open>SetStatus\<close> knows after its \<^verbatim>\<open>SELECT\<close>: it is finished, or it goes on to fill in the
  detail columns of a same-status replay, or it tries to swap the observed status.
\<close>

datatype read_outcome =
    Finished ReplyAuthority "ledger_error option"
  | Backfill
  | Swap string

definition setStatus_read :: "ledger_faults \<Rightarrow> status_call \<Rightarrow> ledger \<Rightarrow> read_outcome" where
  "setStatus_read fl c tbl =
    (if sc_id c = [] \<or> sc_status c = [] then Finished ReplyNotMine (Some ErrMissingField)
     else if select_fails fl then Finished ReplyDeferred (Some ErrDatabase)
     else case sql_find (\<lambda>r. dl_id r = sc_id c) tbl of
         None \<Rightarrow> Finished ReplyUnarbitrated None
       | Some r \<Rightarrow>
          if dl_status r = sc_status c then
            (if sc_error c = [] \<and> sc_result c = [] then Finished ReplyNotMine None else Backfill)
          else if \<not> transition_allowed (dl_status r) (sc_status c)
            then Finished ReplyNotMine (Some ErrInvalidTransition)
          else Swap (dl_status r))"

definition backfill_row :: "time \<Rightarrow> status_call \<Rightarrow> delegation_row \<Rightarrow> delegation_row" where
  "backfill_row now c r =
    (let e = nullif_empty (sc_error c);
         p = nullif_empty (TruncateBytesNoMarker (sc_result c) previewCap)
     in r\<lparr>dl_error_detail := coalesce (dl_error_detail r) e,
          dl_result_preview := coalesce (dl_result_preview r) p,
          dl_updated_at := (if (dl_error_detail r = None \<and> e \<noteq> None)
                               \<or> (dl_result_preview r = None \<and> p \<noteq> None)
                            then now else dl_updated_at r)\<rparr>)"

definition swap_row :: "time \<Rightarrow> status_call \<Rightarrow> delegation_row \<Rightarrow> delegation_row" where
  "swap_row now c r =
    r\<lparr>dl_status := sc_status c,
      dl_error_detail := nullif_empty (sc_error c),
      dl_result_preview := nullif_empty (TruncateBytesNoMarker (sc_result c) previewCap),
      dl_updated_at := now\<rparr>"

definition setStatus_write ::
  "ledger_faults \<Rightarrow> time \<Rightarrow> status_call \<Rightarrow> read_outcome \<Rightarrow> ledger
     \<Rightarrow> (ReplyAuthority \<times> ledger_error option) \<times> ledger" where
  "setStatus_write fl now c out tbl =
    (case out of
       Finished a e \<Rightarrow> ((a, e), tbl)
     | Backfill \<Rightarrow>
        if update_fails fl then ((ReplyNotMine, Some ErrDatabase), tbl)
        else ((ReplyNotMine, None), sql_update (\<lambda>r. dl_id r = sc_id c) (backfill_row now c) tbl)
     | Swap current \<Rightarrow>
        if update_fails fl then ((ReplyDeferred, Some ErrDatabase), tbl)
        else
          let hit = (\<lambda>r. dl_id r = sc_id c \<and> dl_status r = current);
              rows = sql_affected hit tbl;
              tbl' = sql_update hit (swap_row now c) tbl
          in if affected_fails fl then ((ReplyUnarbitrated, Some ErrDatabase), tbl')
             else if rows = 1 then ((ReplyMine, None), tbl')
             else ((ReplyNotMine, None), tbl'))"

definition SetStatus ::
  "ledger_faults \<Rightarrow> time \<Rightarrow> status_call \<Rightarrow> ledger \<Rightarrow> (ReplyAuthority \<times> ledger_error option) \<times> ledger" where
  "SetStatus fl now c tbl = setStatus_write fl now c (setStatus_read fl c tbl) tbl"

definition Heartbeat :: "bool \<Rightarrow> time \<Rightarrow> string \<Rightarrow> ledger \<Rightarrow> ledger" where
  "Heartbeat fails now delegationID tbl =
    (if delegationID = [] \<or> fails then tbl
     else sql_update (\<lambda>r. dl_id r = delegationID \<and> \<not> dl_status r \<in> set DelegationTerminalStates)
            (\<lambda>r. r\<lparr>dl_last_heartbeat := Some now, dl_updated_at := now\<rparr>) tbl)"

lemmas ledger_ops = SetStatus_def setStatus_read_def setStatus_write_def Let_def

subsection \<open>Concurrent callers\<close>

datatype call_phase =
    Idle
  | Pending status_call read_outcome
  | Returned status_call ReplyAuthority

record ledger_sys =
  ls_table :: ledger
  ls_calls :: "nat \<Rightarrow> call_phase"

inductive ledger_step :: "ledger_sys \<Rightarrow> ledger_sys \<Rightarrow> bool" where
  call_read: "ls_calls s i = Idle \<Longrightarrow>
    ledger_step s (s\<lparr>ls_calls := (ls_calls s)(i := Pending c (setStatus_read fl c (ls_table s)))\<rparr>)"
| call_write: "ls_calls s i = Pending c out \<Longrightarrow>
    setStatus_write fl now c out (ls_table s) = ((a, e), tbl') \<Longrightarrow>
    ledger_step s (s\<lparr>ls_table := tbl', ls_calls := (ls_calls s)(i := Returned c a)\<rparr>)"
| call_insert: "Insert fails now opts (ls_table s) = (l, tbl') \<Longrightarrow>
    ledger_step s (s\<lparr>ls_table := tbl'\<rparr>)"
| call_heartbeat: "ledger_step s (s\<lparr>ls_table := Heartbeat fails now d (ls_table s)\<rparr>)"

definition ledger_status :: "ledger_sys \<Rightarrow> string \<Rightarrow> string option" where
  "ledger_status s d = map_option dl_status (sql_find (\<lambda>r. dl_id r = d) (ls_table s))"

text \<open>
  The well-formed systems: delegation ids are a primary key, a pending swap was granted by
  the transition table when it was read, and no call owns the reply before it has written.
\<close>

definition ledger_wf :: "ledger_sys \<Rightarrow> bool" where
  "ledger_wf s \<longleftrightarrow> unique_key dl_id (ls_table s) \<and>
    (\<forall>i c cur. ls_calls s i = Pending c (Swap cur) \<longrightarrow> transition_allowed cur (sc_status c)) \<and>
    (\<forall>i c a e. ls_calls s i = Pending c (Finished a e) \<longrightarrow> a \<noteq> ReplyMine)"

text \<open>
  One caller's \<open>SetStatus\<close> of delegation \<open>d\<close> to a terminal status returns \<open>ReplyMine\<close>, i.e.
  that caller owns the reply.
\<close>

definition ledger_wins :: "ledger_sys \<Rightarrow> ledger_sys \<Rightarrow> string \<Rightarrow> bool" where
  "ledger_wins s s' d \<longleftrightarrow> ledger_step s s' \<and>
    (\<exists>i c out. ls_calls s i = Pending c out \<and> ls_calls s' i = Returned c ReplyMine
       \<and> sc_id c = d \<and> IsTerminalDelegationStatus (sc_status c))"


inductive_cases ledger_stepE: "ledger_step s s'"

subsection \<open>Vocabulary facts\<close>

lemma terminal_no_transition: "IsTerminalDelegationStatus v \<Longrightarrow> \<not> transition_allowed v w"
  by (auto simp: vocab_simps)

lemma transition_closed: "transition_allowed v w \<Longrightarrow> w \<in> set DelegationAllStates"
  by (auto simp: vocab_simps split: if_splits)

lemma transition_not_queued: "transition_allowed v w \<Longrightarrow> w \<noteq> ''queued''"
  by (auto simp: vocab_simps split: if_splits)

lemma valid_iff: "IsValidDelegationStatus v \<longleftrightarrow> v \<in> set DelegationAllStates"
  by (auto simp: vocab_simps)

lemma terminal_iff: "IsTerminalDelegationStatus v \<longleftrightarrow> v \<in> set DelegationTerminalStates"
  by (auto simp: vocab_simps)

lemma in_flight_allows:
  "v \<in> set DelegationInFlightStates \<Longrightarrow> IsTerminalDelegationStatus w \<Longrightarrow> transition_allowed v w"
  by (auto simp: vocab_simps)

text \<open>
  the status vocabulary is one partition. The in-flight and the terminal states are
  disjoint and together are the valid ones; a terminal state has no outgoing transition, every
  in-flight state can move to either terminal state, no transition leaves the vocabulary, and
  nothing returns to the initial state.
\<close>

theorem delegation_vocabulary:
  "set DelegationInFlightStates \<inter> set DelegationTerminalStates = {}
   \<and> (\<forall>v. IsValidDelegationStatus v \<longleftrightarrow>
        v \<in> set DelegationInFlightStates \<union> set DelegationTerminalStates)
   \<and> (\<forall>v w. \<not> (IsTerminalDelegationStatus v \<and> transition_allowed v w))
   \<and> (\<forall>v w. transition_allowed v w = (transition_allowed v w \<and> IsValidDelegationStatus w \<and> w \<noteq> ''queued''))
   \<and> list_all (\<lambda>v. list_all (transition_allowed v) DelegationTerminalStates) DelegationInFlightStates"
proof (intro conjI allI)
  show "set DelegationInFlightStates \<inter> set DelegationTerminalStates = {}"
    and "list_all (\<lambda>v. list_all (transition_allowed v) DelegationTerminalStates) DelegationInFlightStates"
    by (simp_all add: vocab_simps)
  fix v w
  show "IsValidDelegationStatus v \<longleftrightarrow> v \<in> set DelegationInFlightStates \<union> set DelegationTerminalStates"
    by (auto simp: vocab_simps)
  show "\<not> (IsTerminalDelegationStatus v \<and> transition_allowed v w)"
    by (auto dest: terminal_no_transition)
  show "transition_allowed v w = (transition_allowed v w \<and> IsValidDelegationStatus w \<and> w \<noteq> ''queued'')"
    using transition_closed transition_not_queued valid_iff by blast
qed

subsection \<open>The preview column\<close>

interpretation preview: preview_cap "\<lambda>s. TruncateBytesNoMarker s previewCap" 4096
proof unfold_locales
  show "length (TruncateBytesNoMarker s previewCap) \<le> 4096" for s
    using TruncateBytesNoMarker_length [of previewCap s] by (simp add: previewCap_def)
  show "length s \<le> 4096 \<Longrightarrow> TruncateBytesNoMarker s previewCap = s" for s
    by (simp add: TruncateBytesNoMarker_def previewCap_def)
qed (rule TruncateBytesNoMarker_prefix, erule TruncateBytesNoMarker_valid)

subsection \<open>The row invariant\<close>

definition row_ok :: "delegation_row \<Rightarrow> bool" where
  "row_ok r \<longleftrightarrow> dl_id r \<noteq> [] \<and> dl_status r \<in> set DelegationAllStates
    \<and> length (dl_task_preview r) \<le> 4096
    \<and> (case dl_result_preview r of None \<Rightarrow> True | Some p \<Rightarrow> p \<noteq> [] \<and> length p \<le> 4096)"

text \<open>Both unique indexes of the table.\<close>

definition idem_unique :: "ledger \<Rightarrow> bool" where
  "idem_unique tbl \<longleftrightarrow> (\<forall>r \<in> set tbl. \<forall>r' \<in> set tbl. dl_caller r = dl_caller r'
     \<and> dl_idempotency_key r = dl_idempotency_key r' \<and> dl_idempotency_key r \<noteq> None
     \<longrightarrow> dl_id r = dl_id r')"

definition ledger_ok :: "ledger \<Rightarrow> bool" where
  "ledger_ok tbl \<longleftrightarrow> unique_key dl_id tbl \<and> list_all row_ok tbl \<and> idem_unique tbl"

text \<open>
  An update that keeps the keys and the row invariant keeps the table invariant: the lemma
  behind every operation that is an \<^verbatim>\<open>UPDATE\<close>.
\<close>

lemma ledger_ok_update:
  assumes "ledger_ok tbl"
    and keep: "\<And>r. r \<in> set tbl \<Longrightarrow> P r \<Longrightarrow> row_ok r \<Longrightarrow> row_ok (f r)"
    and keys: "\<And>r. dl_id (f r) = dl_id r \<and> dl_caller (f r) = dl_caller r
                 \<and> dl_idempotency_key (f r) = dl_idempotency_key r"
  shows "ledger_ok (sql_update P f tbl)"
proof -
  have "list_all row_ok (sql_update P f tbl)"
    using assms(1) keep by (auto simp: ledger_ok_def list_all_iff set_sql_update)
  moreover have "unique_key dl_id (sql_update P f tbl)"
    using assms(1) keys by (simp add: ledger_ok_def unique_key_sql_update)
  moreover have "dl_id x = dl_id y"
    if "x \<in> set (sql_update P f tbl)" "y \<in> set (sql_update P f tbl)"
      and xy: "dl_caller x = dl_caller y" "dl_idempotency_key x = dl_idempotency_key y"
        "dl_idempotency_key x \<noteq> None" for x y
  proof -
    from that(1,2) obtain r r' where r: "r \<in> set tbl" "r' \<in> set tbl"
      and eq: "x = (if P r then f r else r)" "y = (if P r' then f r' else r')"
      by (auto simp: set_sql_update)
    have k: "dl_id x = dl_id r" "dl_caller x = dl_caller r" "dl_idempotency_key x = dl_idempotency_key r"
      "dl_id y = dl_id r'" "dl_caller y = dl_caller r'" "dl_idempotency_key y = dl_idempotency_key r'"
      using keys [of r] keys [of r'] eq by simp_all
    with assms(1) r xy show ?thesis unfolding ledger_ok_def idem_unique_def by metis
  qed
  ultimately show ?thesis unfolding ledger_ok_def idem_unique_def by blast
qed

lemma backfill_row_keys [simp]:
  "dl_id (backfill_row now c r) = dl_id r"
  "dl_caller (backfill_row now c r) = dl_caller r"
  "dl_idempotency_key (backfill_row now c r) = dl_idempotency_key r"
  "dl_status (backfill_row now c r) = dl_status r"
  "dl_deadline (backfill_row now c r) = dl_deadline r"
  by (simp_all add: backfill_row_def Let_def)

lemma swap_row_keys [simp]:
  "dl_id (swap_row now c r) = dl_id r"
  "dl_caller (swap_row now c r) = dl_caller r"
  "dl_idempotency_key (swap_row now c r) = dl_idempotency_key r"
  "dl_status (swap_row now c r) = sc_status c"
  "dl_deadline (swap_row now c r) = dl_deadline r"
  by (simp_all add: swap_row_def)

lemma stored_preview_ok:
  "(case nullif_empty (TruncateBytesNoMarker s previewCap) of None \<Rightarrow> True
    | Some p \<Rightarrow> p \<noteq> [] \<and> length p \<le> 4096)"
  using preview.stored_le [of s] by (auto simp: nullif_empty_def split: option.splits if_splits)

lemma backfill_row_ok: "row_ok r \<Longrightarrow> row_ok (backfill_row now c r)"
  using stored_preview_ok [of "sc_result c"]
  by (auto simp: row_ok_def backfill_row_def Let_def coalesce_def split: option.splits)

lemma swap_row_ok: "row_ok r \<Longrightarrow> sc_status c \<in> set DelegationAllStates \<Longrightarrow> row_ok (swap_row now c r)"
  using stored_preview_ok [of "sc_result c"] by (simp add: row_ok_def swap_row_def)

lemma Heartbeat_ok: "ledger_ok tbl \<Longrightarrow> ledger_ok (Heartbeat fails now d tbl)"
proof (cases "d = [] \<or> fails")
  case False
  assume "ledger_ok tbl"
  then have "ledger_ok (sql_update P (\<lambda>r. r\<lparr>dl_last_heartbeat := Some now, dl_updated_at := now\<rparr>) tbl)" for P
    by (rule ledger_ok_update) (simp_all add: row_ok_def)
  with False show ?thesis by (simp add: Heartbeat_def)
qed (auto simp: Heartbeat_def)

text \<open>An insert leaves the table alone or appends one fresh, well-formed, queued row.\<close>

lemma Insert_cases:
  obtains (same) "snd (Insert fails now opts tbl) = tbl"
  | (fresh) r where "Insert fails now opts tbl = (InsertExecuted, tbl @ [r])"
      "row_ok r" "dl_status r = ''queued''" "dl_id r = io_DelegationID opts"
      "dl_id r \<notin> dl_id ` set tbl"
      "dl_idempotency_key r \<noteq> None \<Longrightarrow>
         \<forall>r' \<in> set tbl. dl_caller r' = dl_caller r \<longrightarrow> dl_idempotency_key r' \<noteq> dl_idempotency_key r"
proof -
  define r where "r = \<lparr>dl_id = io_DelegationID opts, dl_caller = io_CallerID opts,
    dl_callee = io_CalleeID opts,
    dl_task_preview = TruncateBytesNoMarker (io_TaskPreview opts) previewCap,
    dl_status = ''queued'', dl_last_heartbeat = None,
    dl_deadline = (case io_Deadline opts of None \<Rightarrow> now + 6 * hour | Some d \<Rightarrow> d),
    dl_result_preview = None, dl_error_detail = None, dl_updated_at = now,
    dl_idempotency_key = nullif_empty (io_IdempotencyKey opts)\<rparr>"
  have sel: "dl_id r = io_DelegationID opts" "dl_caller r = io_CallerID opts"
    "dl_idempotency_key r = nullif_empty (io_IdempotencyKey opts)" "dl_status r = ''queued''"
    by (simp_all add: r_def)
  have ok: "row_ok r" if "io_DelegationID opts \<noteq> []"
    using that preview.trunc_le [of "io_TaskPreview opts"]
    by (simp add: row_ok_def r_def DelegationAllStates_def DelegationInFlightStates_def)
  show thesis
  proof (cases "snd (Insert fails now opts tbl) = tbl")
    case True
    then show thesis by (rule same)
  next
    case False
    then have new: "Insert fails now opts tbl = (InsertExecuted, tbl @ [r])"
      and guards: "io_DelegationID opts \<noteq> []" "\<not> (\<exists>x \<in> set tbl. dl_id x = io_DelegationID opts)"
        "\<not> (nullif_empty (io_IdempotencyKey opts) \<noteq> None \<and> (\<exists>x \<in> set tbl. dl_caller x = io_CallerID opts
            \<and> dl_idempotency_key x = nullif_empty (io_IdempotencyKey opts)))"
      unfolding Insert_def Let_def r_def [symmetric] by (simp_all only: split: if_splits) simp_all
    show thesis
      by (rule fresh [OF new]) (use ok guards sel in auto)
  qed
qed

lemma Insert_ok:
  assumes "ledger_ok tbl"
  shows "ledger_ok (snd (Insert fails now opts tbl))"
proof (cases rule: Insert_cases [of fails now opts tbl])
  case same
  with assms show ?thesis by simp
next
  case (fresh r)
  have "dl_id x = dl_id y" if "x \<in> set (tbl @ [r])" "y \<in> set (tbl @ [r])"
    and k: "dl_caller x = dl_caller y" "dl_idempotency_key x = dl_idempotency_key y"
      "dl_idempotency_key x \<noteq> None" for x y
  proof -
    have old: "dl_id x = dl_id y" if "x \<in> set tbl" "y \<in> set tbl"
      using assms that k unfolding ledger_ok_def idem_unique_def by blast
    from that(1,2) consider "x \<in> set tbl" "y \<in> set tbl" | "x = r" "y = r"
      | "x = r" "y \<in> set tbl" | "x \<in> set tbl" "y = r" by auto
    then show ?thesis using old fresh(6) k by cases auto
  qed
  then have "idem_unique (tbl @ [r])" unfolding idem_unique_def by blast
  with assms fresh show ?thesis by (simp add: ledger_ok_def unique_key_def)
qed

lemma setStatus_write_ok:
  assumes "ledger_ok tbl"
    and "\<And>cur. out = Swap cur \<Longrightarrow> sc_status c \<in> set DelegationAllStates"
  shows "ledger_ok (snd (setStatus_write fl now c out tbl))"
proof (cases out)
  case (Swap cur)
  have "ledger_ok (sql_update P (swap_row now c) tbl)" for P
    using assms(1) by (rule ledger_ok_update) (simp_all add: swap_row_ok assms(2) [OF Swap])
  with Swap assms(1) show ?thesis by (simp add: setStatus_write_def Let_def)
next
  case Backfill
  have "ledger_ok (sql_update P (backfill_row now c) tbl)" for P
    using assms(1) by (rule ledger_ok_update) (simp_all add: backfill_row_ok)
  with Backfill assms(1) show ?thesis by (simp add: setStatus_write_def)
qed (simp add: setStatus_write_def assms(1))

lemma setStatus_read_swap:
  "setStatus_read fl c tbl = Swap cur \<Longrightarrow> transition_allowed cur (sc_status c)"
  by (auto simp: setStatus_read_def split: if_splits option.splits)

lemma setStatus_read_not_mine: "setStatus_read fl c tbl = Finished a e \<Longrightarrow> a \<noteq> ReplyMine"
  by (auto simp: setStatus_read_def split: if_splits option.splits)

text \<open>
  the ledger invariant is kept by every operation, faults included: unique delegation
  ids, at most one row per caller and idempotency key, only statuses the schema accepts, and
  preview columns of at most 4096 bytes.
\<close>

theorem ledger_ok_preserved:
  assumes "ledger_ok tbl"
  shows "ledger_ok (snd (Insert fails now opts tbl))
    \<and> ledger_ok (snd (SetStatus fl now c tbl))
    \<and> ledger_ok (Heartbeat fails now d tbl)"
proof (intro conjI)
  show "ledger_ok (snd (SetStatus fl now c tbl))"
    unfolding SetStatus_def using assms
    by (rule setStatus_write_ok) (blast dest: setStatus_read_swap transition_closed)
qed (rule Insert_ok [OF assms], rule Heartbeat_ok [OF assms])

definition example_opts :: InsertOpts where
  "example_opts = \<lparr>io_DelegationID = ''d1'', io_CallerID = ''pm'', io_CalleeID = ''eng'',
     io_TaskPreview = ''do it'', io_IdempotencyKey = ''k'', io_Deadline = Some 100\<rparr>"

definition example_row :: delegation_row where
  "example_row = \<lparr>dl_id = ''d1'', dl_caller = ''pm'', dl_callee = ''eng'',
     dl_task_preview = ''do it'', dl_status = ''queued'', dl_last_heartbeat = None,
     dl_deadline = 100, dl_result_preview = None, dl_error_detail = None, dl_updated_at = 0,
     dl_idempotency_key = Some ''k''\<rparr>"

lemma Insert_example: "Insert False 0 example_opts [] = (InsertExecuted, [example_row])"
  by (simp add: Insert_def example_opts_def example_row_def TruncateBytesNoMarker_def previewCap_def)

theorem ledger_ok_preserved_witness: "ledger_ok [] \<and> ledger_ok [example_row]"
proof -
  have e: "ledger_ok []" by (simp add: ledger_ok_def unique_key_def idem_unique_def)
  from ledger_ok_preserved [OF e] have "ledger_ok (snd (Insert False 0 example_opts []))" by blast
  with e show ?thesis by (simp add: Insert_example)
qed


subsection \<open>Forward-only statuses and the single reply\<close>

lemma ledger_status_update:
  assumes "\<And>r. P r \<Longrightarrow> dl_id (f r) = dl_id r"
  shows "ledger_status (s\<lparr>ls_table := sql_update P f tbl\<rparr>) d =
    map_option (\<lambda>r. if P r then dl_status (f r) else dl_status r) (sql_find (\<lambda>r. dl_id r = d) tbl)"
  using sql_find_sql_update [of P dl_id f d tbl] assms
  by (cases "sql_find (\<lambda>r. dl_id r = d) tbl") (auto simp: ledger_status_def)

lemma ledger_status_calls [simp]: "ledger_status (s\<lparr>ls_calls := f\<rparr>) d = ledger_status s d"
  by (simp add: ledger_status_def)

text \<open>The write half never touches a row whose status is final.\<close>

lemma write_keeps_terminal:
  assumes "\<And>cur. out = Swap cur \<Longrightarrow> transition_allowed cur (sc_status c)"
    and "ledger_status s d = Some v" and "IsTerminalDelegationStatus v"
    and "setStatus_write fl now c out (ls_table s) = (res, tbl')"
  shows "ledger_status (s\<lparr>ls_table := tbl'\<rparr>) d = Some v"
proof (cases out)
  case (Finished a e)
  with assms show ?thesis by (simp add: setStatus_write_def ledger_status_def)
next
  case Backfill
  with assms(2,4) show ?thesis
    by (auto simp: setStatus_write_def ledger_status_update split: if_splits)
      (auto simp: ledger_status_def)
next
  case (Swap cur)
  with assms(1,3) have "v \<noteq> cur" using terminal_no_transition by blast
  with Swap assms(2,4) show ?thesis
    by (auto simp: setStatus_write_def Let_def ledger_status_update split: if_splits)
      (auto simp: ledger_status_def)
qed

lemma insert_keeps_status:
  assumes "ledger_status s d = Some v" and "Insert fails now opts (ls_table s) = (l, tbl')"
  shows "ledger_status (s\<lparr>ls_table := tbl'\<rparr>) d = Some v"
  using assms
  by (cases rule: Insert_cases [of fails now opts "ls_table s"])
    (auto simp: ledger_status_def sql_find_append)

lemma heartbeat_keeps_status:
  "ledger_status s d = Some v \<Longrightarrow> ledger_status (s\<lparr>ls_table := Heartbeat fails now k (ls_table s)\<rparr>) d = Some v"
  by (auto simp: Heartbeat_def ledger_status_update) (auto simp: ledger_status_def)

lemma ledger_terminal_kept:
  assumes "ledger_wf s" and "ledger_step s s'"
    and "ledger_status s d = Some v" and "IsTerminalDelegationStatus v"
  shows "ledger_status s' d = Some v"
  using assms(2)
proof (cases rule: ledger_step.cases)
  case (call_write i c out fl now a e tbl')
  have "ledger_status (s\<lparr>ls_table := tbl'\<rparr>) d = Some v"
    using assms(1) call_write(2) by (intro write_keeps_terminal [OF _ assms(3,4) call_write(3)])
      (auto simp: ledger_wf_def)
  then show ?thesis using call_write(1) by (simp add: ledger_status_def)
qed (use assms(3) insert_keeps_status heartbeat_keeps_status in auto)

lemma unique_key_write:
  "unique_key dl_id (snd (setStatus_write fl now c out tbl)) = unique_key dl_id tbl"
  by (auto simp: setStatus_write_def Let_def unique_key_sql_update split: read_outcome.splits)

lemma unique_key_Insert:
  "unique_key dl_id tbl \<Longrightarrow> unique_key dl_id (snd (Insert fails now opts tbl))"
  by (cases rule: Insert_cases [of fails now opts tbl]) (auto simp: unique_key_def)

lemma ledger_wf_step:
  assumes "ledger_wf s" and "ledger_step s s'"
  shows "ledger_wf s'"
  using assms(2)
proof (cases rule: ledger_step.cases)
  case (call_write i c out fl now a e tbl')
  with assms(1) unique_key_write [of fl now c out "ls_table s"] show ?thesis
    by (auto simp: ledger_wf_def)
next
  case (call_insert fails now opts l tbl')
  with assms(1) unique_key_Insert [of "ls_table s" fails now opts] show ?thesis
    by (auto simp: ledger_wf_def)
next
  case (call_heartbeat fails now d)
  with assms(1) show ?thesis by (auto simp: ledger_wf_def Heartbeat_def unique_key_sql_update)
next
  case (call_read i c fl)
  with assms(1) show ?thesis by (auto simp: ledger_wf_def dest: setStatus_read_swap setStatus_read_not_mine)
qed

text \<open>What a winning write did: it swapped an open status into the requested one.\<close>

lemma wins_inversion:
  assumes "ledger_wf s" and "ledger_wins s s' d"
  obtains cur st where "ledger_status s d = Some cur" "\<not> IsTerminalDelegationStatus cur"
    "ledger_status s' d = Some st" "IsTerminalDelegationStatus st"
proof -
  from assms(2) obtain i c out where st: "ledger_step s s'"
    and pend: "ls_calls s i = Pending c out" and ret: "ls_calls s' i = Returned c ReplyMine"
    and c: "sc_id c = d" "IsTerminalDelegationStatus (sc_status c)"
    by (auto simp: ledger_wins_def)
  from st pend ret obtain fl now tbl' e where
    w: "setStatus_write fl now c out (ls_table s) = ((ReplyMine, e), tbl')"
    and s': "s' = s\<lparr>ls_table := tbl', ls_calls := (ls_calls s)(i := Returned c ReplyMine)\<rparr>"
    by (cases rule: ledger_step.cases) (auto split: if_splits)
  show thesis
  proof (cases out)
    case (Swap cur)
    define hit :: "delegation_row \<Rightarrow> bool" where "hit = (\<lambda>r. dl_id r = sc_id c \<and> dl_status r = cur)"
    from w Swap have aff: "sql_affected hit (ls_table s) = 1"
      and tbl': "tbl' = sql_update hit (swap_row now c) (ls_table s)"
      by (auto simp: setStatus_write_def Let_def hit_def split: if_splits)
    have uq: "unique_key dl_id (ls_table s)" using assms(1) by (simp add: ledger_wf_def)
    have "sql_affected (\<lambda>r. dl_id r = d \<and> dl_status r = cur) (ls_table s) = 1"
      using aff c(1) by (simp add: hit_def)
    then obtain r where r: "sql_find (\<lambda>r. dl_id r = d) (ls_table s) = Some r" "dl_status r = cur"
      unfolding sql_affected_unique [OF uq, of d "\<lambda>r. dl_status r = cur"]
      by (simp split: option.splits if_splits)
    have "dl_id r = d" using sql_find_Some_iff [OF r(1)] by simp
    with r c(1) have hit: "hit r" by (simp add: hit_def)
    have "sql_find (\<lambda>r. dl_id r = d) tbl' = Some (swap_row now c r)"
      unfolding tbl' by (subst sql_find_sql_update) (simp_all add: r(1) hit)
    then have "ledger_status s' d = Some (sc_status c)" using s' by (simp add: ledger_status_def)
    moreover have "ledger_status s d = Some cur" using r by (simp add: ledger_status_def)
    moreover have "\<not> IsTerminalDelegationStatus cur"
      using assms(1) pend Swap terminal_no_transition unfolding ledger_wf_def by blast
    ultimately show thesis using that c(2) by blast
  next
    case (Finished a e')
    with w have "a = ReplyMine" by (simp add: setStatus_write_def)
    with assms(1) pend Finished show thesis unfolding ledger_wf_def by blast
  next
    case Backfill
    with w show thesis by (auto simp: setStatus_write_def split: if_splits)
  qed
qed


interpretation ledger: single_winner ledger_status IsTerminalDelegationStatus
  "\<lambda>s s'. ledger_wf s \<and> ledger_step s s'" "\<lambda>s s' d. ledger_wf s \<and> ledger_wins s s' d"
proof unfold_locales
  fix s s' k v
  show "ledger_wf s \<and> ledger_step s s' \<Longrightarrow> ledger_status s k = Some v \<Longrightarrow>
      IsTerminalDelegationStatus v \<Longrightarrow> ledger_status s' k = Some v"
    using ledger_terminal_kept by blast
  assume w: "ledger_wf s \<and> ledger_wins s s' k"
  then obtain cur st where i: "ledger_status s k = Some cur" "\<not> IsTerminalDelegationStatus cur"
    "ledger_status s' k = Some st" "IsTerminalDelegationStatus st"
    using wins_inversion by metis
  show "ledger_wf s \<and> ledger_step s s'" using w by (simp add: ledger_wins_def)
  show "\<exists>v. ledger_status s k = Some v" using i by blast
  show "\<exists>v. ledger_status s' k = Some v \<and> IsTerminalDelegationStatus v" using i by blast
  show "ledger_status s k = Some v \<Longrightarrow> \<not> IsTerminalDelegationStatus v" using i by simp
qed

lemma ledger_run_wf:
  assumes "ledger_wf s" and "run_of ledger_step (s # ss)"
  shows "run_of (\<lambda>s s'. ledger_wf s \<and> ledger_step s s') (s # ss)
    \<and> count_steps (\<lambda>s s'. ledger_wf s \<and> Q s s') (s # ss) = count_steps Q (s # ss)"
  by (rule run_of_invariant [where I = ledger_wf and R = ledger_step, OF _ assms]) (rule ledger_wf_step)

text \<open>
  C1: the single-reply rule. In every interleaving of any number of concurrent \<open>SetStatus\<close>
  calls, inserts and heartbeats, with database faults anywhere, at most one caller of a
  delegation is told that it performed the terminal transition, hence owns the reply.
\<close>

theorem single_reply:
  assumes "ledger_wf s" and "run_of ledger_step (s # ss)"
  shows "count_steps (\<lambda>t t'. ledger_wins t t' d) (s # ss) \<le> 1"
  using ledger_run_wf [OF assms, of "\<lambda>t t'. ledger_wins t t' d"] ledger.at_most_one_win [of "s # ss" d]
  by simp

text \<open>
  Two racing terminalizers: both read the row in flight, the agent's own completion writes
  first, the sweeper's failure loses the swap.
\<close>

definition race_start :: ledger_sys where
  "race_start = \<lparr>ls_table = [example_row], ls_calls = (\<lambda>_. Idle)\<rparr>"

definition agent_call :: status_call where
  "agent_call = \<lparr>sc_id = ''d1'', sc_status = ''completed'', sc_error = [], sc_result = ''done''\<rparr>"

definition sweeper_call :: status_call where
  "sweeper_call = \<lparr>sc_id = ''d1'', sc_status = ''failed'', sc_error = ''deadline'', sc_result = []\<rparr>"

definition race_read1 :: ledger_sys where
  "race_read1 = race_start\<lparr>ls_calls := (ls_calls race_start)(0 := Pending agent_call (Swap ''queued''))\<rparr>"

definition race_read2 :: ledger_sys where
  "race_read2 = race_read1\<lparr>ls_calls := (ls_calls race_read1)(1 := Pending sweeper_call (Swap ''queued''))\<rparr>"

definition race_write1 :: ledger_sys where
  "race_write1 = race_read2\<lparr>ls_table := [swap_row 7 agent_call example_row],
     ls_calls := (ls_calls race_read2)(0 := Returned agent_call ReplyMine)\<rparr>"

definition race_write2 :: ledger_sys where
  "race_write2 = race_write1\<lparr>ls_table := [swap_row 7 agent_call example_row],
     ls_calls := (ls_calls race_write1)(1 := Returned sweeper_call ReplyNotMine)\<rparr>"

lemmas race_defs = race_start_def race_read1_def race_read2_def race_write1_def race_write2_def
  agent_call_def sweeper_call_def example_row_def

lemma race_wf: "ledger_wf race_start"
  by (simp add: ledger_wf_def race_defs unique_key_def)

lemma race_read_step1: "ledger_step race_start race_read1"
proof -
  have "setStatus_read no_faults agent_call (ls_table race_start) = Swap ''queued''"
    by (simp add: setStatus_read_def race_defs no_faults_def sql_find_Cons vocab_simps)
  then show ?thesis
    using ledger_step.call_read [of race_start 0 agent_call no_faults]
    by (simp add: race_read1_def race_start_def)
qed

lemma race_read_step2: "ledger_step race_read1 race_read2"
proof -
  have "setStatus_read no_faults sweeper_call (ls_table race_read1) = Swap ''queued''"
    by (simp add: setStatus_read_def race_defs no_faults_def sql_find_Cons vocab_simps)
  then show ?thesis
    using ledger_step.call_read [of race_read1 1 sweeper_call no_faults]
    by (simp add: race_read2_def race_read1_def race_start_def)
qed

lemma race_write_step1: "ledger_step race_read2 race_write1"
  unfolding race_write1_def
proof (rule ledger_step.call_write)
  show "ls_calls race_read2 0 = Pending agent_call (Swap ''queued'')" by (simp add: race_defs)
  show "setStatus_write no_faults 7 agent_call (Swap ''queued'') (ls_table race_read2) =
      ((ReplyMine, None), [swap_row 7 agent_call example_row])"
    by (simp add: setStatus_write_def no_faults_def race_defs sql_affected_def sql_update_Cons)
qed

lemma race_write_step2: "ledger_step race_write1 race_write2"
  unfolding race_write2_def
proof (rule ledger_step.call_write)
  show "ls_calls race_write1 1 = Pending sweeper_call (Swap ''queued'')" by (simp add: race_defs)
  show "setStatus_write no_faults 9 sweeper_call (Swap ''queued'') (ls_table race_write1) =
      ((ReplyNotMine, None), [swap_row 7 agent_call example_row])"
    by (simp add: setStatus_write_def no_faults_def race_defs sql_affected_def sql_update_Cons)
qed

theorem single_reply_witness:
  "run_of ledger_step [race_start, race_read1, race_read2, race_write1, race_write2]
   \<and> ledger_wins race_read2 race_write1 ''d1''
   \<and> count_steps (\<lambda>t t'. ledger_wins t t' ''d1'')
        [race_start, race_read1, race_read2, race_write1, race_write2] \<le> 1"
proof -
  have run: "run_of ledger_step [race_start, race_read1, race_read2, race_write1, race_write2]"
    using race_read_step1 race_read_step2 race_write_step1 race_write_step2 by simp
  moreover have "ledger_wins race_read2 race_write1 ''d1''"
    unfolding ledger_wins_def using race_write_step1
    by (intro conjI exI [of _ 0] exI [of _ agent_call] exI [of _ "Swap ''queued''"])
      (simp_all add: race_defs vocab_simps)
  ultimately show ?thesis using single_reply [OF race_wf run, of "''d1''"] by blast
qed

text \<open>
  terminal means final. From any well-formed state, no sequence of ledger operations of
  any callers changes the status of a completed or failed delegation, or removes its row.
\<close>

theorem terminal_forever:
  assumes "ledger_wf s" and "run_of ledger_step (s # ss)" and "t \<in> set (s # ss)"
    and "ledger_status s d = Some v" and "v = ''completed'' \<or> v = ''failed''"
  shows "ledger_status t d = Some v"
proof -
  have "run_of (\<lambda>s s'. ledger_wf s \<and> ledger_step s s') (s # ss)"
    using ledger_run_wf [OF assms(1,2)] by blast
  then have "(\<lambda>s s'. ledger_wf s \<and> ledger_step s s')\<^sup>*\<^sup>* s t" using assms(3) by (rule run_of_star)
  moreover have "IsTerminalDelegationStatus v" using assms(5) by (auto simp: vocab_simps)
  ultimately show ?thesis using assms(4) ledger.terminal_kept_star by blast
qed

theorem terminal_forever_witness:
  "ledger_status race_write1 ''d1'' = Some ''completed'' \<and> ledger_status race_write2 ''d1'' = Some ''completed''"
proof -
  have wf: "ledger_wf race_write1"
    using race_wf race_read_step1 race_read_step2 race_write_step1 ledger_wf_step by blast
  have st: "ledger_status race_write1 ''d1'' = Some ''completed''"
    by (simp add: ledger_status_def race_defs swap_row_def sql_find_Cons)
  from terminal_forever [OF wf, of "[race_write2]" race_write2 "''d1''" "''completed''"]
    st race_write_step2 show ?thesis by simp
qed

subsection \<open>The outcomes of \<open>SetStatus\<close>\<close>

lemma setStatus_read_row:
  assumes "sc_id c \<noteq> []" and "sc_status c \<noteq> []" and "\<not> select_fails fl"
    and "sql_find (\<lambda>r. dl_id r = sc_id c) tbl = Some r"
  shows "setStatus_read fl c tbl =
    (if dl_status r = sc_status c then
       (if sc_error c = [] \<and> sc_result c = [] then Finished ReplyNotMine None else Backfill)
     else if transition_allowed (dl_status r) (sc_status c) then Swap (dl_status r)
     else Finished ReplyNotMine (Some ErrInvalidTransition))"
  using assms by (simp add: setStatus_read_def)

lemma sql_update_id_status:
  assumes "unique_key dl_id tbl" and "sql_find (\<lambda>x. dl_id x = k) tbl = Some r"
  shows "sql_update (\<lambda>x. dl_id x = k \<and> dl_status x = dl_status r) f tbl = sql_update (\<lambda>x. dl_id x = k) f tbl"
proof -
  have "dl_status x = dl_status r" if "x \<in> set tbl" "dl_id x = k" for x
    using sql_find_key [OF assms(1) that(1)] that(2) assms(2) by simp
  then show ?thesis by (auto simp: sql_update_def)
qed

text \<open>A fault-free call whose transition is allowed swaps exactly the row with its id.\<close>

lemma SetStatus_swap:
  assumes "ledger_ok tbl" and "sql_find (\<lambda>r. dl_id r = sc_id c) tbl = Some r"
    and "transition_allowed (dl_status r) (sc_status c)" and "dl_status r \<noteq> sc_status c"
  shows "SetStatus no_faults now c tbl =
    ((ReplyMine, None), sql_update (\<lambda>x. dl_id x = sc_id c) (swap_row now c) tbl)"
proof -
  have row: "r \<in> set tbl" "dl_id r = sc_id c" using sql_find_Some_iff [OF assms(2)] by auto
  have "sc_id c \<noteq> []"
    using assms(1) row by (auto simp: ledger_ok_def list_all_iff row_ok_def)
  moreover have "sc_status c \<noteq> []"
    using transition_closed [OF assms(3)] by (auto simp: vocab_simps)
  ultimately have read: "setStatus_read no_faults c tbl = Swap (dl_status r)"
    using setStatus_read_row [of c no_faults tbl r] assms(2-4) by (simp add: no_faults_def)
  have uq: "unique_key dl_id tbl" using assms(1) by (simp add: ledger_ok_def)
  have "sql_affected (\<lambda>x. dl_id x = sc_id c \<and> dl_status x = dl_status r) tbl = 1"
    by (simp add: sql_affected_unique [OF uq, of "sc_id c" "\<lambda>x. dl_status x = dl_status r"] assms(2))
  then show ?thesis
    unfolding SetStatus_def read
    by (simp add: setStatus_write_def no_faults_def sql_update_id_status [OF uq assms(2)])
qed

text \<open>
  without faults a terminal \<open>SetStatus\<close> of an in-flight delegation succeeds and owns the
  reply. The row gets the status, the detail and the capped preview, keeps its other columns,
  and every other row of the table is untouched.
\<close>

theorem SetStatus_terminalizes:
  assumes "ledger_ok tbl" and "sql_find (\<lambda>r. dl_id r = sc_id c) tbl = Some r" and "in_flight r"
    and "sc_status c = ''completed'' \<or> sc_status c = ''failed''"
  shows "fst (SetStatus no_faults now c tbl) = (ReplyMine, None)
    \<and> sql_find (\<lambda>x. dl_id x = sc_id c) (snd (SetStatus no_faults now c tbl)) = Some (swap_row now c r)
    \<and> filter (\<lambda>x. dl_id x \<noteq> sc_id c) (snd (SetStatus no_faults now c tbl)) =
        filter (\<lambda>x. dl_id x \<noteq> sc_id c) tbl"
proof -
  have tm: "IsTerminalDelegationStatus (sc_status c)" using assms(4) by (auto simp: vocab_simps)
  from assms(3) tm have tr: "transition_allowed (dl_status r) (sc_status c)"
    by (simp add: in_flight_def in_flight_allows)
  have ne: "dl_status r \<noteq> sc_status c" using tr terminal_no_transition tm by metis
  have "dl_id r = sc_id c" using sql_find_Some_iff [OF assms(2)] by simp
  then have "sql_find (\<lambda>x. dl_id x = sc_id c) (sql_update (\<lambda>x. dl_id x = sc_id c) (swap_row now c) tbl)
      = Some (swap_row now c r)"
    by (subst sql_find_sql_update) (simp_all add: assms(2))
  moreover have "filter (\<lambda>x. dl_id x \<noteq> sc_id c) (sql_update (\<lambda>x. dl_id x = sc_id c) (swap_row now c) tbl)
      = filter (\<lambda>x. dl_id x \<noteq> sc_id c) tbl"
    by (induction tbl) (auto simp: sql_update_Cons)
  ultimately show ?thesis using SetStatus_swap [OF assms(1,2) tr ne] by simp
qed

lemma example_row_ok: "ledger_ok [example_row]"
  by (simp add: ledger_ok_def unique_key_def idem_unique_def row_ok_def example_row_def vocab_simps)

theorem SetStatus_terminalizes_witness:
  "fst (SetStatus no_faults 7 agent_call [example_row]) = (ReplyMine, None)
   \<and> dl_status (swap_row 7 agent_call example_row) = ''completed''"
proof -
  have f: "sql_find (\<lambda>r. dl_id r = sc_id agent_call) [example_row] = Some example_row"
    by (simp add: sql_find_Cons race_defs)
  have i: "in_flight example_row" by (simp add: in_flight_def example_row_def vocab_simps)
  from SetStatus_terminalizes [OF example_row_ok f i, of 7] show ?thesis
    by (simp add: agent_call_def)
qed

text \<open>
  the ledger never lies about a write that did not land. If the \<^verbatim>\<open>SELECT\<close> or the
  \<^verbatim>\<open>UPDATE\<close> of a call fails, the table is unchanged and the caller is not allowed to reply
  (the row is still there for the next sweep), whatever the arguments.
\<close>

theorem SetStatus_fault_deferred:
  assumes "select_fails fl \<or> update_fails fl"
    and "sql_find (\<lambda>r. dl_id r = sc_id c) tbl \<noteq> None"
  shows "snd (SetStatus fl now c tbl) = tbl \<and> \<not> mayReply (fst (fst (SetStatus fl now c tbl)))"
proof -
  have "snd (setStatus_write fl now c out tbl) = tbl" if "out = setStatus_read fl c tbl" for out
    using that assms
    by (cases out) (auto simp: setStatus_write_def setStatus_read_def split: if_splits option.splits)
  moreover have "\<not> mayReply (fst (fst (setStatus_write fl now c (setStatus_read fl c tbl) tbl)))"
    using assms
    by (cases "setStatus_read fl c tbl")
      (auto simp: setStatus_write_def setStatus_read_def mayReply_def split: if_splits option.splits)
  ultimately show ?thesis by (simp add: SetStatus_def)
qed

theorem SetStatus_fault_deferred_witness:
  "SetStatus \<lparr>select_fails = False, update_fails = True, affected_fails = False\<rparr> 7 agent_call [example_row]
     = ((ReplyDeferred, Some ErrDatabase), [example_row])
   \<and> \<not> mayReply ReplyDeferred"
proof -
  let ?fl = "\<lparr>select_fails = False, update_fails = True, affected_fails = False\<rparr>"
  have r: "SetStatus ?fl 7 agent_call [example_row] = ((ReplyDeferred, Some ErrDatabase), [example_row])"
    by (simp add: ledger_ops race_defs sql_find_Cons vocab_simps)
  have f: "sql_find (\<lambda>r. dl_id r = sc_id agent_call) [example_row] \<noteq> None"
    by (simp add: sql_find_Cons race_defs)
  from SetStatus_fault_deferred [of ?fl agent_call "[example_row]" 7] f r show ?thesis by simp
qed

text \<open>
  a delegation with no ledger row is answered, not dropped: the call cannot be
  arbitrated, so the caller may reply, and nothing is written.
\<close>

theorem SetStatus_no_row_replies:
  assumes "sc_id c \<noteq> []" and "sc_status c \<noteq> []" and "\<not> select_fails fl"
    and "sc_id c \<notin> dl_id ` set tbl"
  shows "SetStatus fl now c tbl = ((ReplyUnarbitrated, None), tbl) \<and> mayReply ReplyUnarbitrated"
proof -
  have "sql_find (\<lambda>r. dl_id r = sc_id c) tbl = None"
    unfolding sql_find_None_iff using assms(4) by (metis imageI)
  with assms(1-3) show ?thesis by (simp add: ledger_ops mayReply_def)
qed

theorem SetStatus_no_row_replies_witness:
  "SetStatus no_faults 7 agent_call [] = ((ReplyUnarbitrated, None), [])"
  using SetStatus_no_row_replies [of agent_call no_faults "[]" 7]
  by (simp add: agent_call_def no_faults_def)

text \<open>
  a second delegation of the same caller under the same idempotency key is an error of the
  insert, not the silent no-op that the code comment promises: the conflict clause names
  \<open>delegation_id\<close> only. The table is unchanged either way.
\<close>

theorem Insert_idempotency_clash:
  assumes "r \<in> set tbl" and "dl_caller r = io_CallerID opts"
    and "dl_idempotency_key r = Some (io_IdempotencyKey opts)"
    and "io_IdempotencyKey opts \<noteq> []" and "io_DelegationID opts \<noteq> []"
    and "io_CallerID opts \<noteq> []" and "io_CalleeID opts \<noteq> []"
    and "io_DelegationID opts \<notin> dl_id ` set tbl"
  shows "Insert fails now opts tbl = (InsertFailed, tbl)"
proof -
  have "\<not> (\<exists>x \<in> set tbl. dl_id x = io_DelegationID opts)" using assms(8) by (metis imageI)
  moreover have "\<exists>x \<in> set tbl. dl_caller x = io_CallerID opts
      \<and> dl_idempotency_key x = Some (io_IdempotencyKey opts)" using assms(1-3) by blast
  ultimately show ?thesis using assms(4-7) by (simp add: Insert_def Let_def)
qed

theorem Insert_idempotency_clash_witness:
  "Insert False 5 (example_opts\<lparr>io_DelegationID := ''d2''\<rparr>) [example_row] = (InsertFailed, [example_row])"
  using Insert_idempotency_clash [of example_row "[example_row]" "example_opts\<lparr>io_DelegationID := ''d2''\<rparr>"]
  by (simp add: example_opts_def example_row_def)


subsection \<open>The life cycle\<close>

text \<open>The abstract machine: a delegation appears queued and moves along \<open>allowedTransitions\<close>.\<close>

inductive delegation_move :: "string option \<Rightarrow> string option \<Rightarrow> bool" where
  appears: "delegation_move None (Some ''queued'')"
| moves: "transition_allowed v w \<Longrightarrow> delegation_move (Some v) (Some w)"

lemma write_moves:
  assumes "\<And>cur. out = Swap cur \<Longrightarrow> transition_allowed cur (sc_status c)"
    and "setStatus_write fl now c out (ls_table s) = (res, tbl')"
  shows "delegation_move\<^sup>*\<^sup>* (ledger_status s d) (ledger_status (s\<lparr>ls_table := tbl'\<rparr>) d)"
proof (cases "sql_find (\<lambda>r. dl_id r = d) (ls_table s)")
  case None
  with assms(2) have "sql_find (\<lambda>r. dl_id r = d) tbl' = None"
    by (auto simp: setStatus_write_def Let_def sql_find_sql_update split: read_outcome.splits if_splits)
  with None show ?thesis by (simp add: ledger_status_def)
next
  case (Some r)
  show ?thesis
  proof (cases out)
    case (Finished a e)
    with assms(2) show ?thesis by (simp add: setStatus_write_def ledger_status_def)
  next
    case Backfill
    with assms(2) Some show ?thesis
      by (cases "update_fails fl") (auto simp: setStatus_write_def ledger_status_def sql_find_sql_update)
  next
    case (Swap cur)
    let ?hit = "\<lambda>r. dl_id r = sc_id c \<and> dl_status r = cur"
    have "tbl' = ls_table s \<or> tbl' = sql_update ?hit (swap_row now c) (ls_table s)"
      using assms(2) Swap by (auto simp: setStatus_write_def Let_def split: if_splits)
    then show ?thesis
    proof
      assume t: "tbl' = sql_update ?hit (swap_row now c) (ls_table s)"
      have "sql_find (\<lambda>r. dl_id r = d) tbl' = Some (if ?hit r then swap_row now c r else r)"
        unfolding t using Some by (simp add: sql_find_sql_update)
      then have "ledger_status (s\<lparr>ls_table := tbl'\<rparr>) d = Some (if ?hit r then sc_status c else dl_status r)"
        by (simp add: ledger_status_def swap_row_def)
      moreover have "ledger_status s d = Some (dl_status r)" using Some by (simp add: ledger_status_def)
      ultimately show ?thesis using delegation_move.moves [OF assms(1) [OF Swap]] by (cases "?hit r") auto
    qed (simp add: ledger_status_def)
  qed
qed

lemma ledger_simulates:
  assumes "ledger_wf s" and "ledger_step s s'"
  shows "delegation_move\<^sup>*\<^sup>* (ledger_status s d) (ledger_status s' d)"
  using assms(2)
proof cases
  case (call_write i c out fl now a e tbl')
  have "transition_allowed cur (sc_status c)" if "out = Swap cur" for cur
    using assms(1) call_write(2) that unfolding ledger_wf_def by blast
  from write_moves [OF this call_write(3), of d] call_write(1) show ?thesis by (simp add: ledger_status_def)
next
  case (call_insert fails now opts l tbl')
  show ?thesis
  proof (cases "ledger_status s d")
    case None
    show ?thesis
    proof (cases rule: Insert_cases [of fails now opts "ls_table s"])
      case same
      with call_insert show ?thesis by (simp add: ledger_status_def)
    next
      case (fresh r)
      then have t: "s' = s\<lparr>ls_table := ls_table s @ [r]\<rparr>" using call_insert by simp
      have "ledger_status s' d = (if dl_id r = d then Some ''queued'' else None)"
        unfolding t using None fresh(3) by (simp add: ledger_status_def sql_find_append sql_find_Cons)
      with None delegation_move.appears show ?thesis by auto
    qed
  next
    case (Some v)
    with insert_keeps_status [OF Some call_insert(2)] call_insert(1) show ?thesis by simp
  qed
next
  case (call_heartbeat fails now k)
  show ?thesis
  proof (cases "ledger_status s d")
    case None
    then have "ledger_status s' d = None"
      unfolding call_heartbeat by (auto simp: Heartbeat_def ledger_status_def sql_find_sql_update)
    with None show ?thesis by simp
  next
    case (Some v)
    with heartbeat_keeps_status [OF Some] call_heartbeat show ?thesis by simp
  qed
qed simp

interpretation ledger_life: lifecycle_refinement ledger_status ledger_wf ledger_step delegation_move
  using ledger_wf_step ledger_simulates by unfold_locales blast+

text \<open>
  C31: the ledger refines the documented life cycle. Whatever calls interleave and whatever the
  database does to them, the status of a delegation only ever moves along the transition
  table, starting from queued; in particular a row never disappears.
\<close>

theorem ledger_refines_lifecycle:
  assumes "ledger_wf s" and "ledger_step\<^sup>*\<^sup>* s t"
  shows "delegation_move\<^sup>*\<^sup>* (ledger_status s d) (ledger_status t d)
    \<and> (ledger_status s d \<noteq> None \<longrightarrow> ledger_status t d \<noteq> None)"
proof
  show m: "delegation_move\<^sup>*\<^sup>* (ledger_status s d) (ledger_status t d)"
    using ledger_life.refines_star [OF assms(2,1)] by blast
  have "y \<noteq> None" if "delegation_move\<^sup>*\<^sup>* x y" "x \<noteq> None" for x y
    using that by (induction rule: rtranclp_induct) (auto elim: delegation_move.cases)
  with m show "ledger_status s d \<noteq> None \<longrightarrow> ledger_status t d \<noteq> None" by blast
qed

theorem ledger_refines_lifecycle_witness:
  "delegation_move\<^sup>*\<^sup>* (ledger_status race_start ''d1'') (ledger_status race_write1 ''d1'')
   \<and> ledger_status race_write1 ''d1'' = Some ''completed''"
proof -
  have "ledger_step\<^sup>*\<^sup>* race_start race_write1"
    using race_read_step1 race_read_step2 race_write_step1 by (meson converse_rtranclp_into_rtranclp rtranclp.rtrancl_refl)
  from ledger_refines_lifecycle [OF race_wf this, of "''d1''"] show ?thesis
    by (simp add: race_defs ledger_status_def sql_find_Cons swap_row_def agent_call_def example_row_def)
qed

end
