(* ===== verification/Delegation_Replies.thy ===== *)
theory Delegation_Replies
  imports Delegation_Ledger
begin

text \<open>
  The gated ledger writers (\<^verbatim>\<open>internal/handlers/delegation_ledger_writes.go\<close>) and the
  reply rows a terminal transition owes its caller (\<^verbatim>\<open>internal/handlers/delegation.go\<close>,
  the section before the HTTP handler).

  \<open>env\<close> is \<open>os.Getenv\<close>. Of an \<open>activity_logs\<close> row the columns that the writers set are
  kept; the JSON bodies are represented by their two fields, the delegation id that
  correlates the row and the text. Log lines are constructors.
\<close>

type_synonym environment = "string \<Rightarrow> string"

record activity_row =
  al_workspace :: string
  al_type :: string
  al_method :: string
  al_source :: string
  al_target :: "string option"
  al_summary :: string
  al_status :: string
  al_error :: "string option"
  al_delegation :: string
  al_text :: "string option"

type_synonym activity_log = "activity_row list"

record reply_faults =
  row_insert_fails :: bool
  inbox_insert_fails :: bool

definition no_reply_faults :: reply_faults where
  "no_reply_faults = \<lparr>row_insert_fails = False, inbox_insert_fails = False\<rparr>"

subsection \<open>Flags\<close>

definition ledgerWritesEnabled :: "environment \<Rightarrow> bool" where
  "ledgerWritesEnabled env = (env ''DELEGATION_LEDGER_WRITE'' = ''1'')"

definition delegationResultInboxPushEnabled :: "environment \<Rightarrow> bool" where
  "delegationResultInboxPushEnabled env = (env ''DELEGATION_RESULT_INBOX_PUSH'' = ''1'')"

definition asyncMCPCompletionWired :: bool where "asyncMCPCompletionWired = True"

datatype rollout_message = RepliesWithoutLedger | LedgerWithoutReplies | RefusingToStart

text \<open>\<open>None\<close> is the empty reason.\<close>

definition delegationRolloutFatalReason :: "bool \<Rightarrow> bool \<Rightarrow> rollout_message option" where
  "delegationRolloutFatalReason ledgerWrites completionWired =
    (if ledgerWrites \<and> \<not> completionWired then Some RefusingToStart else None)"

text \<open>The warnings logged, in order, and whether the process exits.\<close>

definition WarnOnPartialDelegationRollout :: "environment \<Rightarrow> rollout_message list \<times> bool" where
  "WarnOnPartialDelegationRollout env =
    (let w1 = (if \<not> ledgerWritesEnabled env \<and> delegationResultInboxPushEnabled env
               then [RepliesWithoutLedger] else []);
         w2 = (if ledgerWritesEnabled env \<and> \<not> delegationResultInboxPushEnabled env
               then [LedgerWithoutReplies] else [])
     in case delegationRolloutFatalReason (ledgerWritesEnabled env) asyncMCPCompletionWired of
          None \<Rightarrow> (w1 @ w2, False)
        | Some m \<Rightarrow> (w1 @ w2 @ [m], True))"

subsection \<open>Gated writers\<close>

definition recordLedgerInsert ::
  "environment \<Rightarrow> bool \<Rightarrow> time \<Rightarrow> string \<Rightarrow> string \<Rightarrow> string \<Rightarrow> string \<Rightarrow> string \<Rightarrow> ledger \<Rightarrow> ledger" where
  "recordLedgerInsert env fails now callerID calleeID delegationID taskPreview idemKey tbl =
    (if \<not> ledgerWritesEnabled env then tbl
     else snd (Insert fails now
       \<lparr>io_DelegationID = delegationID, io_CallerID = callerID, io_CalleeID = calleeID,
        io_TaskPreview = taskPreview, io_IdempotencyKey = idemKey, io_Deadline = None\<rparr> tbl))"

definition recordLedgerStatus ::
  "environment \<Rightarrow> ledger_faults \<Rightarrow> time \<Rightarrow> status_call \<Rightarrow> ledger \<Rightarrow> ReplyAuthority \<times> ledger" where
  "recordLedgerStatus env fl now c tbl =
    (if \<not> ledgerWritesEnabled env then (ReplyUnarbitrated, tbl)
     else case SetStatus fl now c tbl of ((authority, err), tbl') \<Rightarrow> (authority, tbl'))"

subsection \<open>Reply rows\<close>

definition pushDelegationResultToInbox ::
  "environment \<Rightarrow> bool \<Rightarrow> string \<Rightarrow> string \<Rightarrow> string \<Rightarrow> string \<Rightarrow> string \<Rightarrow> string
     \<Rightarrow> activity_log \<Rightarrow> bool \<times> activity_log" where
  "pushDelegationResultToInbox env fails sourceID targetID delegationID status responsePreview errorDetail logs =
    (if \<not> delegationResultInboxPushEnabled env then (False, logs)
     else
       let logStatus = (if status = ''failed'' then ''error'' else ''ok'');
           summary = (if status = ''failed'' then ''Delegation failed'' else ''Delegation result delivered'')
       in if fails then (True, logs)
          else (False, logs @
            [\<lparr>al_workspace = sourceID, al_type = ''a2a_receive'', al_method = ''delegate_result'',
              al_source = sourceID, al_target = nullif_empty targetID, al_summary = summary,
              al_status = logStatus, al_error = nullif_empty errorDetail,
              al_delegation = delegationID, al_text = Some responsePreview\<rparr>]))"

definition emitTerminalDelegationReplyWithResult ::
  "environment \<Rightarrow> reply_faults \<Rightarrow> string \<Rightarrow> string \<Rightarrow> string \<Rightarrow> string \<Rightarrow> string \<Rightarrow> string
     \<Rightarrow> activity_log \<Rightarrow> bool \<times> activity_log" where
  "emitTerminalDelegationReplyWithResult env fl callerID calleeID delegationID status errorDetail resultPreview logs =
    (if \<not> ledgerWritesEnabled env then (False, logs)
     else
       let summary = (if status = ''completed'' then ''Delegation completed'' else ''Delegation failed'');
           row = \<lparr>al_workspace = callerID, al_type = ''delegation'', al_method = ''delegate_result'',
                  al_source = callerID, al_target = nullif_empty calleeID, al_summary = summary,
                  al_status = status, al_error = nullif_empty errorDetail,
                  al_delegation = delegationID, al_text = None\<rparr>;
           logs1 = (if row_insert_fails fl then logs else logs @ [row])
       in case pushDelegationResultToInbox env (inbox_insert_fails fl) callerID calleeID delegationID
                 status resultPreview errorDetail logs1 of
            (pushFailed, logs2) \<Rightarrow> (row_insert_fails fl \<or> pushFailed, logs2))"

definition emitTerminalDelegationReply ::
  "environment \<Rightarrow> reply_faults \<Rightarrow> string \<Rightarrow> string \<Rightarrow> string \<Rightarrow> string \<Rightarrow> string
     \<Rightarrow> activity_log \<Rightarrow> bool \<times> activity_log" where
  "emitTerminalDelegationReply env fl callerID calleeID delegationID status errorDetail logs =
    emitTerminalDelegationReplyWithResult env fl callerID calleeID delegationID status errorDetail [] logs"

lemmas reply_defs = emitTerminalDelegationReply_def emitTerminalDelegationReplyWithResult_def
  pushDelegationResultToInbox_def Let_def

subsection \<open>Properties\<close>

text \<open>The inbox rows of a delegation: what the agent actually reads.\<close>

definition inbox_rows :: "string \<Rightarrow> activity_log \<Rightarrow> activity_log" where
  "inbox_rows d logs = filter (\<lambda>r. al_type r = ''a2a_receive'' \<and> al_delegation r = d) logs"

lemma inbox_rows_append [simp]: "inbox_rows d (xs @ ys) = inbox_rows d xs @ inbox_rows d ys"
  by (simp add: inbox_rows_def)

text \<open>
  a flag combination that hides replies is announced at startup exactly when the two
  rollout flags differ, and the shipped build never refuses to boot; without the completion
  writer, turning the ledger on would.
\<close>

theorem rollout_guard:
  "(fst (WarnOnPartialDelegationRollout env) = [] \<longleftrightarrow>
      ledgerWritesEnabled env = delegationResultInboxPushEnabled env)
   \<and> \<not> snd (WarnOnPartialDelegationRollout env)
   \<and> (delegationRolloutFatalReason w c = None \<longleftrightarrow> \<not> (w \<and> \<not> c))"
  by (auto simp: WarnOnPartialDelegationRollout_def delegationRolloutFatalReason_def
      asyncMCPCompletionWired_def Let_def)

text \<open>
  while the ledger is dark nothing is recorded and every terminalizer may reply, as before
  the ledger existed; the sweeper's reply path stays silent.
\<close>

theorem dark_ledger:
  assumes "\<not> ledgerWritesEnabled env"
  shows "recordLedgerInsert env f now a b d t k tbl = tbl
    \<and> recordLedgerStatus env fl now c tbl = (ReplyUnarbitrated, tbl)
    \<and> mayReply (fst (recordLedgerStatus env fl now c tbl))
    \<and> emitTerminalDelegationReply env rf a b d st e logs = (False, logs)"
  using assms by (simp add: recordLedgerInsert_def recordLedgerStatus_def reply_defs mayReply_def)

theorem dark_ledger_witness:
  "recordLedgerStatus (\<lambda>_. []) no_faults 7 agent_call [example_row] = (ReplyUnarbitrated, [example_row])"
proof -
  have "\<not> ledgerWritesEnabled (\<lambda>_. [])" by (simp add: ledgerWritesEnabled_def)
  from dark_ledger [OF this, of _ 7 _ _ _ _ _ "[example_row]" no_faults agent_call] show ?thesis by blast
qed

text \<open>
  with both flags on and no faults a terminal reply is two rows: the caller's ledger row
  and exactly one inbox row, both carrying the delegation id; a failed inbox insert is reported
  and leaves no inbox row, a failed ledger row does not stop the inbox row.
\<close>

theorem terminal_reply_rows:
  assumes "ledgerWritesEnabled env" and "delegationResultInboxPushEnabled env"
  shows "fst (emitTerminalDelegationReplyWithResult env fl caller callee d st e p logs) =
           (row_insert_fails fl \<or> inbox_insert_fails fl)
    \<and> length (inbox_rows d (snd (emitTerminalDelegationReplyWithResult env fl caller callee d st e p logs))) =
       length (inbox_rows d logs) + (if inbox_insert_fails fl then 0 else 1)
    \<and> (\<exists>new. snd (emitTerminalDelegationReplyWithResult env fl caller callee d st e p logs) = logs @ new
       \<and> length new \<le> 2 \<and> list_all (\<lambda>r. al_workspace r = caller \<and> al_delegation r = d) new)"
  using assms by (simp add: reply_defs inbox_rows_def)

definition flags_on :: environment where "flags_on k = ''1''"

theorem terminal_reply_rows_witness:
  "length (inbox_rows ''d1'' (snd (emitTerminalDelegationReplyWithResult flags_on no_reply_faults
     ''pm'' ''eng'' ''d1'' ''failed'' ''deadline'' [] []))) = 1"
  using terminal_reply_rows [of flags_on no_reply_faults "''pm''" "''eng''" "''d1''" "''failed''" "''deadline''" "[]" "[]"]
  by (simp add: ledgerWritesEnabled_def delegationResultInboxPushEnabled_def flags_on_def
      no_reply_faults_def inbox_rows_def)

end
