(* ===== verification/Json_Decode.thy ===== *)
theory Json_Decode
  imports Core_Prelude
begin

text \<open>
  \<open>encoding/json\<close> as the handlers use it: decoding a body into the fields of a struct.

  A body is its bytes together with the value \<open>json.Unmarshal\<close> parses from them, \<open>None\<close> when
  they are no JSON. Members are taken in order, a key selects a field up to case folding, \<open>null\<close>
  leaves a field as it is, a value of the wrong type makes the whole decode fail.
\<close>

record body =
  bd_bytes :: string
  bd_json :: "json option"

definition no_body :: body where
  "no_body = \<lparr>bd_bytes = [], bd_json = None\<rparr>"

subsection \<open>Decoding into structs\<close>

text \<open>
  Case folding of a key. Besides the ASCII letters two characters fold into ASCII: the long s
  (bytes C5 BF) and the Kelvin sign (E2 84 AA).
\<close>

fun fold_special :: "string \<Rightarrow> string" where
  "fold_special (a # b # c # s) =
    (if (of_char a :: nat) = 197 \<and> (of_char b :: nat) = 191 then CHR ''s'' # fold_special (c # s)
     else if (of_char a :: nat) = 226 \<and> (of_char b :: nat) = 132 \<and> (of_char c :: nat) = 170
       then CHR ''k'' # fold_special s
     else a # fold_special (b # c # s))"
| "fold_special [a, b] =
    (if (of_char a :: nat) = 197 \<and> (of_char b :: nat) = 191 then [CHR ''s''] else [a, b])"
| "fold_special s = s"

definition fold_name :: "string \<Rightarrow> string" where
  "fold_name s = ascii_lower (fold_special s)"

text \<open>
  A field of a struct: \<open>decode\<close> decodes the field's value into what it holds so far.
\<close>

definition decode_field :: "string \<Rightarrow> (json \<Rightarrow> 'a \<Rightarrow> 'a option) \<Rightarrow> json \<Rightarrow> 'a \<Rightarrow> 'a option" where
  "decode_field name decode j acc =
    (case j of
       JNull \<Rightarrow> Some acc
     | JObj kvs \<Rightarrow> foldl (\<lambda>st (k, v). case st of None \<Rightarrow> None
         | Some x \<Rightarrow> if fold_name k = fold_name name then decode v x else Some x) (Some acc) kvs
     | _ \<Rightarrow> None)"

primrec decode_path :: "string list \<Rightarrow> (json \<Rightarrow> 'a \<Rightarrow> 'a option) \<Rightarrow> json \<Rightarrow> 'a \<Rightarrow> 'a option" where
  "decode_path [] decode = decode"
| "decode_path (name # path) decode = decode_field name (decode_path path decode)"

fun decode_string :: "json \<Rightarrow> string \<Rightarrow> string option" where
  "decode_string JNull acc = Some acc"
| "decode_string (JStr s) acc = Some s"
| "decode_string _ acc = None"

fun decode_int :: "json \<Rightarrow> int \<Rightarrow> int option" where
  "decode_int JNull acc = Some acc"
| "decode_int (JInt n) acc = (if fits_int64 n then Some n else None)"
| "decode_int _ acc = None"

fun decode_bool :: "json \<Rightarrow> bool \<Rightarrow> bool option" where
  "decode_bool JNull acc = Some acc"
| "decode_bool (JBool b) acc = Some b"
| "decode_bool _ acc = None"

fun decode_bool_ptr :: "json \<Rightarrow> bool option \<Rightarrow> bool option option" where
  "decode_bool_ptr JNull acc = Some None"
| "decode_bool_ptr (JBool b) acc = Some (Some b)"
| "decode_bool_ptr _ acc = None"

text \<open>A slice of strings: an element that is \<open>null\<close> keeps what the slice held at its place.\<close>

fun decode_strings :: "json \<Rightarrow> string list \<Rightarrow> string list option" where
  "decode_strings JNull acc = Some []"
| "decode_strings (JArr xs) acc =
    those (map (\<lambda>i. decode_string (xs ! i) (if i < length acc then acc ! i else [])) [0..<length xs])"
| "decode_strings _ acc = None"

definition decode_any :: "json \<Rightarrow> json option \<Rightarrow> json option option" where
  "decode_any j acc = Some (if j = JNull then None else Some j)"

fun decode_map :: "json \<Rightarrow> (string \<times> json) list \<Rightarrow> (string \<times> json) list option" where
  "decode_map JNull acc = Some []"
| "decode_map (JObj kvs) acc = Some (acc @ kvs)"
| "decode_map _ acc = None"

definition unmarshal_at :: "string list \<Rightarrow> (json \<Rightarrow> 'a \<Rightarrow> 'a option) \<Rightarrow> 'a \<Rightarrow> body \<Rightarrow> 'a option" where
  "unmarshal_at path decode zero b = (case bd_json b of None \<Rightarrow> None | Some j \<Rightarrow> decode_path path decode j zero)"

end
