(* ===== verification/A2A_Payload.thy ===== *)
theory A2A_Payload
  imports Delegation_Replies Json_Decode
begin

text \<open>
  What the queue reads out of message bodies: the decoders of
  \<^verbatim>\<open>internal/handlers/a2a_queue.go\<close>, \<open>RequestSourceType\<close>
  (\<^verbatim>\<open>internal/messagestore/postgres_store.go\<close>) and \<open>extractResponseText\<close>
  (\<^verbatim>\<open>internal/handlers/delegation.go\<close>).
\<close>

subsection \<open>The extractors\<close>

definition extractIdempotencyKey :: "body \<Rightarrow> string" where
  "extractIdempotencyKey b =
    (case unmarshal_at [''params'', ''message'', ''messageId''] decode_string [] b of None \<Rightarrow> [] | Some s \<Rightarrow> s)"

text \<open>
  The value is decoded as \<open>interface{}\<close>, so a number is a \<open>float64\<close>; its conversion to \<open>int\<close>,
  which depends on the platform when it does not fit, is the parameter \<open>float_int\<close>.
\<close>

definition extractExpiresInSeconds :: "(json \<Rightarrow> int) \<Rightarrow> body \<Rightarrow> int" where
  "extractExpiresInSeconds float_int b =
    (case unmarshal_at [''params'', ''expires_in_seconds''] decode_any None b of
       Some (Some (JInt n)) \<Rightarrow> max 0 (float_int (JInt n))
     | Some (Some (JReal r)) \<Rightarrow> max 0 (float_int (JReal r))
     | _ \<Rightarrow> 0)"

definition QueuedA2AResponse :: "body \<Rightarrow> bool \<times> string" where
  "QueuedA2AResponse resp =
    (case (unmarshal_at [''status''] decode_string [] resp,
           unmarshal_at [''queued''] decode_bool_ptr None resp,
           unmarshal_at [''queue_id''] decode_string [] resp) of
       (Some status, Some queued, Some queueID) \<Rightarrow>
         (if status \<noteq> ''queued'' \<and> (queued = None \<or> queued = Some False) then (False, []) else (True, queueID))
     | _ \<Rightarrow> (False, []))"

definition extractDelegationIDFromBody :: "body \<Rightarrow> string" where
  "extractDelegationIDFromBody b =
    (case unmarshal_at [''params'', ''message'', ''metadata'', ''delegation_id''] decode_string [] b of
       None \<Rightarrow> [] | Some s \<Rightarrow> s)"

definition string_member :: "(string \<times> json) list \<Rightarrow> string \<Rightarrow> string" where
  "string_member kvs k = (case obj_get kvs k of Some (JStr s) \<Rightarrow> s | _ \<Rightarrow> [])"

definition RequestSourceType :: "body \<Rightarrow> string" where
  "RequestSourceType b =
    (if bd_bytes b = [] then []
     else case (unmarshal_at [''params'', ''metadata''] decode_map [] b,
                unmarshal_at [''params'', ''message'', ''metadata''] decode_map [] b) of
         (Some m1, Some m2) \<Rightarrow>
           (if string_member m1 ''source_type'' \<noteq> [] then string_member m1 ''source_type''
            else string_member m2 ''source_type'')
       | _ \<Rightarrow> [])"

subsection \<open>The text of a reply\<close>

text \<open>The first element of \<open>parts\<close> that is a text part with a string text.\<close>

fun first_text :: "json list \<Rightarrow> string option" where
  "first_text [] = None"
| "first_text (JObj part # ps) =
    (if string_member part ''kind'' = ''text''
     then (case obj_get part ''text'' of Some (JStr t) \<Rightarrow> Some t | _ \<Rightarrow> first_text ps)
     else first_text ps)"
| "first_text (_ # ps) = first_text ps"

fun first_artifact_text :: "json list \<Rightarrow> string option" where
  "first_artifact_text [] = None"
| "first_artifact_text (JObj art # xs) =
    (case obj_get art ''parts'' of
       Some (JArr ps) \<Rightarrow> (case first_text ps of Some t \<Rightarrow> Some t | None \<Rightarrow> first_artifact_text xs)
     | _ \<Rightarrow> first_artifact_text xs)"
| "first_artifact_text (_ # xs) = first_artifact_text xs"

definition extractResponseText :: "body \<Rightarrow> string" where
  "extractResponseText b =
    (case bd_json b of
       Some (JObj resp) \<Rightarrow>
         (case obj_get resp ''result'' of
            Some (JObj result) \<Rightarrow>
              (case (case obj_get result ''parts'' of Some (JArr ps) \<Rightarrow> first_text ps | _ \<Rightarrow> None) of
                 Some t \<Rightarrow> t
               | None \<Rightarrow>
                  (case (case obj_get result ''artifacts'' of Some (JArr xs) \<Rightarrow> first_artifact_text xs | _ \<Rightarrow> None) of
                     Some t \<Rightarrow> t
                   | None \<Rightarrow> bd_bytes b))
          | _ \<Rightarrow> bd_bytes b)
     | _ \<Rightarrow> bd_bytes b)"

end
