(* ===== verification/A2A_Queue.thy ===== *)
theory A2A_Queue
  imports A2A_Payload
begin

text \<open>
  The durable message queue of busy workspaces, the statements on the table \<open>a2a_queue\<close>:
  \<^verbatim>\<open>internal/handlers/a2a_queue.go\<close>, \<open>isSystemCaller\<close> (\<^verbatim>\<open>a2a_proxy.go\<close>),
  \<open>enqueueBusyA2A\<close> (\<^verbatim>\<open>a2a_proxy_helpers.go\<close>), \<open>dropQueuedRestartContext\<close>
  (\<^verbatim>\<open>restart_context.go\<close>), \<open>QueueStatusByID\<close> (\<^verbatim>\<open>a2a_queue_status.go\<close>) and
  \<open>DropStale\<close> (\<^verbatim>\<open>admin_queue.go\<close>).

  The body column is taken to return the value it was given. Generated ids, the clock, the
  rows that other transactions have locked (\<open>locked\<close>, for \<^verbatim>\<open>FOR UPDATE SKIP LOCKED\<close>) and the
  database faults are arguments. The partial unique index on (workspace, idempotency key) of
  the active rows is what \<^verbatim>\<open>ON CONFLICT .. DO NOTHING\<close> consults.
\<close>

subsection \<open>The table\<close>

record queue_row =
  q_id :: string
  q_workspace :: string
  q_caller :: "string option"
  q_priority :: int
  q_body :: body
  q_method :: "string option"
  q_key :: "string option"
  q_enqueued_at :: time
  q_dispatched_at :: "time option"
  q_completed_at :: "time option"
  q_expires_at :: "time option"
  q_attempts :: int
  q_status :: string
  q_last_error :: "string option"
  q_response :: "body option"
  q_next_attempt_at :: "time option"
  q_settling_since :: "time option"

type_synonym a2a_queue = "queue_row list"

definition PriorityCritical :: int where "PriorityCritical = 100"
definition PriorityTask :: int where "PriorityTask = 50"
definition PriorityInfo :: int where "PriorityInfo = 10"

definition transientRetryBackoffSecs :: int where "transientRetryBackoffSecs = 5"

definition maxAttempts :: int where "maxAttempts = 5"

record QueuedItem =
  it_ID :: string
  it_WorkspaceID :: string
  it_CallerID :: "string option"
  it_Priority :: int
  it_Body :: body
  it_Method :: "string option"
  it_Attempts :: int
  it_EnqueuedAt :: time
  it_SettlingSince :: "time option"

subsection \<open>Enqueue\<close>

definition systemCallerPrefixes :: "string list" where
  "systemCallerPrefixes = [''webhook:'', ''system:'', ''test:'', ''channel:'']"

definition isSystemCaller :: "string \<Rightarrow> bool" where
  "isSystemCaller callerID = list_ex (\<lambda>p. prefix p callerID) systemCallerPrefixes"

text \<open>The rows the partial unique index covers.\<close>

definition active :: "queue_row \<Rightarrow> bool" where
  "active r = (q_status r = ''queued'' \<or> q_status r = ''dispatched'')"

definition active_key :: "string \<Rightarrow> string \<Rightarrow> queue_row \<Rightarrow> bool" where
  "active_key ws key r = (q_workspace r = ws \<and> q_key r = Some key \<and> active r)"

definition expired :: "time \<Rightarrow> queue_row \<Rightarrow> bool" where
  "expired now r = (case q_expires_at r of None \<Rightarrow> False | Some e \<Rightarrow> e \<le> now)"

definition superseded_note :: string where
  "superseded_note = ''superseded: expired before drain; replaced by a fresh enqueue''"

definition supersede_expired :: "time \<Rightarrow> string \<Rightarrow> string \<Rightarrow> a2a_queue \<Rightarrow> a2a_queue" where
  "supersede_expired now workspaceID idempotencyKey tbl =
    sql_update (\<lambda>r. q_workspace r = workspaceID \<and> q_key r = Some idempotencyKey \<and> q_status r = ''queued'' \<and> expired now r)
      (\<lambda>r. r\<lparr>q_status := ''dropped'',
             q_last_error := Some superseded_note\<rparr>) tbl"

definition new_row ::
  "string \<Rightarrow> time \<Rightarrow> string \<Rightarrow> string option \<Rightarrow> int \<Rightarrow> body \<Rightarrow> string option \<Rightarrow> string option \<Rightarrow> time option \<Rightarrow> queue_row" where
  "new_row newid now ws caller prio b method key expires =
    \<lparr>q_id = newid, q_workspace = ws, q_caller = caller, q_priority = prio, q_body = b, q_method = method,
     q_key = key, q_enqueued_at = now, q_dispatched_at = None, q_completed_at = None, q_expires_at = expires,
     q_attempts = 0, q_status = ''queued'', q_last_error = None, q_response = None,
     q_next_attempt_at = None, q_settling_since = None\<rparr>"

text \<open>\<^verbatim>\<open>INSERT .. ON CONFLICT DO NOTHING RETURNING id\<close>; \<open>None\<close> is \<open>sql.ErrNoRows\<close>.\<close>

definition insert_row :: "queue_row \<Rightarrow> a2a_queue \<Rightarrow> string option \<times> a2a_queue" where
  "insert_row r tbl =
    (if (case q_key r of None \<Rightarrow> False | Some k \<Rightarrow> list_ex (active_key (q_workspace r) k) tbl)
     then (None, tbl) else (Some (q_id r), tbl @ [r]))"

record enqueue_faults =
  ef_supersede :: bool
  ef_insert :: bool
  ef_lookup :: bool
  ef_depth :: bool

definition no_enqueue_faults :: enqueue_faults where
  "no_enqueue_faults = \<lparr>ef_supersede = False, ef_insert = False, ef_lookup = False, ef_depth = False\<rparr>"

datatype queue_error = ErrQueueDB | ErrQueueNoRows

definition EnqueueA2A ::
  "enqueue_faults \<Rightarrow> string \<Rightarrow> time \<Rightarrow> string \<Rightarrow> string \<Rightarrow> int \<Rightarrow> body \<Rightarrow> string \<Rightarrow> string \<Rightarrow> time option
     \<Rightarrow> a2a_queue \<Rightarrow> (queue_error + string \<times> nat) \<times> a2a_queue" where
  "EnqueueA2A fl newid now workspaceID callerID priority b method idempotencyKey expiresAt tbl =
    (let keyArg = nullif_empty idempotencyKey;
         callerArg = (if callerID \<noteq> [] \<and> \<not> isSystemCaller callerID then Some callerID else None);
         methodArg = nullif_empty method;
         tbl1 = (if idempotencyKey \<noteq> [] \<and> \<not> ef_supersede fl
                 then supersede_expired now workspaceID idempotencyKey tbl else tbl)
     in if ef_insert fl then (Inl ErrQueueDB, tbl1)
        else
          case insert_row (new_row newid now workspaceID callerArg priority b methodArg keyArg expiresAt) tbl1 of
            (inserted, tbl2) \<Rightarrow>
              (case (case inserted of
                       Some i \<Rightarrow> Inr i
                     | None \<Rightarrow>
                        if idempotencyKey = [] then Inl ErrQueueNoRows
                        else if ef_lookup fl then Inl ErrQueueDB
                        else case sql_find (active_key workspaceID idempotencyKey) tbl2 of
                            None \<Rightarrow> Inl ErrQueueNoRows | Some r \<Rightarrow> Inr (q_id r)) of
                 Inl e \<Rightarrow> (Inl e, tbl2)
               | Inr i \<Rightarrow>
                   (Inr (i, if ef_depth fl then 0
                            else sql_affected (\<lambda>r. q_workspace r = workspaceID \<and> q_status r = ''queued'') tbl2), tbl2)))"

text \<open>
  The proxy's hand-over of a busy target's message. The answer: \<open>Some\<close> queue id and depth for
  202, \<open>None\<close> when the insert failed.
\<close>

definition enqueueBusyA2A ::
  "enqueue_faults \<Rightarrow> (json \<Rightarrow> int) \<Rightarrow> string \<Rightarrow> time \<Rightarrow> string \<Rightarrow> string \<Rightarrow> body \<Rightarrow> string
     \<Rightarrow> a2a_queue \<Rightarrow> (string \<times> nat) option \<times> a2a_queue" where
  "enqueueBusyA2A fl float_int newid now workspaceID callerID b a2aMethod tbl =
    (let secs = extractExpiresInSeconds float_int b;
         expiresAt = (if secs > 0 then Some (now + int64 (secs * second)) else None)
     in case EnqueueA2A fl newid now workspaceID callerID PriorityTask b a2aMethod (extractIdempotencyKey b) expiresAt tbl of
          (Inr ack, tbl') \<Rightarrow> (Some ack, tbl')
        | (Inl e, tbl') \<Rightarrow> (None, tbl'))"


subsection \<open>Claiming an item\<close>

definition eligible :: "time \<Rightarrow> string \<Rightarrow> queue_row \<Rightarrow> bool" where
  "eligible now ws r =
    (q_workspace r = ws \<and> q_status r = ''queued'' \<and> \<not> expired now r
     \<and> (case q_next_attempt_at r of None \<Rightarrow> True | Some t \<Rightarrow> t \<le> now))"

text \<open>\<^verbatim>\<open>ORDER BY priority DESC, enqueued_at ASC\<close>.\<close>

definition by_priority :: "a2a_queue \<Rightarrow> a2a_queue" where
  "by_priority rows = sort_key (\<lambda>r. - q_priority r) (sort_key q_enqueued_at rows)"

definition item_of :: "queue_row \<Rightarrow> QueuedItem" where
  "item_of r = \<lparr>it_ID = q_id r, it_WorkspaceID = q_workspace r, it_CallerID = q_caller r, it_Priority = q_priority r,
     it_Body = q_body r, it_Method = q_method r, it_Attempts = q_attempts r, it_EnqueuedAt = q_enqueued_at r,
     it_SettlingSince = q_settling_since r\<rparr>"

definition claim_row :: "time \<Rightarrow> queue_row \<Rightarrow> queue_row" where
  "claim_row now r = r\<lparr>q_status := ''dispatched'', q_dispatched_at := Some now, q_attempts := q_attempts r + 1\<rparr>"

text \<open>
  The transaction commits, fails before its commit (nothing changes), or reports an error
  although it did commit.
\<close>

datatype dequeue_fault = TxOk | TxFails | TxCommitLost

definition DequeueNext ::
  "dequeue_fault \<Rightarrow> (string \<Rightarrow> bool) \<Rightarrow> time \<Rightarrow> string \<Rightarrow> a2a_queue
     \<Rightarrow> (queue_error + QueuedItem option) \<times> a2a_queue" where
  "DequeueNext fl locked now workspaceID tbl =
    (if fl = TxFails then (Inl ErrQueueDB, tbl)
     else case by_priority (filter (\<lambda>r. eligible now workspaceID r \<and> \<not> locked (q_id r)) tbl) of
         [] \<Rightarrow> (Inr None, tbl)
       | r # _ \<Rightarrow>
           ((if fl = TxCommitLost then Inl ErrQueueDB else Inr (Some (item_of r))),
            sql_update (\<lambda>x. q_id x = q_id r) (claim_row now) tbl))"

subsection \<open>Settling an item\<close>

text \<open>Bytes that are no JSON are refused by the \<open>jsonb\<close> column.\<close>

definition MarkQueueItemCompleted :: "bool \<Rightarrow> time \<Rightarrow> string \<Rightarrow> body \<Rightarrow> a2a_queue \<Rightarrow> a2a_queue" where
  "MarkQueueItemCompleted fails now i responseBody tbl =
    (let respBody = (if bd_bytes responseBody = [] then None else Some responseBody)
     in if fails \<or> (bd_bytes responseBody \<noteq> [] \<and> bd_json responseBody = None) then tbl
        else sql_update (\<lambda>r. q_id r = i)
               (\<lambda>r. r\<lparr>q_status := ''completed'', q_completed_at := Some now, q_response := respBody\<rparr>) tbl)"

definition failed_row :: "string \<Rightarrow> queue_row \<Rightarrow> queue_row" where
  "failed_row errMsg r =
    r\<lparr>q_status := (if q_attempts r \<ge> maxAttempts then ''failed'' else ''queued''),
      q_last_error := Some errMsg, q_dispatched_at := None\<rparr>"

definition MarkQueueItemFailed :: "bool \<Rightarrow> string \<Rightarrow> string \<Rightarrow> a2a_queue \<Rightarrow> bool \<times> a2a_queue" where
  "MarkQueueItemFailed fails i errMsg tbl =
    (if fails then (False, tbl)
     else
       let tbl' = sql_update (\<lambda>r. q_id r = i) (failed_row errMsg) tbl
       in case sql_find (\<lambda>r. q_id r = i) tbl' of
            None \<Rightarrow> (False, tbl')
          | Some r \<Rightarrow> (q_status r = ''failed'', tbl'))"

definition retry_row :: "time \<Rightarrow> string \<Rightarrow> queue_row \<Rightarrow> queue_row" where
  "retry_row now errMsg r =
    r\<lparr>q_status := ''queued'', q_attempts := max (q_attempts r - 1) 0, q_last_error := Some errMsg,
      q_dispatched_at := None, q_next_attempt_at := Some (now + transientRetryBackoffSecs * second),
      q_settling_since := coalesce (q_settling_since r) (Some now)\<rparr>"

definition MarkQueueItemTransientRetry :: "bool \<Rightarrow> time \<Rightarrow> string \<Rightarrow> string \<Rightarrow> a2a_queue \<Rightarrow> a2a_queue" where
  "MarkQueueItemTransientRetry fails now i errMsg tbl =
    (if fails then tbl else sql_update (\<lambda>r. q_id r = i) (retry_row now errMsg) tbl)"

definition DropQueueItemTerminal :: "bool \<Rightarrow> time \<Rightarrow> string \<Rightarrow> string \<Rightarrow> a2a_queue \<Rightarrow> a2a_queue" where
  "DropQueueItemTerminal fails now i reason tbl =
    (if fails then tbl
     else sql_update (\<lambda>r. q_id r = i \<and> q_status r = ''dispatched'')
            (\<lambda>r. r\<lparr>q_status := ''dropped'', q_last_error := Some reason, q_dispatched_at := None,
                   q_completed_at := Some now\<rparr>) tbl)"

subsection \<open>Clean-up\<close>

definition stale_note :: "string \<Rightarrow> string" where
  "stale_note now_text = [char_of (10 :: nat)]
     @ ''[DropStaleQueueItems] auto-dropped: queue item age exceeded the post-incident TTL. '' @ ''Dropped at '' @ now_text"

text \<open>
  \<^verbatim>\<open>last_error || ..\<close> is NULL when the column is NULL. An empty workspace id sweeps all
  workspaces; \<open>now_text\<close> is \<^verbatim>\<open>now()::text\<close>.
\<close>

definition DropStaleQueueItems ::
  "bool \<Rightarrow> (string \<Rightarrow> bool) \<Rightarrow> time \<Rightarrow> string \<Rightarrow> string \<Rightarrow> int \<Rightarrow> a2a_queue \<Rightarrow> (queue_error + nat) \<times> a2a_queue" where
  "DropStaleQueueItems fails locked now now_text workspaceID maxAgeMinutes tbl =
    (let hit = (\<lambda>r. (workspaceID = [] \<or> q_workspace r = workspaceID) \<and> q_status r = ''queued''
                    \<and> q_enqueued_at r < now - minute * maxAgeMinutes \<and> \<not> locked (q_id r))
     in if fails then (Inl ErrQueueDB, tbl)
        else (Inr (sql_affected hit tbl),
              sql_update hit (\<lambda>r. r\<lparr>q_status := ''dropped'',
                q_last_error := map_option (\<lambda>e. e @ stale_note now_text) (q_last_error r)\<rparr>) tbl))"

datatype stale_answer = Stale400 | Stale500 | Stale200 nat

text \<open>The admin endpoint; the two query parameters are \<open>None\<close> when absent.\<close>

definition DropStale ::
  "bool \<Rightarrow> (string \<Rightarrow> bool) \<Rightarrow> time \<Rightarrow> string \<Rightarrow> string option \<Rightarrow> string option \<Rightarrow> a2a_queue \<Rightarrow> stale_answer \<times> a2a_queue" where
  "DropStale fails locked now now_text maxAgeParam wsParam tbl =
    (case atoi (case maxAgeParam of None \<Rightarrow> ''60'' | Some s \<Rightarrow> s) of
       None \<Rightarrow> (Stale400, tbl)
     | Some maxAge \<Rightarrow>
        if maxAge < 1 then (Stale400, tbl)
        else case DropStaleQueueItems fails locked now now_text (case wsParam of None \<Rightarrow> [] | Some s \<Rightarrow> s) maxAge tbl of
            (Inl e, tbl') \<Rightarrow> (Stale500, tbl')
          | (Inr n, tbl') \<Rightarrow> (Stale200 n, tbl'))"

definition restartContextSourceType :: string where "restartContextSourceType = ''self-restart-context''"

text \<open>\<^verbatim>\<open>body #>> path\<close> when the value there is a string.\<close>

fun jsonb_path :: "string list \<Rightarrow> json \<Rightarrow> json option" where
  "jsonb_path [] j = Some j"
| "jsonb_path (k # ks) (JObj kvs) = (case obj_get kvs k of None \<Rightarrow> None | Some v \<Rightarrow> jsonb_path ks v)"
| "jsonb_path (k # ks) _ = None"

definition is_restart_context :: "queue_row \<Rightarrow> bool" where
  "is_restart_context r =
    (case bd_json (q_body r) of None \<Rightarrow> False
     | Some j \<Rightarrow> jsonb_path [''params'', ''message'', ''metadata'', ''source_type''] j = Some (JStr restartContextSourceType))"

definition dropQueuedRestartContext :: "bool \<Rightarrow> string \<Rightarrow> a2a_queue \<Rightarrow> a2a_queue" where
  "dropQueuedRestartContext fails workspaceID tbl =
    (if fails then tbl
     else sql_update (\<lambda>r. q_workspace r = workspaceID \<and> q_status r = ''queued'' \<and> is_restart_context r)
            (\<lambda>r. r\<lparr>q_status := ''dropped'',
                   q_last_error := Some ''superseded: a newer restart-context snapshot replaced it''\<rparr>) tbl)"

definition restartContextBeingDelivered :: "string \<Rightarrow> a2a_queue \<Rightarrow> bool" where
  "restartContextBeingDelivered workspaceID tbl =
    list_ex (\<lambda>r. q_workspace r = workspaceID \<and> q_status r = ''dispatched'' \<and> is_restart_context r) tbl"

text \<open>Queued, unexpired items of workspaces that are neither online nor degraded.\<close>

definition CountStrandedQueueItems :: "(string \<rightharpoonup> string) \<Rightarrow> time \<Rightarrow> a2a_queue \<Rightarrow> nat" where
  "CountStrandedQueueItems ws_status now tbl =
    sql_affected (\<lambda>r. q_status r = ''queued'' \<and> \<not> expired now r
      \<and> (case ws_status (q_workspace r) of None \<Rightarrow> False | Some st \<Rightarrow> st \<noteq> ''online'' \<and> st \<noteq> ''degraded'')) tbl"


subsection \<open>Concurrent producers and drains\<close>

text \<open>
  Drains are numbered; \<open>qs_held\<close> is the item a drain has claimed and not yet settled. Every
  statement of any caller is one step. A drain may settle its item in any of the four ways,
  and may also stop without settling it (a crash, or a database fault in the settling
  statement, in which case the row stays as it is).
\<close>

record queue_sys =
  qs_table :: a2a_queue
  qs_held :: "nat \<Rightarrow> string option"

inductive queue_step :: "queue_sys \<Rightarrow> queue_sys \<Rightarrow> bool" where
  step_supersede: "queue_step s (s\<lparr>qs_table := supersede_expired now ws key (qs_table s)\<rparr>)"
| step_insert: "newid \<notin> q_id ` set (qs_table s) \<Longrightarrow>
    queue_step s (s\<lparr>qs_table := snd (insert_row (new_row newid now ws caller prio b method key expires) (qs_table s))\<rparr>)"
| step_claim: "qs_held s d = None \<Longrightarrow> DequeueNext fl locked now ws (qs_table s) = (Inr (Some item), tbl') \<Longrightarrow>
    queue_step s (s\<lparr>qs_table := tbl', qs_held := (qs_held s)(d := Some (it_ID item))\<rparr>)"
| step_no_claim: "DequeueNext fl locked now ws (qs_table s) = (x, tbl') \<Longrightarrow> \<forall>item. x \<noteq> Inr (Some item) \<Longrightarrow>
    queue_step s (s\<lparr>qs_table := tbl'\<rparr>)"
| step_complete: "qs_held s d = Some i \<Longrightarrow>
    queue_step s (s\<lparr>qs_table := MarkQueueItemCompleted f now i resp (qs_table s), qs_held := (qs_held s)(d := None)\<rparr>)"
| step_fail: "qs_held s d = Some i \<Longrightarrow>
    queue_step s (s\<lparr>qs_table := snd (MarkQueueItemFailed f i msg (qs_table s)), qs_held := (qs_held s)(d := None)\<rparr>)"
| step_retry: "qs_held s d = Some i \<Longrightarrow>
    queue_step s (s\<lparr>qs_table := MarkQueueItemTransientRetry f now i msg (qs_table s), qs_held := (qs_held s)(d := None)\<rparr>)"
| step_drop: "qs_held s d = Some i \<Longrightarrow>
    queue_step s (s\<lparr>qs_table := DropQueueItemTerminal f now i msg (qs_table s), qs_held := (qs_held s)(d := None)\<rparr>)"
| step_abandon: "queue_step s (s\<lparr>qs_held := (qs_held s)(d := None)\<rparr>)"
| step_stale: "queue_step s (s\<lparr>qs_table := snd (DropStaleQueueItems f locked now now_text ws age (qs_table s))\<rparr>)"
| step_context: "queue_step s (s\<lparr>qs_table := dropQueuedRestartContext f ws (qs_table s)\<rparr>)"

inductive_cases queue_stepE: "queue_step s s'"

definition queue_statuses :: "string list" where
  "queue_statuses = [''queued'', ''dispatched'', ''completed'', ''dropped'', ''failed'']"

definition terminal_status :: "string \<Rightarrow> bool" where
  "terminal_status v = (v = ''completed'' \<or> v = ''dropped'' \<or> v = ''failed'')"

definition queue_status :: "queue_sys \<Rightarrow> string \<Rightarrow> string option" where
  "queue_status s i = map_option q_status (sql_find (\<lambda>r. q_id r = i) (qs_table s))"

text \<open>
  The attempt counter: at most four claims lie behind a waiting row, one to five behind a
  claimed one, at most five behind any.
\<close>

definition attempts_ok :: "queue_row \<Rightarrow> bool" where
  "attempts_ok r = (0 \<le> q_attempts r \<and> q_attempts r \<le> maxAttempts
     \<and> (q_status r = ''queued'' \<longrightarrow> q_attempts r < maxAttempts)
     \<and> (q_status r = ''dispatched'' \<longrightarrow> 0 < q_attempts r))"

definition key_unique :: "a2a_queue \<Rightarrow> bool" where
  "key_unique tbl \<longleftrightarrow> (\<forall>r \<in> set tbl. \<forall>r' \<in> set tbl. \<forall>k. active_key (q_workspace r) k r \<and> active_key (q_workspace r) k r' \<longrightarrow> q_id r = q_id r')"

definition queue_ok :: "a2a_queue \<Rightarrow> bool" where
  "queue_ok tbl \<longleftrightarrow> unique_key q_id tbl \<and> key_unique tbl
    \<and> (\<forall>r \<in> set tbl. q_status r \<in> set queue_statuses \<and> attempts_ok r)"

definition held_ok :: "queue_sys \<Rightarrow> bool" where
  "held_ok s \<longleftrightarrow> (\<forall>d i. qs_held s d = Some i \<longrightarrow> queue_status s i = Some ''dispatched''
     \<and> (\<forall>d'. qs_held s d' = Some i \<longrightarrow> d' = d))"

definition queue_inv :: "queue_sys \<Rightarrow> bool" where
  "queue_inv s \<longleftrightarrow> queue_ok (qs_table s) \<and> held_ok s"

subsection \<open>The invariant\<close>

text \<open>
  Every statement is an update of rows: what it may do to one row decides whether the
  invariant is kept.
\<close>

lemma queue_ok_update:
  assumes "queue_ok tbl"
    and "\<And>r. r \<in> set tbl \<Longrightarrow> P r \<Longrightarrow> q_id (f r) = q_id r \<and> q_workspace (f r) = q_workspace r \<and> q_key (f r) = q_key r
      \<and> (active (f r) \<longrightarrow> active r) \<and> q_status (f r) \<in> set queue_statuses \<and> attempts_ok (f r)"
  shows "queue_ok (sql_update P f tbl)"
proof -
  define g where "g = (\<lambda>r. if P r then f r else r)"
  have g: "q_id (g r) = q_id r" "q_workspace (g r) = q_workspace r" "q_key (g r) = q_key r"
    "active (g r) \<Longrightarrow> active r" "q_status (g r) \<in> set queue_statuses" "attempts_ok (g r)" if "r \<in> set tbl" for r
    using assms(2) [OF that] assms(1) that by (cases "P r"; auto simp: queue_ok_def g_def)+
  have u: "sql_update P f tbl = map g tbl" by (simp add: sql_update_def g_def)
  have "map q_id (map g tbl) = map q_id tbl" using g(1) by simp
  then have "unique_key q_id (map g tbl)"
    using assms(1) unfolding queue_ok_def unique_key_def by (simp only:)
  moreover have "key_unique (map g tbl)"
    unfolding key_unique_def set_map
  proof (intro ballI allI impI)
    fix x y k
    assume "x \<in> g ` set tbl" "y \<in> g ` set tbl" and a: "active_key (q_workspace x) k x \<and> active_key (q_workspace x) k y"
    then obtain r r' where r: "r \<in> set tbl" "x = g r" "r' \<in> set tbl" "y = g r'" by blast
    have "active_key (q_workspace r) k r \<and> active_key (q_workspace r) k r'"
      using a g(2-4) [OF r(1)] g(2-4) [OF r(3)] unfolding active_key_def r(2,4) by simp
    with assms(1) r(1,3) have "q_id r = q_id r'" unfolding queue_ok_def key_unique_def by blast
    with g(1) [OF r(1)] g(1) [OF r(3)] r(2,4) show "q_id x = q_id y" by simp
  qed
  ultimately show ?thesis using g(5,6) unfolding u queue_ok_def by simp
qed

lemma queue_status_update:
  assumes "\<And>r. P r \<Longrightarrow> q_id (f r) = q_id r"
  shows "queue_status (s\<lparr>qs_table := sql_update P f tbl\<rparr>) i =
    map_option (\<lambda>r. q_status (if P r then f r else r)) (sql_find (\<lambda>r. q_id r = i) tbl)"
  unfolding queue_status_def using sql_find_sql_update [where key = q_id and P = P and f = f, OF assms, of i tbl]
  by (simp add: option.map_comp comp_def)


lemma queue_status_row:
  assumes "unique_key q_id (qs_table s)" and "r \<in> set (qs_table s)"
  shows "queue_status s (q_id r) = Some (q_status r)"
  using sql_find_key [OF assms] by (simp add: queue_status_def)

text \<open>A statement that only touches waiting rows, and ends them.\<close>

lemma end_waiting:
  assumes "queue_inv s" and "\<And>r. P r \<Longrightarrow> q_status r = ''queued''"
    and "\<And>r. q_id (f r) = q_id r \<and> q_workspace (f r) = q_workspace r \<and> q_key (f r) = q_key r
      \<and> q_attempts (f r) = q_attempts r \<and> q_status (f r) = ''dropped''"
  shows "queue_inv (s\<lparr>qs_table := sql_update P f (qs_table s)\<rparr>)"
    and "queue_status s k = Some v \<Longrightarrow> v \<noteq> ''queued'' \<Longrightarrow>
      queue_status (s\<lparr>qs_table := sql_update P f (qs_table s)\<rparr>) k = Some v"
proof -
  have ok: "queue_ok (qs_table s)" using assms(1) by (simp add: queue_inv_def)
  have "queue_ok (sql_update P f (qs_table s))"
  proof (rule queue_ok_update [OF ok], goal_cases)
    case (1 r)
    with ok have "attempts_ok r" by (simp add: queue_ok_def)
    with assms(3) [of r] show ?case by (auto simp: active_def attempts_ok_def queue_statuses_def)
  qed
  moreover have keep: "queue_status (s\<lparr>qs_table := sql_update P f (qs_table s)\<rparr>) k = Some v"
    if "queue_status s k = Some v" "v \<noteq> ''queued''" for k v
  proof -
    from that(1) obtain r where "sql_find (\<lambda>r. q_id r = k) (qs_table s) = Some r" "q_status r = v"
      by (auto simp: queue_status_def)
    with assms(2) that(2) show ?thesis using queue_status_update [where P = P and f = f and s = s and tbl = "qs_table s" and i = k] assms(3) by auto
  qed
  ultimately show "queue_inv (s\<lparr>qs_table := sql_update P f (qs_table s)\<rparr>)"
    using assms(1) by (auto simp: queue_inv_def held_ok_def)
  show "queue_status s k = Some v \<Longrightarrow> v \<noteq> ''queued'' \<Longrightarrow>
      queue_status (s\<lparr>qs_table := sql_update P f (qs_table s)\<rparr>) k = Some v" by (rule keep)
qed

text \<open>A statement by which a drain settles the item it holds.\<close>

lemma settle_held:
  assumes "queue_inv s" and "qs_held s d = Some i"
    and "\<And>r. q_status r = ''dispatched'' \<Longrightarrow> attempts_ok r \<Longrightarrow> q_id (f r) = q_id r \<and> q_workspace (f r) = q_workspace r
      \<and> q_key (f r) = q_key r \<and> q_status (f r) \<in> set queue_statuses \<and> attempts_ok (f r)"
  shows "queue_inv (s\<lparr>qs_table := sql_update (\<lambda>r. q_id r = i) f (qs_table s), qs_held := (qs_held s)(d := None)\<rparr>)"
    and "k \<noteq> i \<Longrightarrow> queue_status (s\<lparr>qs_table := sql_update (\<lambda>r. q_id r = i) f (qs_table s),
      qs_held := (qs_held s)(d := None)\<rparr>) k = queue_status s k"
proof -
  let ?s = "s\<lparr>qs_table := sql_update (\<lambda>r. q_id r = i) f (qs_table s), qs_held := (qs_held s)(d := None)\<rparr>"
  have ok: "queue_ok (qs_table s)" and held: "held_ok s" using assms(1) by (simp_all add: queue_inv_def)
  have disp: "q_status r = ''dispatched''" if "r \<in> set (qs_table s)" "q_id r = i" for r
    using held assms(2) queue_status_row [of s r] ok that by (auto simp: held_ok_def queue_ok_def)
  have f: "q_id (f r) = q_id r \<and> q_workspace (f r) = q_workspace r
      \<and> q_key (f r) = q_key r \<and> q_status (f r) \<in> set queue_statuses \<and> attempts_ok (f r)"
    if "r \<in> set (qs_table s)" "q_id r = i" for r
    using assms(3) disp [OF that] ok that(1) by (auto simp: queue_ok_def)
  have "queue_ok (qs_table ?s)"
    using queue_ok_update [OF ok, of "\<lambda>r. q_id r = i" f] f disp by (simp add: active_def)
  moreover have other: "queue_status ?s k = queue_status s k" if "k \<noteq> i" for k
  proof -
    have "sql_find (\<lambda>r. q_id r = k) (sql_update (\<lambda>r. q_id r = i) f (qs_table s)) = sql_find (\<lambda>r. q_id r = k) (qs_table s)"
      by (rule sql_find_update_other) (use f that in auto)
    then show ?thesis by (simp add: queue_status_def)
  qed
  moreover have "held_ok ?s"
    unfolding held_ok_def
  proof (intro allI impI conjI)
    fix e j
    assume e: "qs_held ?s e = Some j"
    then have e': "e \<noteq> d" "qs_held s e = Some j" by (auto split: if_splits)
    with held assms(2) have "j \<noteq> i" unfolding held_ok_def by blast
    with other held e'(2) show "queue_status ?s j = Some ''dispatched''" by (simp add: held_ok_def)
    fix e2
    assume "qs_held ?s e2 = Some j"
    then have "qs_held s e2 = Some j" by (auto split: if_splits)
    with held e'(2) show "e2 = e" unfolding held_ok_def by blast
  qed
  ultimately show "queue_inv ?s" and "k \<noteq> i \<Longrightarrow> queue_status ?s k = queue_status s k"
    by (simp_all add: queue_inv_def)
qed


lemma set_by_priority [simp]: "set (by_priority rows) = set rows"
  by (simp add: by_priority_def)

lemma dequeue_cases:
  assumes "DequeueNext fl locked now ws tbl = (x, tbl')"
  obtains "tbl' = tbl" and "\<forall>item. x \<noteq> Inr (Some item)"
  | r where "r \<in> set tbl" "eligible now ws r" "\<not> locked (q_id r)"
      "tbl' = sql_update (\<lambda>x. q_id x = q_id r) (claim_row now) tbl"
      "x = Inr (Some (item_of r)) \<or> x = Inl ErrQueueDB"
proof (cases "fl = TxFails")
  case True
  with assms that(1) show thesis by (auto simp: DequeueNext_def)
next
  case False
  let ?rows = "by_priority (filter (\<lambda>r. eligible now ws r \<and> \<not> locked (q_id r)) tbl)"
  show thesis
  proof (cases ?rows)
    case Nil
    with assms False that(1) show thesis by (auto simp: DequeueNext_def)
  next
    case (Cons r rs)
    then have "r \<in> set ?rows" by (simp only: list.set_intros(1))
    then have "r \<in> set tbl" "eligible now ws r" "\<not> locked (q_id r)" by simp_all
    moreover have "tbl' = sql_update (\<lambda>x. q_id x = q_id r) (claim_row now) tbl"
      "x = Inr (Some (item_of r)) \<or> x = Inl ErrQueueDB"
      using assms False Cons by (auto simp: DequeueNext_def)
    ultimately show thesis by (rule that(2))
  qed
qed

text \<open>Claiming a waiting row, with or without a drain that learns of it.\<close>

lemma claim_waiting:
  assumes "queue_inv s" and "r \<in> set (qs_table s)" and "q_status r = ''queued''"
    and "tbl' = sql_update (\<lambda>x. q_id x = q_id r) (claim_row now) (qs_table s)"
  shows "queue_inv (s\<lparr>qs_table := tbl'\<rparr>)"
    and "qs_held s d = None \<Longrightarrow> queue_inv (s\<lparr>qs_table := tbl', qs_held := (qs_held s)(d := Some (q_id r))\<rparr>)"
    and "k \<noteq> q_id r \<Longrightarrow> queue_status (s\<lparr>qs_table := tbl'\<rparr>) k = queue_status s k"
    and "queue_status (s\<lparr>qs_table := tbl'\<rparr>) (q_id r) = Some ''dispatched''"
proof -
  let ?s = "s\<lparr>qs_table := tbl'\<rparr>"
  have ok: "queue_ok (qs_table s)" and held: "held_ok s" using assms(1) by (simp_all add: queue_inv_def)
  have uniq: "unique_key q_id (qs_table s)" using ok by (simp add: queue_ok_def)
  have only: "x = r" if "x \<in> set (qs_table s)" "q_id x = q_id r" for x
    by (rule unique_key_eq [OF uniq that(1) assms(2) that(2)])
  have "attempts_ok r" using ok assms(2) by (simp add: queue_ok_def)
  then have at: "attempts_ok (claim_row now r)" using assms(3) by (simp add: attempts_ok_def claim_row_def)
  have "queue_ok tbl'" unfolding assms(4)
  proof (rule queue_ok_update [OF ok], goal_cases)
    case (1 x)
    then have "x = r" by (rule only)
    with at assms(3) show ?case by (simp add: claim_row_def active_def queue_statuses_def)
  qed
  moreover have other: "queue_status ?s k = queue_status s k" if "k \<noteq> q_id r" for k
    using sql_find_update_other [of "qs_table s" "\<lambda>x. q_id x = q_id r" q_id k "claim_row now"] that
    by (simp add: queue_status_def assms(4) claim_row_def)
  moreover have self: "queue_status ?s (q_id r) = Some ''dispatched''"
    using queue_status_update [where P = "\<lambda>x. q_id x = q_id r" and f = "claim_row now" and s = s and tbl = "qs_table s" and i = "q_id r"]
      sql_find_key [OF uniq assms(2)] assms(4) by (simp add: claim_row_def)
  moreover have free: "qs_held s e \<noteq> Some (q_id r)" for e
    using held queue_status_row [OF uniq assms(2)] assms(3) by (auto simp: held_ok_def)
  moreover have "held_ok ?s"
    unfolding held_ok_def
  proof (intro allI impI conjI)
    fix e j
    assume "qs_held ?s e = Some j"
    then have e: "qs_held s e = Some j" by simp
    with free have "j \<noteq> q_id r" by blast
    with other held e show "queue_status ?s j = Some ''dispatched''" by (simp add: held_ok_def)
    fix e2
    assume "qs_held ?s e2 = Some j"
    with e held show "e2 = e" by (simp add: held_ok_def)
  qed
  ultimately show "queue_inv ?s" and "k \<noteq> q_id r \<Longrightarrow> queue_status ?s k = queue_status s k"
    and "queue_status ?s (q_id r) = Some ''dispatched''"
    by (simp_all add: queue_inv_def)
  show "queue_inv (s\<lparr>qs_table := tbl', qs_held := (qs_held s)(d := Some (q_id r))\<rparr>)" if "qs_held s d = None"
  proof -
    let ?t = "s\<lparr>qs_table := tbl', qs_held := (qs_held s)(d := Some (q_id r))\<rparr>"
    have st: "queue_status ?t k = queue_status ?s k" for k by (simp add: queue_status_def)
    have "held_ok ?t"
      unfolding held_ok_def
    proof (intro allI impI conjI)
      fix e j
      assume e: "qs_held ?t e = Some j"
      show "queue_status ?t j = Some ''dispatched''"
      proof (cases "j = q_id r")
        case False
        with e have "qs_held s e = Some j" by (auto split: if_splits)
        with held False other st show ?thesis by (simp add: held_ok_def)
      qed (simp add: self st)
      fix e2
      assume e2: "qs_held ?t e2 = Some j"
      show "e2 = e"
      proof (cases "j = q_id r")
        case True
        with e e2 free show ?thesis by (auto split: if_splits)
      next
        case False
        with e e2 have "qs_held s e = Some j" "qs_held s e2 = Some j" by (auto split: if_splits)
        with held show ?thesis unfolding held_ok_def by blast
      qed
    qed
    with \<open>queue_ok tbl'\<close> show ?thesis by (simp add: queue_inv_def)
  qed
qed

text \<open>A row enters the table waiting, under a fresh id and no active key of another row.\<close>

lemma insert_waiting:
  assumes "queue_inv s" and "newid \<notin> q_id ` set (qs_table s)"
    and "tbl' = snd (insert_row (new_row newid now ws caller prio b method key expires) (qs_table s))"
  shows "queue_inv (s\<lparr>qs_table := tbl'\<rparr>)"
    and "queue_status s k = Some v \<Longrightarrow> queue_status (s\<lparr>qs_table := tbl'\<rparr>) k = Some v"
proof -
  let ?r = "new_row newid now ws caller prio b method key expires"
  have ok: "queue_ok (qs_table s)" and held: "held_ok s" using assms(1) by (simp_all add: queue_inv_def)
  have keep: "queue_status (s\<lparr>qs_table := tbl'\<rparr>) k = Some v" if "queue_status s k = Some v" for k v
    using that assms(3) by (auto simp: queue_status_def insert_row_def sql_find_append split: if_splits)
  show "queue_status s k = Some v \<Longrightarrow> queue_status (s\<lparr>qs_table := tbl'\<rparr>) k = Some v" by (rule keep)
  have "queue_ok tbl'"
  proof (cases "tbl' = qs_table s")
    case False
    then have t: "tbl' = qs_table s @ [?r]"
      and nk: "\<And>k x. key = Some k \<Longrightarrow> x \<in> set (qs_table s) \<Longrightarrow> \<not> active_key ws k x"
      using assms(3) by (auto simp: insert_row_def new_row_def list_ex_iff split: if_splits option.splits)
    have "unique_key q_id tbl'" using ok assms(2) by (simp add: t queue_ok_def unique_key_def new_row_def)
    moreover have "key_unique tbl'"
      unfolding key_unique_def t
    proof (intro ballI allI impI)
      fix x y k
      assume xy: "x \<in> set (qs_table s @ [?r])" "y \<in> set (qs_table s @ [?r])"
        and a: "active_key (q_workspace x) k x \<and> active_key (q_workspace x) k y"
      show "q_id x = q_id y"
      proof (cases "x \<in> set (qs_table s)"; cases "y \<in> set (qs_table s)")
        assume "x \<in> set (qs_table s)" "y \<in> set (qs_table s)"
        with ok a show ?thesis unfolding queue_ok_def key_unique_def by blast
      qed (use xy a nk in \<open>auto simp: active_key_def new_row_def\<close>)
    qed
    ultimately show ?thesis using ok by (simp add: t queue_ok_def new_row_def queue_statuses_def attempts_ok_def maxAttempts_def)
  qed (use ok in simp)
  with held keep show "queue_inv (s\<lparr>qs_table := tbl'\<rparr>)" by (simp add: queue_inv_def held_ok_def)
qed


lemma abandon_held:
  assumes "queue_inv s"
  shows "queue_inv (s\<lparr>qs_held := (qs_held s)(d := None)\<rparr>)"
    and "queue_status (s\<lparr>qs_held := (qs_held s)(d := None)\<rparr>) k = queue_status s k"
  using assms by (auto simp: queue_inv_def held_ok_def queue_status_def split: if_splits)

lemma sql_update_guard: "sql_update (\<lambda>r. P r \<and> Q r) f tbl = sql_update P (\<lambda>r. if Q r then f r else r) tbl"
  by (auto simp: sql_update_def)

text \<open>What the four settling statements do, when they do anything.\<close>

lemma settle_forms:
  "MarkQueueItemCompleted f now i resp tbl = tbl \<or> MarkQueueItemCompleted f now i resp tbl =
     sql_update (\<lambda>r. q_id r = i) (\<lambda>r. r\<lparr>q_status := ''completed'', q_completed_at := Some now,
       q_response := (if bd_bytes resp = [] then None else Some resp)\<rparr>) tbl"
  "snd (MarkQueueItemFailed f i msg tbl) = (if f then tbl else sql_update (\<lambda>r. q_id r = i) (failed_row msg) tbl)"
  "DropQueueItemTerminal f now i msg tbl = (if f then tbl else sql_update (\<lambda>r. q_id r = i)
     (\<lambda>r. if q_status r = ''dispatched'' then r\<lparr>q_status := ''dropped'', q_last_error := Some msg,
        q_dispatched_at := None, q_completed_at := Some now\<rparr> else r) tbl)"
  by (auto simp: MarkQueueItemCompleted_def MarkQueueItemFailed_def DropQueueItemTerminal_def Let_def sql_update_guard
      split: option.splits)

text \<open>
  What a step does to the status and the attempt counter of an item: nothing, a claim, the end
  of a waiting row, or a settlement by the drain that holds it.
\<close>

definition attempts_of :: "queue_sys \<Rightarrow> string \<Rightarrow> int" where
  "attempts_of s i = (case sql_find (\<lambda>r. q_id r = i) (qs_table s) of None \<Rightarrow> 0 | Some r \<Rightarrow> q_attempts r)"

definition delivered :: "queue_sys \<Rightarrow> queue_sys \<Rightarrow> string \<Rightarrow> bool" where
  "delivered s s' i \<longleftrightarrow> queue_status s i = Some ''queued'' \<and> queue_status s' i = Some ''dispatched''"

definition retried :: "queue_sys \<Rightarrow> queue_sys \<Rightarrow> string \<Rightarrow> bool" where
  "retried s s' i \<longleftrightarrow> (\<exists>d now msg. qs_held s d = Some i \<and>
     s' = s\<lparr>qs_table := MarkQueueItemTransientRetry False now i msg (qs_table s), qs_held := (qs_held s)(d := None)\<rparr>)"

definition same_item :: "queue_sys \<Rightarrow> queue_sys \<Rightarrow> string \<Rightarrow> bool" where
  "same_item s s' k \<longleftrightarrow> queue_status s' k = queue_status s k \<and> attempts_of s' k = attempts_of s k"

definition item_moves :: "queue_sys \<Rightarrow> queue_sys \<Rightarrow> string \<Rightarrow> bool" where
  "item_moves s s' k \<longleftrightarrow>
     same_item s s' k
   \<or> queue_status s k = None \<and> queue_status s' k = Some ''queued'' \<and> attempts_of s' k = 0
   \<or> queue_status s k = Some ''queued'' \<and> queue_status s' k = Some ''dropped'' \<and> attempts_of s' k = attempts_of s k
   \<or> queue_status s k = Some ''queued'' \<and> queue_status s' k = Some ''dispatched'' \<and> attempts_of s' k = attempts_of s k + 1
   \<or> queue_status s k = Some ''dispatched''
      \<and> (\<exists>v. queue_status s' k = Some v \<and> v \<in> {''completed'', ''failed'', ''dropped'', ''queued''})
      \<and> attempts_of s' k = attempts_of s k
   \<or> queue_status s k = Some ''dispatched'' \<and> queue_status s' k = Some ''queued'' \<and> retried s s' k
      \<and> attempts_of s' k = attempts_of s k - 1"

lemma lookup_update:
  assumes "\<And>r. P r \<Longrightarrow> q_id (f r) = q_id r" and "qs_table s' = sql_update P f (qs_table s)"
    and "sql_find (\<lambda>r. q_id r = k) (qs_table s) = Some r"
  shows "queue_status s' k = Some (q_status (if P r then f r else r))"
    and "attempts_of s' k = q_attempts (if P r then f r else r)"
    and "queue_status s k = Some (q_status r)" and "attempts_of s k = q_attempts r"
  using sql_find_sql_update [where key = q_id and P = P and f = f, OF assms(1), of k "qs_table s"] assms(2,3)
  by (simp_all add: queue_status_def attempts_of_def)

lemma lookup_absent:
  assumes "\<And>r. P r \<Longrightarrow> q_id (f r) = q_id r" and "qs_table s' = sql_update P f (qs_table s)"
    and "sql_find (\<lambda>r. q_id r = k) (qs_table s) = None"
  shows "same_item s s' k"
  using sql_find_sql_update [where key = q_id and P = P and f = f, OF assms(1), of k "qs_table s"] assms(2,3)
  by (simp add: same_item_def queue_status_def attempts_of_def)

lemma moves_waiting:
  assumes "qs_table s' = sql_update P f (qs_table s)" and "\<And>r. P r \<Longrightarrow> q_status r = ''queued''"
    and "\<And>r. q_id (f r) = q_id r \<and> q_attempts (f r) = q_attempts r \<and> q_status (f r) = ''dropped''"
  shows "item_moves s s' k"
proof (cases "sql_find (\<lambda>r. q_id r = k) (qs_table s)")
  case None
  with lookup_absent [OF _ assms(1)] assms(3) show ?thesis by (simp add: item_moves_def)
next
  case (Some r)
  note l = lookup_update [OF _ assms(1) Some]
  show ?thesis
  proof (cases "P r")
    case True
    with l assms(2,3) show ?thesis unfolding item_moves_def by simp
  next
    case False
    with l assms(3) show ?thesis by (simp add: item_moves_def same_item_def)
  qed
qed

lemma moves_settled:
  assumes "queue_inv s" and "qs_held s d = Some i" and "qs_table s' = sql_update (\<lambda>r. q_id r = i) f (qs_table s)"
    and "\<And>r. q_status r = ''dispatched'' \<Longrightarrow> q_id (f r) = q_id r \<and> q_attempts (f r) = q_attempts r
      \<and> q_status (f r) \<in> {''completed'', ''failed'', ''dropped'', ''queued''}"
  shows "item_moves s s' k"
proof -
  have disp: "q_status x = ''dispatched''" if "x \<in> set (qs_table s)" "q_id x = i" for x
    using assms(1,2) queue_status_row [of s x] that by (auto simp: queue_inv_def held_ok_def queue_ok_def)
  let ?P = "\<lambda>r. q_id r = i \<and> q_status r = ''dispatched''"
  have t: "qs_table s' = sql_update ?P f (qs_table s)"
    using disp unfolding assms(3) by (auto simp: sql_update_def)
  have f: "q_id (f r) = q_id r" if "?P r" for r using assms(4) that by blast
  show ?thesis
  proof (cases "sql_find (\<lambda>r. q_id r = k) (qs_table s)")
    case None
    with lookup_absent [OF f t] show ?thesis by (simp add: item_moves_def)
  next
    case (Some r)
    note l = lookup_update [OF f t Some]
    show ?thesis
    proof (cases "?P r")
      case True
      then show ?thesis using l assms(4) [of r] unfolding item_moves_def by auto
    next
      case False
      with l show ?thesis by (simp add: item_moves_def same_item_def)
    qed
  qed
qed


lemma moves_claim:
  assumes "queue_inv s" and "r \<in> set (qs_table s)" and "q_status r = ''queued''"
    and "qs_table s' = sql_update (\<lambda>x. q_id x = q_id r) (claim_row now) (qs_table s)"
  shows "item_moves s s' k"
proof (cases "sql_find (\<lambda>r. q_id r = k) (qs_table s)")
  case None
  with lookup_absent [OF _ assms(4)] show ?thesis by (simp add: item_moves_def claim_row_def)
next
  case (Some x)
  note l = lookup_update [OF _ assms(4) Some]
  have x: "x \<in> set (qs_table s)" using sql_find_Some_iff [OF Some] by simp
  show ?thesis
  proof (cases "q_id x = q_id r")
    case True
    with unique_key_eq [of q_id "qs_table s" x r] assms(1,2) x have "x = r" by (simp add: queue_inv_def queue_ok_def)
    with l assms(3) show ?thesis unfolding item_moves_def by (simp add: claim_row_def)
  next
    case False
    with l show ?thesis by (simp add: item_moves_def same_item_def claim_row_def)
  qed
qed

lemma moves_insert:
  assumes "queue_inv s" and "newid \<notin> q_id ` set (qs_table s)"
    and "qs_table s' = snd (insert_row (new_row newid now ws caller prio b method key expires) (qs_table s))"
  shows "item_moves s s' k"
  using assms(3)
  by (auto simp: item_moves_def same_item_def queue_status_def attempts_of_def insert_row_def sql_find_append sql_find_Cons
      new_row_def split: if_splits option.splits)

lemma moves_same: "qs_table s' = qs_table s \<Longrightarrow> item_moves s s' k"
  by (simp add: item_moves_def same_item_def queue_status_def attempts_of_def)

lemma moves_retried:
  assumes "queue_inv s" and "qs_held s d = Some i"
    and "s' = s\<lparr>qs_table := MarkQueueItemTransientRetry False now i msg (qs_table s), qs_held := (qs_held s)(d := None)\<rparr>"
  shows "item_moves s s' k"
proof -
  have t: "qs_table s' = sql_update (\<lambda>r. q_id r = i) (retry_row now msg) (qs_table s)"
    by (simp add: assms(3) MarkQueueItemTransientRetry_def)
  have ret: "retried s s' i" using assms(2,3) unfolding retried_def by blast
  show ?thesis
  proof (cases "sql_find (\<lambda>r. q_id r = k) (qs_table s)")
    case None
    with lookup_absent [OF _ t] show ?thesis by (simp add: item_moves_def retry_row_def)
  next
    case (Some r)
    note l = lookup_update [OF _ t Some]
    have r: "r \<in> set (qs_table s)" "q_id r = k" using sql_find_Some_iff [OF Some] by simp_all
    show ?thesis
    proof (cases "k = i")
      case True
      have "q_status r = ''dispatched''"
        using assms(1,2) queue_status_row [of s r] r True by (auto simp: queue_inv_def held_ok_def queue_ok_def)
      moreover have "attempts_ok r" using assms(1) r by (simp add: queue_inv_def queue_ok_def)
      ultimately show ?thesis using l r True ret unfolding item_moves_def by (simp add: retry_row_def attempts_ok_def)
    next
      case False
      with l r show ?thesis by (simp add: item_moves_def same_item_def retry_row_def)
    qed
  qed
qed

lemma settle_ok:
  "q_status r = ''dispatched'' \<Longrightarrow> attempts_ok r \<Longrightarrow> attempts_ok (failed_row msg r) \<and> attempts_ok (retry_row now msg r)"
  by (auto simp: attempts_ok_def failed_row_def retry_row_def maxAttempts_def)

lemma waiting_step:
  assumes "queue_inv s" and "\<And>r. P r \<Longrightarrow> q_status r = ''queued''"
    and "\<And>r. q_id (f r) = q_id r \<and> q_workspace (f r) = q_workspace r \<and> q_key (f r) = q_key r
      \<and> q_attempts (f r) = q_attempts r \<and> q_status (f r) = ''dropped''"
  shows "queue_inv (s\<lparr>qs_table := sql_update P f (qs_table s)\<rparr>)
    \<and> item_moves s (s\<lparr>qs_table := sql_update P f (qs_table s)\<rparr>) k"
  using end_waiting(1) [OF assms] moves_waiting [of "s\<lparr>qs_table := sql_update P f (qs_table s)\<rparr>" P f s k] assms(2,3)
  by simp

lemma settle_step:
  assumes "queue_inv s" and "qs_held s d = Some i"
    and "\<And>r. q_status r = ''dispatched'' \<Longrightarrow> attempts_ok r \<Longrightarrow> attempts_ok (f r)"
    and "\<And>r. q_status r = ''dispatched'' \<Longrightarrow> q_id (f r) = q_id r \<and> q_workspace (f r) = q_workspace r
      \<and> q_key (f r) = q_key r \<and> q_attempts (f r) = q_attempts r
      \<and> q_status (f r) \<in> {''completed'', ''failed'', ''dropped'', ''queued''}"
  defines "s' \<equiv> s\<lparr>qs_table := sql_update (\<lambda>r. q_id r = i) f (qs_table s), qs_held := (qs_held s)(d := None)\<rparr>"
  shows "queue_inv s' \<and> item_moves s s' k"
proof
  have v: "q_status (f r) \<in> set queue_statuses" if "q_status r = ''dispatched''" for r
    using assms(4) [OF that] by (auto simp: queue_statuses_def)
  show "queue_inv s'" unfolding s'_def
    using settle_held(1) [OF assms(1,2), of f] assms(3,4) v by blast
  show "item_moves s s' k"
    using moves_settled [OF assms(1,2), of s' f k] assms(4) by (simp add: s'_def)
qed

lemma queue_step_ok:
  assumes "queue_inv s" and "queue_step s s'"
  shows "queue_inv s' \<and> item_moves s s' k"
  using assms(2)
proof cases
  case (step_supersede now ws key)
  show ?thesis unfolding step_supersede supersede_expired_def
    by (rule waiting_step [OF assms(1)]) auto
next
  case (step_insert newid now ws caller prio b meth key expires)
  then show ?thesis using insert_waiting(1) [OF assms(1)] moves_insert [OF assms(1)] by simp
next
  case (step_claim d fl locked now ws item tbl')
  from step_claim(3) show ?thesis
  proof (cases rule: dequeue_cases)
    case (2 r)
    then have q: "q_status r = ''queued''" and i: "it_ID item = q_id r" by (auto simp: eligible_def item_of_def)
    from claim_waiting(2) [OF assms(1) 2(1) q 2(4) step_claim(2)] moves_claim [OF assms(1) 2(1) q] 2(4)
    show ?thesis unfolding step_claim(1) i by simp
  qed simp
next
  case (step_no_claim fl locked now ws x tbl')
  from step_no_claim(2) show ?thesis
  proof (cases rule: dequeue_cases)
    case 1
    with assms(1) step_no_claim(1) moves_same show ?thesis by simp
  next
    case (2 r)
    then have q: "q_status r = ''queued''" by (simp add: eligible_def)
    from claim_waiting(1) [OF assms(1) 2(1) q 2(4)] moves_claim [OF assms(1) 2(1) q] 2(4)
    show ?thesis unfolding step_no_claim(1) by simp
  qed
next
  case (step_complete d i f now resp)
  from settle_forms(1) [of f now i resp "qs_table s"] show ?thesis
  proof
    assume "MarkQueueItemCompleted f now i resp (qs_table s) = qs_table s"
    with abandon_held(1) [OF assms(1)] moves_same show ?thesis by (simp add: step_complete(1))
  next
    assume m: "MarkQueueItemCompleted f now i resp (qs_table s) = sql_update (\<lambda>r. q_id r = i)
      (\<lambda>r. r\<lparr>q_status := ''completed'', q_completed_at := Some now,
         q_response := (if bd_bytes resp = [] then None else Some resp)\<rparr>) (qs_table s)"
    show ?thesis unfolding step_complete(1) m
      by (rule settle_step [OF assms(1) step_complete(2)]) (auto simp: attempts_ok_def)
  qed
next
  case (step_fail d i f msg)
  show ?thesis
  proof (cases f)
    case True
    with abandon_held(1) [OF assms(1)] moves_same show ?thesis by (simp add: step_fail(1) settle_forms)
  next
    case False
    show ?thesis unfolding step_fail(1) settle_forms if_not_P [OF False]
      by (rule settle_step [OF assms(1) step_fail(2)]) (simp_all add: settle_ok, simp add: failed_row_def split: if_splits)
  qed
next
  case (step_retry d i f now msg)
  show ?thesis
  proof (cases f)
    case True
    with abandon_held(1) [OF assms(1)] moves_same show ?thesis
      by (simp add: step_retry(1) MarkQueueItemTransientRetry_def)
  next
    case False
    have "queue_inv (s\<lparr>qs_table := sql_update (\<lambda>r. q_id r = i) (retry_row now msg) (qs_table s),
        qs_held := (qs_held s)(d := None)\<rparr>)"
      by (rule settle_held(1) [OF assms(1) step_retry(2)]) (simp_all add: settle_ok, simp add: queue_statuses_def retry_row_def)
    with False moves_retried [OF assms(1) step_retry(2)] show ?thesis
      unfolding step_retry(1) by (simp add: MarkQueueItemTransientRetry_def)
  qed
next
  case (step_drop d i f now msg)
  show ?thesis
  proof (cases f)
    case True
    with abandon_held(1) [OF assms(1)] moves_same show ?thesis by (simp add: step_drop(1) settle_forms)
  next
    case False
    show ?thesis unfolding step_drop(1) settle_forms if_not_P [OF False]
      by (rule settle_step [OF assms(1) step_drop(2)]) (auto simp: attempts_ok_def)
  qed
next
  case (step_abandon d)
  with abandon_held(1) [OF assms(1)] moves_same show ?thesis by simp
next
  case (step_stale f locked now now_text ws age)
  show ?thesis
  proof (cases f)
    case True
    with assms(1) moves_same show ?thesis by (simp add: step_stale DropStaleQueueItems_def)
  next
    case False
    show ?thesis unfolding step_stale DropStaleQueueItems_def Let_def if_not_P [OF False] snd_conv
      by (rule waiting_step [OF assms(1)]) auto
  qed
next
  case (step_context f ws)
  show ?thesis
  proof (cases f)
    case True
    with assms(1) moves_same show ?thesis by (simp add: step_context dropQueuedRestartContext_def)
  next
    case False
    show ?thesis unfolding step_context dropQueuedRestartContext_def if_not_P [OF False]
      by (rule waiting_step [OF assms(1)]) auto
  qed
qed


lemma terminal_moves: "item_moves s s' k \<Longrightarrow> queue_status s k = Some v \<Longrightarrow> terminal_status v \<Longrightarrow> queue_status s' k = Some v"
  by (auto simp: item_moves_def same_item_def terminal_status_def)

interpretation queue: forward_only queue_status terminal_status "\<lambda>s s'. queue_inv s \<and> queue_step s s'"
proof
  fix s s' k v
  assume "queue_inv s \<and> queue_step s s'" "queue_status s k = Some v" "terminal_status v"
  then show "queue_status s' k = Some v" using queue_step_ok terminal_moves by blast
qed

lemma queue_run_inv:
  assumes "queue_inv s" and "run_of queue_step (s # ss)" and "t \<in> set (s # ss)"
  shows "queue_inv t" and "(\<lambda>s s'. queue_inv s \<and> queue_step s s')\<^sup>*\<^sup>* s t"
proof -
  have "run_of (\<lambda>s s'. queue_inv s \<and> queue_step s s') (s # ss)"
    using run_of_invariant [where I = queue_inv and R = queue_step, OF _ assms(1,2)] queue_step_ok by blast
  then show star: "(\<lambda>s s'. queue_inv s \<and> queue_step s s')\<^sup>*\<^sup>* s t" using assms(3) by (rule run_of_star)
  from star show "queue_inv t"
    by (induction rule: rtranclp_induct) (use assms(1) queue_step_ok in blast)+
qed

text \<open>
  C3: concurrent drains never share an item. Whatever any number of producers, drains, clean-ups
  and faults do, at every moment an item is claimed by at most one drain and is then
  dispatched, at most one active row exists per workspace and idempotency key, the attempt
  counter stays within the cap, and an item that was completed, dropped or failed never
  leaves that status, although three of the four settling statements do not check it.
\<close>

theorem queue_claims_exclusive:
  assumes "queue_inv s" and "run_of queue_step (s # ss)" and "t \<in> set (s # ss)"
  shows "(\<forall>d d' i. qs_held t d = Some i \<and> qs_held t d' = Some i \<longrightarrow> d = d')
    \<and> (\<forall>d i. qs_held t d = Some i \<longrightarrow> queue_status t i = Some ''dispatched'')
    \<and> key_unique (qs_table t) \<and> (\<forall>r \<in> set (qs_table t). q_attempts r \<le> maxAttempts)
    \<and> (\<forall>i v. queue_status s i = Some v \<and> terminal_status v \<longrightarrow> queue_status t i = Some v)"
proof -
  have inv: "queue_inv t" by (rule queue_run_inv(1) [OF assms])
  have "\<forall>i v. queue_status s i = Some v \<and> terminal_status v \<longrightarrow> queue_status t i = Some v"
    using queue.terminal_kept_star [OF queue_run_inv(2) [OF assms]] by blast
  with inv show ?thesis unfolding queue_inv_def held_ok_def queue_ok_def attempts_ok_def by blast
qed

lemma attempts_step:
  assumes "queue_inv s" and "queue_step s s'"
  shows "attempts_of s' i \<ge> attempts_of s i + (if delivered s s' i then 1 else 0) - (if retried s s' i then 1 else 0)"
  using queue_step_ok [OF assms, of i] by (auto simp: item_moves_def same_item_def delivered_def attempts_of_def queue_status_def)

lemma of_nat_if: "int (if b then 1 else 0) = (if b then 1 else 0)"
  by simp

text \<open>
  an item is not redelivered without end. Over any run, an item is handed to its target at
  most five times more often than a drain put it back as a transient gateway failure: every
  other failure burns one of the five attempts.
\<close>

theorem deliveries_bounded:
  assumes "queue_inv s" and "run_of queue_step (s # ss)"
  shows "count_steps (\<lambda>t t'. delivered t t' i) (s # ss) \<le> 5 + count_steps (\<lambda>t t'. retried t t' i) (s # ss)"
proof -
  have "int (count_steps (\<lambda>t t'. delivered t t' i) (s # ss)) + attempts_of s i
      \<le> attempts_of (last (s # ss)) i + int (count_steps (\<lambda>t t'. retried t t' i) (s # ss))"
    using assms
  proof (induction ss arbitrary: s)
    case (Cons t ts)
    then have st: "queue_step s t" and inv: "queue_inv t" using queue_step_ok by auto
    have last: "last (s # t # ts) = last (t # ts)" by simp
    have "int (count_steps (\<lambda>t t'. delivered t t' i) (t # ts)) + attempts_of t i
        \<le> attempts_of (last (t # ts)) i + int (count_steps (\<lambda>t t'. retried t t' i) (t # ts))"
      by (rule Cons.IH [OF inv]) (use Cons.prems(2) in simp)
    moreover have "attempts_of s i + (if delivered s t i then 1 else 0) - (if retried s t i then 1 else 0) \<le> attempts_of t i"
      by (rule attempts_step [OF Cons.prems(1) st])
    ultimately show ?case unfolding last count_steps.simps(3) of_nat_add of_nat_if by linarith
  qed simp
  moreover have "0 \<le> attempts_of s i" "attempts_of (last (s # ss)) i \<le> 5"
  proof -
    have bound: "0 \<le> attempts_of t i \<and> attempts_of t i \<le> 5" if "queue_inv t" for t
    proof (cases "sql_find (\<lambda>r. q_id r = i) (qs_table t)")
      case (Some r)
      then have "attempts_ok r" using sql_find_Some_iff [OF Some] that by (simp add: queue_inv_def queue_ok_def)
      with Some show ?thesis by (simp add: attempts_of_def attempts_ok_def maxAttempts_def)
    qed (simp add: attempts_of_def)
    show "0 \<le> attempts_of s i" using bound assms(1) by blast
    have "last (s # ss) \<in> set (s # ss)" by (rule last_in_set) simp
    then show "attempts_of (last (s # ss)) i \<le> 5" using bound queue_run_inv(1) [OF assms] by blast
  qed
  ultimately show ?thesis by linarith
qed


subsection \<open>Enqueueing once\<close>

lemma filter_unique_key:
  assumes "unique_key key xs" and "r \<in> set xs" and "P r"
    and "\<And>x. x \<in> set xs \<Longrightarrow> P x \<Longrightarrow> key x = key r"
  shows "filter P xs = [r]"
  using assms
proof (induction xs)
  case (Cons y ys)
  have u: "unique_key key ys" and fresh: "key y \<notin> key ` set ys" using Cons.prems(1) by (simp_all add: unique_key_def)
  show ?case
  proof (cases "y = r")
    case True
    have "filter P ys = []"
      unfolding filter_empty_conv
    proof (intro ballI notI)
      fix x
      assume x: "x \<in> set ys" "P x"
      then have "key x = key y" using Cons.prems(4) [of x] True by simp
      with fresh x show False by (metis image_eqI)
    qed
    with True Cons.prems(3) show ?thesis by simp
  next
    case False
    then have r: "r \<in> set ys" using Cons.prems(2) by simp
    then have "\<not> P y" using fresh Cons.prems(4) [of y] by force
    with Cons.IH [OF u r Cons.prems(3)] Cons.prems(4) show ?thesis by simp
  qed
qed simp

definition live_key :: "time \<Rightarrow> string \<Rightarrow> string \<Rightarrow> queue_row \<Rightarrow> bool" where
  "live_key now ws key r = (active_key ws key r \<and> \<not> (q_status r = ''queued'' \<and> expired now r))"

lemma supersede_live:
  assumes "queue_ok tbl" and "r \<in> set tbl" and "live_key now ws key r"
  shows "supersede_expired now ws key tbl = tbl" and "filter (active_key ws key) tbl = [r]"
proof -
  have only: "x = r" if "x \<in> set tbl" "active_key ws key x" for x
  proof -
    have "q_id x = q_id r" using assms that unfolding queue_ok_def key_unique_def live_key_def active_key_def by metis
    then show ?thesis using unique_key_eq [of q_id tbl x r] assms(1,2) that(1) by (simp add: queue_ok_def)
  qed
  show "supersede_expired now ws key tbl = tbl"
    unfolding supersede_expired_def
  proof (rule sql_update_none, rule ballI, rule notI)
    fix x
    assume "x \<in> set tbl" "q_workspace x = ws \<and> q_key x = Some key \<and> q_status x = ''queued'' \<and> expired now x"
    with only [of x] assms(3) show False by (simp add: active_key_def active_def live_key_def)
  qed
  show "filter (active_key ws key) tbl = [r]"
  proof (rule filter_unique_key [of q_id])
    show "unique_key q_id tbl" using assms(1) by (simp add: queue_ok_def)
    show "r \<in> set tbl" by (rule assms(2))
    show "active_key ws key r" using assms(3) by (simp add: live_key_def)
    show "q_id x = q_id r" if "x \<in> set tbl" "active_key ws key x" for x using only [OF that] by simp
  qed
qed

lemma supersede_dead:
  assumes "\<forall>r \<in> set tbl. \<not> live_key now ws key r"
  shows "filter (active_key ws key) (supersede_expired now ws key tbl) = []"
  unfolding filter_empty_conv supersede_expired_def set_sql_update
proof (intro ballI, elim imageE)
  fix x r
  assume "r \<in> set tbl" and x: "x = (if q_workspace r = ws \<and> q_key r = Some key \<and> q_status r = ''queued'' \<and> expired now r
      then r\<lparr>q_status := ''dropped'', q_last_error := Some superseded_note\<rparr> else r)"
  then have "\<not> live_key now ws key r" using assms by blast
  then show "\<not> active_key ws key x"
    unfolding x by (cases "q_workspace r = ws \<and> q_key r = Some key \<and> q_status r = ''queued'' \<and> expired now r")
      (auto simp: live_key_def active_key_def active_def)
qed

lemma supersede_others:
  "filter (\<lambda>r. \<not> (q_workspace r = ws \<and> q_key r = Some key)) (supersede_expired now ws key tbl) =
   filter (\<lambda>r. \<not> (q_workspace r = ws \<and> q_key r = Some key)) tbl"
proof (induction tbl)
  case (Cons x xs)
  then show ?case
    by (cases "q_workspace x = ws \<and> q_key x = Some key") (simp_all add: supersede_expired_def sql_update_Cons, blast)
qed (simp add: supersede_expired_def)

lemma sql_find_filter: "filter P xs = [r] \<Longrightarrow> sql_find P xs = Some r"
  by (induction xs) (auto simp: sql_find_Cons split: if_splits)

text \<open>
  enqueueing with a key is idempotent and never swallowed by an expired row. Without faults
  the returned id is that of the one active row of the key: an existing one when some row of
  the key is still live (claimed, or waiting and not expired), the new row otherwise, every
  expired row being retired; the reported depth counts the waiting rows, and no row of another
  key or workspace changes.
\<close>

theorem enqueue_once:
  assumes "queue_ok tbl" and "key \<noteq> []" and "newid \<notin> q_id ` set tbl"
    and "EnqueueA2A no_enqueue_faults newid now ws caller prio b method key expires tbl = (res, tbl')"
  shows "\<exists>i. res = Inr (i, length (filter (\<lambda>r. q_workspace r = ws \<and> q_status r = ''queued'') tbl'))
    \<and> map q_id (filter (active_key ws key) tbl') = [i]
    \<and> (if \<exists>r \<in> set tbl. live_key now ws key r then i \<in> q_id ` set tbl \<and> tbl' = tbl else i = newid)
    \<and> filter (\<lambda>r. \<not> (q_workspace r = ws \<and> q_key r = Some key)) tbl' =
        filter (\<lambda>r. \<not> (q_workspace r = ws \<and> q_key r = Some key)) tbl"
proof (cases "\<exists>r \<in> set tbl. live_key now ws key r")
  case True
  then obtain r where r: "r \<in> set tbl" "live_key now ws key r" by blast
  note sup = supersede_live [OF assms(1) r]
  have "list_ex (active_key ws key) tbl" using r by (auto simp: list_ex_iff live_key_def)
  then have "insert_row (new_row newid now ws c prio b m (Some key) expires) tbl = (None, tbl)" for c m
    by (simp add: insert_row_def new_row_def)
  with assms(2,4) sup(1) sql_find_filter [OF sup(2)]
  have "res = Inr (q_id r, length (filter (\<lambda>r. q_workspace r = ws \<and> q_status r = ''queued'') tbl)) \<and> tbl' = tbl"
    by (auto simp: EnqueueA2A_def no_enqueue_faults_def sql_affected_def)
  with True sup(2) r(1) show ?thesis by auto
next
  case False
  define row where "row = new_row newid now ws (if caller \<noteq> [] \<and> \<not> isSystemCaller caller then Some caller else None)
    prio b (nullif_empty method) (Some key) expires"
  have none: "filter (active_key ws key) (supersede_expired now ws key tbl) = []"
    by (rule supersede_dead) (use False in blast)
  then have "\<not> list_ex (active_key ws key) (supersede_expired now ws key tbl)"
    by (simp add: list_ex_iff filter_empty_conv)
  then have "insert_row row (supersede_expired now ws key tbl) = (Some newid, supersede_expired now ws key tbl @ [row])"
    by (simp add: insert_row_def row_def new_row_def)
  with assms(2,4) have "tbl' = supersede_expired now ws key tbl @ [row]"
    "res = Inr (newid, length (filter (\<lambda>r. q_workspace r = ws \<and> q_status r = ''queued'') tbl'))"
    by (auto simp: EnqueueA2A_def no_enqueue_faults_def sql_affected_def row_def Let_def)
  moreover have "active_key ws key row" "q_id row = newid" "q_workspace row = ws" "q_key row = Some key"
    by (simp_all add: row_def new_row_def active_key_def active_def)
  ultimately show ?thesis using False none supersede_others [of ws key now tbl] by simp
qed


definition waiting_example :: queue_row where
  "waiting_example = new_row ''i1'' 0 ''w'' None 50 no_body None (Some ''k'') (Some 10)"

lemma waiting_example_ok: "queue_ok [waiting_example]"
  by (simp add: queue_ok_def unique_key_def key_unique_def waiting_example_def new_row_def queue_statuses_def
      attempts_ok_def maxAttempts_def)

theorem enqueue_once_witness:
  "\<exists>n tbl'. EnqueueA2A no_enqueue_faults ''i2'' 20 ''w'' [] 50 no_body [] ''k'' None [waiting_example] = (Inr (''i2'', n), tbl')
    \<and> map q_id (filter (active_key ''w'' ''k'') tbl') = [''i2'']"
proof -
  obtain res tbl' where e: "EnqueueA2A no_enqueue_faults ''i2'' 20 ''w'' [] 50 no_body [] ''k'' None [waiting_example] = (res, tbl')"
    by fastforce
  have "\<not> (\<exists>r \<in> set [waiting_example]. live_key 20 ''w'' ''k'' r)"
    by (simp add: waiting_example_def new_row_def live_key_def expired_def)
  moreover have "''i2'' \<notin> q_id ` set [waiting_example]" by (simp add: waiting_example_def new_row_def)
  ultimately show ?thesis using enqueue_once [OF waiting_example_ok _ _ e] e by auto
qed

subsection \<open>Order of delivery\<close>

lemma by_priority_first:
  assumes "by_priority rows = r # rs" and "x \<in> set rows"
  shows "q_priority x < q_priority r \<or> (q_priority x = q_priority r \<and> q_enqueued_at r \<le> q_enqueued_at x)"
proof -
  let ?f = "\<lambda>r. - q_priority r"
  let ?ys = "sort_key q_enqueued_at rows"
  have l: "sort_key ?f ?ys = r # rs" using assms(1) by (simp add: by_priority_def)
  have x: "x \<in> set (r # rs)" using assms(2) by (simp add: l [symmetric])
  have "sorted (map ?f (r # rs))" unfolding l [symmetric] by (rule sorted_sort_key)
  with x have "?f r \<le> ?f x" by auto
  moreover have "q_enqueued_at r \<le> q_enqueued_at x" if "?f x = ?f r"
  proof -
    have fl: "filter (\<lambda>z. ?f z = ?f r) ?ys = r # filter (\<lambda>z. ?f z = ?f r) rs"
      using sort_key_stable [of ?f "?f r" ?ys] l by simp
    have "sorted (map q_enqueued_at (filter (\<lambda>z. ?f z = ?f r) ?ys))"
      by (rule sorted_filter) (rule sorted_sort_key)
    moreover have "x \<in> set (filter (\<lambda>z. ?f z = ?f r) ?ys)" using that assms(2) by simp
    ultimately show ?thesis unfolding fl by auto
  qed
  ultimately show ?thesis by (cases "?f x = ?f r") auto
qed

text \<open>
  a drain is handed the right item. A dequeue that commits returns nothing exactly when no
  unlocked row of the workspace is waiting, unexpired and past its back-off; otherwise it
  claims one of those rows that no other precedes in priority, or among equal priorities in
  time, counts the attempt, and leaves every other row alone.
\<close>

theorem dequeue_in_order:
  assumes "unique_key q_id tbl" and "DequeueNext TxOk locked now ws tbl = (res, tbl')"
  shows "(\<forall>r \<in> set tbl. \<not> (eligible now ws r \<and> \<not> locked (q_id r))) \<and> res = Inr None \<and> tbl' = tbl
    \<or> (\<exists>r \<in> set tbl. eligible now ws r \<and> \<not> locked (q_id r) \<and> res = Inr (Some (item_of r))
        \<and> (\<forall>x \<in> set tbl. eligible now ws x \<and> \<not> locked (q_id x) \<longrightarrow>
             q_priority x < q_priority r \<or> (q_priority x = q_priority r \<and> q_enqueued_at r \<le> q_enqueued_at x))
        \<and> sql_find (\<lambda>x. q_id x = q_id r) tbl' = Some (claim_row now r)
        \<and> filter (\<lambda>x. q_id x \<noteq> q_id r) tbl' = filter (\<lambda>x. q_id x \<noteq> q_id r) tbl)"
proof (cases "by_priority (filter (\<lambda>r. eligible now ws r \<and> \<not> locked (q_id r)) tbl)")
  case Nil
  then have "set (filter (\<lambda>r. eligible now ws r \<and> \<not> locked (q_id r)) tbl) = {}"
    using set_by_priority by (metis list.set(1))
  with Nil assms(2) show ?thesis by (auto simp: DequeueNext_def)
next
  case (Cons r rs)
  then have "r \<in> set (by_priority (filter (\<lambda>r. eligible now ws r \<and> \<not> locked (q_id r)) tbl))" by (simp only: list.set_intros(1))
  then have r: "r \<in> set tbl" "eligible now ws r" "\<not> locked (q_id r)" by simp_all
  have res: "res = Inr (Some (item_of r))" "tbl' = sql_update (\<lambda>x. q_id x = q_id r) (claim_row now) tbl"
    using assms(2) Cons by (simp_all add: DequeueNext_def)
  have "sql_find (\<lambda>x. q_id x = q_id r) tbl' = Some (claim_row now r)"
    using sql_find_sql_update [of "\<lambda>x. q_id x = q_id r" q_id "claim_row now" "q_id r" tbl] sql_find_key [OF assms(1) r(1)] res(2)
    by (simp add: claim_row_def)
  moreover have "filter (\<lambda>x. q_id x \<noteq> q_id r) tbl' = filter (\<lambda>x. q_id x \<noteq> q_id r) tbl"
    unfolding res(2) by (induction tbl) (simp_all add: sql_update_Cons claim_row_def)
  moreover have "q_priority x < q_priority r \<or> (q_priority x = q_priority r \<and> q_enqueued_at r \<le> q_enqueued_at x)"
    if "x \<in> set tbl" "eligible now ws x \<and> \<not> locked (q_id x)" for x
    by (rule by_priority_first [OF Cons]) (use that in simp)
  ultimately show ?thesis using r res(1) by blast
qed

lemma example_dequeue:
  "DequeueNext TxOk (\<lambda>_. False) 5 ''w'' [waiting_example] = (Inr (Some (item_of waiting_example)), [claim_row 5 waiting_example])"
  by (simp add: DequeueNext_def by_priority_def eligible_def expired_def waiting_example_def new_row_def sql_update_Cons)

theorem dequeue_in_order_witness:
  "DequeueNext TxOk (\<lambda>_. False) 5 ''w'' [waiting_example] = (Inr (Some (item_of waiting_example)), [claim_row 5 waiting_example])
   \<and> q_attempts (claim_row 5 waiting_example) = 1
   \<and> sql_find (\<lambda>x. q_id x = ''i1'') [claim_row 5 waiting_example] = Some (claim_row 5 waiting_example)"
proof -
  have "unique_key q_id [waiting_example]" by (simp add: unique_key_def)
  from dequeue_in_order [OF this example_dequeue] example_dequeue show ?thesis
    by (simp add: waiting_example_def new_row_def claim_row_def)
qed

subsection \<open>A run\<close>

definition queue_at :: "queue_row \<Rightarrow> string option \<Rightarrow> queue_sys" where
  "queue_at r h = \<lparr>qs_table = [r], qs_held = (\<lambda>d. if d = 0 then h else None)\<rparr>"

definition example_run :: "queue_sys list" where
  "example_run = [queue_at waiting_example None, queue_at (claim_row 5 waiting_example) (Some ''i1''),
     queue_at (retry_row 6 [] (claim_row 5 waiting_example)) None]"

lemma example_run_ok: "queue_inv (queue_at waiting_example None) \<and> run_of queue_step example_run"
proof -
  have "queue_step (queue_at waiting_example None) (queue_at (claim_row 5 waiting_example) (Some ''i1''))"
  proof -
    have "queue_step (queue_at waiting_example None) ((queue_at waiting_example None)
        \<lparr>qs_table := [claim_row 5 waiting_example],
         qs_held := (qs_held (queue_at waiting_example None))(0 := Some (it_ID (item_of waiting_example)))\<rparr>)"
      by (rule queue_step.step_claim [where fl = TxOk and locked = "\<lambda>_. False" and now = 5 and ws = "''w''"])
        (use example_dequeue in \<open>simp_all add: queue_at_def\<close>)
    moreover have "it_ID (item_of waiting_example) = ''i1''" by (simp add: item_of_def waiting_example_def new_row_def)
    ultimately show ?thesis by (simp add: queue_at_def fun_eq_iff fun_upd_def)
  qed
  moreover have "queue_step (queue_at (claim_row 5 waiting_example) (Some ''i1''))
      (queue_at (retry_row 6 [] (claim_row 5 waiting_example)) None)"
    using queue_step.step_retry [of "queue_at (claim_row 5 waiting_example) (Some ''i1'')" 0 "''i1''" False 6 "[]"]
    by (simp add: queue_at_def MarkQueueItemTransientRetry_def sql_update_Cons claim_row_def waiting_example_def new_row_def
        fun_upd_def if_distrib cong: if_cong)
  moreover have "queue_inv (queue_at waiting_example None)"
    using waiting_example_ok by (simp add: queue_inv_def queue_at_def held_ok_def)
  ultimately show ?thesis by (simp add: example_run_def)
qed

theorem queue_claims_exclusive_witness:
  "qs_held (queue_at (claim_row 5 waiting_example) (Some ''i1'')) 0 = Some ''i1''
   \<and> queue_status (queue_at (claim_row 5 waiting_example) (Some ''i1'')) ''i1'' = Some ''dispatched''"
proof -
  let ?s = "queue_at waiting_example None" and ?t = "queue_at (claim_row 5 waiting_example) (Some ''i1'')"
  have run: "run_of queue_step (?s # tl example_run)" and mem: "?t \<in> set (?s # tl example_run)"
    using example_run_ok by (simp_all add: example_run_def)
  have held: "qs_held ?t 0 = Some ''i1''" by (simp add: queue_at_def)
  from queue_claims_exclusive [OF conjunct1 [OF example_run_ok] run mem] held show ?thesis by blast
qed

theorem deliveries_bounded_witness:
  "count_steps (\<lambda>t t'. delivered t t' ''i1'') example_run \<le> 5 + count_steps (\<lambda>t t'. retried t t' ''i1'') example_run
   \<and> delivered (queue_at waiting_example None) (queue_at (claim_row 5 waiting_example) (Some ''i1'')) ''i1''"
proof -
  have "delivered (queue_at waiting_example None) (queue_at (claim_row 5 waiting_example) (Some ''i1'')) ''i1''"
    by (simp add: delivered_def queue_status_def queue_at_def sql_find_Cons claim_row_def waiting_example_def new_row_def)
  with deliveries_bounded [of "queue_at waiting_example None" "tl example_run" "''i1''"] example_run_ok
  show ?thesis by (simp add: example_run_def)
qed


subsection \<open>The life of an item\<close>

text \<open>The abstract machine: an item waits, is leased to one drain at a time, and ends.\<close>

datatype item_phase = Absent | Waiting | Leased | Ended

inductive lease_move :: "item_phase \<Rightarrow> item_phase \<Rightarrow> bool" where
  "lease_move Absent Waiting"
| "lease_move Waiting Leased"
| "lease_move Waiting Ended"
| "lease_move Leased Waiting"
| "lease_move Leased Ended"

inductive_simps lease_move_ended [simp]: "lease_move Ended p"

definition phase_of_item :: "queue_sys \<Rightarrow> string \<Rightarrow> item_phase" where
  "phase_of_item s i = (case queue_status s i of
     None \<Rightarrow> Absent
   | Some v \<Rightarrow> if v = ''queued'' then Waiting else if v = ''dispatched'' then Leased else Ended)"

lemma lease_steps:
  "lease_move\<^sup>*\<^sup>* Absent Waiting" "lease_move\<^sup>*\<^sup>* Waiting Leased" "lease_move\<^sup>*\<^sup>* Waiting Ended"
  "lease_move\<^sup>*\<^sup>* Leased Waiting" "lease_move\<^sup>*\<^sup>* Leased Ended"
  by (rule r_into_rtranclp, rule lease_move.intros)+

lemma lease_moves: "item_moves s s' k \<Longrightarrow> lease_move\<^sup>*\<^sup>* (phase_of_item s k) (phase_of_item s' k)"
  unfolding item_moves_def same_item_def
  by (elim disjE conjE exE) (auto simp: phase_of_item_def lease_steps)

interpretation lease: lifecycle_refinement phase_of_item queue_inv queue_step lease_move
  by unfold_locales (use queue_step_ok lease_moves in blast)+

lemma lease_ended: "lease_move\<^sup>*\<^sup>* Ended p \<Longrightarrow> p = Ended"
  by (erule converse_rtranclpE) simp_all

text \<open>
  C30: the table refines the lease machine. Whatever statements the callers interleave, an item
  only ever moves along the life cycle of the abstract machine: it appears waiting, is leased
  and returned, and ends once, for good.
\<close>

theorem queue_refines_lease:
  assumes "queue_inv s" and "queue_step\<^sup>*\<^sup>* s t"
  shows "lease_move\<^sup>*\<^sup>* (phase_of_item s i) (phase_of_item t i)
    \<and> (phase_of_item s i = Ended \<longrightarrow> phase_of_item t i = Ended)"
proof
  show m: "lease_move\<^sup>*\<^sup>* (phase_of_item s i) (phase_of_item t i)"
    using lease.refines_star [OF assms(2,1)] by blast
  show "phase_of_item s i = Ended \<longrightarrow> phase_of_item t i = Ended"
  proof
    assume "phase_of_item s i = Ended"
    with m show "phase_of_item t i = Ended" by (simp only: lease_ended)
  qed
qed

theorem queue_refines_lease_witness:
  "lease_move\<^sup>*\<^sup>* (phase_of_item (queue_at waiting_example None) ''i1'')
     (phase_of_item (queue_at (claim_row 5 waiting_example) (Some ''i1'')) ''i1'')
   \<and> phase_of_item (queue_at (claim_row 5 waiting_example) (Some ''i1'')) ''i1'' = Leased"
proof -
  have "queue_step (queue_at waiting_example None) (queue_at (claim_row 5 waiting_example) (Some ''i1''))"
    using example_run_ok by (simp add: example_run_def)
  then have "queue_step\<^sup>*\<^sup>* (queue_at waiting_example None) (queue_at (claim_row 5 waiting_example) (Some ''i1''))" by blast
  from queue_refines_lease [OF conjunct1 [OF example_run_ok] this, of "''i1''"] show ?thesis
    by (simp add: phase_of_item_def queue_status_def queue_at_def sql_find_Cons claim_row_def waiting_example_def new_row_def)
qed

end
