(* ===== verification/Delegation_Sweeper.thy ===== *)
theory Delegation_Sweeper
  imports Delegation_Replies
begin

text \<open>
  The stuck-task sweeper (\<^verbatim>\<open>internal/handlers/delegation_sweeper.go\<close>).

  \<open>Sweep\<close> takes the snapshot of the in-flight rows, joined with the heartbeats of the callee
  workspaces, and then calls the ledger row by row. Every database call of a pass can fail
  (\<open>sweep_faults\<close>). \<open>now\<close> is the pass's \<open>time.Now()\<close>, \<open>dbnow\<close> the clock of the database;
  heartbeat ages are assumed to stay below the 292 years of \<open>time.Duration\<close>. The reference
  specification is \<open>sweep_row\<close>, the effect of a pass on one row; a fault-free pass is proved
  to be exactly that function on the whole table.
\<close>

subsection \<open>Model\<close>

definition defaultSweeperInterval :: duration where "defaultSweeperInterval = 5 * minute"
definition defaultStuckThreshold :: duration where "defaultStuckThreshold = 10 * minute"

record DelegationSweeper =
  sw_interval :: duration
  sw_threshold :: duration
  sw_startedAt :: time

text \<open>The product of the 64-bit duration wraps.\<close>

definition envDuration :: "environment \<Rightarrow> string \<Rightarrow> duration \<Rightarrow> duration" where
  "envDuration env key def =
    (let v = env key
     in if v = [] then def
        else case atoi v of
            None \<Rightarrow> def
          | Some n \<Rightarrow> if n \<le> 0 then def else int64 (n * second))"

definition NewDelegationSweeper :: "environment \<Rightarrow> time \<Rightarrow> DelegationSweeper" where
  "NewDelegationSweeper env now =
    \<lparr>sw_interval = envDuration env ''DELEGATION_SWEEPER_INTERVAL_S'' defaultSweeperInterval,
     sw_threshold = envDuration env ''DELEGATION_STUCK_THRESHOLD_S'' defaultStuckThreshold,
     sw_startedAt = now\<rparr>"

record SweepResult =
  DeadlineFailures :: nat
  StuckMarked :: nat
  ReplyErrors :: nat
  Errors :: nat

text \<open>The columns of \<open>workspaces\<close> that the join reads.\<close>

record workspace_beat =
  wb_id :: string
  wb_last :: "time option"

record candidate =
  cd_id :: string
  cd_caller :: string
  cd_callee :: string
  cd_status :: string
  cd_lastBeat :: "time option"
  cd_deadline :: time

text \<open>
  \<open>rows_err = Some n\<close>: the cursor breaks after \<open>n\<close> rows and \<open>rows.Err()\<close> reports it. The ledger
  and reply faults are those of the calls made for the delegation with that id.
\<close>

record sweep_faults =
  query_fails :: bool
  scan_fails :: "string \<Rightarrow> bool"
  rows_err :: "nat option"
  ledger_faults_of :: "string \<Rightarrow> ledger_faults"
  reply_faults_of :: "string \<Rightarrow> reply_faults"

definition no_sweep_faults :: sweep_faults where
  "no_sweep_faults = \<lparr>query_fails = False, scan_fails = (\<lambda>_. False), rows_err = None,
     ledger_faults_of = (\<lambda>_. no_faults), reply_faults_of = (\<lambda>_. no_reply_faults)\<rparr>"

record sweep_state =
  ss_table :: ledger
  ss_logs :: activity_log
  ss_res :: SweepResult

definition candidate_of :: "workspace_beat list \<Rightarrow> delegation_row \<Rightarrow> candidate" where
  "candidate_of ws r =
    \<lparr>cd_id = dl_id r, cd_caller = dl_caller r, cd_callee = dl_callee r, cd_status = dl_status r,
     cd_lastBeat = coalesce (dl_last_heartbeat r)
       (case sql_find (\<lambda>w. wb_id w = dl_callee r) ws of None \<Rightarrow> None | Some w \<Rightarrow> wb_last w),
     cd_deadline = dl_deadline r\<rparr>"

text \<open>\<open>Duration.Round(time.Second)\<close> and \<open>Duration.String\<close> of a whole number of seconds.\<close>

definition round_second :: "duration \<Rightarrow> duration" where
  "round_second d =
    (let r = \<bar>d\<bar> mod second;
         up = (if r + r < second then \<bar>d\<bar> - r else \<bar>d\<bar> + second - r)
     in if d < 0 then - up else up)"

definition duration_string :: "duration \<Rightarrow> string" where
  "duration_string d =
    (let t = nat (\<bar>d\<bar> div second); s = t mod 60; m = (t div 60) mod 60; h = t div 3600
     in (if d < 0 then ''-'' else [])
        @ (if h > 0 then show_nat h @ ''h'' else [])
        @ (if t \<ge> 60 then show_nat m @ ''m'' else [])
        @ show_nat s @ ''s'')"

definition deadline_detail :: string where "deadline_detail = ''deadline exceeded by sweeper''"

definition deadline_call :: "string \<Rightarrow> status_call" where
  "deadline_call d = \<lparr>sc_id = d, sc_status = ''failed'', sc_error = deadline_detail, sc_result = []\<rparr>"

definition stuck_call :: "string \<Rightarrow> duration \<Rightarrow> status_call" where
  "stuck_call d age = \<lparr>sc_id = d, sc_status = ''stuck'',
     sc_error = ''no heartbeat for '' @ duration_string (round_second age), sc_result = []\<rparr>"

text \<open>The body of the loop over \<open>todo\<close>.\<close>

definition sweep_candidate ::
  "DelegationSweeper \<Rightarrow> environment \<Rightarrow> sweep_faults \<Rightarrow> time \<Rightarrow> time \<Rightarrow> candidate \<Rightarrow> sweep_state \<Rightarrow> sweep_state" where
  "sweep_candidate s env fl now dbnow c st =
    (if now > cd_deadline c then
       (case SetStatus (ledger_faults_of fl (cd_id c)) dbnow (deadline_call (cd_id c)) (ss_table st) of
          ((authority, err), tbl') \<Rightarrow>
            let res1 = (if err \<noteq> None then (ss_res st)\<lparr>Errors := Errors (ss_res st) + 1\<rparr> else ss_res st);
                st1 = st\<lparr>ss_table := tbl', ss_res := res1\<rparr>
            in if \<not> mayReply authority then st1
               else case emitTerminalDelegationReply env (reply_faults_of fl (cd_id c))
                           (cd_caller c) (cd_callee c) (cd_id c) ''failed'' deadline_detail (ss_logs st1) of
                      (failed, logs') \<Rightarrow>
                        let res2 = (if failed then res1\<lparr>ReplyErrors := ReplyErrors res1 + 1\<rparr> else res1)
                        in st1\<lparr>ss_logs := logs',
                               ss_res := res2\<lparr>DeadlineFailures := DeadlineFailures res2 + 1\<rparr>\<rparr>)
     else case cd_lastBeat c of
         None \<Rightarrow> st
       | Some lastBeat \<Rightarrow>
          if now - lastBeat > sw_threshold s then
            if now - sw_startedAt s < sw_threshold s then st
            else if cd_status c = ''stuck'' then st
            else case SetStatus (ledger_faults_of fl (cd_id c)) dbnow
                        (stuck_call (cd_id c) (now - lastBeat)) (ss_table st) of
                   ((authority, err), tbl') \<Rightarrow>
                     let st1 = st\<lparr>ss_table := tbl'\<rparr>; res = ss_res st
                     in if err \<noteq> None then st1\<lparr>ss_res := res\<lparr>Errors := Errors res + 1\<rparr>\<rparr>
                        else if authority = ReplyMine
                          then st1\<lparr>ss_res := res\<lparr>StuckMarked := StuckMarked res + 1\<rparr>\<rparr>
                        else st1
          else st)"

definition zero_result :: SweepResult where
  "zero_result = \<lparr>DeadlineFailures = 0, StuckMarked = 0, ReplyErrors = 0, Errors = 0\<rparr>"

text \<open>The rows the cursor delivers, with the number of errors counted while reading them.\<close>

definition sweep_snapshot ::
  "sweep_faults \<Rightarrow> workspace_beat list \<Rightarrow> ledger \<Rightarrow> candidate list \<times> nat" where
  "sweep_snapshot fl ws tbl =
    (let rows = filter in_flight tbl;
         delivered = (case rows_err fl of None \<Rightarrow> rows | Some n \<Rightarrow> take n rows);
         bad = length (filter (\<lambda>r. scan_fails fl (dl_id r)) delivered)
     in (map (candidate_of ws) (filter (\<lambda>r. \<not> scan_fails fl (dl_id r)) delivered),
         bad + (if rows_err fl = None then 0 else 1)))"

definition Sweep ::
  "DelegationSweeper \<Rightarrow> environment \<Rightarrow> sweep_faults \<Rightarrow> time \<Rightarrow> time \<Rightarrow> workspace_beat list
     \<Rightarrow> ledger \<Rightarrow> activity_log \<Rightarrow> sweep_state" where
  "Sweep s env fl now dbnow ws tbl logs =
    (if query_fails fl then \<lparr>ss_table = tbl, ss_logs = logs, ss_res = zero_result\<lparr>Errors := 1\<rparr>\<rparr>
     else case sweep_snapshot fl ws tbl of (todo, bad) \<Rightarrow>
       fold (sweep_candidate s env fl now dbnow) todo
         \<lparr>ss_table = tbl, ss_logs = logs, ss_res = zero_result\<lparr>Errors := bad\<rparr>\<rparr>)"

text \<open>
  \<open>Start\<close>: \<open>time.NewTicker\<close> panics on a non-positive interval (\<open>None\<close>); otherwise one pass
  at once and one per tick, until the context is cancelled.
\<close>

record tick =
  tk_now :: time
  tk_dbnow :: time
  tk_faults :: sweep_faults
  tk_beats :: "workspace_beat list"

definition tickWithRecover ::
  "DelegationSweeper \<Rightarrow> environment \<Rightarrow> tick \<Rightarrow> ledger \<times> activity_log \<Rightarrow> ledger \<times> activity_log" where
  "tickWithRecover s env t st =
    (let out = Sweep s env (tk_faults t) (tk_now t) (tk_dbnow t) (tk_beats t) (fst st) (snd st)
     in (ss_table out, ss_logs out))"

definition Start ::
  "DelegationSweeper \<Rightarrow> environment \<Rightarrow> tick \<Rightarrow> tick list \<Rightarrow> ledger \<times> activity_log
     \<Rightarrow> (ledger \<times> activity_log) option" where
  "Start s env t0 ticks st =
    (if sw_interval s \<le> 0 then None else Some (fold (tickWithRecover s env) (t0 # ticks) st))"

subsection \<open>The effect of a pass on one row\<close>

definition overdue :: "time \<Rightarrow> delegation_row \<Rightarrow> bool" where
  "overdue now r = (in_flight r \<and> now > dl_deadline r)"

text \<open>The callee's heartbeat is older than the threshold, and the server is past its grace.\<close>

definition stale_beat :: "DelegationSweeper \<Rightarrow> time \<Rightarrow> workspace_beat list \<Rightarrow> delegation_row \<Rightarrow> bool" where
  "stale_beat s now ws r =
    (case cd_lastBeat (candidate_of ws r) of
       None \<Rightarrow> False
     | Some b \<Rightarrow> now - b > sw_threshold s \<and> now - sw_startedAt s \<ge> sw_threshold s)"

definition goes_stuck :: "DelegationSweeper \<Rightarrow> time \<Rightarrow> workspace_beat list \<Rightarrow> delegation_row \<Rightarrow> bool" where
  "goes_stuck s now ws r =
    (in_flight r \<and> \<not> overdue now r \<and> dl_status r \<noteq> ''stuck'' \<and> stale_beat s now ws r)"

definition sweep_row ::
  "DelegationSweeper \<Rightarrow> time \<Rightarrow> time \<Rightarrow> workspace_beat list \<Rightarrow> delegation_row \<Rightarrow> delegation_row" where
  "sweep_row s now dbnow ws r =
    (if overdue now r then swap_row dbnow (deadline_call (dl_id r)) r
     else if goes_stuck s now ws r
       then swap_row dbnow (stuck_call (dl_id r) (now - the (cd_lastBeat (candidate_of ws r)))) r
     else r)"

definition deadline_reply :: "environment \<Rightarrow> delegation_row \<Rightarrow> activity_log" where
  "deadline_reply env r =
    snd (emitTerminalDelegationReply env no_reply_faults (dl_caller r) (dl_callee r) (dl_id r)
           ''failed'' deadline_detail [])"

subsection \<open>A fault-free pass\<close>

lemma emit_append:
  "emitTerminalDelegationReply env no_reply_faults a b d st e logs =
    (False, logs @ snd (emitTerminalDelegationReply env no_reply_faults a b d st e []))"
  by (simp add: reply_defs no_reply_faults_def)

lemma candidate_of_sel [simp]:
  "cd_id (candidate_of ws r) = dl_id r" "cd_caller (candidate_of ws r) = dl_caller r"
  "cd_callee (candidate_of ws r) = dl_callee r" "cd_status (candidate_of ws r) = dl_status r"
  "cd_deadline (candidate_of ws r) = dl_deadline r"
  by (simp_all add: candidate_of_def)

lemma sweep_calls_sel [simp]:
  "sc_id (deadline_call d) = d" "sc_status (deadline_call d) = ''failed''"
  "sc_id (stuck_call d a) = d" "sc_status (stuck_call d a) = ''stuck''"
  by (simp_all add: deadline_call_def stuck_call_def)

lemma sweep_row_id [simp]: "dl_id (sweep_row s now dbnow ws r) = dl_id r"
  by (simp add: sweep_row_def)

lemma sweep_row_ok: "row_ok r \<Longrightarrow> row_ok (sweep_row s now dbnow ws r)"
  by (auto simp: sweep_row_def vocab_simps intro!: swap_row_ok)

lemma sweep_row_keys:
  "dl_caller (sweep_row s now dbnow ws r) = dl_caller r"
  "dl_idempotency_key (sweep_row s now dbnow ws r) = dl_idempotency_key r"
  by (simp_all add: sweep_row_def)

lemma ledger_ok_sweep: "ledger_ok tbl \<Longrightarrow> ledger_ok (sql_update P (sweep_row s now dbnow ws) tbl)"
  by (rule ledger_ok_update) (simp_all add: sweep_row_ok sweep_row_keys)

lemma in_flight_stuck: "in_flight r \<Longrightarrow> dl_status r \<noteq> ''stuck'' \<Longrightarrow> transition_allowed (dl_status r) ''stuck''"
  by (auto simp: in_flight_def vocab_simps)

lemma in_flight_failed: "in_flight r \<Longrightarrow> transition_allowed (dl_status r) ''failed'' \<and> dl_status r \<noteq> ''failed''"
  by (auto simp: in_flight_def vocab_simps)

text \<open>One candidate, read from a row that is still there: exactly that row is swept.\<close>

lemma sweep_candidate_exact:
  assumes ok: "ledger_ok (ss_table st)" and mem: "r \<in> set (ss_table st)" and fl: "in_flight r"
  shows "sweep_candidate s env no_sweep_faults now dbnow (candidate_of ws r) st =
    \<lparr>ss_table = sql_update (\<lambda>x. dl_id x = dl_id r) (sweep_row s now dbnow ws) (ss_table st),
     ss_logs = ss_logs st @ (if overdue now r then deadline_reply env r else []),
     ss_res = (ss_res st)\<lparr>DeadlineFailures := DeadlineFailures (ss_res st) + (if overdue now r then 1 else 0),
       StuckMarked := StuckMarked (ss_res st) + (if goes_stuck s now ws r then 1 else 0)\<rparr>\<rparr>"
proof -
  have uq: "unique_key dl_id (ss_table st)" using ok by (simp add: ledger_ok_def)
  have find: "sql_find (\<lambda>x. dl_id x = dl_id r) (ss_table st) = Some r"
    by (rule sql_find_key [OF uq mem])
  have cong: "sql_update (\<lambda>x. dl_id x = dl_id r) (swap_row dbnow c) (ss_table st) =
      sql_update (\<lambda>x. dl_id x = dl_id r) (sweep_row s now dbnow ws) (ss_table st)"
    if "sweep_row s now dbnow ws r = swap_row dbnow c r" for c
    using sql_update_key_cong [OF uq mem, of "swap_row dbnow c" "sweep_row s now dbnow ws"] that by simp
  consider (dead) "overdue now r" | (stuck) "\<not> overdue now r" "goes_stuck s now ws r"
    | (keep) "\<not> overdue now r" "\<not> goes_stuck s now ws r" by blast
  then show ?thesis
  proof cases
    case dead
    have "sweep_row s now dbnow ws r = swap_row dbnow (deadline_call (dl_id r)) r"
      using dead by (simp add: sweep_row_def)
    moreover have "SetStatus no_faults dbnow (deadline_call (dl_id r)) (ss_table st) =
        ((ReplyMine, None), sql_update (\<lambda>x. dl_id x = dl_id r) (swap_row dbnow (deadline_call (dl_id r))) (ss_table st))"
      using SetStatus_swap [OF ok, of "deadline_call (dl_id r)" r dbnow] find in_flight_failed [OF fl] by simp
    moreover have "\<not> goes_stuck s now ws r" using dead by (simp add: goes_stuck_def)
    moreover note emit_append [of env "dl_caller r" "dl_callee r" "dl_id r" "''failed''" deadline_detail "ss_logs st"]
    ultimately show ?thesis
      using dead cong by (simp add: sweep_candidate_def overdue_def no_sweep_faults_def mayReply_def
          deadline_reply_def Let_def)
  next
    case stuck
    then obtain b where b: "cd_lastBeat (candidate_of ws r) = Some b" "now - b > sw_threshold s"
      "now - sw_startedAt s \<ge> sw_threshold s" "dl_status r \<noteq> ''stuck''"
      by (auto simp: goes_stuck_def stale_beat_def split: option.splits)
    have "sweep_row s now dbnow ws r = swap_row dbnow (stuck_call (dl_id r) (now - b)) r"
      using stuck b by (simp add: sweep_row_def)
    moreover have "SetStatus no_faults dbnow (stuck_call (dl_id r) (now - b)) (ss_table st) =
        ((ReplyMine, None), sql_update (\<lambda>x. dl_id x = dl_id r) (swap_row dbnow (stuck_call (dl_id r) (now - b))) (ss_table st))"
      using SetStatus_swap [OF ok, of "stuck_call (dl_id r) (now - b)" r dbnow] find b(4)
        in_flight_stuck [OF fl b(4)] by simp
    moreover have "\<not> now > dl_deadline r" using stuck fl by (simp add: overdue_def)
    ultimately show ?thesis
      using stuck b cong by (simp add: sweep_candidate_def no_sweep_faults_def Let_def)
  next
    case keep
    have "sweep_row s now dbnow ws r = r" using keep by (simp add: sweep_row_def)
    then have "sql_update (\<lambda>x. dl_id x = dl_id r) (sweep_row s now dbnow ws) (ss_table st) = ss_table st"
      using unique_key_eq [OF uq _ mem] by (intro sql_update_id) metis
    then show ?thesis
      using keep fl by (cases "cd_lastBeat (candidate_of ws r)")
        (auto simp: sweep_candidate_def overdue_def goes_stuck_def stale_beat_def no_sweep_faults_def)
  qed
qed

lemma sql_update_twice:
  assumes "\<And>r. P r \<Longrightarrow> Q (f r) = Q r" and "\<And>r. \<not> (P r \<and> Q r)"
  shows "sql_update Q f (sql_update P f tbl) = sql_update (\<lambda>r. P r \<or> Q r) f tbl"
  using assms by (auto simp: sql_update_def)

lemma fold_sweep_exact:
  assumes "ledger_ok (ss_table st)" and "distinct (map dl_id rs)"
    and "set rs \<subseteq> set (ss_table st)" and "list_all in_flight rs"
  shows "fold (sweep_candidate s env no_sweep_faults now dbnow) (map (candidate_of ws) rs) st =
    \<lparr>ss_table = sql_update (\<lambda>x. dl_id x \<in> dl_id ` set rs) (sweep_row s now dbnow ws) (ss_table st),
     ss_logs = ss_logs st @ concat (map (deadline_reply env) (filter (overdue now) rs)),
     ss_res = (ss_res st)\<lparr>DeadlineFailures := DeadlineFailures (ss_res st) + length (filter (overdue now) rs),
       StuckMarked := StuckMarked (ss_res st) + length (filter (goes_stuck s now ws) rs)\<rparr>\<rparr>"
  using assms
proof (induction rs arbitrary: st)
  case Nil
  then show ?case by (simp add: sql_update_none)
next
  case (Cons r rs)
  let ?tbl = "sql_update (\<lambda>x. dl_id x = dl_id r) (sweep_row s now dbnow ws) (ss_table st)"
  have head: "r \<in> set (ss_table st)" "in_flight r" and fresh: "dl_id r \<notin> dl_id ` set rs"
    using Cons.prems by auto
  have ok: "ledger_ok ?tbl" by (rule ledger_ok_sweep [OF Cons.prems(1)])
  have sub: "set rs \<subseteq> set ?tbl"
  proof
    fix x assume x: "x \<in> set rs"
    with fresh have "dl_id x \<noteq> dl_id r" by (metis imageI)
    moreover have "x \<in> set (ss_table st)" using x Cons.prems(3) by auto
    ultimately show "x \<in> set ?tbl" by (intro sql_update_keeps)
  qed
  have merge: "sql_update (\<lambda>x. dl_id x \<in> dl_id ` set rs) (sweep_row s now dbnow ws) ?tbl =
      sql_update (\<lambda>x. dl_id x = dl_id r \<or> dl_id x \<in> dl_id ` set rs) (sweep_row s now dbnow ws) (ss_table st)"
    by (rule sql_update_twice) (use fresh in auto)
  define st1 where "st1 = sweep_candidate s env no_sweep_faults now dbnow (candidate_of ws r) st"
  note st1 = st1_def [unfolded sweep_candidate_exact [OF Cons.prems(1) head]]
  have t1: "ss_table st1 = ?tbl" by (simp add: st1)
  have IH: "fold (sweep_candidate s env no_sweep_faults now dbnow) (map (candidate_of ws) rs) st1 =
    \<lparr>ss_table = sql_update (\<lambda>x. dl_id x \<in> dl_id ` set rs) (sweep_row s now dbnow ws) (ss_table st1),
     ss_logs = ss_logs st1 @ concat (map (deadline_reply env) (filter (overdue now) rs)),
     ss_res = (ss_res st1)\<lparr>DeadlineFailures := DeadlineFailures (ss_res st1) + length (filter (overdue now) rs),
       StuckMarked := StuckMarked (ss_res st1) + length (filter (goes_stuck s now ws) rs)\<rparr>\<rparr>"
    by (rule Cons.IH) (use ok sub Cons.prems in \<open>simp_all add: t1\<close>)
  have mem: "(\<lambda>x. dl_id x \<in> dl_id ` set (r # rs)) = (\<lambda>x. dl_id x = dl_id r \<or> dl_id x \<in> dl_id ` set rs)"
    by auto
  have "fold (sweep_candidate s env no_sweep_faults now dbnow) (map (candidate_of ws) (r # rs)) st =
      fold (sweep_candidate s env no_sweep_faults now dbnow) (map (candidate_of ws) rs) st1"
    by (simp add: st1_def)
  then show ?case unfolding IH t1 merge mem by (simp add: st1)
qed

lemma sweep_effect:
  assumes "ledger_ok tbl"
  shows "Sweep s env no_sweep_faults now dbnow ws tbl logs =
    \<lparr>ss_table = map (sweep_row s now dbnow ws) tbl,
     ss_logs = logs @ concat (map (deadline_reply env) (filter (overdue now) tbl)),
     ss_res = \<lparr>DeadlineFailures = length (filter (overdue now) tbl),
       StuckMarked = length (filter (goes_stuck s now ws) tbl), ReplyErrors = 0, Errors = 0\<rparr>\<rparr>"
proof -
  let ?rs = "filter in_flight tbl"
  have uq: "unique_key dl_id tbl" using assms by (simp add: ledger_ok_def)
  then have d: "distinct (map dl_id ?rs)" by (simp add: unique_key_def distinct_map_filter)
  have snap: "sweep_snapshot no_sweep_faults ws tbl = (map (candidate_of ws) ?rs, 0)"
    by (simp add: sweep_snapshot_def no_sweep_faults_def)
  have "(if dl_id x \<in> dl_id ` set ?rs then sweep_row s now dbnow ws x else x) = sweep_row s now dbnow ws x"
    if "x \<in> set tbl" for x
  proof (cases "in_flight x")
    case True
    with that show ?thesis by auto
  next
    case False
    then show ?thesis by (simp add: sweep_row_def overdue_def goes_stuck_def)
  qed
  then have upd: "sql_update (\<lambda>x. dl_id x \<in> dl_id ` set ?rs) (sweep_row s now dbnow ws) tbl =
      map (sweep_row s now dbnow ws) tbl"
    unfolding sql_update_def by (intro map_cong) auto
  have "filter (overdue now) ?rs = filter (overdue now) tbl"
    "filter (goes_stuck s now ws) ?rs = filter (goes_stuck s now ws) tbl"
    by (simp_all add: overdue_def goes_stuck_def conj_commute cong: filter_cong)
  then show ?thesis
    using fold_sweep_exact [of "\<lparr>ss_table = tbl, ss_logs = logs, ss_res = zero_result\<rparr>" ?rs s env now dbnow ws]
      assms d snap upd
    by (simp add: Sweep_def zero_result_def no_sweep_faults_def list_all_iff)
qed

text \<open>
  C14: a fault-free pass of the sweeper is exactly the function \<open>sweep_row\<close> on every row: the
  in-flight rows past their deadline become failed, the others whose callee stopped
  heartbeating (after the boot grace) become stuck, every other row is untouched; the counters
  are the numbers of such rows, and the reply rows written are those of the overdue
  delegations, in table order.
\<close>

theorem Sweep_exact:
  assumes "ledger_ok tbl"
  shows "Sweep s env no_sweep_faults now dbnow ws tbl logs =
    \<lparr>ss_table = map (sweep_row s now dbnow ws) tbl,
     ss_logs = logs @ concat (map (deadline_reply env) (filter (overdue now) tbl)),
     ss_res = \<lparr>DeadlineFailures = length (filter (overdue now) tbl),
       StuckMarked = length (filter (goes_stuck s now ws) tbl), ReplyErrors = 0, Errors = 0\<rparr>\<rparr>"
  using assms by (rule sweep_effect)

definition example_sweeper :: DelegationSweeper where
  "example_sweeper = \<lparr>sw_interval = 300, sw_threshold = 10, sw_startedAt = 0\<rparr>"

theorem Sweep_exact_witness:
  "ss_res (Sweep example_sweeper flags_on no_sweep_faults 101 101 [] [example_row] []) =
     \<lparr>DeadlineFailures = 1, StuckMarked = 0, ReplyErrors = 0, Errors = 0\<rparr>
   \<and> map dl_status (ss_table (Sweep example_sweeper flags_on no_sweep_faults 101 101 [] [example_row] [])) = [''failed'']"
proof -
  have o: "overdue 101 example_row" by (simp add: overdue_def in_flight_def example_row_def vocab_simps)
  have "\<not> goes_stuck example_sweeper 101 [] example_row" using o by (simp add: goes_stuck_def)
  then show ?thesis
    using o Sweep_exact [OF example_row_ok, of example_sweeper flags_on 101 101 "[]" "[]"]
    by (simp add: sweep_row_def)
qed

subsection \<open>Passes with faults\<close>

text \<open>The status of a delegation, straight from the table.\<close>

definition status_in :: "ledger \<Rightarrow> string \<Rightarrow> string option" where
  "status_in tbl d = map_option dl_status (sql_find (\<lambda>r. dl_id r = d) tbl)"

text \<open>Whatever the faults, \<open>SetStatus\<close> leaves the table alone, fills in details, or swaps.\<close>

lemma SetStatus_cases:
  obtains (same) "snd (SetStatus fl now c tbl) = tbl"
  | (fill) "snd (SetStatus fl now c tbl) = sql_update (\<lambda>r. dl_id r = sc_id c) (backfill_row now c) tbl"
  | (swap) cur where "transition_allowed cur (sc_status c)"
      "snd (SetStatus fl now c tbl) =
         sql_update (\<lambda>r. dl_id r = sc_id c \<and> dl_status r = cur) (swap_row now c) tbl"
proof (cases "setStatus_read fl c tbl")
  case (Finished a e)
  then show ?thesis by (intro same) (simp add: SetStatus_def setStatus_write_def)
next
  case Backfill
  then show ?thesis using same fill
    by (cases "update_fails fl") (simp_all add: SetStatus_def setStatus_write_def)
next
  case (Swap cur)
  note tr = setStatus_read_swap [OF Swap]
  show ?thesis
  proof (cases "update_fails fl")
    case True
    with Swap show ?thesis by (intro same) (simp add: SetStatus_def setStatus_write_def)
  next
    case False
    with Swap show ?thesis by (intro swap [OF tr]) (simp add: SetStatus_def setStatus_write_def Let_def)
  qed
qed

lemma status_in_update:
  assumes "\<And>r. P r \<Longrightarrow> dl_id (f r) = dl_id r"
  shows "status_in (sql_update P f tbl) d =
    map_option (\<lambda>r. if P r then dl_status (f r) else dl_status r) (sql_find (\<lambda>r. dl_id r = d) tbl)"
  using sql_find_sql_update [of P dl_id f d tbl] assms
  by (cases "sql_find (\<lambda>r. dl_id r = d) tbl") (auto simp: status_in_def)

lemma SetStatus_status_in:
  "status_in (snd (SetStatus fl now c tbl)) d = status_in tbl d \<or>
   (d = sc_id c \<and> status_in (snd (SetStatus fl now c tbl)) d = Some (sc_status c)
     \<and> (\<exists>v. status_in tbl d = Some v \<and> \<not> IsTerminalDelegationStatus v))"
proof (cases rule: SetStatus_cases [of fl now c tbl])
  case fill
  then have "status_in (snd (SetStatus fl now c tbl)) d = status_in tbl d"
    using status_in_update [of "\<lambda>r. dl_id r = sc_id c" "backfill_row now c" tbl d]
    by (cases "sql_find (\<lambda>r. dl_id r = d) tbl") (simp_all add: status_in_def [of tbl])
  then show ?thesis by simp
next
  case (swap cur)
  with terminal_no_transition have "\<not> IsTerminalDelegationStatus cur" by blast
  with swap status_in_update [of "\<lambda>r. dl_id r = sc_id c \<and> dl_status r = cur" "swap_row now c" tbl d]
  show ?thesis
    by (cases "sql_find (\<lambda>r. dl_id r = d) tbl")
      (auto simp: status_in_def [of tbl] dest: sql_find_Some_iff)
qed simp

lemma SetStatus_ok: "ledger_ok tbl \<Longrightarrow> ledger_ok (snd (SetStatus fl now c tbl))"
  unfolding SetStatus_def
  by (rule setStatus_write_ok) (auto dest: setStatus_read_swap transition_closed)

text \<open>A terminal row is never ours to answer for.\<close>

lemma SetStatus_terminal_silent:
  assumes "status_in tbl (sc_id c) = Some v" and "IsTerminalDelegationStatus v"
  shows "\<not> mayReply (fst (fst (SetStatus fl now c tbl)))"
proof -
  from assms(1) obtain r where r: "sql_find (\<lambda>x. dl_id x = sc_id c) tbl = Some r" "dl_status r = v"
    by (auto simp: status_in_def)
  with terminal_no_transition [OF assms(2)] show ?thesis
    by (auto simp: ledger_ops mayReply_def)
qed

lemma inbox_rows_other:
  "d \<noteq> d' \<Longrightarrow> inbox_rows d (snd (emitTerminalDelegationReply env fl a b d' st e logs)) = inbox_rows d logs"
  by (simp add: reply_defs inbox_rows_def)

text \<open>
  One candidate, possibly stale, under any faults: a delegation that is not overdue in the
  snapshot, or that is already terminal in the table, keeps its status or becomes stuck, and
  gets no reply.
\<close>

lemma sweep_candidate_safe:
  assumes "status_in (ss_table st) d = Some v"
    and "cd_id c = d \<Longrightarrow> now \<le> cd_deadline c \<or> IsTerminalDelegationStatus v"
  shows "(status_in (ss_table (sweep_candidate s env fl now dbnow c st)) d = Some v
          \<or> (\<not> IsTerminalDelegationStatus v
             \<and> status_in (ss_table (sweep_candidate s env fl now dbnow c st)) d = Some ''stuck''))
    \<and> inbox_rows d (ss_logs (sweep_candidate s env fl now dbnow c st)) = inbox_rows d (ss_logs st)"
proof (cases "now > cd_deadline c")
  case True
  let ?r = "SetStatus (ledger_faults_of fl (cd_id c)) dbnow (deadline_call (cd_id c)) (ss_table st)"
  obtain a e tbl' where r: "?r = ((a, e), tbl')" by (metis surj_pair)
  obtain fd lg where em: "emitTerminalDelegationReply env (reply_faults_of fl (cd_id c)) (cd_caller c)
      (cd_callee c) (cd_id c) ''failed'' deadline_detail (ss_logs st) = (fd, lg)" by (metis surj_pair)
  have st: "status_in tbl' d = Some v"
    using SetStatus_status_in [of "ledger_faults_of fl (cd_id c)" dbnow "deadline_call (cd_id c)" "ss_table st" d]
      assms True r by auto
  have "inbox_rows d lg = inbox_rows d (ss_logs st)" if "mayReply a"
  proof (cases "cd_id c = d")
    case eq: True
    with assms True have "IsTerminalDelegationStatus v" by auto
    with SetStatus_terminal_silent [of "ss_table st" "deadline_call d" v "ledger_faults_of fl d" dbnow]
      eq assms(1) r that show ?thesis by simp
  next
    case False
    with em inbox_rows_other [of d "cd_id c"] show ?thesis by (metis snd_conv)
  qed
  with st True r em show ?thesis by (simp add: sweep_candidate_def Let_def)
next
  case False
  have "status_in (snd (SetStatus f dbnow (stuck_call (cd_id c) x) (ss_table st))) d = Some v
      \<or> (\<not> IsTerminalDelegationStatus v
          \<and> status_in (snd (SetStatus f dbnow (stuck_call (cd_id c) x) (ss_table st))) d = Some ''stuck'')" for f x
    using SetStatus_status_in [of f dbnow "stuck_call (cd_id c) x" "ss_table st" d] assms(1) by auto
  note stuck = this
  show ?thesis
  proof (cases "cd_lastBeat c")
    case None
    with False assms(1) show ?thesis by (simp add: sweep_candidate_def)
  next
    case (Some b)
    obtain a e tbl' where r: "SetStatus (ledger_faults_of fl (cd_id c)) dbnow (stuck_call (cd_id c) (now - b))
        (ss_table st) = ((a, e), tbl')" by (metis surj_pair)
    with stuck [of "ledger_faults_of fl (cd_id c)" "now - b"] False Some assms(1) show ?thesis
      by (simp add: sweep_candidate_def Let_def)
  qed
qed

lemma sweep_snapshot_mem:
  assumes "c \<in> set (fst (sweep_snapshot fl ws tbl))"
  shows "\<exists>x \<in> set tbl. in_flight x \<and> c = candidate_of ws x"
proof -
  from assms obtain x where "c = candidate_of ws x" "x \<in> set (filter in_flight tbl)"
    by (auto simp: sweep_snapshot_def Let_def split: option.splits dest!: in_set_takeD)
  then show ?thesis by auto
qed

lemma fold_sweep_safe:
  assumes "\<And>c. c \<in> set cs \<Longrightarrow> cd_id c = d \<Longrightarrow> now \<le> cd_deadline c \<or> IsTerminalDelegationStatus v"
    and "status_in (ss_table st) d = Some v"
  shows "(status_in (ss_table (fold (sweep_candidate s env fl now dbnow) cs st)) d = Some v
          \<or> (\<not> IsTerminalDelegationStatus v
             \<and> status_in (ss_table (fold (sweep_candidate s env fl now dbnow) cs st)) d = Some ''stuck''))
    \<and> inbox_rows d (ss_logs (fold (sweep_candidate s env fl now dbnow) cs st)) = inbox_rows d (ss_logs st)"
  using assms
proof (induction cs arbitrary: st v)
  case (Cons c cs)
  let ?st = "sweep_candidate s env fl now dbnow c st"
  have head: "cd_id c = d \<Longrightarrow> now \<le> cd_deadline c \<or> IsTerminalDelegationStatus v"
    using Cons.prems(1) by simp
  note safe = sweep_candidate_safe [OF Cons.prems(2) head, of s env fl dbnow]
  from safe obtain v' where v': "status_in (ss_table ?st) d = Some v'"
    "v' = v \<or> (\<not> IsTerminalDelegationStatus v \<and> v' = ''stuck'')" by blast
  have "now \<le> cd_deadline x \<or> IsTerminalDelegationStatus v'" if "x \<in> set cs" "cd_id x = d" for x
    using Cons.prems(1) [of x] that v'(2) by auto
  moreover have "\<not> IsTerminalDelegationStatus ''stuck''" by (simp add: vocab_simps)
  ultimately show ?case using Cons.IH [OF _ v'(1)] safe v'(2) by auto
qed simp

lemma sweep_spares:
  assumes "unique_key dl_id tbl" and "r \<in> set tbl"
    and "now \<le> dl_deadline r \<or> IsTerminalDelegationStatus (dl_status r)"
  shows "(status_in (ss_table (Sweep s env fl now dbnow ws tbl logs)) (dl_id r) = Some (dl_status r)
          \<or> (\<not> IsTerminalDelegationStatus (dl_status r)
             \<and> status_in (ss_table (Sweep s env fl now dbnow ws tbl logs)) (dl_id r) = Some ''stuck''))
    \<and> inbox_rows (dl_id r) (ss_logs (Sweep s env fl now dbnow ws tbl logs)) = inbox_rows (dl_id r) logs"
proof (cases "query_fails fl")
  case True
  then show ?thesis using sql_find_key [OF assms(1,2)] by (simp add: Sweep_def status_in_def)
next
  case False
  obtain todo bad where snap: "sweep_snapshot fl ws tbl = (todo, bad)" by fastforce
  have st: "status_in tbl (dl_id r) = Some (dl_status r)"
    using sql_find_key [OF assms(1,2)] by (simp add: status_in_def)
  have dl: "now \<le> cd_deadline c \<or> IsTerminalDelegationStatus (dl_status r)"
    if "c \<in> set todo" "cd_id c = dl_id r" for c
  proof -
    from that(1) snap obtain x where "c = candidate_of ws x" "x \<in> set tbl"
      using sweep_snapshot_mem [of c fl ws tbl] by auto
    with that(2) unique_key_eq [OF assms(1) _ assms(2)] have "c = candidate_of ws r"
      by (metis candidate_of_sel(1))
    with assms(3) show ?thesis by simp
  qed
  show ?thesis
    using fold_sweep_safe [of todo "dl_id r" now "dl_status r"
        "\<lparr>ss_table = tbl, ss_logs = logs, ss_res = zero_result\<lparr>Errors := bad\<rparr>\<rparr>"] dl st False snap
    by (simp add: Sweep_def)
qed

text \<open>
  whatever fails during a pass (the query, a scan, the cursor, any ledger or reply write),
  a delegation that is not past its deadline is never terminalized by it and its caller is told
  nothing: it keeps its status or is marked stuck. A delegation that was already completed or
  failed keeps that status, and is never answered a second time.
\<close>

theorem Sweep_safe:
  assumes "unique_key dl_id tbl" and "r \<in> set tbl"
    and "now \<le> dl_deadline r \<or> IsTerminalDelegationStatus (dl_status r)"
  shows "(status_in (ss_table (Sweep s env fl now dbnow ws tbl logs)) (dl_id r) = Some (dl_status r)
          \<or> (\<not> IsTerminalDelegationStatus (dl_status r)
             \<and> status_in (ss_table (Sweep s env fl now dbnow ws tbl logs)) (dl_id r) = Some ''stuck''))
    \<and> inbox_rows (dl_id r) (ss_logs (Sweep s env fl now dbnow ws tbl logs)) = inbox_rows (dl_id r) logs"
  using assms by (rule sweep_spares)

theorem Sweep_safe_witness:
  "status_in (ss_table (Sweep example_sweeper flags_on no_sweep_faults 50 50 [] [example_row] [])) ''d1''
     \<in> {Some ''queued'', Some ''stuck''}
   \<and> inbox_rows ''d1'' (ss_logs (Sweep example_sweeper flags_on no_sweep_faults 50 50 [] [example_row] [])) = []"
  using Sweep_safe [of "[example_row]" example_row 50 example_sweeper flags_on no_sweep_faults 50 "[]" "[]"]
  by (auto simp: unique_key_def example_row_def inbox_rows_def)

subsection \<open>The sweeper as it is started\<close>

lemma sweep_candidate_ok:
  "ledger_ok (ss_table st) \<Longrightarrow> ledger_ok (ss_table (sweep_candidate s env fl now dbnow c st))"
  using SetStatus_ok [of "ss_table st" "ledger_faults_of fl (cd_id c)" dbnow]
  by (auto simp: sweep_candidate_def Let_def split: option.split prod.split) (metis snd_conv)+

lemma Sweep_ok: "ledger_ok tbl \<Longrightarrow> ledger_ok (ss_table (Sweep s env fl now dbnow ws tbl logs))"
proof -
  assume ok: "ledger_ok tbl"
  have "ledger_ok (ss_table (fold (sweep_candidate s env fl now dbnow) cs st))"
    if "ledger_ok (ss_table st)" for cs st
    using that by (induction cs arbitrary: st) (simp_all add: sweep_candidate_ok)
  with ok show ?thesis by (simp add: Sweep_def split: prod.split)
qed

text \<open>Once terminal, a delegation is left alone by every later tick, whatever fails.\<close>

lemma ticks_keep_terminal:
  assumes "ledger_ok tbl" and "status_in tbl d = Some v" and "IsTerminalDelegationStatus v"
  shows "status_in (fst (fold (tickWithRecover s env) ticks (tbl, logs))) d = Some v
    \<and> inbox_rows d (snd (fold (tickWithRecover s env) ticks (tbl, logs))) = inbox_rows d logs"
  using assms
proof (induction ticks arbitrary: tbl logs)
  case (Cons t ticks)
  let ?o = "Sweep s env (tk_faults t) (tk_now t) (tk_dbnow t) (tk_beats t) tbl logs"
  have uq: "unique_key dl_id tbl" using Cons.prems(1) by (simp add: ledger_ok_def)
  from Cons.prems(2) obtain r where "sql_find (\<lambda>r. dl_id r = d) tbl = Some r" "dl_status r = v"
    by (auto simp: status_in_def)
  with sql_find_Some_iff have r: "r \<in> set tbl" "dl_id r = d" "dl_status r = v" by fastforce+
  have "status_in (ss_table ?o) d = Some v" "inbox_rows d (ss_logs ?o) = inbox_rows d logs"
    using sweep_spares [OF uq r(1), of "tk_now t" s env "tk_faults t" "tk_dbnow t" "tk_beats t" logs]
      r Cons.prems(3) by auto
  then show ?case
    using Cons.IH [of "ss_table ?o" "ss_logs ?o"] Sweep_ok [OF Cons.prems(1)] Cons.prems(3)
    by (simp add: tickWithRecover_def Let_def)
qed simp

lemma inbox_deadline_reply:
  assumes "ledgerWritesEnabled env" and "delegationResultInboxPushEnabled env"
  shows "length (inbox_rows d (deadline_reply env r)) = (if dl_id r = d then 1 else 0)"
  using assms by (simp add: deadline_reply_def reply_defs inbox_rows_def no_reply_faults_def)

lemma inbox_deadline_replies:
  assumes "ledgerWritesEnabled env" and "delegationResultInboxPushEnabled env"
    and "distinct (map dl_id rs)"
  shows "length (inbox_rows d (concat (map (deadline_reply env) rs))) = (if d \<in> dl_id ` set rs then 1 else 0)"
  using assms(3)
proof (induction rs)
  case Nil
  then show ?case by (simp add: inbox_rows_def)
next
  case (Cons r rs)
  then show ?case using inbox_deadline_reply [OF assms(1,2), of d r] by auto
qed

lemma sweep_row_overdue: "overdue now r \<Longrightarrow> dl_status (sweep_row s now dbnow ws r) = ''failed''"
  by (simp add: sweep_row_def)

text \<open>
  a delegation that is overdue when the sweeper starts is failed by the first pass, its
  caller gets exactly one inbox message about it, and no later tick, whatever fails in it,
  changes the status or answers again.
\<close>

theorem Start_tells_once:
  assumes "ledger_ok tbl" and "r \<in> set tbl" and "overdue (tk_now t0) r"
    and "tk_faults t0 = no_sweep_faults" and "0 < sw_interval s"
    and "ledgerWritesEnabled env" and "delegationResultInboxPushEnabled env"
  shows "\<exists>tbl' logs'. Start s env t0 ticks (tbl, logs) = Some (tbl', logs')
    \<and> status_in tbl' (dl_id r) = Some ''failed''
    \<and> length (inbox_rows (dl_id r) logs') = length (inbox_rows (dl_id r) logs) + 1"
proof -
  define tbl1 where "tbl1 = map (sweep_row s (tk_now t0) (tk_dbnow t0) (tk_beats t0)) tbl"
  define logs1 where "logs1 = logs @ concat (map (deadline_reply env) (filter (overdue (tk_now t0)) tbl))"
  have uq: "unique_key dl_id tbl" using assms(1) by (simp add: ledger_ok_def)
  have upd: "tbl1 = sql_update (\<lambda>_. True) (sweep_row s (tk_now t0) (tk_dbnow t0) (tk_beats t0)) tbl"
    by (simp add: tbl1_def sql_update_def)
  have ok: "ledger_ok tbl1" unfolding upd by (rule ledger_ok_sweep [OF assms(1)])
  have st: "status_in tbl1 (dl_id r) = Some ''failed''"
    unfolding upd by (subst status_in_update)
      (simp_all add: sql_find_key [OF uq assms(2)] sweep_row_overdue assms(3))
  have "distinct (map dl_id (filter (overdue (tk_now t0)) tbl))"
    using uq by (simp add: unique_key_def distinct_map_filter)
  then have inbox: "length (inbox_rows (dl_id r) logs1) = length (inbox_rows (dl_id r) logs) + 1"
    using assms(2,3) inbox_deadline_replies [OF assms(6,7), of "filter (overdue (tk_now t0)) tbl" "dl_id r"]
    by (auto simp: logs1_def)
  have first: "tickWithRecover s env t0 (tbl, logs) = (tbl1, logs1)"
    using sweep_effect [OF assms(1), of s env "tk_now t0" "tk_dbnow t0" "tk_beats t0" logs] assms(4)
    by (simp add: tickWithRecover_def tbl1_def logs1_def Let_def)
  obtain tbl' logs' where out: "fold (tickWithRecover s env) ticks (tbl1, logs1) = (tbl', logs')"
    by fastforce
  have "IsTerminalDelegationStatus ''failed''" by (simp add: vocab_simps)
  with ticks_keep_terminal [OF ok st, of s env ticks logs1] out inbox first assms(5)
  show ?thesis by (auto simp: Start_def)
qed

definition example_tick :: tick where
  "example_tick = \<lparr>tk_now = 101, tk_dbnow = 101, tk_faults = no_sweep_faults, tk_beats = []\<rparr>"

theorem Start_tells_once_witness:
  "\<exists>tbl' logs'. Start example_sweeper flags_on example_tick [example_tick, example_tick] ([example_row], []) =
      Some (tbl', logs') \<and> status_in tbl' ''d1'' = Some ''failed'' \<and> length (inbox_rows ''d1'' logs') = 1"
proof -
  have "overdue (tk_now example_tick) example_row"
    by (simp add: overdue_def in_flight_def example_row_def vocab_simps example_tick_def)
  from Start_tells_once [OF example_row_ok _ this, of example_sweeper flags_on "[example_tick, example_tick]" "[]"]
  show ?thesis
    by (simp add: example_tick_def example_sweeper_def ledgerWritesEnabled_def
        delegationResultInboxPushEnabled_def flags_on_def inbox_rows_def example_row_def)
qed

text \<open>
  the interval taken from the environment is positive for every setting up to
  9223372036 seconds, invalid settings included (they fall back to the default); one second
  more and the 64-bit product wraps to a negative duration, on which the ticker of \<open>Start\<close>
  panics before the first pass.
\<close>

theorem sweeper_interval_range:
  "(case atoi (env ''DELEGATION_SWEEPER_INTERVAL_S'') of
      None \<Rightarrow> sw_interval (NewDelegationSweeper env now) = 5 * minute
    | Some n \<Rightarrow>
       (if n \<le> 0 then sw_interval (NewDelegationSweeper env now) = 5 * minute
        else if n \<le> 9223372036 then sw_interval (NewDelegationSweeper env now) = n * second
        else if n = 9223372037 then Start (NewDelegationSweeper env now) env t0 ticks st = None
        else True))"
proof (cases "atoi (env ''DELEGATION_SWEEPER_INTERVAL_S'')")
  case None
  then show ?thesis
    by (simp add: NewDelegationSweeper_def envDuration_def Let_def defaultSweeperInterval_def)
next
  case (Some n)
  then have ne: "env ''DELEGATION_SWEEPER_INTERVAL_S'' \<noteq> []" by (auto simp: atoi_def Let_def)
  have "int64 (n * second) = n * second" if "0 < n" "n \<le> 9223372036"
    using that by (intro int64_id) (simp_all add: second_def)
  moreover have "int64 (9223372037 * second) \<le> 0" by (simp add: int64_def second_def)
  ultimately show ?thesis using Some ne
    by (simp add: NewDelegationSweeper_def envDuration_def Let_def defaultSweeperInterval_def Start_def)
qed

end
