(* ===== verification/Restart.thy ===== *)
theory Restart
  imports Delegation_Sweeper
begin

text \<open>
  Automatic restarts: the coalescing gate and the self-fire debounce
  (\<^verbatim>\<open>internal/handlers/workspace_restart.go\<close>), the crash-loop breaker
  (\<^verbatim>\<open>auto_restart_breaker.go\<close>) and the post-restart queue hold (\<^verbatim>\<open>restart_queue_hold.go\<close>).

  \<open>restart_states\<close> is the process-wide \<open>sync.Map\<close>; the zero \<open>time.Time\<close> is \<open>None\<close>. Each critical
  section under \<open>state.mu\<close> is one function. \<open>coalesceRestart\<close> runs in many goroutines, so it
  is the step relation \<open>coalesce_step\<close> with one program counter per caller; \<open>cs_waiting\<close> is a
  ghost field, the callers whose request no cycle has started after yet.
\<close>

subsection \<open>State\<close>

record restartState =
  rs_running :: bool
  rs_pending :: bool
  rs_startedAt :: "time option"
  rs_autoRestarts :: "time list"
  rs_halted :: bool
  rs_heldSince :: "time option"
  rs_readyHeartbeat :: "time option"

type_synonym restart_states = "string \<rightharpoonup> restartState"

definition new_state :: restartState where
  "new_state = \<lparr>rs_running = False, rs_pending = False, rs_startedAt = None, rs_autoRestarts = [],
     rs_halted = False, rs_heldSince = None, rs_readyHeartbeat = None\<rparr>"

text \<open>\<open>LoadOrStore\<close> of a fresh state.\<close>

definition load_or_store :: "restart_states \<Rightarrow> string \<Rightarrow> restartState" where
  "load_or_store m ws = (case m ws of None \<Rightarrow> new_state | Some s \<Rightarrow> s)"

definition RestartDebounceWindow :: duration where "RestartDebounceWindow = 60 * second"

definition shouldDebounceRestart :: "time \<Rightarrow> restart_states \<Rightarrow> string \<Rightarrow> bool" where
  "shouldDebounceRestart now m ws =
    (case m ws of
       None \<Rightarrow> False
     | Some s \<Rightarrow> (case rs_startedAt s of None \<Rightarrow> False | Some t \<Rightarrow> now - t < RestartDebounceWindow))"

datatype restart_decision = NoProvisioner | Halted | Debounced | RunCoalesced

definition restartByIDWithCycle :: "time \<Rightarrow> bool \<Rightarrow> bool \<Rightarrow> restart_states \<Rightarrow> string \<Rightarrow> restart_decision" where
  "restartByIDWithCycle now hasProvisioner useSelfFireDebounce m ws =
    (if \<not> hasProvisioner then NoProvisioner
     else if useSelfFireDebounce \<and> shouldDebounceRestart now m ws then Debounced
     else RunCoalesced)"

subsection \<open>The crash-loop breaker\<close>

definition autoRestartLimit :: nat where "autoRestartLimit = 3"
definition autoRestartWindow :: duration where "autoRestartWindow = 30 * minute"

definition autoRestartHalted :: "time \<Rightarrow> restart_states \<Rightarrow> string \<Rightarrow> bool \<times> restart_states" where
  "autoRestartHalted now m ws =
    (let s = load_or_store m ws;
         recent = filter (\<lambda>at. now - at < autoRestartWindow) (rs_autoRestarts s);
         halted = (rs_halted s \<or> length recent \<ge> autoRestartLimit)
     in (halted, m(ws \<mapsto> s\<lparr>rs_autoRestarts := recent, rs_halted := halted\<rparr>)))"

definition recordAutoRestart :: "time \<Rightarrow> restart_states \<Rightarrow> string \<Rightarrow> restart_states" where
  "recordAutoRestart now m ws =
    (let s = load_or_store m ws in m(ws \<mapsto> s\<lparr>rs_autoRestarts := rs_autoRestarts s @ [now]\<rparr>))"

definition resetAutoRestarts :: "restart_states \<Rightarrow> string \<Rightarrow> restart_states" where
  "resetAutoRestarts m ws =
    (case m ws of
       None \<Rightarrow> m
     | Some s \<Rightarrow> m(ws \<mapsto> s\<lparr>rs_autoRestarts := [], rs_halted := False, rs_heldSince := None, rs_readyHeartbeat := None\<rparr>))"

text \<open>\<open>autoRestartCycle\<close>: the trigger handed to the \<open>n\<close>-th cycle of the drain loop.\<close>

fun autoRestartCycle :: "string \<Rightarrow> nat \<Rightarrow> string" where
  "autoRestartCycle trigger 0 = trigger"
| "autoRestartCycle trigger (Suc n) = []"

text \<open>The columns \<open>haltAutoRestarts\<close> writes, and the event it announces.\<close>

record halt_row =
  hw_id :: string
  hw_status :: string
  hw_last_sample_error :: string

record halt_event =
  he_workspace :: string
  he_error :: string
  he_trigger :: string

definition halt_message :: "string \<Rightarrow> string" where
  "halt_message trigger =
    ''Automatic restarts stopped: '' @ show_nat autoRestartLimit @ '' automatic restarts within '' @
    duration_string autoRestartWindow @ '' did not keep this workspace up (last trigger: '' @ trigger @
    ''). It will not be restarted automatically again until it is restarted manually.''"

definition haltAutoRestarts ::
  "bool \<Rightarrow> bool \<Rightarrow> string \<Rightarrow> string \<Rightarrow> halt_row list \<Rightarrow> halt_row list \<times> halt_event list" where
  "haltAutoRestarts update_err no_broadcaster ws trigger tbl =
    (let msg = halt_message trigger;
         hit = (\<lambda>r. hw_id r = ws \<and>
           hw_status r \<notin> {''removed'', ''provisioning'', ''paused'', ''hibernated'', ''failed''})
     in if update_err then (tbl, [])
        else
          let tbl' = sql_update hit (\<lambda>r. r\<lparr>hw_status := ''failed'', hw_last_sample_error := msg\<rparr>) tbl
          in if sql_affected hit tbl = 0 \<or> no_broadcaster then (tbl', [])
             else (tbl', [\<lparr>he_workspace = ws, he_error = msg, he_trigger = trigger\<rparr>]))"

definition AutoRestartByID ::
  "time \<Rightarrow> bool \<Rightarrow> restart_states \<Rightarrow> string \<Rightarrow> restart_decision \<times> restart_states" where
  "AutoRestartByID now hasProvisioner m ws =
    (if \<not> hasProvisioner then (NoProvisioner, m)
     else if shouldDebounceRestart now m ws then (restartByIDWithCycle now True True m ws, m)
     else case autoRestartHalted now m ws of
         (halted, m') \<Rightarrow> if halted then (Halted, m') else (restartByIDWithCycle now True True m' ws, m'))"

subsection \<open>The post-restart queue hold\<close>

definition restartQueueHoldGrace :: duration where "restartQueueHoldGrace = 90 * second"

definition armRestartQueueHold :: "time \<Rightarrow> restart_states \<Rightarrow> string \<Rightarrow> restart_states" where
  "armRestartQueueHold now m ws =
    m(ws \<mapsto> (load_or_store m ws)\<lparr>rs_heldSince := Some now, rs_readyHeartbeat := None\<rparr>)"

definition restartQueueHeld :: "restart_states \<Rightarrow> string \<Rightarrow> bool" where
  "restartQueueHeld m ws = (case m ws of None \<Rightarrow> False | Some s \<Rightarrow> rs_heldSince s \<noteq> None)"

text \<open>
  The first critical section of \<open>holdQueueAfterRestart\<close> and its query: \<open>None\<close> when the answer
  is already no, otherwise the observed \<open>heldSince\<close> with the row. \<open>row = None\<close> is a failed query.
\<close>

record ready_row =
  rr_status :: string
  rr_heartbeat :: "time option"

definition hold_read :: "restart_states \<Rightarrow> string \<Rightarrow> time option" where
  "hold_read m ws = (case m ws of None \<Rightarrow> None | Some s \<Rightarrow> rs_heldSince s)"

definition row_ready :: "time \<Rightarrow> ready_row \<Rightarrow> bool" where
  "row_ready heldSince row =
    ((rr_status row = ''online'' \<or> rr_status row = ''degraded'')
     \<and> (case rr_heartbeat row of None \<Rightarrow> False | Some hb \<Rightarrow> hb > heldSince))"

text \<open>The second critical section.\<close>

definition hold_decide :: "time \<Rightarrow> ready_row \<Rightarrow> restartState \<Rightarrow> bool \<times> restartState" where
  "hold_decide heldSince row s =
    (if rs_heldSince s = None then (False, s)
     else if rs_heldSince s \<noteq> Some heldSince then (True, s)
     else if \<not> row_ready heldSince row then (True, s\<lparr>rs_readyHeartbeat := None\<rparr>)
     else case rs_readyHeartbeat s of
         None \<Rightarrow> (True, s\<lparr>rs_readyHeartbeat := rr_heartbeat row\<rparr>)
       | Some first \<Rightarrow>
          if the (rr_heartbeat row) - first < restartQueueHoldGrace then (True, s)
          else (False, s\<lparr>rs_heldSince := None, rs_readyHeartbeat := None\<rparr>))"

definition holdQueueAfterRestart ::
  "ready_row option \<Rightarrow> restart_states \<Rightarrow> string \<Rightarrow> bool \<times> restart_states" where
  "holdQueueAfterRestart row m ws =
    (case hold_read m ws of
       None \<Rightarrow> (False, m)
     | Some heldSince \<Rightarrow>
        (case row of
           None \<Rightarrow> (False, m)
         | Some rw \<Rightarrow>
            (case hold_decide heldSince rw (load_or_store m ws) of (held, s') \<Rightarrow> (held, m(ws \<mapsto> s')))))"

subsection \<open>The coalescing gate\<close>

text \<open>
  Where a goroutine of \<open>coalesceRestart\<close> is: not started, at the top of the drain loop with the
  iteration count, inside a cycle, returned from the loop (or unwinding a panic) with the
  deferred clean-up still to run, finished, or returned early because a runner was there.
\<close>

datatype pc = NotStarted | Draining nat | InCycle nat | Leaving | Ended | CoalescedInto

record coalesce_sys =
  cs_state :: restartState
  cs_pc :: "nat \<Rightarrow> pc"
  cs_waiting :: "nat set"
  cs_cycles :: nat
  cs_requests :: nat

datatype coalesce_label = Enter nat time | Begin nat time | End nat | Panic nat | Exit nat | Clear nat

inductive coalesce_step :: "coalesce_label \<Rightarrow> coalesce_sys \<Rightarrow> coalesce_sys \<Rightarrow> bool" where
  enter_running: "cs_pc s i = NotStarted \<Longrightarrow> rs_running (cs_state s) \<Longrightarrow>
    coalesce_step (Enter i now) s
      (s\<lparr>cs_state := (cs_state s)\<lparr>rs_pending := True\<rparr>, cs_pc := (cs_pc s)(i := CoalescedInto),
         cs_waiting := insert i (cs_waiting s), cs_requests := cs_requests s + 1\<rparr>)"
| enter_idle: "cs_pc s i = NotStarted \<Longrightarrow> \<not> rs_running (cs_state s) \<Longrightarrow>
    coalesce_step (Enter i now) s
      (s\<lparr>cs_state := (cs_state s)\<lparr>rs_pending := True, rs_running := True, rs_startedAt := Some now\<rparr>,
         cs_pc := (cs_pc s)(i := Draining 0),
         cs_waiting := insert i (cs_waiting s), cs_requests := cs_requests s + 1\<rparr>)"
| begin_cycle: "cs_pc s i = Draining n \<Longrightarrow> rs_pending (cs_state s) \<Longrightarrow>
    coalesce_step (Begin i now) s
      (s\<lparr>cs_state := (cs_state s)\<lparr>rs_pending := False,
           rs_startedAt := (if n > 0 then Some now else rs_startedAt (cs_state s))\<rparr>,
         cs_pc := (cs_pc s)(i := InCycle (n + 1)), cs_waiting := {}, cs_cycles := cs_cycles s + 1\<rparr>)"
| end_cycle: "cs_pc s i = InCycle n \<Longrightarrow>
    coalesce_step (End i) s (s\<lparr>cs_pc := (cs_pc s)(i := Draining n)\<rparr>)"
| panic_cycle: "cs_pc s i = InCycle n \<Longrightarrow>
    coalesce_step (Panic i) s (s\<lparr>cs_pc := (cs_pc s)(i := Leaving)\<rparr>)"
| exit_loop: "cs_pc s i = Draining n \<Longrightarrow> \<not> rs_pending (cs_state s) \<Longrightarrow>
    coalesce_step (Exit i) s (s\<lparr>cs_pc := (cs_pc s)(i := Leaving)\<rparr>)"
| clear_running: "cs_pc s i = Leaving \<Longrightarrow>
    coalesce_step (Clear i) s
      (s\<lparr>cs_state := (cs_state s)\<lparr>rs_running := False\<rparr>, cs_pc := (cs_pc s)(i := Ended)\<rparr>)"

definition coalesce_init :: coalesce_sys where
  "coalesce_init = \<lparr>cs_state = new_state, cs_pc = (\<lambda>_. NotStarted), cs_waiting = {}, cs_cycles = 0, cs_requests = 0\<rparr>"

inductive coalesce_run :: "coalesce_label list \<Rightarrow> coalesce_sys \<Rightarrow> coalesce_sys \<Rightarrow> bool" where
  run_nil: "coalesce_run [] s s"
| run_snoc: "coalesce_run ls s t \<Longrightarrow> coalesce_step l t u \<Longrightarrow> coalesce_run (ls @ [l]) s u"

definition is_runner :: "pc \<Rightarrow> bool" where
  "is_runner p = (case p of Draining n \<Rightarrow> True | InCycle n \<Rightarrow> True | Leaving \<Rightarrow> True | _ \<Rightarrow> False)"

text \<open>No goroutine is left that will do anything for this workspace.\<close>

definition quiescent :: "coalesce_sys \<Rightarrow> bool" where
  "quiescent s \<longleftrightarrow> (\<forall>i. \<not> is_runner (cs_pc s i))"

inductive_cases coalesce_stepE: "coalesce_step l s s'"

subsection \<open>One runner per workspace\<close>

definition coalesce_wf :: "coalesce_sys \<Rightarrow> bool" where
  "coalesce_wf s \<longleftrightarrow>
    (\<forall>i j. is_runner (cs_pc s i) \<and> is_runner (cs_pc s j) \<longrightarrow> i = j)
    \<and> (rs_running (cs_state s) \<longleftrightarrow> (\<exists>i. is_runner (cs_pc s i)))
    \<and> (rs_pending (cs_state s) \<longleftrightarrow> cs_waiting s \<noteq> {})
    \<and> cs_cycles s + (if rs_pending (cs_state s) then 1 else 0) \<le> cs_requests s"

lemma is_runner_simps [simp]:
  "\<not> is_runner NotStarted" "is_runner (Draining n)" "is_runner (InCycle n)" "is_runner Leaving"
  "\<not> is_runner Ended" "\<not> is_runner CoalescedInto"
  by (simp_all add: is_runner_def)

lemma coalesce_wf_init: "coalesce_wf coalesce_init"
  by (simp add: coalesce_wf_def coalesce_init_def new_state_def)

text \<open>The runner condition depends on which goroutines run, not on where they are.\<close>

lemma runner_replace:
  assumes "is_runner (f i)" and "is_runner p"
  shows "is_runner ((f(i := p)) j) = is_runner (f j)"
  using assms by simp

lemma coalesce_wf_step:
  assumes "coalesce_wf s" and "coalesce_step l s s'"
  shows "coalesce_wf s'"
  using assms(2)
proof (cases rule: coalesce_step.cases)
  case (enter_running i now)
  then have "is_runner (((cs_pc s)(i := CoalescedInto)) j) = is_runner (cs_pc s j)" for j by simp
  with enter_running assms(1) show ?thesis by (simp add: coalesce_wf_def)
next
  case (enter_idle i now)
  then have no: "\<not> is_runner (cs_pc s j)" for j using assms(1) by (simp add: coalesce_wf_def)
  then have "is_runner (((cs_pc s)(i := Draining 0)) j) = (j = i)" for j by simp
  with enter_idle assms(1) show ?thesis by (auto simp: coalesce_wf_def)
next
  case (begin_cycle i n now)
  then have "is_runner (((cs_pc s)(i := InCycle (n + 1))) j) = is_runner (cs_pc s j)" for j by simp
  with begin_cycle assms(1) show ?thesis by (simp add: coalesce_wf_def)
next
  case (end_cycle i n)
  then have "is_runner (((cs_pc s)(i := Draining n)) j) = is_runner (cs_pc s j)" for j by simp
  with end_cycle assms(1) show ?thesis by (auto simp: coalesce_wf_def split: if_splits)
next
  case (panic_cycle i n)
  then have "is_runner (((cs_pc s)(i := Leaving)) j) = is_runner (cs_pc s j)" for j by simp
  with panic_cycle assms(1) show ?thesis by (auto simp: coalesce_wf_def split: if_splits)
next
  case (exit_loop i n)
  then have "is_runner (((cs_pc s)(i := Leaving)) j) = is_runner (cs_pc s j)" for j by simp
  with exit_loop assms(1) show ?thesis by (auto simp: coalesce_wf_def split: if_splits)
next
  case (clear_running i)
  then have one: "is_runner (cs_pc s j) = (j = i)" for j
    using assms(1) unfolding coalesce_wf_def by (metis is_runner_simps(4))
  then have "\<not> is_runner (((cs_pc s)(i := Ended)) j)" for j by simp
  with clear_running assms(1) show ?thesis by (auto simp: coalesce_wf_def split: if_splits)
qed

lemma coalesce_run_wf: "coalesce_run ls s t \<Longrightarrow> coalesce_wf s \<Longrightarrow> coalesce_wf t"
  by (induction rule: coalesce_run.induct) (auto intro: coalesce_wf_step)

text \<open>
  C13: restarts of one workspace never overlap, and coalescing never invents work: in every
  reachable state of any number of concurrent callers, at most one of them is inside the drain
  loop, the running flag says exactly whether one is, and no more cycles have started than
  restarts were requested.
\<close>

theorem restarts_do_not_overlap:
  assumes "coalesce_run ls coalesce_init s"
  shows "(\<forall>i j n m. cs_pc s i = InCycle n \<and> cs_pc s j = InCycle m \<longrightarrow> i = j)
    \<and> (rs_running (cs_state s) \<longleftrightarrow> \<not> quiescent s)
    \<and> cs_cycles s \<le> cs_requests s"
proof -
  have wf: "coalesce_wf s" by (rule coalesce_run_wf [OF assms coalesce_wf_init])
  have "i = j" if "cs_pc s i = InCycle n" "cs_pc s j = InCycle m" for i j n m
    using wf that unfolding coalesce_wf_def by (metis is_runner_simps(3))
  moreover have "cs_cycles s \<le> cs_requests s" using wf by (simp add: coalesce_wf_def split: if_splits)
  moreover have "rs_running (cs_state s) \<longleftrightarrow> \<not> quiescent s" using wf by (auto simp: coalesce_wf_def quiescent_def)
  ultimately show ?thesis by blast
qed

text \<open>A runner that has not yet decided to leave.\<close>

definition will_serve :: "coalesce_sys \<Rightarrow> bool" where
  "will_serve s \<longleftrightarrow> (\<exists>i n. cs_pc s i = Draining n \<or> cs_pc s i = InCycle n)"

text \<open>
  The schedules in which nothing is lost: no cycle panics, and nobody arrives in the gap
  between a runner's last look at \<open>pending\<close> and its deferred clean-up.
\<close>

fun gap_free :: "coalesce_label \<Rightarrow> coalesce_sys \<Rightarrow> bool" where
  "gap_free (Panic i) s = False"
| "gap_free (Enter i now) s = (\<forall>j. cs_pc s j \<noteq> Leaving)"
| "gap_free l s = True"

inductive gap_free_run :: "coalesce_sys \<Rightarrow> coalesce_sys \<Rightarrow> bool" where
  gf_nil: "gap_free_run s s"
| gf_snoc: "gap_free_run s t \<Longrightarrow> gap_free l t \<Longrightarrow> coalesce_step l t u \<Longrightarrow> gap_free_run s u"

lemma gap_free_serves:
  assumes "coalesce_wf t" and "cs_waiting t \<noteq> {} \<longrightarrow> will_serve t" and "gap_free l t"
    and "coalesce_step l t u"
  shows "cs_waiting u \<noteq> {} \<longrightarrow> will_serve u"
  using assms(4)
proof (cases rule: coalesce_step.cases)
  case (enter_running i now)
  with assms(1) obtain j where "is_runner (cs_pc t j)" by (auto simp: coalesce_wf_def)
  moreover have "cs_pc t j \<noteq> Leaving" using assms(3) enter_running by simp
  ultimately obtain n where "cs_pc t j = Draining n \<or> cs_pc t j = InCycle n"
    by (cases "cs_pc t j") auto
  moreover have "j \<noteq> i" using calculation enter_running by auto
  ultimately show ?thesis using enter_running by (auto simp: will_serve_def)
next
  case (exit_loop i n)
  with assms(1) have "cs_waiting t = {}" by (simp add: coalesce_wf_def)
  with exit_loop show ?thesis by simp
next
  case (clear_running i)
  then have one: "j = i" if "is_runner (cs_pc t j)" for j
    using assms(1) that unfolding coalesce_wf_def by (metis is_runner_simps(4))
  have "\<not> will_serve t"
  proof
    assume "will_serve t"
    then obtain j n where j: "cs_pc t j = Draining n \<or> cs_pc t j = InCycle n" by (auto simp: will_serve_def)
    then have "j = i" by (intro one) auto
    with j clear_running show False by auto
  qed
  with assms(2) clear_running show ?thesis by simp
next
  case (panic_cycle i n)
  with assms(3) show ?thesis by simp
qed (auto simp: will_serve_def)

lemma gap_free_run_inv:
  "gap_free_run s t \<Longrightarrow> coalesce_wf s \<Longrightarrow> cs_waiting s = {} \<Longrightarrow>
   coalesce_wf t \<and> (cs_waiting t \<noteq> {} \<longrightarrow> will_serve t)"
proof (induction rule: gap_free_run.induct)
  case (gf_snoc s t l u)
  then show ?case using coalesce_wf_step gap_free_serves by blast
qed simp

text \<open>
  a restart request is served. As long as no cycle panics and nobody arrives in the gap
  between a runner's last check and its clean-up, every request that was made has had a cycle
  start after it by the time the workspace is quiet again.
\<close>

theorem requests_are_served:
  assumes "gap_free_run coalesce_init s" and "quiescent s"
  shows "cs_waiting s = {} \<and> \<not> rs_pending (cs_state s)"
proof -
  have inv: "coalesce_wf s \<and> (cs_waiting s \<noteq> {} \<longrightarrow> will_serve s)"
    by (rule gap_free_run_inv [OF assms(1) coalesce_wf_init]) (simp add: coalesce_init_def)
  moreover have "\<not> will_serve s"
    using assms(2) unfolding quiescent_def will_serve_def by (metis is_runner_simps(2,3))
  ultimately show ?thesis by (auto simp: coalesce_wf_def)
qed

text \<open>A caller that enters an idle gate: it runs one cycle and leaves.\<close>

definition after_enter :: coalesce_sys where
  "after_enter = coalesce_init\<lparr>cs_state := new_state\<lparr>rs_pending := True, rs_running := True, rs_startedAt := Some 0\<rparr>,
     cs_pc := (\<lambda>_. NotStarted)(0 := Draining 0), cs_waiting := {0}, cs_requests := 1\<rparr>"

definition after_begin :: coalesce_sys where
  "after_begin = after_enter\<lparr>cs_state := (cs_state after_enter)\<lparr>rs_pending := False\<rparr>,
     cs_pc := (\<lambda>_. NotStarted)(0 := InCycle 1), cs_waiting := {}, cs_cycles := 1\<rparr>"

definition after_end :: coalesce_sys where
  "after_end = after_begin\<lparr>cs_pc := (\<lambda>_. NotStarted)(0 := Draining 1)\<rparr>"

definition after_exit :: coalesce_sys where
  "after_exit = after_end\<lparr>cs_pc := (\<lambda>_. NotStarted)(0 := Leaving)\<rparr>"

definition after_clear :: coalesce_sys where
  "after_clear = after_exit\<lparr>cs_state := (cs_state after_exit)\<lparr>rs_running := False\<rparr>,
     cs_pc := (\<lambda>_. NotStarted)(0 := Ended)\<rparr>"

lemmas run_states = coalesce_init_def after_enter_def after_begin_def after_end_def after_exit_def after_clear_def
  new_state_def

lemma first_steps:
  "coalesce_step (Enter 0 0) coalesce_init after_enter"
  "coalesce_step (Begin 0 0) after_enter after_begin"
  "coalesce_step (End 0) after_begin after_end"
  "coalesce_step (Exit 0) after_end after_exit"
proof -
  show "coalesce_step (Enter 0 0) coalesce_init after_enter"
    using coalesce_step.enter_idle [of coalesce_init 0 0] by (simp add: run_states)
  show "coalesce_step (Begin 0 0) after_enter after_begin"
    using coalesce_step.begin_cycle [of after_enter 0 0 0] by (simp add: run_states)
  show "coalesce_step (End 0) after_begin after_end"
    using coalesce_step.end_cycle [of after_begin 0 1] by (simp add: run_states)
  show "coalesce_step (Exit 0) after_end after_exit"
    using coalesce_step.exit_loop [of after_end 0 1] by (simp add: run_states)
qed

lemma clear_step: "coalesce_step (Clear 0) after_exit after_clear"
  using coalesce_step.clear_running [of after_exit 0] by (simp add: run_states)

theorem restarts_do_not_overlap_witness:
  "rs_running (cs_state after_begin) \<and> cs_cycles after_begin \<le> cs_requests after_begin"
proof -
  have "coalesce_run ([] @ [Enter 0 0]) coalesce_init after_enter"
    by (rule run_snoc [OF run_nil first_steps(1)])
  from restarts_do_not_overlap [OF run_snoc [OF this first_steps(2)]]
  show ?thesis by (simp add: run_states)
qed

theorem requests_are_served_witness:
  "quiescent after_clear \<and> cs_waiting after_clear = {}"
proof -
  have q: "quiescent after_clear" by (simp add: quiescent_def run_states)
  have gf: "gap_free (Enter 0 0) coalesce_init" by (simp add: run_states)
  have "gap_free_run coalesce_init after_clear"
    by (rule gf_snoc [OF gf_snoc [OF gf_snoc [OF gf_snoc [OF gf_snoc [OF gf_nil gf first_steps(1)]
        _ first_steps(2)] _ first_steps(3)] _ first_steps(4)] _ clear_step]) simp_all
  from requests_are_served [OF this q] q show ?thesis by blast
qed

text \<open>
  outside of those schedules a request is lost, although no cycle panics. A caller that
  arrives after the runner has seen that nothing is pending, and before its deferred clean-up,
  is told it was coalesced; the workspace then falls quiet with the request still pending and
  nobody left to serve it.
\<close>

theorem request_lost_in_gap:
  "\<exists>s. coalesce_run [Enter 0 0, Begin 0 0, End 0, Exit 0, Enter 1 t, Clear 0] coalesce_init s
     \<and> cs_pc s 1 = CoalescedInto \<and> quiescent s \<and> 1 \<in> cs_waiting s \<and> rs_pending (cs_state s)
     \<and> cs_cycles s = 1 \<and> cs_requests s = 2"
proof -
  define s1 where "s1 = after_exit\<lparr>cs_state := (cs_state after_exit)\<lparr>rs_pending := True\<rparr>,
    cs_pc := (cs_pc after_exit)(1 := CoalescedInto), cs_waiting := {1}, cs_requests := 2\<rparr>"
  define s2 where "s2 = s1\<lparr>cs_state := (cs_state s1)\<lparr>rs_running := False\<rparr>, cs_pc := (cs_pc s1)(0 := Ended)\<rparr>"
  have e: "coalesce_step (Enter 1 t) after_exit s1"
    using coalesce_step.enter_running [of after_exit 1 t] by (simp add: run_states s1_def numeral_2_eq_2)
  have c: "coalesce_step (Clear 0) s1 s2"
    unfolding s2_def by (rule clear_running) (simp add: s1_def run_states)
  have "coalesce_run (((((([] @ [Enter 0 0]) @ [Begin 0 0]) @ [End 0]) @ [Exit 0]) @ [Enter 1 t]) @ [Clear 0])
      coalesce_init s2"
    by (intro run_snoc [OF _ c] run_snoc [OF _ e] run_snoc [OF _ first_steps(4)] run_snoc [OF _ first_steps(3)]
        run_snoc [OF _ first_steps(2)] run_snoc [OF _ first_steps(1)] run_nil)
  then show ?thesis
    by (intro exI [of _ s2]) (simp add: s2_def s1_def run_states quiescent_def)
qed

subsection \<open>The breaker stays tripped\<close>

text \<open>
  Everything that touches the restart states except the operator's reset: automatic restart
  attempts, recorded restarts, the queue hold, and the gate's own bookkeeping.
\<close>

inductive platform_step :: "restart_states \<Rightarrow> restart_states \<Rightarrow> bool" where
  attempt: "AutoRestartByID now prov m ws = (d, m') \<Longrightarrow> platform_step m m'"
| stopped: "platform_step m (recordAutoRestart now m ws)"
| armed: "platform_step m (armRestartQueueHold now m ws)"
| held: "holdQueueAfterRestart row m ws = (h, m') \<Longrightarrow> platform_step m m'"
| gate: "platform_step m (m(ws \<mapsto> (load_or_store m ws)\<lparr>rs_running := r, rs_pending := p, rs_startedAt := t\<rparr>))"

definition breaker :: "restart_states \<Rightarrow> string \<Rightarrow> bool option" where
  "breaker m ws = map_option rs_halted (m ws)"

lemma hold_decide_halted: "rs_halted (snd (hold_decide t row s)) = rs_halted s"
  by (simp add: hold_decide_def split: option.split)

lemma hold_halted:
  assumes "holdQueueAfterRestart row m ws = (h, m')" and "m ws' = Some s" and "rs_halted s"
  shows "\<exists>s'. m' ws' = Some s' \<and> rs_halted s'"
proof (cases "hold_read m ws")
  case (Some t)
  show ?thesis
  proof (cases row)
    case (Some rw)
    obtain held s' where d: "hold_decide t rw (load_or_store m ws) = (held, s')" by fastforce
    with hold_decide_halted [of t rw "load_or_store m ws"] have "rs_halted s' = rs_halted (load_or_store m ws)" by simp
    moreover have "m' = m(ws \<mapsto> s')"
      using assms(1) Some \<open>hold_read m ws = Some t\<close> d by (simp add: holdQueueAfterRestart_def)
    ultimately show ?thesis using assms(2,3) by (auto simp: load_or_store_def)
  qed (use assms Some in \<open>simp add: holdQueueAfterRestart_def\<close>)
qed (use assms in \<open>simp add: holdQueueAfterRestart_def\<close>)

lemma attempt_halted:
  assumes "AutoRestartByID now prov m ws = (d, m')" and "m ws' = Some s" and "rs_halted s"
  shows "\<exists>s'. m' ws' = Some s' \<and> rs_halted s'"
  using assms
  by (auto simp: AutoRestartByID_def autoRestartHalted_def load_or_store_def Let_def split: if_splits)

interpretation breaker: forward_only breaker "\<lambda>h. h" platform_step
proof unfold_locales
  fix m m' :: restart_states and ws :: string and v :: bool
  assume st: "platform_step m m'" and v: "breaker m ws = Some v" "v"
  then obtain s where s: "m ws = Some s" "rs_halted s" by (auto simp: breaker_def)
  from st have "\<exists>s'. m' ws = Some s' \<and> rs_halted s'"
  proof (cases rule: platform_step.cases)
    case (attempt now prov ws d)
    then show ?thesis using attempt_halted s by blast
  next
    case (held row ws h)
    then show ?thesis using hold_halted s by blast
  qed (use s in \<open>auto simp: recordAutoRestart_def armRestartQueueHold_def load_or_store_def Let_def\<close>)
  with v show "breaker m' ws = Some v" by (auto simp: breaker_def)
qed

text \<open>
  the crash-loop breaker. Three automatic restarts recorded within the last half hour make
  the next attempt (outside of the debounce) halt; from then on no automatic path restarts the
  workspace, however much time passes and whatever else the platform does to the restart
  state, until an operator resets it, after which the next attempt goes through.
\<close>

theorem crash_loop_breaker:
  assumes "m ws = Some s"
    and "length (filter (\<lambda>at. now - at < autoRestartWindow) (rs_autoRestarts s)) \<ge> 3"
    and "\<not> shouldDebounceRestart now m ws"
    and "AutoRestartByID now True m ws = (d, m1)" and "platform_step\<^sup>*\<^sup>* m1 m2"
  shows "d = Halted
    \<and> fst (AutoRestartByID later True m2 ws) \<in> {Halted, Debounced}
    \<and> (\<not> shouldDebounceRestart later (resetAutoRestarts m2 ws) ws \<longrightarrow>
        fst (AutoRestartByID later True (resetAutoRestarts m2 ws) ws) = RunCoalesced)"
proof -
  have trip: "d = Halted" "breaker m1 ws = Some True"
    using assms(1-4)
    by (auto simp: AutoRestartByID_def autoRestartHalted_def load_or_store_def Let_def autoRestartLimit_def breaker_def)
  have "breaker m2 ws = Some True" by (rule breaker.terminal_kept_star [OF assms(5) trip(2)]) simp
  then obtain s2 where s2: "m2 ws = Some s2" "rs_halted s2" by (auto simp: breaker_def)
  have "fst (AutoRestartByID later True m2 ws) \<in> {Halted, Debounced}"
    using s2 by (auto simp: AutoRestartByID_def autoRestartHalted_def load_or_store_def Let_def
        restartByIDWithCycle_def)
  moreover have "shouldDebounceRestart later m' ws = shouldDebounceRestart later (resetAutoRestarts m2 ws) ws"
    if "m' = snd (autoRestartHalted later (resetAutoRestarts m2 ws) ws)" for m'
    using that s2 by (simp add: autoRestartHalted_def load_or_store_def resetAutoRestarts_def
        shouldDebounceRestart_def Let_def)
  ultimately show ?thesis
    using trip(1) s2 by (auto simp: AutoRestartByID_def autoRestartHalted_def load_or_store_def Let_def
        resetAutoRestarts_def restartByIDWithCycle_def autoRestartLimit_def)
qed

definition looping :: restart_states where
  "looping = [''w'' \<mapsto> new_state\<lparr>rs_autoRestarts := [1, 2, 3]\<rparr>]"

theorem crash_loop_breaker_witness:
  "fst (AutoRestartByID 5 True looping ''w'') = Halted
   \<and> fst (AutoRestartByID (5 + 48 * hour) True (snd (AutoRestartByID 5 True looping ''w'')) ''w'') \<in> {Halted, Debounced}"
proof -
  obtain d m1 where r: "AutoRestartByID 5 True looping ''w'' = (d, m1)" by fastforce
  have s: "looping ''w'' = Some (new_state\<lparr>rs_autoRestarts := [1, 2, 3]\<rparr>)" by (simp add: looping_def)
  have "length (filter (\<lambda>at. 5 - at < autoRestartWindow) (rs_autoRestarts (new_state\<lparr>rs_autoRestarts := [1, 2, 3]\<rparr>))) \<ge> 3"
    by (simp add: autoRestartWindow_def duration_defs)
  moreover have "\<not> shouldDebounceRestart 5 looping ''w''"
    by (simp add: shouldDebounceRestart_def looping_def new_state_def)
  ultimately show ?thesis
    using crash_loop_breaker [OF s _ _ r, of m1 "5 + 48 * hour"] r by simp
qed

subsection \<open>The queue hold\<close>

text \<open>A run of drain attempts under one hold, with the rows they read; stops when it releases.\<close>

fun hold_run :: "time \<Rightarrow> ready_row list \<Rightarrow> restartState \<Rightarrow> bool \<times> restartState" where
  "hold_run t [] s = (True, s)"
| "hold_run t (r # rs) s =
    (case hold_decide t r s of (held, s') \<Rightarrow> if held then hold_run t rs s' else (False, s'))"

text \<open>
  \<open>stays_ready t hb rows\<close>: some row of \<open>rows\<close> has a heartbeat a full grace after \<open>hb\<close>, and it and
  every row before it are ready. \<open>proven_ready\<close>: some ready row is followed by such a streak.
\<close>

definition stays_ready :: "time \<Rightarrow> time \<Rightarrow> ready_row list \<Rightarrow> bool" where
  "stays_ready t hb rows \<longleftrightarrow> (\<exists>xs r ys. rows = xs @ r # ys \<and> list_all (row_ready t) (xs @ [r])
     \<and> the (rr_heartbeat r) - hb \<ge> restartQueueHoldGrace)"

definition proven_ready :: "time \<Rightarrow> ready_row list \<Rightarrow> bool" where
  "proven_ready t rows \<longleftrightarrow> (\<exists>zs f rest. rows = zs @ f # rest \<and> row_ready t f
     \<and> stays_ready t (the (rr_heartbeat f)) rest)"

lemma stays_ready_Cons: "row_ready t r \<Longrightarrow> stays_ready t hb rows \<Longrightarrow> stays_ready t hb (r # rows)"
proof -
  assume r: "row_ready t r" and "stays_ready t hb rows"
  then obtain xs x ys where "rows = xs @ x # ys" "list_all (row_ready t) (xs @ [x])"
    "the (rr_heartbeat x) - hb \<ge> restartQueueHoldGrace" by (auto simp: stays_ready_def)
  with r show ?thesis unfolding stays_ready_def by (intro exI [of _ "r # xs"] exI [of _ x] exI [of _ ys]) auto
qed

lemma stays_ready_now:
  "row_ready t r \<Longrightarrow> the (rr_heartbeat r) - hb \<ge> restartQueueHoldGrace \<Longrightarrow> stays_ready t hb (r # rows)"
  unfolding stays_ready_def by (intro exI [of _ "[]"]) auto

lemma proven_ready_Cons: "proven_ready t rows \<Longrightarrow> proven_ready t (r # rows)"
  unfolding proven_ready_def by (metis append_Cons)

lemma proven_ready_first:
  "row_ready t f \<Longrightarrow> stays_ready t (the (rr_heartbeat f)) rows \<Longrightarrow> proven_ready t (f # rows)"
  unfolding proven_ready_def by (intro exI [of _ "[]"]) auto

text \<open>The recorded heartbeat is the first of the current unbroken streak of ready rows.\<close>

lemma hold_run_released:
  assumes "fst (hold_run t rs s) = False" and "rs_heldSince s = Some t"
  shows "(\<exists>hb. rs_readyHeartbeat s = Some hb \<and> stays_ready t hb rs) \<or> proven_ready t rs"
  using assms
proof (induction rs arbitrary: s)
  case (Cons r rs)
  consider (unready) "\<not> row_ready t r" | (first) "row_ready t r" "rs_readyHeartbeat s = None"
    | (wait) f where "row_ready t r" "rs_readyHeartbeat s = Some f" "the (rr_heartbeat r) - f < restartQueueHoldGrace"
    | (release) f where "row_ready t r" "rs_readyHeartbeat s = Some f" "the (rr_heartbeat r) - f \<ge> restartQueueHoldGrace"
    by (cases "rs_readyHeartbeat s") force+
  then show ?case
  proof cases
    case unready
    with Cons.prems have "fst (hold_run t rs (s\<lparr>rs_readyHeartbeat := None\<rparr>)) = False"
      by (simp add: hold_decide_def)
    from Cons.IH [OF this] Cons.prems(2) show ?thesis by (auto intro: proven_ready_Cons)
  next
    case first
    with Cons.prems have "fst (hold_run t rs (s\<lparr>rs_readyHeartbeat := rr_heartbeat r\<rparr>)) = False"
      by (simp add: hold_decide_def)
    from Cons.IH [OF this] Cons.prems(2) first show ?thesis
      by (auto intro: proven_ready_Cons proven_ready_first)
  next
    case wait
    with Cons.prems have "fst (hold_run t rs s) = False" by (simp add: hold_decide_def)
    from Cons.IH [OF this Cons.prems(2)] wait show ?thesis
      by (auto intro: proven_ready_Cons stays_ready_Cons)
  next
    case release
    then show ?thesis by (auto intro: stays_ready_now)
  qed
qed simp

lemma hold_run_states:
  assumes "m ws = Some s" and "rs_heldSince s = Some t"
  shows "holdQueueAfterRestart (Some row) m ws =
    (fst (hold_decide t row s), m(ws \<mapsto> snd (hold_decide t row s)))"
  using assms by (simp add: holdQueueAfterRestart_def hold_read_def load_or_store_def split: prod.split)

fun drain_attempts :: "ready_row list \<Rightarrow> restart_states \<Rightarrow> string \<Rightarrow> bool" where
  "drain_attempts [] m ws = True"
| "drain_attempts (r # rs) m ws =
    (case holdQueueAfterRestart (Some r) m ws of (held, m') \<Rightarrow> if held then drain_attempts rs m' ws else False)"

lemma drain_attempts_run:
  "m ws = Some s \<Longrightarrow> rs_heldSince s = Some t \<Longrightarrow> drain_attempts rs m ws = fst (hold_run t rs s)"
proof (induction rs arbitrary: m s)
  case (Cons r rs)
  have keep: "rs_heldSince (snd (hold_decide t r s)) = Some t" if "fst (hold_decide t r s)"
    using that Cons.prems(2) by (simp add: hold_decide_def split: option.splits if_splits)
  obtain held s' where d: "hold_decide t r s = (held, s')" by fastforce
  show ?case
    using Cons.IH [of "m(ws \<mapsto> s')" s'] keep d
    by (simp add: hold_run_states [of m ws s t, OF Cons.prems]) (simp add: fun_upd_def)
qed simp

text \<open>
  after an automatic restart the queue is released only to a container that proved it stays
  up. If a drain attempt gets through, then among the rows the attempts read there is a ready
  one (online or degraded, with a heartbeat from after the restart), followed without
  interruption by ready rows up to one whose heartbeat is at least 90 seconds later.
\<close>

theorem hold_released_to_proven:
  assumes "\<not> drain_attempts rows (armRestartQueueHold t m ws) ws"
  shows "proven_ready t rows"
proof -
  define s where "s = (load_or_store m ws)\<lparr>rs_heldSince := Some t, rs_readyHeartbeat := None\<rparr>"
  have "drain_attempts rows (armRestartQueueHold t m ws) ws = fst (hold_run t rows s)"
    by (rule drain_attempts_run) (simp_all add: armRestartQueueHold_def s_def)
  with assms hold_run_released [of t rows s] show ?thesis by (simp add: s_def)
qed

definition beat_row :: "time \<Rightarrow> ready_row" where
  "beat_row t = \<lparr>rr_status = ''online'', rr_heartbeat = Some t\<rparr>"

theorem hold_released_to_proven_witness:
  "proven_ready 0 [beat_row 1, beat_row (1 + 90 * second)]"
proof -
  have "\<not> drain_attempts [beat_row 1, beat_row (1 + 90 * second)] (armRestartQueueHold 0 Map.empty ''w'') ''w''"
    by (simp add: holdQueueAfterRestart_def hold_read_def armRestartQueueHold_def load_or_store_def
        hold_decide_def row_ready_def beat_row_def restartQueueHoldGrace_def new_state_def second_def)
  then show ?thesis by (rule hold_released_to_proven)
qed

end
