(* ===== verification/A2A_Drain.thy ===== *)
theory A2A_Drain
  imports A2A_Queue Restart
begin

text \<open>
  Draining the queue (\<^verbatim>\<open>internal/handlers/a2a_queue.go\<close>): \<open>DrainQueueForWorkspace\<close>, the bounded
  settling path, the stitching of results into delegations and the periodic sweeper, with the
  failure classification of \<^verbatim>\<open>internal/handlers/a2a_proxy_helpers.go\<close> and the busy and
  boot-turn branches of the proxy that put a message back into the queue.

  What a dispatch through the proxy meets at the target is an argument (\<open>proxy_outcome\<close>): an
  answer, an error, a busy target, or a platform boot turn in flight; the writes the proxy
  then makes to the queue are modelled. So are the ledger, the activity rows and the inbox
  rows, with the definitions of \<open>Delegation_Ledger\<close> and \<open>Delegation_Replies\<close>. Events, the
  cache evictions after a failure and the greeting deliveries are recorded as effects, in order.
  \<open>is_self\<close> is \<open>molcontracts.IsSelfSourceType\<close>, \<open>marshal\<close> is \<open>json.Marshal\<close>, \<open>float_int\<close> the
  conversion of a JSON number to \<open>int\<close>. Durations in messages are whole seconds.
\<close>

subsection \<open>Failure classification\<close>

record proxyA2AError =
  pe_Status :: int
  pe_error :: "string option"
  pe_Classification :: string

definition isUpstreamDeadStatus :: "int \<Rightarrow> bool" where
  "isUpstreamDeadStatus status = (status \<in> set [502, 503, 504, 521, 522, 523, 524])"

definition isGatewayOriginFailure :: "proxyA2AError \<Rightarrow> bool" where
  "isGatewayOriginFailure e =
    (if pe_Classification e = ''upstream_dead'' then False else isUpstreamDeadStatus (pe_Status e))"

definition recentHeartbeatWindow :: duration where "recentHeartbeatWindow = 15 * second"

text \<open>The outer \<open>None\<close> is a failed read, the inner one a NULL heartbeat.\<close>

definition hasRecentHeartbeat :: "time \<Rightarrow> time option option \<Rightarrow> bool" where
  "hasRecentHeartbeat now lastHB =
    (case lastHB of Some (Some t) \<Rightarrow> now - t \<le> recentHeartbeatWindow | _ \<Rightarrow> False)"

definition classificationOrUnknown :: "string \<Rightarrow> string" where
  "classificationOrUnknown c = (if c = [] then ''unknown'' else c)"

definition classWorkspaceSettling :: string where "classWorkspaceSettling = ''workspace_settling''"

text \<open>\<open>http.StatusText\<close>.\<close>

definition status_texts :: "(int \<times> string) list" where
  "status_texts =
    [(100, ''Continue''), (101, ''Switching Protocols''), (102, ''Processing''), (103, ''Early Hints''),
     (200, ''OK''), (201, ''Created''), (202, ''Accepted''), (203, ''Non-Authoritative Information''),
     (204, ''No Content''), (205, ''Reset Content''), (206, ''Partial Content''), (207, ''Multi-Status''),
     (208, ''Already Reported''), (226, ''IM Used''), (300, ''Multiple Choices''), (301, ''Moved Permanently''),
     (302, ''Found''), (303, ''See Other''), (304, ''Not Modified''), (305, ''Use Proxy''),
     (307, ''Temporary Redirect''), (308, ''Permanent Redirect''), (400, ''Bad Request''), (401, ''Unauthorized''),
     (402, ''Payment Required''), (403, ''Forbidden''), (404, ''Not Found''), (405, ''Method Not Allowed''),
     (406, ''Not Acceptable''), (407, ''Proxy Authentication Required''), (408, ''Request Timeout''), (409, ''Conflict''),
     (410, ''Gone''), (411, ''Length Required''), (412, ''Precondition Failed''), (413, ''Request Entity Too Large''),
     (414, ''Request URI Too Long''), (415, ''Unsupported Media Type''), (416, ''Requested Range Not Satisfiable''),
     (417, ''Expectation Failed''), (418, [CHR ''I'', char_of (39 :: nat)] @ ''m a teapot''), (421, ''Misdirected Request''),
     (422, ''Unprocessable Entity''), (423, ''Locked''), (424, ''Failed Dependency''), (425, ''Too Early''),
     (426, ''Upgrade Required''), (428, ''Precondition Required''), (429, ''Too Many Requests''),
     (431, ''Request Header Fields Too Large''), (451, ''Unavailable For Legal Reasons''),
     (500, ''Internal Server Error''), (501, ''Not Implemented''), (502, ''Bad Gateway''), (503, ''Service Unavailable''),
     (504, ''Gateway Timeout''), (505, ''HTTP Version Not Supported''), (506, ''Variant Also Negotiates''),
     (507, ''Insufficient Storage''), (508, ''Loop Detected''), (510, ''Not Extended''),
     (511, ''Network Authentication Required'')]"

definition StatusText :: "int \<Rightarrow> string" where
  "StatusText n = (case map_of status_texts n of None \<Rightarrow> [] | Some t \<Rightarrow> t)"

definition drain_error :: "proxyA2AError \<Rightarrow> string" where
  "drain_error e =
    (let errMsg = (case pe_error e of None \<Rightarrow> [] | Some s \<Rightarrow> s)
     in if errMsg \<noteq> [] then errMsg
        else if StatusText (pe_Status e) \<noteq> [] then StatusText (pe_Status e)
        else ''unknown drain dispatch error'')"

definition a2aSettlingRetryCeiling :: "environment \<Rightarrow> duration" where
  "a2aSettlingRetryCeiling env = envDuration env ''A2A_SETTLING_RETRY_CEILING_S'' (180 * second)"

definition gateway_drop_message :: "duration \<Rightarrow> proxyA2AError \<Rightarrow> string" where
  "gateway_drop_message ceiling e =
    ''target failed to settle within '' @ duration_string ceiling
    @ '' of the first gateway-origin failure (persistent, last status='' @ show_int (pe_Status e)
    @ '' classification='' @ classificationOrUnknown (pe_Classification e) @ '': '' @ drain_error e
    @ ''); dropped to stop a zombie re-queue that starves the workspace (core#124)''"

definition gateway_retry_message :: "proxyA2AError \<Rightarrow> string" where
  "gateway_retry_message e =
    ''transient gateway origin ('' @ classificationOrUnknown (pe_Classification e) @ '', status='' @ show_int (pe_Status e)
    @ ''): '' @ drain_error e"

definition urlless_drop_message :: "duration \<Rightarrow> int \<Rightarrow> string" where
  "urlless_drop_message ceiling status =
    ''target workspace never reached online within '' @ duration_string ceiling
    @ '' of the first settling observation (still URL-less/provisioning, last resolve status='' @ show_int status
    @ ''); dropped to stop a zombie re-queue that starves the workspace (core#124/#4531)''"

definition urlless_retry_message :: "int \<Rightarrow> string" where
  "urlless_retry_message status =
    ''workspace settling (URL-less/provisioning, resolve status='' @ show_int status @ ''): awaiting online for drain''"

subsection \<open>State, effects and what a dispatch meets\<close>

datatype drain_effect =
    InvalidatedURL string
  | FallbackGreeting string
  | DrainedGreeting string body
  | AttachedReply string string body
  | EvDelegationComplete string string string string
  | EvDelegationFailed string string string string

record drain_state =
  ds_queue :: a2a_queue
  ds_ledger :: ledger
  ds_logs :: activity_log
  ds_effects :: "drain_effect list"

datatype proxy_outcome =
    PxAnswer int body
  | PxError proxyA2AError
  | PxBusy
  | PxBootTurn proxy_outcome

record stitch_faults =
  sf_update :: bool
  sf_affected :: bool
  sf_ledger :: ledger_faults
  sf_inbox :: bool

record drain_round =
  dr_now :: time
  dr_locked :: "string \<Rightarrow> bool"
  dr_tx :: dequeue_fault
  dr_outcome :: proxy_outcome
  dr_newid :: string
  dr_method :: string
  dr_enqueue :: enqueue_faults
  dr_mark_fails :: bool
  dr_heartbeat :: "time option option"
  dr_stitch :: stitch_faults
  dr_row_exists :: bool

record drain_env =
  de_env :: environment
  de_is_self :: "string \<Rightarrow> bool"
  de_marshal :: "json \<Rightarrow> string"
  de_float_int :: "json \<Rightarrow> int"
  de_broadcaster :: bool

definition emit :: "drain_effect list \<Rightarrow> drain_state \<Rightarrow> drain_state" where
  "emit es st = st\<lparr>ds_effects := ds_effects st @ es\<rparr>"

definition em_dash :: string where "em_dash = map char_of [226, 128, 148 :: nat]"

definition busy_error :: proxyA2AError where
  "busy_error = \<lparr>pe_Status = 503,
     pe_error = Some (''workspace agent busy '' @ em_dash @ '' retry after a short backoff''),
     pe_Classification = ''busy_retryable''\<rparr>"

text \<open>
  The status, the response and the error the drain sees, and the queue afterwards. A busy
  target is queued again under the message's own id (202); a boot turn in flight queues it
  without a key and answers 200 with an acknowledgement, or falls through to the dispatch.
\<close>

fun proxyA2ARequest ::
  "drain_env \<Rightarrow> drain_round \<Rightarrow> QueuedItem \<Rightarrow> string \<Rightarrow> proxy_outcome \<Rightarrow> a2a_queue
     \<Rightarrow> (int \<times> body \<times> proxyA2AError option) \<times> a2a_queue" where
  "proxyA2ARequest de dr item callerID (PxAnswer status resp) q = ((status, resp, None), q)"
| "proxyA2ARequest de dr item callerID (PxError e) q = ((0, no_body, Some e), q)"
| "proxyA2ARequest de dr item callerID PxBusy q =
    (case enqueueBusyA2A (dr_enqueue dr) (de_float_int de) (dr_newid dr) (dr_now dr) (it_WorkspaceID item) callerID
            (it_Body item) (dr_method dr) q of
       (Some (qid, depth), q') \<Rightarrow>
         (let ack = JObj [(''message'', JStr (''workspace agent busy '' @ em_dash
                             @ '' request queued, will dispatch when capacity available'')),
                          (''queue_depth'', JInt (int depth)), (''queue_id'', JStr qid), (''queued'', JBool True)]
          in ((202, \<lparr>bd_bytes = de_marshal de ack, bd_json = Some ack\<rparr>, None), q'))
     | (None, q') \<Rightarrow> ((0, no_body, Some busy_error), q'))"
| "proxyA2ARequest de dr item callerID (PxBootTurn next) q =
    (case EnqueueA2A (dr_enqueue dr) (dr_newid dr) (dr_now dr) (it_WorkspaceID item) callerID PriorityTask
            (it_Body item) (dr_method dr) [] None q of
       (Inr (qid, depth), q') \<Rightarrow>
         (let ack = JObj [(''method'', JStr (dr_method dr)), (''queue_depth'', JInt (int depth)), (''queue_id'', JStr qid),
                          (''queued'', JBool True), (''status'', JStr ''queued'')]
          in ((200, \<lparr>bd_bytes = de_marshal de ack, bd_json = Some ack\<rparr>, None), q'))
     | (Inl e, q') \<Rightarrow> proxyA2ARequest de dr item callerID next q')"


subsection \<open>Completion\<close>

definition firstBootGreetSourceType :: string where "firstBootGreetSourceType = ''self-first-boot-greet''"

definition attachQueuedTurnCompletion ::
  "drain_env \<Rightarrow> bool \<Rightarrow> string \<Rightarrow> bool \<Rightarrow> body \<Rightarrow> body \<Rightarrow> drain_state \<Rightarrow> drain_state" where
  "attachQueuedTurnCompletion de row_exists workspaceID hasCaller reqBody respBody st =
    (if bd_bytes respBody = [] then st
     else if hasCaller then st
     else if RequestSourceType reqBody \<noteq> [] \<and> de_is_self de (RequestSourceType reqBody)
       then (if RequestSourceType reqBody = firstBootGreetSourceType
             then emit [DrainedGreeting workspaceID respBody] st else st)
     else if extractIdempotencyKey reqBody = [] then st
     else if \<not> row_exists then st
     else emit [AttachedReply workspaceID (extractIdempotencyKey reqBody) respBody] st)"

definition deliverFirstBootFallbackOnTerminalDrop :: "string \<Rightarrow> body \<Rightarrow> drain_state \<Rightarrow> drain_state" where
  "deliverFirstBootFallbackOnTerminalDrop workspaceID reqBody st =
    (if RequestSourceType reqBody \<noteq> firstBootGreetSourceType then st else emit [FallbackGreeting workspaceID] st)"

subsection \<open>Stitching a result into its delegation\<close>

text \<open>The placeholder the delegation handler wrote when the message was queued.\<close>

definition placeholder :: "string \<Rightarrow> string \<Rightarrow> string \<Rightarrow> activity_row \<Rightarrow> bool" where
  "placeholder sourceID targetID delegationID r =
    (al_workspace r = sourceID \<and> al_type r = ''delegation'' \<and> al_method r = ''delegate_result''
     \<and> al_target r = Some targetID \<and> al_delegation r = delegationID \<and> al_status r = ''queued'')"

text \<open>
  The two stitches share their second half: once the placeholder was flipped, terminalize the
  ledger, reply if the ledger says so, and broadcast.
\<close>

definition stitch_tail ::
  "drain_env \<Rightarrow> stitch_faults \<Rightarrow> time \<Rightarrow> string \<Rightarrow> string \<Rightarrow> string \<Rightarrow> string \<Rightarrow> string \<Rightarrow> string
     \<Rightarrow> drain_effect \<Rightarrow> drain_state \<Rightarrow> drain_state" where
  "stitch_tail de fl now sourceID targetID delegationID status errorDetail responseText ev st =
    (case recordLedgerStatus (de_env de) (sf_ledger fl) now
            \<lparr>sc_id = delegationID, sc_status = status, sc_error = errorDetail, sc_result = responseText\<rparr> (ds_ledger st) of
       (authority, tbl') \<Rightarrow>
         (let logs' = (if mayReply authority
                       then snd (pushDelegationResultToInbox (de_env de) (sf_inbox fl) sourceID targetID delegationID status
                              responseText errorDetail (ds_logs st))
                       else ds_logs st)
          in emit (if de_broadcaster de then [ev] else []) (st\<lparr>ds_ledger := tbl', ds_logs := logs'\<rparr>)))"

definition stitchDrainResponseToDelegation ::
  "drain_env \<Rightarrow> stitch_faults \<Rightarrow> time \<Rightarrow> string \<Rightarrow> string \<Rightarrow> string \<Rightarrow> body \<Rightarrow> drain_state \<Rightarrow> drain_state" where
  "stitchDrainResponseToDelegation de fl now sourceID targetID delegationID respBody st =
    (if sourceID = [] \<or> delegationID = [] then st
     else
       let responseText = extractResponseText respBody;
           hit = placeholder sourceID targetID delegationID
       in if sf_update fl then st
          else
            let st1 = st\<lparr>ds_logs := sql_update hit (\<lambda>r. r\<lparr>al_status := ''completed'',
                          al_summary := ''Delegation completed ('' @ TruncateBytes responseText 80 @ '')'',
                          al_text := Some responseText\<rparr>) (ds_logs st)\<rparr>
            in if sf_affected fl then st1
               else if sql_affected hit (ds_logs st) = 0 then st1
               else stitch_tail de fl now sourceID targetID delegationID ''completed'' [] responseText
                      (EvDelegationComplete sourceID delegationID targetID (TruncateBytes responseText 200)) st1)"

definition stitchDroppedDelegationFailure ::
  "drain_env \<Rightarrow> stitch_faults \<Rightarrow> time \<Rightarrow> string \<Rightarrow> string \<Rightarrow> string \<Rightarrow> string \<Rightarrow> drain_state \<Rightarrow> drain_state" where
  "stitchDroppedDelegationFailure de fl now sourceID targetID delegationID reason st =
    (if sourceID = [] \<or> delegationID = [] then st
     else
       let hit = placeholder sourceID targetID delegationID
       in if sf_update fl then st
          else
            let st1 = st\<lparr>ds_logs := sql_update hit (\<lambda>r. r\<lparr>al_status := ''failed'',
                          al_summary := ''Delegation failed ('' @ TruncateBytes reason 80 @ '')'',
                          al_error := Some reason, al_text := Some reason\<rparr>) (ds_logs st)\<rparr>
            in if sf_affected fl then st1
               else if sql_affected hit (ds_logs st) = 0 then st1
               else stitch_tail de fl now sourceID targetID delegationID ''failed'' reason []
                      (EvDelegationFailed sourceID delegationID targetID (TruncateBytes reason 200)) st1)"

subsection \<open>The bounded settling path\<close>

definition past_ceiling :: "drain_env \<Rightarrow> time \<Rightarrow> QueuedItem \<Rightarrow> bool" where
  "past_ceiling de now item =
    (case it_SettlingSince item of None \<Rightarrow> False | Some t \<Rightarrow> now - t \<ge> a2aSettlingRetryCeiling (de_env de))"

definition stitch_drop :: "drain_env \<Rightarrow> drain_round \<Rightarrow> string \<Rightarrow> QueuedItem \<Rightarrow> string \<Rightarrow> drain_state \<Rightarrow> drain_state" where
  "stitch_drop de dr callerID item dropMsg st =
    (let delegationID = extractDelegationIDFromBody (it_Body item)
     in if delegationID \<noteq> []
        then stitchDroppedDelegationFailure de (dr_stitch dr) (dr_now dr) callerID (it_WorkspaceID item) delegationID dropMsg st
        else st)"

definition settleQueuedItemBounded ::
  "drain_env \<Rightarrow> drain_round \<Rightarrow> string \<Rightarrow> string \<Rightarrow> QueuedItem \<Rightarrow> proxyA2AError \<Rightarrow> drain_state \<Rightarrow> drain_state" where
  "settleQueuedItemBounded de dr workspaceID callerID item resolveErr st =
    (if past_ceiling de (dr_now dr) item then
       let dropMsg = urlless_drop_message (a2aSettlingRetryCeiling (de_env de)) (pe_Status resolveErr);
           st1 = st\<lparr>ds_queue := DropQueueItemTerminal (dr_mark_fails dr) (dr_now dr) (it_ID item) dropMsg (ds_queue st)\<rparr>;
           st2 = deliverFirstBootFallbackOnTerminalDrop workspaceID (it_Body item) st1
       in stitch_drop de dr callerID item dropMsg st2
     else st\<lparr>ds_queue := MarkQueueItemTransientRetry (dr_mark_fails dr) (dr_now dr) (it_ID item)
               (urlless_retry_message (pe_Status resolveErr)) (ds_queue st)\<rparr>)"

subsection \<open>The drain loop\<close>

definition gateway_failure ::
  "drain_env \<Rightarrow> drain_round \<Rightarrow> string \<Rightarrow> string \<Rightarrow> QueuedItem \<Rightarrow> proxyA2AError \<Rightarrow> drain_state \<Rightarrow> drain_state" where
  "gateway_failure de dr workspaceID callerID item e st =
    (if past_ceiling de (dr_now dr) item then
       let dropMsg = gateway_drop_message (a2aSettlingRetryCeiling (de_env de)) e;
           st1 = st\<lparr>ds_queue := DropQueueItemTerminal (dr_mark_fails dr) (dr_now dr) (it_ID item) dropMsg (ds_queue st)\<rparr>;
           st2 = deliverFirstBootFallbackOnTerminalDrop workspaceID (it_Body item) st1;
           st3 = emit [InvalidatedURL workspaceID] st2
       in stitch_drop de dr callerID item dropMsg st3
     else
       let st1 = emit [InvalidatedURL workspaceID] st
       in st1\<lparr>ds_queue := MarkQueueItemTransientRetry (dr_mark_fails dr) (dr_now dr) (it_ID item)
                (gateway_retry_message e) (ds_queue st1)\<rparr>)"

definition dispatch_item ::
  "drain_env \<Rightarrow> drain_round \<Rightarrow> string \<Rightarrow> string \<Rightarrow> QueuedItem \<Rightarrow> drain_state \<Rightarrow> drain_state" where
  "dispatch_item de dr workspaceID callerID item st =
    (case proxyA2ARequest de dr item callerID (dr_outcome dr) (ds_queue st) of
       ((status, respBody, proxyErr), q') \<Rightarrow>
         (let st1 = st\<lparr>ds_queue := q'\<rparr>
          in if status = 202
             then st1\<lparr>ds_queue := MarkQueueItemCompleted (dr_mark_fails dr) (dr_now dr) (it_ID item) no_body q'\<rparr>
             else case proxyErr of
                 Some e \<Rightarrow>
                   (if isGatewayOriginFailure e \<and> hasRecentHeartbeat (dr_now dr) (dr_heartbeat dr)
                    then gateway_failure de dr workspaceID callerID item e st1
                    else case MarkQueueItemFailed (dr_mark_fails dr) (it_ID item) (drain_error e) q' of
                        (terminal, q'') \<Rightarrow>
                          (let st2 = st1\<lparr>ds_queue := q''\<rparr>
                           in if terminal then deliverFirstBootFallbackOnTerminalDrop workspaceID (it_Body item) st2 else st2))
               | None \<Rightarrow>
                   (let st2 = st1\<lparr>ds_queue := MarkQueueItemCompleted (dr_mark_fails dr) (dr_now dr) (it_ID item) respBody q'\<rparr>;
                        st3 = attachQueuedTurnCompletion de (dr_row_exists dr) workspaceID (it_CallerID item \<noteq> None)
                                (it_Body item) respBody st2;
                        delegationID = extractDelegationIDFromBody (it_Body item)
                    in if delegationID \<noteq> []
                       then stitchDrainResponseToDelegation de (dr_stitch dr) (dr_now dr) callerID (it_WorkspaceID item)
                              delegationID respBody st3
                       else st3)))"

text \<open>
  One round. \<open>resolveErr\<close> is what resolving the agent's URL gave, once for the whole drain;
  \<open>None\<close> as the result ends the loop.
\<close>

definition drain_one ::
  "drain_env \<Rightarrow> drain_round \<Rightarrow> proxyA2AError option \<Rightarrow> string \<Rightarrow> drain_state \<Rightarrow> bool \<times> drain_state" where
  "drain_one de dr resolveErr workspaceID st =
    (case DequeueNext (dr_tx dr) (dr_locked dr) (dr_now dr) workspaceID (ds_queue st) of
       (Inl e, q') \<Rightarrow> (False, st\<lparr>ds_queue := q'\<rparr>)
     | (Inr None, q') \<Rightarrow> (False, st\<lparr>ds_queue := q'\<rparr>)
     | (Inr (Some item), q') \<Rightarrow>
         (let callerID = (case it_CallerID item of None \<Rightarrow> [] | Some c \<Rightarrow> c);
              st1 = st\<lparr>ds_queue := q'\<rparr>
          in case resolveErr of
               Some e \<Rightarrow>
                 (if pe_Classification e = classWorkspaceSettling
                  then (True, settleQueuedItemBounded de dr workspaceID callerID item e st1)
                  else (True, dispatch_item de dr workspaceID callerID item st1))
             | None \<Rightarrow> (True, dispatch_item de dr workspaceID callerID item st1)))"

fun drain_loop ::
  "drain_env \<Rightarrow> proxyA2AError option \<Rightarrow> string \<Rightarrow> drain_round list \<Rightarrow> drain_state \<Rightarrow> drain_state" where
  "drain_loop de resolveErr workspaceID [] st = st"
| "drain_loop de resolveErr workspaceID (dr # drs) st =
    (case drain_one de dr resolveErr workspaceID st of
       (True, st') \<Rightarrow> drain_loop de resolveErr workspaceID drs st'
     | (False, st') \<Rightarrow> st')"

text \<open>\<open>rounds\<close> supplies the clock, the faults and the outcomes of the iterations.\<close>

definition DrainQueueForWorkspace ::
  "drain_env \<Rightarrow> (string \<Rightarrow> bool) \<Rightarrow> ready_row option \<Rightarrow> proxyA2AError option \<Rightarrow> (nat \<Rightarrow> drain_round) \<Rightarrow> string \<Rightarrow> int
     \<Rightarrow> restart_states \<times> drain_state \<Rightarrow> restart_states \<times> drain_state" where
  "DrainQueueForWorkspace de restartContextInFlight row resolveErr rounds workspaceID capacity s =
    (case s of (m, st) \<Rightarrow>
       if capacity \<le> 0 then (m, st)
       else if restartContextInFlight workspaceID then (m, st)
       else case holdQueueAfterRestart row m workspaceID of
           (True, m') \<Rightarrow> (m', st)
         | (False, m') \<Rightarrow> (m', drain_loop de resolveErr workspaceID (map rounds [0..<nat capacity]) st))"

subsection \<open>The sweeper\<close>

definition a2aQueueSweeperInterval :: duration where "a2aQueueSweeperInterval = 10 * second"
definition a2aQueueSweeperBatchCap :: int where "a2aQueueSweeperBatchCap = 8"

text \<open>The workspaces a sweep drains, each with its capacity. \<open>ws\<close>: id, status, max concurrent tasks.\<close>

definition sweepA2AQueue :: "time \<Rightarrow> (string \<times> string \<times> int option) list \<Rightarrow> a2a_queue \<Rightarrow> (string \<times> int) list" where
  "sweepA2AQueue now wss q =
    filter (\<lambda>(w, c). c > 0)
      (map (\<lambda>(w, st, m). (w, min a2aQueueSweeperBatchCap (case m of None \<Rightarrow> 1 | Some n \<Rightarrow> n)))
        (filter (\<lambda>(w, st, m). (st = ''online'' \<or> st = ''degraded'')
           \<and> list_ex (\<lambda>r. q_workspace r = w \<and> q_status r = ''queued'' \<and> \<not> expired now r) q) wss))"


subsection \<open>A busy target\<close>

lemma claimed_row:
  assumes "unique_key q_id tbl" and "r \<in> set tbl"
  shows "claim_row now r \<in> set (sql_update (\<lambda>x. q_id x = q_id r) (claim_row now) tbl)"
  using assms(2) by (force simp: set_sql_update)

text \<open>
  The claimed row keeps its key and stays active, so a second enqueue under the same key finds
  it and inserts nothing.
\<close>

lemma enqueue_while_claimed:
  assumes "queue_ok q" and "r \<in> set q" and "q_status r = ''dispatched''" and "q_workspace r = ws" and "q_key r = Some key" and "key \<noteq> []"
  shows "\<exists>n. EnqueueA2A no_enqueue_faults newid now ws caller prio b method key expires q = (Inr (q_id r, n), q)"
proof -
  have live: "live_key now ws key r" using assms(3-5) by (simp add: live_key_def active_key_def active_def)
  note sup = supersede_live [OF assms(1,2) live]
  have "list_ex (active_key ws key) q" using assms(2) live by (auto simp: list_ex_iff live_key_def)
  then have "insert_row (new_row newid now ws c prio b m (Some key) expires) q = (None, q)" for c m
    by (simp add: insert_row_def new_row_def)
  with assms(6) sup(1) sql_find_filter [OF sup(2)] show ?thesis
    by (simp add: EnqueueA2A_def no_enqueue_faults_def)
qed



definition busy_body :: body where
  "busy_body = \<lparr>bd_bytes = ''x'', bd_json = Some (JObj [(''params'', JObj [(''message'', JObj [(''messageId'', JStr ''m1'')])])])\<rparr>"

lemma busy_body_key: "extractIdempotencyKey busy_body = ''m1''"
  by (simp add: extractIdempotencyKey_def unmarshal_at_def busy_body_def decode_field_def)

definition busy_row :: queue_row where
  "busy_row = new_row ''i1'' 0 ''w'' None 50 busy_body None (Some ''m1'') None"

definition busy_round :: drain_round where
  "busy_round = \<lparr>dr_now = 5, dr_locked = (\<lambda>_. False), dr_tx = TxOk, dr_outcome = PxBusy, dr_newid = ''i2'', dr_method = [],
     dr_enqueue = no_enqueue_faults, dr_mark_fails = False, dr_heartbeat = None,
     dr_stitch = \<lparr>sf_update = False, sf_affected = False, sf_ledger = no_faults, sf_inbox = False\<rparr>, dr_row_exists = True\<rparr>"

definition plain_env :: drain_env where
  "plain_env = \<lparr>de_env = (\<lambda>_. ''1''), de_is_self = (\<lambda>_. False), de_marshal = (\<lambda>_. ''{}''), de_float_int = (\<lambda>_. 0),
     de_broadcaster = True\<rparr>"

definition only_queue :: "queue_row list \<Rightarrow> drain_state" where
  "only_queue q = \<lparr>ds_queue = q, ds_ledger = [], ds_logs = [], ds_effects = []\<rparr>"

lemma busy_row_ok: "queue_inv \<lparr>qs_table = [busy_row], qs_held = (\<lambda>_. None)\<rparr>"
  by (simp add: queue_inv_def held_ok_def queue_ok_def unique_key_def key_unique_def busy_row_def new_row_def queue_statuses_def
      attempts_ok_def maxAttempts_def)

lemma busy_dequeue: "DequeueNext TxOk (\<lambda>_. False) 5 ''w'' [busy_row] = (Inr (Some (item_of busy_row)), [claim_row 5 busy_row])"
  by (simp add: DequeueNext_def by_priority_def eligible_def expired_def busy_row_def new_row_def sql_update_Cons)


subsection \<open>A target that does not settle\<close>

lemma stitches_keep_queue [simp]:
  "ds_queue (stitch_drop de dr caller item msg st) = ds_queue st"
  "ds_queue (deliverFirstBootFallbackOnTerminalDrop ws b st) = ds_queue st"
  "ds_queue (emit es st) = ds_queue st"
  by (simp_all add: stitch_drop_def stitchDroppedDelegationFailure_def stitch_tail_def emit_def Let_def
      deliverFirstBootFallbackOnTerminalDrop_def split: prod.split)

text \<open>The two ways to meet a target that is alive but not reachable.\<close>

definition unsettled :: "drain_round \<Rightarrow> proxyA2AError option \<Rightarrow> bool" where
  "unsettled dr resolveErr \<longleftrightarrow>
    (\<exists>e. resolveErr = Some e \<and> pe_Classification e = classWorkspaceSettling)
    \<or> (resolveErr = None \<and> (\<exists>e. dr_outcome dr = PxError e \<and> isGatewayOriginFailure e
         \<and> hasRecentHeartbeat (dr_now dr) (dr_heartbeat dr)))"

lemma unsettled_queue:
  assumes "unsettled dr resolveErr" and "\<not> dr_mark_fails dr"
    and "DequeueNext (dr_tx dr) (dr_locked dr) (dr_now dr) ws (ds_queue st) = (Inr (Some item), q1)"
  shows "\<exists>msg. ds_queue (snd (drain_one de dr resolveErr ws st)) =
    (if past_ceiling de (dr_now dr) item then DropQueueItemTerminal False (dr_now dr) (it_ID item) msg q1
     else MarkQueueItemTransientRetry False (dr_now dr) (it_ID item) msg q1)"
proof (cases resolveErr)
  case None
  with assms(1) obtain e where e: "dr_outcome dr = PxError e" "isGatewayOriginFailure e" "hasRecentHeartbeat (dr_now dr) (dr_heartbeat dr)"
    by (auto simp: unsettled_def)
  show ?thesis
    using assms(2,3) None e by (cases "past_ceiling de (dr_now dr) item")
      (auto simp: drain_one_def dispatch_item_def gateway_failure_def Let_def)
next
  case (Some e)
  with assms show ?thesis
    by (cases "past_ceiling de (dr_now dr) item") (auto simp: unsettled_def drain_one_def settleQueuedItemBounded_def Let_def)
qed

text \<open>
  a settling target cannot keep a message for ever. When a drain meets a target without a URL,
  or one that heartbeats behind a failing gateway, the item goes back to the queue with its
  attempts unburnt, is not eligible again for five seconds, and keeps the instant of its first
  such failure; once the ceiling has passed since that instant the drain drops it instead.
  No other row of the queue changes.
\<close>

theorem settling_is_bounded:
  assumes "queue_ok (ds_queue st)" and "r \<in> set (ds_queue st)" and "unsettled dr resolveErr" and "\<not> dr_mark_fails dr"
    and "DequeueNext (dr_tx dr) (dr_locked dr) (dr_now dr) ws (ds_queue st) = (Inr (Some (item_of r)), q1)"
    and "drain_one de dr resolveErr ws st = (go, st')"
  shows "\<exists>r'. sql_find (\<lambda>x. q_id x = q_id r) (ds_queue st') = Some r'
    \<and> (if \<exists>t. q_settling_since r = Some t \<and> dr_now dr - t \<ge> a2aSettlingRetryCeiling (de_env de)
       then q_status r' = ''dropped''
       else q_status r' = ''queued'' \<and> q_attempts r' = q_attempts r
         \<and> q_settling_since r' = coalesce (q_settling_since r) (Some (dr_now dr))
         \<and> (\<forall>now' < dr_now dr + 5 * second. \<not> eligible now' ws r'))
    \<and> filter (\<lambda>x. q_id x \<noteq> q_id r) (ds_queue st') = filter (\<lambda>x. q_id x \<noteq> q_id r) (ds_queue st)"
proof -
  have u: "unique_key q_id (ds_queue st)" using assms(1) by (simp add: queue_ok_def)
  from assms(5) obtain x where x: "x \<in> set (ds_queue st)" "eligible (dr_now dr) ws x" "item_of x = item_of r"
    "q1 = sql_update (\<lambda>y. q_id y = q_id x) (claim_row (dr_now dr)) (ds_queue st)"
    by (cases rule: dequeue_cases) auto
  then have "q_id x = q_id r" by (simp add: item_of_def)
  then have xr: "x = r" by (rule unique_key_eq [OF u x(1) assms(2)])
  define c where "c = claim_row (dr_now dr) r"
  have q1: "q1 = sql_update (\<lambda>y. q_id y = q_id r) (claim_row (dr_now dr)) (ds_queue st)" using x(4) xr by simp
  have c: "sql_find (\<lambda>x. q_id x = q_id r) q1 = Some c"
    using sql_find_key [OF u assms(2)] unfolding q1 c_def by (simp add: sql_find_sql_update claim_row_def)
  have others: "filter (\<lambda>x. q_id x \<noteq> i) (sql_update (\<lambda>x. q_id x = i \<and> Q x) f tbl) = filter (\<lambda>x. q_id x \<noteq> i) tbl"
    if "\<And>x. q_id (f x) = q_id x" for i Q f and tbl :: a2a_queue
    using that by (induction tbl) (simp_all add: sql_update_Cons)
  have past: "past_ceiling de (dr_now dr) (item_of r) =
      (\<exists>t. q_settling_since r = Some t \<and> dr_now dr - t \<ge> a2aSettlingRetryCeiling (de_env de))"
    by (simp add: past_ceiling_def item_of_def split: option.split)
  have o1: "filter (\<lambda>x. q_id x \<noteq> q_id r) q1 = filter (\<lambda>x. q_id x \<noteq> q_id r) (ds_queue st)"
    using others [of "claim_row (dr_now dr)" "q_id r" "\<lambda>_. True" "ds_queue st"] by (simp add: q1 claim_row_def)
  have itid: "it_ID (item_of r) = q_id r" by (simp add: item_of_def)
  obtain msg where q: "ds_queue st' =
    (if past_ceiling de (dr_now dr) (item_of r) then DropQueueItemTerminal False (dr_now dr) (q_id r) msg q1
     else MarkQueueItemTransientRetry False (dr_now dr) (q_id r) msg q1)"
    using unsettled_queue [OF assms(3-5), of de] unfolding itid assms(6) snd_conv by blast
  show ?thesis
  proof (cases "past_ceiling de (dr_now dr) (item_of r)")
    case True
    let ?f = "\<lambda>r. r\<lparr>q_status := ''dropped'', q_last_error := Some msg, q_dispatched_at := None, q_completed_at := Some (dr_now dr)\<rparr>"
    have q': "ds_queue st' = sql_update (\<lambda>x. q_id x = q_id r \<and> q_status x = ''dispatched'') ?f q1"
      using q True by (simp add: DropQueueItemTerminal_def)
    have "q_status c = ''dispatched''" "q_id c = q_id r" by (simp_all add: c_def claim_row_def)
    then have "sql_find (\<lambda>x. q_id x = q_id r) (ds_queue st') = Some (?f c)"
      unfolding q' using c by (simp add: sql_find_sql_update)
    moreover have "filter (\<lambda>x. q_id x \<noteq> q_id r) (ds_queue st') = filter (\<lambda>x. q_id x \<noteq> q_id r) (ds_queue st)"
      unfolding q' o1 [symmetric] by (rule others) simp
    ultimately show ?thesis using True past by simp
  next
    case False
    have q': "ds_queue st' = sql_update (\<lambda>x. q_id x = q_id r \<and> True) (retry_row (dr_now dr) msg) q1"
      using q False by (simp add: MarkQueueItemTransientRetry_def)
    have "q_id c = q_id r" by (simp add: c_def claim_row_def)
    then have f: "sql_find (\<lambda>x. q_id x = q_id r) (ds_queue st') = Some (retry_row (dr_now dr) msg c)"
      unfolding q' using c by (simp add: sql_find_sql_update retry_row_def)
    have o2: "filter (\<lambda>x. q_id x \<noteq> q_id r) (ds_queue st') = filter (\<lambda>x. q_id x \<noteq> q_id r) (ds_queue st)"
      unfolding q' o1 [symmetric] by (rule others) (simp add: retry_row_def)
    have "0 \<le> q_attempts r" using assms(1,2) by (simp add: queue_ok_def attempts_ok_def)
    then have "q_status (retry_row (dr_now dr) msg c) = ''queued'' \<and> q_attempts (retry_row (dr_now dr) msg c) = q_attempts r
      \<and> q_settling_since (retry_row (dr_now dr) msg c) = coalesce (q_settling_since r) (Some (dr_now dr))
      \<and> (\<forall>now' < dr_now dr + 5 * second. \<not> eligible now' ws (retry_row (dr_now dr) msg c))"
      by (simp add: retry_row_def c_def claim_row_def eligible_def transientRetryBackoffSecs_def)
    with f o2 False past show ?thesis by simp
  qed
qed


definition urlless_error :: proxyA2AError where
  "urlless_error = \<lparr>pe_Status = 503, pe_error = None, pe_Classification = classWorkspaceSettling\<rparr>"

theorem settling_is_bounded_witness:
  "\<exists>go st' r'. drain_one plain_env busy_round (Some urlless_error) ''w'' (only_queue [busy_row]) = (go, st')
    \<and> sql_find (\<lambda>x. q_id x = ''i1'') (ds_queue st') = Some r' \<and> q_status r' = ''queued'' \<and> q_settling_since r' = Some 5"
proof -
  obtain go st' where d: "drain_one plain_env busy_round (Some urlless_error) ''w'' (only_queue [busy_row]) = (go, st')" by fastforce
  have "queue_ok (ds_queue (only_queue [busy_row]))" using busy_row_ok by (simp add: queue_inv_def only_queue_def)
  moreover have "busy_row \<in> set (ds_queue (only_queue [busy_row]))" by (simp add: only_queue_def)
  moreover have "unsettled busy_round (Some urlless_error)" by (simp add: unsettled_def urlless_error_def)
  moreover have "\<not> dr_mark_fails busy_round" by (simp add: busy_round_def)
  moreover have "DequeueNext (dr_tx busy_round) (dr_locked busy_round) (dr_now busy_round) ''w'' (ds_queue (only_queue [busy_row]))
      = (Inr (Some (item_of busy_row)), [claim_row 5 busy_row])"
    using busy_dequeue by (simp add: busy_round_def only_queue_def)
  moreover have "q_id busy_row = ''i1''" "q_settling_since busy_row = None" "dr_now busy_round = 5"
    by (simp_all add: busy_row_def new_row_def busy_round_def)
  ultimately show ?thesis using settling_is_bounded [OF _ _ _ _ _ d] d by fastforce
qed

subsection \<open>The result of a queued delegation\<close>

text \<open>The two stitches, and the verdict each gives.\<close>

datatype stitch = Answered body | Dropped string

fun stitched :: "drain_env \<Rightarrow> stitch_faults \<Rightarrow> time \<Rightarrow> string \<Rightarrow> string \<Rightarrow> string \<Rightarrow> stitch \<Rightarrow> drain_state \<Rightarrow> drain_state" where
  "stitched de fl now src tgt d (Answered resp) st = stitchDrainResponseToDelegation de fl now src tgt d resp st"
| "stitched de fl now src tgt d (Dropped reason) st = stitchDroppedDelegationFailure de fl now src tgt d reason st"

definition stitch_row :: "stitch \<Rightarrow> activity_row \<Rightarrow> activity_row" where
  "stitch_row x r = (case x of
     Answered resp \<Rightarrow> r\<lparr>al_status := ''completed'',
       al_summary := ''Delegation completed ('' @ TruncateBytes (extractResponseText resp) 80 @ '')'',
       al_text := Some (extractResponseText resp)\<rparr>
   | Dropped reason \<Rightarrow> r\<lparr>al_status := ''failed'', al_summary := ''Delegation failed ('' @ TruncateBytes reason 80 @ '')'',
       al_error := Some reason, al_text := Some reason\<rparr>)"

definition stitch_call :: "string \<Rightarrow> stitch \<Rightarrow> status_call" where
  "stitch_call d x = (case x of
     Answered resp \<Rightarrow> \<lparr>sc_id = d, sc_status = ''completed'', sc_error = [], sc_result = extractResponseText resp\<rparr>
   | Dropped reason \<Rightarrow> \<lparr>sc_id = d, sc_status = ''failed'', sc_error = reason, sc_result = []\<rparr>)"

definition no_stitch_faults :: stitch_faults where
  "no_stitch_faults = \<lparr>sf_update = False, sf_affected = False, sf_ledger = no_faults, sf_inbox = False\<rparr>"

lemma stitch_row_sel [simp]:
  "al_workspace (stitch_row x r) = al_workspace r" "al_type (stitch_row x r) = al_type r"
  "al_delegation (stitch_row x r) = al_delegation r" "al_status (stitch_row x r) \<noteq> ''queued''"
  by (simp_all add: stitch_row_def split: stitch.split)

lemma stitch_call_sel [simp]:
  "sc_id (stitch_call d x) = d" "IsTerminalDelegationStatus (sc_status (stitch_call d x))"
  by (simp_all add: stitch_call_def vocab_simps split: stitch.split)

lemma stitched_form:
  assumes "src \<noteq> []" and "d \<noteq> []"
  shows "\<exists>ev. stitched de no_stitch_faults now src tgt d x st =
    (let st1 = st\<lparr>ds_logs := sql_update (placeholder src tgt d) (stitch_row x) (ds_logs st)\<rparr>
     in if sql_affected (placeholder src tgt d) (ds_logs st) = 0 then st1
        else stitch_tail de no_stitch_faults now src tgt d (sc_status (stitch_call d x)) (sc_error (stitch_call d x))
               (sc_result (stitch_call d x)) ev st1)"
proof (cases x)
  case (Answered resp)
  have e: "stitch_row x = (\<lambda>r. r\<lparr>al_status := ''completed'',
       al_summary := ''Delegation completed ('' @ TruncateBytes (extractResponseText resp) 80 @ '')'',
       al_text := Some (extractResponseText resp)\<rparr>)" by (simp add: Answered stitch_row_def fun_eq_iff)
  show ?thesis unfolding e using assms
    by (simp add: Answered stitchDrainResponseToDelegation_def no_stitch_faults_def stitch_call_def Let_def) blast
next
  case (Dropped reason)
  have e: "stitch_row x = (\<lambda>r. r\<lparr>al_status := ''failed'', al_summary := ''Delegation failed ('' @ TruncateBytes reason 80 @ '')'',
       al_error := Some reason, al_text := Some reason\<rparr>)" by (simp add: Dropped stitch_row_def fun_eq_iff)
  show ?thesis unfolding e using assms
    by (simp add: Dropped stitchDroppedDelegationFailure_def no_stitch_faults_def stitch_call_def Let_def) blast
qed

lemma stitch_tail_sel:
  assumes "recordLedgerStatus (de_env de) (sf_ledger fl) now (stitch_call d x) (ds_ledger st) = (a, tbl')"
    and "st' = stitch_tail de fl now src tgt d (sc_status (stitch_call d x)) (sc_error (stitch_call d x))
           (sc_result (stitch_call d x)) ev st"
  shows "ds_ledger st' = tbl'"
    and "ds_logs st' = (if mayReply a then snd (pushDelegationResultToInbox (de_env de) (sf_inbox fl) src tgt d
        (sc_status (stitch_call d x)) (sc_result (stitch_call d x)) (sc_error (stitch_call d x)) (ds_logs st)) else ds_logs st)"
proof -
  have "\<lparr>sc_id = d, sc_status = sc_status (stitch_call d x), sc_error = sc_error (stitch_call d x),
      sc_result = sc_result (stitch_call d x)\<rparr> = stitch_call d x" by (simp add: stitch_call_def split: stitch.split)
  with assms show "ds_ledger st' = tbl'"
    and "ds_logs st' = (if mayReply a then snd (pushDelegationResultToInbox (de_env de) (sf_inbox fl) src tgt d
        (sc_status (stitch_call d x)) (sc_result (stitch_call d x)) (sc_error (stitch_call d x)) (ds_logs st)) else ds_logs st)"
    by (simp_all add: stitch_tail_def emit_def Let_def)
qed

lemma placeholder_flipped: "\<not> placeholder src tgt d (stitch_row x r)"
  by (simp add: placeholder_def)

lemma no_placeholder_left: "\<forall>r \<in> set (sql_update (placeholder src tgt d) (stitch_row x) logs). \<not> placeholder src tgt d r"
  unfolding set_sql_update
proof (intro ballI notI, elim imageE)
  fix x' r
  assume "placeholder src tgt d x'" "x' = (if placeholder src tgt d r then stitch_row x r else r)"
  then show False using placeholder_flipped by (cases "placeholder src tgt d r") simp_all
qed

lemma inbox_rows_flip: "length (inbox_rows k (sql_update (placeholder src tgt d) (stitch_row x) logs)) = length (inbox_rows k logs)"
  by (induction logs) (simp_all add: inbox_rows_def sql_update_Cons)

text \<open>Nothing to flip: the stitch does nothing.\<close>

lemma stitched_replay:
  assumes "\<forall>r \<in> set (ds_logs st). \<not> placeholder src tgt d r"
  shows "stitched de fl now src tgt d x st = st"
proof -
  have u: "sql_update (placeholder src tgt d) f (ds_logs st) = ds_logs st" for f
    by (rule sql_update_none [OF assms])
  have a: "sql_affected (placeholder src tgt d) (ds_logs st) = 0" using assms by (simp add: sql_affected_zero)
  have s: "st\<lparr>ds_logs := ds_logs st\<rparr> = st" by simp
  show ?thesis
  proof (cases x)
    case (Answered resp)
    show ?thesis unfolding Answered stitched.simps stitchDrainResponseToDelegation_def Let_def u a s by simp
  next
    case (Dropped reason)
    show ?thesis unfolding Dropped stitched.simps stitchDroppedDelegationFailure_def Let_def u a s by simp
  qed
qed

lemma stitch_authority:
  assumes "ledger_ok tbl" and "sql_find (\<lambda>r. dl_id r = d) tbl = Some r" and "ledgerWritesEnabled env"
    and "recordLedgerStatus env no_faults now (stitch_call d x) tbl = (a, tbl')"
  shows "(mayReply a \<longleftrightarrow> in_flight r)
    \<and> status_in tbl' d = Some (if in_flight r then sc_status (stitch_call d x) else dl_status r)"
proof -
  have rec: "a = fst (fst (SetStatus no_faults now (stitch_call d x) tbl))" "tbl' = snd (SetStatus no_faults now (stitch_call d x) tbl)"
    using assms(3,4) by (auto simp: recordLedgerStatus_def split: prod.splits)
  have st: "status_in tbl d = Some (dl_status r)" using assms(2) by (simp add: status_in_def)
  show ?thesis
  proof (cases "in_flight r")
    case True
    then have fl: "dl_status r \<in> set DelegationInFlightStates" by (simp add: in_flight_def)
    have t: "IsTerminalDelegationStatus (sc_status (stitch_call d x))" by simp
    have tr: "transition_allowed (dl_status r) (sc_status (stitch_call d x))" by (rule in_flight_allows [OF fl t])
    have "\<not> IsTerminalDelegationStatus (dl_status r)" using fl by (auto simp: vocab_simps)
    with t have ne: "dl_status r \<noteq> sc_status (stitch_call d x)" by metis
    have sw: "SetStatus no_faults now (stitch_call d x) tbl =
        ((ReplyMine, None), sql_update (\<lambda>y. dl_id y = d) (swap_row now (stitch_call d x)) tbl)"
      using SetStatus_swap [of tbl "stitch_call d x" r now] assms(1,2) tr ne by simp
    have "status_in (sql_update (\<lambda>y. dl_id y = d) (swap_row now (stitch_call d x)) tbl) d = Some (sc_status (stitch_call d x))"
      using status_in_update [of "\<lambda>y. dl_id y = d" "swap_row now (stitch_call d x)" tbl d] assms(2) sql_find_Some_iff [OF assms(2)]
      by (simp add: swap_row_def)
    with True rec sw show ?thesis by (simp add: mayReply_def)
  next
    case False
    have "row_ok r" using assms(1) sql_find_Some_iff [OF assms(2)] by (simp add: ledger_ok_def list_all_iff)
    then have t: "IsTerminalDelegationStatus (dl_status r)"
      using False by (auto simp: row_ok_def in_flight_def vocab_simps)
    have "\<not> mayReply a" using SetStatus_terminal_silent [of tbl "stitch_call d x" "dl_status r" no_faults now] st t rec(1) by simp
    moreover have "status_in tbl' d = Some (dl_status r)"
      using SetStatus_status_in [of no_faults now "stitch_call d x" tbl d] st t rec(2) by auto
    ultimately show ?thesis using False by simp
  qed
qed



definition example_placeholder :: activity_row where
  "example_placeholder = \<lparr>al_workspace = ''src'', al_type = ''delegation'', al_method = ''delegate_result'', al_source = ''src'',
     al_target = Some ''tgt'', al_summary = [], al_status = ''queued'', al_error = None, al_delegation = dl_id example_row, al_text = None\<rparr>"


end
