(* ===== verification/Base64url.thy ===== *)
theory Base64url
  imports Textutil
begin

text \<open>
  The text encodings of tokens: \<open>base64.RawURLEncoding\<close>, which the bearer tokens
  (\<^verbatim>\<open>internal/wsauth/tokens.go\<close>, \<^verbatim>\<open>internal/orgtoken/tokens.go\<close>) and the signed tokens of the
  desktop (\<^verbatim>\<open>internal/handlers/workspace_display_control.go\<close>) and of the boot sequence
  (\<^verbatim>\<open>internal/boottoken/token.go\<close>) are written in, and \<open>strconv.FormatInt\<close> with its inverse.

  The decoder skips carriage returns and line feeds, refuses every other byte outside the
  alphabet and a rest of one character, and ignores the unused bits of the last character.
  The encoding reads back exactly, and its output consists of characters that separate from
  the dot and the bar the token formats use.
\<close>

subsection \<open>Encoding\<close>

definition enc6 :: "nat \<Rightarrow> char" where
  "enc6 n = char_of (if n < 26 then n + 65 else if n < 52 then n + 71
                     else if n < 62 then n - 4 else if n = 62 then 45 else 95)"

fun b64_encode :: "string \<Rightarrow> string" where
  "b64_encode [] = []"
| "b64_encode [a] = [enc6 (byte a div 4), enc6 (byte a mod 4 * 16)]"
| "b64_encode [a, b] =
    [enc6 (byte a div 4), enc6 (byte a mod 4 * 16 + byte b div 16), enc6 (byte b mod 16 * 4)]"
| "b64_encode (a # b # c # s) =
    enc6 (byte a div 4) # enc6 (byte a mod 4 * 16 + byte b div 16)
      # enc6 (byte b mod 16 * 4 + byte c div 64) # enc6 (byte c mod 64) # b64_encode s"

definition dec6 :: "char \<Rightarrow> nat option" where
  "dec6 c =
    (if in_range 65 90 c then Some (byte c - 65)
     else if in_range 97 122 c then Some (byte c - 71)
     else if in_range 48 57 c then Some (byte c + 4)
     else if byte c = 45 then Some 62
     else if byte c = 95 then Some 63
     else None)"

fun b64_groups :: "nat list \<Rightarrow> string option" where
  "b64_groups [] = Some []"
| "b64_groups [x] = None"
| "b64_groups [x, y] = Some [char_of (x * 4 + y div 16)]"
| "b64_groups [x, y, z] = Some [char_of (x * 4 + y div 16), char_of (y mod 16 * 16 + z div 4)]"
| "b64_groups (x # y # z # w # r) =
    map_option (\<lambda>s. char_of (x * 4 + y div 16) # char_of (y mod 16 * 16 + z div 4) # char_of (z mod 4 * 64 + w) # s)
      (b64_groups r)"

definition b64_decode :: "string \<Rightarrow> string option" where
  "b64_decode s =
    (let cs = filter (\<lambda>c. byte c \<noteq> 10 \<and> byte c \<noteq> 13) s
     in if list_all (\<lambda>c. dec6 c \<noteq> None) cs then b64_groups (map (\<lambda>c. the (dec6 c)) cs) else None)"

subsection \<open>The encoding reads back\<close>

definition b64_char :: "char \<Rightarrow> bool" where
  "b64_char c = (dec6 c \<noteq> None)"

lemma byte_lt [simp]: "byte c < 256"
  using nat_of_char_less_256 by simp

lemma byte_enc6:
  "n < 64 \<Longrightarrow> byte (enc6 n) = (if n < 26 then n + 65 else if n < 52 then n + 71
                     else if n < 62 then n - 4 else if n = 62 then 45 else 95)"
  by (auto simp: enc6_def)

lemma dec6_enc6 [simp]: "n < 64 \<Longrightarrow> dec6 (enc6 n) = Some n"
  by (auto simp: dec6_def in_range_def byte_enc6)

lemma enc6_char [simp]: "n < 64 \<Longrightarrow> b64_char (enc6 n)"
  by (simp add: b64_char_def)

lemma b64_char_not [simp]:
  "\<not> b64_char (CHR ''.'')" "\<not> b64_char (CHR ''|'')" "\<not> b64_char (CHR 0x0A)" "\<not> b64_char (CHR 0x0D)"
  by (simp_all add: b64_char_def dec6_def in_range_def)

text \<open>The four sextets of three bytes, and the bytes they give back.\<close>

lemma sextet_bounds [simp]:
  "byte a div 4 < 64" "byte a mod 4 * 16 + byte b div 16 < 64" "byte b mod 16 * 4 + byte c div 64 < 64"
  "byte a mod 4 * 16 < 64" "byte b mod 16 * 4 < 64"
proof -
  have d: "byte x div 4 < 64" "byte x div 16 < 16" "byte x div 64 < 4" for x
    by (simp_all add: less_mult_imp_div_less)
  have m: "byte x mod 4 < 4" "byte x mod 16 < 16" for x by simp_all
  show "byte a div 4 < 64" by (rule d)
  show "byte a mod 4 * 16 + byte b div 16 < 64" using m(1) [of a] d(2) [of b] by linarith
  show "byte b mod 16 * 4 + byte c div 64 < 64" using m(2) [of b] d(3) [of c] by linarith
  show "byte a mod 4 * 16 < 64" "byte b mod 16 * 4 < 64" using m(1) [of a] m(2) [of b] by linarith+
qed

lemma sextet_split [simp]:
  "(byte a mod 4 * 16 + byte b div 16) div 16 = byte a mod 4" "(byte a mod 4 * 16 + byte b div 16) mod 16 = byte b div 16"
  "(byte b mod 16 * 4 + byte c div 64) div 4 = byte b mod 16" "(byte b mod 16 * 4 + byte c div 64) mod 4 = byte c div 64"
proof -
  have "byte b div 16 < 16" "byte c div 64 < 4" by (simp_all add: less_mult_imp_div_less)
  then show "(byte a mod 4 * 16 + byte b div 16) div 16 = byte a mod 4" "(byte a mod 4 * 16 + byte b div 16) mod 16 = byte b div 16"
    "(byte b mod 16 * 4 + byte c div 64) div 4 = byte b mod 16" "(byte b mod 16 * 4 + byte c div 64) mod 4 = byte c div 64"
    by simp_all
qed

lemma high_bits [simp]: "byte b div 16 mod 16 = byte b div 16" "byte c div 64 mod 4 = byte c div 64"
  by (simp_all add: less_mult_imp_div_less)

lemma b64_encode_chars: "list_all b64_char (b64_encode s)"
  by (induction s rule: b64_encode.induct) simp_all

lemma b64_encode_length: "length (b64_encode s) = (4 * length s + 2) div 3"
  by (induction s rule: b64_encode.induct) auto

lemma groups_encode: "b64_groups (map (\<lambda>c. the (dec6 c)) (b64_encode s)) = Some s"
  by (induction s rule: b64_encode.induct) simp_all

theorem b64_round_trip: "b64_decode (b64_encode s) = Some s"
proof -
  have "list_all b64_char (b64_encode s)" by (rule b64_encode_chars)
  then have "filter (\<lambda>c. byte c \<noteq> 10 \<and> byte c \<noteq> 13) (b64_encode s) = b64_encode s"
    and "list_all (\<lambda>c. dec6 c \<noteq> None) (b64_encode s)"
    by (auto simp: list_all_iff filter_id_conv b64_char_def dec6_def in_range_def)
  then show ?thesis by (simp add: b64_decode_def groups_encode)
qed

lemma b64_encode_inj [simp]: "b64_encode s = b64_encode t \<longleftrightarrow> s = t"
  using b64_round_trip by (metis option.inject)

lemma b64_encode_free: "\<not> b64_char c \<Longrightarrow> c \<notin> set (b64_encode s)"
  using b64_encode_chars [of s] by (auto simp: list_all_iff)

lemma b64_encode_Nil [simp]: "b64_encode s = [] \<longleftrightarrow> s = []"
  by (cases s rule: b64_encode.cases) auto


subsection \<open>Decimal numbers read back\<close>

lemma show_nat_digits: "list_all is_digit (show_nat n)"
proof (induction n rule: show_nat.induct)
  case (1 n)
  have "is_digit (char_of (48 + n mod 10))" by (simp add: is_digit_def)
  moreover have "n < 10 \<Longrightarrow> is_digit (char_of (48 + n))" by (simp add: is_digit_def)
  ultimately show ?case using 1 by (subst show_nat.simps) auto
qed

lemma show_nat_not_Nil [simp]: "show_nat n \<noteq> []"
  by (subst show_nat.simps) simp

lemma digits_val_show: "digits_val (show_nat n) = int n"
proof (induction n rule: show_nat.induct)
  case (1 n)
  have "10 * int (n div 10) + int (n mod 10) = int n" by presburger
  with 1 show ?case by (subst show_nat.simps) (auto simp: digits_val_def)
qed

lemma show_nat_head: "hd (show_nat n) \<noteq> CHR ''-'' \<and> hd (show_nat n) \<noteq> CHR ''+''"
proof -
  have "is_digit (hd (show_nat n))" using show_nat_digits [of n] by (cases "show_nat n") auto
  then show ?thesis by (auto simp: is_digit_def)
qed

lemma atoi_show_int: "fits_int64 i \<Longrightarrow> atoi (show_int i) = Some i"
  using show_nat_head [of "nat i"]
  by (simp add: atoi_def Let_def show_int_def digits_val_show show_nat_digits fits_int64_def)

lemma show_int_chars: "c \<in> set (show_int i) \<Longrightarrow> is_digit c \<or> c = CHR ''-''"
  using show_nat_digits by (auto simp: show_int_def list_all_iff split: if_splits)

lemma show_int_free: "\<not> is_digit c \<Longrightarrow> c \<noteq> CHR ''-'' \<Longrightarrow> c \<notin> set (show_int i)"
  using show_int_chars by blast

lemma show_int_inj: "fits_int64 i \<Longrightarrow> fits_int64 j \<Longrightarrow> show_int i = show_int j \<Longrightarrow> i = j"
  using atoi_show_int by (metis option.inject)

end
