(* ===== verification/Tokens.thy ===== *)
theory Tokens
  imports Org_Tree Base64url
begin

text \<open>
  The two kinds of bearer tokens: workspace tokens (\<^verbatim>\<open>internal/wsauth/tokens.go\<close>, with their
  endpoints in \<^verbatim>\<open>internal/handlers/tokens.go\<close>) and organisation tokens
  (\<^verbatim>\<open>internal/orgtoken/tokens.go\<close>, with the audit rows of \<^verbatim>\<open>audit.go\<close>).

  A token is 32 random bytes in base64; the tables keep its hash. \<open>sha\<close> stands for SHA-256,
  \<open>pg\<close> for the reading of a text parameter as a UUID by the database, \<open>rnd\<close> for the bytes the
  random source gives (\<open>None\<close> when it fails), and the boolean arguments for the statements that
  fail. The hash columns are unique and every token names an existing workspace, as the
  migrations declare.
\<close>

subsection \<open>State\<close>

record ws_token =
  wt_id :: string
  wt_workspace :: string
  wt_hash :: string
  wt_prefix :: string
  wt_kind :: string
  wt_created :: time
  wt_revoked :: "time option"
  wt_last_used :: "time option"

record org_token =
  ot_id :: string
  ot_hash :: string
  ot_prefix :: string
  ot_name :: "string option"
  ot_created_by :: "string option"
  ot_org :: "string option"
  ot_created :: time
  ot_revoked :: "time option"
  ot_last_used :: "time option"
  ot_expires :: "time option"

datatype AuditAction = AuditActionMint | AuditActionRevoke | AuditActionValidateFail

record AuditLogRequestContext =
  IPAddress :: string
  UserAgent :: string

record audit_event =
  ae_TokenID :: "string option"
  ae_Action :: AuditAction
  ae_Actor :: string
  ae_OrgID :: "string option"
  ae_IPAddress :: "string option"
  ae_UserAgent :: "string option"
  ae_Metadata :: "(string \<times> string) list"

record token_db =
  td_workspaces :: ws_table
  td_tokens :: "ws_token list"
  td_org_tokens :: "org_token list"
  td_audit :: "audit_event list"

datatype token_error = ErrInvalidToken | ErrGenerate | ErrPersist | ErrTokenQuery | ErrMintCeilingExceeded | ErrPastExpiry

definition tokenPayloadBytes :: nat where "tokenPayloadBytes = 32"
definition tokenPrefixLen :: nat where "tokenPrefixLen = 8"

subsection \<open>Workspace tokens\<close>

definition issueTokenKind ::
  "(string \<Rightarrow> string) \<Rightarrow> (string \<Rightarrow> string option) \<Rightarrow> bool \<Rightarrow> string \<Rightarrow> string option \<Rightarrow> time \<Rightarrow> string \<Rightarrow> string
     \<Rightarrow> token_db \<Rightarrow> (token_error + string) \<times> token_db" where
  "issueTokenKind sha pg fails fresh rnd now workspaceID kind db =
    (case rnd of
       None \<Rightarrow> (Inl ErrGenerate, db)
     | Some buf \<Rightarrow>
        let plaintext = b64_encode buf; hash = sha plaintext
        in case pg workspaceID of
            None \<Rightarrow> (Inl ErrPersist, db)
          | Some ws \<Rightarrow>
             if fails \<or> node (td_workspaces db) ws = None \<or> list_ex (\<lambda>t. wt_hash t = hash) (td_tokens db)
             then (Inl ErrPersist, db)
             else (Inr plaintext, db\<lparr>td_tokens := td_tokens db @
               [\<lparr>wt_id = fresh, wt_workspace = ws, wt_hash = hash, wt_prefix = take tokenPrefixLen plaintext,
                 wt_kind = kind, wt_created = now, wt_revoked = None, wt_last_used = None\<rparr>]\<rparr>))"

definition IssueToken ::
  "(string \<Rightarrow> string) \<Rightarrow> (string \<Rightarrow> string option) \<Rightarrow> bool \<Rightarrow> string \<Rightarrow> string option \<Rightarrow> time \<Rightarrow> string
     \<Rightarrow> token_db \<Rightarrow> (token_error + string) \<times> token_db" where
  "IssueToken sha pg fails fresh rnd now workspaceID = issueTokenKind sha pg fails fresh rnd now workspaceID ''instance''"

definition IssueAPIToken ::
  "(string \<Rightarrow> string) \<Rightarrow> (string \<Rightarrow> string option) \<Rightarrow> bool \<Rightarrow> string \<Rightarrow> string option \<Rightarrow> time \<Rightarrow> string
     \<Rightarrow> token_db \<Rightarrow> (token_error + string) \<times> token_db" where
  "IssueAPIToken sha pg fails fresh rnd now workspaceID = issueTokenKind sha pg fails fresh rnd now workspaceID ''api''"

text \<open>The join with the workspaces that are not removed.\<close>

definition live_row :: "token_db \<Rightarrow> ws_token \<Rightarrow> bool" where
  "live_row db t = (wt_revoked t = None
     \<and> list_ex (\<lambda>w. wn_id w = wt_workspace t \<and> wn_status w \<noteq> ''removed'') (td_workspaces db))"

definition lookupTokenByHash :: "bool \<Rightarrow> string \<Rightarrow> token_db \<Rightarrow> token_error + string \<times> string" where
  "lookupTokenByHash fails hash db =
    (if fails then Inl ErrInvalidToken
     else case sql_find (\<lambda>t. wt_hash t = hash \<and> live_row db t) (td_tokens db) of
         None \<Rightarrow> Inl ErrInvalidToken
       | Some t \<Rightarrow> Inr (wt_id t, wt_workspace t))"

definition bump_token :: "bool \<Rightarrow> time \<Rightarrow> string \<Rightarrow> token_db \<Rightarrow> token_db" where
  "bump_token fails now i db =
    (if fails then db
     else db\<lparr>td_tokens := sql_update (\<lambda>t. wt_id t = i) (\<lambda>t. t\<lparr>wt_last_used := Some now\<rparr>) (td_tokens db)\<rparr>)"

definition ValidateToken ::
  "(string \<Rightarrow> string) \<Rightarrow> bool \<Rightarrow> bool \<Rightarrow> time \<Rightarrow> string \<Rightarrow> string \<Rightarrow> token_db \<Rightarrow> (token_error + unit) \<times> token_db" where
  "ValidateToken sha fails bump_fails now expectedWorkspaceID plaintext db =
    (if plaintext = [] \<or> expectedWorkspaceID = [] then (Inl ErrInvalidToken, db)
     else case lookupTokenByHash fails (sha plaintext) db of
         Inl e \<Rightarrow> (Inl e, db)
       | Inr (tokenID, workspaceID) \<Rightarrow>
          if workspaceID \<noteq> expectedWorkspaceID then (Inl ErrInvalidToken, db)
          else (Inr (), bump_token bump_fails now tokenID db))"

definition WorkspaceFromToken :: "(string \<Rightarrow> string) \<Rightarrow> bool \<Rightarrow> string \<Rightarrow> token_db \<Rightarrow> token_error + string" where
  "WorkspaceFromToken sha fails plaintext db =
    (if plaintext = [] then Inl ErrInvalidToken
     else case lookupTokenByHash fails (sha plaintext) db of Inl e \<Rightarrow> Inl e | Inr (_, workspaceID) \<Rightarrow> Inr workspaceID)"

definition ValidateAnyToken ::
  "(string \<Rightarrow> string) \<Rightarrow> bool \<Rightarrow> bool \<Rightarrow> time \<Rightarrow> string \<Rightarrow> token_db \<Rightarrow> (token_error + unit) \<times> token_db" where
  "ValidateAnyToken sha fails bump_fails now plaintext db =
    (if plaintext = [] then (Inl ErrInvalidToken, db)
     else case lookupTokenByHash fails (sha plaintext) db of
         Inl e \<Rightarrow> (Inl e, db)
       | Inr (tokenID, _) \<Rightarrow> (Inr (), bump_token bump_fails now tokenID db))"

text \<open>\<open>UPDATE .. SET revoked_at = now() WHERE revoked_at IS NULL AND ..\<close>.\<close>

definition revoke_where :: "time \<Rightarrow> (ws_token \<Rightarrow> bool) \<Rightarrow> token_db \<Rightarrow> token_db" where
  "revoke_where now P db =
    db\<lparr>td_tokens := sql_update (\<lambda>t. P t \<and> wt_revoked t = None) (\<lambda>t. t\<lparr>wt_revoked := Some now\<rparr>) (td_tokens db)\<rparr>"

definition RevokeAllForWorkspace ::
  "(string \<Rightarrow> string option) \<Rightarrow> bool \<Rightarrow> time \<Rightarrow> string \<Rightarrow> token_db \<Rightarrow> (token_error + unit) \<times> token_db" where
  "RevokeAllForWorkspace pg fails now workspaceID db =
    (case pg workspaceID of
       None \<Rightarrow> (Inl ErrTokenQuery, db)
     | Some ws \<Rightarrow> if fails then (Inl ErrTokenQuery, db)
                   else (Inr (), revoke_where now (\<lambda>t. wt_workspace t = ws) db))"

definition RevokeInstanceTokensForWorkspace ::
  "(string \<Rightarrow> string option) \<Rightarrow> bool \<Rightarrow> time \<Rightarrow> string \<Rightarrow> token_db \<Rightarrow> (token_error + unit) \<times> token_db" where
  "RevokeInstanceTokensForWorkspace pg fails now workspaceID db =
    (case pg workspaceID of
       None \<Rightarrow> (Inl ErrTokenQuery, db)
     | Some ws \<Rightarrow> if fails then (Inl ErrTokenQuery, db)
                   else (Inr (), revoke_where now (\<lambda>t. wt_workspace t = ws \<and> wt_kind t = ''instance'') db))"

definition WorkspaceExists :: "(string \<Rightarrow> string option) \<Rightarrow> bool \<Rightarrow> string \<Rightarrow> token_db \<Rightarrow> token_error + bool" where
  "WorkspaceExists pg fails workspaceID db =
    (case pg workspaceID of
       None \<Rightarrow> Inl ErrTokenQuery
     | Some ws \<Rightarrow> if fails then Inl ErrTokenQuery else Inr (node (td_workspaces db) ws \<noteq> None))"

definition count_live :: "(ws_token \<Rightarrow> bool) \<Rightarrow> token_db \<Rightarrow> nat" where
  "count_live P db = sql_affected (\<lambda>t. P t \<and> wt_revoked t = None) (td_tokens db)"

definition HasLiveInstanceToken :: "(string \<Rightarrow> string option) \<Rightarrow> bool \<Rightarrow> string \<Rightarrow> token_db \<Rightarrow> token_error + bool" where
  "HasLiveInstanceToken pg fails workspaceID db =
    (case pg workspaceID of
       None \<Rightarrow> Inl ErrTokenQuery
     | Some ws \<Rightarrow> if fails then Inl ErrTokenQuery
                   else Inr (count_live (\<lambda>t. wt_workspace t = ws \<and> wt_kind t = ''instance'') db > 0))"

definition HasAnyLiveToken :: "(string \<Rightarrow> string option) \<Rightarrow> bool \<Rightarrow> string \<Rightarrow> token_db \<Rightarrow> token_error + bool" where
  "HasAnyLiveToken pg fails workspaceID db =
    (case pg workspaceID of
       None \<Rightarrow> Inl ErrTokenQuery
     | Some ws \<Rightarrow> if fails then Inl ErrTokenQuery else Inr (count_live (\<lambda>t. wt_workspace t = ws) db > 0))"

definition HasAnyLiveTokenGlobal :: "bool \<Rightarrow> token_db \<Rightarrow> token_error + bool" where
  "HasAnyLiveTokenGlobal fails db = (if fails then Inl ErrTokenQuery else Inr (count_live (\<lambda>_. True) db > 0))"

definition BearerTokenFromHeader :: "string \<Rightarrow> string" where
  "BearerTokenFromHeader h = (if prefix ''Bearer '' h then TrimSpace (drop 7 h) else [])"

subsection \<open>The endpoints of workspace tokens\<close>

datatype token_response = TokenRejected int string | TokenListed "ws_token list" | TokenCreated string string | TokenRevoked

definition query_limit :: "string \<Rightarrow> nat" where
  "query_limit v = (case atoi v of Some n \<Rightarrow> if 0 < n \<and> n \<le> 200 then nat n else 50 | None \<Rightarrow> 50)"

definition query_offset :: "string \<Rightarrow> nat" where
  "query_offset v = (case atoi v of Some n \<Rightarrow> if 0 \<le> n then nat n else 0 | None \<Rightarrow> 0)"

definition List_tokens ::
  "(string \<Rightarrow> bool) \<Rightarrow> (string \<Rightarrow> string option) \<Rightarrow> bool \<Rightarrow> bool \<Rightarrow> string \<Rightarrow> string \<Rightarrow> string \<Rightarrow> token_db \<Rightarrow> token_response" where
  "List_tokens uuid_ok pg fails scan_fails workspaceID limit_q offset_q db =
    (if \<not> uuid_ok workspaceID then TokenRejected 400 ''invalid workspace id''
     else case pg workspaceID of
         None \<Rightarrow> TokenRejected 500 ''failed to list tokens''
       | Some ws \<Rightarrow>
          let rows = take (query_limit limit_q) (drop (query_offset offset_q)
                (sort_key (\<lambda>t. - wt_created t) (filter (\<lambda>t. wt_workspace t = ws \<and> wt_revoked t = None) (td_tokens db))))
          in if fails then TokenRejected 500 ''failed to list tokens''
             else if scan_fails \<and> rows \<noteq> [] then TokenRejected 500 ''failed to scan token''
             else TokenListed rows)"

definition maxTokensPerWorkspace :: nat where "maxTokensPerWorkspace = 50"

text \<open>The error of the count is not looked at: the count is then 0.\<close>

definition Create_token ::
  "(string \<Rightarrow> bool) \<Rightarrow> (string \<Rightarrow> string) \<Rightarrow> (string \<Rightarrow> string option) \<Rightarrow> bool \<Rightarrow> bool \<Rightarrow> string \<Rightarrow> string option \<Rightarrow> time \<Rightarrow> string
     \<Rightarrow> token_db \<Rightarrow> token_response \<times> token_db" where
  "Create_token uuid_ok sha pg count_fails fails fresh rnd now workspaceID db =
    (if \<not> uuid_ok workspaceID then (TokenRejected 400 ''invalid workspace id'', db)
     else let count = (case pg workspaceID of
              None \<Rightarrow> 0 | Some ws \<Rightarrow> if count_fails then 0 else count_live (\<lambda>t. wt_workspace t = ws) db)
          in if count \<ge> maxTokensPerWorkspace
             then (TokenRejected 429 (''maximum '' @ show_nat maxTokensPerWorkspace @ '' active tokens per workspace''), db)
             else case IssueAPIToken sha pg fails fresh rnd now workspaceID db of
                 (Inl _, db') \<Rightarrow> (TokenRejected 500 ''failed to create token'', db')
               | (Inr token, db') \<Rightarrow> (TokenCreated token workspaceID, db'))"

definition Revoke_token ::
  "(string \<Rightarrow> bool) \<Rightarrow> (string \<Rightarrow> string option) \<Rightarrow> bool \<Rightarrow> time \<Rightarrow> string \<Rightarrow> string \<Rightarrow> token_db \<Rightarrow> token_response \<times> token_db" where
  "Revoke_token uuid_ok pg fails now workspaceID tokenID db =
    (if \<not> uuid_ok workspaceID then (TokenRejected 400 ''invalid workspace id'', db)
     else case (pg workspaceID, pg tokenID) of
         (Some ws, Some tid) \<Rightarrow>
            if fails then (TokenRejected 500 ''failed to revoke token'', db)
            else if count_live (\<lambda>t. wt_id t = tid \<and> wt_workspace t = ws) db = 0
              then (TokenRejected 404 ''token not found or already revoked'', db)
            else (TokenRevoked, revoke_where now (\<lambda>t. wt_id t = tid \<and> wt_workspace t = ws) db)
       | _ \<Rightarrow> (TokenRejected 500 ''failed to revoke token'', db))"

subsection \<open>Organisation tokens\<close>

definition listMax :: nat where "listMax = 500"
definition defaultMintCeiling :: int where "defaultMintCeiling = 100"

definition mintCeiling :: "string \<Rightarrow> int" where
  "mintCeiling env = (if env = [] then defaultMintCeiling
     else case atoi env of Some n \<Rightarrow> n | None \<Rightarrow> defaultMintCeiling)"

text \<open>The zero value of \<open>time.Time\<close>, the start of the year 1.\<close>

definition zero_time :: time where "zero_time = - 62135596800 * second"

definition nullTimeIfZero :: "time option \<Rightarrow> time option" where
  "nullTimeIfZero t = (case t of Some x \<Rightarrow> if x = zero_time then None else Some x | None \<Rightarrow> None)"

definition LogAuditEvent ::
  "bool \<Rightarrow> string option \<Rightarrow> AuditAction \<Rightarrow> string \<Rightarrow> string \<Rightarrow> AuditLogRequestContext \<Rightarrow> (string \<times> string) list \<Rightarrow> token_db \<Rightarrow> token_db" where
  "LogAuditEvent fails tokenID act actor orgID reqCtx metadata db =
    (if fails then db
     else db\<lparr>td_audit := td_audit db @ [\<lparr>ae_TokenID = Option.bind tokenID nullif_empty, ae_Action = act, ae_Actor = actor,
       ae_OrgID = nullif_empty orgID, ae_IPAddress = nullif_empty (IPAddress reqCtx),
       ae_UserAgent = nullif_empty (UserAgent reqCtx), ae_Metadata = metadata\<rparr>]\<rparr>)"

text \<open>The tokens the ceiling counts.\<close>

definition org_live :: "time \<Rightarrow> org_token \<Rightarrow> bool" where
  "org_live now t = (ot_revoked t = None \<and> (case ot_expires t of None \<Rightarrow> True | Some e \<Rightarrow> e > now))"

definition live_count :: "time \<Rightarrow> string \<Rightarrow> token_db \<Rightarrow> nat" where
  "live_count now org db = sql_affected (\<lambda>t. ot_org t = Some org \<and> org_live now t) (td_org_tokens db)"

definition mint_check ::
  "(string \<Rightarrow> string option) \<Rightarrow> bool \<Rightarrow> int \<Rightarrow> time \<Rightarrow> string \<Rightarrow> time option \<Rightarrow> token_db \<Rightarrow> token_error + unit" where
  "mint_check pg fails ceiling now orgID expiresAt db =
    (if (case expiresAt of Some e \<Rightarrow> e \<noteq> zero_time \<and> now > e | None \<Rightarrow> False) then Inl ErrPastExpiry
     else if ceiling > 0 \<and> orgID \<noteq> [] then
       (case pg orgID of
          None \<Rightarrow> Inl ErrTokenQuery
        | Some org \<Rightarrow>
           if fails then Inl ErrTokenQuery
           else if int (live_count now org db) \<ge> ceiling then Inl ErrMintCeilingExceeded
           else Inr ())
     else Inr ())"

definition mint_insert ::
  "(string \<Rightarrow> string) \<Rightarrow> (string \<Rightarrow> string option) \<Rightarrow> bool \<Rightarrow> bool \<Rightarrow> string \<Rightarrow> string option \<Rightarrow> time \<Rightarrow> string \<Rightarrow> string \<Rightarrow> string
     \<Rightarrow> time option \<Rightarrow> AuditLogRequestContext \<Rightarrow> token_db \<Rightarrow> (token_error + string \<times> string) \<times> token_db" where
  "mint_insert sha pg fails audit_fails fresh rnd now name createdBy orgID expiresAt reqCtx db =
    (case rnd of
       None \<Rightarrow> (Inl ErrGenerate, db)
     | Some buf \<Rightarrow>
        let plaintext = b64_encode buf; hash = sha plaintext; pre = take tokenPrefixLen plaintext
        in if fails \<or> (orgID \<noteq> [] \<and> (case pg orgID of None \<Rightarrow> True | Some org \<Rightarrow> node (td_workspaces db) org = None))
             \<or> list_ex (\<lambda>t. ot_hash t = hash) (td_org_tokens db)
           then (Inl ErrPersist, db)
           else (Inr (plaintext, fresh),
             LogAuditEvent audit_fails (Some fresh) AuditActionMint createdBy orgID reqCtx [(''name'', name), (''prefix'', pre)]
               (db\<lparr>td_org_tokens := td_org_tokens db @
                 [\<lparr>ot_id = fresh, ot_hash = hash, ot_prefix = pre, ot_name = nullif_empty name,
                   ot_created_by = nullif_empty createdBy, ot_org = Option.bind (nullif_empty orgID) pg, ot_created = now,
                   ot_revoked = None, ot_last_used = None, ot_expires = nullTimeIfZero expiresAt\<rparr>]\<rparr>)))"

definition IssueWithExpiry ::
  "(string \<Rightarrow> string) \<Rightarrow> (string \<Rightarrow> string option) \<Rightarrow> bool \<Rightarrow> bool \<Rightarrow> bool \<Rightarrow> int \<Rightarrow> string \<Rightarrow> string option \<Rightarrow> time \<Rightarrow> string \<Rightarrow> string
     \<Rightarrow> string \<Rightarrow> time option \<Rightarrow> AuditLogRequestContext \<Rightarrow> token_db \<Rightarrow> (token_error + string \<times> string) \<times> token_db" where
  "IssueWithExpiry sha pg count_fails fails audit_fails ceiling fresh rnd now name createdBy orgID expiresAt reqCtx db =
    (case mint_check pg count_fails ceiling now orgID expiresAt db of
       Inl e \<Rightarrow> (Inl e, db)
     | Inr _ \<Rightarrow> mint_insert sha pg fails audit_fails fresh rnd now name createdBy orgID expiresAt reqCtx db)"

definition Issue ::
  "(string \<Rightarrow> string) \<Rightarrow> (string \<Rightarrow> string option) \<Rightarrow> bool \<Rightarrow> bool \<Rightarrow> bool \<Rightarrow> int \<Rightarrow> string \<Rightarrow> string option \<Rightarrow> time \<Rightarrow> string \<Rightarrow> string
     \<Rightarrow> string \<Rightarrow> AuditLogRequestContext \<Rightarrow> token_db \<Rightarrow> (token_error + string \<times> string) \<times> token_db" where
  "Issue sha pg count_fails fails audit_fails ceiling fresh rnd now name createdBy orgID =
    IssueWithExpiry sha pg count_fails fails audit_fails ceiling fresh rnd now name createdBy orgID None"

definition bump_org_token :: "bool \<Rightarrow> time \<Rightarrow> string \<Rightarrow> token_db \<Rightarrow> token_db" where
  "bump_org_token fails now i db =
    (if fails then db
     else db\<lparr>td_org_tokens := sql_update (\<lambda>t. ot_id t = i) (\<lambda>t. t\<lparr>ot_last_used := Some now\<rparr>) (td_org_tokens db)\<rparr>)"

definition validate_fail_actor :: "string \<Rightarrow> string \<Rightarrow> string" where
  "validate_fail_actor actor plaintext =
    (if actor \<noteq> [] then actor
     else ''org-token:'' @ (if length plaintext \<ge> tokenPrefixLen then take tokenPrefixLen plaintext else ''<short>''))"

definition Validate ::
  "(string \<Rightarrow> string) \<Rightarrow> bool \<Rightarrow> bool \<Rightarrow> bool \<Rightarrow> time \<Rightarrow> string \<Rightarrow> AuditLogRequestContext \<Rightarrow> string \<Rightarrow> bool \<Rightarrow> token_db
     \<Rightarrow> (token_error + string \<times> string \<times> string) \<times> token_db" where
  "Validate sha fails bump_fails audit_fails now plaintext reqCtx actor auditInvalid db =
    (if plaintext = [] then (Inl ErrInvalidToken, db)
     else if fails then (Inl ErrInvalidToken, db)
     else case sql_find (\<lambda>t. ot_hash t = sha plaintext \<and> ot_revoked t = None) (td_org_tokens db) of
         None \<Rightarrow>
           (Inl ErrInvalidToken,
            if auditInvalid
            then LogAuditEvent audit_fails None AuditActionValidateFail (validate_fail_actor actor plaintext) [] reqCtx
                   [(''prefix'', take tokenPrefixLen plaintext)] db
            else db)
       | Some t \<Rightarrow>
          if (case ot_expires t of Some e \<Rightarrow> now > e | None \<Rightarrow> False) then (Inl ErrInvalidToken, db)
          else (Inr (ot_id t, ot_prefix t, case ot_org t of Some g \<Rightarrow> g | None \<Rightarrow> []), bump_org_token bump_fails now (ot_id t) db))"

definition List_org :: "bool \<Rightarrow> token_db \<Rightarrow> token_error + org_token list" where
  "List_org fails db =
    (if fails then Inl ErrTokenQuery
     else Inr (take listMax (sort_key (\<lambda>t. - ot_created t) (filter (\<lambda>t. ot_revoked t = None) (td_org_tokens db)))))"

definition Revoke ::
  "(string \<Rightarrow> string option) \<Rightarrow> bool \<Rightarrow> bool \<Rightarrow> time \<Rightarrow> string \<Rightarrow> AuditLogRequestContext \<Rightarrow> string \<Rightarrow> token_db
     \<Rightarrow> (token_error + bool) \<times> token_db" where
  "Revoke pg fails audit_fails now i reqCtx actor db =
    (case pg i of
       None \<Rightarrow> (Inl ErrTokenQuery, db)
     | Some tid \<Rightarrow>
        if fails then (Inl ErrTokenQuery, db)
        else if sql_affected (\<lambda>t. ot_id t = tid \<and> ot_revoked t = None) (td_org_tokens db) = 0 then (Inr False, db)
        else (Inr True, LogAuditEvent audit_fails (Some i) AuditActionRevoke actor [] reqCtx []
          (db\<lparr>td_org_tokens := sql_update (\<lambda>t. ot_id t = tid \<and> ot_revoked t = None)
                (\<lambda>t. t\<lparr>ot_revoked := Some now\<rparr>) (td_org_tokens db)\<rparr>)))"

definition HasAnyLive :: "bool \<Rightarrow> token_db \<Rightarrow> token_error + bool" where
  "HasAnyLive fails db = (if fails then Inl ErrTokenQuery else Inr (list_ex (\<lambda>t. ot_revoked t = None) (td_org_tokens db)))"

definition OrgIDByTokenID :: "(string \<Rightarrow> string option) \<Rightarrow> bool \<Rightarrow> string \<Rightarrow> token_db \<Rightarrow> token_error + string" where
  "OrgIDByTokenID pg fails tokenID db =
    (if fails then Inl ErrTokenQuery
     else case Option.bind (pg tokenID) (\<lambda>tid. sql_find (\<lambda>t. ot_id t = tid) (td_org_tokens db)) of
         None \<Rightarrow> Inl ErrTokenQuery
       | Some t \<Rightarrow> Inr (case ot_org t of Some g \<Rightarrow> g | None \<Rightarrow> []))"

subsection \<open>Invariant and steps\<close>

definition tokens_ok :: "token_db \<Rightarrow> bool" where
  "tokens_ok db = (unique_key wt_id (td_tokens db) \<and> unique_key wt_hash (td_tokens db)
     \<and> unique_key ot_id (td_org_tokens db) \<and> unique_key ot_hash (td_org_tokens db))"

text \<open>
  What concurrent requests do to the tables. Every statement is one step; the count of a mint is
  a read of its own, so the insert of a mint is a step whatever the count was. Workspaces are
  created, moved and removed by other components.
\<close>

inductive other_step :: "(string \<Rightarrow> string) \<Rightarrow> (string \<Rightarrow> string option) \<Rightarrow> token_db \<Rightarrow> token_db \<Rightarrow> bool" for sha pg where
  step_issue: "fresh \<notin> wt_id ` set (td_tokens db) \<Longrightarrow>
    other_step sha pg db (snd (issueTokenKind sha pg f fresh rnd now ws kind db))"
| step_validate: "other_step sha pg db (snd (ValidateToken sha f b now ws plain db))"
| step_validate_any: "other_step sha pg db (snd (ValidateAnyToken sha f b now plain db))"
| step_revoke_all: "other_step sha pg db (snd (RevokeAllForWorkspace pg f now ws db))"
| step_revoke_instance: "other_step sha pg db (snd (RevokeInstanceTokensForWorkspace pg f now ws db))"
| step_revoke_token: "other_step sha pg db (snd (Revoke_token uuid_ok pg f now ws tid db))"
| step_org_validate: "other_step sha pg db (snd (Validate sha f b a now plain rc actor au db))"
| step_org_revoke: "other_step sha pg db (snd (Revoke pg f a now tid rc actor db))"
| step_workspaces: "other_step sha pg db (db\<lparr>td_workspaces := wss\<rparr>)"

inductive token_step :: "(string \<Rightarrow> string) \<Rightarrow> (string \<Rightarrow> string option) \<Rightarrow> token_db \<Rightarrow> token_db \<Rightarrow> bool" for sha pg where
  step_other: "other_step sha pg db db' \<Longrightarrow> token_step sha pg db db'"
| step_mint: "fresh \<notin> ot_id ` set (td_org_tokens db) \<Longrightarrow>
    token_step sha pg db (snd (mint_insert sha pg f a fresh rnd now name by_whom org exp rc db))"

text \<open>
  What a step may do to a table of tokens: rows keep their identity and are never un-revoked,
  and at most one row with a new hash is added.
\<close>

definition evolves ::
  "('r \<Rightarrow> 'k) \<Rightarrow> ('r \<Rightarrow> string) \<Rightarrow> ('r \<Rightarrow> string) \<Rightarrow> ('r \<Rightarrow> time option) \<Rightarrow> 'r list \<Rightarrow> 'r list \<Rightarrow> bool" where
  "evolves keep ident hash revoked ts ts' = (\<exists>g new. ts' = map g ts @ new
     \<and> (\<forall>t. keep (g t) = keep t \<and> ident (g t) = ident t \<and> hash (g t) = hash t
            \<and> (revoked t \<noteq> None \<longrightarrow> revoked (g t) = revoked t))
     \<and> length new \<le> 1
     \<and> (\<forall>n \<in> set new. hash n \<notin> hash ` set ts \<and> ident n \<notin> ident ` set ts))"

abbreviation ws_evolves :: "ws_token list \<Rightarrow> ws_token list \<Rightarrow> bool" where
  "ws_evolves \<equiv> evolves (\<lambda>t. (wt_workspace t, wt_kind t)) wt_id wt_hash wt_revoked"

abbreviation org_evolves :: "org_token list \<Rightarrow> org_token list \<Rightarrow> bool" where
  "org_evolves \<equiv> evolves (\<lambda>t. (ot_org t, ot_expires t)) ot_id ot_hash ot_revoked"

lemma evolves_refl [simp]: "evolves keep ident hash revoked ts ts"
  unfolding evolves_def by (rule exI [of _ id], rule exI [of _ "[]"]) simp

lemma evolves_update:
  "(\<And>t. P t \<Longrightarrow> keep (f t) = keep t \<and> ident (f t) = ident t \<and> hash (f t) = hash t \<and> (revoked t \<noteq> None \<longrightarrow> revoked (f t) = revoked t))
    \<Longrightarrow> evolves keep ident hash revoked ts (sql_update P f ts)"
  unfolding evolves_def sql_update_def by (rule exI [of _ "\<lambda>r. if P r then f r else r"], rule exI [of _ "[]"]) simp

lemma evolves_add: "hash n \<notin> hash ` set ts \<Longrightarrow> ident n \<notin> ident ` set ts \<Longrightarrow> evolves keep ident hash revoked ts (ts @ [n])"
  unfolding evolves_def by (rule exI [of _ id], rule exI [of _ "[n]"]) simp

lemma evolves_unique:
  assumes "evolves keep ident hash revoked ts ts'" and "unique_key ident ts" and "unique_key hash ts"
  shows "unique_key ident ts' \<and> unique_key hash ts'"
proof -
  from assms(1) obtain g new where g: "ts' = map g ts @ new" "\<forall>t. ident (g t) = ident t \<and> hash (g t) = hash t"
    "length new \<le> 1" "\<forall>n \<in> set new. hash n \<notin> hash ` set ts \<and> ident n \<notin> ident ` set ts" by (auto simp: evolves_def)
  from g(2) have m: "map ident ts' = map ident ts @ map ident new" "map hash ts' = map hash ts @ map hash new"
    using g(1) by simp_all
  from g(3) have "new = [] \<or> (\<exists>n. new = [n])" by (cases new) auto
  with m g(4) assms(2,3) show ?thesis by (auto simp: unique_key_def simp del: image_iff) (metis image_eqI)+
qed

text \<open>A revoked row stays the only row with its hash.\<close>

lemma evolves_revoked:
  assumes "evolves keep ident hash revoked ts ts'" and "t \<in> set ts" and "revoked t \<noteq> None"
  shows "\<exists>t' \<in> set ts'. hash t' = hash t \<and> revoked t' \<noteq> None"
  using assms by (fastforce simp: evolves_def)

lemma LogAuditEvent_tables [simp]:
  "td_tokens (LogAuditEvent f i act actor org rc m db) = td_tokens db"
  "td_org_tokens (LogAuditEvent f i act actor org rc m db) = td_org_tokens db"
  "td_workspaces (LogAuditEvent f i act actor org rc m db) = td_workspaces db"
  by (simp_all add: LogAuditEvent_def)

lemma bump_evolves [simp]:
  "ws_evolves (td_tokens db) (td_tokens (bump_token f now i db))" "td_org_tokens (bump_token f now i db) = td_org_tokens db"
  "org_evolves (td_org_tokens db) (td_org_tokens (bump_org_token f now i db))" "td_tokens (bump_org_token f now i db) = td_tokens db"
  by (auto simp: bump_token_def bump_org_token_def intro: evolves_update)

lemma revoke_where_evolves [simp]:
  "ws_evolves (td_tokens db) (td_tokens (revoke_where now P db))" "td_org_tokens (revoke_where now P db) = td_org_tokens db"
  by (auto simp: revoke_where_def intro: evolves_update)

lemma issue_evolves:
  assumes "fresh \<notin> wt_id ` set (td_tokens db)"
  shows "ws_evolves (td_tokens db) (td_tokens (snd (issueTokenKind sha pg f fresh rnd now ws kind db)))
    \<and> td_org_tokens (snd (issueTokenKind sha pg f fresh rnd now ws kind db)) = td_org_tokens db"
  using assms by (auto simp: issueTokenKind_def Let_def list_ex_iff split: option.splits intro!: evolves_add)

lemma mint_evolves:
  assumes "fresh \<notin> ot_id ` set (td_org_tokens db)"
  shows "org_evolves (td_org_tokens db) (td_org_tokens (snd (mint_insert sha pg f a fresh rnd now name by_whom org exp rc db)))
    \<and> td_tokens (snd (mint_insert sha pg f a fresh rnd now name by_whom org exp rc db)) = td_tokens db"
  using assms by (auto simp: mint_insert_def Let_def list_ex_iff split: option.splits intro!: evolves_add)

lemma other_step_evolves:
  "other_step sha pg db db' \<Longrightarrow> ws_evolves (td_tokens db) (td_tokens db') \<and> org_evolves (td_org_tokens db) (td_org_tokens db')"
proof (induction rule: other_step.induct)
  case (step_issue fresh db f rnd now ws kind)
  from issue_evolves [OF step_issue] show ?case by simp
next
  case (step_validate db f b now ws plain)
  then show ?case by (auto simp: ValidateToken_def split: sum.splits prod.splits)
next
  case (step_validate_any db f b now plain)
  then show ?case by (auto simp: ValidateAnyToken_def split: sum.splits prod.splits)
next
  case (step_revoke_all db f now ws)
  then show ?case by (auto simp: RevokeAllForWorkspace_def split: option.splits)
next
  case (step_revoke_instance db f now ws)
  then show ?case by (auto simp: RevokeInstanceTokensForWorkspace_def split: option.splits)
next
  case (step_revoke_token db uuid_ok f now ws tid)
  then show ?case by (auto simp: Revoke_token_def split: option.splits)
next
  case (step_org_validate db f b a now plain rc actor au)
  then show ?case by (auto simp: Validate_def split: option.splits)
next
  case (step_org_revoke db f a now tid rc actor)
  then show ?case by (auto simp: Revoke_def split: option.splits intro!: evolves_update)
qed simp

lemma token_step_evolves:
  "token_step sha pg db db' \<Longrightarrow> ws_evolves (td_tokens db) (td_tokens db') \<and> org_evolves (td_org_tokens db) (td_org_tokens db')"
  by (induction rule: token_step.induct) (use other_step_evolves mint_evolves in auto)

lemma tokens_ok_step: "token_step sha pg db db' \<Longrightarrow> tokens_ok db \<Longrightarrow> tokens_ok db'"
  using token_step_evolves [of sha pg db db'] evolves_unique [of _ wt_id wt_hash] evolves_unique [of _ ot_id ot_hash]
  unfolding tokens_ok_def by blast

lemma tokens_ok_steps: "(token_step sha pg)\<^sup>*\<^sup>* db db' \<Longrightarrow> tokens_ok db \<Longrightarrow> tokens_ok db'"
  by (induction rule: rtranclp_induct) (auto intro: tokens_ok_step)

subsection \<open>Revocation is final\<close>

definition ws_revoked :: "token_db \<Rightarrow> string \<Rightarrow> bool option" where
  "ws_revoked db h = map_option (\<lambda>t. wt_revoked t \<noteq> None) (sql_find (\<lambda>t. wt_hash t = h) (td_tokens db))"

definition org_revoked :: "token_db \<Rightarrow> string \<Rightarrow> bool option" where
  "org_revoked db h = map_option (\<lambda>t. ot_revoked t \<noteq> None) (sql_find (\<lambda>t. ot_hash t = h) (td_org_tokens db))"

lemma evolves_find:
  assumes "evolves keep ident hash revoked ts ts'" and "sql_find (\<lambda>t. hash t = h) ts = Some t" and "revoked t \<noteq> None"
  shows "\<exists>t'. sql_find (\<lambda>t. hash t = h) ts' = Some t' \<and> revoked t' \<noteq> None"
proof -
  from assms(1) obtain g new where g: "ts' = map g ts @ new" "\<And>t. hash (g t) = hash t" "\<And>t. revoked t \<noteq> None \<longrightarrow> revoked (g t) = revoked t"
    unfolding evolves_def by metis
  have "sql_find (\<lambda>t. hash t = h) (map g ts) = map_option g (sql_find (\<lambda>t. hash t = h) ts)"
    by (induction ts) (auto simp: sql_find_Cons g(2))
  with assms(2,3) g(3) [of t] show ?thesis by (simp add: g(1) sql_find_append)
qed

interpretation wsrev: forward_only ws_revoked "\<lambda>b. b" "token_step sha pg" for sha pg
proof
  fix db db' h v
  assume a: "token_step sha pg db db'" "ws_revoked db h = Some v" "v"
  from a(2,3) obtain t where t: "sql_find (\<lambda>t. wt_hash t = h) (td_tokens db) = Some t" "wt_revoked t \<noteq> None"
    by (auto simp: ws_revoked_def)
  from token_step_evolves [OF a(1)] have "ws_evolves (td_tokens db) (td_tokens db')" by blast
  from evolves_find [OF this t] show "ws_revoked db' h = Some v" using a(3) by (auto simp: ws_revoked_def)
qed

interpretation orgrev: forward_only org_revoked "\<lambda>b. b" "token_step sha pg" for sha pg
proof
  fix db db' h v
  assume a: "token_step sha pg db db'" "org_revoked db h = Some v" "v"
  from a(2,3) obtain t where t: "sql_find (\<lambda>t. ot_hash t = h) (td_org_tokens db) = Some t" "ot_revoked t \<noteq> None"
    by (auto simp: org_revoked_def)
  from token_step_evolves [OF a(1)] have "org_evolves (td_org_tokens db) (td_org_tokens db')" by blast
  from evolves_find [OF this t] show "org_revoked db' h = Some v" using a(3) by (auto simp: org_revoked_def)
qed

lemma ws_revoked_rejects:
  assumes "tokens_ok db" and "ws_revoked db (sha p) = Some True"
  shows "lookupTokenByHash f (sha p) db = Inl ErrInvalidToken"
proof -
  from assms(2) obtain t where t: "t \<in> set (td_tokens db)" "wt_hash t = sha p" "wt_revoked t \<noteq> None"
    unfolding ws_revoked_def by (auto dest: sql_find_Some_iff)
  have "\<not> (wt_hash x = sha p \<and> live_row db x)" if "x \<in> set (td_tokens db)" for x
    using unique_key_eq [of wt_hash "td_tokens db" x t] assms(1) that t by (auto simp: tokens_ok_def live_row_def)
  then show ?thesis by (auto simp: lookupTokenByHash_def sql_find_None_iff split: option.splits dest: sql_find_Some_iff)
qed

lemma org_revoked_rejects:
  assumes "tokens_ok db" and "org_revoked db (sha p) = Some True"
  shows "fst (Validate sha f b a now p rc actor au db) = Inl ErrInvalidToken"
proof -
  from assms(2) obtain t where t: "t \<in> set (td_org_tokens db)" "ot_hash t = sha p" "ot_revoked t \<noteq> None"
    unfolding org_revoked_def by (auto dest: sql_find_Some_iff)
  have "\<not> (ot_hash x = sha p \<and> ot_revoked x = None)" if "x \<in> set (td_org_tokens db)" for x
    using unique_key_eq [of ot_hash "td_org_tokens db" x t] assms(1) that t by (auto simp: tokens_ok_def)
  then have "sql_find (\<lambda>t. ot_hash t = sha p \<and> ot_revoked t = None) (td_org_tokens db) = None" by (simp add: sql_find_None_iff)
  then show ?thesis by (simp add: Validate_def)
qed

lemma revoke_where_marks:
  assumes "tokens_ok db" and "t \<in> set (td_tokens db)" and "P t"
  shows "ws_revoked (revoke_where now P db) (wt_hash t) = Some True"
proof -
  from assms(1,2) have "sql_find (\<lambda>x. wt_hash x = wt_hash t) (td_tokens db) = Some t"
    by (intro sql_find_key) (auto simp: tokens_ok_def)
  with assms(3) show ?thesis by (auto simp: ws_revoked_def revoke_where_def sql_find_sql_update)
qed

lemma revoke_where_ok: "tokens_ok db \<Longrightarrow> tokens_ok (revoke_where now P db)"
  by (simp add: tokens_ok_def revoke_where_def unique_key_sql_update)

lemma org_revoke_marks:
  assumes "tokens_ok db" and "Revoke pg f a now i rc actor db = (Inr True, db1)" and "pg i = Some (ot_id t)" and "t \<in> set (td_org_tokens db)"
  shows "org_revoked db1 (ot_hash t) = Some True \<and> tokens_ok db1"
proof -
  let ?P = "\<lambda>x. ot_id x = ot_id t \<and> ot_revoked x = None" and ?f = "\<lambda>x. x\<lparr>ot_revoked := Some now\<rparr>"
  from assms(2,3) have t1: "td_org_tokens db1 = sql_update ?P ?f (td_org_tokens db)" "td_tokens db1 = td_tokens db"
    by (auto simp: Revoke_def split: if_splits)
  from assms(1,4) have "sql_find (\<lambda>x. ot_hash x = ot_hash t) (td_org_tokens db) = Some t"
    by (intro sql_find_key) (auto simp: tokens_ok_def)
  then have "org_revoked db1 (ot_hash t) = Some True" by (auto simp: org_revoked_def t1 sql_find_sql_update)
  moreover from assms(1) have "tokens_ok db1" by (simp add: tokens_ok_def t1 unique_key_sql_update)
  ultimately show ?thesis by blast
qed

lemma revoke_all_lookup:
  assumes "tokens_ok db" and "RevokeAllForWorkspace pg f now ws db = (Inr (), db1)" and "t \<in> set (td_tokens db)"
    and "pg ws = Some (wt_workspace t)" and "wt_hash t = sha p" and "(token_step sha pg)\<^sup>*\<^sup>* db1 db2"
  shows "lookupTokenByHash f' (sha p) db2 = Inl ErrInvalidToken"
proof -
  from assms(2,4) have db1: "db1 = revoke_where now (\<lambda>x. wt_workspace x = wt_workspace t) db"
    by (auto simp: RevokeAllForWorkspace_def split: if_splits)
  from assms(5) have "ws_revoked db1 (sha p) = Some True" using revoke_where_marks [OF assms(1,3)] by (simp add: db1)
  then have "ws_revoked db2 (sha p) = Some True" using wsrev.terminal_kept_star [OF assms(6)] by blast
  moreover have "tokens_ok db2" using tokens_ok_steps [OF assms(6)] revoke_where_ok [OF assms(1)] by (simp add: db1)
  ultimately show ?thesis by (intro ws_revoked_rejects)
qed

lemma org_revoke_validate:
  assumes "tokens_ok db" and "Revoke pg f a now i rc actor db = (Inr True, db1)" and "u \<in> set (td_org_tokens db)"
    and "pg i = Some (ot_id u)" and "ot_hash u = sha p" and "(token_step sha pg)\<^sup>*\<^sup>* db1 db2"
  shows "fst (Validate sha f' b a' later p rc' actor' au db2) = Inl ErrInvalidToken"
proof -
  from org_revoke_marks [OF assms(1,2,4,3)] assms(5) have "org_revoked db1 (sha p) = Some True" "tokens_ok db1" by simp_all
  then have "org_revoked db2 (sha p) = Some True" "tokens_ok db2"
    using orgrev.terminal_kept_star [OF assms(6)] tokens_ok_steps [OF assms(6)] by blast+
  then show ?thesis by (intro org_revoked_rejects)
qed

text \<open>
  C19: revocation is final. Once \<open>RevokeAllForWorkspace\<close> has answered, no token the workspace had
  authenticates again, neither for its workspace nor for any other use, and once \<open>Revoke\<close> has
  reported an organisation token revoked, it never validates again; whatever tokens are issued,
  used and revoked concurrently from then on, whatever happens to the workspaces, whatever fails.
\<close>

theorem revocation_final:
  assumes "tokens_ok db"
  shows "(RevokeAllForWorkspace pg f now ws db = (Inr (), db1) \<and> t \<in> set (td_tokens db) \<and> pg ws = Some (wt_workspace t)
      \<and> wt_hash t = sha p \<and> (token_step sha pg)\<^sup>*\<^sup>* db1 db2 \<longrightarrow>
        fst (ValidateToken sha f' b later w p db2) = Inl ErrInvalidToken
        \<and> fst (ValidateAnyToken sha f' b later p db2) = Inl ErrInvalidToken
        \<and> WorkspaceFromToken sha f' p db2 = Inl ErrInvalidToken)
    \<and> (Revoke pg f a now i rc actor db = (Inr True, db1) \<and> u \<in> set (td_org_tokens db) \<and> pg i = Some (ot_id u)
      \<and> ot_hash u = sha p \<and> (token_step sha pg)\<^sup>*\<^sup>* db1 db2 \<longrightarrow>
        fst (Validate sha f' b a' later p rc' actor' au db2) = Inl ErrInvalidToken)"
  using revoke_all_lookup [OF assms, of pg f now ws db1 t sha p db2 f'] org_revoke_validate [OF assms, of pg f a now i rc actor db1 u sha p db2]
  by (auto simp: ValidateToken_def ValidateAnyToken_def WorkspaceFromToken_def)

subsection \<open>Issued tokens validate\<close>

lemma lookup_append:
  assumes "\<forall>t \<in> set (td_tokens db). wt_hash t \<noteq> h" and "td_tokens db' = td_tokens db @ [n]" and "wt_hash n = h"
  shows "lookupTokenByHash False h db' = (if live_row db' n then Inr (wt_id n, wt_workspace n) else Inl ErrInvalidToken)"
proof -
  from assms(1) have "sql_find (\<lambda>t. wt_hash t = h \<and> live_row db' t) (td_tokens db) = None" by (simp add: sql_find_None_iff)
  with assms(2,3) show ?thesis by (simp add: lookupTokenByHash_def sql_find_append sql_find_Cons)
qed

lemma issue_row:
  assumes "issueTokenKind sha pg f fresh (Some buf) now ws kind db = (Inr p, db')" and "pg ws = Some w"
  shows "p = b64_encode buf \<and> (\<forall>t \<in> set (td_tokens db). wt_hash t \<noteq> sha p)
    \<and> db' = db\<lparr>td_tokens := td_tokens db @ [\<lparr>wt_id = fresh, wt_workspace = w, wt_hash = sha p, wt_prefix = take 8 p,
        wt_kind = kind, wt_created = now, wt_revoked = None, wt_last_used = None\<rparr>]\<rparr>"
  using assms by (auto simp: issueTokenKind_def Let_def list_ex_iff tokenPrefixLen_def split: if_splits)

text \<open>
  C34: a token that was issued works, for its workspace only. It has 43 characters for its 32
  random bytes, from which the bytes read back; the table keeps its hash and its first 8
  characters. It authenticates its workspace and no other as long as that is not removed, and
  when the instance tokens of the workspace are revoked, an API token survives and an instance
  token does not.
\<close>

theorem issued_token_validates:
  assumes "issueTokenKind sha pg f fresh (Some buf) now ws kind db = (Inr p, db')" and "length buf = 32"
    and "pg ws = Some w" and "w \<noteq> []" and "node (td_workspaces db) w = Some r" and "wn_status r \<noteq> ''removed''"
    and "RevokeInstanceTokensForWorkspace pg False later ws db' = (Inr (), db2)"
  shows "length p = 43 \<and> b64_decode p = Some buf
    \<and> WorkspaceFromToken sha False p db' = Inr w
    \<and> (fst (ValidateToken sha False b later v p db') = Inr () \<longleftrightarrow> v = w)
    \<and> (fst (ValidateToken sha False b later v p db2) = Inr () \<longleftrightarrow> v = w \<and> kind \<noteq> ''instance'')"
proof -
  let ?n = "\<lparr>wt_id = fresh, wt_workspace = w, wt_hash = sha p, wt_prefix = take 8 p,
        wt_kind = kind, wt_created = now, wt_revoked = None, wt_last_used = None\<rparr>"
  from issue_row [OF assms(1,3)] have p: "p = b64_encode buf" and new: "\<forall>t \<in> set (td_tokens db). wt_hash t \<noteq> sha p" by blast+
  from issue_row [OF assms(1,3)] have db': "td_tokens db' = td_tokens db @ [?n]" "td_workspaces db' = td_workspaces db" by simp_all
  have len: "length p = 43" by (simp add: p b64_encode_length assms(2))
  from sql_find_Some_iff [OF assms(5)] assms(6)
  have ex: "list_ex (\<lambda>x. wn_id x = w \<and> wn_status x \<noteq> ''removed'') (td_workspaces db)" by (auto simp: list_ex_iff)
  then have "live_row db' ?n" by (simp add: live_row_def db')
  with lookup_append [OF new db'(1)] have l1: "lookupTokenByHash False (sha p) db' = Inr (fresh, w)" by simp
  let ?g = "\<lambda>t. if (wt_workspace t = w \<and> wt_kind t = ''instance'') \<and> wt_revoked t = None then t\<lparr>wt_revoked := Some later\<rparr> else t"
  from assms(3,7) have db2: "td_tokens db2 = map ?g (td_tokens db) @ [?g ?n]" "td_workspaces db2 = td_workspaces db"
    by (auto simp: RevokeInstanceTokensForWorkspace_def revoke_where_def db' sql_update_def)
  have "\<forall>t \<in> set (td_tokens (db\<lparr>td_tokens := map ?g (td_tokens db)\<rparr>)). wt_hash t \<noteq> sha p" using new by auto
  from lookup_append [OF this, of db2 "?g ?n"] db2
  have l2: "lookupTokenByHash False (sha p) db2 = (if kind = ''instance'' then Inl ErrInvalidToken else Inr (fresh, w))"
    using ex by (auto simp: live_row_def)
  from len have "p \<noteq> []" by auto
  with l1 l2 assms(4) len show ?thesis
    by (auto simp: ValidateToken_def WorkspaceFromToken_def p b64_round_trip)
qed

subsection \<open>The mint ceiling\<close>

inductive serial_run ::
  "(string \<Rightarrow> string) \<Rightarrow> (string \<Rightarrow> string option) \<Rightarrow> int \<Rightarrow> time \<Rightarrow> token_db \<Rightarrow> time \<Rightarrow> token_db \<Rightarrow> bool" for sha pg ceiling t0 db0 where
  serial_start: "serial_run sha pg ceiling t0 db0 t0 db0"
| serial_mint: "serial_run sha pg ceiling t0 db0 t db \<Longrightarrow> t \<le> now \<Longrightarrow>
    serial_run sha pg ceiling t0 db0 now (snd (IssueWithExpiry sha pg cf f a ceiling fresh rnd now name by_whom org exp rc db))"
| serial_other: "serial_run sha pg ceiling t0 db0 t db \<Longrightarrow> t \<le> now \<Longrightarrow> other_step sha pg db db' \<Longrightarrow>
    serial_run sha pg ceiling t0 db0 now db'"

lemma other_step_no_mint: "other_step sha pg db db' \<Longrightarrow> length (td_org_tokens db') = length (td_org_tokens db)"
  by (induction rule: other_step.induct)
    (auto simp: issueTokenKind_def ValidateToken_def ValidateAnyToken_def RevokeAllForWorkspace_def
      RevokeInstanceTokensForWorkspace_def Revoke_token_def Validate_def Revoke_def Let_def bump_org_token_def
      split: option.splits sum.splits prod.splits)

lemma live_count_antimono: "t \<le> t' \<Longrightarrow> live_count t' org db \<le> live_count t org db"
proof -
  assume "t \<le> t'"
  then have "length (filter (\<lambda>x. ot_org x = Some org \<and> org_live t' x) ts) \<le> length (filter (\<lambda>x. ot_org x = Some org \<and> org_live t x) ts)" for ts
    by (induction ts) (auto simp: org_live_def split: option.splits)
  then show ?thesis by (simp add: live_count_def sql_affected_def)
qed

lemma live_count_other:
  assumes "other_step sha pg db db'"
  shows "live_count now org db' \<le> live_count now org db"
proof -
  from other_step_evolves [OF assms] obtain g new where g: "td_org_tokens db' = map g (td_org_tokens db) @ new"
    "\<And>t. ot_org (g t) = ot_org t \<and> ot_expires (g t) = ot_expires t" "\<And>t. ot_revoked t \<noteq> None \<longrightarrow> ot_revoked (g t) = ot_revoked t"
    unfolding evolves_def by (metis prod.inject)
  with other_step_no_mint [OF assms] have "td_org_tokens db' = map g (td_org_tokens db)" by simp
  moreover have "length (filter (\<lambda>t. ot_org t = Some org \<and> org_live now t) (map g ts))
      \<le> length (filter (\<lambda>t. ot_org t = Some org \<and> org_live now t) ts)" for ts
    by (induction ts) (use g(2,3) in \<open>auto simp: org_live_def\<close>)
  ultimately show ?thesis by (simp add: live_count_def sql_affected_def)
qed

lemma mint_insert_tokens:
  "td_org_tokens (snd (mint_insert sha pg f a fresh rnd now name by_whom orgID exp rc db)) = td_org_tokens db
   \<or> (\<exists>n. td_org_tokens (snd (mint_insert sha pg f a fresh rnd now name by_whom orgID exp rc db)) = td_org_tokens db @ [n]
        \<and> ot_org n = Option.bind (nullif_empty orgID) pg)"
  by (cases rnd) (simp_all add: mint_insert_def Let_def)

lemma live_count_mint:
  assumes "0 < ceiling" and "int (live_count now org db) \<le> ceiling"
  shows "int (live_count now org (snd (IssueWithExpiry sha pg cf f a ceiling fresh rnd now name by_whom orgID exp rc db))) \<le> ceiling"
proof (cases "mint_check pg cf ceiling now orgID exp db")
  case (Inl e)
  with assms(2) show ?thesis by (simp add: IssueWithExpiry_def)
next
  case (Inr u)
  let ?db' = "snd (mint_insert sha pg f a fresh rnd now name by_whom orgID exp rc db)"
  consider "td_org_tokens ?db' = td_org_tokens db" | n where "td_org_tokens ?db' = td_org_tokens db @ [n]" "ot_org n = Option.bind (nullif_empty orgID) pg"
    using mint_insert_tokens by blast
  then show ?thesis
  proof cases
    case 1
    with assms(2) Inr show ?thesis by (simp add: IssueWithExpiry_def live_count_def)
  next
    case 2
    show ?thesis
    proof (cases "ot_org n = Some org")
      case True
      with 2(2) have "orgID \<noteq> []" "pg orgID = Some org" by (auto simp: nullif_empty_def split: if_splits)
      with Inr assms(1) have "int (live_count now org db) < ceiling" by (auto simp: mint_check_def split: if_splits)
      with Inr 2(1) show ?thesis by (simp add: IssueWithExpiry_def live_count_def sql_affected_def)
    next
      case False
      with assms(2) Inr 2(1) show ?thesis by (simp add: IssueWithExpiry_def live_count_def sql_affected_def)
    qed
  qed
qed

text \<open>
  with mints one after the other the ceiling holds: an organisation that starts at or below
  it never has more valid tokens, whatever is issued, validated or revoked in between and
  however time passes.
\<close>

theorem mint_ceiling_held:
  assumes "serial_run sha pg ceiling t0 db0 t db" and "0 < ceiling" and "int (live_count t0 org db0) \<le> ceiling" and "t \<le> now"
  shows "int (live_count now org db) \<le> ceiling"
proof -
  from assms(1) have "int (live_count t org db) \<le> ceiling"
  proof (induction rule: serial_run.induct)
    case (serial_mint t db now cf f a fresh rnd name by_whom orgID exp rc)
    with live_count_antimono [of t now org db] have "int (live_count now org db) \<le> ceiling" by linarith
    then show ?case by (rule live_count_mint [OF assms(2)])
  next
    case (serial_other t db now db')
    with live_count_antimono [of t now org db] live_count_other [OF serial_other(3), of now org] show ?case by linarith
  qed (rule assms(3))
  with live_count_antimono [OF assms(4), of org db] show ?thesis by linarith
qed

text \<open>The count and the insert are two statements: two mints that count before either inserts exceed it.\<close>

definition org_ws :: ws_table where
  "org_ws = [\<lparr>wn_id = ''org'', wn_parent = None, wn_name = ''Org'', wn_status = ''online''\<rparr>]"

definition no_tokens :: token_db where
  "no_tokens = \<lparr>td_workspaces = org_ws, td_tokens = [], td_org_tokens = [], td_audit = []\<rparr>"

definition no_req :: AuditLogRequestContext where
  "no_req = \<lparr>IPAddress = [], UserAgent = []\<rparr>"

definition mint_plain :: "string \<Rightarrow> string \<Rightarrow> token_db \<Rightarrow> token_db" where
  "mint_plain fresh buf db = snd (mint_insert id Some False False fresh (Some buf) 0 [] [] ''org'' None no_req db)"

lemma mint_race_exceeds:
  "mint_check Some False 1 0 ''org'' None no_tokens = Inr ()
   \<and> live_count 0 ''org'' (mint_plain ''b'' ''two'' (mint_plain ''a'' ''one'' no_tokens)) = 2"
  by (simp add: mint_check_def live_count_def sql_affected_def mint_plain_def mint_insert_def no_tokens_def org_ws_def no_req_def
      tokenPrefixLen_def nullTimeIfZero_def LogAuditEvent_def org_live_def sql_find_Cons enc6_def nullif_empty_def Let_def)

subsection \<open>Examples\<close>

definition secret_token :: ws_token where
  "secret_token = \<lparr>wt_id = ''t'', wt_workspace = ''org'', wt_hash = ''secret'', wt_prefix = ''secret'', wt_kind = ''api'',
     wt_created = 0, wt_revoked = None, wt_last_used = None\<rparr>"

definition one_token :: token_db where
  "one_token = no_tokens\<lparr>td_tokens := [secret_token]\<rparr>"

lemma one_token_ok: "tokens_ok one_token"
  by (simp add: tokens_ok_def one_token_def no_tokens_def unique_key_def)

theorem revocation_final_witness:
  "fst (ValidateToken id False False 1 ''org'' ''secret'' one_token) = Inr ()
   \<and> fst (ValidateToken id False False 2 ''org'' ''secret'' (snd (RevokeAllForWorkspace Some False 1 ''org'' one_token))) = Inl ErrInvalidToken"
proof -
  have "RevokeAllForWorkspace Some False 1 ''org'' one_token = (Inr (), snd (RevokeAllForWorkspace Some False 1 ''org'' one_token))"
    by (simp add: RevokeAllForWorkspace_def)
  moreover have "secret_token \<in> set (td_tokens one_token)" by (simp add: one_token_def)
  ultimately show ?thesis
    using revocation_final [OF one_token_ok, of Some False 1 "''org''" "snd (RevokeAllForWorkspace Some False 1 ''org'' one_token)"
        secret_token id "''secret''" "snd (RevokeAllForWorkspace Some False 1 ''org'' one_token)" False False 2 "''org''"]
    by (simp add: secret_token_def ValidateToken_def lookupTokenByHash_def one_token_def no_tokens_def live_row_def org_ws_def sql_find_Cons)
qed

definition demo_bytes :: string where "demo_bytes = replicate 32 (CHR ''a'')"

definition issued_db :: token_db where
  "issued_db = snd (issueTokenKind id Some False ''t'' (Some demo_bytes) 0 ''org'' ''api'' no_tokens)"

theorem issued_token_validates_witness:
  "length (b64_encode demo_bytes) = 43
   \<and> fst (ValidateToken id False False 1 ''org'' (b64_encode demo_bytes) issued_db) = Inr ()
   \<and> fst (ValidateToken id False False 1 ''other'' (b64_encode demo_bytes) issued_db) \<noteq> Inr ()"
proof -
  have r: "node (td_workspaces no_tokens) ''org'' = Some \<lparr>wn_id = ''org'', wn_parent = None, wn_name = ''Org'', wn_status = ''online''\<rparr>"
    by (simp add: no_tokens_def org_ws_def sql_find_Cons)
  have i: "issueTokenKind id Some False ''t'' (Some demo_bytes) 0 ''org'' ''api'' no_tokens = (Inr (b64_encode demo_bytes), issued_db)"
    by (simp add: issued_db_def issueTokenKind_def Let_def r) (simp add: no_tokens_def)
  have v: "RevokeInstanceTokensForWorkspace Some False 1 ''org'' issued_db = (Inr (), snd (RevokeInstanceTokensForWorkspace Some False 1 ''org'' issued_db))"
    by (simp add: RevokeInstanceTokensForWorkspace_def)
  have l: "length demo_bytes = 32" by (simp add: demo_bytes_def)
  show ?thesis
    using issued_token_validates [OF i l _ _ r _ v, of False "''org''"] issued_token_validates [OF i l _ _ r _ v, of False "''other''"] by simp
qed

theorem mint_ceiling_held_witness:
  "live_count 0 ''org'' (snd (IssueWithExpiry id Some False False False 1 ''a'' (Some ''one'') 0 [] [] ''org'' None no_req no_tokens)) \<le> 1"
proof -
  have "serial_run id Some 1 0 no_tokens 0
      (snd (IssueWithExpiry id Some False False False 1 ''a'' (Some ''one'') 0 [] [] ''org'' None no_req no_tokens))"
    by (rule serial_mint [OF serial_start]) simp
  from mint_ceiling_held [OF this, of "''org''" 0] show ?thesis
    by (simp add: live_count_def no_tokens_def sql_affected_def)
qed

end
