(* ===== verification/Session_Auth.thy ===== *)
theory Session_Auth
  imports Upload_Names Json_Decode
begin

text \<open>
  Credentials that are checked elsewhere and remembered for a while: browser sessions verified by
  the control plane (\<^verbatim>\<open>internal/middleware/session_auth.go\<close>) and the per-workspace secret the
  platform presents to a workspace (\<^verbatim>\<open>internal/wsauth/platform_inbound.go\<close>).

  A cache is the list of its entries; the order in which Go iterates over the map when it evicts
  is an argument. \<open>ttl_cache\<close> is the contract the three caches share: what is returned was stored
  at most one time-to-live before. The control plane is a parameter, the function from a request
  (URL and cookie) to its answer; \<open>sha\<close> stands for SHA-256.
\<close>

subsection \<open>Entries with a time to live\<close>

type_synonym 'v cache = "(string \<times> time \<times> 'v) list"

definition cache_delete :: "string \<Rightarrow> 'v cache \<Rightarrow> 'v cache" where
  "cache_delete k c = filter (\<lambda>(x, _). x \<noteq> k) c"

definition cache_get :: "time \<Rightarrow> string \<Rightarrow> 'v cache \<Rightarrow> 'v option \<times> 'v cache" where
  "cache_get now k c =
    (case map_of c k of
       None \<Rightarrow> (None, c)
     | Some (expiresAt, v) \<Rightarrow> if now > expiresAt then (None, cache_delete k c) else (Some v, c))"

definition evictBatch :: nat where "evictBatch = 128"

definition cache_put :: "nat \<Rightarrow> string list \<Rightarrow> time \<Rightarrow> string \<Rightarrow> 'v \<Rightarrow> 'v cache \<Rightarrow> 'v cache" where
  "cache_put cap order expiresAt k v c =
    (let kept = (if length c \<ge> cap then filter (\<lambda>(x, _). x \<notin> set (take evictBatch order)) c else c)
     in (k, expiresAt, v) # cache_delete k kept)"

definition cache_sweep :: "time \<Rightarrow> 'v cache \<Rightarrow> 'v cache" where
  "cache_sweep now c = filter (\<lambda>(_, expiresAt, _). \<not> now > expiresAt) c"

subsection \<open>Sessions\<close>

definition sessionCacheTTLOK :: duration where "sessionCacheTTLOK = 30 * second"
definition sessionCacheTTLFail :: duration where "sessionCacheTTLFail = 5 * second"
definition sessionCacheMax :: nat where "sessionCacheMax = 10000"

definition identityCacheTTLOK :: duration where "identityCacheTTLOK = 30 * second"
definition identityCacheTTLFail :: duration where "identityCacheTTLFail = 5 * second"
definition identityCacheMax :: nat where "identityCacheMax = 10000"

record auth_env =
  ADMIN_TOKEN :: string
  CP_UPSTREAM_URL :: string
  MOLECULE_ORG_SLUG :: string
  MOLECULE_ORG_ID :: string
  CANVAS_PROXY_URL :: string

datatype cp_answer = CpUnreachable | CpAnswer int "json option"

text \<open>One call: when it starts, when its answer is stored, what the control plane says, and the iteration order of an eviction.\<close>

record session_call =
  sc_now :: time
  sc_done :: time
  sc_cp :: "string \<Rightarrow> string \<Rightarrow> cp_answer"
  sc_order :: "string list"

definition cacheKey :: "(string \<Rightarrow> string) \<Rightarrow> string \<Rightarrow> string \<Rightarrow> string" where
  "cacheKey sha slug cookie = hex_encode (sha (slug @ [CHR 0x00] @ cookie))"

type_synonym session_cache = "(bool \<times> string) cache"

definition sessionCacheGet :: "time \<Rightarrow> string \<Rightarrow> session_cache \<Rightarrow> (bool \<times> string) option \<times> session_cache" where
  "sessionCacheGet now key c = cache_get now key c"

definition session_ttl :: "bool \<times> string \<Rightarrow> duration" where
  "session_ttl v = (if fst v then sessionCacheTTLOK else sessionCacheTTLFail)"

definition sessionCachePut :: "string list \<Rightarrow> time \<Rightarrow> string \<Rightarrow> bool \<times> string \<Rightarrow> session_cache \<Rightarrow> session_cache" where
  "sessionCachePut order now key v c = cache_put sessionCacheMax order (now + session_ttl v) key v c"

definition sweepExpired :: "time \<Rightarrow> session_cache \<Rightarrow> session_cache" where
  "sweepExpired now c = cache_sweep now c"

definition tenantSlug :: "auth_env \<Rightarrow> string" where
  "tenantSlug env = TrimSpace (MOLECULE_ORG_SLUG env)"

definition trim_slashes :: "string \<Rightarrow> string" where
  "trim_slashes s = rev (dropWhile (\<lambda>c. c = CHR ''/'') (rev s))"

text \<open>\<open>url.QueryEscape\<close>.\<close>

definition queryEscape :: "string \<Rightarrow> string" where
  "queryEscape s = concat (map (\<lambda>c. if c = CHR '' '' then ''+'' else escape_byte c) s)"

definition cpSessionVerifyURL :: "auth_env \<Rightarrow> string \<Rightarrow> string" where
  "cpSessionVerifyURL env slug =
    (let base = trim_slashes (CP_UPSTREAM_URL env)
     in if base = [] then [] else base @ ''/cp/auth/tenant-member?slug='' @ queryEscape slug)"

definition decode_member :: "json \<Rightarrow> (bool \<times> string) option" where
  "decode_member j =
    (case (decode_field ''member'' decode_bool j False, decode_field ''user_id'' decode_string j []) of
       (Some m, Some u) \<Rightarrow> Some (m, u) | _ \<Rightarrow> None)"

text \<open>The verdict the answer is stored as; an answer that did not arrive is not stored.\<close>

definition member_verdict :: "cp_answer \<Rightarrow> (bool \<times> string) option" where
  "member_verdict ans =
    (case ans of
       CpUnreachable \<Rightarrow> None
     | CpAnswer status bodyJ \<Rightarrow>
        if status \<noteq> 200 then Some (False, [])
        else case Option.bind bodyJ decode_member of
            None \<Rightarrow> Some (False, [])
          | Some (m, u) \<Rightarrow> if \<not> m \<or> u = [] then Some (False, []) else Some (True, u))"

definition VerifiedCPSession ::
  "(string \<Rightarrow> string) \<Rightarrow> auth_env \<Rightarrow> session_call \<Rightarrow> string \<Rightarrow> session_cache \<Rightarrow> (bool \<times> bool \<times> string) \<times> session_cache" where
  "VerifiedCPSession sha env cl cookieHeader c =
    (if cookieHeader = [] then ((False, False, []), c)
     else let slug = tenantSlug env in
       if slug = [] then ((False, False, []), c)
       else let verifyURL = cpSessionVerifyURL env slug in
         if verifyURL = [] then ((False, True, []), c)
         else let key = cacheKey sha slug cookieHeader in
           (case sessionCacheGet (sc_now cl) key c of
              (Some (ok, uid), c') \<Rightarrow> ((ok, True, uid), c')
            | (None, c') \<Rightarrow>
               (case member_verdict (sc_cp cl verifyURL cookieHeader) of
                  None \<Rightarrow> ((False, True, []), c')
                | Some (ok, uid) \<Rightarrow> ((ok, True, uid), sessionCachePut (sc_order cl) (sc_done cl) key (ok, uid) c'))))"

subsection \<open>Identities\<close>

type_synonym identity_cache = "(string \<times> string \<times> bool) cache"

definition identityCacheGet :: "time \<Rightarrow> string \<Rightarrow> identity_cache \<Rightarrow> (string \<times> string \<times> bool) option \<times> identity_cache" where
  "identityCacheGet now key c = cache_get now key c"

definition identity_ttl :: "string \<times> string \<times> bool \<Rightarrow> duration" where
  "identity_ttl v = (if snd (snd v) then identityCacheTTLOK else identityCacheTTLFail)"

definition identityCachePut :: "string list \<Rightarrow> time \<Rightarrow> string \<Rightarrow> string \<times> string \<times> bool \<Rightarrow> identity_cache \<Rightarrow> identity_cache" where
  "identityCachePut order now key v c = cache_put identityCacheMax order (now + identity_ttl v) key v c"

definition sweepExpiredIdentity :: "time \<Rightarrow> identity_cache \<Rightarrow> identity_cache" where
  "sweepExpiredIdentity now c = cache_sweep now c"

definition decode_identity :: "json \<Rightarrow> (string \<times> string) option" where
  "decode_identity j =
    (case (decode_field ''user_id'' decode_string j [], decode_field ''email'' decode_string j []) of
       (Some u, Some e) \<Rightarrow> Some (u, e) | _ \<Rightarrow> None)"

definition identity_verdict :: "cp_answer \<Rightarrow> string \<times> string \<times> bool" where
  "identity_verdict ans =
    (case ans of
       CpUnreachable \<Rightarrow> ([], [], False)
     | CpAnswer status bodyJ \<Rightarrow>
        if status \<noteq> 200 then ([], [], False)
        else case Option.bind bodyJ decode_identity of
            None \<Rightarrow> ([], [], False)
          | Some (u, e) \<Rightarrow> if u = [] \<or> e = [] then ([], [], False) else (u, e, True))"

definition VerifiedCPIdentity ::
  "(string \<Rightarrow> string) \<Rightarrow> auth_env \<Rightarrow> session_call \<Rightarrow> string \<Rightarrow> identity_cache \<Rightarrow> (string \<times> string \<times> bool) \<times> identity_cache" where
  "VerifiedCPIdentity sha env cl cookieHeader c =
    (let slug = tenantSlug env; base = trim_slashes (CP_UPSTREAM_URL env) in
     if cookieHeader = [] \<or> slug = [] \<or> base = [] then (([], [], False), c)
     else let key = cacheKey sha slug cookieHeader in
       (case identityCacheGet (sc_now cl) key c of
          (Some e, c') \<Rightarrow> (e, c')
        | (None, c') \<Rightarrow>
           let e = identity_verdict (sc_cp cl (base @ ''/cp/auth/me'') cookieHeader)
           in (e, identityCachePut (sc_order cl) (sc_done cl) key e c')))"

subsection \<open>The secret of a workspace\<close>

definition inboundSecretCacheTTL :: duration where "inboundSecretCacheTTL = 5 * minute"

record inbound_state =
  in_rows :: "(string \<times> string option) list"
  in_cache :: "string cache"

datatype inbound_error = ErrNoWorkspaceID | ErrNoRandom | ErrPersistSecret | ErrNoInboundSecret | ErrReadSecret

definition inbound_store :: "time \<Rightarrow> string \<Rightarrow> string \<Rightarrow> string cache \<Rightarrow> string cache" where
  "inbound_store now ws s c = (ws, now + inboundSecretCacheTTL, s) # cache_delete ws c"

definition inbound_load :: "time \<Rightarrow> string \<Rightarrow> string cache \<Rightarrow> string option" where
  "inbound_load now ws c =
    (case map_of c ws of Some (expiresAt, s) \<Rightarrow> if now < expiresAt then Some s else None | None \<Rightarrow> None)"

definition IssuePlatformInboundSecret ::
  "(string \<Rightarrow> string) \<Rightarrow> (string \<Rightarrow> string option) \<Rightarrow> bool \<Rightarrow> string option \<Rightarrow> time \<Rightarrow> string \<Rightarrow> inbound_state
     \<Rightarrow> (inbound_error + string) \<times> inbound_state" where
  "IssuePlatformInboundSecret encode pg fails rnd now workspaceID st =
    (if workspaceID = [] then (Inl ErrNoWorkspaceID, st)
     else case rnd of
         None \<Rightarrow> (Inl ErrNoRandom, st)
       | Some buf \<Rightarrow>
          (case pg workspaceID of
             None \<Rightarrow> (Inl ErrPersistSecret, st)
           | Some ws \<Rightarrow>
              if fails then (Inl ErrPersistSecret, st)
              else let plaintext = encode buf
                   in (Inr plaintext, st\<lparr>in_rows := sql_update (\<lambda>r. fst r = ws) (\<lambda>r. (fst r, Some plaintext)) (in_rows st),
                                          in_cache := inbound_store now workspaceID plaintext (in_cache st)\<rparr>)))"

definition ReadPlatformInboundSecret ::
  "(string \<Rightarrow> string option) \<Rightarrow> bool \<Rightarrow> time \<Rightarrow> string \<Rightarrow> inbound_state \<Rightarrow> (inbound_error + string) \<times> inbound_state" where
  "ReadPlatformInboundSecret pg fails now workspaceID st =
    (if workspaceID = [] then (Inl ErrNoWorkspaceID, st)
     else case inbound_load now workspaceID (in_cache st) of
         Some s \<Rightarrow> (Inr s, st)
       | None \<Rightarrow>
          (case pg workspaceID of
             None \<Rightarrow> (Inl ErrReadSecret, st)
           | Some ws \<Rightarrow>
              if fails then (Inl ErrReadSecret, st)
              else case sql_find (\<lambda>r. fst r = ws) (in_rows st) of
                  None \<Rightarrow> (Inl ErrNoInboundSecret, st)
                | Some r \<Rightarrow>
                   (case snd r of
                      None \<Rightarrow> (Inl ErrNoInboundSecret, st)
                    | Some s \<Rightarrow>
                       if s = [] then (Inl ErrNoInboundSecret, st)
                       else (Inr s, st\<lparr>in_cache := inbound_store now workspaceID s (in_cache st)\<rparr>))))"

subsection \<open>The contract of the caches\<close>

text \<open>
  \<open>entry c k e v\<close>: the cache holds \<open>v\<close> under \<open>k\<close> until \<open>e\<close>. Only a store makes an entry, for its
  time to live, and replaces the former one; a lookup returns an entry that has not expired.
\<close>

locale ttl_cache =
  fixes get :: "time \<Rightarrow> string \<Rightarrow> 'c \<Rightarrow> 'v option \<times> 'c"
    and put :: "'x \<Rightarrow> time \<Rightarrow> string \<Rightarrow> 'v \<Rightarrow> 'c \<Rightarrow> 'c"
    and sweep :: "time \<Rightarrow> 'c \<Rightarrow> 'c"
    and entry :: "'c \<Rightarrow> string \<Rightarrow> time \<Rightarrow> 'v \<Rightarrow> bool"
    and ttl :: "'v \<Rightarrow> duration"
  assumes get_hit: "get now k c = (Some v, c') \<Longrightarrow> \<exists>e. entry c k e v \<and> now \<le> e"
    and get_kept: "entry (snd (get now k c)) l e v \<Longrightarrow> entry c l e v"
    and put_other: "entry (put x now k v c) l e w \<Longrightarrow> l \<noteq> k \<Longrightarrow> entry c l e w"
    and put_own: "entry (put x now k v c) k e w \<Longrightarrow> w = v \<and> e = now + ttl v"
    and sweep_kept: "entry (sweep now c) l e v \<Longrightarrow> entry c l e v"
begin

definition recent :: "(time \<times> string \<times> 'v) set \<Rightarrow> 'c \<Rightarrow> bool" where
  "recent log c = (\<forall>k e v. entry c k e v \<longrightarrow> (\<exists>t. (t, k, v) \<in> log \<and> e = t + ttl v))"

lemma recent_get: "recent log c \<Longrightarrow> recent log (snd (get now k c))"
  using get_kept by (fastforce simp: recent_def)

lemma recent_sweep: "recent log c \<Longrightarrow> recent log (sweep now c)"
  using sweep_kept by (fastforce simp: recent_def)

lemma recent_put: "recent log c \<Longrightarrow> recent (insert (now, k, v) log) (put x now k v c)"
  using put_other put_own by (fastforce simp: recent_def)

lemma recent_mono: "recent log c \<Longrightarrow> log \<subseteq> log' \<Longrightarrow> recent log' c"
  by (fastforce simp: recent_def)

lemma hit_recent:
  assumes "recent log c" and "get now k c = (Some v, c')"
  shows "\<exists>t. (t, k, v) \<in> log \<and> now \<le> t + ttl v"
  using get_hit [OF assms(2)] assms(1) unfolding recent_def by blast

end

definition cache_entry :: "'v cache \<Rightarrow> string \<Rightarrow> time \<Rightarrow> 'v \<Rightarrow> bool" where
  "cache_entry c k e v = ((k, e, v) \<in> set c)"

lemma cache_get_hit: "cache_get now k c = (Some v, c') \<Longrightarrow> \<exists>e. cache_entry c k e v \<and> now \<le> e"
  by (auto simp: cache_get_def cache_entry_def split: option.splits if_splits) (meson map_of_SomeD not_le_imp_less)

lemma cache_get_kept: "cache_entry (snd (cache_get now k c)) l e v \<Longrightarrow> cache_entry c l e v"
  by (auto simp: cache_get_def cache_entry_def cache_delete_def split: option.splits if_splits)

lemma cache_put_other: "cache_entry (cache_put cap order ex k v c) l e w \<Longrightarrow> l \<noteq> k \<Longrightarrow> cache_entry c l e w"
  by (auto simp: cache_put_def Let_def cache_entry_def cache_delete_def split: if_splits)

lemma cache_put_own: "cache_entry (cache_put cap order ex k v c) k e w \<Longrightarrow> w = v \<and> e = ex"
  by (auto simp: cache_put_def Let_def cache_entry_def cache_delete_def)

lemma cache_sweep_kept: "cache_entry (cache_sweep now c) l e v \<Longrightarrow> cache_entry c l e v"
  by (auto simp: cache_sweep_def cache_entry_def)

interpretation sess: ttl_cache sessionCacheGet sessionCachePut sweepExpired cache_entry session_ttl
  by unfold_locales
    (unfold sessionCacheGet_def sessionCachePut_def sweepExpired_def, (rule cache_get_hit cache_get_kept cache_put_other cache_put_own cache_sweep_kept, assumption+)+)

interpretation ident: ttl_cache identityCacheGet identityCachePut sweepExpiredIdentity cache_entry identity_ttl
  by unfold_locales
    (unfold identityCacheGet_def identityCachePut_def sweepExpiredIdentity_def, (rule cache_get_hit cache_get_kept cache_put_other cache_put_own cache_sweep_kept, assumption+)+)

interpretation inbound: ttl_cache "\<lambda>now k c. (inbound_load now k c, c)" "\<lambda>(_ :: unit). inbound_store" "\<lambda>_ c. c" cache_entry "\<lambda>_. inboundSecretCacheTTL"
proof (unfold_locales, goal_cases)
  case (1 now k c v c')
  then show ?case
    by (auto simp: inbound_load_def cache_entry_def split: option.splits if_splits dest!: map_of_SomeD intro: less_imp_le)
qed (auto simp: inbound_store_def cache_entry_def cache_delete_def)

subsection \<open>Sessions are fresh\<close>

text \<open>
  A run of the verifier: the log holds what the control plane confirmed, with the time the answer
  arrived. An eviction iterates over the keys that are there.
\<close>

definition session_key :: "(string \<Rightarrow> string) \<Rightarrow> auth_env \<Rightarrow> string \<Rightarrow> string" where
  "session_key sha env cookie = cacheKey sha (tenantSlug env) cookie"

definition asks :: "(string \<Rightarrow> string) \<Rightarrow> auth_env \<Rightarrow> session_call \<Rightarrow> string \<Rightarrow> session_cache \<Rightarrow> bool" where
  "asks sha env cl cookie c = (cookie \<noteq> [] \<and> tenantSlug env \<noteq> [] \<and> cpSessionVerifyURL env (tenantSlug env) \<noteq> []
     \<and> fst (sessionCacheGet (sc_now cl) (session_key sha env cookie) c) = None)"

definition verdict :: "auth_env \<Rightarrow> session_call \<Rightarrow> string \<Rightarrow> (bool \<times> string) option" where
  "verdict env cl cookie = member_verdict (sc_cp cl (cpSessionVerifyURL env (tenantSlug env)) cookie)"

inductive session_run :: "(string \<Rightarrow> string) \<Rightarrow> auth_env \<Rightarrow> (time \<times> string \<times> bool \<times> string) list \<Rightarrow> session_cache \<Rightarrow> bool"
  for sha env where
  run_start: "session_run sha env [] []"
| run_cached: "session_run sha env log c \<Longrightarrow> \<not> asks sha env cl cookie c \<Longrightarrow>
    session_run sha env log (snd (VerifiedCPSession sha env cl cookie c))"
| run_lost: "session_run sha env log c \<Longrightarrow> asks sha env cl cookie c \<Longrightarrow> verdict env cl cookie = None \<Longrightarrow>
    session_run sha env log (snd (VerifiedCPSession sha env cl cookie c))"
| run_answered: "session_run sha env log c \<Longrightarrow> asks sha env cl cookie c \<Longrightarrow> verdict env cl cookie = Some v \<Longrightarrow>
    set (sc_order cl) = fst ` set (snd (sessionCacheGet (sc_now cl) (session_key sha env cookie) c)) \<Longrightarrow>
    session_run sha env ((sc_done cl, cookie, v) # log) (snd (VerifiedCPSession sha env cl cookie c))"
| run_sweep: "session_run sha env log c \<Longrightarrow> session_run sha env log (sweepExpired now c)"

lemma VerifiedCPSession_cached:
  assumes "\<not> asks sha env cl cookie c"
  shows "(\<exists>v c'. sessionCacheGet (sc_now cl) (session_key sha env cookie) c = (Some v, c')
            \<and> VerifiedCPSession sha env cl cookie c = ((fst v, True, snd v), c') \<and> tenantSlug env \<noteq> [])
    \<or> (\<exists>p. VerifiedCPSession sha env cl cookie c = ((False, p, []), c))"
  using assms by (auto simp: asks_def VerifiedCPSession_def session_key_def Let_def split: prod.splits option.splits)

lemma VerifiedCPSession_asks:
  assumes "asks sha env cl cookie c"
  shows "VerifiedCPSession sha env cl cookie c =
    (let c' = snd (sessionCacheGet (sc_now cl) (session_key sha env cookie) c)
     in case verdict env cl cookie of
          None \<Rightarrow> ((False, True, []), c')
        | Some v \<Rightarrow> ((fst v, True, snd v), sessionCachePut (sc_order cl) (sc_done cl) (session_key sha env cookie) v c'))"
  using assms
  by (auto simp: asks_def VerifiedCPSession_def session_key_def verdict_def Let_def split: prod.splits option.splits)

definition key_log :: "(string \<Rightarrow> string) \<Rightarrow> auth_env \<Rightarrow> (time \<times> string \<times> bool \<times> string) list \<Rightarrow> (time \<times> string \<times> bool \<times> string) set" where
  "key_log sha env log = (\<lambda>(t, cookie, v). (t, session_key sha env cookie, v)) ` set log"

lemma session_run_recent: "session_run sha env log c \<Longrightarrow> sess.recent (key_log sha env log) c"
proof (induction rule: session_run.induct)
  case run_start
  then show ?case unfolding sess.recent_def by (simp add: cache_entry_def)
next
  case (run_cached log c cl cookie)
  from VerifiedCPSession_cached [OF run_cached(2)] run_cached(3) show ?case
    using sess.recent_get [OF run_cached(3)] by (metis snd_conv)
next
  case (run_lost log c cl cookie)
  then show ?case using sess.recent_get [OF run_lost(4)] by (simp add: VerifiedCPSession_asks Let_def)
next
  case (run_answered log c cl cookie v)
  have "key_log sha env ((sc_done cl, cookie, v) # log) = insert (sc_done cl, session_key sha env cookie, v) (key_log sha env log)"
    by (simp add: key_log_def)
  with run_answered show ?case
    using sess.recent_put [OF sess.recent_get [OF run_answered(5)]] by (simp add: VerifiedCPSession_asks Let_def)
qed (rule sess.recent_sweep)

text \<open>The cache never holds more than its maximum.\<close>

definition cache_ok :: "session_cache \<Rightarrow> bool" where
  "cache_ok c = (distinct (map fst c) \<and> length c \<le> sessionCacheMax)"

lemma cache_filter_ok: "cache_ok c \<Longrightarrow> cache_ok (filter P c)"
  using length_filter_le [of P c] by (auto simp: cache_ok_def distinct_map_filter simp del: length_filter_le)

lemma cache_get_ok: "cache_ok c \<Longrightarrow> cache_ok (snd (sessionCacheGet now k c))"
  by (auto simp: sessionCacheGet_def cache_get_def cache_delete_def split: option.splits intro: cache_filter_ok)

lemma cache_put_ok:
  assumes "cache_ok c" and "set order = fst ` set c"
  shows "cache_ok (sessionCachePut order now k v c)"
proof -
  let ?kept = "if length c \<ge> sessionCacheMax then filter (\<lambda>(x, _). x \<notin> set (take evictBatch order)) c else c"
  have "length ?kept < sessionCacheMax"
  proof (cases "length c \<ge> sessionCacheMax")
    case True
    then have "c \<noteq> []" by (auto simp: sessionCacheMax_def)
    with assms(2) obtain o1 os where o1: "order = o1 # os" by (cases order) auto
    have "o1 \<in> fst ` set c" unfolding assms(2) [symmetric] o1 by simp
    then obtain x where x: "x \<in> set c" "fst x = o1" by auto
    have "length (filter (\<lambda>(x, _). x \<notin> set (take evictBatch order)) c) < length c"
      by (rule length_filter_less [OF x(1)]) (use x(2) in \<open>auto simp: o1 evictBatch_def split: prod.splits\<close>)
    with True assms(1) show ?thesis by (simp add: cache_ok_def)
  qed simp
  moreover have "cache_ok ?kept" using assms(1) by (simp add: cache_filter_ok)
  moreover have "length (cache_delete k ?kept) \<le> length ?kept" by (simp add: cache_delete_def)
  moreover have "distinct (map fst (cache_delete k ?kept))" and "k \<notin> fst ` set (cache_delete k ?kept)"
    using cache_filter_ok [OF \<open>cache_ok ?kept\<close>] by (auto simp: cache_delete_def cache_ok_def)
  ultimately show ?thesis by (simp add: sessionCachePut_def cache_put_def Let_def cache_ok_def)
qed

lemma session_run_ok: "session_run sha env log c \<Longrightarrow> cache_ok c"
proof (induction rule: session_run.induct)
  case (run_cached log c cl cookie)
  from VerifiedCPSession_cached [OF run_cached(2)] run_cached(3) cache_get_ok [OF run_cached(3)] show ?case by (metis snd_conv)
next
  case (run_lost log c cl cookie)
  then show ?case using cache_get_ok [OF run_lost(4)] by (simp add: VerifiedCPSession_asks Let_def)
next
  case (run_answered log c cl cookie v)
  then show ?case using cache_put_ok [OF cache_get_ok [OF run_answered(5)]] by (simp add: VerifiedCPSession_asks Let_def)
next
  case (run_sweep log c now)
  then show ?case by (simp add: sweepExpired_def cache_sweep_def cache_filter_ok)
qed (simp add: cache_ok_def)

text \<open>
  a session is as fresh as its cache entry. Whatever calls, sweeps and evictions came before,
  an accepted session carries a user id the control plane confirmed as a member of this tenant,
  either in this very call or at most 30 seconds earlier for the same cache key; nothing is
  accepted without a tenant slug, and the cache stays within its bound.
\<close>

theorem session_confirmed:
  assumes "session_run sha env log c" and "VerifiedCPSession sha env cl cookie c = ((True, p, uid), c')"
  shows "tenantSlug env \<noteq> [] \<and> length c \<le> 10000
    \<and> (verdict env cl cookie = Some (True, uid)
       \<or> (\<exists>t cookie'. (t, cookie', True, uid) \<in> set log \<and> session_key sha env cookie' = session_key sha env cookie
            \<and> sc_now cl \<le> t + 30 * second))"
proof -
  have b: "length c \<le> 10000" using session_run_ok [OF assms(1)] by (simp add: cache_ok_def sessionCacheMax_def)
  show ?thesis
  proof (cases "asks sha env cl cookie c")
    case True
    with assms(2) have "verdict env cl cookie = Some (True, uid)"
      by (auto simp: VerifiedCPSession_asks Let_def split: option.splits)
    with b True show ?thesis by (simp add: asks_def)
  next
    case False
    from VerifiedCPSession_cached [OF False] assms(2) obtain d where
      g: "sessionCacheGet (sc_now cl) (session_key sha env cookie) c = (Some (True, uid), d)" and s: "tenantSlug env \<noteq> []" by auto
    from sess.hit_recent [OF session_run_recent [OF assms(1)] g] obtain t where
      t: "(t, session_key sha env cookie, True, uid) \<in> key_log sha env log" "sc_now cl \<le> t + 30 * second"
      by (auto simp: session_ttl_def sessionCacheTTLOK_def)
    then show ?thesis using b s by (auto simp: key_log_def)
  qed
qed

definition acme_env :: auth_env where
  "acme_env = \<lparr>ADMIN_TOKEN = ''root-secret'', CP_UPSTREAM_URL = ''https://cp'', MOLECULE_ORG_SLUG = ''acme'', MOLECULE_ORG_ID = ''org'',
     CANVAS_PROXY_URL = []\<rparr>"

definition acme_call :: "time \<Rightarrow> bool \<Rightarrow> session_call" where
  "acme_call now member = \<lparr>sc_now = now, sc_done = now,
     sc_cp = (\<lambda>_ _. CpAnswer 200 (Some (JObj [(''member'', JBool member), (''user_id'', JStr ''u1'')]))), sc_order = []\<rparr>"

definition acme_cache :: session_cache where
  "acme_cache = snd (VerifiedCPSession id acme_env (acme_call 0 True) ''sid=1'' [])"

lemma acme_slug: "tenantSlug acme_env = ''acme''"
  by (simp add: tenantSlug_def acme_env_def TrimSpace_visible visible_def)

lemma acme_verdicts:
  "decode_member (JObj [(''member'', JBool True), (''user_id'', JStr ''u1'')]) = Some (True, ''u1'')"
  "decode_member (JObj [(''member'', JBool False), (''user_id'', JStr ''u1'')]) = Some (False, ''u1'')"
  by code_simp+

lemma acme_first: "asks id acme_env (acme_call 0 True) ''sid=1'' []" "verdict acme_env (acme_call 0 True) ''sid=1'' = Some (True, ''u1'')"
  unfolding asks_def acme_slug
  by (simp_all add: sessionCacheGet_def cache_get_def cpSessionVerifyURL_def Let_def acme_env_def trim_slashes_def
      verdict_def acme_call_def member_verdict_def acme_verdicts)

lemma acme_cached: "acme_cache = [(session_key id acme_env ''sid=1'', 30 * second, True, ''u1'')]"
  unfolding acme_cache_def VerifiedCPSession_asks [OF acme_first(1)]
  by (simp add: acme_first(2)) (simp add: acme_call_def sessionCacheGet_def cache_get_def sessionCachePut_def cache_put_def cache_delete_def
      session_ttl_def sessionCacheTTLOK_def sessionCacheMax_def)

lemma acme_tenant: "tenantSlug acme_env \<noteq> []" "cpSessionVerifyURL acme_env (tenantSlug acme_env) \<noteq> []"
  using acme_first(1) by (simp_all add: asks_def)

text \<open>The entry answers for 30 seconds, whatever the control plane would say by then.\<close>

lemma acme_hit: "VerifiedCPSession id acme_env (acme_call (20 * second) False) ''sid=1'' acme_cache = ((True, True, ''u1''), acme_cache)"
  unfolding acme_cached
  by (simp add: VerifiedCPSession_def Let_def acme_tenant session_key_def sessionCacheGet_def cache_get_def)
    (simp add: acme_call_def second_def)

theorem session_confirmed_witness:
  "\<exists>t cookie'. (t, cookie', True, ''u1'') \<in> set [(0, ''sid=1'', True, ''u1'')]
     \<and> session_key id acme_env cookie' = session_key id acme_env ''sid=1'' \<and> 20 * second \<le> t + 30 * second"
proof -
  have "set (sc_order (acme_call 0 True)) = fst ` set (snd (sessionCacheGet (sc_now (acme_call 0 True)) (session_key id acme_env ''sid=1'') []))"
    by (simp add: acme_call_def sessionCacheGet_def cache_get_def)
  from run_answered [OF run_start acme_first this]
  have r: "session_run id acme_env [(0, ''sid=1'', True, ''u1'')] acme_cache" by (simp add: acme_cache_def) (simp add: acme_call_def)
  have "verdict acme_env (acme_call (20 * second) False) ''sid=1'' = Some (False, [])"
    by (simp add: verdict_def acme_call_def member_verdict_def acme_verdicts)
  then show ?thesis using session_confirmed [OF r acme_hit] by (simp add: acme_call_def)
qed

end
