(* ===== verification/Auth.thy ===== *)
theory Auth
  imports Tokens Session_Auth
begin

text \<open>
  Who may call what: the middlewares of \<^verbatim>\<open>internal/middleware/wsauth_middleware.go\<close>
  (\<open>WorkspaceAuth\<close>, \<open>AdminAuth\<close>, \<open>CanvasOrBearer\<close>) and the routing guard of
  \<^verbatim>\<open>internal/middleware/tenant_guard.go\<close>.

  A middleware takes the request and either aborts it with a status or admits it with what it
  put into the request context. \<open>workspaceOrgRoot\<close> is a recursive query without a bound, so it is
  a partial function: \<open>None\<close> means that the query, and with it the request, does not come back.
  \<open>det\<close> stands for the derivation of an org root id from an organisation id, a version 5 UUID of
  a third-party package.
\<close>

subsection \<open>Requests\<close>

record auth_request =
  hr_id :: string
  hr_path :: string
  hr_host :: string
  hr_authorization :: string
  hr_cookie :: string
  hr_referer :: string
  hr_origin :: string
  hr_org_id :: string
  hr_replay_src :: string

record auth_ctx =
  caller_is_admin_token :: bool
  caller_credential_class :: "string option"
  org_token_id :: "string option"
  org_token_prefix :: "string option"
  ctx_org_id :: "string option"
  authenticated_workspace_id :: "string option"
  cp_session_actor :: "string option"
  cp_session_user_id :: "string option"

definition empty_ctx :: auth_ctx where
  "empty_ctx = \<lparr>caller_is_admin_token = False, caller_credential_class = None, org_token_id = None, org_token_prefix = None,
     ctx_org_id = None, authenticated_workspace_id = None, cp_session_actor = None, cp_session_user_id = None\<rparr>"

datatype auth_outcome = Aborted int string | Admitted auth_ctx

record auth_faults =
  af_probe :: bool
  af_org_lookup :: bool
  af_org_bump :: bool
  af_ws_root :: bool
  af_anchor_root :: bool
  af_token_lookup :: bool
  af_token_bump :: bool

record auth_state =
  as_db :: token_db
  as_sessions :: session_cache

definition platform_unavailable :: string where
  "platform_unavailable = ''platform datastore unavailable '' @ map char_of [226, 128, 148 :: nat] @ '' retry shortly''"

subsection \<open>The organisation of a workspace\<close>

partial_function (option) org_chain_root :: "ws_table \<Rightarrow> string \<Rightarrow> string option option" where
  "org_chain_root tbl i =
    (case node tbl i of
       None \<Rightarrow> Some None
     | Some r \<Rightarrow> (case wn_parent r of None \<Rightarrow> Some (Some (wn_id r)) | Some p \<Rightarrow> org_chain_root tbl p))"

definition workspaceOrgRoot ::
  "(string \<Rightarrow> string option) \<Rightarrow> bool \<Rightarrow> ws_table \<Rightarrow> string \<Rightarrow> (token_error + string) option" where
  "workspaceOrgRoot pg fails tbl workspaceID =
    (if workspaceID = [] then Some (Inr [])
     else if fails then Some (Inl ErrTokenQuery)
     else case pg workspaceID of
         None \<Rightarrow> Some (Inl ErrTokenQuery)
       | Some i \<Rightarrow> map_option (\<lambda>r. Inr (case r of None \<Rightarrow> [] | Some root \<Rightarrow> root)) (org_chain_root tbl i))"

definition anchorMatchesRoot :: "(string \<Rightarrow> string) \<Rightarrow> string \<Rightarrow> string \<Rightarrow> bool" where
  "anchorMatchesRoot det orgAnchor wsRoot =
    (if orgAnchor = [] \<or> wsRoot = [] then False else orgAnchor = wsRoot \<or> det orgAnchor = wsRoot)"

definition orgTokenConfirmedCrossOrg ::
  "(string \<Rightarrow> string option) \<Rightarrow> (string \<Rightarrow> string) \<Rightarrow> auth_faults \<Rightarrow> ws_table \<Rightarrow> string \<Rightarrow> string \<Rightarrow> bool option" where
  "orgTokenConfirmedCrossOrg pg det fl tbl anchor workspaceID =
    Option.bind (workspaceOrgRoot pg (af_ws_root fl) tbl workspaceID) (\<lambda>ws.
      case ws of
        Inl _ \<Rightarrow> Some False
      | Inr wsRoot \<Rightarrow>
          if wsRoot = [] \<or> anchorMatchesRoot det anchor wsRoot then Some False
          else Option.bind (workspaceOrgRoot pg (af_anchor_root fl) tbl anchor) (\<lambda>an.
            case an of
              Inl _ \<Rightarrow> Some False
            | Inr anchorRoot \<Rightarrow> Some (anchorRoot \<noteq> [] \<and> anchorRoot \<noteq> wsRoot)))"

definition cpSessionActor :: "(string \<Rightarrow> string) \<Rightarrow> auth_env \<Rightarrow> string \<Rightarrow> string" where
  "cpSessionActor sha env cookieHeader =
    ''session:'' @ take 16 (hex_encode (sha (tenantSlug env @ [CHR 0x00] @ cookieHeader)))"

subsection \<open>The middlewares\<close>

definition org_ctx :: "string \<Rightarrow> string \<Rightarrow> string \<Rightarrow> auth_ctx" where
  "org_ctx i pre orgID = empty_ctx\<lparr>org_token_id := Some i, org_token_prefix := Some pre, ctx_org_id := nullif_empty orgID\<rparr>"

definition session_ctx :: "(string \<Rightarrow> string) \<Rightarrow> auth_env \<Rightarrow> string \<Rightarrow> string \<Rightarrow> auth_ctx" where
  "session_ctx sha env cookie userID =
    empty_ctx\<lparr>cp_session_actor := Some (cpSessionActor sha env cookie), cp_session_user_id := Some userID\<rparr>"

definition org_bearer ::
  "(string \<Rightarrow> string) \<Rightarrow> auth_faults \<Rightarrow> time \<Rightarrow> string \<Rightarrow> AuditLogRequestContext \<Rightarrow> auth_state
     \<Rightarrow> (token_error + string \<times> string \<times> string) \<times> auth_state" where
  "org_bearer sha fl now tok rc st =
    (case Validate sha (af_org_lookup fl) (af_org_bump fl) False now tok rc [] False (as_db st) of
       (r, db) \<Rightarrow> (r, st\<lparr>as_db := db\<rparr>))"

definition WorkspaceAuth ::
  "(string \<Rightarrow> string) \<Rightarrow> (string \<Rightarrow> string option) \<Rightarrow> (string \<Rightarrow> string) \<Rightarrow> auth_env \<Rightarrow> auth_faults \<Rightarrow> time \<Rightarrow> session_call
     \<Rightarrow> AuditLogRequestContext \<Rightarrow> auth_request \<Rightarrow> auth_state \<Rightarrow> (auth_outcome \<times> auth_state) option" where
  "WorkspaceAuth sha pg det env fl now cl rc rq st =
    (let workspaceID = hr_id rq; tok = BearerTokenFromHeader (hr_authorization rq) in
     if workspaceID = [] then Some (Aborted 401 ''missing workspace ID'', st)
     else if tok \<noteq> [] then
       (if ADMIN_TOKEN env \<noteq> [] \<and> tok = ADMIN_TOKEN env
        then Some (Admitted (empty_ctx\<lparr>caller_is_admin_token := True, caller_credential_class := Some ''admin-token''\<rparr>), st)
        else case org_bearer sha fl now tok rc st of
            (Inr (i, pre, orgID), st') \<Rightarrow>
              (case (if orgID \<noteq> [] then orgTokenConfirmedCrossOrg pg det fl (td_workspaces (as_db st')) orgID workspaceID else Some False) of
                 None \<Rightarrow> None
               | Some crossOrg \<Rightarrow>
                   if crossOrg then Some (Aborted 403 ''org token not authorized for this workspace's org'', st')
                   else Some (Admitted ((org_ctx i pre orgID)\<lparr>caller_credential_class := Some ''org-token''\<rparr>), st'))
          | (Inl ErrInvalidToken, st') \<Rightarrow>
              (case ValidateToken sha (af_token_lookup fl) (af_token_bump fl) now workspaceID tok (as_db st') of
                 (Inl _, db) \<Rightarrow> Some (Aborted 401 ''invalid workspace auth token'', st'\<lparr>as_db := db\<rparr>)
               | (Inr _, db) \<Rightarrow>
                   Some (Admitted (empty_ctx\<lparr>authenticated_workspace_id := Some workspaceID,
                                             caller_credential_class := Some ''workspace-token''\<rparr>), st'\<lparr>as_db := db\<rparr>))
          | (Inl _, st') \<Rightarrow> Some (Aborted 503 platform_unavailable, st'))
     else if hr_cookie rq \<noteq> [] then
       (case VerifiedCPSession sha env cl (hr_cookie rq) (as_sessions st) of
          ((ok, _, userID), c) \<Rightarrow>
            if ok then Some (Admitted ((session_ctx sha env (hr_cookie rq) userID)\<lparr>caller_credential_class := Some ''cp-session''\<rparr>),
                             st\<lparr>as_sessions := c\<rparr>)
            else Some (Aborted 401 ''missing workspace auth token'', st\<lparr>as_sessions := c\<rparr>))
     else Some (Aborted 401 ''missing workspace auth token'', st))"

definition admin_bearer ::
  "(string \<Rightarrow> string) \<Rightarrow> auth_env \<Rightarrow> auth_faults \<Rightarrow> time \<Rightarrow> AuditLogRequestContext \<Rightarrow> auth_request \<Rightarrow> auth_state \<Rightarrow> auth_outcome \<times> auth_state" where
  "admin_bearer sha env fl now rc rq st =
    (let tok = BearerTokenFromHeader (hr_authorization rq) in
     if tok = [] then (Aborted 401 ''admin auth required'', st)
     else case org_bearer sha fl now tok rc st of
         (Inr (i, pre, orgID), st') \<Rightarrow> (Admitted (org_ctx i pre orgID), st')
       | (Inl ErrInvalidToken, st') \<Rightarrow>
           if ADMIN_TOKEN env \<noteq> [] then
             (if tok \<noteq> ADMIN_TOKEN env then (Aborted 401 ''invalid admin auth token'', st')
              else (Admitted (empty_ctx\<lparr>caller_is_admin_token := True, caller_credential_class := Some ''admin-token''\<rparr>), st'))
           else
             (case ValidateAnyToken sha (af_token_lookup fl) (af_token_bump fl) now tok (as_db st') of
                (Inl _, db) \<Rightarrow> (Aborted 401 ''invalid admin auth token'', st'\<lparr>as_db := db\<rparr>)
              | (Inr _, db) \<Rightarrow> (Admitted (empty_ctx\<lparr>caller_is_admin_token := True,
                                   caller_credential_class := Some ''admin-token-tier3-fallback''\<rparr>), st'\<lparr>as_db := db\<rparr>))
       | (Inl _, st') \<Rightarrow> (Aborted 503 platform_unavailable, st'))"

definition AdminAuth ::
  "(string \<Rightarrow> string) \<Rightarrow> auth_env \<Rightarrow> auth_faults \<Rightarrow> time \<Rightarrow> session_call \<Rightarrow> AuditLogRequestContext \<Rightarrow> auth_request \<Rightarrow> auth_state
     \<Rightarrow> auth_outcome \<times> auth_state" where
  "AdminAuth sha env fl now cl rc rq st =
    (case HasAnyLiveTokenGlobal (af_probe fl) (as_db st) of
       Inl _ \<Rightarrow> (Aborted 503 platform_unavailable, st)
     | Inr _ \<Rightarrow>
        if hr_cookie rq \<noteq> [] then
          (case VerifiedCPSession sha env cl (hr_cookie rq) (as_sessions st) of
             ((ok, _, userID), c) \<Rightarrow>
               if ok then (Admitted (session_ctx sha env (hr_cookie rq) userID), st\<lparr>as_sessions := c\<rparr>)
               else admin_bearer sha env fl now rc rq (st\<lparr>as_sessions := c\<rparr>))
        else admin_bearer sha env fl now rc rq st)"

definition isSameOriginCanvas :: "auth_env \<Rightarrow> auth_request \<Rightarrow> bool" where
  "isSameOriginCanvas env rq =
    (let host = hr_host rq; referer = hr_referer rq; origin = hr_origin rq in
     if CANVAS_PROXY_URL env = [] \<or> host = [] then False
     else if referer \<noteq> [] \<and> (prefix (''https://'' @ host @ ''/'') referer \<or> prefix (''http://'' @ host @ ''/'') referer
            \<or> referer = ''https://'' @ host \<or> referer = ''http://'' @ host) then True
     else origin = ''https://'' @ host \<or> origin = ''http://'' @ host)"

definition CanvasOrBearer ::
  "(string \<Rightarrow> string) \<Rightarrow> auth_env \<Rightarrow> auth_faults \<Rightarrow> time \<Rightarrow> auth_request \<Rightarrow> auth_state \<Rightarrow> auth_outcome \<times> auth_state" where
  "CanvasOrBearer sha env fl now rq st =
    (case HasAnyLiveTokenGlobal (af_probe fl) (as_db st) of
       Inl _ \<Rightarrow> (Aborted 503 platform_unavailable, st)
     | Inr _ \<Rightarrow>
        let tok = BearerTokenFromHeader (hr_authorization rq) in
        if tok \<noteq> [] then
          (if ADMIN_TOKEN env \<noteq> [] \<and> tok = ADMIN_TOKEN env then (Admitted empty_ctx, st)
           else case ValidateAnyToken sha (af_token_lookup fl) (af_token_bump fl) now tok (as_db st) of
               (Inl _, db) \<Rightarrow> (Aborted 401 ''invalid admin auth token'', st\<lparr>as_db := db\<rparr>)
             | (Inr _, db) \<Rightarrow> (Admitted empty_ctx, st\<lparr>as_db := db\<rparr>))
        else if isSameOriginCanvas env rq then (Admitted empty_ctx, st)
        else (Aborted 401 ''admin auth required'', st))"

definition cpSessionConfigured :: "auth_env \<Rightarrow> bool" where
  "cpSessionConfigured env = (CP_UPSTREAM_URL env \<noteq> [] \<and> tenantSlug env \<noteq> [])"

definition IsVerifiedCanvasSession ::
  "(string \<Rightarrow> string) \<Rightarrow> auth_env \<Rightarrow> session_call \<Rightarrow> auth_request \<Rightarrow> session_cache \<Rightarrow> bool \<times> session_cache" where
  "IsVerifiedCanvasSession sha env cl rq c =
    (if hr_cookie rq = [] then (False, c)
     else case VerifiedCPSession sha env cl (hr_cookie rq) c of ((valid, _, _), c') \<Rightarrow> (valid, c'))"

subsection \<open>The tenant guard\<close>

definition tenantGuardAllowlist :: "string list" where
  "tenantGuardAllowlist = [''/health'', ''/buildinfo'', ''/metrics'', ''/registry/register'', ''/registry/heartbeat'']"

fun orgIDFromSegments :: "string list \<Rightarrow> string" where
  "orgIDFromSegments [] = []"
| "orgIDFromSegments (seg # segs) =
    (if prefix ''state='' (TrimSpace seg) then drop 6 (TrimSpace seg) else orgIDFromSegments segs)"

definition orgIDFromReplaySrc :: "string \<Rightarrow> string" where
  "orgIDFromReplaySrc header = (if header = [] then [] else orgIDFromSegments (split_on (CHR '';'') header))"

definition TenantGuardWithOrgID :: "auth_env \<Rightarrow> string \<Rightarrow> auth_request \<Rightarrow> (int \<times> string) option" where
  "TenantGuardWithOrgID env configuredOrgID rq =
    (if configuredOrgID = [] then None
     else if hr_path rq \<in> set tenantGuardAllowlist \<or> prefix ''/cp/'' (hr_path rq)
       \<or> hr_org_id rq = configuredOrgID \<or> orgIDFromReplaySrc (hr_replay_src rq) = configuredOrgID \<or> isSameOriginCanvas env rq
     then None
     else if hr_org_id rq = [] \<and> hr_replay_src rq = [] then Some (400, ''missing tenant routing header'')
     else Some (404, []))"

definition TenantGuard :: "auth_env \<Rightarrow> auth_request \<Rightarrow> (int \<times> string) option" where
  "TenantGuard env rq = TenantGuardWithOrgID env (TrimSpace (MOLECULE_ORG_ID env)) rq"

subsection \<open>The walk to the root\<close>

lemma org_chain_root_root: "org_root_at tbl i root d \<Longrightarrow> org_chain_root tbl i = Some (Some root)"
  by (induction rule: org_root_at.induct) (auto simp: org_chain_root.simps dest: sql_find_Some_iff)

lemma org_chain_root_missing: "node tbl i = None \<Longrightarrow> org_chain_root tbl i = Some None"
  by (simp add: org_chain_root.simps)

text \<open>A chain that never leaves a set of rows with parents is walked for ever.\<close>

lemma org_chain_root_cycle:
  assumes "\<And>j. j \<in> S \<Longrightarrow> \<exists>r p. node tbl j = Some r \<and> wn_parent r = Some p \<and> p \<in> S" and "i \<in> S"
  shows "org_chain_root tbl i = None"
proof -
  have "tbl = tbl \<longrightarrow> j \<notin> S" if "org_chain_root tbl j = Some x" for j x
  proof (rule org_chain_root.raw_induct [where P = "\<lambda>t j _. t = tbl \<longrightarrow> j \<notin> S", OF _ that], intro impI notI)
    fix f tbl' j x
    assume IH: "\<And>t j y. f t j = Some y \<Longrightarrow> t = tbl \<longrightarrow> j \<notin> S" and eq: "tbl' = tbl" and "j \<in> S"
      and step: "(case node tbl' j of None \<Rightarrow> Some None
          | Some r \<Rightarrow> (case wn_parent r of None \<Rightarrow> Some (Some (wn_id r)) | Some p \<Rightarrow> f tbl' p)) = Some x"
    from assms(1) [OF \<open>j \<in> S\<close>] obtain r p where r: "node tbl j = Some r" "wn_parent r = Some p" "p \<in> S" by blast
    with step eq have "f tbl' p = Some x" by simp
    with IH eq r(3) show False by blast
  qed
  with assms(2) show ?thesis by (cases "org_chain_root tbl i") auto
qed

lemma org_root_nonempty: "tree_ok tbl \<Longrightarrow> org_root_at tbl i root d \<Longrightarrow> root \<noteq> []"
  using tree_root [OF _ org_root_at_node [OF org_root_is_root]] by blast

lemma workspaceOrgRoot_root:
  "pg ws = Some i \<Longrightarrow> org_root_at tbl i root d \<Longrightarrow> ws \<noteq> [] \<Longrightarrow> workspaceOrgRoot pg False tbl ws = Some (Inr root)"
  by (simp add: workspaceOrgRoot_def org_chain_root_root)

lemma workspaceOrgRoot_returns:
  assumes "tree_ok tbl"
  shows "\<exists>r. workspaceOrgRoot pg f tbl ws = Some r"
proof (cases "pg ws")
  case (Some i)
  have "\<exists>x. org_chain_root tbl i = Some x"
    using tree_root [OF assms, of i] org_chain_root_root org_chain_root_missing by (cases "node tbl i") blast+
  with Some show ?thesis by (auto simp: workspaceOrgRoot_def)
qed (simp add: workspaceOrgRoot_def)

lemma crossOrg_returns:
  assumes "tree_ok tbl"
  shows "orgTokenConfirmedCrossOrg pg det fl tbl anchor ws \<noteq> None"
proof -
  from workspaceOrgRoot_returns [OF assms] obtain r where r: "workspaceOrgRoot pg (af_ws_root fl) tbl ws = Some r" by blast
  from workspaceOrgRoot_returns [OF assms] obtain a where a: "workspaceOrgRoot pg (af_anchor_root fl) tbl anchor = Some a" by blast
  from r a show ?thesis by (cases r; cases a) (simp_all add: orgTokenConfirmedCrossOrg_def del: not_None_eq)
qed

lemma crossOrg_confines:
  assumes "tree_ok tbl" and "\<not> af_ws_root fl" "\<not> af_anchor_root fl"
    and "pg ws = Some w" "node tbl w \<noteq> None" "ws \<noteq> []" and "pg anchor = Some a" "node tbl a \<noteq> None" "anchor \<noteq> []"
  shows "orgTokenConfirmedCrossOrg pg det fl tbl anchor ws = Some False \<longleftrightarrow>
    (\<exists>root d. org_root_at tbl w root d \<and> (anchor = root \<or> det anchor = root \<or> (\<exists>e. org_root_at tbl a root e)))"
proof -
  from tree_root [OF assms(1,5)] tree_root [OF assms(1,8)] obtain rw dw ra da
    where r: "org_root_at tbl w rw dw" "org_root_at tbl a ra da" by blast
  have ne: "rw \<noteq> []" "ra \<noteq> []" using r org_root_nonempty assms(1) by blast+
  have "workspaceOrgRoot pg False tbl ws = Some (Inr rw)" "workspaceOrgRoot pg False tbl anchor = Some (Inr ra)"
    using workspaceOrgRoot_root r assms(4,6,7,9) by blast+
  with assms(2,3,9) ne have "orgTokenConfirmedCrossOrg pg det fl tbl anchor ws = Some False \<longleftrightarrow> anchor = rw \<or> det anchor = rw \<or> ra = rw"
    by (auto simp: orgTokenConfirmedCrossOrg_def anchorMatchesRoot_def)
  also have "\<dots> \<longleftrightarrow> (\<exists>root d. org_root_at tbl w root d \<and> (anchor = root \<or> det anchor = root \<or> (\<exists>e. org_root_at tbl a root e)))"
    using r org_root_at_det by metis
  finally show ?thesis .
qed

subsection \<open>Credentials\<close>

definition org_credential :: "(string \<Rightarrow> string) \<Rightarrow> time \<Rightarrow> string \<Rightarrow> token_db \<Rightarrow> org_token \<Rightarrow> bool" where
  "org_credential sha now tok db t = (t \<in> set (td_org_tokens db) \<and> ot_hash t = sha tok \<and> ot_revoked t = None
     \<and> (case ot_expires t of Some e \<Rightarrow> now \<le> e | None \<Rightarrow> True))"

definition ws_credential :: "(string \<Rightarrow> string) \<Rightarrow> string \<Rightarrow> token_db \<Rightarrow> ws_token \<Rightarrow> bool" where
  "ws_credential sha tok db t = (t \<in> set (td_tokens db) \<and> wt_hash t = sha tok \<and> live_row db t)"

lemma Validate_Inr:
  assumes "tokens_ok db" and "tok \<noteq> []"
  shows "fst (Validate sha f b a now tok rc actor au db) = Inr x \<longleftrightarrow>
    \<not> f \<and> (\<exists>t. org_credential sha now tok db t \<and> x = (ot_id t, ot_prefix t, case ot_org t of Some g \<Rightarrow> g | None \<Rightarrow> []))"
proof (cases "sql_find (\<lambda>t. ot_hash t = sha tok \<and> ot_revoked t = None) (td_org_tokens db)")
  case None
  then have "\<not> org_credential sha now tok db t" for t by (auto simp: org_credential_def sql_find_None_iff)
  with None assms(2) show ?thesis by (simp add: Validate_def)
next
  case (Some t)
  then have t: "t \<in> set (td_org_tokens db)" "ot_hash t = sha tok" "ot_revoked t = None" by (auto dest: sql_find_Some_iff)
  have u: "u = t" if "org_credential sha now tok db u" for u
    using unique_key_eq [of ot_hash "td_org_tokens db" u t] assms(1) that t by (auto simp: org_credential_def tokens_ok_def)
  have "fst (Validate sha f b a now tok rc actor au db) = Inr x \<longleftrightarrow>
      \<not> f \<and> (case ot_expires t of Some e \<Rightarrow> now \<le> e | None \<Rightarrow> True)
      \<and> x = (ot_id t, ot_prefix t, case ot_org t of Some g \<Rightarrow> g | None \<Rightarrow> [])"
    using assms(2) Some by (auto simp: Validate_def split: option.splits)
  also have "\<dots> \<longleftrightarrow> \<not> f \<and> (\<exists>t. org_credential sha now tok db t \<and> x = (ot_id t, ot_prefix t, case ot_org t of Some g \<Rightarrow> g | None \<Rightarrow> []))"
    using u t by (auto simp: org_credential_def)
  finally show ?thesis .
qed

lemma Validate_Inl:
  assumes "tokens_ok db" and "tok \<noteq> []" and "fst (Validate sha f b a now tok rc actor au db) = Inl e"
  shows "f \<or> (\<nexists>t. org_credential sha now tok db t)"
proof (rule ccontr)
  assume "\<not> ?thesis"
  then obtain t where "\<not> f" "org_credential sha now tok db t" by blast
  with Validate_Inr [OF assms(1,2), of sha f b a now rc actor au "(ot_id t, ot_prefix t, case ot_org t of Some g \<Rightarrow> g | None \<Rightarrow> [])"] assms(3)
  show False by auto
qed

lemma Validate_error: "fst (Validate sha f b a now tok rc actor au db) = Inl e \<Longrightarrow> e = ErrInvalidToken"
  by (auto simp: Validate_def split: if_splits option.splits)

lemma Validate_tables:
  "td_workspaces (snd (Validate sha f b a now tok rc actor au db)) = td_workspaces db"
  "td_tokens (snd (Validate sha f b a now tok rc actor au db)) = td_tokens db"
  by (auto simp: Validate_def bump_org_token_def split: option.splits)

lemma lookup_Inr:
  assumes "tokens_ok db"
  shows "lookupTokenByHash f (sha tok) db = Inr x \<longleftrightarrow> \<not> f \<and> (\<exists>t. ws_credential sha tok db t \<and> x = (wt_id t, wt_workspace t))"
proof (cases "sql_find (\<lambda>t. wt_hash t = sha tok \<and> live_row db t) (td_tokens db)")
  case None
  then have "\<not> ws_credential sha tok db t" for t by (auto simp: ws_credential_def sql_find_None_iff)
  with None show ?thesis by (simp add: lookupTokenByHash_def)
next
  case (Some t)
  then have t: "ws_credential sha tok db t" by (auto simp: ws_credential_def dest: sql_find_Some_iff)
  have "u = t" if "ws_credential sha tok db u" for u
    using unique_key_eq [of wt_hash "td_tokens db" u t] assms that t by (simp add: ws_credential_def tokens_ok_def)
  with t have "(\<exists>u. ws_credential sha tok db u \<and> x = (wt_id u, wt_workspace u)) \<longleftrightarrow> x = (wt_id t, wt_workspace t)" by blast
  moreover from Some have "lookupTokenByHash f (sha tok) db = (if f then Inl ErrInvalidToken else Inr (wt_id t, wt_workspace t))"
    by (simp add: lookupTokenByHash_def)
  ultimately show ?thesis by auto
qed

lemma ValidateToken_Inr:
  assumes "tokens_ok db" and "tok \<noteq> []" and "ws \<noteq> []"
  shows "fst (ValidateToken sha f b now ws tok db) = Inr () \<longleftrightarrow> \<not> f \<and> (\<exists>t. ws_credential sha tok db t \<and> wt_workspace t = ws)"
proof (cases "lookupTokenByHash f (sha tok) db")
  case (Inl e)
  with lookup_Inr [OF assms(1), of f sha tok] have "\<not> (\<not> f \<and> (\<exists>t. ws_credential sha tok db t))" by (metis sum.distinct(1))
  with Inl assms(2,3) show ?thesis by (auto simp: ValidateToken_def)
next
  case (Inr x)
  with lookup_Inr [OF assms(1), of f sha tok x] obtain t where t: "\<not> f" "ws_credential sha tok db t" "x = (wt_id t, wt_workspace t)" by blast
  have "(\<exists>u. ws_credential sha tok db u \<and> wt_workspace u = ws) \<longleftrightarrow> wt_workspace t = ws"
    using lookup_Inr [OF assms(1), of f sha tok] Inr t by (metis Inr_inject prod.inject)
  with Inr t(1,3) assms(2,3) show ?thesis by (simp add: ValidateToken_def)
qed

lemma ValidateAnyToken_Inr:
  assumes "tokens_ok db" and "tok \<noteq> []"
  shows "fst (ValidateAnyToken sha f b now tok db) = Inr () \<longleftrightarrow> \<not> f \<and> (\<exists>t. ws_credential sha tok db t)"
proof (cases "lookupTokenByHash f (sha tok) db")
  case (Inl e)
  with lookup_Inr [OF assms(1), of f sha tok] have "\<not> (\<not> f \<and> (\<exists>t. ws_credential sha tok db t))" by (metis sum.distinct(1))
  with Inl assms(2) show ?thesis by (auto simp: ValidateAnyToken_def)
next
  case (Inr x)
  with lookup_Inr [OF assms(1), of f sha tok x] have "\<not> f \<and> (\<exists>t. ws_credential sha tok db t)" by blast
  with Inr assms(2) show ?thesis by (auto simp: ValidateAnyToken_def split: prod.splits)
qed

lemma org_bearer_db:
  assumes "tokens_ok (as_db st)" and "org_bearer sha fl now tok rc st = (r, st')"
  shows "tokens_ok (as_db st') \<and> td_workspaces (as_db st') = td_workspaces (as_db st) \<and> td_tokens (as_db st') = td_tokens (as_db st)
    \<and> ws_credential sha tok' (as_db st') = ws_credential sha tok' (as_db st) \<and> as_sessions st' = as_sessions st
    \<and> r = fst (Validate sha (af_org_lookup fl) (af_org_bump fl) False now tok rc [] False (as_db st))"
proof -
  let ?v = "Validate sha (af_org_lookup fl) (af_org_bump fl) False now tok rc [] False (as_db st)"
  from assms(2) have st': "st' = st\<lparr>as_db := snd ?v\<rparr>" "r = fst ?v" by (auto simp: org_bearer_def split: prod.splits)
  have "token_step sha (\<lambda>_. None) (as_db st) (snd ?v)" by (rule step_other, rule step_org_validate)
  from tokens_ok_step [OF this assms(1)] have "tokens_ok (snd ?v)" .
  then show ?thesis by (simp add: st' Validate_tables ws_credential_def live_row_def fun_eq_iff)
qed

definition admits :: "(auth_outcome \<times> auth_state) option \<Rightarrow> bool" where
  "admits r = (case r of Some (Admitted _, _) \<Rightarrow> True | _ \<Rightarrow> False)"

text \<open>
  C4: \<open>WorkspaceAuth\<close> admits exactly the requests with a credential: for a route with a workspace
  id, a bearer that is the admin token; or one that is a live organisation token which is not
  confirmed to belong to another organisation; or, when it is no organisation token, a live token
  of exactly this workspace; or no bearer and a session the control plane vouches for. A
  datastore failure on the way admits nobody, except that the organisation check lets the token
  pass.
\<close>

theorem workspace_auth_exact:
  assumes "tokens_ok (as_db st)" and "tok = BearerTokenFromHeader (hr_authorization rq)"
  shows "admits (WorkspaceAuth sha pg det env fl now cl rc rq st) \<longleftrightarrow>
    hr_id rq \<noteq> [] \<and>
    ((tok \<noteq> [] \<and> tok = ADMIN_TOKEN env)
     \<or> (tok \<noteq> [] \<and> \<not> af_org_lookup fl
        \<and> (\<exists>t. org_credential sha now tok (as_db st) t
             \<and> (case ot_org t of None \<Rightarrow> True | Some g \<Rightarrow> g = []
                 \<or> orgTokenConfirmedCrossOrg pg det fl (td_workspaces (as_db st)) g (hr_id rq) = Some False)))
     \<or> (tok \<noteq> [] \<and> (af_org_lookup fl \<or> (\<nexists>t. org_credential sha now tok (as_db st) t)) \<and> \<not> af_token_lookup fl
        \<and> (\<exists>t. ws_credential sha tok (as_db st) t \<and> wt_workspace t = hr_id rq))
     \<or> (tok = [] \<and> fst (fst (VerifiedCPSession sha env cl (hr_cookie rq) (as_sessions st)))))"
proof (cases "hr_id rq = [] \<or> tok = [] \<or> tok = ADMIN_TOKEN env")
  case True
  show ?thesis
  proof (cases "hr_id rq = [] \<or> tok \<noteq> []")
    case True
    with \<open>hr_id rq = [] \<or> tok = [] \<or> tok = ADMIN_TOKEN env\<close> show ?thesis
      by (auto simp: WorkspaceAuth_def Let_def assms(2) admits_def)
  next
    case False
    then show ?thesis
      by (cases "hr_cookie rq = []")
        (auto simp: WorkspaceAuth_def Let_def assms(2) admits_def VerifiedCPSession_def [of sha env cl "[]"] split: prod.splits if_splits)
  qed
next
  case False
  then have ne: "hr_id rq \<noteq> []" "tok \<noteq> []" "tok \<noteq> ADMIN_TOKEN env" by auto
  obtain r st' where b: "org_bearer sha fl now tok rc st = (r, st')" by fastforce
  note o' = org_bearer_db [OF assms(1) b]
  show ?thesis
  proof (cases r)
    case (Inl e)
    with o' Validate_error have e: "e = ErrInvalidToken" by metis
    from Inl o' Validate_Inl [OF assms(1) ne(2)] have no: "af_org_lookup fl \<or> (\<nexists>t. org_credential sha now tok (as_db st) t)" by metis
    have "admits (WorkspaceAuth sha pg det env fl now cl rc rq st) \<longleftrightarrow>
        fst (ValidateToken sha (af_token_lookup fl) (af_token_bump fl) now (hr_id rq) tok (as_db st')) = Inr ()"
      using ne b Inl e by (auto simp: WorkspaceAuth_def Let_def assms(2) [symmetric] admits_def split: prod.splits sum.splits)
    also have "\<dots> \<longleftrightarrow> \<not> af_token_lookup fl \<and> (\<exists>t. ws_credential sha tok (as_db st) t \<and> wt_workspace t = hr_id rq)"
      using ValidateToken_Inr [of "as_db st'" tok "hr_id rq"] o' ne by simp
    finally show ?thesis using ne no by auto
  next
    case (Inr x)
    with o' Validate_Inr [OF assms(1) ne(2), of sha "af_org_lookup fl" "af_org_bump fl" False now rc "[]" False x]
    obtain t where t: "\<not> af_org_lookup fl" "org_credential sha now tok (as_db st) t"
      "x = (ot_id t, ot_prefix t, case ot_org t of Some g \<Rightarrow> g | None \<Rightarrow> [])" by metis
    have u: "u = t" if "org_credential sha now tok (as_db st) u" for u
      using unique_key_eq [of ot_hash "td_org_tokens (as_db st)" u t] assms(1) that t(2) by (simp add: org_credential_def tokens_ok_def)
    have "admits (WorkspaceAuth sha pg det env fl now cl rc rq st) \<longleftrightarrow>
       (case ot_org t of None \<Rightarrow> True | Some g \<Rightarrow> g = []
          \<or> orgTokenConfirmedCrossOrg pg det fl (td_workspaces (as_db st)) g (hr_id rq) = Some False)"
      using ne b Inr t(3) o' by (auto simp: WorkspaceAuth_def Let_def assms(2) [symmetric] admits_def split: option.splits if_splits)
    then show ?thesis using ne t(1,2) u by blast
  qed
qed

lemma workspace_auth_org:
  assumes "tokens_ok (as_db st)" and "tok = BearerTokenFromHeader (hr_authorization rq)" and "tok \<noteq> []" and "tok \<noteq> ADMIN_TOKEN env"
    and "hr_id rq \<noteq> []" and "\<not> af_org_lookup fl" and "org_credential sha now tok (as_db st) t" and "ot_org t = Some g" and "g \<noteq> []"
  shows "WorkspaceAuth sha pg det env fl now cl rc rq st = None \<longleftrightarrow>
      orgTokenConfirmedCrossOrg pg det fl (td_workspaces (as_db st)) g (hr_id rq) = None"
    and "admits (WorkspaceAuth sha pg det env fl now cl rc rq st) \<longleftrightarrow>
      orgTokenConfirmedCrossOrg pg det fl (td_workspaces (as_db st)) g (hr_id rq) = Some False"
proof -
  obtain r st' where b: "org_bearer sha fl now tok rc st = (r, st')" by fastforce
  note o' = org_bearer_db [OF assms(1) b]
  from o' Validate_Inr [OF assms(1,3), of sha "af_org_lookup fl" "af_org_bump fl" False now rc "[]" False "(ot_id t, ot_prefix t, g)"]
    assms(6-8) have r: "r = Inr (ot_id t, ot_prefix t, g)" by fastforce
  from o' have "td_workspaces (as_db st') = td_workspaces (as_db st)" by blast
  with b [unfolded r] assms(2-5,9) show "WorkspaceAuth sha pg det env fl now cl rc rq st = None \<longleftrightarrow>
      orgTokenConfirmedCrossOrg pg det fl (td_workspaces (as_db st)) g (hr_id rq) = None"
    "admits (WorkspaceAuth sha pg det env fl now cl rc rq st) \<longleftrightarrow>
      orgTokenConfirmedCrossOrg pg det fl (td_workspaces (as_db st)) g (hr_id rq) = Some False"
    by (auto simp: WorkspaceAuth_def Let_def admits_def split: option.splits)
qed


lemma WorkspaceAuth_None:
  assumes "WorkspaceAuth sha pg det env fl now cl rc rq st = None"
  shows "\<exists>g. orgTokenConfirmedCrossOrg pg det fl (td_workspaces (as_db st)) g (hr_id rq) = None"
proof -
  obtain r st' where b: "org_bearer sha fl now (BearerTokenFromHeader (hr_authorization rq)) rc st = (r, st')" by fastforce
  then have "td_workspaces (as_db st') = td_workspaces (as_db st)"
    using Validate_tables(1) by (auto simp: org_bearer_def split: prod.splits) (metis snd_conv)
  with assms b show ?thesis
    by (auto simp: WorkspaceAuth_def Let_def split: if_splits prod.splits sum.splits option.splits token_error.splits)
qed

text \<open>
  C35: the middleware comes back on a sound tree, and not at all for an anchored organisation token
  on a workspace whose parents form a cycle: its root query has no depth bound.
\<close>

theorem workspace_auth_returns:
  shows "(tree_ok (td_workspaces (as_db st)) \<longrightarrow> WorkspaceAuth sha pg det env fl now cl rc rq st \<noteq> None)
    \<and> (tokens_ok (as_db st) \<and> tok = BearerTokenFromHeader (hr_authorization rq) \<and> tok \<noteq> [] \<and> tok \<noteq> ADMIN_TOKEN env \<and> hr_id rq \<noteq> []
       \<and> \<not> af_org_lookup fl \<and> \<not> af_ws_root fl \<and> org_credential sha now tok (as_db st) t \<and> ot_org t = Some g \<and> g \<noteq> []
       \<and> pg (hr_id rq) = Some w \<and> w \<in> S
       \<and> (\<forall>j \<in> S. \<exists>r p. node (td_workspaces (as_db st)) j = Some r \<and> wn_parent r = Some p \<and> p \<in> S)
       \<longrightarrow> WorkspaceAuth sha pg det env fl now cl rc rq st = None)"
proof (intro conjI impI, goal_cases)
  case 1
  then show ?case using WorkspaceAuth_None crossOrg_returns by metis
next
  case 2
  then have "org_chain_root (td_workspaces (as_db st)) w = None" by (intro org_chain_root_cycle [of S]) auto
  with 2 have "orgTokenConfirmedCrossOrg pg det fl (td_workspaces (as_db st)) g (hr_id rq) = None"
    by (simp add: orgTokenConfirmedCrossOrg_def workspaceOrgRoot_def)
  with 2 show ?case using workspace_auth_org(1) [of st tok rq env fl sha now t g] by blast
qed

lemma admin_bearer_exact:
  assumes "tokens_ok (as_db st)" and "tok = BearerTokenFromHeader (hr_authorization rq)"
  shows "(\<exists>cx st'. admin_bearer sha env fl now rc rq st = (Admitted cx, st')) \<longleftrightarrow> tok \<noteq> [] \<and>
    ((\<not> af_org_lookup fl \<and> (\<exists>t. org_credential sha now tok (as_db st) t))
     \<or> tok = ADMIN_TOKEN env
     \<or> (ADMIN_TOKEN env = [] \<and> \<not> af_token_lookup fl \<and> (\<exists>t. ws_credential sha tok (as_db st) t)))"
proof (cases "tok = []")
  case True
  with assms(2) show ?thesis by (simp add: admin_bearer_def Let_def)
next
  case False
  obtain r st' where b: "org_bearer sha fl now tok rc st = (r, st')" by fastforce
  note o' = org_bearer_db [OF assms(1) b]
  show ?thesis
  proof (cases r)
    case (Inr x)
    with o' Validate_Inr [OF assms(1) False, of sha "af_org_lookup fl" "af_org_bump fl" False now rc "[]" False x]
    have "\<not> af_org_lookup fl \<and> (\<exists>t. org_credential sha now tok (as_db st) t)" by metis
    with b Inr False assms(2) show ?thesis by (cases x) (auto simp: admin_bearer_def Let_def)
  next
    case (Inl e)
    with o' Validate_error have e: "e = ErrInvalidToken" by metis
    from Inl o' Validate_Inl [OF assms(1) False] have no: "af_org_lookup fl \<or> (\<nexists>t. org_credential sha now tok (as_db st) t)" by metis
    have "(\<exists>cx st'. admin_bearer sha env fl now rc rq st = (Admitted cx, st')) \<longleftrightarrow>
        (if ADMIN_TOKEN env \<noteq> [] then tok = ADMIN_TOKEN env
         else fst (ValidateAnyToken sha (af_token_lookup fl) (af_token_bump fl) now tok (as_db st')) = Inr ())"
      using b Inl e False by (auto simp: admin_bearer_def Let_def assms(2) [symmetric] split: prod.splits sum.splits)
    with ValidateAnyToken_Inr [of "as_db st'" tok sha "af_token_lookup fl" "af_token_bump fl" now] o' no False show ?thesis by auto
  qed
qed

text \<open>
  C20: \<open>AdminAuth\<close> admits exactly: a session the control plane vouches for, a live organisation token,
  the admin token, and only where no admin token is configured a live workspace token. A
  datastore that does not answer the probe admits nobody, with or without a credential.
\<close>

theorem admin_auth_exact:
  assumes "tokens_ok (as_db st)" and "tok = BearerTokenFromHeader (hr_authorization rq)"
  shows "(\<exists>cx st'. AdminAuth sha env fl now cl rc rq st = (Admitted cx, st')) \<longleftrightarrow> \<not> af_probe fl \<and>
    (fst (fst (VerifiedCPSession sha env cl (hr_cookie rq) (as_sessions st)))
     \<or> (tok \<noteq> [] \<and> \<not> af_org_lookup fl \<and> (\<exists>t. org_credential sha now tok (as_db st) t))
     \<or> (tok \<noteq> [] \<and> tok = ADMIN_TOKEN env)
     \<or> (tok \<noteq> [] \<and> ADMIN_TOKEN env = [] \<and> \<not> af_token_lookup fl \<and> (\<exists>t. ws_credential sha tok (as_db st) t)))"
proof -
  obtain ok p uid c where v: "VerifiedCPSession sha env cl (hr_cookie rq) (as_sessions st) = ((ok, p, uid), c)"
    by (metis prod_cases3 surj_pair)
  have nc: "hr_cookie rq = [] \<Longrightarrow> \<not> ok" using v by (simp add: VerifiedCPSession_def)
  have "(\<exists>cx st'. AdminAuth sha env fl now cl rc rq st = (Admitted cx, st')) \<longleftrightarrow> \<not> af_probe fl \<and>
      (ok \<or> (\<exists>cx st'. admin_bearer sha env fl now rc rq (if hr_cookie rq = [] then st else st\<lparr>as_sessions := c\<rparr>) = (Admitted cx, st')))"
    using v nc by (auto simp: AdminAuth_def HasAnyLiveTokenGlobal_def)
  also have "\<dots> \<longleftrightarrow> \<not> af_probe fl \<and> (ok \<or> tok \<noteq> [] \<and>
      ((\<not> af_org_lookup fl \<and> (\<exists>t. org_credential sha now tok (as_db st) t)) \<or> tok = ADMIN_TOKEN env
       \<or> (ADMIN_TOKEN env = [] \<and> \<not> af_token_lookup fl \<and> (\<exists>t. ws_credential sha tok (as_db st) t))))"
    using admin_bearer_exact [of "if hr_cookie rq = [] then st else st\<lparr>as_sessions := c\<rparr>" tok rq sha env fl now rc] assms by simp
  finally show ?thesis using v by auto
qed

text \<open>Every bearer \<open>AdminAuth\<close> admits is marked for the approval gate.\<close>

lemma admin_marked:
  assumes "AdminAuth sha env fl now cl rc rq st = (Admitted cx, st')" and "cp_session_actor cx = None"
  shows "caller_is_admin_token cx \<or> org_token_id cx \<noteq> None"
proof -
  have "caller_is_admin_token cx \<or> org_token_id cx \<noteq> None" if "admin_bearer sha env fl now rc rq s = (Admitted cx, st')" for s
    using that by (auto simp: admin_bearer_def Let_def org_ctx_def split: if_splits prod.splits sum.splits token_error.splits)
  with assms show ?thesis
    by (auto simp: AdminAuth_def session_ctx_def split: if_splits prod.splits sum.splits)
qed

subsection \<open>Examples\<close>

definition org_key :: org_token where
  "org_key = \<lparr>ot_id = ''k'', ot_hash = ''key'', ot_prefix = ''key'', ot_name = None, ot_created_by = None, ot_org = Some ''team'', ot_created = 0,
     ot_revoked = None, ot_last_used = None, ot_expires = None\<rparr>"

definition dev_key :: ws_token where
  "dev_key = \<lparr>wt_id = ''t'', wt_workspace = ''dev'', wt_hash = ''dev-key'', wt_prefix = ''dev-key'', wt_kind = ''instance'',
     wt_created = 0, wt_revoked = None, wt_last_used = None\<rparr>"

definition demo_state :: "ws_table \<Rightarrow> auth_state" where
  "demo_state tbl = \<lparr>as_db = \<lparr>td_workspaces = tbl, td_tokens = [dev_key], td_org_tokens = [org_key], td_audit = []\<rparr>, as_sessions = []\<rparr>"

definition demo_request :: "string \<Rightarrow> string \<Rightarrow> auth_request" where
  "demo_request ws tok = \<lparr>hr_id = ws, hr_path = ''/workspaces'', hr_host = ''h'', hr_authorization = ''Bearer '' @ tok, hr_cookie = [],
     hr_referer = [], hr_origin = [], hr_org_id = [], hr_replay_src = []\<rparr>"

definition healthy :: auth_faults where
  "healthy = \<lparr>af_probe = False, af_org_lookup = False, af_org_bump = False, af_ws_root = False, af_anchor_root = False,
     af_token_lookup = False, af_token_bump = False\<rparr>"

definition derived :: "string \<Rightarrow> string" where "derived s = ''agent-of-'' @ s"

lemma demo_ok: "tokens_ok (as_db (demo_state tbl))"
  by (simp add: demo_state_def tokens_ok_def unique_key_def)

lemma demo_bearer: "tok \<in> {''key'', ''dev-key'', ''root-secret''} \<Longrightarrow> BearerTokenFromHeader (hr_authorization (demo_request ws tok)) = tok"
  by (auto simp: BearerTokenFromHeader_def demo_request_def TrimSpace_visible visible_def)

lemma demo_credentials:
  "org_credential id 0 ''key'' (as_db (demo_state tbl)) org_key"
  "\<not> org_credential id 0 ''dev-key'' (as_db (demo_state tbl)) t"
  "ws_credential id ''dev-key'' (as_db (demo_state example_nodes)) dev_key"
  by (auto simp: org_credential_def ws_credential_def demo_state_def org_key_def dev_key_def live_row_def example_nodes_def)

theorem workspace_auth_exact_witness:
  "admits (WorkspaceAuth id Some derived acme_env healthy 0 (acme_call 0 True) no_req (demo_request ''dev'' ''dev-key'') (demo_state example_nodes))
   \<and> \<not> admits (WorkspaceAuth id Some derived acme_env healthy 0 (acme_call 0 True) no_req (demo_request ''team'' ''dev-key'') (demo_state example_nodes))"
proof -
  have b: "''dev-key'' = BearerTokenFromHeader (hr_authorization (demo_request ws ''dev-key''))" for ws using demo_bearer by simp
  have "\<not> (ws_credential id ''dev-key'' (as_db (demo_state example_nodes)) t \<and> wt_workspace t = ''team'')" for t
    by (auto simp: ws_credential_def demo_state_def dev_key_def)
  moreover have "wt_workspace dev_key = ''dev''" by (simp add: dev_key_def)
  ultimately show ?thesis
    using workspace_auth_exact [OF demo_ok b, of id Some derived acme_env healthy 0 "acme_call 0 True" no_req "''dev''"]
      workspace_auth_exact [OF demo_ok b, of id Some derived acme_env healthy 0 "acme_call 0 True" no_req "''team''"]
      demo_credentials by (auto simp: healthy_def demo_request_def acme_env_def)
qed


definition cyclic_nodes :: ws_table where
  "cyclic_nodes = [\<lparr>wn_id = ''a'', wn_parent = Some ''b'', wn_name = ''A'', wn_status = ''online''\<rparr>,
     \<lparr>wn_id = ''b'', wn_parent = Some ''a'', wn_name = ''B'', wn_status = ''online''\<rparr>]"

theorem workspace_auth_returns_witness:
  "WorkspaceAuth id Some derived acme_env healthy 0 (acme_call 0 True) no_req (demo_request ''dev'' ''key'') (demo_state example_nodes) \<noteq> None
   \<and> WorkspaceAuth id Some derived acme_env healthy 0 (acme_call 0 True) no_req (demo_request ''a'' ''key'') (demo_state cyclic_nodes) = None"
proof -
  have t: "tree_ok (td_workspaces (as_db (demo_state example_nodes)))" by (simp add: demo_state_def example_tree)
  have S: "\<forall>j \<in> {''a'', ''b''}. \<exists>r p. node (td_workspaces (as_db (demo_state cyclic_nodes))) j = Some r \<and> wn_parent r = Some p \<and> p \<in> {''a'', ''b''}"
    by (simp add: demo_state_def cyclic_nodes_def sql_find_Cons)
  have "''key'' = BearerTokenFromHeader (hr_authorization (demo_request ''a'' ''key''))" using demo_bearer by simp
  then show ?thesis
    using workspace_auth_returns [of "demo_state example_nodes" id Some derived acme_env healthy 0 "acme_call 0 True" no_req "demo_request ''dev'' ''key''"]
      workspace_auth_returns [of "demo_state cyclic_nodes" id Some derived acme_env healthy 0 "acme_call 0 True" no_req "demo_request ''a'' ''key''"
        "''key''" org_key "''team''" "''a''" "{''a'', ''b''}"] t S demo_ok demo_credentials(1) [of cyclic_nodes]
    by (simp add: healthy_def org_key_def demo_request_def acme_env_def)
qed

theorem admin_auth_exact_witness:
  "(\<exists>cx st'. AdminAuth id acme_env healthy 0 (acme_call 0 True) no_req (demo_request [] ''root-secret'') (demo_state example_nodes) = (Admitted cx, st'))
   \<and> \<not> (\<exists>cx st'. AdminAuth id acme_env healthy 0 (acme_call 0 True) no_req (demo_request [] ''dev-key'') (demo_state example_nodes) = (Admitted cx, st'))"
proof -
  have b: "''root-secret'' = BearerTokenFromHeader (hr_authorization (demo_request [] ''root-secret''))"
    "''dev-key'' = BearerTokenFromHeader (hr_authorization (demo_request [] ''dev-key''))" using demo_bearer by simp_all
  show ?thesis
    unfolding admin_auth_exact [OF demo_ok b(1)] admin_auth_exact [OF demo_ok b(2)]
    by (simp add: healthy_def acme_env_def demo_credentials demo_request_def VerifiedCPSession_def)
qed

end
