(* ===== verification/Rate_Limit.thy ===== *)
theory Rate_Limit
  imports Delegation_Replies
begin

text \<open>
  The request limiters (\<^verbatim>\<open>internal/middleware/ratelimit.go\<close>, \<^verbatim>\<open>mcp_ratelimit.go\<close>, and the
  environment predicate of \<^verbatim>\<open>devmode.go\<close>).

  A limiter is its bucket map; one request under the mutex is one function application, with
  the clock readings of a request taken as one instant. \<open>digest\<close> (SHA-256 of a string, as
  bytes) is a parameter, \<open>ClientIP()\<close> of the HTTP framework is a field of the request. The
  contract of a fixed-window limiter is the locale \<open>window_limiter\<close>, which both limiters
  satisfy for windows of at most ten minutes, the age at which the cleanup forgets a bucket.
\<close>

subsection \<open>Model\<close>

record bucket =
  tokens :: int
  lastReset :: time

record RateLimiter =
  buckets :: "string \<rightharpoonup> bucket"
  rl_rate :: int
  rl_interval :: duration

definition NewRateLimiter :: "int \<Rightarrow> duration \<Rightarrow> RateLimiter" where
  "NewRateLimiter rate interval = \<lparr>buckets = Map.empty, rl_rate = rate, rl_interval = interval\<rparr>"

text \<open>One tick of the cleanup goroutine.\<close>

definition rl_cleanup :: "time \<Rightarrow> RateLimiter \<Rightarrow> RateLimiter" where
  "rl_cleanup now rl = rl\<lparr>buckets := (\<lambda>k. case buckets rl k of
      None \<Rightarrow> None
    | Some b \<Rightarrow> if lastReset b < now - 10 * minute then None else Some b)\<rparr>"

record http_request =
  rq_org :: string
  rq_authorization :: string
  rq_client_ip :: string

definition isLocalDevEnv :: "environment \<Rightarrow> bool" where
  "isLocalDevEnv env = (ascii_lower (TrimSpace (env ''MOLECULE_ENV'')) \<in> {''development'', ''dev''})"

definition bearerFromHeader :: "string \<Rightarrow> string" where
  "bearerFromHeader authHeader =
    (if length authHeader > 7 \<and> ascii_lower (take 7 authHeader) = ''bearer '' then drop 7 authHeader else [])"

definition tokenKey :: "(string \<Rightarrow> string) \<Rightarrow> string \<Rightarrow> string" where
  "tokenKey digest tok =
    hex_encode (digest tok)"

definition keyFor :: "(string \<Rightarrow> string) \<Rightarrow> http_request \<Rightarrow> string" where
  "keyFor digest rq =
    (let orgID = TrimSpace (rq_org rq)
     in if orgID \<noteq> [] then ''org:'' @ orgID
        else let tok = bearerFromHeader (rq_authorization rq)
        in if tok \<noteq> [] then ''tok:'' @ tokenKey digest tok
        else ''ip:'' @ rq_client_ip rq)"

text \<open>
  What the client sees: \<open>rp_status = None\<close> when the request goes on to the next handler.
  \<open>int(d.Seconds())\<close> cut off at zero is the whole number of seconds of \<open>d\<close>.
\<close>

record rl_response =
  rp_status :: "nat option"
  rp_error :: "string option"
  rp_headers :: "(string \<times> string) list"

definition Middleware ::
  "(string \<Rightarrow> string) \<Rightarrow> environment \<Rightarrow> time \<Rightarrow> http_request \<Rightarrow> RateLimiter \<Rightarrow> rl_response \<times> RateLimiter" where
  "Middleware digest env now rq rl =
    (if isLocalDevEnv env
     then (\<lparr>rp_status = None, rp_error = None, rp_headers = [(''X-RateLimit-Limit'', ''unlimited'')]\<rparr>, rl)
     else
       let key = keyFor digest rq;
           b = (case buckets rl key of None \<Rightarrow> \<lparr>tokens = rl_rate rl, lastReset = now\<rparr> | Some b \<Rightarrow> b);
           b = (if now - lastReset b \<ge> rl_interval rl then \<lparr>tokens = rl_rate rl, lastReset = now\<rparr> else b);
           remaining = max 0 (tokens b - 1);
           resetSeconds = max 0 ((lastReset b + rl_interval rl - now) div second);
           headers = [(''X-RateLimit-Limit'', show_int (rl_rate rl)),
                      (''X-RateLimit-Remaining'', show_int remaining),
                      (''X-RateLimit-Reset'', show_int resetSeconds)]
       in if tokens b \<le> 0
          then (\<lparr>rp_status = Some 429, rp_error = Some ''rate limit exceeded'',
                 rp_headers = headers @ [(''Retry-After'', show_int resetSeconds)]\<rparr>,
                rl\<lparr>buckets := (buckets rl)(key \<mapsto> b)\<rparr>)
          else (\<lparr>rp_status = None, rp_error = None, rp_headers = headers\<rparr>,
                rl\<lparr>buckets := (buckets rl)(key \<mapsto> b\<lparr>tokens := tokens b - 1\<rparr>)\<rparr>))"

record MCPRateLimiter =
  mcp_buckets :: "string \<rightharpoonup> bucket"
  mcp_rate :: int
  mcp_interval :: duration

definition NewMCPRateLimiter :: "int \<Rightarrow> duration \<Rightarrow> MCPRateLimiter" where
  "NewMCPRateLimiter rate interval = \<lparr>mcp_buckets = Map.empty, mcp_rate = rate, mcp_interval = interval\<rparr>"

definition mcp_cleanup :: "time \<Rightarrow> MCPRateLimiter \<Rightarrow> MCPRateLimiter" where
  "mcp_cleanup now rl = rl\<lparr>mcp_buckets := (\<lambda>k. case mcp_buckets rl k of
      None \<Rightarrow> None
    | Some b \<Rightarrow> if lastReset b < now - 10 * minute then None else Some b)\<rparr>"

definition MCP_Middleware ::
  "(string \<Rightarrow> string) \<Rightarrow> time \<Rightarrow> http_request \<Rightarrow> MCPRateLimiter \<Rightarrow> rl_response \<times> MCPRateLimiter" where
  "MCP_Middleware digest now rq rl =
    (let tok = bearerFromHeader (rq_authorization rq)
     in if tok = []
        then (\<lparr>rp_status = Some 401, rp_error = Some ''missing bearer token'', rp_headers = []\<rparr>, rl)
        else
          let key = tokenKey digest tok;
              b = (case mcp_buckets rl key of None \<Rightarrow> \<lparr>tokens = mcp_rate rl, lastReset = now\<rparr> | Some b \<Rightarrow> b);
              b = (if now - lastReset b \<ge> mcp_interval rl then \<lparr>tokens = mcp_rate rl, lastReset = now\<rparr> else b);
              remaining = max 0 (tokens b - 1);
              resetSeconds = max 0 ((lastReset b + mcp_interval rl - now) div second);
              headers = [(''X-RateLimit-Limit'', show_int (mcp_rate rl)),
                         (''X-RateLimit-Remaining'', show_int remaining),
                         (''X-RateLimit-Reset'', show_int resetSeconds)]
          in if tokens b \<le> 0
             then (\<lparr>rp_status = Some 429, rp_error = Some ''MCP rate limit exceeded'',
                    rp_headers = headers @ [(''Retry-After'', show_int resetSeconds)]\<rparr>,
                   rl\<lparr>mcp_buckets := (mcp_buckets rl)(key \<mapsto> b)\<rparr>)
             else (\<lparr>rp_status = None, rp_error = None, rp_headers = headers\<rparr>,
                   rl\<lparr>mcp_buckets := (mcp_buckets rl)(key \<mapsto> b\<lparr>tokens := tokens b - 1\<rparr>)\<rparr>))"

text \<open>What happens to a limiter: requests and cleanup ticks, each at an instant.\<close>

datatype rl_event = Request time http_request | Cleanup time

fun event_time :: "rl_event \<Rightarrow> time" where
  "event_time (Request t rq) = t"
| "event_time (Cleanup t) = t"

fun rl_step :: "(string \<Rightarrow> string) \<Rightarrow> environment \<Rightarrow> RateLimiter \<Rightarrow> rl_event \<Rightarrow> RateLimiter" where
  "rl_step digest env rl (Request t rq) = snd (Middleware digest env t rq rl)"
| "rl_step digest env rl (Cleanup t) = rl_cleanup t rl"

fun rl_admits :: "(string \<Rightarrow> string) \<Rightarrow> environment \<Rightarrow> string \<Rightarrow> RateLimiter \<Rightarrow> rl_event \<Rightarrow> bool" where
  "rl_admits digest env k rl (Request t rq) =
    (keyFor digest rq = k \<and> rp_status (fst (Middleware digest env t rq rl)) = None)"
| "rl_admits digest env k rl (Cleanup t) = False"

fun mcp_step :: "(string \<Rightarrow> string) \<Rightarrow> MCPRateLimiter \<Rightarrow> rl_event \<Rightarrow> MCPRateLimiter" where
  "mcp_step digest rl (Request t rq) = snd (MCP_Middleware digest t rq rl)"
| "mcp_step digest rl (Cleanup t) = mcp_cleanup t rl"

fun mcp_admits :: "(string \<Rightarrow> string) \<Rightarrow> string \<Rightarrow> MCPRateLimiter \<Rightarrow> rl_event \<Rightarrow> bool" where
  "mcp_admits digest k rl (Request t rq) =
    (tokenKey digest (bearerFromHeader (rq_authorization rq)) = k
     \<and> rp_status (fst (MCP_Middleware digest t rq rl)) = None)"
| "mcp_admits digest k rl (Cleanup t) = False"

subsection \<open>Fixed-window limiters\<close>

text \<open>Events in order, and the number of them that are admitted along the run.\<close>

fun admitted :: "('s \<Rightarrow> 'e \<Rightarrow> 's) \<Rightarrow> ('s \<Rightarrow> 'e \<Rightarrow> bool) \<Rightarrow> 's \<Rightarrow> 'e list \<Rightarrow> nat" where
  "admitted step adm s [] = 0"
| "admitted step adm s (e # es) = (if adm s e then 1 else 0) + admitted step adm (step s e) es"

text \<open>
  \<open>view s\<close> is the bucket of the key under observation. Inside a window the bucket loses one
  token per admitted request and nothing else changes it; outside, a request may open a new
  window with the full rate, and nothing is admitted without one. \<open>inv\<close> is what the state keeps.
\<close>

locale window_limiter =
  fixes step :: "'s \<Rightarrow> 'e \<Rightarrow> 's" and adm :: "'s \<Rightarrow> 'e \<Rightarrow> bool"
    and clock :: "'e \<Rightarrow> time" and view :: "'s \<Rightarrow> bucket option"
    and inv :: "'s \<Rightarrow> bool" and rate :: int and window :: duration
  assumes rate_pos: "inv s \<Longrightarrow> 0 < rate"
    and inv_step: "inv s \<Longrightarrow> inv (step s e)"
    and inv_view: "inv s \<Longrightarrow> view s = Some b \<Longrightarrow> 0 \<le> tokens b \<and> tokens b \<le> rate"
    and in_window: "inv s \<Longrightarrow> view s = Some b \<Longrightarrow> clock e < lastReset b + window \<Longrightarrow>
      view (step s e) = Some (if adm s e then b\<lparr>tokens := tokens b - 1\<rparr> else b) \<and> (adm s e \<longrightarrow> 0 < tokens b)"
    and out_of_window: "inv s \<Longrightarrow>
      (case view s of None \<Rightarrow> True | Some b \<Rightarrow> lastReset b + window \<le> clock e) \<Longrightarrow>
      (if adm s e then view (step s e) = Some \<lparr>tokens = rate - 1, lastReset = clock e\<rparr>
       else view (step s e) = view s \<or> view (step s e) = None)"
begin

lemma admitted_in_window:
  assumes "inv s" and "view s = Some b" and "\<And>e. e \<in> set es \<Longrightarrow> clock e < lastReset b + window"
  shows "int (admitted step adm s es) \<le> tokens b"
  using assms
proof (induction es arbitrary: s b)
  case Nil
  then show ?case using inv_view by simp
next
  case (Cons e es)
  let ?b = "if adm s e then b\<lparr>tokens := tokens b - 1\<rparr> else b"
  have v: "view (step s e) = Some ?b" "adm s e \<longrightarrow> 0 < tokens b"
    using in_window [OF Cons.prems(1,2), of e] Cons.prems(3) by auto
  have "int (admitted step adm (step s e) es) \<le> tokens ?b"
    using Cons.IH [OF inv_step [OF Cons.prems(1)] v(1)] Cons.prems(3) by auto
  then show ?case by (auto split: if_splits)
qed

text \<open>While no window is open at the times of the events, they share the first window they open.\<close>

lemma admitted_next_window:
  assumes "inv s" and "sorted (map clock es)"
    and "case view s of None \<Rightarrow> True | Some b \<Rightarrow> \<forall>e \<in> set es. lastReset b + window \<le> clock e"
    and "\<And>e e'. e \<in> set es \<Longrightarrow> e' \<in> set es \<Longrightarrow> clock e' < clock e + window"
  shows "int (admitted step adm s es) \<le> rate"
  using assms
proof (induction es arbitrary: s)
  case Nil
  then show ?case using rate_pos [of s] by simp
next
  case (Cons e es)
  have out: "case view s of None \<Rightarrow> True | Some b \<Rightarrow> lastReset b + window \<le> clock e"
    using Cons.prems(3) by (auto split: option.splits)
  note inv' = inv_step [OF Cons.prems(1), of e]
  show ?case
  proof (cases "adm s e")
    case True
    with out_of_window [OF Cons.prems(1) out]
    have "view (step s e) = Some \<lparr>tokens = rate - 1, lastReset = clock e\<rparr>" by simp
    then have "int (admitted step adm (step s e) es) \<le> rate - 1"
      using admitted_in_window [OF inv', of _ es] Cons.prems(4) [of e] by auto
    with True show ?thesis by simp
  next
    case False
    then have "view (step s e) = view s \<or> view (step s e) = None"
      using out_of_window [OF Cons.prems(1) out] by simp
    then have "case view (step s e) of None \<Rightarrow> True | Some b \<Rightarrow> \<forall>e \<in> set es. lastReset b + window \<le> clock e"
      using Cons.prems(3) by (auto split: option.splits)
    with False Cons.IH [OF inv' _ this] Cons.prems(2,4) show ?thesis by simp
  qed
qed

text \<open>In any span of one window length at most two full buckets are spent.\<close>

lemma admitted_any_span:
  assumes "inv s" and "sorted (map clock es)"
    and "\<And>e e'. e \<in> set es \<Longrightarrow> e' \<in> set es \<Longrightarrow> clock e' < clock e + window"
  shows "int (admitted step adm s es) \<le> 2 * rate"
proof (cases "view s")
  case None
  with admitted_next_window [OF assms(1,2) _ assms(3)] rate_pos [OF assms(1)] show ?thesis by simp
next
  case (Some b)
  have "int (admitted step adm s es) \<le> tokens b + rate"
    using assms(1,2) Some assms(3)
  proof (induction es arbitrary: s b)
    case Nil
    then show ?case using inv_view [of s b] rate_pos [of s] by simp
  next
    case (Cons e es)
    show ?case
    proof (cases "clock e < lastReset b + window")
      case True
      let ?b = "if adm s e then b\<lparr>tokens := tokens b - 1\<rparr> else b"
      have v: "view (step s e) = Some ?b"
        using in_window [OF Cons.prems(1,3) True] by auto
      have "int (admitted step adm (step s e) es) \<le> tokens ?b + rate"
        by (rule Cons.IH [OF inv_step [OF Cons.prems(1)] _ v]) (use Cons.prems in auto)
      then show ?thesis by (auto split: if_splits)
    next
      case False
      then have "\<forall>x \<in> set (e # es). lastReset b + window \<le> clock x" using Cons.prems(2) by auto
      then have "int (admitted step adm s (e # es)) \<le> rate"
        using Cons.prems(3) by (intro admitted_next_window [OF Cons.prems(1,2) _ Cons.prems(4)]) auto
      then show ?thesis using inv_view [OF Cons.prems(1,3)] by simp
    qed
  qed
  then show ?thesis using inv_view [OF assms(1) Some] by simp
qed

end

subsection \<open>Both limiters are fixed-window limiters\<close>

definition rl_inv :: "int \<Rightarrow> duration \<Rightarrow> RateLimiter \<Rightarrow> bool" where
  "rl_inv rate window rl \<longleftrightarrow> rl_rate rl = rate \<and> rl_interval rl = window \<and> 0 < rate \<and> window \<le> 10 * minute
     \<and> (\<forall>k b. buckets rl k = Some b \<longrightarrow> 0 \<le> tokens b \<and> tokens b \<le> rate)"

definition mcp_inv :: "int \<Rightarrow> duration \<Rightarrow> MCPRateLimiter \<Rightarrow> bool" where
  "mcp_inv rate window rl \<longleftrightarrow> mcp_rate rl = rate \<and> mcp_interval rl = window \<and> 0 < rate \<and> window \<le> 10 * minute
     \<and> (\<forall>k b. mcp_buckets rl k = Some b \<longrightarrow> 0 \<le> tokens b \<and> tokens b \<le> rate)"

text \<open>The two moves both limiters make on a bucket: refill it, then spend a token if there is one.\<close>

definition refill :: "int \<Rightarrow> duration \<Rightarrow> time \<Rightarrow> bucket option \<Rightarrow> bucket" where
  "refill rate window now bo =
    (case bo of None \<Rightarrow> \<lparr>tokens = rate, lastReset = now\<rparr>
     | Some b \<Rightarrow> if now - lastReset b \<ge> window then \<lparr>tokens = rate, lastReset = now\<rparr> else b)"

definition spend :: "bucket \<Rightarrow> bucket" where
  "spend b = (if tokens b \<le> 0 then b else b\<lparr>tokens := tokens b - 1\<rparr>)"

lemma refill_bounds:
  "0 < rate \<Longrightarrow> (\<And>b. bo = Some b \<Longrightarrow> 0 \<le> tokens b \<and> tokens b \<le> rate) \<Longrightarrow>
   0 \<le> tokens (refill rate window now bo) \<and> tokens (refill rate window now bo) \<le> rate"
  by (cases bo) (auto simp: refill_def)

lemma spend_bounds: "0 \<le> tokens b \<and> tokens b \<le> rate \<Longrightarrow> 0 \<le> tokens (spend b) \<and> tokens (spend b) \<le> rate"
  by (auto simp: spend_def)

lemma refill_in_window: "now < lastReset b + window \<Longrightarrow> refill rate window now (Some b) = b"
  by (simp add: refill_def)

lemma refill_out_of_window:
  "(case bo of None \<Rightarrow> True | Some b \<Rightarrow> lastReset b + window \<le> now) \<Longrightarrow>
   refill rate window now bo = \<lparr>tokens = rate, lastReset = now\<rparr>"
  by (cases bo) (auto simp: refill_def)

lemma Middleware_bucket:
  assumes "\<not> isLocalDevEnv env"
  shows "buckets (snd (Middleware digest env now rq rl)) =
      (buckets rl)(keyFor digest rq \<mapsto> spend (refill (rl_rate rl) (rl_interval rl) now (buckets rl (keyFor digest rq))))"
    and "rp_status (fst (Middleware digest env now rq rl)) = None \<longleftrightarrow>
      0 < tokens (refill (rl_rate rl) (rl_interval rl) now (buckets rl (keyFor digest rq)))"
    and "rl_rate (snd (Middleware digest env now rq rl)) = rl_rate rl"
    and "rl_interval (snd (Middleware digest env now rq rl)) = rl_interval rl"
  using assms
  by (cases "buckets rl (keyFor digest rq)"; simp add: Middleware_def refill_def spend_def Let_def)+

lemma Middleware_eq:
  assumes "\<not> isLocalDevEnv env"
    and "b = refill (rl_rate rl) (rl_interval rl) now (buckets rl (keyFor digest rq))"
    and "secs = max 0 ((lastReset b + rl_interval rl - now) div second)"
    and "headers = [(''X-RateLimit-Limit'', show_int (rl_rate rl)),
      (''X-RateLimit-Remaining'', show_int (max 0 (tokens b - 1))), (''X-RateLimit-Reset'', show_int secs)]"
  shows "Middleware digest env now rq rl =
    (if tokens b \<le> 0
     then (\<lparr>rp_status = Some 429, rp_error = Some ''rate limit exceeded'',
            rp_headers = headers @ [(''Retry-After'', show_int secs)]\<rparr>,
           rl\<lparr>buckets := (buckets rl)(keyFor digest rq \<mapsto> b)\<rparr>)
     else (\<lparr>rp_status = None, rp_error = None, rp_headers = headers\<rparr>,
           rl\<lparr>buckets := (buckets rl)(keyFor digest rq \<mapsto> b\<lparr>tokens := tokens b - 1\<rparr>)\<rparr>))"
  using assms
  by (cases "buckets rl (keyFor digest rq)") (simp_all add: Middleware_def refill_def Let_def)

lemma Middleware_dev: "isLocalDevEnv env \<Longrightarrow> snd (Middleware digest env now rq rl) = rl"
  by (simp add: Middleware_def)

lemma MCP_bucket:
  assumes "bearerFromHeader (rq_authorization rq) \<noteq> []" and "k = tokenKey digest (bearerFromHeader (rq_authorization rq))"
  shows "mcp_buckets (snd (MCP_Middleware digest now rq rl)) =
      (mcp_buckets rl)(k \<mapsto> spend (refill (mcp_rate rl) (mcp_interval rl) now (mcp_buckets rl k)))"
    and "rp_status (fst (MCP_Middleware digest now rq rl)) = None \<longleftrightarrow>
      0 < tokens (refill (mcp_rate rl) (mcp_interval rl) now (mcp_buckets rl k))"
    and "mcp_rate (snd (MCP_Middleware digest now rq rl)) = mcp_rate rl"
    and "mcp_interval (snd (MCP_Middleware digest now rq rl)) = mcp_interval rl"
  using assms
  by (cases "mcp_buckets rl (tokenKey digest (bearerFromHeader (rq_authorization rq)))";
      simp add: MCP_Middleware_def refill_def spend_def Let_def)+

lemma MCP_no_bearer:
  "bearerFromHeader (rq_authorization rq) = [] \<Longrightarrow>
   snd (MCP_Middleware digest now rq rl) = rl \<and> rp_status (fst (MCP_Middleware digest now rq rl)) = Some 401"
  by (simp add: MCP_Middleware_def)

lemma rl_inv_step: "rl_inv rate window rl \<Longrightarrow> rl_inv rate window (rl_step digest env rl e)"
proof (cases e)
  case (Request t rq)
  assume i: "rl_inv rate window rl"
  then have "0 \<le> tokens (spend (refill rate window t (buckets rl k))) \<and> tokens (spend (refill rate window t (buckets rl k))) \<le> rate" for k
    by (intro spend_bounds refill_bounds) (auto simp: rl_inv_def)
  with Request i show ?thesis
    by (cases "isLocalDevEnv env") (auto simp: Middleware_dev Middleware_bucket rl_inv_def)
qed (auto simp: rl_inv_def rl_cleanup_def split: option.splits if_splits)

lemma mcp_inv_step: "mcp_inv rate window rl \<Longrightarrow> mcp_inv rate window (mcp_step digest rl e)"
proof (cases e)
  case (Request t rq)
  assume i: "mcp_inv rate window rl"
  then have "0 \<le> tokens (spend (refill rate window t (mcp_buckets rl k))) \<and> tokens (spend (refill rate window t (mcp_buckets rl k))) \<le> rate" for k
    by (intro spend_bounds refill_bounds) (auto simp: mcp_inv_def)
  with Request i show ?thesis
    by (cases "bearerFromHeader (rq_authorization rq) = []") (auto simp: MCP_no_bearer MCP_bucket mcp_inv_def)
qed (auto simp: mcp_inv_def mcp_cleanup_def split: option.splits if_splits)

lemma rl_view_step:
  assumes "rl_inv rate window s"
  shows "buckets (rl_step digest env s e) k =
    (case e of
       Request t rq \<Rightarrow> if \<not> isLocalDevEnv env \<and> keyFor digest rq = k
                       then Some (spend (refill rate window t (buckets s k))) else buckets s k
     | Cleanup t \<Rightarrow> (case buckets s k of None \<Rightarrow> None
                     | Some b \<Rightarrow> if lastReset b < t - 10 * minute then None else Some b))"
    and "\<not> isLocalDevEnv env \<and> rl_admits digest env k s e \<longleftrightarrow>
    (case e of Request t rq \<Rightarrow> \<not> isLocalDevEnv env \<and> keyFor digest rq = k \<and> 0 < tokens (refill rate window t (buckets s k))
     | Cleanup t \<Rightarrow> False)"
  using assms by (cases e; cases "isLocalDevEnv env";
      auto simp: Middleware_dev Middleware_bucket rl_inv_def rl_cleanup_def)+

lemma mcp_view_step:
  assumes "mcp_inv rate window s"
  shows "mcp_buckets (mcp_step digest s e) k =
    (case e of
       Request t rq \<Rightarrow> if bearerFromHeader (rq_authorization rq) \<noteq> []
                          \<and> tokenKey digest (bearerFromHeader (rq_authorization rq)) = k
                       then Some (spend (refill rate window t (mcp_buckets s k))) else mcp_buckets s k
     | Cleanup t \<Rightarrow> (case mcp_buckets s k of None \<Rightarrow> None
                     | Some b \<Rightarrow> if lastReset b < t - 10 * minute then None else Some b))"
    and "mcp_admits digest k s e \<longleftrightarrow>
    (case e of Request t rq \<Rightarrow> bearerFromHeader (rq_authorization rq) \<noteq> []
        \<and> tokenKey digest (bearerFromHeader (rq_authorization rq)) = k \<and> 0 < tokens (refill rate window t (mcp_buckets s k))
     | Cleanup t \<Rightarrow> False)"
  using assms by (cases e; cases "\<exists>t rq. e = Request t rq \<and> bearerFromHeader (rq_authorization rq) = []";
      auto simp: MCP_no_bearer MCP_bucket mcp_inv_def mcp_cleanup_def)+

text \<open>The window laws hold for every limiter whose buckets move like that.\<close>

lemma bucket_in_window:
  assumes "now < lastReset b + window" and "window \<le> 10 * minute"
  shows "\<not> lastReset b < now - 10 * minute"
    and "Some (spend (refill rate window now (Some b))) =
      Some (if 0 < tokens b then b\<lparr>tokens := tokens b - 1\<rparr> else b)"
  using assms by (auto simp: refill_in_window spend_def)

interpretation rl: window_limiter "rl_step digest env"
  "\<lambda>rl e. \<not> isLocalDevEnv env \<and> rl_admits digest env k rl e" event_time "\<lambda>rl. buckets rl k"
  "rl_inv rate window" rate window
  for digest env k rate window
proof unfold_locales
  fix s e b
  assume i: "rl_inv rate window s"
  note view = rl_view_step [OF i]
  have w: "window \<le> 10 * minute" "0 < rate" using i by (simp_all add: rl_inv_def)
  show "0 < rate" by (rule w)
  show "rl_inv rate window (rl_step digest env s e)" by (rule rl_inv_step [OF i])
  show "0 \<le> tokens b \<and> tokens b \<le> rate" if "buckets s k = Some b"
    using i that by (auto simp: rl_inv_def)
  show "buckets (rl_step digest env s e) k =
      Some (if \<not> isLocalDevEnv env \<and> rl_admits digest env k s e then b\<lparr>tokens := tokens b - 1\<rparr> else b)
    \<and> (\<not> isLocalDevEnv env \<and> rl_admits digest env k s e \<longrightarrow> 0 < tokens b)"
    if "buckets s k = Some b" "event_time e < lastReset b + window"
    unfolding view using that w bucket_in_window [of "event_time e" b window]
    by (cases e) (simp_all add: refill_in_window)
  show "if \<not> isLocalDevEnv env \<and> rl_admits digest env k s e
      then buckets (rl_step digest env s e) k = Some \<lparr>tokens = rate - 1, lastReset = event_time e\<rparr>
      else buckets (rl_step digest env s e) k = buckets s k \<or> buckets (rl_step digest env s e) k = None"
    if "case buckets s k of None \<Rightarrow> True | Some b \<Rightarrow> lastReset b + window \<le> event_time e"
    unfolding view using that w refill_out_of_window [where bo = "buckets s k" and window = window and now = "event_time e" and rate = rate]
    by (cases e) (simp_all add: spend_def split: option.split)
qed

interpretation mcp: window_limiter "mcp_step digest" "mcp_admits digest k" event_time
  "\<lambda>rl. mcp_buckets rl k" "mcp_inv rate window" rate window
  for digest k rate window
proof unfold_locales
  fix s e b
  assume i: "mcp_inv rate window s"
  note view = mcp_view_step [OF i]
  have w: "window \<le> 10 * minute" "0 < rate" using i by (simp_all add: mcp_inv_def)
  show "0 < rate" by (rule w)
  show "mcp_inv rate window (mcp_step digest s e)" by (rule mcp_inv_step [OF i])
  show "0 \<le> tokens b \<and> tokens b \<le> rate" if "mcp_buckets s k = Some b"
    using i that by (auto simp: mcp_inv_def)
  show "mcp_buckets (mcp_step digest s e) k =
      Some (if mcp_admits digest k s e then b\<lparr>tokens := tokens b - 1\<rparr> else b)
    \<and> (mcp_admits digest k s e \<longrightarrow> 0 < tokens b)"
    if "mcp_buckets s k = Some b" "event_time e < lastReset b + window"
    unfolding view using that w bucket_in_window [of "event_time e" b window]
    by (cases e) (simp_all add: refill_in_window)
  show "if mcp_admits digest k s e
      then mcp_buckets (mcp_step digest s e) k = Some \<lparr>tokens = rate - 1, lastReset = event_time e\<rparr>
      else mcp_buckets (mcp_step digest s e) k = mcp_buckets s k \<or> mcp_buckets (mcp_step digest s e) k = None"
    if "case mcp_buckets s k of None \<Rightarrow> True | Some b \<Rightarrow> lastReset b + window \<le> event_time e"
    unfolding view using that w refill_out_of_window [where bo = "mcp_buckets s k" and window = window and now = "event_time e" and rate = rate]
    by (cases e) (simp_all add: spend_def split: option.split)
qed

subsection \<open>Properties\<close>


definition example_rq :: http_request where
  "example_rq = \<lparr>rq_org = [], rq_authorization = ''Bearer t'', rq_client_ip = ''10.0.0.1''\<rparr>"

lemma production_env [simp]: "\<not> isLocalDevEnv (\<lambda>_. [])"
  by (simp add: isLocalDevEnv_def ascii_lower_def)


text \<open>
  a request is refused with 429 exactly when its key's bucket, refilled if its window is
  over, is empty; the advertised remainder is what the bucket holds afterwards, a refusal
  carries the seconds until the refill as \<open>Retry-After\<close> and costs nothing, and the response to
  a caller with another key is the same whether or not this request came first.
\<close>

theorem request_limit_response:
  assumes "\<not> isLocalDevEnv env" and "0 \<le> rl_rate rl"
    and "\<forall>k b. buckets rl k = Some b \<longrightarrow> 0 \<le> tokens b"
    and "b = refill (rl_rate rl) (rl_interval rl) now (buckets rl (keyFor digest rq))"
    and "(resp, rl') = Middleware digest env now rq rl"
  shows "(if tokens b = 0
          then rp_status resp = Some 429
            \<and> map_of (rp_headers resp) ''Retry-After'' =
                Some (show_int (max 0 ((lastReset b + rl_interval rl - now) div second)))
            \<and> buckets rl' (keyFor digest rq) = Some b
          else rp_status resp = None
            \<and> buckets rl' (keyFor digest rq) = Some (b\<lparr>tokens := tokens b - 1\<rparr>))
    \<and> map_of (rp_headers resp) ''X-RateLimit-Remaining'' =
        Some (show_int (tokens (the (buckets rl' (keyFor digest rq)))))
    \<and> (keyFor digest rq' \<noteq> keyFor digest rq \<longrightarrow>
         fst (Middleware digest env now' rq' rl') = fst (Middleware digest env now' rq' rl))"
proof -
  have b0: "0 \<le> tokens b"
    using assms(2-4) by (cases "buckets rl (keyFor digest rq)") (auto simp: refill_def)
  have other: "fst (Middleware digest env now' rq' rl') = fst (Middleware digest env now' rq' rl)"
    if "keyFor digest rq' \<noteq> keyFor digest rq"
  proof -
    have "rl' = snd (Middleware digest env now rq rl)" using assms(5) by (metis snd_conv)
    with that Middleware_bucket [OF assms(1), of digest now rq rl]
    have "buckets rl' (keyFor digest rq') = buckets rl (keyFor digest rq')"
      "rl_rate rl' = rl_rate rl" "rl_interval rl' = rl_interval rl" by simp_all
    then show ?thesis
      by (simp only: Middleware_eq [OF assms(1) refl refl refl] fst_conv if_distrib [of fst])
  qed
  have eq: "Middleware digest env now rq rl = (resp, rl')" using assms(5) by simp
  note eq = eq [unfolded Middleware_eq [OF assms(1,4) refl refl]]
  show ?thesis
  proof (cases "tokens b = 0")
    case True
    with eq have r: "resp = \<lparr>rp_status = Some 429, rp_error = Some ''rate limit exceeded'',
        rp_headers = [(''X-RateLimit-Limit'', show_int (rl_rate rl)), (''X-RateLimit-Remaining'', show_int 0),
          (''X-RateLimit-Reset'', show_int (max 0 ((lastReset b + rl_interval rl - now) div second))),
          (''Retry-After'', show_int (max 0 ((lastReset b + rl_interval rl - now) div second)))]\<rparr>"
      "buckets rl' (keyFor digest rq) = Some b" by auto
    show ?thesis using True other by (simp add: r)
  next
    case False
    with eq b0 have r: "resp = \<lparr>rp_status = None, rp_error = None,
        rp_headers = [(''X-RateLimit-Limit'', show_int (rl_rate rl)), (''X-RateLimit-Remaining'', show_int (tokens b - 1)),
          (''X-RateLimit-Reset'', show_int (max 0 ((lastReset b + rl_interval rl - now) div second)))]\<rparr>"
      "buckets rl' (keyFor digest rq) = Some (b\<lparr>tokens := tokens b - 1\<rparr>)" by auto
    show ?thesis using False other by (simp add: r)
  qed
qed

theorem request_limit_response_witness:
  "rp_status (fst (Middleware id (\<lambda>_. []) 5 example_rq (NewRateLimiter 0 minute))) = Some 429"
proof -
  obtain resp rl' where r: "(resp, rl') = Middleware id (\<lambda>_. []) 5 example_rq (NewRateLimiter 0 minute)"
    by (metis surj_pair)
  from request_limit_response [OF _ _ _ _ r] show ?thesis
    by (simp add: NewRateLimiter_def refill_def) (metis NewRateLimiter_def fst_conv r)
qed

text \<open>A full bucket admits as many requests at one instant as it has tokens.\<close>

lemma admitted_append:
  "admitted step adm s (xs @ ys) = admitted step adm s xs + admitted step adm (foldl step s xs) ys"
  by (induction xs arbitrary: s) simp_all

lemma burst:
  assumes "\<not> isLocalDevEnv env" and "0 < rl_interval rl"
    and "refill (rl_rate rl) (rl_interval rl) t (buckets rl (keyFor digest rq)) = \<lparr>tokens = int n, lastReset = t\<rparr>"
  shows "admitted (rl_step digest env) (rl_admits digest env (keyFor digest rq)) rl (replicate n (Request t rq)) = n
    \<and> (let rl' = foldl (rl_step digest env) rl (replicate n (Request t rq)) in
        rl_rate rl' = rl_rate rl \<and> rl_interval rl' = rl_interval rl
        \<and> (n > 0 \<longrightarrow> buckets rl' (keyFor digest rq) = Some \<lparr>tokens = 0, lastReset = t\<rparr>))"
  using assms
proof (induction n arbitrary: rl)
  case 0
  then show ?case by simp
next
  case (Suc n)
  note now = Middleware_bucket [OF Suc.prems(1), of digest t rq rl]
  define rl1 where "rl1 = snd (Middleware digest env t rq rl)"
  have b: "buckets rl1 (keyFor digest rq) = Some \<lparr>tokens = int n, lastReset = t\<rparr>"
    by (simp add: rl1_def now(1) Suc.prems(3) spend_def)
  have same: "rl_rate rl1 = rl_rate rl" "rl_interval rl1 = rl_interval rl"
    by (simp_all add: rl1_def now(3,4))
  have ad: "rl_admits digest env (keyFor digest rq) rl (Request t rq)"
    by (simp add: now(2) Suc.prems(3))
  have "refill (rl_rate rl1) (rl_interval rl1) t (buckets rl1 (keyFor digest rq)) = \<lparr>tokens = int n, lastReset = t\<rparr>"
    using Suc.prems(2) by (simp add: b same refill_def)
  note IH = Suc.IH [OF Suc.prems(1) _ this]
  show ?case
    using IH Suc.prems(2) ad b by (cases n) (simp_all add: rl1_def [symmetric] same Let_def)
qed

text \<open>One burst, then the cleanup ticks of the next fifteen minutes: the bucket is forgotten.\<close>

definition mint_round :: "http_request \<Rightarrow> nat \<Rightarrow> time \<Rightarrow> rl_event list" where
  "mint_round rq n t = replicate n (Request t rq)
     @ [Cleanup (t + 5 * minute), Cleanup (t + 10 * minute), Cleanup (t + 15 * minute)]"

lemma mint_round_forgets:
  assumes "\<not> isLocalDevEnv env" and "0 < rl_interval rl" and "rl_rate rl = int n" and "0 < n"
    and "buckets rl (keyFor digest rq) = None"
  shows "admitted (rl_step digest env) (rl_admits digest env (keyFor digest rq)) rl (mint_round rq n t) = n
    \<and> (let rl' = foldl (rl_step digest env) rl (mint_round rq n t) in
        rl_rate rl' = rl_rate rl \<and> rl_interval rl' = rl_interval rl \<and> buckets rl' (keyFor digest rq) = None)"
proof -
  have "refill (rl_rate rl) (rl_interval rl) t (buckets rl (keyFor digest rq)) = \<lparr>tokens = int n, lastReset = t\<rparr>"
    using assms(3,5) by (simp add: refill_def)
  from burst [OF assms(1,2) this] assms(4) show ?thesis
    by (simp add: mint_round_def admitted_append rl_cleanup_def Let_def duration_defs)
qed

text \<open>
  the limiter of the token-minting endpoint does not hold its hour. It is configured with
  10 per hour, but the cleanup drops buckets older than ten minutes whatever the window, so
  four bursts of ten in 45 minutes are all admitted, with the cleanup ticking every five
  minutes as it does.
\<close>

theorem mint_limit_not_hourly:
  "admitted (rl_step digest (\<lambda>_. [])) (rl_admits digest (\<lambda>_. []) (keyFor digest rq))
     (NewRateLimiter 10 hour)
     (concat (map (mint_round rq 10) [0, 15 * minute, 30 * minute, 45 * minute])) = 40"
proof -
  define S where "S = rl_step digest (\<lambda>_. [])"
  define A where "A = rl_admits digest (\<lambda>_. []) (keyFor digest rq)"
  define good where "good rl \<longleftrightarrow> rl_interval rl = hour \<and> rl_rate rl = 10 \<and> buckets rl (keyFor digest rq) = None" for rl :: RateLimiter
  have round: "admitted S A rl (mint_round rq 10 t) = 10 \<and> good (foldl S rl (mint_round rq 10 t))"
    if "good rl" for rl t
    using that mint_round_forgets [of "\<lambda>_. []" rl 10 digest rq t]
    by (simp add: good_def S_def A_def Let_def duration_defs)
  have "good (NewRateLimiter 10 hour)" by (simp add: good_def NewRateLimiter_def)
  then show ?thesis
    unfolding S_def [symmetric] A_def [symmetric] by (simp add: admitted_append round)
qed

end
