(* ===== verification/Approvals.thy ===== *)
theory Approvals
  imports Rate_Limit
begin

text \<open>
  Human approvals: the policy (\<^verbatim>\<open>internal/approvals/policy.go\<close>), the gate for destructive
  operations and privileged delegations (\<^verbatim>\<open>internal/handlers/approval_gate.go\<close>) and the
  approval endpoints (\<^verbatim>\<open>internal/handlers/approvals.go\<close>).

  \<open>approval_requests\<close> is a list of rows. \<open>digest\<close> (SHA-256) and \<open>marshal\<close> (\<open>json.Marshal\<close> of a
  context object, which sorts the keys) are parameters. Every SQL statement is one step, so the
  consume statement (\<^verbatim>\<open>UPDATE .. WHERE id = (SELECT .. FOR UPDATE SKIP LOCKED) RETURNING\<close>) is
  atomic; rows locked by other transactions are the argument \<open>locked\<close>. Generated ids and the
  clock are arguments.
\<close>

subsection \<open>Policy\<close>

datatype Action = ActionDeleteWorkspace | ActionDeprovision | ActionSecretWrite | ActionOrgTokenMint
  | ActionPrivilegedDelegate

fun action_string :: "Action \<Rightarrow> string" where
  "action_string ActionDeleteWorkspace = ''delete_workspace''"
| "action_string ActionDeprovision = ''deprovision_workspace''"
| "action_string ActionSecretWrite = ''secret_write''"
| "action_string ActionOrgTokenMint = ''org_token_mint''"
| "action_string ActionPrivilegedDelegate = ''privileged_delegate''"

definition gated :: "Action list" where
  "gated = [ActionSecretWrite, ActionOrgTokenMint, ActionPrivilegedDelegate]"

definition IsGated :: "Action \<Rightarrow> bool" where
  "IsGated a = (a \<in> set gated)"

subsection \<open>The table\<close>

record approval_row =
  ap_id :: string
  ap_workspace :: string
  ap_task :: "string option"
  ap_action :: string
  ap_reason :: string
  ap_context :: string
  ap_status :: string
  ap_decided_by :: "string option"
  ap_decided_at :: "time option"
  ap_created_at :: time
  ap_consumed_at :: "time option"
  ap_hash :: "string option"

type_synonym approval_table = "approval_row list"
type_synonym context_map = "(string \<times> string) list"

datatype approval_event =
    EvApprovalRequested string string string string
  | EvApprovalEscalated string string string string string
  | EvApprovalDecided string string string string
  | EvApprovalWithdrawn string string

definition approvalRequestHash ::
  "(string \<Rightarrow> string) \<Rightarrow> (context_map \<Rightarrow> string) \<Rightarrow> string \<Rightarrow> string \<Rightarrow> context_map \<Rightarrow> string" where
  "approvalRequestHash digest marshal workspaceID action contextMap =
    hex_encode (digest (workspaceID @ [char_of (0 :: nat)] @ action @ [char_of (0 :: nat)] @ marshal contextMap))"

subsection \<open>The gate\<close>

definition usable :: "string \<Rightarrow> string \<Rightarrow> string \<Rightarrow> approval_row \<Rightarrow> bool" where
  "usable workspaceID action hash r =
    (ap_workspace r = workspaceID \<and> ap_action r = action \<and> ap_hash r = Some hash
     \<and> ap_status r = ''approved'' \<and> ap_consumed_at r = None)"

text \<open>\<^verbatim>\<open>ORDER BY decided_at DESC NULLS LAST\<close>.\<close>

definition by_decided :: "approval_table \<Rightarrow> approval_table" where
  "by_decided rows = sort_key (\<lambda>r. - the (ap_decided_at r)) (filter (\<lambda>r. ap_decided_at r \<noteq> None) rows)
     @ filter (\<lambda>r. ap_decided_at r = None) rows"

definition consume_approval ::
  "(string \<Rightarrow> bool) \<Rightarrow> time \<Rightarrow> string \<Rightarrow> string \<Rightarrow> string \<Rightarrow> approval_table \<Rightarrow> string option \<times> approval_table" where
  "consume_approval locked now workspaceID action hash tbl =
    (case by_decided (filter (\<lambda>r. usable workspaceID action hash r \<and> \<not> locked (ap_id r)) tbl) of
       [] \<Rightarrow> (None, tbl)
     | r # _ \<Rightarrow> (Some (ap_id r),
         sql_update (\<lambda>x. ap_id x = ap_id r) (\<lambda>x. x\<lparr>ap_consumed_at := Some now\<rparr>) tbl))"

definition create_pending ::
  "string \<Rightarrow> time \<Rightarrow> string \<Rightarrow> string \<Rightarrow> string \<Rightarrow> string \<Rightarrow> string \<Rightarrow> approval_table \<Rightarrow> string \<times> approval_table" where
  "create_pending newid now workspaceID action hash reason cj tbl =
    (case sql_find (\<lambda>r. ap_workspace r = workspaceID \<and> ap_action r = action \<and> ap_hash r = Some hash
             \<and> ap_status r = ''pending'') tbl of
       Some r \<Rightarrow> (ap_id r, tbl)
     | None \<Rightarrow> (newid, tbl @
         [\<lparr>ap_id = newid, ap_workspace = workspaceID, ap_task = None, ap_action = action, ap_reason = reason,
           ap_context = cj, ap_status = ''pending'', ap_decided_by = None, ap_decided_at = None,
           ap_created_at = now, ap_consumed_at = None, ap_hash = Some hash\<rparr>]))"

record gate_env =
  ge_consume_fails :: bool
  ge_create_fails :: bool
  ge_locked :: "string \<Rightarrow> bool"
  ge_newid :: string
  ge_now :: time
  ge_parent :: "string \<rightharpoonup> string"
  ge_broadcaster :: bool

datatype gate_result = Approved string | PendingApproval string | GateError

definition requireApproval ::
  "(string \<Rightarrow> string) \<Rightarrow> (context_map \<Rightarrow> string) \<Rightarrow> gate_env \<Rightarrow> string \<Rightarrow> string \<Rightarrow> string \<Rightarrow> context_map
     \<Rightarrow> approval_table \<Rightarrow> gate_result \<times> approval_table \<times> approval_event list" where
  "requireApproval digest marshal env workspaceID action reason contextMap tbl =
    (let hash = approvalRequestHash digest marshal workspaceID action contextMap
     in if ge_consume_fails env then (GateError, tbl, [])
        else case consume_approval (ge_locked env) (ge_now env) workspaceID action hash tbl of
            (Some consumedID, tbl') \<Rightarrow> (Approved consumedID, tbl', [])
          | (None, tbl') \<Rightarrow>
             if ge_create_fails env then (GateError, tbl', [])
             else case create_pending (ge_newid env) (ge_now env) workspaceID action hash reason
                         (marshal contextMap) tbl' of
                 (approvalID, tbl'') \<Rightarrow>
                   (PendingApproval approvalID, tbl'',
                    (if ge_broadcaster env then [EvApprovalRequested workspaceID approvalID action reason] else [])
                    @ (case ge_parent env workspaceID of
                         None \<Rightarrow> []
                       | Some p \<Rightarrow> if ge_broadcaster env
                           then [EvApprovalEscalated p approvalID workspaceID action reason] else [])))"

text \<open>
  The caller as the authentication middleware left it in the request context:
  \<open>caller_is_admin_token\<close> is absent, a bool, or some other value.
\<close>

datatype ctx_value = CtxBool bool | CtxOther

record caller =
  cl_admin :: "ctx_value option"
  cl_org_token :: bool

definition callerHoldsOrgToken :: "caller \<Rightarrow> bool" where
  "callerHoldsOrgToken c = cl_org_token c"

definition callerIsAdminToken :: "caller \<Rightarrow> bool" where
  "callerIsAdminToken c = (case cl_admin c of Some (CtxBool b) \<Rightarrow> b | _ \<Rightarrow> False)"

definition callerIsPrivileged :: "caller \<Rightarrow> bool" where
  "callerIsPrivileged c = (callerIsAdminToken c \<or> callerHoldsOrgToken c)"

definition destructiveGateEnabled :: "environment \<Rightarrow> bool" where
  "destructiveGateEnabled env =
    (let v = env ''MOLECULE_PLATFORM_APPROVAL_GATE'' in v = ''1'' \<or> v = ''true'')"

definition privilegedDelegationGateEnabled :: "environment \<Rightarrow> bool" where
  "privilegedDelegationGateEnabled env =
    (let v = env ''MOLECULE_PRIVILEGED_DELEGATION_GATE'' in v = ''1'' \<or> v = ''true'')"

text \<open>The HTTP answer the gate writes itself; \<open>None\<close> when the caller proceeds.\<close>

datatype gate_answer = Answer500 | Answer202 string | Answer403 string

definition gateDestructive ::
  "(string \<Rightarrow> string) \<Rightarrow> (context_map \<Rightarrow> string) \<Rightarrow> environment \<Rightarrow> gate_env \<Rightarrow> caller \<Rightarrow> string \<Rightarrow> Action \<Rightarrow> string
     \<Rightarrow> context_map \<Rightarrow> approval_table \<Rightarrow> gate_answer option \<times> approval_table \<times> approval_event list" where
  "gateDestructive digest marshal osenv env c workspaceID action reason contextMap tbl =
    (if \<not> IsGated action then (None, tbl, [])
     else if \<not> callerIsPrivileged c then (None, tbl, [])
     else if \<not> callerIsAdminToken c \<and> \<not> destructiveGateEnabled osenv then (None, tbl, [])
     else case requireApproval digest marshal env workspaceID (action_string action) reason contextMap tbl of
         (GateError, tbl', ev) \<Rightarrow> (Some Answer500, tbl', ev)
       | (PendingApproval i, tbl', ev) \<Rightarrow> (Some (Answer202 i), tbl', ev)
       | (Approved i, tbl', ev) \<Rightarrow> (None, tbl', ev))"

definition delegationRequiresGrant :: "environment \<Rightarrow> caller \<Rightarrow> bool" where
  "delegationRequiresGrant osenv c =
    (if \<not> privilegedDelegationGateEnabled osenv then False
     else if \<not> IsGated ActionPrivilegedDelegate then False
     else callerIsPrivileged c)"

definition privilegedDelegationContext :: "(string \<Rightarrow> string) \<Rightarrow> string \<Rightarrow> string \<Rightarrow> context_map" where
  "privilegedDelegationContext digest targetID task =
    [(''target_id'', targetID), (''task_hash'', hex_encode (digest task))]"

text \<open>The answer written (\<open>None\<close>: proceed) and the consumed grant (empty when none).\<close>

definition gatePrivilegedDelegation ::
  "(string \<Rightarrow> string) \<Rightarrow> (context_map \<Rightarrow> string) \<Rightarrow> environment \<Rightarrow> gate_env \<Rightarrow> caller \<Rightarrow> string \<Rightarrow> string \<Rightarrow> string
     \<Rightarrow> approval_table \<Rightarrow> (gate_answer option \<times> string) \<times> approval_table \<times> approval_event list" where
  "gatePrivilegedDelegation digest marshal osenv env c sourceID targetID task tbl =
    (if \<not> delegationRequiresGrant osenv c then ((None, []), tbl, [])
     else case requireApproval digest marshal env sourceID (action_string ActionPrivilegedDelegate)
                 (''privileged delegation to '' @ targetID) (privilegedDelegationContext digest targetID task) tbl of
         (GateError, tbl', ev) \<Rightarrow> ((Some Answer500, []), tbl', ev)
       | (PendingApproval i, tbl', ev) \<Rightarrow> ((Some (Answer403 i), []), tbl', ev)
       | (Approved i, tbl', ev) \<Rightarrow> ((None, i), tbl', ev))"

definition restorePrivilegedDelegationGrant :: "bool \<Rightarrow> string \<Rightarrow> string \<Rightarrow> approval_table \<Rightarrow> approval_table" where
  "restorePrivilegedDelegationGrant fails workspaceID grantID tbl =
    (if grantID = [] \<or> fails then tbl
     else sql_update (\<lambda>r. ap_id r = grantID \<and> ap_workspace r = workspaceID \<and> ap_consumed_at r \<noteq> None)
            (\<lambda>r. r\<lparr>ap_consumed_at := None\<rparr>) tbl)"

subsection \<open>The endpoints\<close>

record approval_body =
  ab_TaskID :: string
  ab_Action :: string
  ab_Reason :: string
  ab_Context :: string

datatype approval_reply =
    ApprovalCreated string
  | ApprovalDone string string
  | ApprovalFailed nat string

text \<open>\<open>body = None\<close>: the request does not bind (no JSON, or the required action is missing).\<close>

definition Create_approval ::
  "bool \<Rightarrow> string \<Rightarrow> time \<Rightarrow> (string \<rightharpoonup> string) \<Rightarrow> string \<Rightarrow> approval_body option \<Rightarrow> approval_table
     \<Rightarrow> approval_reply \<times> approval_table \<times> approval_event list" where
  "Create_approval fails newid now parent_of workspaceID body tbl =
    (case body of
       None \<Rightarrow> (ApprovalFailed 400 ''invalid request body'', tbl, [])
     | Some b \<Rightarrow>
        if ab_Action b = [] then (ApprovalFailed 400 ''invalid request body'', tbl, [])
        else if fails then (ApprovalFailed 500 ''failed to create approval'', tbl, [])
        else
          (ApprovalCreated newid,
           tbl @ [\<lparr>ap_id = newid, ap_workspace = workspaceID, ap_task = Some (ab_TaskID b), ap_action = ab_Action b,
             ap_reason = ab_Reason b, ap_context = ab_Context b, ap_status = ''pending'', ap_decided_by = None,
             ap_decided_at = None, ap_created_at = now, ap_consumed_at = None, ap_hash = None\<rparr>],
           [EvApprovalRequested workspaceID newid (ab_Action b) (ab_Reason b)]
           @ (case parent_of workspaceID of None \<Rightarrow> []
              | Some p \<Rightarrow> [EvApprovalEscalated p newid workspaceID (ab_Action b) (ab_Reason b)])))"

definition ListAll :: "(string \<rightharpoonup> string) \<Rightarrow> approval_table \<Rightarrow> (approval_row \<times> string) list" where
  "ListAll workspace_name tbl =
    take 50 (map (\<lambda>r. (r, the (workspace_name (ap_workspace r))))
      (sort_key (\<lambda>r. - ap_created_at r)
        (filter (\<lambda>r. ap_status r = ''pending'' \<and> workspace_name (ap_workspace r) \<noteq> None) tbl)))"

definition List_approvals :: "string \<Rightarrow> approval_table \<Rightarrow> approval_table" where
  "List_approvals workspaceID tbl =
    take 50 (sort_key (\<lambda>r. - ap_created_at r) (filter (\<lambda>r. ap_workspace r = workspaceID) tbl))"

definition Decide ::
  "bool \<Rightarrow> bool \<Rightarrow> time \<Rightarrow> string \<Rightarrow> string \<Rightarrow> (string \<times> string) option \<Rightarrow> approval_table
     \<Rightarrow> approval_reply \<times> approval_table \<times> approval_event list" where
  "Decide exec_fails affected_err now workspaceID approvalID body tbl =
    (case body of
       None \<Rightarrow> (ApprovalFailed 400 ''invalid request body'', tbl, [])
     | Some (decision, by_) \<Rightarrow>
        if decision = [] then (ApprovalFailed 400 ''invalid request body'', tbl, [])
        else if decision \<noteq> ''approved'' \<and> decision \<noteq> ''denied''
          then (ApprovalFailed 400 (''decision must be '' @ [char_of (39 :: nat)] @ ''approved'' @ [char_of (39 :: nat)]
            @ '' or '' @ [char_of (39 :: nat)] @ ''denied'' @ [char_of (39 :: nat)]), tbl, [])
        else
          let decidedBy = (if by_ = [] then ''human'' else by_);
              hit = (\<lambda>r. ap_id r = approvalID \<and> ap_workspace r = workspaceID \<and> ap_status r = ''pending'')
          in if exec_fails then (ApprovalFailed 500 ''failed to update'', tbl, [])
             else
               let tbl' = sql_update hit (\<lambda>r. r\<lparr>ap_status := decision, ap_decided_by := Some decidedBy,
                                              ap_decided_at := Some now\<rparr>) tbl
               in if affected_err then (ApprovalFailed 500 ''failed to update'', tbl', [])
                  else if sql_affected hit tbl = 0
                    then (ApprovalFailed 404 ''approval not found or already decided'', tbl', [])
                  else (ApprovalDone decision approvalID, tbl',
                        [EvApprovalDecided workspaceID approvalID decision decidedBy]))"

definition Withdraw ::
  "bool \<Rightarrow> bool \<Rightarrow> bool \<Rightarrow> time \<Rightarrow> string \<Rightarrow> string \<Rightarrow> approval_table
     \<Rightarrow> approval_reply \<times> approval_table \<times> approval_event list" where
  "Withdraw read_fails exec_fails affected_err now workspaceID approvalID tbl =
    (case (if read_fails then None else sql_find (\<lambda>r. ap_id r = approvalID) tbl) of
       None \<Rightarrow> (ApprovalFailed 404 ''approval not found'', tbl, [])
     | Some row \<Rightarrow>
        if workspaceID \<noteq> [] \<and> workspaceID \<noteq> ap_workspace row
          then (ApprovalFailed 403 ''not the requester'', tbl, [])
        else if exec_fails then (ApprovalFailed 500 ''failed to withdraw'', tbl, [])
        else
          let hit = (\<lambda>r. ap_id r = approvalID \<and> ap_status r = ''pending'');
              tbl' = sql_update hit (\<lambda>r. r\<lparr>ap_status := ''withdrawn'', ap_decided_by := Some ''requester'',
                                         ap_decided_at := Some now\<rparr>) tbl
          in if affected_err then (ApprovalFailed 500 ''failed to withdraw'', tbl', [])
             else if sql_affected hit tbl = 0
               then (ApprovalFailed 409 ''approval not pending (already decided or withdrawn)'', tbl', [])
             else (ApprovalDone ''withdrawn'' approvalID, tbl', [EvApprovalWithdrawn (ap_workspace row) approvalID]))"

subsection \<open>Consumption\<close>

lemma set_by_decided [simp]: "set (by_decided rows) = set rows"
  by (auto simp: by_decided_def)

lemma consume_Some:
  assumes "consume_approval locked now ws a h tbl = (Some i, tbl')"
  obtains r where "r \<in> set tbl" "usable ws a h r" "ap_id r = i" "\<not> locked i"
    "tbl' = sql_update (\<lambda>x. ap_id x = i) (\<lambda>x. x\<lparr>ap_consumed_at := Some now\<rparr>) tbl"
proof -
  from assms obtain r rs where d: "by_decided (filter (\<lambda>r. usable ws a h r \<and> \<not> locked (ap_id r)) tbl) = r # rs"
    and r: "ap_id r = i" "tbl' = sql_update (\<lambda>x. ap_id x = i) (\<lambda>x. x\<lparr>ap_consumed_at := Some now\<rparr>) tbl"
    by (auto simp: consume_approval_def split: list.splits)
  have "r \<in> set (filter (\<lambda>r. usable ws a h r \<and> \<not> locked (ap_id r)) tbl)"
    using d by (metis list.set_intros(1) set_by_decided)
  with r that show thesis by auto
qed

lemma consume_None:
  assumes "consume_approval locked now ws a h tbl = (None, tbl')"
  shows "tbl' = tbl" and "\<forall>r \<in> set tbl. usable ws a h r \<longrightarrow> locked (ap_id r)"
proof -
  from assms have e: "by_decided (filter (\<lambda>r. usable ws a h r \<and> \<not> locked (ap_id r)) tbl) = []" and "tbl' = tbl"
    by (auto simp: consume_approval_def split: list.splits)
  from e have "set (filter (\<lambda>r. usable ws a h r \<and> \<not> locked (ap_id r)) tbl) = {}"
    using set_by_decided by (metis list.set(1))
  with \<open>tbl' = tbl\<close> show "tbl' = tbl" and "\<forall>r \<in> set tbl. usable ws a h r \<longrightarrow> locked (ap_id r)" by auto
qed

text \<open>One statement of any caller, except the return of a grant that was not used.\<close>

inductive approval_step :: "approval_table \<Rightarrow> approval_table \<Rightarrow> bool" where
  step_consume: "consume_approval locked now ws a h tbl = (x, tbl') \<Longrightarrow> approval_step tbl tbl'"
| step_pending: "newid \<notin> ap_id ` set tbl \<Longrightarrow> create_pending newid now ws a h reason cj tbl = (x2, tbl') \<Longrightarrow>
    approval_step tbl tbl'"
| step_create: "newid \<notin> ap_id ` set tbl \<Longrightarrow> Create_approval f newid now par ws body tbl = (rep, tbl', ev) \<Longrightarrow>
    approval_step tbl tbl'"
| step_decide: "Decide f f2 now ws i body2 tbl = (rep, tbl', ev) \<Longrightarrow> approval_step tbl tbl'"
| step_withdraw: "Withdraw f f2 f3 now ws i tbl = (rep, tbl', ev) \<Longrightarrow> approval_step tbl tbl'"

definition approval_status :: "approval_table \<Rightarrow> string \<Rightarrow> string option" where
  "approval_status tbl i = map_option ap_status (sql_find (\<lambda>r. ap_id r = i) tbl)"

definition approval_used :: "approval_table \<Rightarrow> string \<Rightarrow> bool option" where
  "approval_used tbl i = map_option (\<lambda>r. ap_consumed_at r \<noteq> None) (sql_find (\<lambda>r. ap_id r = i) tbl)"

definition consumes :: "approval_table \<Rightarrow> approval_table \<Rightarrow> string \<Rightarrow> bool" where
  "consumes tbl tbl' i \<longleftrightarrow> (\<exists>locked now ws a h. consume_approval locked now ws a h tbl = (Some i, tbl'))"

text \<open>Every statement appends a pending row or updates rows, keeping the ids.\<close>

lemma Decide_table:
  "fst (snd (Decide f f2 now ws i body tbl)) =
    (case body of None \<Rightarrow> tbl
     | Some (d, b) \<Rightarrow>
        if (d \<noteq> ''approved'' \<and> d \<noteq> ''denied'') \<or> f then tbl
        else sql_update (\<lambda>r. ap_id r = i \<and> ap_workspace r = ws \<and> ap_status r = ''pending'')
          (\<lambda>r. r\<lparr>ap_status := d, ap_decided_by := Some (if b = [] then ''human'' else b), ap_decided_at := Some now\<rparr>) tbl)"
  by (simp add: Decide_def Let_def split: option.split prod.split)

lemma approval_step_effect:
  assumes "approval_step tbl tbl'"
  obtains (same) "tbl' = tbl"
  | (fresh) r where "tbl' = tbl @ [r]" "ap_id r \<notin> ap_id ` set tbl" "ap_status r = ''pending''" "ap_consumed_at r = None"
  | (use) i now where "tbl' = sql_update (\<lambda>x. ap_id x = i) (\<lambda>x. x\<lparr>ap_consumed_at := Some now\<rparr>) tbl"
  | (decide) P v who now where "\<And>r. P r \<Longrightarrow> ap_status r = ''pending''"
      "tbl' = sql_update P (\<lambda>r. r\<lparr>ap_status := v, ap_decided_by := who, ap_decided_at := now\<rparr>) tbl"
  using assms
proof (cases rule: approval_step.cases)
  case (step_consume locked now ws a h x)
  show ?thesis
  proof (cases x)
    case None
    with step_consume consume_None(1) same show ?thesis by metis
  next
    case (Some i)
    with step_consume show ?thesis by (auto elim!: consume_Some intro: use)
  qed
next
  case (step_pending newid now ws a h reason cj x2)
  then show ?thesis using same fresh by (auto simp: create_pending_def split: option.splits)
next
  case (step_create newid f now par ws body rep ev)
  then show ?thesis using same fresh by (auto simp: Create_approval_def split: option.splits if_splits)
next
  case (step_decide f f2 now ws i body2 rep ev)
  let ?P = "\<lambda>r. ap_id r = i \<and> ap_workspace r = ws \<and> ap_status r = ''pending''"
  from Decide_table [of f f2 now ws i body2 tbl] step_decide consider "tbl' = tbl"
    | v who where "tbl' = sql_update ?P (\<lambda>r. r\<lparr>ap_status := v, ap_decided_by := who, ap_decided_at := Some now\<rparr>) tbl"
    by (auto split: option.splits if_splits)
  then show ?thesis using same decide [of ?P] by cases auto
next
  case (step_withdraw f f2 f3 now ws i rep ev)
  let ?P = "\<lambda>r. ap_id r = i \<and> ap_status r = ''pending''"
  from step_withdraw have "tbl' = tbl \<or> tbl' = sql_update ?P (\<lambda>r. r\<lparr>ap_status := ''withdrawn'', ap_decided_by := Some ''requester'', ap_decided_at := Some now\<rparr>) tbl"
    by (auto simp: Withdraw_def Let_def split: option.splits if_splits)
  then show ?thesis using same decide [of ?P] by auto
qed

lemma approval_unique_step:
  assumes "unique_key ap_id tbl" and "approval_step tbl tbl'"
  shows "unique_key ap_id tbl'"
  using assms(2)
proof (cases rule: approval_step_effect)
  case (fresh r)
  with assms(1) show ?thesis by (simp add: unique_key_def)
qed (use assms(1) in \<open>simp_all add: unique_key_sql_update\<close>)

lemma approval_find_update:
  assumes "\<And>r. ap_id (f r) = ap_id r"
  shows "sql_find (\<lambda>r. ap_id r = i) (sql_update P f tbl) =
    map_option (\<lambda>r. if P r then f r else r) (sql_find (\<lambda>r. ap_id r = i) tbl)"
  by (rule sql_find_sql_update) (rule assms)

interpretation decisions: forward_only approval_status "\<lambda>v. v \<noteq> ''pending''" approval_step
proof unfold_locales
  fix tbl tbl' :: approval_table and i v :: string
  assume st: "approval_step tbl tbl'" and "approval_status tbl i = Some v" and v: "v \<noteq> ''pending''"
  then obtain r where r: "sql_find (\<lambda>r. ap_id r = i) tbl = Some r" "ap_status r = v" by (auto simp: approval_status_def)
  from st show "approval_status tbl' i = Some v"
  proof (cases rule: approval_step_effect)
    case (decide P w who now)
    with r v have "\<not> P r" by auto
    with decide(2) r show ?thesis by (simp add: approval_status_def approval_find_update)
  qed (use r in \<open>auto simp: approval_status_def sql_find_append approval_find_update\<close>)
qed

interpretation approvals: single_winner approval_used "\<lambda>used. used"
  "\<lambda>tbl tbl'. unique_key ap_id tbl \<and> approval_step tbl tbl'"
  "\<lambda>tbl tbl' i. unique_key ap_id tbl \<and> consumes tbl tbl' i"
proof unfold_locales
  fix tbl tbl' :: approval_table and i :: string and used :: bool
  show "approval_used tbl' i = Some used"
    if st: "unique_key ap_id tbl \<and> approval_step tbl tbl'" and "approval_used tbl i = Some used" "used"
  proof -
    from that obtain r where r: "sql_find (\<lambda>r. ap_id r = i) tbl = Some r" "ap_consumed_at r \<noteq> None"
      by (auto simp: approval_used_def)
    from st have "approval_step tbl tbl'" by simp
    then show ?thesis
      by (cases rule: approval_step_effect)
        (use r \<open>used\<close> in \<open>auto simp: approval_used_def sql_find_append approval_find_update\<close>)
  qed
  assume w: "unique_key ap_id tbl \<and> consumes tbl tbl' i"
  then obtain locked now ws a h where c: "consume_approval locked now ws a h tbl = (Some i, tbl')"
    by (auto simp: consumes_def)
  then show "unique_key ap_id tbl \<and> approval_step tbl tbl'" using w approval_step.step_consume by blast
  from c obtain r where r: "r \<in> set tbl" "usable ws a h r" "ap_id r = i"
    and t: "tbl' = sql_update (\<lambda>x. ap_id x = i) (\<lambda>x. x\<lparr>ap_consumed_at := Some now\<rparr>) tbl" by (rule consume_Some)
  from w r have f: "sql_find (\<lambda>r. ap_id r = i) tbl = Some r" using sql_find_key [of ap_id tbl r] by auto
  then show "\<exists>v. approval_used tbl i = Some v" by (simp add: approval_used_def)
  show "\<exists>v. approval_used tbl' i = Some v \<and> v"
    using f r(3) t by (intro exI [of _ True]) (simp add: approval_used_def approval_find_update)
  show "\<not> used" if "approval_used tbl i = Some used"
    using that f r(2) by (auto simp: approval_used_def usable_def)
qed


definition example_approval :: approval_row where
  "example_approval = \<lparr>ap_id = ''a1'', ap_workspace = ''w'', ap_task = None, ap_action = ''secret_write'',
     ap_reason = [], ap_context = [], ap_status = ''approved'', ap_decided_by = Some ''human'', ap_decided_at = Some 1,
     ap_created_at = 0, ap_consumed_at = None, ap_hash = Some ''h''\<rparr>"

lemma example_consume:
  "consume_approval (\<lambda>_. False) 5 ''w'' ''secret_write'' ''h'' [example_approval] =
     (Some ''a1'', [example_approval\<lparr>ap_consumed_at := Some 5\<rparr>])"
  by (simp add: consume_approval_def by_decided_def usable_def example_approval_def sql_update_Cons)


subsection \<open>The gate decides for one operation\<close>

lemma split_at_nul:
  assumes "a @ [z] @ b = a' @ [z] @ b'" and "z \<notin> set a" and "z \<notin> set a'"
  shows "a = a' \<and> b = b'"
  using assms by (induction a arbitrary: a') (auto simp: Cons_eq_append_conv append_eq_Cons_conv)

definition approval_message :: "(context_map \<Rightarrow> string) \<Rightarrow> string \<Rightarrow> string \<Rightarrow> context_map \<Rightarrow> string" where
  "approval_message marshal ws a ctx = ws @ [char_of (0 :: nat)] @ a @ [char_of (0 :: nat)] @ marshal ctx"

lemma approval_hash_inj:
  assumes "approvalRequestHash digest marshal ws a ctx = approvalRequestHash digest marshal ws' a' ctx'"
    and "inj_on digest {approval_message marshal ws a ctx, approval_message marshal ws' a' ctx'}"
    and "char_of (0 :: nat) \<notin> set ws \<union> set ws' \<union> set a \<union> set a'"
  shows "ws = ws' \<and> a = a' \<and> marshal ctx = marshal ctx'"
proof -
  have "digest (approval_message marshal ws a ctx) = digest (approval_message marshal ws' a' ctx')"
    using assms(1) unfolding approvalRequestHash_def approval_message_def by (rule hex_encode_inj)
  then have m: "approval_message marshal ws a ctx = approval_message marshal ws' a' ctx'"
    by (rule inj_onD [OF assms(2)]) simp_all
  have "ws = ws' \<and> a @ [char_of (0 :: nat)] @ marshal ctx = a' @ [char_of (0 :: nat)] @ marshal ctx'"
    by (rule split_at_nul) (use m assms(3) in \<open>auto simp: approval_message_def\<close>)
  then show ?thesis using split_at_nul [of a _ "marshal ctx" a' "marshal ctx'"] assms(3) by auto
qed

lemma action_string_no_nul: "char_of (0 :: nat) \<notin> set (action_string a)"
  by (cases a) (simp_all add: char_of_def)

text \<open>An admin-token caller that proceeds has used up a matching approval.\<close>

lemma gate_consumes:
  assumes "gateDestructive digest marshal osenv env c ws action reason ctx tbl = (None, tbl', ev)"
    and "IsGated action" and "callerIsAdminToken c" and "unique_key ap_id tbl"
  shows "\<exists>r \<in> set tbl. usable ws (action_string action) (approvalRequestHash digest marshal ws (action_string action) ctx) r
    \<and> approval_used tbl' (ap_id r) = Some True"
proof -
  let ?h = "approvalRequestHash digest marshal ws (action_string action) ctx"
  have "callerIsPrivileged c" using assms(3) by (simp add: callerIsPrivileged_def)
  with assms(1-3) obtain i where "requireApproval digest marshal env ws (action_string action) reason ctx tbl = (Approved i, tbl', ev)"
    by (auto simp: gateDestructive_def split: prod.splits gate_result.splits)
  then have "consume_approval (ge_locked env) (ge_now env) ws (action_string action) ?h tbl = (Some i, tbl')"
    by (auto simp: requireApproval_def Let_def split: if_splits prod.splits option.splits)
  then obtain r where r: "r \<in> set tbl" "usable ws (action_string action) ?h r" "ap_id r = i"
    and t: "tbl' = sql_update (\<lambda>x. ap_id x = i) (\<lambda>x. x\<lparr>ap_consumed_at := Some (ge_now env)\<rparr>) tbl" by (rule consume_Some)
  have "approval_used tbl' i = Some True"
    using sql_find_key [OF assms(4) r(1)] r(3) t by (simp add: approval_used_def approval_find_update)
  with r show ?thesis by blast
qed


definition plain_marshal :: "context_map \<Rightarrow> string" where
  "plain_marshal ctx = concat (map (\<lambda>(k, v). k @ ''='' @ v @ '';'') ctx)"

definition admin :: caller where "admin = \<lparr>cl_admin = Some (CtxBool True), cl_org_token = False\<rparr>"

definition gate_at :: "string \<Rightarrow> time \<Rightarrow> gate_env" where
  "gate_at newid now = \<lparr>ge_consume_fails = False, ge_create_fails = False, ge_locked = (\<lambda>_. False),
     ge_newid = newid, ge_now = now, ge_parent = Map.empty, ge_broadcaster = True\<rparr>"

definition matching_approval :: approval_row where
  "matching_approval = example_approval\<lparr>ap_hash := Some (approvalRequestHash id plain_marshal ''w'' ''secret_write'' [])\<rparr>"


text \<open>
  The delete gate is wired but not armed: \<open>delete_workspace\<close> is not in the policy map, so no
  caller is ever asked for an approval, with the rollout flag on or off.
\<close>

lemma delete_workspace_ungated:
  "gateDestructive digest marshal osenv env c ws ActionDeleteWorkspace reason ctx tbl = (None, tbl, [])"
  by (simp add: gateDestructive_def IsGated_def gated_def)

subsection \<open>The whole round trip\<close>

lemma requireApproval_consumes:
  assumes "\<not> ge_consume_fails env" and "ge_locked env = (\<lambda>_. False)" and "unique_key ap_id tbl"
    and "r \<in> set tbl" and "usable ws a (approvalRequestHash digest marshal ws a ctx) r"
    and "\<forall>x \<in> set tbl. usable ws a (approvalRequestHash digest marshal ws a ctx) x \<longrightarrow> ap_id x = ap_id r"
  shows "requireApproval digest marshal env ws a reason ctx tbl =
    (Approved (ap_id r), sql_update (\<lambda>x. ap_id x = ap_id r) (\<lambda>x. x\<lparr>ap_consumed_at := Some (ge_now env)\<rparr>) tbl, [])"
proof -
  obtain x tbl' where c: "consume_approval (\<lambda>_. False) (ge_now env) ws a (approvalRequestHash digest marshal ws a ctx) tbl = (x, tbl')"
    by fastforce
  show ?thesis
  proof (cases x)
    case None
    with consume_None(2) [of "\<lambda>_. False"] c assms(4,5) show ?thesis by blast
  next
    case (Some i)
    with c obtain r' where r': "r' \<in> set tbl" "usable ws a (approvalRequestHash digest marshal ws a ctx) r'" "ap_id r' = i"
      "tbl' = sql_update (\<lambda>x. ap_id x = i) (\<lambda>x. x\<lparr>ap_consumed_at := Some (ge_now env)\<rparr>) tbl"
      by (auto elim: consume_Some)
    with assms(6) have "i = ap_id r" by auto
    with c Some r'(4) assms(1,2) show ?thesis by (simp add: requireApproval_def)
  qed
qed

lemma requireApproval_pends:
  assumes "\<not> ge_consume_fails env" and "\<not> ge_create_fails env"
    and "\<forall>x \<in> set tbl. \<not> usable ws a (approvalRequestHash digest marshal ws a ctx) x"
    and "\<forall>x \<in> set tbl. \<not> (ap_workspace x = ws \<and> ap_action x = a
           \<and> ap_hash x = Some (approvalRequestHash digest marshal ws a ctx) \<and> ap_status x = ''pending'')"
  shows "\<exists>row ev. requireApproval digest marshal env ws a reason ctx tbl = (PendingApproval (ge_newid env), tbl @ [row], ev)
    \<and> ap_id row = ge_newid env \<and> ap_workspace row = ws \<and> ap_action row = a \<and> ap_status row = ''pending''
    \<and> ap_consumed_at row = None \<and> ap_hash row = Some (approvalRequestHash digest marshal ws a ctx)"
proof -
  have f: "filter (\<lambda>r. usable ws a (approvalRequestHash digest marshal ws a ctx) r \<and> \<not> ge_locked env (ap_id r)) tbl = []"
    using assms(3) by (simp add: filter_empty_conv)
  have "consume_approval (ge_locked env) (ge_now env) ws a (approvalRequestHash digest marshal ws a ctx) tbl = (None, tbl)"
    unfolding consume_approval_def f by (simp add: by_decided_def)
  moreover have "sql_find (\<lambda>r. ap_workspace r = ws \<and> ap_action r = a
      \<and> ap_hash r = Some (approvalRequestHash digest marshal ws a ctx) \<and> ap_status r = ''pending'') tbl = None"
    using assms(4) by (simp add: sql_find_None_iff)
  ultimately show ?thesis
    using assms(1,2) by (simp add: requireApproval_def create_pending_def)
qed

text \<open>
  ask, approve, do, and ask again. For an operation nobody has asked for yet, the first
  attempt is answered 202 with a fresh pending request and changes nothing else; after a human
  approves it the same operation proceeds; a third attempt of the same operation is answered
  202 with a new request, because the approval is spent.
\<close>

theorem approval_round_trip:
  assumes "IsGated action" and "callerIsAdminToken c" and "unique_key ap_id tbl"
    and "a = action_string action" and "h = approvalRequestHash digest marshal ws a ctx"
    and "\<forall>x \<in> set tbl. ap_hash x \<noteq> Some h"
    and "n1 \<notin> ap_id ` set tbl" and "n3 \<notin> ap_id ` set tbl" and "n3 \<noteq> n1"
  shows "\<exists>tbl1 tbl2 tbl3 tbl4 ev1 ev2 ev3 ev4.
      gateDestructive digest marshal osenv (gate_at n1 t1) c ws action reason ctx tbl = (Some (Answer202 n1), tbl1, ev1)
    \<and> Decide False False t2 ws n1 (Some (''approved'', who)) tbl1 = (ApprovalDone ''approved'' n1, tbl2, ev2)
    \<and> gateDestructive digest marshal osenv (gate_at n2 t3) c ws action reason ctx tbl2 = (None, tbl3, ev3)
    \<and> gateDestructive digest marshal osenv (gate_at n3 t4) c ws action reason ctx tbl3 = (Some (Answer202 n3), tbl4, ev4)"
proof -
  have gate: "gateDestructive digest marshal osenv env c ws action reason ctx t =
      (case requireApproval digest marshal env ws a reason ctx t of
         (GateError, tbl', ev) \<Rightarrow> (Some Answer500, tbl', ev)
       | (PendingApproval i, tbl', ev) \<Rightarrow> (Some (Answer202 i), tbl', ev)
       | (Approved i, tbl', ev) \<Rightarrow> (None, tbl', ev))" for env t
    using assms(1,2,4) by (simp add: gateDestructive_def callerIsPrivileged_def)
  have none: "\<not> usable ws a h x" if "x \<in> set tbl" for x using assms(6) that by (simp add: usable_def)
  obtain row ev1 where r1: "requireApproval digest marshal (gate_at n1 t1) ws a reason ctx tbl = (PendingApproval n1, tbl @ [row], ev1)"
    and row: "ap_id row = n1" "ap_workspace row = ws" "ap_action row = a" "ap_status row = ''pending''"
      "ap_consumed_at row = None" "ap_hash row = Some h"
    using requireApproval_pends [of "gate_at n1 t1" tbl ws a digest marshal ctx reason] none assms(5,6)
    by (auto simp: gate_at_def)
  define hit :: "approval_row \<Rightarrow> bool" where "hit = (\<lambda>r. ap_id r = n1 \<and> ap_workspace r = ws \<and> ap_status r = ''pending'')"
  define row2 where "row2 = row\<lparr>ap_status := ''approved'', ap_decided_by := Some (if who = [] then ''human'' else who), ap_decided_at := Some t2\<rparr>"
  have no_hit: "\<forall>x \<in> set tbl. \<not> hit x" using assms(7) by (auto simp: hit_def)
  have "sql_update hit f (tbl @ [row]) = tbl @ [f row]" for f
    using sql_update_none [OF no_hit, of f] row by (simp add: sql_update_def hit_def)
  moreover have "sql_affected hit (tbl @ [row]) \<noteq> 0" using row by (simp add: sql_affected_zero hit_def)
  ultimately have d: "\<exists>ev2. Decide False False t2 ws n1 (Some (''approved'', who)) (tbl @ [row]) = (ApprovalDone ''approved'' n1, tbl @ [row2], ev2)"
    by (simp add: Decide_def Let_def hit_def row2_def)
  have u2: "unique_key ap_id (tbl @ [row2])" using assms(3,7) row(1) by (simp add: unique_key_def row2_def)
  have us2: "usable ws a h row2" using row by (simp add: usable_def row2_def)
  define tbl3 where "tbl3 = sql_update (\<lambda>x. ap_id x = n1) (\<lambda>x. x\<lparr>ap_consumed_at := Some t3\<rparr>) (tbl @ [row2])"
  have r3: "requireApproval digest marshal (gate_at n2 t3) ws a reason ctx (tbl @ [row2]) = (Approved n1, tbl3, [])"
    using requireApproval_consumes [of "gate_at n2 t3" "tbl @ [row2]" row2 ws a digest marshal ctx reason] u2 us2 none assms(5) row(1)
    by (auto simp: gate_at_def tbl3_def row2_def)
  have t3: "tbl3 = tbl @ [row2\<lparr>ap_consumed_at := Some t3\<rparr>]"
  proof -
    have "\<forall>x \<in> set tbl. ap_id x \<noteq> n1" using assms(7) by auto
    from sql_update_none [OF this] show ?thesis using row(1) by (simp add: tbl3_def sql_update_def row2_def)
  qed
  obtain row4 ev4 where r4: "requireApproval digest marshal (gate_at n3 t4) ws a reason ctx tbl3 = (PendingApproval n3, tbl3 @ [row4], ev4)"
    using requireApproval_pends [of "gate_at n3 t4" tbl3 ws a digest marshal ctx reason] none assms(5,6)
    by (auto simp: gate_at_def t3 usable_def row2_def)
  from d r1 r3 r4 show ?thesis unfolding gate by auto
qed

theorem approval_round_trip_witness:
  "\<exists>tbl1 ev1. gateDestructive id plain_marshal (\<lambda>_. []) (gate_at ''a1'' 1) admin ''w'' ActionSecretWrite [] [] [] =
      (Some (Answer202 ''a1''), tbl1, ev1)"
proof -
  have "IsGated ActionSecretWrite" "callerIsAdminToken admin" "unique_key ap_id []"
    by (simp_all add: IsGated_def gated_def callerIsAdminToken_def admin_def unique_key_def)
  from approval_round_trip [OF this refl refl, of id plain_marshal "''w''" "[]" "''a1''" "''a3''" "\<lambda>_. []" 1 "[]"]
  show ?thesis by simp blast
qed

text \<open>
  a grant for a privileged delegation survives a hand-off that never happened. If the gate
  let a delegation pass on a consumed grant and the grant is then restored, the table is
  exactly as before the call, so the retry finds the grant again; restoring for another
  workspace, or when nothing was consumed, changes nothing.
\<close>

theorem grant_restored:
  assumes "unique_key ap_id tbl" and "delegationRequiresGrant osenv c"
    and "gatePrivilegedDelegation digest marshal osenv env c src target task tbl = ((None, g), tbl', ev)"
    and "g \<noteq> []"
  shows "restorePrivilegedDelegationGrant False src g tbl' = tbl
    \<and> (other \<noteq> src \<longrightarrow> restorePrivilegedDelegationGrant False other g tbl' = tbl')
    \<and> restorePrivilegedDelegationGrant False src [] tbl' = tbl'"
proof -
  from assms(2,3) have "requireApproval digest marshal env src (action_string ActionPrivilegedDelegate)
      (''privileged delegation to '' @ target) (privilegedDelegationContext digest target task) tbl = (Approved g, tbl', ev)"
    by (auto simp: gatePrivilegedDelegation_def split: prod.splits gate_result.splits)
  then obtain h where "consume_approval (ge_locked env) (ge_now env) src (action_string ActionPrivilegedDelegate) h tbl = (Some g, tbl')"
    by (auto simp: requireApproval_def Let_def split: if_splits prod.splits option.splits)
  then obtain r where r: "r \<in> set tbl" "usable src (action_string ActionPrivilegedDelegate) h r" "ap_id r = g"
    and t: "tbl' = sql_update (\<lambda>x. ap_id x = g) (\<lambda>x. x\<lparr>ap_consumed_at := Some (ge_now env)\<rparr>) tbl" by (rule consume_Some)
  have only: "x = r" if "x \<in> set tbl" "ap_id x = g" for x
    using unique_key_eq [OF assms(1) that(1) r(1)] that(2) r(3) by simp
  have r_open: "ap_workspace r = src" "ap_consumed_at r = None" using r(2) by (simp_all add: usable_def)
  let ?P = "\<lambda>ws r. ap_id r = g \<and> ap_workspace r = ws \<and> ap_consumed_at r \<noteq> None"
  have "sql_update (?P src) (\<lambda>r. r\<lparr>ap_consumed_at := None\<rparr>) tbl' = tbl"
    unfolding t sql_update_def map_map
  proof (rule map_idI)
    fix x
    assume x: "x \<in> set tbl"
    have keep: "r\<lparr>ap_consumed_at := None\<rparr> = r" using r_open(2) by (cases r) simp
    show "((\<lambda>r. if ?P src r then r\<lparr>ap_consumed_at := None\<rparr> else r) \<circ>
        (\<lambda>x. if ap_id x = g then x\<lparr>ap_consumed_at := Some (ge_now env)\<rparr> else x)) x = x"
    proof (cases "ap_id x = g")
      case True
      then have "x = r" by (rule only [OF x])
      with r(3) r_open keep show ?thesis by simp
    qed simp
  qed
  moreover have "sql_update (?P other) (\<lambda>r. r\<lparr>ap_consumed_at := None\<rparr>) tbl' = tbl'" if "other \<noteq> src"
  proof (rule sql_update_none, rule ballI)
    fix x
    assume "x \<in> set tbl'"
    then obtain y where y: "y \<in> set tbl" "ap_id x = ap_id y" "ap_workspace x = ap_workspace y"
      unfolding t by (auto simp: set_sql_update)
    show "\<not> ?P other x"
    proof
      assume "?P other x"
      with y only [OF y(1)] r_open(1) that show False by auto
    qed
  qed
  ultimately show ?thesis using assms(4) by (simp add: restorePrivilegedDelegationGrant_def)
qed


definition delegation_grant :: approval_row where
  "delegation_grant = example_approval\<lparr>ap_action := ''privileged_delegate'',
     ap_hash := Some (approvalRequestHash id plain_marshal ''w'' ''privileged_delegate''
       (privilegedDelegationContext id ''t'' ''task''))\<rparr>"

theorem grant_restored_witness:
  "\<exists>tbl' ev. gatePrivilegedDelegation id plain_marshal (\<lambda>_. ''1'') (gate_at ''a9'' 5) admin ''w'' ''t'' ''task''
       [delegation_grant] = ((None, ''a1''), tbl', ev)
     \<and> restorePrivilegedDelegationGrant False ''w'' ''a1'' tbl' = [delegation_grant]"
proof -
  let ?h = "approvalRequestHash id plain_marshal ''w'' ''privileged_delegate'' (privilegedDelegationContext id ''t'' ''task'')"
  have c: "consume_approval (\<lambda>_. False) 5 ''w'' ''privileged_delegate'' ?h
      [delegation_grant] = (Some ''a1'', [delegation_grant\<lparr>ap_consumed_at := Some 5\<rparr>])"
    by (simp add: consume_approval_def by_decided_def usable_def delegation_grant_def example_approval_def sql_update_Cons)
  have need: "delegationRequiresGrant (\<lambda>_. ''1'') admin"
    by (simp add: delegationRequiresGrant_def privilegedDelegationGateEnabled_def IsGated_def gated_def
        callerIsPrivileged_def callerIsAdminToken_def admin_def)
  have g: "gatePrivilegedDelegation id plain_marshal (\<lambda>_. ''1'') (gate_at ''a9'' 5) admin ''w'' ''t'' ''task''
       [delegation_grant] = ((None, ''a1''), [delegation_grant\<lparr>ap_consumed_at := Some 5\<rparr>], [])"
    by (simp add: gatePrivilegedDelegation_def need requireApproval_def gate_at_def c)
  have "unique_key ap_id [delegation_grant]" by (simp add: unique_key_def)
  from grant_restored [OF this need g] g show ?thesis by auto
qed

end
