(* ===== verification/Org_Token_Api.thy ===== *)
theory Org_Token_Api
  imports Auth Approvals
begin

text \<open>
  The endpoints of organisation tokens (\<^verbatim>\<open>internal/handlers/org_tokens.go\<close>) and of the first
  token of a managed workspace (\<^verbatim>\<open>internal/handlers/admin_workspace_tokens.go\<close>): what the
  middleware put into the request context decides whether a human has to approve a mint, who is
  recorded as its author and which organisation the new token is anchored to.
\<close>

subsection \<open>The caller\<close>

definition caller_of :: "auth_ctx \<Rightarrow> caller" where
  "caller_of cx = \<lparr>cl_admin = (if caller_is_admin_token cx then Some (CtxBool True) else None),
     cl_org_token = (org_token_id cx \<noteq> None)\<rparr>"

definition actorOrgTokenPrefix :: string where "actorOrgTokenPrefix = ''org-token:''"
definition actorSession :: string where "actorSession = ''session''"
definition actorAdminToken :: string where "actorAdminToken = ''admin-token''"

definition ctx_string :: "string option \<Rightarrow> string" where
  "ctx_string v = (case v of Some s \<Rightarrow> s | None \<Rightarrow> [])"

definition callerOrg :: "(string \<Rightarrow> string option) \<Rightarrow> bool \<Rightarrow> auth_ctx \<Rightarrow> token_db \<Rightarrow> string" where
  "callerOrg pg fails cx db =
    (case org_token_id cx of
       None \<Rightarrow> []
     | Some tokID \<Rightarrow>
        if tokID = [] then []
        else case OrgIDByTokenID pg fails tokID db of Inl _ \<Rightarrow> [] | Inr orgID \<Rightarrow> orgID)"

definition approvalAnchorForGate :: "(string \<Rightarrow> string option) \<Rightarrow> bool \<Rightarrow> environment \<Rightarrow> auth_ctx \<Rightarrow> token_db \<Rightarrow> string" where
  "approvalAnchorForGate pg fails osenv cx db =
    (let orgID = callerOrg pg fails cx db in
     if orgID \<noteq> [] then orgID
     else if callerIsAdminToken (caller_of cx) then osenv ''MOLECULE_PLATFORM_WORKSPACE_ID''
     else [])"

definition callerVerifiedSessionActor :: "auth_ctx \<Rightarrow> string" where
  "callerVerifiedSessionActor cx = ctx_string (cp_session_actor cx)"

definition orgTokenActorClass :: "auth_ctx \<Rightarrow> string" where
  "orgTokenActorClass cx =
    (if ctx_string (caller_credential_class cx) \<noteq> [] then ctx_string (caller_credential_class cx)
     else if ctx_string (org_token_prefix cx) \<noteq> [] then actorOrgTokenPrefix @ ctx_string (org_token_prefix cx)
     else if callerVerifiedSessionActor cx \<noteq> [] then actorSession
     else actorAdminToken)"

definition orgTokenActor :: "(string \<Rightarrow> string option) \<Rightarrow> bool \<Rightarrow> auth_ctx \<Rightarrow> token_db \<Rightarrow> string \<times> string" where
  "orgTokenActor pg fails cx db =
    (if ctx_string (org_token_prefix cx) \<noteq> [] then (actorOrgTokenPrefix @ ctx_string (org_token_prefix cx), callerOrg pg fails cx db)
     else if callerVerifiedSessionActor cx \<noteq> [] then
       (if ctx_string (cp_session_user_id cx) \<noteq> [] then (actorSession @ '':'' @ ctx_string (cp_session_user_id cx), [])
        else (callerVerifiedSessionActor cx, []))
     else (actorAdminToken, []))"

subsection \<open>Minting and revoking\<close>

record createOrgTokenRequest =
  co_Name :: string
  co_ExpiresAt :: "time option"

datatype org_response =
    OrgRejected int string
  | OrgGated gate_answer
  | OrgMinted string string string "time option" string
  | OrgRevoked string
  | OrgListed "org_token list"

record org_api =
  oa_db :: token_db
  oa_approvals :: approval_table

record mint_faults =
  mf_anchor :: bool
  mf_actor :: bool
  mf_count :: bool
  mf_insert :: bool
  mf_audit :: bool

definition List_org_tokens :: "bool \<Rightarrow> token_db \<Rightarrow> org_response" where
  "List_org_tokens fails db =
    (case List_org fails db of Inl _ \<Rightarrow> OrgRejected 500 ''failed to list tokens'' | Inr ts \<Rightarrow> OrgListed ts)"

definition no_anchor :: string where
  "no_anchor = ''no approval anchor for this caller class '' @ map char_of [226, 128, 148 :: nat]
     @ '' set MOLECULE_PLATFORM_WORKSPACE_ID for admin-token callers, or call via an org-token with a valid org''"

definition mint_now ::
  "(string \<Rightarrow> string) \<Rightarrow> (string \<Rightarrow> string option) \<Rightarrow> mint_faults \<Rightarrow> int \<Rightarrow> string \<Rightarrow> string option \<Rightarrow> time \<Rightarrow> AuditLogRequestContext
     \<Rightarrow> auth_ctx \<Rightarrow> createOrgTokenRequest \<Rightarrow> token_db \<Rightarrow> org_response \<times> token_db" where
  "mint_now sha pg mf ceiling fresh rnd now rc cx req db =
    (case orgTokenActor pg (mf_actor mf) cx db of
       (createdBy, orgID) \<Rightarrow>
         (case IssueWithExpiry sha pg (mf_count mf) (mf_insert mf) (mf_audit mf) ceiling fresh rnd now (co_Name req) createdBy orgID
                 (co_ExpiresAt req) rc db of
            (Inl ErrPastExpiry, db') \<Rightarrow> (OrgRejected 400 ''expires_at must be in the future'', db')
          | (Inl ErrMintCeilingExceeded, db') \<Rightarrow> (OrgRejected 429 ''org api token mint ceiling exceeded'', db')
          | (Inl _, db') \<Rightarrow> (OrgRejected 500 ''failed to mint token'', db')
          | (Inr (plaintext, i), db') \<Rightarrow> (OrgMinted i (take 8 plaintext) (co_Name req) (co_ExpiresAt req) plaintext, db')))"

text \<open>The request body: \<open>None\<close> is malformed JSON, an empty body is the request of zero values.\<close>

definition Create_org_token ::
  "(string \<Rightarrow> string) \<Rightarrow> (string \<Rightarrow> string option) \<Rightarrow> (context_map \<Rightarrow> string) \<Rightarrow> environment \<Rightarrow> gate_env \<Rightarrow> mint_faults \<Rightarrow> int \<Rightarrow> string
     \<Rightarrow> string option \<Rightarrow> time \<Rightarrow> AuditLogRequestContext \<Rightarrow> auth_ctx \<Rightarrow> createOrgTokenRequest option \<Rightarrow> org_api \<Rightarrow> org_response \<times> org_api" where
  "Create_org_token sha pg marshal osenv genv mf ceiling fresh rnd now rc cx body st =
    (case body of
       None \<Rightarrow> (OrgRejected 400 ''invalid JSON body'', st)
     | Some req \<Rightarrow>
        if length (co_Name req) > 100 then (OrgRejected 400 ''name too long (max 100 chars)'', st)
        else if callerVerifiedSessionActor cx \<noteq> [] then
          (case mint_now sha pg mf ceiling fresh rnd now rc cx req (oa_db st) of (r, db) \<Rightarrow> (r, st\<lparr>oa_db := db\<rparr>))
        else
          let ws = approvalAnchorForGate pg (mf_anchor mf) osenv cx (oa_db st) in
          if ws = [] then (OrgRejected 400 no_anchor, st)
          else
            (case gateDestructive sha marshal osenv genv (caller_of cx) ws ActionOrgTokenMint (''mint org token '' @ co_Name req)
                    [(''actor'', orgTokenActorClass cx), (''name'', co_Name req), (''workspace_id'', ws)] (oa_approvals st) of
               (Some ans, tbl, _) \<Rightarrow> (OrgGated ans, st\<lparr>oa_approvals := tbl\<rparr>)
             | (None, tbl, _) \<Rightarrow>
                 (case mint_now sha pg mf ceiling fresh rnd now rc cx req (oa_db st) of
                    (r, db) \<Rightarrow> (r, st\<lparr>oa_db := db, oa_approvals := tbl\<rparr>))))"

definition Revoke_org_token ::
  "(string \<Rightarrow> string option) \<Rightarrow> bool \<Rightarrow> bool \<Rightarrow> bool \<Rightarrow> time \<Rightarrow> AuditLogRequestContext \<Rightarrow> auth_ctx \<Rightarrow> string \<Rightarrow> token_db \<Rightarrow> org_response \<times> token_db" where
  "Revoke_org_token pg actor_fails fails audit_fails now rc cx i db =
    (if i = [] then (OrgRejected 400 ''id required'', db)
     else case orgTokenActor pg actor_fails cx db of
         (actor, _) \<Rightarrow>
           (case Revoke pg fails audit_fails now i rc actor db of
              (Inl _, db') \<Rightarrow> (OrgRejected 500 ''failed to revoke'', db')
            | (Inr ok, db') \<Rightarrow> (if ok then OrgRevoked i else OrgRejected 404 ''token not found or already revoked'', db')))"

subsection \<open>The first token of a workspace\<close>

definition Create_admin_token ::
  "(string \<Rightarrow> bool) \<Rightarrow> (string \<Rightarrow> string) \<Rightarrow> (string \<Rightarrow> string option) \<Rightarrow> bool \<Rightarrow> bool \<Rightarrow> bool \<Rightarrow> string \<Rightarrow> string option \<Rightarrow> time \<Rightarrow> string
     \<Rightarrow> token_db \<Rightarrow> token_response \<times> token_db" where
  "Create_admin_token uuid_ok sha pg lookup_fails count_fails fails fresh rnd now workspaceID db =
    (if \<not> uuid_ok workspaceID then (TokenRejected 400 ''invalid workspace id'', db)
     else case pg workspaceID of
         None \<Rightarrow> (TokenRejected 500 ''workspace lookup failed'', db)
       | Some ws \<Rightarrow>
          if lookup_fails then (TokenRejected 500 ''workspace lookup failed'', db)
          else if \<not> list_ex (\<lambda>w. wn_id w = ws \<and> wn_status w \<noteq> ''removed'') (td_workspaces db)
            then (TokenRejected 404 ''workspace not found'', db)
          else if count_fails then (TokenRejected 500 ''failed to count tokens'', db)
          else if count_live (\<lambda>t. wt_workspace t = ws) db \<ge> maxTokensPerWorkspace
            then (TokenRejected 429 (''maximum '' @ show_nat maxTokensPerWorkspace @ '' active tokens per workspace''), db)
          else case IssueAPIToken sha pg fails fresh rnd now workspaceID db of
              (Inl _, db') \<Rightarrow> (TokenRejected 500 ''failed to create token'', db')
            | (Inr token, db') \<Rightarrow> (TokenCreated token workspaceID, db'))"

subsection \<open>Who may mint\<close>

abbreviation mint_gate ::
  "(string \<Rightarrow> string) \<Rightarrow> (context_map \<Rightarrow> string) \<Rightarrow> environment \<Rightarrow> gate_env \<Rightarrow> auth_ctx \<Rightarrow> string \<Rightarrow> createOrgTokenRequest
     \<Rightarrow> approval_table \<Rightarrow> gate_answer option \<times> approval_table \<times> approval_event list" where
  "mint_gate sha marshal osenv genv cx ws req tbl \<equiv>
    gateDestructive sha marshal osenv genv (caller_of cx) ws ActionOrgTokenMint (''mint org token '' @ co_Name req)
      [(''actor'', orgTokenActorClass cx), (''name'', co_Name req), (''workspace_id'', ws)] tbl"

lemma Create_minted:
  assumes "Create_org_token sha pg marshal osenv genv mf ceiling fresh rnd now rc cx body st = (OrgMinted i pre nm ex p, st')"
  shows "\<exists>req. body = Some req
    \<and> mint_now sha pg mf ceiling fresh rnd now rc cx req (oa_db st) = (OrgMinted i pre nm ex p, oa_db st')
    \<and> (callerVerifiedSessionActor cx = [] \<longrightarrow>
         approvalAnchorForGate pg (mf_anchor mf) osenv cx (oa_db st) \<noteq> []
         \<and> (\<exists>ev. mint_gate sha marshal osenv genv cx (approvalAnchorForGate pg (mf_anchor mf) osenv cx (oa_db st)) req (oa_approvals st)
                = (None, oa_approvals st', ev)))"
proof (cases body)
  case None
  with assms show ?thesis by (simp add: Create_org_token_def)
next
  case (Some req)
  with assms show ?thesis
    by (cases "callerVerifiedSessionActor cx = []") (auto simp: Create_org_token_def Let_def split: if_splits prod.splits option.splits)
qed

lemma Create_after_gate:
  assumes "length (co_Name req) \<le> 100" and "callerVerifiedSessionActor cx = []"
    and "approvalAnchorForGate pg (mf_anchor mf) osenv cx (oa_db st) = ws" and "ws \<noteq> []"
    and "mint_gate sha marshal osenv genv cx ws req (oa_approvals st) = (None, tbl, ev)"
    and "mint_now sha pg mf ceiling fresh rnd now rc cx req (oa_db st) = (r, db)"
  shows "Create_org_token sha pg marshal osenv genv mf ceiling fresh rnd now rc cx (Some req) st = (r, st\<lparr>oa_db := db, oa_approvals := tbl\<rparr>)"
  using assms by (simp add: Create_org_token_def Let_def)


lemma bump_keeps_org:
  "map_option ot_org (sql_find (\<lambda>x. ot_id x = i) (td_org_tokens (bump_org_token b now k db)))
    = map_option ot_org (sql_find (\<lambda>x. ot_id x = i) (td_org_tokens db))"
  by (auto simp: bump_org_token_def sql_find_sql_update option.map_comp comp_def intro: option.map_cong0)

lemma Validate_keeps_org:
  "map_option ot_org (sql_find (\<lambda>x. ot_id x = i) (td_org_tokens (snd (Validate sha f b a now tok rc actor False db))))
    = map_option ot_org (sql_find (\<lambda>x. ot_id x = i) (td_org_tokens db))"
  by (auto simp: Validate_def bump_keeps_org split: option.splits)

lemma admitted_org_token:
  assumes "AdminAuth sha env fl now cl rc rq s = (Admitted cx, s1)" and "tokens_ok (as_db s)" and "org_token_id cx = Some i"
  shows "\<exists>t. org_credential sha now (BearerTokenFromHeader (hr_authorization rq)) (as_db s) t \<and> ot_id t = i
    \<and> org_token_prefix cx = Some (ot_prefix t)
    \<and> map_option ot_org (sql_find (\<lambda>x. ot_id x = i) (td_org_tokens (as_db s1))) = Some (ot_org t)"
proof -
  let ?tok = "BearerTokenFromHeader (hr_authorization rq)"
  have b: "\<exists>t. org_credential sha now ?tok (as_db s) t \<and> ot_id t = i \<and> org_token_prefix cx = Some (ot_prefix t)
      \<and> map_option ot_org (sql_find (\<lambda>x. ot_id x = i) (td_org_tokens (as_db s1))) = Some (ot_org t)"
    if "admin_bearer sha env fl now rc rq s' = (Admitted cx, s1)" and "as_db s' = as_db s" for s'
  proof (cases "?tok = []")
    case True
    with that(1) show ?thesis by (simp add: admin_bearer_def Let_def)
  next
    case False
    obtain r s2 where o': "org_bearer sha fl now ?tok rc s' = (r, s2)" by fastforce
    with that(1) False assms(3) obtain pre g where r: "r = Inr (i, pre, g)" and cx: "cx = org_ctx i pre g" and s1: "s1 = s2"
      by (auto simp: admin_bearer_def Let_def org_ctx_def empty_ctx_def split: if_splits prod.splits sum.splits token_error.splits)
    let ?v = "Validate sha (af_org_lookup fl) (af_org_bump fl) False now ?tok rc [] False (as_db s)"
    have v: "fst ?v = Inr (i, pre, g)" "as_db s1 = snd ?v"
      using o' r s1 that(2) by (auto simp: org_bearer_def split: prod.splits)
    with Validate_Inr [OF assms(2) False] obtain t where t: "org_credential sha now ?tok (as_db s) t" "i = ot_id t" "pre = ot_prefix t" by blast
    then have "sql_find (\<lambda>x. ot_id x = i) (td_org_tokens (as_db s)) = Some t"
      using sql_find_key [of ot_id _ t] assms(2) by (simp add: tokens_ok_def org_credential_def)
    then have "map_option ot_org (sql_find (\<lambda>x. ot_id x = i) (td_org_tokens (as_db s1))) = Some (ot_org t)"
      unfolding v(2) Validate_keeps_org by simp
    with t show ?thesis using cx by (auto simp: org_ctx_def empty_ctx_def)
  qed
  with assms(1,3) show ?thesis
    by (auto simp: AdminAuth_def session_ctx_def empty_ctx_def split: if_splits prod.splits sum.splits)
qed

lemma mint_now_row:
  assumes "mint_now sha pg mf ceiling fresh rnd now rc cx req db = (OrgMinted i pre nm ex p, db')"
  shows "\<exists>n. td_org_tokens db' = td_org_tokens db @ [n] \<and> ot_org n = Option.bind (nullif_empty (snd (orgTokenActor pg (mf_actor mf) cx db))) pg
    \<and> ot_hash n = sha p"
proof -
  obtain cb g where a: "orgTokenActor pg (mf_actor mf) cx db = (cb, g)" by fastforce
  with assms have "IssueWithExpiry sha pg (mf_count mf) (mf_insert mf) (mf_audit mf) ceiling fresh rnd now (co_Name req) cb g
      (co_ExpiresAt req) rc db = (Inr (p, i), db')"
    by (auto simp: mint_now_def split: prod.splits sum.splits token_error.splits)
  then show ?thesis
    by (auto simp: a IssueWithExpiry_def mint_insert_def Let_def split: sum.splits option.splits if_splits)
qed

text \<open>
  a token minted with an organisation token stays in its organisation. A caller that
  \<open>AdminAuth\<close> admitted by an organisation token gets a new token anchored exactly as its own;
  but when the read of its own anchor fails at that point, the new token has no anchor at all.
\<close>

theorem mint_inherits_org:
  assumes "AdminAuth sha env fl now cl rc rq s = (Admitted cx, s1)" and "tokens_ok (as_db s)" and "org_token_id cx = Some i"
    and "Create_org_token sha pg marshal osenv genv mf ceiling fresh rnd later rc cx body st = (OrgMinted j pre nm ex p, st')"
    and "oa_db st = as_db s1"
    and "\<forall>t \<in> set (td_org_tokens (as_db s)). ot_id t \<noteq> [] \<and> pg (ot_id t) = Some (ot_id t) \<and> ot_prefix t \<noteq> []
           \<and> (\<forall>g. ot_org t = Some g \<longrightarrow> g \<noteq> [] \<and> pg g = Some g)"
  shows "\<exists>t n. org_credential sha now (BearerTokenFromHeader (hr_authorization rq)) (as_db s) t \<and> ot_id t = i
    \<and> td_org_tokens (oa_db st') = td_org_tokens (oa_db st) @ [n] \<and> ot_hash n = sha p
    \<and> ot_org n = (if mf_actor mf then None else ot_org t)"
proof -
  from admitted_org_token [OF assms(1,2,3)] obtain t where t: "org_credential sha now (BearerTokenFromHeader (hr_authorization rq)) (as_db s) t"
    "ot_id t = i" "org_token_prefix cx = Some (ot_prefix t)"
    "map_option ot_org (sql_find (\<lambda>x. ot_id x = i) (td_org_tokens (as_db s1))) = Some (ot_org t)" by blast
  then have mem: "t \<in> set (td_org_tokens (as_db s))" by (simp add: org_credential_def)
  with assms(6) have w: "i \<noteq> []" "pg i = Some i" "ot_prefix t \<noteq> []" "\<And>g. ot_org t = Some g \<Longrightarrow> g \<noteq> [] \<and> pg g = Some g"
    using t(2) by auto
  from t(4) obtain t' where "sql_find (\<lambda>x. ot_id x = i) (td_org_tokens (oa_db st)) = Some t'" "ot_org t' = ot_org t"
    unfolding assms(5) by blast
  then have "snd (orgTokenActor pg (mf_actor mf) cx (oa_db st)) = (if mf_actor mf then [] else case ot_org t of Some g \<Rightarrow> g | None \<Rightarrow> [])"
    using assms(3) t(3) w(1-3) by (simp add: orgTokenActor_def ctx_string_def callerOrg_def OrgIDByTokenID_def)
  moreover have "Option.bind (nullif_empty (case ot_org t of Some g \<Rightarrow> g | None \<Rightarrow> [])) pg = ot_org t"
    using w(4) by (cases "ot_org t") auto
  moreover from Create_minted [OF assms(4)] obtain req where
    m: "mint_now sha pg mf ceiling fresh rnd later rc cx req (oa_db st) = (OrgMinted j pre nm ex p, oa_db st')" by (elim exE conjE)
  moreover from mint_now_row [OF m] obtain n where "td_org_tokens (oa_db st') = td_org_tokens (oa_db st) @ [n]" "ot_hash n = sha p"
    "ot_org n = Option.bind (nullif_empty (snd (orgTokenActor pg (mf_actor mf) cx (oa_db st)))) pg" by blast
  ultimately show ?thesis using t by (intro exI [of _ t] exI [of _ n]) simp
qed

subsection \<open>Examples\<close>

definition plat_env :: environment where
  "plat_env k = (if k = ''MOLECULE_PLATFORM_WORKSPACE_ID'' then ''root'' else [])"

definition no_mint_faults :: mint_faults where
  "no_mint_faults = \<lparr>mf_anchor = False, mf_actor = False, mf_count = False, mf_insert = False, mf_audit = False\<rparr>"

definition ci_request :: createOrgTokenRequest where
  "ci_request = \<lparr>co_Name = ''ci'', co_ExpiresAt = None\<rparr>"

definition mint_approval :: approval_row where
  "mint_approval = example_approval\<lparr>ap_workspace := ''root'', ap_action := ''org_token_mint'',
     ap_hash := Some (approvalRequestHash id plain_marshal ''root'' ''org_token_mint''
       [(''actor'', ''admin-token''), (''name'', ''ci''), (''workspace_id'', ''root'')])\<rparr>"

definition mint_state :: org_api where
  "mint_state = \<lparr>oa_db = as_db (demo_state example_nodes), oa_approvals = [mint_approval]\<rparr>"

definition admin_ctx :: auth_ctx where
  "admin_ctx = empty_ctx\<lparr>caller_is_admin_token := True, caller_credential_class := Some ''admin-token''\<rparr>"

definition minted :: "org_response \<times> org_api" where
  "minted = Create_org_token id Some plain_marshal plat_env (gate_at ''a9'' 5) no_mint_faults 100 ''n1'' (Some ''random'') 5 no_req admin_ctx
     (Some ci_request) mint_state"

lemma mint_state_db: "oa_db mint_state = as_db (demo_state example_nodes)"
  and mint_state_approvals: "oa_approvals mint_state = [mint_approval]"
  by (simp_all add: mint_state_def)

lemma admin_admitted:
  "AdminAuth id acme_env healthy 0 (acme_call 0 True) no_req (demo_request [] ''root-secret'') (demo_state example_nodes)
    = (Admitted admin_ctx, demo_state example_nodes)"
proof -
  have b: "BearerTokenFromHeader (hr_authorization (demo_request [] ''root-secret'')) = ''root-secret''" using demo_bearer by simp
  have "org_bearer id healthy 0 ''root-secret'' no_req (demo_state example_nodes) = (Inl ErrInvalidToken, demo_state example_nodes)"
    by (simp add: org_bearer_def Validate_def healthy_def demo_state_def org_key_def sql_find_Cons)
  then show ?thesis
    by (simp add: AdminAuth_def HasAnyLiveTokenGlobal_def admin_bearer_def b Let_def admin_ctx_def)
      (simp add: demo_request_def healthy_def acme_env_def)
qed

lemma minted_by_admin: "\<exists>st'. minted = (OrgMinted ''n1'' (take 8 (b64_encode ''random'')) ''ci'' None (b64_encode ''random''), st')"
proof -
  have c: "consume_approval (\<lambda>_. False) 5 ''root'' ''org_token_mint'' (approvalRequestHash id plain_marshal ''root'' ''org_token_mint''
       [(''actor'', ''admin-token''), (''name'', ''ci''), (''workspace_id'', ''root'')]) [mint_approval]
      = (Some ''a1'', [mint_approval\<lparr>ap_consumed_at := Some 5\<rparr>])"
    by (simp add: consume_approval_def by_decided_def usable_def mint_approval_def example_approval_def sql_update_Cons)
  have anchor: "approvalAnchorForGate Some False plat_env admin_ctx db = ''root''" for db
    by (simp add: approvalAnchorForGate_def callerOrg_def admin_ctx_def empty_ctx_def caller_of_def callerIsAdminToken_def plat_env_def)
  have g: "mint_gate id plain_marshal plat_env (gate_at ''a9'' 5) admin_ctx ''root'' ci_request [mint_approval]
      = (None, [mint_approval\<lparr>ap_consumed_at := Some 5\<rparr>], [])"
    by (simp add: gateDestructive_def IsGated_def gated_def callerIsPrivileged_def callerIsAdminToken_def caller_of_def admin_ctx_def empty_ctx_def
        requireApproval_def gate_at_def ci_request_def orgTokenActorClass_def ctx_string_def c)
  have "\<exists>db'. mint_now id Some no_mint_faults 100 ''n1'' (Some ''random'') 5 no_req admin_ctx ci_request (as_db (demo_state example_nodes))
      = (OrgMinted ''n1'' (take 8 (b64_encode ''random'')) ''ci'' None (b64_encode ''random''), db')"
    by (simp add: mint_now_def orgTokenActor_def admin_ctx_def empty_ctx_def ctx_string_def callerVerifiedSessionActor_def IssueWithExpiry_def mint_check_def
        mint_insert_def Let_def no_mint_faults_def demo_state_def org_key_def ci_request_def enc6_def)
  then obtain db' where m: "mint_now id Some no_mint_faults 100 ''n1'' (Some ''random'') 5 no_req admin_ctx ci_request (as_db (demo_state example_nodes))
      = (OrgMinted ''n1'' (take 8 (b64_encode ''random'')) ''ci'' None (b64_encode ''random''), db')" by (rule exE)
  have "callerVerifiedSessionActor admin_ctx = []" by (simp add: callerVerifiedSessionActor_def ctx_string_def admin_ctx_def empty_ctx_def)
  moreover have "mf_anchor no_mint_faults = False" and "length (co_Name ci_request) \<le> 100" by (simp_all add: no_mint_faults_def ci_request_def)
  ultimately have "minted = (OrgMinted ''n1'' (take 8 (b64_encode ''random'')) ''ci'' None (b64_encode ''random''),
      \<lparr>oa_db = db', oa_approvals = [mint_approval\<lparr>ap_consumed_at := Some 5\<rparr>]\<rparr>)"
    unfolding minted_def by (subst Create_after_gate [OF _ _ _ _ g [folded mint_state_approvals] m [folded mint_state_db]]) (simp_all add: anchor mint_state_def)
  then show ?thesis by (rule exI)
qed


definition key_ctx :: auth_ctx where
  "key_ctx = org_ctx ''k'' ''key'' ''team''"

definition key_state :: auth_state where
  "key_state = (demo_state example_nodes)\<lparr>as_db := (as_db (demo_state example_nodes))\<lparr>td_org_tokens := [org_key\<lparr>ot_last_used := Some 0\<rparr>]\<rparr>\<rparr>"

lemma key_admitted:
  "AdminAuth id acme_env healthy 0 (acme_call 0 True) no_req (demo_request [] ''key'') (demo_state example_nodes) = (Admitted key_ctx, key_state)"
proof -
  have b: "BearerTokenFromHeader (hr_authorization (demo_request [] ''key'')) = ''key''" using demo_bearer by simp
  have "org_bearer id healthy 0 ''key'' no_req (demo_state example_nodes) = (Inr (''k'', ''key'', ''team''), key_state)"
    by (simp add: org_bearer_def Validate_def healthy_def demo_state_def org_key_def sql_find_Cons bump_org_token_def sql_update_Cons key_state_def)
  then show ?thesis
    by (simp add: AdminAuth_def HasAnyLiveTokenGlobal_def admin_bearer_def b Let_def key_ctx_def)
      (simp add: demo_request_def healthy_def)
qed

definition key_api :: org_api where
  "key_api = \<lparr>oa_db = as_db key_state, oa_approvals = []\<rparr>"

lemma key_api_db: "oa_db key_api = as_db key_state"
  and key_api_approvals: "oa_approvals key_api = []"
  by (simp_all add: key_api_def)

definition key_minted :: "org_response \<times> org_api" where
  "key_minted = Create_org_token id Some plain_marshal plat_env (gate_at ''a9'' 5) no_mint_faults 100 ''n1'' (Some ''random'') 5 no_req key_ctx
     (Some ci_request) key_api"

lemma key_mints:
  "\<exists>st'. key_minted
   = (OrgMinted ''n1'' (take 8 (b64_encode ''random'')) ''ci'' None (b64_encode ''random''), st')"
proof -
  have anchor: "callerOrg Some False key_ctx (as_db key_state) = ''team''"
    by (simp add: callerOrg_def key_ctx_def org_ctx_def empty_ctx_def OrgIDByTokenID_def key_state_def org_key_def sql_find_Cons)
  have "mf_actor no_mint_faults = False" by (simp add: no_mint_faults_def)
  then have actor: "orgTokenActor Some (mf_actor no_mint_faults) key_ctx (as_db key_state) = (''org-token:key'', ''team'')"
    by (simp add: orgTokenActor_def anchor) (simp add: key_ctx_def org_ctx_def empty_ctx_def ctx_string_def actorOrgTokenPrefix_def)
  have g: "mint_gate id plain_marshal plat_env (gate_at ''a9'' 5) key_ctx ''team'' ci_request [] = (None, [], [])"
    by (simp add: gateDestructive_def callerIsAdminToken_def caller_of_def key_ctx_def org_ctx_def empty_ctx_def destructiveGateEnabled_def plat_env_def Let_def)
  have "\<exists>db'. mint_now id Some no_mint_faults 100 ''n1'' (Some ''random'') 5 no_req key_ctx ci_request (as_db key_state)
      = (OrgMinted ''n1'' (take 8 (b64_encode ''random'')) ''ci'' None (b64_encode ''random''), db')"
    unfolding mint_now_def actor prod.case
    by (simp add: IssueWithExpiry_def mint_check_def mint_insert_def Let_def no_mint_faults_def key_state_def demo_state_def org_key_def ci_request_def
        live_count_def sql_affected_def example_nodes_def sql_find_Cons)
  then obtain db' where m: "mint_now id Some no_mint_faults 100 ''n1'' (Some ''random'') 5 no_req key_ctx ci_request (as_db key_state)
      = (OrgMinted ''n1'' (take 8 (b64_encode ''random'')) ''ci'' None (b64_encode ''random''), db')" by (rule exE)
  have c: "callerVerifiedSessionActor key_ctx = []" by (simp add: callerVerifiedSessionActor_def ctx_string_def key_ctx_def org_ctx_def empty_ctx_def)
  have l: "length (co_Name ci_request) \<le> 100" by (simp add: ci_request_def)
  have a: "approvalAnchorForGate Some (mf_anchor no_mint_faults) plat_env key_ctx (oa_db key_api) = ''team''"
    by (simp add: approvalAnchorForGate_def anchor key_api_db no_mint_faults_def)
  have n: "''team'' \<noteq> []" by simp
  have "mint_gate id plain_marshal plat_env (gate_at ''a9'' 5) key_ctx ''team'' ci_request (oa_approvals key_api) = (None, [], [])"
    unfolding key_api_approvals by (rule g)
  from Create_after_gate [OF l c a n this m [folded key_api_db]] show ?thesis unfolding key_minted_def by (rule exI)
qed

theorem mint_inherits_org_witness:
  "\<exists>n. td_org_tokens (oa_db (snd key_minted)) = [org_key\<lparr>ot_last_used := Some 0\<rparr>, n] \<and> ot_org n = Some ''team''"
proof -
  have k: "org_token_id key_ctx = Some ''k''" by (simp add: key_ctx_def org_ctx_def empty_ctx_def)
  have m: "\<not> mf_actor no_mint_faults" by (simp add: no_mint_faults_def)
  have w: "\<forall>t \<in> set (td_org_tokens (as_db (demo_state example_nodes))). ot_id t \<noteq> [] \<and> Some (ot_id t) = Some (ot_id t) \<and> ot_prefix t \<noteq> []
      \<and> (\<forall>g. ot_org t = Some g \<longrightarrow> g \<noteq> [] \<and> Some g = Some g)"
    by (simp add: demo_state_def org_key_def)
  from key_mints obtain st' where c: "key_minted = (OrgMinted ''n1'' (take 8 (b64_encode ''random'')) ''ci'' None (b64_encode ''random''), st')"
    by (rule exE)
  from mint_inherits_org [OF key_admitted demo_ok k c [unfolded key_minted_def] key_api_db w] obtain t n where
    t: "org_credential id 0 (BearerTokenFromHeader (hr_authorization (demo_request [] ''key''))) (as_db (demo_state example_nodes)) t"
    and n: "td_org_tokens (oa_db st') = td_org_tokens (as_db key_state) @ [n]" "ot_org n = ot_org t"
    unfolding key_api_db using m by auto
  from t have "ot_org t = Some ''team''" by (simp add: org_credential_def demo_state_def org_key_def)
  moreover have "td_org_tokens (as_db key_state) = [org_key\<lparr>ot_last_used := Some 0\<rparr>]" by (simp add: key_state_def)
  ultimately show ?thesis using n unfolding c by simp
qed

end
