(* ===== verification/Signed_Tokens.thy ===== *)
theory Signed_Tokens
  imports Tokens Json_Decode
begin

text \<open>
  The tokens the server signs instead of storing: the control and viewer tokens of a desktop
  (\<^verbatim>\<open>internal/handlers/workspace_display_control.go\<close>), the bearer of a desktop sidecar
  (\<^verbatim>\<open>internal/provisioner/desktop_token.go\<close>) and the boot token a workspace presents before it
  registers (\<^verbatim>\<open>internal/boottoken\<close>). \<open>HMAC-SHA256\<close> is the argument \<open>hmac\<close> and \<open>os.Getenv\<close> the
  argument \<open>osenv\<close>.

  The lemmas say what a verifier accepts: the text of a payload together with its code under the
  key of the workspace. The theorems follow for every \<open>hmac\<close>, so none of them needs more than
  that a code cannot be guessed.
\<close>

subsection \<open>Keys\<close>

definition signing_labels :: "string list" where
  "signing_labels = [''SECRETS_ENCRYPTION_KEY'', ''MOLECULE_CP_SHARED_SECRET'', ''PROVISION_SHARED_SECRET'']"

definition DesktopSigningRoot :: "(string \<Rightarrow> string \<Rightarrow> string) \<Rightarrow> (string \<Rightarrow> string) \<Rightarrow> string" where
  "DesktopSigningRoot hmac osenv =
    (if osenv ''DISPLAY_SESSION_SIGNING_SECRET'' \<noteq> [] then osenv ''DISPLAY_SESSION_SIGNING_SECRET''
     else case find (\<lambda>name. osenv name \<noteq> []) signing_labels of
         Some name \<Rightarrow> b64_encode (hmac (osenv name) ''molecule-desktop-signing/v1'')
       | None \<Rightarrow> [])"

definition deriveDisplayKey :: "(string \<Rightarrow> string \<Rightarrow> string) \<Rightarrow> (string \<Rightarrow> string) \<Rightarrow> string \<Rightarrow> string option" where
  "deriveDisplayKey hmac osenv workspaceID =
    (let root = DesktopSigningRoot hmac osenv in
     if root = [] \<or> workspaceID = [] then None
     else Some (hmac root (''molecule-display-token/v1|'' @ workspaceID)))"

definition DeriveDesktopControlToken :: "(string \<Rightarrow> string \<Rightarrow> string) \<Rightarrow> string \<Rightarrow> string \<Rightarrow> string" where
  "DeriveDesktopControlToken hmac secret workspaceID =
    (if secret = [] \<or> workspaceID = [] then [] else b64_encode (hmac secret (''desktop-control:'' @ workspaceID)))"

subsection \<open>Display tokens\<close>

definition unix :: "time \<Rightarrow> int" where
  "unix t = t div second"

definition signed :: "(string \<Rightarrow> string \<Rightarrow> string) \<Rightarrow> string \<Rightarrow> string \<Rightarrow> string" where
  "signed hmac key payload = b64_encode payload @ ''.'' @ b64_encode (hmac key payload)"

definition control_payload :: "string \<Rightarrow> string \<Rightarrow> time \<Rightarrow> string" where
  "control_payload workspaceID controlledBy expiresAt = join_str ''|'' [workspaceID, controlledBy, show_int (unix expiresAt)]"

definition signDisplaySessionToken ::
  "(string \<Rightarrow> string \<Rightarrow> string) \<Rightarrow> (string \<Rightarrow> string) \<Rightarrow> string \<Rightarrow> string \<Rightarrow> time \<Rightarrow> string" where
  "signDisplaySessionToken hmac osenv workspaceID controlledBy expiresAt =
    (case deriveDisplayKey hmac osenv workspaceID of
       None \<Rightarrow> []
     | Some key \<Rightarrow>
        if controlledBy = [] \<or> expiresAt = zero_time then []
        else signed hmac key (control_payload workspaceID controlledBy expiresAt))"

definition validateDisplaySessionToken ::
  "(string \<Rightarrow> string \<Rightarrow> string) \<Rightarrow> (string \<Rightarrow> string) \<Rightarrow> time \<Rightarrow> string \<Rightarrow> string \<Rightarrow> string \<Rightarrow> time \<Rightarrow> bool" where
  "validateDisplaySessionToken hmac osenv now token workspaceID controlledBy expiresAt =
    (case (deriveDisplayKey hmac osenv workspaceID, split_on (CHR ''.'') token) of
       (Some key, [p0, p1]) \<Rightarrow>
         if controlledBy = [] \<or> expiresAt = zero_time \<or> now > expiresAt then False
         else (case b64_decode p0 of
                 None \<Rightarrow> False
               | Some payload \<Rightarrow>
                   if payload \<noteq> control_payload workspaceID controlledBy expiresAt then False
                   else (case b64_decode p1 of None \<Rightarrow> False | Some sig \<Rightarrow> sig = hmac key payload))
     | _ \<Rightarrow> False)"

definition view_payload :: "string \<Rightarrow> time \<Rightarrow> string" where
  "view_payload workspaceID expiresAt = join_str ''|'' [''view'', workspaceID, show_int (unix expiresAt)]"

definition signDisplayViewerToken ::
  "(string \<Rightarrow> string \<Rightarrow> string) \<Rightarrow> (string \<Rightarrow> string) \<Rightarrow> string \<Rightarrow> time \<Rightarrow> string" where
  "signDisplayViewerToken hmac osenv workspaceID expiresAt =
    (case deriveDisplayKey hmac osenv workspaceID of
       None \<Rightarrow> []
     | Some key \<Rightarrow> if expiresAt = zero_time then [] else signed hmac key (view_payload workspaceID expiresAt))"

definition viewer_payload_ok :: "time \<Rightarrow> string \<Rightarrow> string \<Rightarrow> bool" where
  "viewer_payload_ok now workspaceID payload =
    (case split_on (CHR ''|'') payload of
       [f0, f1, f2] \<Rightarrow>
         if f0 \<noteq> ''view'' then False
         else if f1 \<noteq> workspaceID then False
         else (case atoi f2 of None \<Rightarrow> False | Some e \<Rightarrow> \<not> now > e * second)
     | _ \<Rightarrow> False)"

definition validateDisplayViewerToken ::
  "(string \<Rightarrow> string \<Rightarrow> string) \<Rightarrow> (string \<Rightarrow> string) \<Rightarrow> time \<Rightarrow> string \<Rightarrow> string \<Rightarrow> bool" where
  "validateDisplayViewerToken hmac osenv now token workspaceID =
    (case (deriveDisplayKey hmac osenv workspaceID, split_on (CHR ''.'') token) of
       (Some key, [p0, p1]) \<Rightarrow>
         (case (b64_decode p0, b64_decode p1) of
            (Some payload, Some sig) \<Rightarrow> if sig \<noteq> hmac key payload then False else viewer_payload_ok now workspaceID payload
          | _ \<Rightarrow> False)
     | _ \<Rightarrow> False)"

definition displaySessionTokenProtocolPrefix :: string where
  "displaySessionTokenProtocolPrefix = ''molecule-display-token.''"

definition displaySessionTokenFromRequest :: "string \<Rightarrow> string" where
  "displaySessionTokenFromRequest header =
    (case find (\<lambda>p. prefix displaySessionTokenProtocolPrefix p) (map TrimSpace (split_on (CHR '','') header)) of
       Some p \<Rightarrow> drop (length displaySessionTokenProtocolPrefix) p
     | None \<Rightarrow> [])"

definition displayViewerTTL :: duration where "displayViewerTTL = 300 * second"

text \<open>\<open>url.PathEscape\<close>.\<close>

definition path_unescaped :: "char \<Rightarrow> bool" where
  "path_unescaped c =
    (in_range 65 90 c \<or> in_range 97 122 c \<or> in_range 48 57 c \<or> c \<in> set ''-_.~$&+:=@'')"

definition hex_high :: "nat \<Rightarrow> char" where
  "hex_high n = char_of (if n < 10 then n + 48 else n + 55)"

definition PathEscape :: "string \<Rightarrow> string" where
  "PathEscape s = concat (map (\<lambda>c. if path_unescaped c then [c] else [CHR ''%'', hex_high (byte c div 16), hex_high (byte c mod 16)]) s)"

definition session_url :: "string \<Rightarrow> string \<Rightarrow> string" where
  "session_url workspaceID token =
    (if token = [] then [] else ''/workspaces/'' @ PathEscape workspaceID @ ''/display/session/websockify#token='' @ token)"

definition signedDisplaySessionURL ::
  "(string \<Rightarrow> string \<Rightarrow> string) \<Rightarrow> (string \<Rightarrow> string) \<Rightarrow> string \<Rightarrow> string \<Rightarrow> time \<Rightarrow> string" where
  "signedDisplaySessionURL hmac osenv workspaceID controlledBy expiresAt =
    session_url workspaceID (signDisplaySessionToken hmac osenv workspaceID controlledBy expiresAt)"

definition signedDisplayViewerURL :: "(string \<Rightarrow> string \<Rightarrow> string) \<Rightarrow> (string \<Rightarrow> string) \<Rightarrow> time \<Rightarrow> string \<Rightarrow> string" where
  "signedDisplayViewerURL hmac osenv now workspaceID =
    session_url workspaceID (signDisplayViewerToken hmac osenv workspaceID (now + displayViewerTTL))"

subsection \<open>Boot tokens\<close>

datatype boot_error = ErrMalformed | ErrBadSig | ErrExpired | ErrNoKey | ErrScope | ErrWorkspaceMismatch

record Claims =
  bc_WorkspaceID :: string
  bc_OrgID :: string
  bc_Expiry :: int
  bc_Scopes :: "string list"

definition ScopeBootEvent :: string where "ScopeBootEvent = ''boot-event''"
definition ScopeRestore :: string where "ScopeRestore = ''restore''"

definition HasScope :: "Claims \<Rightarrow> string \<Rightarrow> bool" where
  "HasScope c s = list_ex (\<lambda>x. x = s) (bc_Scopes c)"

definition boot_sign :: "(string \<Rightarrow> string \<Rightarrow> string) \<Rightarrow> string \<Rightarrow> string \<Rightarrow> string" where
  "boot_sign hmac key p = b64_encode (hmac key p)"

text \<open>\<open>json.Marshal\<close> of the claims and \<open>json.Unmarshal\<close> into a value are arguments.\<close>

definition Mint :: "(string \<Rightarrow> string \<Rightarrow> string) \<Rightarrow> (Claims \<Rightarrow> string) \<Rightarrow> string \<Rightarrow> Claims \<Rightarrow> boot_error + string" where
  "Mint hmac marshal key c =
    (if key = [] then Inl ErrBadSig
     else let p = b64_encode (marshal c) in Inr (p @ ''.'' @ boot_sign hmac key p))"

definition boot_split :: "string \<Rightarrow> (string \<times> string) option" where
  "boot_split token =
    (let p = takeWhile (\<lambda>c. c \<noteq> CHR ''.'') token; i = length p in
     if i = length token \<or> i = 0 \<or> i \<ge> length token - 1 then None
     else if CHR ''.'' \<in> set (drop (i + 1) token) then None
     else Some (p, drop (i + 1) token))"

definition LooksLike :: "string \<Rightarrow> bool" where
  "LooksLike token = (case boot_split token of None \<Rightarrow> False | Some (p, sig) \<Rightarrow> p \<noteq> [] \<and> sig \<noteq> [])"

definition decode_claims :: "(string \<Rightarrow> json option) \<Rightarrow> string \<Rightarrow> boot_error + Claims" where
  "decode_claims parse p =
    (case Option.bind (b64_decode p) parse of
       None \<Rightarrow> Inl ErrMalformed
     | Some j \<Rightarrow>
        (case (decode_field ''wsid'' decode_string j [], decode_field ''org'' decode_string j [],
               decode_field ''exp'' decode_int j 0, decode_field ''scope'' decode_strings j []) of
           (Some w, Some g, Some e, Some sc) \<Rightarrow> Inr \<lparr>bc_WorkspaceID = w, bc_OrgID = g, bc_Expiry = e, bc_Scopes = sc\<rparr>
         | _ \<Rightarrow> Inl ErrMalformed))"

definition ParseUnverified :: "(string \<Rightarrow> json option) \<Rightarrow> string \<Rightarrow> boot_error + Claims" where
  "ParseUnverified parse token = (case boot_split token of None \<Rightarrow> Inl ErrMalformed | Some (p, _) \<Rightarrow> decode_claims parse p)"

definition Verify ::
  "(string \<Rightarrow> string \<Rightarrow> string) \<Rightarrow> (string \<Rightarrow> json option) \<Rightarrow> string \<Rightarrow> string \<Rightarrow> time \<Rightarrow> boot_error + Claims" where
  "Verify hmac parse token key now =
    (case boot_split token of
       None \<Rightarrow> Inl ErrMalformed
     | Some (p, sig) \<Rightarrow>
        if key = [] then Inl ErrBadSig
        else if sig \<noteq> boot_sign hmac key p then Inl ErrBadSig
        else and_then (decode_claims parse p) (\<lambda>c. if unix now > bc_Expiry c then Inl ErrExpired else Inr c))"

definition VerifyRestore ::
  "(string \<Rightarrow> string \<Rightarrow> string) \<Rightarrow> (string \<Rightarrow> json option) \<Rightarrow> (string \<Rightarrow> string) \<Rightarrow> string \<Rightarrow> string \<Rightarrow> time \<Rightarrow> string \<Rightarrow> boot_error + Claims" where
  "VerifyRestore hmac parse osenv token wsID now keyOverride =
    (let key = (if keyOverride = [] then osenv ''ADMIN_TOKEN'' else keyOverride) in
     if key = [] then Inl ErrNoKey
     else and_then (Verify hmac parse token key now) (\<lambda>c.
       if \<not> HasScope c ScopeRestore then Inl ErrScope
       else if wsID = [] \<or> bc_WorkspaceID c \<noteq> wsID then Inl ErrWorkspaceMismatch
       else Inr c))"

subsection \<open>What the verifiers accept\<close>

lemma split_dot: "split_on (CHR ''.'') (b64_encode a @ ''.'' @ b64_encode b) = [b64_encode a, b64_encode b]"
  by (simp add: split_on_append split_on_free b64_encode_free)

lemma split_parts2: "split_on sep s = [a, b] \<Longrightarrow> s = a @ sep # b"
  using join_split [of sep s] by simp

lemma split_parts3: "split_on sep s = [a, b, c] \<Longrightarrow> s = a @ sep # b @ sep # c"
  using join_split [of sep s] by simp

lemma session_token_iff:
  "validateDisplaySessionToken hmac osenv now token ws holder e \<longleftrightarrow>
    holder \<noteq> [] \<and> e \<noteq> zero_time \<and> now \<le> e
    \<and> (\<exists>key p0 p1. deriveDisplayKey hmac osenv ws = Some key \<and> split_on (CHR ''.'') token = [p0, p1]
        \<and> b64_decode p0 = Some (control_payload ws holder e) \<and> b64_decode p1 = Some (hmac key (control_payload ws holder e)))"
  by (auto simp: validateDisplaySessionToken_def split: option.splits list.splits)

lemma viewer_payload_iff:
  "viewer_payload_ok now ws x \<longleftrightarrow> (\<exists>e n. split_on (CHR ''|'') x = [''view'', ws, e] \<and> atoi e = Some n \<and> now \<le> n * second)"
  by (auto simp: viewer_payload_ok_def split: option.splits list.splits)

lemma viewer_token_iff:
  "validateDisplayViewerToken hmac osenv now token ws \<longleftrightarrow>
    (\<exists>key p0 p1 x. deriveDisplayKey hmac osenv ws = Some key \<and> split_on (CHR ''.'') token = [p0, p1]
        \<and> viewer_payload_ok now ws x \<and> b64_decode p0 = Some x \<and> b64_decode p1 = Some (hmac key x))"
  by (auto simp: validateDisplayViewerToken_def split: option.splits list.splits)

lemma split_bar:
  "CHR ''|'' \<notin> set a \<Longrightarrow> CHR ''|'' \<notin> set b \<Longrightarrow> CHR ''|'' \<notin> set c \<Longrightarrow> split_on (CHR ''|'') (join_str ''|'' [a, b, c]) = [a, b, c]"
  by (simp add: split_on_append split_on_free)

lemma show_int_bar [simp]: "CHR ''|'' \<notin> set (show_int i)"
  by (rule show_int_free) (simp_all add: is_digit_def)

lemma control_payload_head: "CHR ''|'' \<notin> set ws \<Longrightarrow> \<exists>r. split_on (CHR ''|'') (control_payload ws holder e) = ws # r"
  by (simp add: control_payload_def split_on_append)

lemma append_eq_append_conv_free:
  assumes "c \<notin> set a" and "c \<notin> set b" and "a @ c # x = b @ c # y"
  shows "a = b \<and> x = y"
proof -
  have "takeWhile (\<lambda>d. d \<noteq> c) (a @ c # x) = a" "takeWhile (\<lambda>d. d \<noteq> c) (b @ c # y) = b"
    using assms(1,2) by (auto simp: takeWhile_append)
  with assms(3) show ?thesis by simp
qed

lemma control_payload_inj:
  assumes "control_payload ws holder e = control_payload ws' holder' e'" and "CHR ''|'' \<notin> set ws" and "CHR ''|'' \<notin> set ws'"
    and "fits_int64 (unix e)" and "fits_int64 (unix e')"
  shows "ws = ws' \<and> holder = holder' \<and> unix e = unix e'"
proof -
  have w: "ws = ws'" using control_payload_head [OF assms(2), of holder e] control_payload_head [OF assms(3), of holder' e'] assms(1) by auto
  with assms(1) have "rev (holder @ ''|'' @ show_int (unix e)) = rev (holder' @ ''|'' @ show_int (unix e'))"
    by (simp add: control_payload_def)
  then have "rev (show_int (unix e)) @ CHR ''|'' # rev holder = rev (show_int (unix e')) @ CHR ''|'' # rev holder'" by simp
  then have "show_int (unix e) = show_int (unix e') \<and> holder = holder'"
    using append_eq_append_conv_free [of "CHR ''|''" "rev (show_int (unix e))" "rev (show_int (unix e'))" "rev holder" "rev holder'"]
    by simp
  with w show_int_inj [OF assms(4,5)] show ?thesis by blast
qed


definition plain_id :: "string \<Rightarrow> bool" where
  "plain_id ws = (ws \<noteq> [] \<and> ws \<noteq> ''view'' \<and> CHR ''|'' \<notin> set ws)"

lemma signed_session_accepted:
  assumes "deriveDisplayKey hmac osenv ws = Some key" and "holder \<noteq> []" and "e \<noteq> zero_time"
    and "holder' \<noteq> []" and "e' \<noteq> zero_time" and "plain_id ws" and "plain_id ws'"
    and "fits_int64 (unix e)" and "fits_int64 (unix e')"
  shows "validateDisplaySessionToken hmac osenv now (signDisplaySessionToken hmac osenv ws holder e) ws' holder' e' \<longleftrightarrow>
    ws' = ws \<and> holder' = holder \<and> unix e' = unix e \<and> now \<le> e'"
proof -
  have t: "signDisplaySessionToken hmac osenv ws holder e = signed hmac key (control_payload ws holder e)"
    using assms(1-3) by (simp add: signDisplaySessionToken_def)
  have "control_payload ws holder e = control_payload ws' holder' e' \<longleftrightarrow> ws' = ws \<and> holder' = holder \<and> unix e' = unix e"
    using control_payload_inj [of ws holder e ws' holder' e'] assms(6-9) by (auto simp: plain_id_def control_payload_def)
  then show ?thesis
    unfolding session_token_iff t signed_def split_dot using assms(1,4,5) by (auto simp: b64_round_trip)
qed

lemma signed_viewer_accepted:
  assumes "deriveDisplayKey hmac osenv ws = Some key" and "e \<noteq> zero_time" and "plain_id ws" and "plain_id ws'" and "fits_int64 (unix e)"
  shows "validateDisplayViewerToken hmac osenv now (signDisplayViewerToken hmac osenv ws e) ws' \<longleftrightarrow> ws' = ws \<and> now \<le> unix e * second"
proof -
  have t: "signDisplayViewerToken hmac osenv ws e = signed hmac key (view_payload ws e)"
    using assms(1,2) by (simp add: signDisplayViewerToken_def)
  have "split_on (CHR ''|'') (view_payload ws e) = [''view'', ws, show_int (unix e)]"
    unfolding view_payload_def using assms(3) by (intro split_bar) (simp_all add: plain_id_def)
  then have "viewer_payload_ok now ws' (view_payload ws e) \<longleftrightarrow> ws' = ws \<and> now \<le> unix e * second"
    unfolding viewer_payload_iff using atoi_show_int [OF assms(5)] by auto
  then show ?thesis
    unfolding viewer_token_iff t signed_def split_dot using assms(1) by (auto simp: b64_round_trip)
qed

lemma viewer_is_no_control:
  assumes "plain_id ws" and "validateDisplayViewerToken hmac osenv now token ws"
  shows "\<not> validateDisplaySessionToken hmac osenv now' token ws holder e"
proof
  assume "validateDisplaySessionToken hmac osenv now' token ws holder e"
  then have p: "Option.bind (Some (hd (split_on (CHR ''.'') token))) b64_decode = Some (control_payload ws holder e)"
    unfolding session_token_iff by auto
  from assms(2) have "\<exists>x. viewer_payload_ok now ws x \<and> Option.bind (Some (hd (split_on (CHR ''.'') token))) b64_decode = Some x"
    unfolding viewer_token_iff by auto
  with p have "viewer_payload_ok now ws (control_payload ws holder e)" by auto
  then have "hd (split_on (CHR ''|'') (control_payload ws holder e)) = ''view''" unfolding viewer_payload_iff by auto
  with control_payload_head [of ws holder e] assms(1) show False by (auto simp: plain_id_def)
qed

text \<open>
  a control token opens exactly what it was signed for. The token of a lease is accepted for its
  workspace, its holder and its expiry second only, until the expiry; a viewer token for its
  workspace only, until the second its expiry falls in. Whatever text is accepted as one of them
  is not accepted as the other, and carries the code of its payload under the key of the
  workspace.
\<close>

theorem display_tokens_exact:
  assumes "deriveDisplayKey hmac osenv ws = Some key" and "plain_id ws" and "plain_id ws'" and "fits_int64 (unix e)" and "e \<noteq> zero_time"
    and "holder \<noteq> []"
  shows "(holder' \<noteq> [] \<and> e' \<noteq> zero_time \<and> fits_int64 (unix e') \<longrightarrow>
        (validateDisplaySessionToken hmac osenv now (signDisplaySessionToken hmac osenv ws holder e) ws' holder' e' \<longleftrightarrow>
          ws' = ws \<and> holder' = holder \<and> unix e' = unix e \<and> now \<le> e'))
    \<and> (validateDisplayViewerToken hmac osenv now (signDisplayViewerToken hmac osenv ws e) ws' \<longleftrightarrow> ws' = ws \<and> now \<le> unix e * second)
    \<and> \<not> (validateDisplayViewerToken hmac osenv now token ws \<and> validateDisplaySessionToken hmac osenv now token ws holder' e')
    \<and> (validateDisplayViewerToken hmac osenv now token ws \<or> validateDisplaySessionToken hmac osenv now token ws holder' e' \<longrightarrow>
        (\<exists>p0 p1 x. token = p0 @ ''.'' @ p1 \<and> b64_decode p0 = Some x \<and> b64_decode p1 = Some (hmac key x)))"
proof (intro conjI impI)
  assume "holder' \<noteq> [] \<and> e' \<noteq> zero_time \<and> fits_int64 (unix e')"
  then show "validateDisplaySessionToken hmac osenv now (signDisplaySessionToken hmac osenv ws holder e) ws' holder' e' \<longleftrightarrow>
      ws' = ws \<and> holder' = holder \<and> unix e' = unix e \<and> now \<le> e'"
    using signed_session_accepted [of hmac osenv ws key holder e holder' e' ws' now] assms by blast
next
  show "validateDisplayViewerToken hmac osenv now (signDisplayViewerToken hmac osenv ws e) ws' \<longleftrightarrow> ws' = ws \<and> now \<le> unix e * second"
    using signed_viewer_accepted [of hmac osenv ws key e ws' now] assms by blast
  show "\<not> (validateDisplayViewerToken hmac osenv now token ws \<and> validateDisplaySessionToken hmac osenv now token ws holder' e')"
    using viewer_is_no_control [OF assms(2)] by blast
  assume "validateDisplayViewerToken hmac osenv now token ws \<or> validateDisplaySessionToken hmac osenv now token ws holder' e'"
  then obtain p0 p1 x where "split_on (CHR ''.'') token = [p0, p1]" "b64_decode p0 = Some x" "b64_decode p1 = Some (hmac key x)"
    unfolding viewer_token_iff session_token_iff assms(1) by auto
  then show "\<exists>p0 p1 x. token = p0 @ ''.'' @ p1 \<and> b64_decode p0 = Some x \<and> b64_decode p1 = Some (hmac key x)"
    using split_parts2 [of "CHR ''.''" token p0 p1] by auto
qed


subsection \<open>Boot tokens restore their own workspace\<close>

definition claims_json :: "Claims \<Rightarrow> json" where
  "claims_json c = JObj [(''wsid'', JStr (bc_WorkspaceID c)), (''org'', JStr (bc_OrgID c)), (''exp'', JInt (bc_Expiry c)),
     (''scope'', JArr (map JStr (bc_Scopes c)))]"

lemma those_map_Some: "(\<And>x. x \<in> set xs \<Longrightarrow> f x = Some (g x)) \<Longrightarrow> those (map f xs) = Some (map g xs)"
  by (induction xs) auto

lemma decode_strings_JStr: "decode_strings (JArr (map JStr xs)) acc = Some xs"
proof -
  have "those (map (\<lambda>i. decode_string (map JStr xs ! i) (if i < length acc then acc ! i else [])) [0..<length xs]) = Some (map ((!) xs) [0..<length xs])"
    by (rule those_map_Some) simp
  then show ?thesis by (simp add: map_nth)
qed

lemma decode_claims_json:
  assumes "b64_decode p = Some raw" and "parse raw = Some (claims_json c)" and "fits_int64 (bc_Expiry c)"
  shows "decode_claims parse p = Inr c"
  using assms decode_strings_JStr [of "bc_Scopes c" "[]"]
  by (simp add: decode_claims_def claims_json_def decode_field_def fold_name_def ascii_lower_def)

lemma boot_split_iff: "boot_split token = Some (p, s) \<longleftrightarrow> p \<noteq> [] \<and> s \<noteq> [] \<and> CHR ''.'' \<notin> set p \<and> CHR ''.'' \<notin> set s \<and> token = p @ ''.'' @ s"
proof
  assume b: "boot_split token = Some (p, s)"
  let ?p = "takeWhile (\<lambda>c. c \<noteq> CHR ''.'') token"
  from b have p: "p = ?p" "length ?p < length token - 1" "?p \<noteq> []" "s = drop (length ?p + 1) token" "CHR ''.'' \<notin> set s"
    by (auto simp: boot_split_def Let_def split: if_splits)
  from p(2) have l: "length ?p < length token" by simp
  have "token ! length ?p = CHR ''.''" using nth_length_takeWhile [OF l] by simp
  then have "drop (length ?p) token = CHR ''.'' # s" using Cons_nth_drop_Suc [OF l] p(4) by simp
  then have t: "token = p @ ''.'' @ s" using takeWhile_eq_take [of "\<lambda>c. c \<noteq> CHR ''.''" token] p(1) append_take_drop_id [of "length ?p" token] by simp
  moreover have "CHR ''.'' \<notin> set p" using p(1) set_takeWhileD by fastforce
  moreover have "s \<noteq> []" using p(2,4) by simp
  moreover have "p \<noteq> []" using p(1,3) by simp
  ultimately show "p \<noteq> [] \<and> s \<noteq> [] \<and> CHR ''.'' \<notin> set p \<and> CHR ''.'' \<notin> set s \<and> token = p @ ''.'' @ s" using p(5) by (intro conjI)
next
  assume a: "p \<noteq> [] \<and> s \<noteq> [] \<and> CHR ''.'' \<notin> set p \<and> CHR ''.'' \<notin> set s \<and> token = p @ ''.'' @ s"
  then have "takeWhile (\<lambda>c. c \<noteq> CHR ''.'') token = p" by (auto simp: takeWhile_append)
  with a show "boot_split token = Some (p, s)" by (auto simp: boot_split_def Let_def neq_Nil_conv)
qed

text \<open>
  a boot token restores the workspace it names and no other. The minted token verifies until its
  expiry and restores exactly the workspace of its claims, when they grant the restore scope; and
  every text that restores a workspace is a payload followed by the encoding of its code under
  the admin token, whose claims name that workspace, grant the restore scope and have not expired.
\<close>

theorem boot_token_restores:
  assumes "key \<noteq> []" and "marshal c \<noteq> []" and "\<And>k m. hmac k m \<noteq> []"
    and "parse (marshal c) = Some (claims_json c)" and "fits_int64 (bc_Expiry c)" and "Mint hmac marshal key c = Inr token"
    and "osenv ''ADMIN_TOKEN'' = key"
  shows "Verify hmac parse token key now = (if unix now \<le> bc_Expiry c then Inr c else Inl ErrExpired)
    \<and> (VerifyRestore hmac parse osenv token ws now [] = Inr c \<longleftrightarrow>
        unix now \<le> bc_Expiry c \<and> ScopeRestore \<in> set (bc_Scopes c) \<and> ws \<noteq> [] \<and> bc_WorkspaceID c = ws)
    \<and> (VerifyRestore hmac parse osenv text ws now [] = Inr d \<longrightarrow>
        bc_WorkspaceID d = ws \<and> ScopeRestore \<in> set (bc_Scopes d) \<and> unix now \<le> bc_Expiry d
        \<and> (\<exists>p. text = p @ ''.'' @ b64_encode (hmac key p) \<and> decode_claims parse p = Inr d))"
proof -
  let ?p = "b64_encode (marshal c)"
  have t: "token = ?p @ ''.'' @ b64_encode (hmac key ?p)" using assms(1,6) by (auto simp: Mint_def Let_def boot_sign_def)
  have s: "boot_split token = Some (?p, b64_encode (hmac key ?p))"
    unfolding boot_split_iff t using assms(2,3) b64_encode_free [of "CHR ''.''"] by simp
  have d: "decode_claims parse ?p = Inr c" by (rule decode_claims_json [OF b64_round_trip]) (use assms in auto)
  have v: "Verify hmac parse token key now = (if unix now \<le> bc_Expiry c then Inr c else Inl ErrExpired)"
    using assms(1) by (simp add: Verify_def s boot_sign_def d)
  have r: "VerifyRestore hmac parse osenv token ws now [] = Inr c \<longleftrightarrow>
      unix now \<le> bc_Expiry c \<and> ScopeRestore \<in> set (bc_Scopes c) \<and> ws \<noteq> [] \<and> bc_WorkspaceID c = ws"
    using assms(1,7) by (auto simp: VerifyRestore_def v HasScope_def list_ex_iff)
  have "bc_WorkspaceID d = ws \<and> ScopeRestore \<in> set (bc_Scopes d) \<and> unix now \<le> bc_Expiry d
      \<and> (\<exists>p. text = p @ ''.'' @ b64_encode (hmac key p) \<and> decode_claims parse p = Inr d)"
    if "VerifyRestore hmac parse osenv text ws now [] = Inr d"
  proof -
    from that assms(1,7) have x: "Verify hmac parse text key now = Inr d" "ScopeRestore \<in> set (bc_Scopes d)" "bc_WorkspaceID d = ws"
      by (auto simp: VerifyRestore_def and_then_Inr HasScope_def list_ex_iff split: if_splits)
    from x(1) assms(1) obtain p sig where b: "boot_split text = Some (p, sig)" "sig = boot_sign hmac key p" "decode_claims parse p = Inr d" "unix now \<le> bc_Expiry d"
      by (auto simp: Verify_def and_then_Inr split: option.splits if_splits)
    with x show ?thesis using b(1) [unfolded boot_split_iff] by (auto simp: boot_sign_def)
  qed
  with v r show ?thesis by blast
qed

subsection \<open>Examples\<close>

definition demo_hmac :: "string \<Rightarrow> string \<Rightarrow> string" where
  "demo_hmac key m = ''mac:'' @ key @ '':'' @ m"

definition demo_osenv :: "string \<Rightarrow> string" where
  "demo_osenv name = (if name = ''DISPLAY_SESSION_SIGNING_SECRET'' then ''s'' else if name = ''ADMIN_TOKEN'' then ''root'' else [])"

lemma demo_key: "deriveDisplayKey demo_hmac demo_osenv ''w1'' = Some (demo_hmac ''s'' ''molecule-display-token/v1|w1'')"
  by (simp add: deriveDisplayKey_def DesktopSigningRoot_def demo_osenv_def Let_def)

theorem display_tokens_exact_witness:
  "validateDisplaySessionToken demo_hmac demo_osenv (5 * second) (signDisplaySessionToken demo_hmac demo_osenv ''w1'' ''session:ann'' (9 * second)) ''w1'' ''session:ann'' (9 * second)
   \<and> \<not> validateDisplaySessionToken demo_hmac demo_osenv (5 * second) (signDisplaySessionToken demo_hmac demo_osenv ''w1'' ''session:ann'' (9 * second)) ''w1'' ''session:bob'' (9 * second)
   \<and> \<not> validateDisplayViewerToken demo_hmac demo_osenv (10 * second) (signDisplayViewerToken demo_hmac demo_osenv ''w1'' (9 * second)) ''w1''"
proof -
  have w: "plain_id ''w1''" "unix (9 * second) = 9" "fits_int64 (unix (9 * second))" "9 * second \<noteq> zero_time" "''session:ann'' \<noteq> []"
    by (simp_all add: plain_id_def unix_def second_def fits_int64_def zero_time_def)
  have n: "''session:bob'' \<noteq> ''session:ann''" "5 * second \<le> 9 * second" "\<not> 10 * second \<le> 9 * second" by (simp_all add: second_def)
  show ?thesis
    using display_tokens_exact [OF demo_key w(1) w(1) w(3,4,5), of "''session:ann''" "9 * second" "5 * second"]
      display_tokens_exact [OF demo_key w(1) w(1) w(3,4,5), of "''session:bob''" "9 * second" "5 * second"]
      display_tokens_exact [OF demo_key w(1) w(1) w(3,4,5), of "''session:bob''" "9 * second" "10 * second"] w n by simp
qed

definition demo_claims :: Claims where
  "demo_claims = \<lparr>bc_WorkspaceID = ''w1'', bc_OrgID = ''o1'', bc_Expiry = 9, bc_Scopes = [''restore'']\<rparr>"

definition demo_parse :: "string \<Rightarrow> json option" where
  "demo_parse raw = (if raw = ''claims'' then Some (claims_json demo_claims) else None)"

definition demo_marshal :: "Claims \<Rightarrow> string" where "demo_marshal c = ''claims''"

theorem boot_token_restores_witness:
  "VerifyRestore demo_hmac demo_parse demo_osenv (b64_encode ''claims'' @ ''.'' @ b64_encode (demo_hmac ''root'' (b64_encode ''claims''))) ''w1'' (5 * second) []
    = Inr demo_claims
   \<and> VerifyRestore demo_hmac demo_parse demo_osenv (b64_encode ''claims'' @ ''.'' @ b64_encode (demo_hmac ''root'' (b64_encode ''claims''))) ''w2'' (5 * second) []
    \<noteq> Inr demo_claims"
proof -
  define tok where "tok = b64_encode ''claims'' @ ''.'' @ b64_encode (demo_hmac ''root'' (b64_encode ''claims''))"
  have m: "Mint demo_hmac demo_marshal ''root'' demo_claims = Inr tok" unfolding tok_def by (simp add: Mint_def boot_sign_def demo_marshal_def Let_def)
  have z: "''root'' \<noteq> []" "demo_marshal demo_claims \<noteq> []" by (simp_all add: demo_marshal_def)
  have h: "demo_hmac k x \<noteq> []" for k x by (simp add: demo_hmac_def)
  have p: "demo_parse (demo_marshal demo_claims) = Some (claims_json demo_claims)" by (simp add: demo_parse_def demo_marshal_def)
  have f: "fits_int64 (bc_Expiry demo_claims)" by (simp add: demo_claims_def fits_int64_def)
  have o': "demo_osenv ''ADMIN_TOKEN'' = ''root''" by (simp add: demo_osenv_def)
  have u: "unix (5 * second) = 5" by (simp add: unix_def second_def)
  show ?thesis
    using boot_token_restores [where hmac = demo_hmac and marshal = demo_marshal and parse = demo_parse and osenv = demo_osenv, OF z h p f m o', of "5 * second" "''w1''" tok]
      boot_token_restores [where hmac = demo_hmac and marshal = demo_marshal and parse = demo_parse and osenv = demo_osenv, OF z h p f m o', of "5 * second" "''w2''" tok]
    unfolding tok_def [symmetric] u by (simp add: demo_claims_def ScopeRestore_def)
qed

end
