(* ===== verification/Display_Control.thy ===== *)
theory Display_Control
  imports Org_Token_Api Signed_Tokens
begin

text \<open>
  Who drives the desktop of a workspace: the lock table behind
  \<^verbatim>\<open>internal/handlers/workspace_display_control.go\<close> (humans) and
  \<^verbatim>\<open>internal/handlers/desktop_lifecycle_store.go\<close> (the agent's lease), with the three endpoints of
  the lock, their audit events, and the display part of a workspace's compute settings
  (\<^verbatim>\<open>internal/models/workspace.go\<close>, \<^verbatim>\<open>internal/handlers/workspace_compute.go\<close>).

  A human preempts the agent; nobody but its holder and a forced release of the administrator
  ends the unexpired lock of a human.
\<close>

subsection \<open>The display settings of a workspace\<close>

record WorkspaceComputeDisplay =
  wd_Mode :: string
  wd_Width :: int
  wd_Height :: int
  wd_Protocol :: string
  wd_IdleTimeoutSeconds :: int

record WorkspaceCompute =
  wc_InstanceType :: string
  wc_RootGB :: int
  wc_Display :: WorkspaceComputeDisplay
  wc_DataPersistence :: string
  wc_Provider :: string

definition no_compute :: WorkspaceCompute where
  "no_compute = \<lparr>wc_InstanceType = [], wc_RootGB = 0,
     wc_Display = \<lparr>wd_Mode = [], wd_Width = 0, wd_Height = 0, wd_Protocol = [], wd_IdleTimeoutSeconds = 0\<rparr>,
     wc_DataPersistence = [], wc_Provider = []\<rparr>"

definition decode_display :: "json \<Rightarrow> WorkspaceComputeDisplay option" where
  "decode_display j =
    (case (decode_path [''display'', ''mode''] decode_string j [], decode_path [''display'', ''width''] decode_int j 0,
           decode_path [''display'', ''height''] decode_int j 0, decode_path [''display'', ''protocol''] decode_string j [],
           decode_path [''display'', ''idle_timeout_seconds''] decode_int j 0) of
       (Some m, Some w, Some h, Some p, Some i) \<Rightarrow>
         Some \<lparr>wd_Mode = m, wd_Width = w, wd_Height = h, wd_Protocol = p, wd_IdleTimeoutSeconds = i\<rparr>
     | _ \<Rightarrow> None)"

definition decode_compute :: "json \<Rightarrow> WorkspaceCompute option" where
  "decode_compute j =
    (case (decode_field ''instance_type'' decode_string j [], decode_path [''volume'', ''root_gb''] decode_int j 0, decode_display j,
           decode_field ''data_persistence'' decode_string j [], decode_field ''provider'' decode_string j []) of
       (Some t, Some g, Some d, Some dp, Some pr) \<Rightarrow>
         Some \<lparr>wc_InstanceType = t, wc_RootGB = g, wc_Display = d, wc_DataPersistence = dp, wc_Provider = pr\<rparr>
     | _ \<Rightarrow> None)"

definition workspaceDisplayMinWidth :: int where "workspaceDisplayMinWidth = 800"
definition workspaceDisplayMaxWidth :: int where "workspaceDisplayMaxWidth = 3840"
definition workspaceDisplayMinHeight :: int where "workspaceDisplayMinHeight = 600"
definition workspaceDisplayMaxHeight :: int where "workspaceDisplayMaxHeight = 2160"
definition workspaceDesktopIdleMinSeconds :: int where "workspaceDesktopIdleMinSeconds = 30"
definition workspaceDesktopIdleMaxSeconds :: int where "workspaceDesktopIdleMaxSeconds = 86400"

text \<open>The three checks; the text of the error they return is only logged.\<close>

definition validateWorkspaceDisplayDimensions :: "int \<Rightarrow> int \<Rightarrow> bool" where
  "validateWorkspaceDisplayDimensions width height =
    (if width < 0 \<or> height < 0 then False
     else if width \<noteq> 0 \<and> (width < workspaceDisplayMinWidth \<or> width > workspaceDisplayMaxWidth) then False
     else if height \<noteq> 0 \<and> (height < workspaceDisplayMinHeight \<or> height > workspaceDisplayMaxHeight) then False
     else True)"

definition validateWorkspaceDisplayIdleTimeout :: "int \<Rightarrow> bool" where
  "validateWorkspaceDisplayIdleTimeout seconds =
    (if seconds < 0 then False
     else if seconds \<noteq> 0 \<and> (seconds < workspaceDesktopIdleMinSeconds \<or> seconds > workspaceDesktopIdleMaxSeconds) then False
     else True)"

definition validateWorkspaceDisplayConfig :: "WorkspaceComputeDisplay \<Rightarrow> bool" where
  "validateWorkspaceDisplayConfig display =
    (if wd_Mode display \<notin> {[], ''none'', ''desktop-control'', ''gpu-desktop-control''} then False
     else if wd_Protocol display \<notin> {[], ''dcv'', ''novnc''} then False
     else if \<not> validateWorkspaceDisplayDimensions (wd_Width display) (wd_Height display) then False
     else validateWorkspaceDisplayIdleTimeout (wd_IdleTimeoutSeconds display))"

definition parseWorkspaceDisplayCompute :: "json \<Rightarrow> WorkspaceCompute option" where
  "parseWorkspaceDisplayCompute raw =
    (if raw = JObj [] then Some no_compute
     else case decode_compute raw of
         None \<Rightarrow> None
       | Some compute \<Rightarrow> if validateWorkspaceDisplayConfig (wc_Display compute) then Some compute else None)"

subsection \<open>The lock table\<close>

record display_lock =
  lk_workspace :: string
  lk_controller :: string
  lk_by :: string
  lk_expires :: time

type_synonym lock_table = "display_lock list"

definition displayControlDefaultTTLSeconds :: int where "displayControlDefaultTTLSeconds = 300"
definition displayControlMinTTLSeconds :: int where "displayControlMinTTLSeconds = 30"
definition displayControlMaxTTLSeconds :: int where "displayControlMaxTTLSeconds = 3600"
definition agentControlLeaseSeconds :: int where "agentControlLeaseSeconds = 300"

text \<open>\<open>INSERT .. ON CONFLICT (workspace_id) DO UPDATE .. WHERE take .. RETURNING\<close>.\<close>

definition upsert_lock :: "(display_lock \<Rightarrow> bool) \<Rightarrow> display_lock \<Rightarrow> lock_table \<Rightarrow> display_lock option \<times> lock_table" where
  "upsert_lock take_over n tbl =
    (case sql_find (\<lambda>r. lk_workspace r = lk_workspace n) tbl of
       None \<Rightarrow> (Some n, tbl @ [n])
     | Some r \<Rightarrow>
        if take_over r then (Some n, sql_update (\<lambda>x. lk_workspace x = lk_workspace n) (\<lambda>_. n) tbl) else (None, tbl))"

definition may_acquire :: "time \<Rightarrow> string \<Rightarrow> string \<Rightarrow> display_lock \<Rightarrow> bool" where
  "may_acquire now controller controlledBy r =
    (lk_expires r \<le> now \<or> lk_by r = controlledBy \<or> (lk_controller r = ''agent'' \<and> controller = ''user''))"

text \<open>A statement fails with the text of the driver's error: \<open>Some e\<close>, or the cast of the id does.\<close>

definition acquireDisplayControlQuery ::
  "(string \<Rightarrow> string option) \<Rightarrow> string \<Rightarrow> string option \<Rightarrow> time \<Rightarrow> string \<Rightarrow> string \<Rightarrow> string \<Rightarrow> int \<Rightarrow> lock_table
     \<Rightarrow> (string + display_lock option) \<times> lock_table" where
  "acquireDisplayControlQuery pg cast_err fault now workspaceID controller controlledBy ttl tbl =
    (case (fault, pg workspaceID) of
       (Some e, _) \<Rightarrow> (Inl e, tbl)
     | (None, None) \<Rightarrow> (Inl cast_err, tbl)
     | (None, Some w) \<Rightarrow>
        let n = \<lparr>lk_workspace = w, lk_controller = controller, lk_by = controlledBy, lk_expires = now + ttl * second\<rparr> in
        case upsert_lock (may_acquire now controller controlledBy) n tbl of (r, tbl') \<Rightarrow> (Inr r, tbl'))"

definition AcquireAgentControl ::
  "(string \<Rightarrow> string option) \<Rightarrow> bool \<Rightarrow> time \<Rightarrow> string \<Rightarrow> lock_table \<Rightarrow> bool option \<times> lock_table" where
  "AcquireAgentControl pg fails now workspaceID tbl =
    (if fails then (None, tbl)
     else case pg workspaceID of
         None \<Rightarrow> (None, tbl)
       | Some w \<Rightarrow>
          let n = \<lparr>lk_workspace = w, lk_controller = ''agent'', lk_by = ''agent'', lk_expires = now + agentControlLeaseSeconds * second\<rparr> in
          case upsert_lock (\<lambda>r. lk_controller r = ''agent'' \<or> lk_expires r \<le> now) n tbl of
            (None, tbl') \<Rightarrow> (Some False, tbl')
          | (Some l, tbl') \<Rightarrow> (Some (lk_controller l = ''agent''), tbl'))"

definition AgentHoldsControl :: "(string \<Rightarrow> string option) \<Rightarrow> bool \<Rightarrow> time \<Rightarrow> string \<Rightarrow> lock_table \<Rightarrow> bool option" where
  "AgentHoldsControl pg fails now workspaceID tbl =
    (if fails then None
     else map_option (\<lambda>w. sql_affected (\<lambda>r. lk_workspace r = w \<and> lk_controller r = ''agent'' \<and> lk_expires r > now) tbl > 0) (pg workspaceID))"

definition loadActiveDisplayControl ::
  "(string \<Rightarrow> string option) \<Rightarrow> string \<Rightarrow> string option \<Rightarrow> time \<Rightarrow> string \<Rightarrow> lock_table \<Rightarrow> string + display_lock option" where
  "loadActiveDisplayControl pg cast_err fault now workspaceID tbl =
    (case (fault, pg workspaceID) of
       (Some e, _) \<Rightarrow> Inl e
     | (None, None) \<Rightarrow> Inl cast_err
     | (None, Some w) \<Rightarrow> Inr (sql_find (\<lambda>r. lk_workspace r = w \<and> lk_expires r > now) tbl))"


subsection \<open>The endpoints\<close>

record workspaceDisplayControlResponse =
  vr_Controller :: string
  vr_ControlledBy :: string
  vr_ExpiresAt :: time
  vr_SessionURL :: string
  vr_ViewSessionURL :: string

definition lock_response :: "display_lock \<Rightarrow> workspaceDisplayControlResponse" where
  "lock_response l = \<lparr>vr_Controller = lk_controller l, vr_ControlledBy = lk_by l, vr_ExpiresAt = lk_expires l, vr_SessionURL = [], vr_ViewSessionURL = []\<rparr>"

datatype display_response =
    DisplayRejected int string
  | DisplayLock workspaceDisplayControlResponse
  | DisplayNone string
  | DisplayConflict string "workspaceDisplayControlResponse option"

record display_event =
  de_type :: string
  de_workspace :: string
  de_payload :: "(string \<times> json) list"

record display_state =
  dc_locks :: lock_table
  dc_events :: "display_event list"

record display_faults =
  df_compute :: bool
  df_cast :: string
  df_write :: "string option"
  df_rows :: "string option"
  df_load :: "string option"
  df_event :: "string \<Rightarrow> bool"

definition emitDisplayControlEvent ::
  "(string \<Rightarrow> string option) \<Rightarrow> display_faults \<Rightarrow> string \<Rightarrow> string \<Rightarrow> (string \<times> json) list \<Rightarrow> display_state \<Rightarrow> display_state" where
  "emitDisplayControlEvent pg fl eventType workspaceID payload st =
    (case pg workspaceID of
       None \<Rightarrow> st
     | Some w \<Rightarrow>
        if df_event fl eventType then st
        else st\<lparr>dc_events := dc_events st @ [\<lparr>de_type = eventType, de_workspace = w, de_payload = payload\<rparr>]\<rparr>)"

definition displayControlIsAdminToken :: "(string \<Rightarrow> string) \<Rightarrow> auth_request \<Rightarrow> bool" where
  "displayControlIsAdminToken osenv rq =
    (if osenv ''ADMIN_TOKEN'' = [] then False else BearerTokenFromHeader (hr_authorization rq) = osenv ''ADMIN_TOKEN'')"

definition displayControlActor :: "(string \<Rightarrow> string) \<Rightarrow> auth_request \<Rightarrow> auth_ctx \<Rightarrow> string option" where
  "displayControlActor osenv rq cx =
    (if ctx_string (org_token_prefix cx) \<noteq> [] then Some (actorOrgTokenPrefix @ ctx_string (org_token_prefix cx))
     else if ctx_string (cp_session_actor cx) \<noteq> [] then Some (ctx_string (cp_session_actor cx))
     else if displayControlIsAdminToken osenv rq then Some actorAdminToken
     else None)"

text \<open>The error \<open>displayControlEnabled\<close> answers with, \<open>None\<close> when the display is enabled. The compute column of every workspace is \<open>computes\<close>.\<close>

definition displayControlEnabled ::
  "(string \<Rightarrow> string option) \<Rightarrow> bool \<Rightarrow> (string \<Rightarrow> json option) \<Rightarrow> bool \<Rightarrow> string \<Rightarrow> (int \<times> string) option" where
  "displayControlEnabled pg fails computes sidecar workspaceID =
    (if fails then Some (500, ''failed to load display config'')
     else case pg workspaceID of
         None \<Rightarrow> Some (500, ''failed to load display config'')
       | Some w \<Rightarrow>
          (case computes w of
             None \<Rightarrow> Some (404, ''workspace not found'')
           | Some raw \<Rightarrow>
              (case parseWorkspaceDisplayCompute raw of
                 None \<Rightarrow> Some (500, ''invalid display config'')
               | Some compute \<Rightarrow>
                  if wd_Mode (wc_Display compute) = [] \<or> wd_Mode (wc_Display compute) = ''none''
                  then (if sidecar then None else Some (400, ''display not enabled''))
                  else None)))"

definition DisplayControl ::
  "(string \<Rightarrow> string \<Rightarrow> string) \<Rightarrow> (string \<Rightarrow> string) \<Rightarrow> (string \<Rightarrow> string option) \<Rightarrow> display_faults \<Rightarrow> time \<Rightarrow> string \<Rightarrow> display_state \<Rightarrow> display_response" where
  "DisplayControl hmac osenv pg fl now workspaceID st =
    (case loadActiveDisplayControl pg (df_cast fl) (df_load fl) now workspaceID (dc_locks st) of
       Inl _ \<Rightarrow> DisplayRejected 500 ''failed to load display control''
     | Inr l \<Rightarrow>
        let viewURL = signedDisplayViewerURL hmac osenv now workspaceID in
        case l of
          None \<Rightarrow> DisplayNone viewURL
        | Some lock \<Rightarrow> DisplayLock ((lock_response lock)\<lparr>vr_ViewSessionURL := viewURL\<rparr>))"

text \<open>A request body: \<open>None\<close> when there is none; \<open>Some b\<close> may still be malformed.\<close>

definition decode_acquire :: "body option \<Rightarrow> (string \<times> int) option" where
  "decode_acquire b =
    (case b of
       None \<Rightarrow> Some ([], 0)
     | Some x \<Rightarrow>
        (case bd_json x of
           None \<Rightarrow> None
         | Some j \<Rightarrow>
            (case (decode_field ''controller'' decode_string j [], decode_field ''ttl_seconds'' decode_int j 0) of
               (Some c, Some t) \<Rightarrow> Some (c, t) | _ \<Rightarrow> None)))"

definition acquire_lock ::
  "(string \<Rightarrow> string \<Rightarrow> string) \<Rightarrow> (string \<Rightarrow> string) \<Rightarrow> (string \<Rightarrow> string option) \<Rightarrow> display_faults \<Rightarrow> time \<Rightarrow> int \<Rightarrow> string \<Rightarrow> string \<Rightarrow> string
     \<Rightarrow> int \<Rightarrow> display_state \<Rightarrow> display_response \<times> display_state" where
  "acquire_lock hmac osenv pg fl now dur workspaceID controller controlledBy ttl st =
    (let st = emitDisplayControlEvent pg fl ''display.control.acquire.started'' workspaceID
           [(''controlled_by'', JStr controlledBy), (''controller'', JStr controller), (''ttl_seconds'', JInt ttl)] st;
         failed = (\<lambda>e. emitDisplayControlEvent pg fl ''display.control.acquire.failed'' workspaceID
           [(''controlled_by'', JStr controlledBy), (''duration_ms'', JInt dur), (''error'', JStr e)]) in
     case acquireDisplayControlQuery pg (df_cast fl) (df_write fl) now workspaceID controller controlledBy ttl (dc_locks st) of
       (Inr (Some lock), tbl) \<Rightarrow>
         (DisplayLock ((lock_response lock)\<lparr>vr_SessionURL := signedDisplaySessionURL hmac osenv workspaceID (lk_by lock) (lk_expires lock)\<rparr>),
          emitDisplayControlEvent pg fl ''display.control.acquire.completed'' workspaceID
            [(''controlled_by'', JStr (lk_by lock)), (''controller'', JStr (lk_controller lock)), (''duration_ms'', JInt dur), (''ttl_seconds'', JInt ttl)]
            (st\<lparr>dc_locks := tbl\<rparr>))
     | (Inr None, tbl) \<Rightarrow>
         (case loadActiveDisplayControl pg (df_cast fl) (df_load fl) now workspaceID tbl of
            Inl e \<Rightarrow> (DisplayRejected 500 ''failed to load display control'', failed e (st\<lparr>dc_locks := tbl\<rparr>))
          | Inr current \<Rightarrow>
              (DisplayConflict ''display control already held'' (map_option lock_response current),
               failed ''display control already held'' (st\<lparr>dc_locks := tbl\<rparr>)))
     | (Inl e, tbl) \<Rightarrow> (DisplayRejected 500 ''failed to acquire display control'', failed e (st\<lparr>dc_locks := tbl\<rparr>)))"

definition AcquireDisplayControl ::
  "(string \<Rightarrow> string \<Rightarrow> string) \<Rightarrow> (string \<Rightarrow> string) \<Rightarrow> (string \<Rightarrow> string option) \<Rightarrow> (string \<Rightarrow> json option) \<Rightarrow> bool \<Rightarrow> display_faults \<Rightarrow> time \<Rightarrow> int
     \<Rightarrow> auth_request \<Rightarrow> auth_ctx \<Rightarrow> body option \<Rightarrow> display_state \<Rightarrow> display_response \<times> display_state" where
  "AcquireDisplayControl hmac osenv pg computes sidecar fl now dur rq cx b st =
    (case decode_acquire b of
       None \<Rightarrow> (DisplayRejected 400 ''invalid display control request'', st)
     | Some (c, t) \<Rightarrow>
        let controller = (if c = [] then ''user'' else c);
            ttl = (if t = 0 then displayControlDefaultTTLSeconds else t) in
        if controller \<noteq> ''user'' then (DisplayRejected 400 ''browser callers may only acquire user display control'', st)
        else if ttl < displayControlMinTTLSeconds \<or> ttl > displayControlMaxTTLSeconds
          then (DisplayRejected 400 ''ttl_seconds must be between 30 and 3600'', st)
        else case displayControlEnabled pg (df_compute fl) computes sidecar (hr_id rq) of
            Some (code, msg) \<Rightarrow> (DisplayRejected code msg, st)
          | None \<Rightarrow>
             (case displayControlActor osenv rq cx of
                None \<Rightarrow> (DisplayRejected 403 ''display control requires admin-token or org-token auth'', st)
              | Some controlledBy \<Rightarrow>
                 if DesktopSigningRoot hmac osenv = [] then (DisplayRejected 503 ''display session signing secret is not configured'', st)
                 else acquire_lock hmac osenv pg fl now dur (hr_id rq) controller controlledBy ttl st))"


definition decode_release :: "body option \<Rightarrow> bool option" where
  "decode_release b =
    (case b of
       None \<Rightarrow> Some False
     | Some x \<Rightarrow> (case bd_json x of None \<Rightarrow> None | Some j \<Rightarrow> decode_field ''force'' decode_bool j False))"

definition release_query ::
  "(string \<Rightarrow> string option) \<Rightarrow> string \<Rightarrow> string option \<Rightarrow> bool \<Rightarrow> string \<Rightarrow> string \<Rightarrow> lock_table \<Rightarrow> (string + nat) \<times> lock_table" where
  "release_query pg cast_err fault force workspaceID controlledBy tbl =
    (case (fault, pg workspaceID) of
       (Some e, _) \<Rightarrow> (Inl e, tbl)
     | (None, None) \<Rightarrow> (Inl cast_err, tbl)
     | (None, Some w) \<Rightarrow>
        let doomed = (\<lambda>r. lk_workspace r = w \<and> (force \<or> lk_by r = controlledBy)) in
        (Inr (sql_affected doomed tbl), filter (\<lambda>r. \<not> doomed r) tbl))"

definition release_lock ::
  "(string \<Rightarrow> string option) \<Rightarrow> display_faults \<Rightarrow> time \<Rightarrow> int \<Rightarrow> bool \<Rightarrow> string \<Rightarrow> string \<Rightarrow> display_state \<Rightarrow> display_response \<times> display_state" where
  "release_lock pg fl now dur force workspaceID controlledBy st =
    (let st = emitDisplayControlEvent pg fl ''display.control.release.started'' workspaceID
           [(''controlled_by'', JStr controlledBy), (''force'', JBool force)] st;
         failed = (\<lambda>e. emitDisplayControlEvent pg fl ''display.control.release.failed'' workspaceID
           [(''controlled_by'', JStr controlledBy), (''duration_ms'', JInt dur), (''error'', JStr e), (''force'', JBool force)]);
         completed = (\<lambda>n. emitDisplayControlEvent pg fl ''display.control.release.completed'' workspaceID
           [(''controlled_by'', JStr controlledBy), (''duration_ms'', JInt dur), (''force'', JBool force), (''rows_affected'', JInt (int n))]) in
     case release_query pg (df_cast fl) (df_write fl) force workspaceID controlledBy (dc_locks st) of
       (Inl e, tbl) \<Rightarrow> (DisplayRejected 500 ''failed to release display control'', failed e (st\<lparr>dc_locks := tbl\<rparr>))
     | (Inr n, tbl) \<Rightarrow>
         (case df_rows fl of
            Some e \<Rightarrow> (DisplayRejected 500 ''failed to release display control'', failed e (st\<lparr>dc_locks := tbl\<rparr>))
          | None \<Rightarrow>
             if n > 0 then (DisplayNone [], completed n (st\<lparr>dc_locks := tbl\<rparr>))
             else case loadActiveDisplayControl pg (df_cast fl) (df_load fl) now workspaceID tbl of
                 Inl e \<Rightarrow> (DisplayRejected 500 ''failed to load display control'', failed e (st\<lparr>dc_locks := tbl\<rparr>))
               | Inr None \<Rightarrow> (DisplayNone [], completed n (st\<lparr>dc_locks := tbl\<rparr>))
               | Inr (Some current) \<Rightarrow>
                   (DisplayConflict ''display control held by another caller'' (Some (lock_response current)),
                    failed ''display control held by another caller'' (st\<lparr>dc_locks := tbl\<rparr>))))"

definition ReleaseDisplayControl ::
  "(string \<Rightarrow> string) \<Rightarrow> (string \<Rightarrow> string option) \<Rightarrow> display_faults \<Rightarrow> time \<Rightarrow> int \<Rightarrow> auth_request \<Rightarrow> auth_ctx \<Rightarrow> body option \<Rightarrow> display_state
     \<Rightarrow> display_response \<times> display_state" where
  "ReleaseDisplayControl osenv pg fl now dur rq cx b st =
    (case decode_release b of
       None \<Rightarrow> (DisplayRejected 400 ''invalid display control release request'', st)
     | Some force \<Rightarrow>
        if force \<and> \<not> displayControlIsAdminToken osenv rq then (DisplayRejected 403 ''force release requires admin-token auth'', st)
        else case displayControlActor osenv rq cx of
            None \<Rightarrow> (DisplayRejected 403 ''display control requires admin-token or org-token auth'', st)
          | Some controlledBy \<Rightarrow> release_lock pg fl now dur force (hr_id rq) controlledBy st)"

subsection \<open>Concurrent callers\<close>

text \<open>
  One statement of any caller on the lock table at a time, by whom: a request of an actor, a
  forced release, or the agent.
\<close>

datatype display_who = Caller "string option" | Forced | Agent

inductive display_step ::
  "(string \<Rightarrow> string \<Rightarrow> string) \<Rightarrow> (string \<Rightarrow> string) \<Rightarrow> (string \<Rightarrow> string option) \<Rightarrow> time \<Rightarrow> display_who \<Rightarrow> display_state \<Rightarrow> display_state \<Rightarrow> bool"
  for hmac osenv pg where
  step_acquire: "AcquireDisplayControl hmac osenv pg computes sidecar fl now dur rq cx b st = (r, st') \<Longrightarrow>
     display_step hmac osenv pg now (Caller (displayControlActor osenv rq cx)) st st'"
| step_release: "ReleaseDisplayControl osenv pg fl now dur rq cx b st = (r, st') \<Longrightarrow> decode_release b \<noteq> Some True \<Longrightarrow>
     display_step hmac osenv pg now (Caller (displayControlActor osenv rq cx)) st st'"
| step_force: "ReleaseDisplayControl osenv pg fl now dur rq cx b st = (r, st') \<Longrightarrow> decode_release b = Some True \<Longrightarrow>
     displayControlIsAdminToken osenv rq \<Longrightarrow> display_step hmac osenv pg now Forced st st'"
| step_refused: "ReleaseDisplayControl osenv pg fl now dur rq cx b st = (r, st') \<Longrightarrow> decode_release b = Some True \<Longrightarrow>
     \<not> displayControlIsAdminToken osenv rq \<Longrightarrow> display_step hmac osenv pg now (Caller (displayControlActor osenv rq cx)) st st'"
| step_agent: "AcquireAgentControl pg fails now ws (dc_locks st) = (r, tbl) \<Longrightarrow>
     display_step hmac osenv pg now Agent st (st\<lparr>dc_locks := tbl\<rparr>)"

inductive_cases display_stepE: "display_step hmac osenv pg now who st st'"

definition locks_ok :: "lock_table \<Rightarrow> bool" where
  "locks_ok tbl = (unique_key lk_workspace tbl \<and> (\<forall>r \<in> set tbl. lk_controller r \<in> {''user'', ''agent''} \<and> lk_by r \<noteq> []))"

lemma emit_locks [simp]: "dc_locks (emitDisplayControlEvent pg fl t ws p st) = dc_locks st"
  by (simp add: emitDisplayControlEvent_def split: option.splits)

lemma actor_not_Nil: "displayControlActor osenv rq cx = Some a \<Longrightarrow> a \<noteq> []"
  by (auto simp: displayControlActor_def actorOrgTokenPrefix_def actorAdminToken_def split: if_splits)

text \<open>What the handlers do to the table, whatever they answer.\<close>

lemma acquire_locks:
  assumes "AcquireDisplayControl hmac osenv pg computes sidecar fl now dur rq cx b st = (r, st')"
  shows "dc_locks st' = dc_locks st \<or> (\<exists>w a ttl. displayControlActor osenv rq cx = Some a \<and> pg (hr_id rq) = Some w
    \<and> 30 \<le> ttl \<and> ttl \<le> 3600
    \<and> dc_locks st' = snd (upsert_lock (may_acquire now ''user'' a) \<lparr>lk_workspace = w, lk_controller = ''user'', lk_by = a, lk_expires = now + ttl * second\<rparr> (dc_locks st)))"
proof -
  have l: "dc_locks (snd (acquire_lock hmac osenv pg fl now dur ws c a ttl s)) = snd (acquireDisplayControlQuery pg (df_cast fl) (df_write fl) now ws c a ttl (dc_locks s))" for ws c a ttl s
    by (simp add: acquire_lock_def Let_def split: prod.splits sum.splits option.splits)
  have q: "snd (acquireDisplayControlQuery pg ce f now ws c a ttl tbl) = tbl \<or> (\<exists>w. pg ws = Some w \<and>
      snd (acquireDisplayControlQuery pg ce f now ws c a ttl tbl) = snd (upsert_lock (may_acquire now c a) \<lparr>lk_workspace = w, lk_controller = c, lk_by = a, lk_expires = now + ttl * second\<rparr> tbl))"
    for ce f ws c a ttl tbl
    by (auto simp: acquireDisplayControlQuery_def Let_def split: option.splits prod.splits)
  from assms have "st' = st \<or> (\<exists>a ttl. displayControlActor osenv rq cx = Some a \<and> 30 \<le> ttl \<and> ttl \<le> 3600
      \<and> acquire_lock hmac osenv pg fl now dur (hr_id rq) ''user'' a ttl st = (r, st'))"
    unfolding AcquireDisplayControl_def displayControlMinTTLSeconds_def displayControlMaxTTLSeconds_def Let_def
    by (fastforce split: option.splits prod.splits if_splits)
  then show ?thesis using l q by (metis snd_conv)
qed


lemma release_locks:
  assumes "ReleaseDisplayControl osenv pg fl now dur rq cx b st = (r, st')"
  shows "dc_locks st' = dc_locks st \<or> (\<exists>w a force. displayControlActor osenv rq cx = Some a \<and> decode_release b = Some force
    \<and> (force \<longrightarrow> displayControlIsAdminToken osenv rq)
    \<and> dc_locks st' = filter (\<lambda>x. \<not> (lk_workspace x = w \<and> (force \<or> lk_by x = a))) (dc_locks st))"
proof -
  have l: "dc_locks (snd (release_lock pg fl now dur force ws a s)) = snd (release_query pg (df_cast fl) (df_write fl) force ws a (dc_locks s))" for force ws a s
    by (simp add: release_lock_def Let_def split: prod.splits sum.splits option.splits)
  have q: "snd (release_query pg ce f force ws a tbl) = tbl \<or> (\<exists>w. snd (release_query pg ce f force ws a tbl)
      = filter (\<lambda>x. \<not> (lk_workspace x = w \<and> (force \<or> lk_by x = a))) tbl)" for ce f force ws a tbl
    by (auto simp: release_query_def Let_def split: option.splits)
  from assms have "st' = st \<or> (\<exists>a force. displayControlActor osenv rq cx = Some a \<and> decode_release b = Some force
      \<and> (force \<longrightarrow> displayControlIsAdminToken osenv rq) \<and> release_lock pg fl now dur force (hr_id rq) a st = (r, st'))"
    unfolding ReleaseDisplayControl_def by (fastforce split: option.splits if_splits)
  then show ?thesis
  proof (elim disjE exE conjE)
    fix a force
    assume a: "displayControlActor osenv rq cx = Some a" "decode_release b = Some force" "force \<longrightarrow> displayControlIsAdminToken osenv rq"
      and e: "release_lock pg fl now dur force (hr_id rq) a st = (r, st')"
    have "dc_locks st' = snd (release_query pg (df_cast fl) (df_write fl) force (hr_id rq) a (dc_locks st))"
      using l [of force "hr_id rq" a st] unfolding e by simp
    with a q [of "df_cast fl" "df_write fl" force "hr_id rq" a "dc_locks st"] show ?thesis by auto
  qed simp
qed

definition lock_of :: "lock_table \<Rightarrow> string \<Rightarrow> display_lock option" where
  "lock_of tbl w = sql_find (\<lambda>r. lk_workspace r = w) tbl"

lemma upsert_free: "lock_of tbl (lk_workspace n) = None \<Longrightarrow> upsert_lock take_over n tbl = (Some n, tbl @ [n])"
  by (simp add: upsert_lock_def lock_of_def)

lemma upsert_held:
  "lock_of tbl (lk_workspace n) = Some r \<Longrightarrow> upsert_lock take_over n tbl =
    (if take_over r then (Some n, sql_update (\<lambda>x. lk_workspace x = lk_workspace n) (\<lambda>_. n) tbl) else (None, tbl))"
  by (simp add: upsert_lock_def lock_of_def)

lemma lock_of_workspace: "lock_of tbl w = Some r \<Longrightarrow> lk_workspace r = w"
  using sql_find_Some_iff [of "\<lambda>r. lk_workspace r = w" tbl r] by (simp add: lock_of_def)

lemma lock_of_upsert:
  "lock_of (snd (upsert_lock take_over n tbl)) w =
    (if w = lk_workspace n \<and> (case lock_of tbl w of None \<Rightarrow> True | Some r \<Rightarrow> take_over r) then Some n else lock_of tbl w)"
proof (cases "lock_of tbl (lk_workspace n)")
  case None
  then show ?thesis
    unfolding upsert_free [OF None] by (cases "w = lk_workspace n") (auto simp: lock_of_def sql_find_append sql_find_Cons split: option.splits)
next
  case (Some r)
  have u: "lock_of (sql_update (\<lambda>x. lk_workspace x = lk_workspace n) (\<lambda>_. n) tbl) w
      = map_option (\<lambda>r. if lk_workspace r = lk_workspace n then n else r) (lock_of tbl w)"
    unfolding lock_of_def by (rule sql_find_sql_update) simp
  have k: "\<And>x. lock_of tbl w = Some x \<Longrightarrow> lk_workspace x = w" by (rule lock_of_workspace)
  show ?thesis
  proof (cases "take_over r")
    case True
    with Some u k show ?thesis by (cases "lock_of tbl w") (auto simp: upsert_held)
  next
    case False
    with Some show ?thesis by (auto simp: upsert_held)
  qed
qed

lemma lock_of_filter:
  assumes "lock_of tbl w = Some r" and "P r"
  shows "lock_of (filter P tbl) w = Some r"
  using assms unfolding lock_of_def by (induction tbl) (auto simp: sql_find_Cons split: if_splits)

lemma upsert_ok:
  assumes "locks_ok tbl" and "lk_controller n \<in> {''user'', ''agent''}" and "lk_by n \<noteq> []"
  shows "locks_ok (snd (upsert_lock take_over n tbl))"
proof (cases "lock_of tbl (lk_workspace n)")
  case None
  then have "\<forall>r \<in> set tbl. lk_workspace r \<noteq> lk_workspace n" by (simp add: lock_of_def sql_find_None_iff)
  then show ?thesis unfolding upsert_free [OF None] using assms by (auto simp: locks_ok_def unique_key_def)
next
  case (Some r)
  have "unique_key lk_workspace (sql_update (\<lambda>x. lk_workspace x = lk_workspace n) (\<lambda>_. n) tbl)"
    using assms(1) unique_key_sql_update [of "\<lambda>x. lk_workspace x = lk_workspace n" lk_workspace "\<lambda>_. n" tbl] by (simp add: locks_ok_def)
  then show ?thesis unfolding upsert_held [OF Some] using assms
    by (cases "take_over r") (simp_all add: locks_ok_def set_sql_update ball_Un)
qed

lemma filter_ok: "locks_ok tbl \<Longrightarrow> locks_ok (filter P tbl)"
  by (auto simp: locks_ok_def unique_key_def distinct_map_filter)

lemma agent_locks:
  assumes "AcquireAgentControl pg fails now ws tbl = (r, tbl')"
  shows "tbl' = tbl \<or> (\<exists>w. pg ws = Some w \<and> tbl' = snd (upsert_lock (\<lambda>r. lk_controller r = ''agent'' \<or> lk_expires r \<le> now)
      \<lparr>lk_workspace = w, lk_controller = ''agent'', lk_by = ''agent'', lk_expires = now + agentControlLeaseSeconds * second\<rparr> tbl))"
  using assms by (auto simp: AcquireAgentControl_def Let_def split: if_splits option.splits prod.splits)

lemma display_step_ok: "display_step hmac osenv pg now who st st' \<Longrightarrow> locks_ok (dc_locks st) \<Longrightarrow> locks_ok (dc_locks st')"
proof (induction rule: display_step.induct)
  case (step_acquire computes sidecar fl now dur rq cx b st r st')
  from acquire_locks [OF step_acquire(1)] step_acquire(2) actor_not_Nil [of osenv rq cx] show ?case by (auto intro!: upsert_ok)
next
  case (step_release fl now dur rq cx b st r st')
  from release_locks [OF step_release(1)] step_release show ?case by (auto intro: filter_ok)
next
  case (step_force fl now dur rq cx b st r st')
  from release_locks [OF step_force(1)] step_force show ?case by (auto intro: filter_ok)
next
  case (step_refused fl now dur rq cx b st r st')
  from release_locks [OF step_refused(1)] step_refused show ?case by (auto intro: filter_ok)
next
  case (step_agent fails now ws st r tbl)
  from agent_locks [OF step_agent(1)] step_agent(2) show ?case by (auto intro!: upsert_ok)
qed

definition quiet_step ::
  "(string \<Rightarrow> string \<Rightarrow> string) \<Rightarrow> (string \<Rightarrow> string) \<Rightarrow> (string \<Rightarrow> string option) \<Rightarrow> string \<Rightarrow> time \<Rightarrow> display_state \<Rightarrow> display_state \<Rightarrow> bool" where
  "quiet_step hmac osenv pg a e st st' = (\<exists>t who. display_step hmac osenv pg t who st st' \<and> t < e \<and> who \<noteq> Forced \<and> who \<noteq> Caller (Some a))"

lemma human_lock_step:
  assumes "display_step hmac osenv pg t who st st'" and "t < lk_expires l" and "who \<noteq> Forced" and "who \<noteq> Caller (Some (lk_by l))"
    and "lock_of (dc_locks st) w = Some l" and "lk_controller l = ''user''"
  shows "lock_of (dc_locks st') w = Some l"
  using assms
proof (induction rule: display_step.induct)
  case (step_acquire computes sidecar fl now dur rq cx b st r st')
  from acquire_locks [OF step_acquire(1)] step_acquire show ?case by (auto simp: lock_of_upsert may_acquire_def)
next
  case (step_release fl now dur rq cx b st r st')
  from release_locks [OF step_release(1)] step_release show ?case by (auto intro!: lock_of_filter)
next
  case (step_refused fl now dur rq cx b st r st')
  from release_locks [OF step_refused(1)] step_refused show ?case by auto
next
  case (step_agent fails now ws st r tbl)
  from agent_locks [OF step_agent(1)] step_agent show ?case by (auto simp: lock_of_upsert)
qed simp


lemma human_lock_quiet:
  assumes "(quiet_step hmac osenv pg (lk_by l) (lk_expires l))\<^sup>*\<^sup>* st st'" and "lock_of (dc_locks st) w = Some l" and "lk_controller l = ''user''"
  shows "lock_of (dc_locks st') w = Some l"
  using assms(1,2)
proof (induction rule: rtranclp_induct)
  case (step y z)
  from step(2) obtain t who where q: "display_step hmac osenv pg t who y z" "t < lk_expires l" "who \<noteq> Forced" "who \<noteq> Caller (Some (lk_by l))"
    unfolding quiet_step_def by blast
  from human_lock_step [OF q step(3) [OF step(4)] assms(3)] show ?case .
qed simp

lemma fst_upsert:
  "fst (upsert_lock P n tbl) = (case lock_of tbl (lk_workspace n) of None \<Rightarrow> Some n | Some r \<Rightarrow> if P r then Some n else None)"
  using upsert_free [of tbl n P] upsert_held [of tbl n _ P] by (cases "lock_of tbl (lk_workspace n)") simp_all

lemma agent_acquire_iff:
  assumes "pg ws = Some w"
  shows "fst (AcquireAgentControl pg False now ws tbl) =
    Some (case lock_of tbl w of None \<Rightarrow> True | Some r \<Rightarrow> lk_controller r = ''agent'' \<or> lk_expires r \<le> now)"
proof -
  let ?n = "\<lparr>lk_workspace = w, lk_controller = ''agent'', lk_by = ''agent'', lk_expires = now + agentControlLeaseSeconds * second\<rparr>"
  obtain r t where u: "upsert_lock (\<lambda>r. lk_controller r = ''agent'' \<or> lk_expires r \<le> now) ?n tbl = (r, t)" by fastforce
  have f: "r = (case lock_of tbl w of None \<Rightarrow> Some ?n | Some r \<Rightarrow> if lk_controller r = ''agent'' \<or> lk_expires r \<le> now then Some ?n else None)"
    using fst_upsert [of "\<lambda>r. lk_controller r = ''agent'' \<or> lk_expires r \<le> now" ?n tbl] unfolding u by simp
  show ?thesis using f by (cases "lock_of tbl w") (auto simp: AcquireAgentControl_def assms Let_def u)
qed

lemma acquire_granted:
  assumes "fst (acquire_lock hmac osenv pg fl now dur ws c a ttl st) = DisplayLock v" and "pg ws = Some w"
    and "lock_of (dc_locks st) w = Some l"
  shows "may_acquire now c a l"
proof (rule ccontr)
  assume m: "\<not> may_acquire now c a l"
  define n where "n = \<lparr>lk_workspace = w, lk_controller = c, lk_by = a, lk_expires = now + ttl * second\<rparr>"
  have "upsert_lock (may_acquire now c a) n (dc_locks st) = (None, dc_locks st)"
    using upsert_held [of "dc_locks st" n l "may_acquire now c a"] assms(3) m by (simp add: n_def)
  then have "fst (acquireDisplayControlQuery pg (df_cast fl) (df_write fl) now ws c a ttl (dc_locks st)) \<noteq> Inr (Some k)" for k
    using assms(2) by (simp add: acquireDisplayControlQuery_def n_def Let_def split: option.split)
  then show False
    using assms(1) by (auto simp: acquire_lock_def Let_def split: prod.splits sum.splits option.splits)
qed

lemma acquire_answer:
  assumes "decode_acquire b = Some (c, t)" and "c = [] \<or> c = ''user''" and "ttl = (if t = 0 then 300 else t)" and "30 \<le> ttl" and "ttl \<le> 3600"
    and "displayControlEnabled pg (df_compute fl) computes sidecar (hr_id rq) = None" and "displayControlActor osenv rq cx = Some a"
    and "DesktopSigningRoot hmac osenv \<noteq> []" and "df_write fl = None" and "df_load fl = None" and "pg (hr_id rq) = Some w"
    and "n = \<lparr>lk_workspace = w, lk_controller = ''user'', lk_by = a, lk_expires = now + ttl * second\<rparr>"
  shows "fst (AcquireDisplayControl hmac osenv pg computes sidecar fl now dur rq cx b st) =
      (case lock_of (dc_locks st) w of
         Some r \<Rightarrow> if may_acquire now ''user'' a r
                    then DisplayLock ((lock_response n)\<lparr>vr_SessionURL := signedDisplaySessionURL hmac osenv (hr_id rq) a (now + ttl * second)\<rparr>)
                    else DisplayConflict ''display control already held''
                           (map_option lock_response (sql_find (\<lambda>r. lk_workspace r = w \<and> lk_expires r > now) (dc_locks st)))
       | None \<Rightarrow> DisplayLock ((lock_response n)\<lparr>vr_SessionURL := signedDisplaySessionURL hmac osenv (hr_id rq) a (now + ttl * second)\<rparr>))
    \<and> dc_locks (snd (AcquireDisplayControl hmac osenv pg computes sidecar fl now dur rq cx b st)) = snd (upsert_lock (may_acquire now ''user'' a) n (dc_locks st))"
proof -
  have h: "AcquireDisplayControl hmac osenv pg computes sidecar fl now dur rq cx b st = acquire_lock hmac osenv pg fl now dur (hr_id rq) ''user'' a ttl st"
    using assms(1-8)
    by (auto simp: AcquireDisplayControl_def Let_def displayControlDefaultTTLSeconds_def displayControlMinTTLSeconds_def displayControlMaxTTLSeconds_def)
  have q: "acquireDisplayControlQuery pg (df_cast fl) (df_write fl) now (hr_id rq) ''user'' a ttl (dc_locks st)
      = (case upsert_lock (may_acquire now ''user'' a) n (dc_locks st) of (r, tbl') \<Rightarrow> (Inr r, tbl'))"
    using assms(9,11,12) by (simp add: acquireDisplayControlQuery_def Let_def)
  have f: "lk_workspace n = w" "lk_by n = a" "lk_expires n = now + ttl * second" using assms(12) by simp_all
  have u: "upsert_lock (may_acquire now ''user'' a) n (dc_locks st) =
      (case lock_of (dc_locks st) w of None \<Rightarrow> (Some n, dc_locks st @ [n])
       | Some r \<Rightarrow> if may_acquire now ''user'' a r then (Some n, sql_update (\<lambda>x. lk_workspace x = w) (\<lambda>_. n) (dc_locks st)) else (None, dc_locks st))"
    using upsert_free [of "dc_locks st" n] upsert_held [of "dc_locks st" n] f(1) by (cases "lock_of (dc_locks st) w") simp_all
  show ?thesis
    unfolding h acquire_lock_def Let_def emit_locks q u using assms(10,11) f
    by (auto simp: loadActiveDisplayControl_def split: option.splits)
qed

text \<open>
  the lock of a human holds. While it has not expired, no request of another caller, no agent and
  no concurrent mixture of them ends or changes it, whatever fails: only its holder and a release
  the administrator forces do. Until then the agent is denied control, and another human's
  request is answered with a conflict that names the holder.
\<close>

theorem human_lock_exclusive:
  assumes "locks_ok (dc_locks st)" and "lock_of (dc_locks st) w = Some l" and "lk_controller l = ''user''"
    and "(quiet_step hmac osenv pg (lk_by l) (lk_expires l))\<^sup>*\<^sup>* st st'" and "now < lk_expires l" and "pg ws = Some w"
    and "hr_id rq = ws" and "displayControlActor osenv rq cx \<noteq> Some (lk_by l)"
  shows "lock_of (dc_locks st') w = Some l
    \<and> fst (AcquireAgentControl pg False now ws (dc_locks st')) = Some False
    \<and> (\<forall>v. fst (AcquireDisplayControl hmac osenv pg computes sidecar fl now dur rq cx b st') \<noteq> DisplayLock v)"
proof -
  have l: "lock_of (dc_locks st') w = Some l" using human_lock_quiet [OF assms(4,2,3)] .
  have "fst (AcquireDisplayControl hmac osenv pg computes sidecar fl now dur rq cx b st') \<noteq> DisplayLock v" for v
  proof
    assume g: "fst (AcquireDisplayControl hmac osenv pg computes sidecar fl now dur rq cx b st') = DisplayLock v"
    then obtain a ttl where a: "displayControlActor osenv rq cx = Some a"
      and k: "fst (acquire_lock hmac osenv pg fl now dur ws ''user'' a ttl st') = DisplayLock v"
      using assms(7) by (auto simp: AcquireDisplayControl_def Let_def split: option.splits prod.splits if_splits)
    have "may_acquire now ''user'' a l" by (rule acquire_granted [OF k assms(6) l])
    with a assms(3,5,8) show False by (simp add: may_acquire_def)
  qed
  then show ?thesis using l assms(3,5) agent_acquire_iff [of pg ws w, OF assms(6)] by simp
qed


text \<open>
  a human gets control exactly when no other human has it. With a display, a signing key and a
  datastore that answers, the request of an authorised caller is granted unless another caller
  holds an unexpired lock that is not the agent's; a granted lock is in the table, its session
  URL carries the control token of this lease, which opens the session until the lease ends, and
  the agent is denied control until then.
\<close>

theorem human_preempts_agent:
  assumes "locks_ok (dc_locks st)" and "decode_acquire b = Some (c, t)" and "c = [] \<or> c = ''user''"
    and "ttl = (if t = 0 then 300 else t)" and "30 \<le> ttl" and "ttl \<le> 3600"
    and "displayControlEnabled pg (df_compute fl) computes sidecar (hr_id rq) = None" and "displayControlActor osenv rq cx = Some a"
    and "DesktopSigningRoot hmac osenv \<noteq> []" and "df_write fl = None" and "df_load fl = None" and "pg (hr_id rq) = Some w"
    and "AcquireDisplayControl hmac osenv pg computes sidecar fl now dur rq cx b st = (r, st')"
    and "plain_id (hr_id rq)" and "0 \<le> now" and "now + ttl * second < 2 ^ 63"
  shows "((\<exists>v. r = DisplayLock v) \<longleftrightarrow>
        \<not> (\<exists>l. lock_of (dc_locks st) w = Some l \<and> lk_controller l = ''user'' \<and> lk_by l \<noteq> a \<and> now < lk_expires l))
    \<and> (r = DisplayLock v \<longrightarrow>
        lock_of (dc_locks st') w = Some \<lparr>lk_workspace = w, lk_controller = ''user'', lk_by = a, lk_expires = now + ttl * second\<rparr>
        \<and> (\<exists>tok. vr_SessionURL v = session_url (hr_id rq) tok
             \<and> (\<forall>s. validateDisplaySessionToken hmac osenv s tok (hr_id rq) a (now + ttl * second) \<longleftrightarrow> s \<le> now + ttl * second))
        \<and> (\<forall>s < now + ttl * second. fst (AcquireAgentControl pg False s (hr_id rq) (dc_locks st')) = Some False))"
proof -
  define e where "e = now + ttl * second"
  define n where "n = \<lparr>lk_workspace = w, lk_controller = ''user'', lk_by = a, lk_expires = e\<rparr>"
  define v0 where "v0 = (lock_response n)\<lparr>vr_SessionURL := signedDisplaySessionURL hmac osenv (hr_id rq) a e\<rparr>"
  note acq = acquire_answer [OF assms(2-12) n_def [unfolded e_def], where dur = dur and st = st, unfolded assms(13) fst_conv snd_conv, folded e_def, folded v0_def]
  let ?free = "case lock_of (dc_locks st) w of Some l \<Rightarrow> may_acquire now ''user'' a l | None \<Rightarrow> True"
  have g: "r = (if ?free then DisplayLock v0 else DisplayConflict ''display control already held''
      (map_option lock_response (sql_find (\<lambda>r. lk_workspace r = w \<and> lk_expires r > now) (dc_locks st))))"
    using acq by (auto split: option.splits)
  have "lk_controller l = ''user'' \<or> lk_controller l = ''agent''" if "lock_of (dc_locks st) w = Some l" for l
    using that assms(1) sql_find_Some_iff [of _ "dc_locks st" l] by (auto simp: lock_of_def locks_ok_def)
  then have f: "?free \<longleftrightarrow> \<not> (\<exists>l. lock_of (dc_locks st) w = Some l \<and> lk_controller l = ''user'' \<and> lk_by l \<noteq> a \<and> now < lk_expires l)"
    by (auto simp: may_acquire_def not_le split: option.splits)
  have k: "lock_of (dc_locks st') w = Some n" if "?free"
    using that acq lock_of_upsert [of "may_acquire now ''user'' a" n "dc_locks st" w] by (simp add: n_def split: option.splits)
  have key: "\<exists>key. deriveDisplayKey hmac osenv (hr_id rq) = Some key" using assms(9,14) by (simp add: deriveDisplayKey_def Let_def plain_id_def)
  have a: "a \<noteq> []" by (rule actor_not_Nil [OF assms(8)])
  have z: "e \<noteq> zero_time" "fits_int64 (unix e)"
    using assms(5,15,16) by (auto simp: e_def zero_time_def second_def fits_int64_def unix_def)
  have tok: "validateDisplaySessionToken hmac osenv s (signDisplaySessionToken hmac osenv (hr_id rq) a e) (hr_id rq) a e \<longleftrightarrow> s \<le> e" for s
    using key signed_session_accepted [OF _ a z(1) a z(1) assms(14,14) z(2,2)] by blast
  have ag: "fst (AcquireAgentControl pg False s (hr_id rq) (dc_locks st')) = Some False" if "?free" "s < e" for s
    using k [OF that(1)] that(2) agent_acquire_iff [of pg "hr_id rq" w, OF assms(12)] by (simp add: n_def)
  have u: "vr_SessionURL v0 = session_url (hr_id rq) (signDisplaySessionToken hmac osenv (hr_id rq) a e)"
    by (simp add: v0_def signedDisplaySessionURL_def)
  show ?thesis
    unfolding e_def [symmetric] f [symmetric] n_def [symmetric] using g k tok ag u by auto
qed


subsection \<open>Examples\<close>

definition ann_ctx :: auth_ctx where
  "ann_ctx = empty_ctx\<lparr>cp_session_actor := Some ''session:ann''\<rparr>"

definition bob_ctx :: auth_ctx where
  "bob_ctx = empty_ctx\<lparr>cp_session_actor := Some ''session:bob''\<rparr>"

definition no_display_faults :: display_faults where
  "no_display_faults = \<lparr>df_compute = False, df_cast = [], df_write = None, df_rows = None, df_load = None, df_event = (\<lambda>_. False)\<rparr>"

definition agent_driving :: display_state where
  "agent_driving = \<lparr>dc_locks = [\<lparr>lk_workspace = ''w1'', lk_controller = ''agent'', lk_by = ''agent'', lk_expires = 100 * second\<rparr>], dc_events = []\<rparr>"

definition ann_driving :: display_state where
  "ann_driving = \<lparr>dc_locks = [\<lparr>lk_workspace = ''w1'', lk_controller = ''user'', lk_by = ''session:ann'', lk_expires = 305 * second\<rparr>], dc_events = []\<rparr>"

abbreviation ann_takes :: "display_state \<Rightarrow> display_response \<times> display_state" where
  "ann_takes \<equiv> AcquireDisplayControl demo_hmac demo_osenv Some (\<lambda>_. Some (JObj [])) True no_display_faults (5 * second) 1 (demo_request ''w1'' []) ann_ctx None"

lemma demo_actors:
  "displayControlActor osenv rq ann_ctx = Some ''session:ann''" "displayControlActor osenv rq bob_ctx = Some ''session:bob''"
  by (simp_all add: displayControlActor_def ann_ctx_def bob_ctx_def empty_ctx_def ctx_string_def)

lemma demo_display:
  "displayControlEnabled Some (df_compute no_display_faults) (\<lambda>_. Some (JObj [])) True ws = None"
  "df_write no_display_faults = None" "df_load no_display_faults = None" "DesktopSigningRoot demo_hmac demo_osenv \<noteq> []"
  "hr_id (demo_request ws tok) = ws" "plain_id ''w1''"
  by (simp_all add: displayControlEnabled_def no_display_faults_def parseWorkspaceDisplayCompute_def no_compute_def
      DesktopSigningRoot_def demo_osenv_def demo_request_def plain_id_def)

theorem human_preempts_agent_witness:
  "\<exists>v. fst (ann_takes agent_driving) = DisplayLock v
    \<and> fst (AcquireAgentControl Some False (6 * second) ''w1'' (dc_locks (snd (ann_takes agent_driving)))) = Some False"
proof -
  have o': "locks_ok (dc_locks agent_driving)" by (simp add: locks_ok_def agent_driving_def unique_key_def)
  have d: "decode_acquire None = Some ([], 0)" by (simp add: decode_acquire_def)
  have t: "300 = (if (0::int) = 0 then 300 else 0)" by simp
  have s: "0 \<le> 5 * second" "5 * second + 300 * second < 2 ^ 63" "6 * second < 5 * second + 300 * second" by (simp_all add: second_def)
  have e: "displayControlEnabled Some (df_compute no_display_faults) (\<lambda>_. Some (JObj [])) True (hr_id (demo_request ''w1'' [])) = None"
    by (rule demo_display(1))
  have w: "Some (hr_id (demo_request ''w1'' [])) = Some ''w1''" "plain_id (hr_id (demo_request ''w1'' []))" by (simp_all add: demo_display)
  obtain r st' where x: "ann_takes agent_driving = (r, st')" by fastforce
  note h = human_preempts_agent [OF o' d _ t _ _ e demo_actors(1) demo_display(4,2,3) w(1) x w(2) s(1,2)]
  have "\<not> (\<exists>l. lock_of (dc_locks agent_driving) ''w1'' = Some l \<and> lk_controller l = ''user'' \<and> lk_by l \<noteq> ''session:ann'' \<and> 5 * second < lk_expires l)"
    by (simp add: lock_of_def agent_driving_def sql_find_Cons)
  then have "\<exists>v. r = DisplayLock v" using h [where v = "lock_response (hd (dc_locks st'))"] by simp
  then obtain v where v: "r = DisplayLock v" by (rule exE)
  then have "fst (AcquireAgentControl Some False (6 * second) ''w1'' (dc_locks st')) = Some False" using h [where v = v] s(3) by (simp add: demo_display)
  then show ?thesis using v x by simp
qed

theorem human_lock_exclusive_witness:
  "fst (AcquireAgentControl Some False (7 * second) ''w1'' (dc_locks (snd (AcquireDisplayControl demo_hmac demo_osenv Some (\<lambda>_. Some (JObj [])) True
      no_display_faults (6 * second) 1 (demo_request ''w1'' []) bob_ctx None ann_driving)))) = Some False"
proof -
  let ?l = "\<lparr>lk_workspace = ''w1'', lk_controller = ''user'', lk_by = ''session:ann'', lk_expires = 305 * second\<rparr>"
  let ?b = "AcquireDisplayControl demo_hmac demo_osenv Some (\<lambda>_. Some (JObj [])) True no_display_faults (6 * second) 1 (demo_request ''w1'' []) bob_ctx None ann_driving"
  have o': "locks_ok (dc_locks ann_driving)" by (simp add: locks_ok_def ann_driving_def unique_key_def)
  have l: "lock_of (dc_locks ann_driving) ''w1'' = Some ?l" by (simp add: lock_of_def ann_driving_def sql_find_Cons)
  have b: "displayControlActor demo_osenv (demo_request ''w1'' []) bob_ctx \<noteq> Some (lk_by ?l)" unfolding demo_actors by simp
  have "display_step demo_hmac demo_osenv Some (6 * second) (Caller (displayControlActor demo_osenv (demo_request ''w1'' []) bob_ctx)) ann_driving (snd ?b)"
    by (rule step_acquire [of _ _ _ _ _ _ _ _ _ _ _ _ "fst ?b"]) simp
  moreover have "6 * second < lk_expires ?l" by (simp add: second_def)
  ultimately have q: "(quiet_step demo_hmac demo_osenv Some (lk_by ?l) (lk_expires ?l))\<^sup>*\<^sup>* ann_driving (snd ?b)"
    using b unfolding quiet_step_def by (intro r_into_rtranclp) blast
  have "7 * second < lk_expires ?l" by (simp add: second_def)
  with human_lock_exclusive [OF o' l _ q, of "7 * second" "''w1''" "demo_request ''w1'' []" bob_ctx] b show ?thesis by (simp add: demo_display)
qed

end
