(* ===== verification/Desktop_Gateway.thy ===== *)
theory Desktop_Gateway
  imports Display_Control
begin

text \<open>
  The desktop of a workspace: the gateway between the agent's tool and the sidecar
  (\<^verbatim>\<open>internal/desktopgateway/gateway.go\<close>), the table of desktop states
  (\<^verbatim>\<open>internal/handlers/desktop_lifecycle_store.go\<close>), the sweep that scales idle desktops to zero
  (\<^verbatim>\<open>internal/handlers/desktop_idle_sweeper.go\<close>, \<^verbatim>\<open>internal/provisioner/desktop_lifecycle.go\<close>), the
  names of sidecars (\<^verbatim>\<open>internal/provisioner/desktop_naming.go\<close>) and the HTTP routes on top
  (\<^verbatim>\<open>internal/handlers/desktop_route.go\<close>, \<^verbatim>\<open>workspace_display_session.go\<close>).

  What the sidecar backend, the sidecar and \<open>url.Parse\<close> answer is an argument of each call. The
  gateway is written against an interface that grants or denies the agent control; its rule is
  the locale \<open>lock_checker\<close>, which the lock table of \<open>Display_Control\<close> satisfies.
\<close>

subsection \<open>Sidecar names\<close>

definition desktopContainerNamePrefix :: string where "desktopContainerNamePrefix = ''wsdesk-''"

definition DesktopContainerName :: "string \<Rightarrow> string" where
  "DesktopContainerName workspaceID = desktopContainerNamePrefix @ workspaceID"

definition IsDesktopSidecarName :: "string \<Rightarrow> bool" where
  "IsDesktopSidecarName name = prefix desktopContainerNamePrefix name"

definition WorkspaceIDFromDesktopName :: "string \<Rightarrow> string" where
  "WorkspaceIDFromDesktopName name =
    (if \<not> prefix desktopContainerNamePrefix name then [] else drop (length desktopContainerNamePrefix) name)"

definition desktopSidecarPorts :: "string list" where "desktopSidecarPorts = [''6070'', ''6080'']"

definition id_char :: "char \<Rightarrow> bool" where
  "id_char c = (in_range 48 57 c \<or> in_range 97 102 c \<or> in_range 65 70 c \<or> c = CHR ''-'')"

definition IsWellFormedWorkspaceID :: "string \<Rightarrow> bool" where
  "IsWellFormedWorkspaceID s = (s \<noteq> [] \<and> list_all id_char s)"

text \<open>\<open>True\<close> when no error is returned. \<open>strings.Cut\<close> splits at the first colon.\<close>

definition ValidateSidecarTarget :: "string \<Rightarrow> bool" where
  "ValidateSidecarTarget host =
    (let hostname = takeWhile (\<lambda>c. c \<noteq> CHR '':'') host; rest = dropWhile (\<lambda>c. c \<noteq> CHR '':'') host in
     if rest = [] \<or> tl rest = [] then False
     else if tl rest \<notin> set desktopSidecarPorts then False
     else let i = WorkspaceIDFromDesktopName hostname in
       if i = [] then False else IsWellFormedWorkspaceID i)"

subsection \<open>Desktop states\<close>

record desktop_row =
  lf_workspace :: string
  lf_state :: string
  lf_address :: "string option"
  lf_agent :: "time option"
  lf_vnc :: "time option"
  lf_conns :: int
  lf_lease :: bool
  lf_lease_exp :: "time option"

type_synonym desktop_table = "desktop_row list"

definition new_desktop :: "string \<Rightarrow> desktop_row" where
  "new_desktop w = \<lparr>lf_workspace = w, lf_state = ''stopped'', lf_address = None, lf_agent = None, lf_vnc = None,
     lf_conns = 0, lf_lease = False, lf_lease_exp = None\<rparr>"

definition upsert_desktop :: "(string \<Rightarrow> string option) \<Rightarrow> bool \<Rightarrow> string \<Rightarrow> (desktop_row \<Rightarrow> desktop_row) \<Rightarrow> desktop_table \<Rightarrow> desktop_table option" where
  "upsert_desktop pg fails workspaceID f tbl =
    (if fails then None
     else map_option (\<lambda>w. if list_ex (\<lambda>r. lf_workspace r = w) tbl then sql_update (\<lambda>r. lf_workspace r = w) f tbl
                          else tbl @ [f (new_desktop w)]) (pg workspaceID))"

definition RecordAgentActivity :: "(string \<Rightarrow> string option) \<Rightarrow> bool \<Rightarrow> time \<Rightarrow> string \<Rightarrow> desktop_table \<Rightarrow> desktop_table option" where
  "RecordAgentActivity pg fails now workspaceID = upsert_desktop pg fails workspaceID (\<lambda>r. r\<lparr>lf_agent := Some now\<rparr>)"

definition SetVNCPresence :: "(string \<Rightarrow> string option) \<Rightarrow> bool \<Rightarrow> string \<Rightarrow> int \<Rightarrow> time \<Rightarrow> desktop_table \<Rightarrow> desktop_table option" where
  "SetVNCPresence pg fails workspaceID connections lastInput =
    upsert_desktop pg fails workspaceID (\<lambda>r. r\<lparr>lf_conns := connections, lf_vnc := Some lastInput\<rparr>)"

definition SetState :: "(string \<Rightarrow> string option) \<Rightarrow> bool \<Rightarrow> string \<Rightarrow> string \<Rightarrow> string \<Rightarrow> desktop_table \<Rightarrow> desktop_table option" where
  "SetState pg fails workspaceID state sidecarAddress =
    upsert_desktop pg fails workspaceID (\<lambda>r. r\<lparr>lf_state := state, lf_address := nullif_empty sidecarAddress\<rparr>)"

definition RunningDesktopWorkspaceIDs :: "bool \<Rightarrow> desktop_table \<Rightarrow> string list option" where
  "RunningDesktopWorkspaceIDs fails tbl =
    (if fails then None else Some (map lf_workspace (filter (\<lambda>r. lf_state r = ''running'') tbl)))"

record DesktopActivity =
  da_LastAgentActivity :: time
  da_LastVNCInput :: time
  da_VNCConnections :: int
  da_AgentLeaseHeld :: bool

definition LoadActivity :: "(string \<Rightarrow> string option) \<Rightarrow> bool \<Rightarrow> time \<Rightarrow> string \<Rightarrow> desktop_table \<Rightarrow> DesktopActivity option" where
  "LoadActivity pg fails now workspaceID tbl =
    (if fails then None
     else case pg workspaceID of
         None \<Rightarrow> None
       | Some w \<Rightarrow>
          (case sql_find (\<lambda>r. lf_workspace r = w) tbl of
             None \<Rightarrow> Some \<lparr>da_LastAgentActivity = zero_time, da_LastVNCInput = zero_time, da_VNCConnections = 0, da_AgentLeaseHeld = False\<rparr>
           | Some r \<Rightarrow>
              Some \<lparr>da_LastAgentActivity = (case lf_agent r of Some t \<Rightarrow> t | None \<Rightarrow> zero_time),
                    da_LastVNCInput = (case lf_vnc r of Some t \<Rightarrow> t | None \<Rightarrow> zero_time),
                    da_VNCConnections = lf_conns r,
                    da_AgentLeaseHeld = (lf_lease r \<and> (case lf_lease_exp r of None \<Rightarrow> True | Some e \<Rightarrow> e > now))\<rparr>))"

definition DesktopIsIdle :: "time \<Rightarrow> DesktopActivity \<Rightarrow> duration \<Rightarrow> bool" where
  "DesktopIsIdle now a idleTimeout =
    (if idleTimeout \<le> 0 then False
     else if da_AgentLeaseHeld a then False
     else if da_VNCConnections a > 0 then False
     else
       let cutoff = now - idleTimeout in
       if da_LastAgentActivity a > cutoff then False
       else if da_LastVNCInput a > cutoff then False
       else True)"

subsection \<open>The idle sweep\<close>

text \<open>
  What fails in a sweep, by workspace id, and what other requests do to the table while the
  sweep reads the next activity (\<open>is_between\<close>). The teardown is the closure of
  \<^verbatim>\<open>cmd/server/main.go\<close>: stop the sidecar, then mark it stopped. \<open>stopped\<close> lists the sidecars
  that were stopped.
\<close>

record idle_sweep =
  is_list_fails :: bool
  is_load_fails :: "string \<Rightarrow> bool"
  is_stop_fails :: "string \<Rightarrow> bool"
  is_state_fails :: "string \<Rightarrow> bool"
  is_clock :: "string \<Rightarrow> time"
  is_between :: "string \<Rightarrow> desktop_table \<Rightarrow> desktop_table"

definition teardown_desktop ::
  "(string \<Rightarrow> string option) \<Rightarrow> idle_sweep \<Rightarrow> string \<Rightarrow> desktop_table \<times> string list \<Rightarrow> desktop_table \<times> string list" where
  "teardown_desktop pg sw i = (\<lambda>(tbl, stopped).
    if is_stop_fails sw i then (tbl, stopped)
    else (case SetState pg (is_state_fails sw i) i ''stopped'' [] tbl of None \<Rightarrow> tbl | Some tbl' \<Rightarrow> tbl', stopped @ [i]))"

primrec sweep_desktops ::
  "(string \<Rightarrow> string option) \<Rightarrow> duration \<Rightarrow> idle_sweep \<Rightarrow> string list \<Rightarrow> desktop_table \<times> string list \<Rightarrow> desktop_table \<times> string list" where
  "sweep_desktops pg idleTimeout sw [] st = st"
| "sweep_desktops pg idleTimeout sw (i # ids) st =
    (let tbl = is_between sw i (fst st) in
     sweep_desktops pg idleTimeout sw ids
       (case LoadActivity pg (is_load_fails sw i) (is_clock sw i) i tbl of
          None \<Rightarrow> (tbl, snd st)
        | Some act \<Rightarrow>
            if DesktopIsIdle (is_clock sw i) act idleTimeout then teardown_desktop pg sw i (tbl, snd st) else (tbl, snd st)))"

definition Sweep_desktops ::
  "(string \<Rightarrow> string option) \<Rightarrow> duration \<Rightarrow> idle_sweep \<Rightarrow> desktop_table \<Rightarrow> desktop_table \<times> string list" where
  "Sweep_desktops pg idleTimeout sw tbl =
    (case RunningDesktopWorkspaceIDs (is_list_fails sw) tbl of
       None \<Rightarrow> (tbl, [])
     | Some ids \<Rightarrow> sweep_desktops pg idleTimeout sw ids (tbl, []))"


subsection \<open>The gateway\<close>

datatype start_answer = StartUnavailable | StartFailed | Started string bool

datatype gateway_error = ErrHumanInControl | ErrDesktopBackendUnavailable | ErrInvalidNavigateURL | ErrGateway

record sidecar_request =
  sr_address :: string
  sr_path :: string
  sr_bearer :: string
  sr_body :: string

text \<open>
  The answers of one call: of the backend, of the datastore, of the token resolver (\<open>None\<close> when
  no request can be built) and of the sidecar (its status, \<open>None\<close> when it is not reached).
\<close>

record gateway_call =
  gc_now :: time
  gc_lock_fails :: bool
  gc_start :: start_answer
  gc_state_fails :: bool
  gc_activity_fails :: bool
  gc_token :: "string option"
  gc_status :: "int option"
  gc_content :: string

record gateway_config =
  gf_state :: bool
  gf_activity :: bool
  gf_presence :: bool

record desktop_state =
  dg_locks :: lock_table
  dg_rows :: desktop_table
  dg_recorded :: "string list"
  dg_viewers :: "string \<rightharpoonup> int"
  dg_sent :: "sidecar_request list"

definition ensureRunning ::
  "gateway_config \<Rightarrow> (string \<Rightarrow> string option) \<Rightarrow> gateway_call \<Rightarrow> string \<Rightarrow> desktop_state \<Rightarrow> (gateway_error + string) \<times> desktop_state" where
  "ensureRunning cfg pg gc workspaceID st =
    (case gc_start gc of
       StartUnavailable \<Rightarrow> (Inl ErrDesktopBackendUnavailable, st)
     | StartFailed \<Rightarrow> (Inl ErrGateway, st)
     | Started addr scaledUp \<Rightarrow>
        if addr = [] then (Inl ErrGateway, st)
        else if \<not> ValidateSidecarTarget addr then (Inl ErrGateway, st)
        else if gf_state cfg \<and> (scaledUp \<or> workspaceID \<notin> set (dg_recorded st)) then
          (case SetState pg (gc_state_fails gc) workspaceID ''running'' addr (dg_rows st) of
             None \<Rightarrow> (Inr addr, st)
           | Some rows \<Rightarrow> (Inr addr, st\<lparr>dg_rows := rows, dg_recorded := List.insert workspaceID (dg_recorded st)\<rparr>))
        else (Inr addr, st))"

definition recordActivity :: "gateway_config \<Rightarrow> (string \<Rightarrow> string option) \<Rightarrow> gateway_call \<Rightarrow> string \<Rightarrow> desktop_state \<Rightarrow> desktop_state" where
  "recordActivity cfg pg gc workspaceID st =
    (if gf_activity cfg
     then case RecordAgentActivity pg (gc_activity_fails gc) (gc_now gc) workspaceID (dg_rows st) of
            None \<Rightarrow> st | Some rows \<Rightarrow> st\<lparr>dg_rows := rows\<rparr>
     else st)"

text \<open>Send one request and compare the status of the answer with the one expected.\<close>

definition forward_request ::
  "gateway_call \<Rightarrow> string \<Rightarrow> string \<Rightarrow> string \<Rightarrow> int \<Rightarrow> desktop_state \<Rightarrow> (gateway_error + string) \<times> desktop_state" where
  "forward_request gc addr path payload want st =
    (case gc_token gc of
       None \<Rightarrow> (Inl ErrGateway, st)
     | Some tok \<Rightarrow>
        let st' = st\<lparr>dg_sent := dg_sent st @ [\<lparr>sr_address = addr, sr_path = path, sr_bearer = tok, sr_body = payload\<rparr>]\<rparr> in
        (case gc_status gc of
           None \<Rightarrow> (Inl ErrGateway, st')
         | Some s \<Rightarrow> (if s \<noteq> want then Inl ErrGateway else Inr (gc_content gc), st')))"

definition Screenshot ::
  "gateway_config \<Rightarrow> (string \<Rightarrow> string option) \<Rightarrow> gateway_call \<Rightarrow> string \<Rightarrow> desktop_state \<Rightarrow> (gateway_error + string) \<times> desktop_state" where
  "Screenshot cfg pg gc workspaceID st =
    (case ensureRunning cfg pg gc workspaceID st of
       (Inl e, st') \<Rightarrow> (Inl e, st')
     | (Inr addr, st') \<Rightarrow> forward_request gc addr ''/screenshot'' [] 200 (recordActivity cfg pg gc workspaceID st'))"

text \<open>\<open>acquire\<close> is the \<open>LockChecker\<close> of the gateway, on the lock table.\<close>

definition gateway_input ::
  "(bool \<Rightarrow> time \<Rightarrow> string \<Rightarrow> lock_table \<Rightarrow> bool option \<times> lock_table) \<Rightarrow> gateway_config \<Rightarrow> (string \<Rightarrow> string option) \<Rightarrow> gateway_call \<Rightarrow> string
     \<Rightarrow> string \<Rightarrow> desktop_state \<Rightarrow> (gateway_error + string) \<times> desktop_state" where
  "gateway_input acquire cfg pg gc workspaceID action st =
    (case acquire (gc_lock_fails gc) (gc_now gc) workspaceID (dg_locks st) of
       (None, tbl) \<Rightarrow> (Inl ErrGateway, st\<lparr>dg_locks := tbl\<rparr>)
     | (Some held, tbl) \<Rightarrow>
        let st1 = st\<lparr>dg_locks := tbl\<rparr> in
        if \<not> held then (Inl ErrHumanInControl, st1)
        else case ensureRunning cfg pg gc workspaceID st1 of
            (Inl e, st2) \<Rightarrow> (Inl e, st2)
          | (Inr addr, st2) \<Rightarrow> forward_request gc addr ''/input'' action 204 (recordActivity cfg pg gc workspaceID st2))"

definition Input ::
  "gateway_config \<Rightarrow> (string \<Rightarrow> string option) \<Rightarrow> gateway_call \<Rightarrow> string \<Rightarrow> string \<Rightarrow> desktop_state \<Rightarrow> (gateway_error + string) \<times> desktop_state" where
  "Input cfg pg = gateway_input (AcquireAgentControl pg) cfg pg"

text \<open>\<open>parse_url\<close> is \<open>url.Parse\<close>: the scheme and the host; \<open>navigate\<close> the JSON of the action.\<close>

definition HumanNavigate ::
  "(string \<Rightarrow> (string \<times> string) option) \<Rightarrow> (string \<Rightarrow> string) \<Rightarrow> gateway_config \<Rightarrow> (string \<Rightarrow> string option) \<Rightarrow> gateway_call \<Rightarrow> string \<Rightarrow> string
     \<Rightarrow> desktop_state \<Rightarrow> (gateway_error + string) \<times> desktop_state" where
  "HumanNavigate parse_url navigate cfg pg gc workspaceID rawURL st =
    (case parse_url rawURL of
       None \<Rightarrow> (Inl ErrInvalidNavigateURL, st)
     | Some (scheme, host) \<Rightarrow>
        if (scheme \<noteq> ''http'' \<and> scheme \<noteq> ''https'') \<or> host = [] then (Inl ErrInvalidNavigateURL, st)
        else case ensureRunning cfg pg gc workspaceID st of
            (Inl e, st') \<Rightarrow> (Inl e, st')
          | (Inr addr, st') \<Rightarrow> forward_request gc addr ''/input'' (navigate rawURL) 204 (recordActivity cfg pg gc workspaceID st'))"

text \<open>
  The live viewers. Each function changes the count under its mutex and writes the count it saw
  afterwards, outside of it: \<open>viewer_count\<close> and \<open>mirrorViewers\<close> are separate steps.
\<close>

definition viewers_of :: "(string \<rightharpoonup> int) \<Rightarrow> string \<Rightarrow> int" where
  "viewers_of v w = (case v w of Some n \<Rightarrow> n | None \<Rightarrow> 0)"

definition viewer_add :: "string \<Rightarrow> desktop_state \<Rightarrow> int \<times> desktop_state" where
  "viewer_add workspaceID st =
    (let n = viewers_of (dg_viewers st) workspaceID + 1 in (n, st\<lparr>dg_viewers := (dg_viewers st)(workspaceID \<mapsto> n)\<rparr>))"

definition viewer_remove :: "string \<Rightarrow> desktop_state \<Rightarrow> int \<times> desktop_state" where
  "viewer_remove workspaceID st =
    (let k = viewers_of (dg_viewers st) workspaceID; n = (if k > 0 then k - 1 else k) in
     (n, st\<lparr>dg_viewers := (dg_viewers st)(workspaceID := (if n = 0 then None else Some n))\<rparr>))"

definition mirrorViewers ::
  "gateway_config \<Rightarrow> (string \<Rightarrow> string option) \<Rightarrow> bool \<Rightarrow> time \<Rightarrow> string \<Rightarrow> int \<Rightarrow> desktop_state \<Rightarrow> desktop_state" where
  "mirrorViewers cfg pg fails now workspaceID n st =
    (if \<not> gf_presence cfg then st
     else case SetVNCPresence pg fails workspaceID n now (dg_rows st) of None \<Rightarrow> st | Some rows \<Rightarrow> st\<lparr>dg_rows := rows\<rparr>)"

definition ViewerConnected ::
  "gateway_config \<Rightarrow> (string \<Rightarrow> string option) \<Rightarrow> bool \<Rightarrow> time \<Rightarrow> string \<Rightarrow> desktop_state \<Rightarrow> desktop_state" where
  "ViewerConnected cfg pg fails now workspaceID st =
    (case viewer_add workspaceID st of (n, st') \<Rightarrow> mirrorViewers cfg pg fails now workspaceID n st')"

definition ViewerDisconnected ::
  "gateway_config \<Rightarrow> (string \<Rightarrow> string option) \<Rightarrow> bool \<Rightarrow> time \<Rightarrow> string \<Rightarrow> desktop_state \<Rightarrow> desktop_state" where
  "ViewerDisconnected cfg pg fails now workspaceID st =
    (case viewer_remove workspaceID st of (n, st') \<Rightarrow> mirrorViewers cfg pg fails now workspaceID n st')"


subsection \<open>The routes\<close>

datatype desktop_response =
    DesktopRejected int string
  | DesktopPNG string
  | DesktopDone
  | DesktopStatus bool bool

definition DesktopScreenshot ::
  "bool \<Rightarrow> gateway_config \<Rightarrow> (string \<Rightarrow> string option) \<Rightarrow> gateway_call \<Rightarrow> string \<Rightarrow> desktop_state \<Rightarrow> desktop_response \<times> desktop_state" where
  "DesktopScreenshot wired cfg pg gc workspaceID st =
    (if \<not> wired then (DesktopRejected 503 ''desktop not available'', st)
     else case Screenshot cfg pg gc workspaceID st of
         (Inr png, st') \<Rightarrow> (DesktopPNG png, st')
       | (Inl ErrDesktopBackendUnavailable, st') \<Rightarrow> (DesktopRejected 503 ''desktop not available'', st')
       | (Inl _, st') \<Rightarrow> (DesktopRejected 502 ''screenshot failed'', st'))"

definition DesktopControlStatus ::
  "bool \<Rightarrow> (string \<Rightarrow> string option) \<Rightarrow> bool \<Rightarrow> time \<Rightarrow> string \<Rightarrow> desktop_state \<Rightarrow> desktop_response" where
  "DesktopControlStatus wired pg fails now workspaceID st =
    (if \<not> wired then DesktopRejected 503 ''desktop not available''
     else case loadActiveDisplayControl pg [] (if fails then Some [] else None) now workspaceID (dg_locks st) of
         Inl _ \<Rightarrow> DesktopRejected 500 ''failed to load display control''
       | Inr l \<Rightarrow>
          let humanInControl = (case l of None \<Rightarrow> False | Some lock \<Rightarrow> lk_controller lock = ''user'') in
          DesktopStatus humanInControl (\<not> humanInControl))"

definition DesktopInput ::
  "bool \<Rightarrow> gateway_config \<Rightarrow> (string \<Rightarrow> string option) \<Rightarrow> gateway_call \<Rightarrow> string \<Rightarrow> string option \<Rightarrow> desktop_state \<Rightarrow> desktop_response \<times> desktop_state" where
  "DesktopInput wired cfg pg gc workspaceID bytes st =
    (if \<not> wired then (DesktopRejected 503 ''desktop not available'', st)
     else case bytes of
         None \<Rightarrow> (DesktopRejected 400 ''read body'', st)
       | Some s \<Rightarrow>
          (case Input cfg pg gc workspaceID (take (2 ^ 20) s) st of
             (Inr _, st') \<Rightarrow> (DesktopDone, st')
           | (Inl ErrHumanInControl, st') \<Rightarrow> (DesktopRejected 409 ''human in control'', st')
           | (Inl ErrDesktopBackendUnavailable, st') \<Rightarrow> (DesktopRejected 503 ''desktop not available'', st')
           | (Inl _, st') \<Rightarrow> (DesktopRejected 502 ''input failed'', st')))"

text \<open>The decoded request is its URL and its token.\<close>

definition DesktopNavigate ::
  "(string \<Rightarrow> string \<Rightarrow> string) \<Rightarrow> (string \<Rightarrow> string) \<Rightarrow> (string \<Rightarrow> (string \<times> string) option) \<Rightarrow> (string \<Rightarrow> string) \<Rightarrow> bool \<Rightarrow> gateway_config
     \<Rightarrow> (string \<Rightarrow> string option) \<Rightarrow> bool \<Rightarrow> gateway_call \<Rightarrow> string \<Rightarrow> (string \<times> string) option \<Rightarrow> desktop_state \<Rightarrow> desktop_response \<times> desktop_state" where
  "DesktopNavigate hmac osenv parse_url navigate wired cfg pg fails gc workspaceID req st =
    (if \<not> wired then (DesktopRejected 503 ''desktop not available'', st)
     else case req of
         None \<Rightarrow> (DesktopRejected 400 ''invalid navigate request'', st)
       | Some (url, token) \<Rightarrow>
          (case loadActiveDisplayControl pg [] (if fails then Some [] else None) (gc_now gc) workspaceID (dg_locks st) of
             Inl _ \<Rightarrow> (DesktopRejected 500 ''failed to load display control'', st)
           | Inr None \<Rightarrow> (DesktopRejected 403 ''must hold display control to navigate'', st)
           | Inr (Some lock) \<Rightarrow>
              if \<not> validateDisplaySessionToken hmac osenv (gc_now gc) token workspaceID (lk_by lock) (lk_expires lock)
              then (DesktopRejected 403 ''must hold display control to navigate'', st)
              else (case HumanNavigate parse_url navigate cfg pg gc workspaceID url st of
                      (Inr _, st') \<Rightarrow> (DesktopDone, st')
                    | (Inl ErrInvalidNavigateURL, st') \<Rightarrow> (DesktopRejected 400 ''navigate requires an http(s) URL'', st')
                    | (Inl ErrDesktopBackendUnavailable, st') \<Rightarrow> (DesktopRejected 503 ''desktop not available'', st')
                    | (Inl _, st') \<Rightarrow> (DesktopRejected 502 ''navigate failed'', st'))))"

text \<open>
  The display session. The row of the workspace is its compute settings and its instance id.
  The answer is what the proxy is opened to: the sidecar, or the tunnel of an instance.
\<close>

datatype session_outcome = SessionRejected int string | SessionSidecar string | SessionTunnel string

definition loadWorkspaceDisplaySessionTarget ::
  "(string \<Rightarrow> string option) \<Rightarrow> bool \<Rightarrow> (string \<Rightarrow> (json \<times> string) option) \<Rightarrow> string
     \<Rightarrow> (int \<times> string) + WorkspaceComputeDisplay \<times> string" where
  "loadWorkspaceDisplaySessionTarget pg fails rows workspaceID =
    (if fails then Inl (500, ''failed to load display session'')
     else case pg workspaceID of
         None \<Rightarrow> Inl (500, ''failed to load display session'')
       | Some w \<Rightarrow>
          (case rows w of
             None \<Rightarrow> Inl (404, ''workspace not found'')
           | Some (raw, instanceID) \<Rightarrow>
              (case parseWorkspaceDisplayCompute raw of
                 None \<Rightarrow> Inl (500, ''failed to load display session'')
               | Some compute \<Rightarrow> Inr (wc_Display compute, instanceID))))"

definition desktopNoVNCPort :: string where "desktopNoVNCPort = ''6080''"

definition DisplaySession ::
  "(string \<Rightarrow> string \<Rightarrow> string) \<Rightarrow> (string \<Rightarrow> string) \<Rightarrow> bool \<Rightarrow> bool \<Rightarrow> gateway_config \<Rightarrow> (string \<Rightarrow> string option) \<Rightarrow> bool \<Rightarrow> bool \<Rightarrow> bool
     \<Rightarrow> (string \<Rightarrow> (json \<times> string) option) \<Rightarrow> gateway_call \<Rightarrow> string \<Rightarrow> string \<Rightarrow> string \<Rightarrow> desktop_state \<Rightarrow> session_outcome \<times> desktop_state" where
  "DisplaySession hmac osenv useSidecar wired cfg pg row_fails lock_fails presence_fails rows gc workspaceID proxyPath protocols st =
    (case loadWorkspaceDisplaySessionTarget pg row_fails rows workspaceID of
       Inl (code, msg) \<Rightarrow> (SessionRejected code msg, st)
     | Inr (display, instanceID) \<Rightarrow>
        if (wd_Mode display = [] \<or> wd_Mode display = ''none'') \<and> \<not> useSidecar then (SessionRejected 404 ''display not enabled'', st)
        else if \<not> useSidecar \<and> instanceID = [] then (SessionRejected 503 ''display session unavailable'', st)
        else
          let st1 = (if useSidecar \<and> wired then snd (ensureRunning cfg pg gc workspaceID st) else st) in
          if proxyPath \<noteq> ''/websockify'' then (SessionRejected 404 ''display session path not found'', st1)
          else case loadActiveDisplayControl pg [] (if lock_fails then Some [] else None) (gc_now gc) workspaceID (dg_locks st1) of
              Inl _ \<Rightarrow> (SessionRejected 500 ''failed to load display control'', st1)
            | Inr l \<Rightarrow>
               let tok = displaySessionTokenFromRequest protocols;
                   controlOK = (case l of None \<Rightarrow> False
                     | Some lock \<Rightarrow> validateDisplaySessionToken hmac osenv (gc_now gc) tok workspaceID (lk_by lock) (lk_expires lock));
                   viewOK = validateDisplayViewerToken hmac osenv (gc_now gc) tok workspaceID in
               if \<not> controlOK \<and> \<not> viewOK then (SessionRejected 403 ''display control or view token required'', st1)
               else
                 let st2 = (if useSidecar \<and> wired then ViewerConnected cfg pg presence_fails (gc_now gc) workspaceID st1 else st1);
                     host = DesktopContainerName workspaceID @ '':'' @ desktopNoVNCPort in
                 if \<not> useSidecar then (SessionTunnel instanceID, st2)
                 else if \<not> ValidateSidecarTarget host
                   then (SessionRejected 502 ''display session proxy failed'',
                         if wired then ViewerDisconnected cfg pg presence_fails (gc_now gc) workspaceID st2 else st2)
                 else (SessionSidecar host, st2))"

subsection \<open>Requests stay inside the sidecars\<close>

definition sidecar_target :: "string \<Rightarrow> bool" where
  "sidecar_target a = (\<exists>i port. a = ''wsdesk-'' @ i @ '':'' @ port \<and> i \<noteq> [] \<and> list_all id_char i \<and> port \<in> {''6070'', ''6080''})"

lemma id_char_colon: "\<not> id_char (CHR '':'')"
  by (simp add: id_char_def in_range_def)

lemma target_iff: "ValidateSidecarTarget a \<longleftrightarrow> sidecar_target a"
proof
  assume v: "ValidateSidecarTarget a"
  define h where "h = takeWhile (\<lambda>c. c \<noteq> CHR '':'') a"
  define r where "r = dropWhile (\<lambda>c. c \<noteq> CHR '':'') a"
  define i where "i = drop (length desktopContainerNamePrefix) h"
  have "r \<noteq> []" and port: "tl r \<in> {''6070'', ''6080''}" and pre: "prefix ''wsdesk-'' h" and i: "i \<noteq> []" "list_all id_char i"
    using v unfolding ValidateSidecarTarget_def Let_def h_def [symmetric] r_def [symmetric]
    by (auto simp: desktopSidecarPorts_def WorkspaceIDFromDesktopName_def desktopContainerNamePrefix_def IsWellFormedWorkspaceID_def i_def split: if_splits)
  then have "hd r = CHR '':''" using hd_dropWhile [of "\<lambda>c. c \<noteq> CHR '':''" a] unfolding r_def by blast
  with \<open>r \<noteq> []\<close> have "r = '':'' @ tl r" by (cases r) simp_all
  moreover have "h = ''wsdesk-'' @ i" using pre by (auto simp: prefix_def i_def desktopContainerNamePrefix_def)
  moreover have "a = h @ r" by (simp add: h_def r_def)
  ultimately have "a = ''wsdesk-'' @ i @ '':'' @ tl r" by simp
  with i port show "sidecar_target a" unfolding sidecar_target_def by blast
next
  assume "sidecar_target a"
  then obtain i port where a: "a = ''wsdesk-'' @ i @ '':'' @ port" "i \<noteq> []" "list_all id_char i" "port \<in> {''6070'', ''6080''}"
    unfolding sidecar_target_def by blast
  have "c \<noteq> CHR '':''" if "c \<in> set (''wsdesk-'' @ i)" for c using that a(3) id_char_colon by (auto simp: list_all_iff)
  then have "takeWhile (\<lambda>c. c \<noteq> CHR '':'') ((''wsdesk-'' @ i) @ '':'' @ port) = ''wsdesk-'' @ i"
    "dropWhile (\<lambda>c. c \<noteq> CHR '':'') ((''wsdesk-'' @ i) @ '':'' @ port) = '':'' @ port"
    by (subst takeWhile_append2 dropWhile_append2; simp)+
  then have s: "takeWhile (\<lambda>c. c \<noteq> CHR '':'') a = ''wsdesk-'' @ i" "dropWhile (\<lambda>c. c \<noteq> CHR '':'') a = '':'' @ port" using a(1) by simp_all
  show "ValidateSidecarTarget a"
    unfolding ValidateSidecarTarget_def Let_def s using a(2,3,4)
    by (auto simp: desktopSidecarPorts_def WorkspaceIDFromDesktopName_def desktopContainerNamePrefix_def IsWellFormedWorkspaceID_def)
qed


lemma ensure_target: "ensureRunning cfg pg gc ws st = (Inr a, st') \<Longrightarrow> sidecar_target a"
  by (auto simp: ensureRunning_def target_iff [symmetric] split: start_answer.splits if_splits option.splits)

lemma ensure_keeps [simp]:
  "dg_sent (snd (ensureRunning cfg pg gc ws st)) = dg_sent st" "dg_locks (snd (ensureRunning cfg pg gc ws st)) = dg_locks st"
  by (auto simp: ensureRunning_def split: start_answer.splits if_splits option.splits)

lemma record_keeps [simp]: "dg_sent (recordActivity cfg pg gc ws st) = dg_sent st" "dg_locks (recordActivity cfg pg gc ws st) = dg_locks st"
  by (simp_all add: recordActivity_def split: option.splits)

definition sends_at_most :: "string \<Rightarrow> string \<Rightarrow> gateway_call \<Rightarrow> desktop_state \<Rightarrow> desktop_state \<Rightarrow> bool" where
  "sends_at_most path payload gc st st' = (dg_sent st' = dg_sent st \<or> (\<exists>a tok. sidecar_target a \<and> gc_token gc = Some tok
     \<and> dg_sent st' = dg_sent st @ [\<lparr>sr_address = a, sr_path = path, sr_bearer = tok, sr_body = payload\<rparr>]))"

lemma forward_sends:
  "forward_request gc a path payload want st = (r, st') \<Longrightarrow> sidecar_target a \<Longrightarrow> sends_at_most path payload gc st st'"
  unfolding sends_at_most_def by (force simp: forward_request_def Let_def split: option.splits)

lemma ensure_then_sends:
  assumes "(case ensureRunning cfg pg gc ws st of (Inl e, st') \<Rightarrow> (Inl e, st')
     | (Inr addr, st') \<Rightarrow> forward_request gc addr path payload want (recordActivity cfg pg gc ws st')) = (r, st2)"
  shows "sends_at_most path payload gc st st2"
proof -
  obtain x s where e: "ensureRunning cfg pg gc ws st = (x, s)" by fastforce
  then have k: "dg_sent s = dg_sent st" using ensure_keeps(1) [of cfg pg gc ws st] by simp
  show ?thesis
  proof (cases x)
    case (Inl a)
    with assms e k show ?thesis by (simp add: sends_at_most_def)
  next
    case (Inr addr)
    with assms e have "forward_request gc addr path payload want (recordActivity cfg pg gc ws s) = (r, st2)" by simp
    from forward_sends [OF this ensure_target] e Inr have "sends_at_most path payload gc (recordActivity cfg pg gc ws s) st2" by blast
    then show ?thesis by (simp add: sends_at_most_def k)
  qed
qed

lemma sends_refl: "sends_at_most path payload gc st st"
  by (simp add: sends_at_most_def)

lemma Screenshot_sends: "Screenshot cfg pg gc ws st = (r, st') \<Longrightarrow> sends_at_most ''/screenshot'' [] gc st st'"
  unfolding Screenshot_def by (rule ensure_then_sends)

lemma Navigate_sends:
  assumes "HumanNavigate parse_url navigate cfg pg gc ws url st = (r, st')"
  shows "sends_at_most ''/input'' (navigate url) gc st st'"
proof (cases "\<exists>scheme host. parse_url url = Some (scheme, host) \<and> \<not> ((scheme \<noteq> ''http'' \<and> scheme \<noteq> ''https'') \<or> host = [])")
  case True
  with assms show ?thesis unfolding HumanNavigate_def by (elim exE conjE) (simp only: option.case prod.case if_False, rule ensure_then_sends)
next
  case False
  with assms have "st' = st" by (auto simp: HumanNavigate_def split: option.splits if_splits)
  then show ?thesis by (simp add: sends_refl)
qed

lemma Input_sends:
  assumes "Input cfg pg gc ws action st = (r, st')"
  shows "sends_at_most ''/input'' action gc st st'"
proof -
  obtain h tbl where a: "AcquireAgentControl pg (gc_lock_fails gc) (gc_now gc) ws (dg_locks st) = (h, tbl)" by fastforce
  show ?thesis
  proof (cases "h = Some True")
    case True
    with assms a have "(case ensureRunning cfg pg gc ws (st\<lparr>dg_locks := tbl\<rparr>) of (Inl e, st') \<Rightarrow> (Inl e, st')
        | (Inr addr, st') \<Rightarrow> forward_request gc addr ''/input'' action 204 (recordActivity cfg pg gc ws st')) = (r, st')"
      by (simp add: Input_def gateway_input_def Let_def)
    then have "sends_at_most ''/input'' action gc (st\<lparr>dg_locks := tbl\<rparr>) st'" by (rule ensure_then_sends)
    then show ?thesis by (simp add: sends_at_most_def)
  next
    case False
    with assms a show ?thesis by (auto simp: Input_def gateway_input_def Let_def sends_at_most_def split: option.splits if_splits)
  qed
qed

lemma Session_target:
  "DisplaySession hmac osenv sidecar wired cfg pg f1 f2 f3 rows gc ws path protocols st = (SessionSidecar host, st') \<Longrightarrow> sidecar_target host"
  by (auto simp: DisplaySession_def Let_def target_iff split: sum.splits prod.splits option.splits if_splits)



subsection \<open>The agent yields to a human\<close>

text \<open>
  What the gateway needs of its lock checker: it does not grant the agent control while a human
  holds it, and a grant leaves no human in control.
\<close>

locale lock_checker =
  fixes acquire :: "bool \<Rightarrow> time \<Rightarrow> string \<Rightarrow> lock_table \<Rightarrow> bool option \<times> lock_table"
    and human :: "time \<Rightarrow> string \<Rightarrow> lock_table \<Rightarrow> bool"
  assumes denied: "human t ws tbl \<Longrightarrow> acquire f t ws tbl = (if f then None else Some False, tbl)"
    and granted: "acquire f t ws tbl = (Some True, tbl') \<Longrightarrow> \<not> human t ws tbl'"
begin

lemma input_refused:
  "human (gc_now gc) ws (dg_locks st) \<Longrightarrow>
    gateway_input acquire cfg pg gc ws action st = (Inl (if gc_lock_fails gc then ErrGateway else ErrHumanInControl), st)"
  using denied [of "gc_now gc" ws "dg_locks st" "gc_lock_fails gc"] by (simp add: gateway_input_def)

lemma input_forwarded:
  assumes "gateway_input acquire cfg pg gc ws action st = (r, st')" and "dg_sent st' \<noteq> dg_sent st"
  shows "\<not> human (gc_now gc) ws (dg_locks st')"
proof -
  obtain h tbl where a: "acquire (gc_lock_fails gc) (gc_now gc) ws (dg_locks st) = (h, tbl)" by fastforce
  with assms have h: "h = Some True" by (auto simp: gateway_input_def Let_def split: option.splits if_splits)
  have f: "dg_locks (snd (forward_request gc x path p want s)) = dg_locks s" for x path p want s
    by (simp add: forward_request_def Let_def split: option.splits)
  obtain e s where e: "ensureRunning cfg pg gc ws (st\<lparr>dg_locks := tbl\<rparr>) = (e, s)" by fastforce
  then have "dg_locks s = tbl" using ensure_keeps(2) [of cfg pg gc ws "st\<lparr>dg_locks := tbl\<rparr>"] by simp
  with assms(1) a h e have "dg_locks st' = tbl"
    using f by (cases e) (auto simp: gateway_input_def Let_def, metis record_keeps(2) snd_conv)
  with granted a h show ?thesis by blast
qed

end

definition human_holds :: "(string \<Rightarrow> string option) \<Rightarrow> time \<Rightarrow> string \<Rightarrow> lock_table \<Rightarrow> bool" where
  "human_holds pg t ws tbl = (\<exists>w l. pg ws = Some w \<and> lock_of tbl w = Some l \<and> lk_controller l = ''user'' \<and> t < lk_expires l)"

lemma human_denies:
  assumes "human_holds pg t ws tbl"
  shows "AcquireAgentControl pg f t ws tbl = (if f then None else Some False, tbl)"
proof -
  from assms obtain w l where w: "pg ws = Some w" and l: "lock_of tbl w = Some l" "lk_controller l = ''user''" "t < lk_expires l"
    unfolding human_holds_def by blast
  let ?n = "\<lparr>lk_workspace = w, lk_controller = ''agent'', lk_by = ''agent'', lk_expires = t + agentControlLeaseSeconds * second\<rparr>"
  have "upsert_lock (\<lambda>r. lk_controller r = ''agent'' \<or> lk_expires r \<le> t) ?n tbl = (None, tbl)"
    using upsert_held [of tbl ?n l] l by simp
  then show ?thesis using w by (simp add: AcquireAgentControl_def Let_def)
qed

interpretation table_locks: lock_checker "AcquireAgentControl pg" "human_holds pg" for pg
proof
  show "AcquireAgentControl pg f t ws tbl = (if f then None else Some False, tbl)" if "human_holds pg t ws tbl" for f t ws tbl
    using that by (rule human_denies)
  show "\<not> human_holds pg t ws tbl'" if a: "AcquireAgentControl pg f t ws tbl = (Some True, tbl')" for f t ws tbl tbl'
  proof
    assume "human_holds pg t ws tbl'"
    then obtain w l where w: "pg ws = Some w" and l: "lock_of tbl' w = Some l" "lk_controller l = ''user''" "t < lk_expires l"
      unfolding human_holds_def by blast
    let ?P = "\<lambda>r. lk_controller r = ''agent'' \<or> lk_expires r \<le> t"
    let ?n = "\<lparr>lk_workspace = w, lk_controller = ''agent'', lk_by = ''agent'', lk_expires = t + agentControlLeaseSeconds * second\<rparr>"
    have "\<not> f" using a by (auto simp: AcquireAgentControl_def)
    then have g: "fst (AcquireAgentControl pg False t ws tbl) = Some True" using a by simp
    have u: "tbl' = snd (upsert_lock ?P ?n tbl)"
      using a w \<open>\<not> f\<close> by (auto simp: AcquireAgentControl_def Let_def split: prod.splits option.splits)
    have "case lock_of tbl w of None \<Rightarrow> True | Some r \<Rightarrow> ?P r" using g agent_acquire_iff [of pg ws w, OF w] by simp
    then have "lock_of tbl' w = Some ?n" unfolding u lock_of_upsert by (simp split: option.splits)
    with l(1) have "l = ?n" by simp
    with l(2) show False by simp
  qed
qed

lemma active_lock: "lock_of tbl w = Some l \<Longrightarrow> t < lk_expires l \<Longrightarrow> sql_find (\<lambda>r. lk_workspace r = w \<and> t < lk_expires r) tbl = Some l"
  unfolding lock_of_def by (induction tbl) (auto simp: sql_find_Cons split: if_splits)



subsection \<open>Idle desktops are scaled to zero, and only those\<close>

definition idle_row :: "time \<Rightarrow> duration \<Rightarrow> desktop_row \<Rightarrow> bool" where
  "idle_row now T r = (0 < T \<and> lf_conns r \<le> 0 \<and> \<not> (lf_lease r \<and> (case lf_lease_exp r of None \<Rightarrow> True | Some e \<Rightarrow> now < e))
     \<and> (case lf_agent r of None \<Rightarrow> zero_time | Some t \<Rightarrow> t) \<le> now - T \<and> (case lf_vnc r of None \<Rightarrow> zero_time | Some t \<Rightarrow> t) \<le> now - T)"

lemma idle_found:
  assumes "pg i = Some w" and "sql_find (\<lambda>r. lf_workspace r = w) tbl = Some r"
  shows "\<exists>act. LoadActivity pg False now i tbl = Some act \<and> (DesktopIsIdle now act T \<longleftrightarrow> idle_row now T r)"
  using assms by (auto simp: LoadActivity_def DesktopIsIdle_def idle_row_def Let_def not_le not_less)

text \<open>A sidecar is stopped only after its activity was read and found cold.\<close>

lemma stopped_was_idle:
  "sweep_desktops pg T sw ids st = (tbl', stopped') \<Longrightarrow> i \<in> set stopped' \<Longrightarrow> i \<in> set (snd st)
    \<or> (i \<in> set ids \<and> (\<exists>tbl act. LoadActivity pg (is_load_fails sw i) (is_clock sw i) i (is_between sw i tbl) = Some act \<and> DesktopIsIdle (is_clock sw i) act T))"
proof (induction ids arbitrary: st)
  case (Cons j ids)
  let ?tbl = "is_between sw j (fst st)"
  define st1 where "st1 = (case LoadActivity pg (is_load_fails sw j) (is_clock sw j) j ?tbl of
          None \<Rightarrow> (?tbl, snd st)
        | Some act \<Rightarrow> if DesktopIsIdle (is_clock sw j) act T then teardown_desktop pg sw j (?tbl, snd st) else (?tbl, snd st))"
  from Cons.prems(1) have "sweep_desktops pg T sw ids st1 = (tbl', stopped')" by (simp add: st1_def Let_def)
  from Cons.IH [OF this Cons.prems(2)] consider "i \<in> set (snd st1)"
    | "i \<in> set ids" "\<exists>tbl act. LoadActivity pg (is_load_fails sw i) (is_clock sw i) i (is_between sw i tbl) = Some act \<and> DesktopIsIdle (is_clock sw i) act T"
    by blast
  then show ?case
  proof cases
    case 1
    then have "i \<in> set (snd st) \<or> (i = j \<and> (\<exists>act. LoadActivity pg (is_load_fails sw j) (is_clock sw j) j ?tbl = Some act \<and> DesktopIsIdle (is_clock sw j) act T))"
      unfolding st1_def by (auto simp: teardown_desktop_def split: option.splits if_splits)
    then show ?thesis by auto
  qed auto
qed simp

definition stop_row :: "desktop_row \<Rightarrow> desktop_row" where
  "stop_row r = r\<lparr>lf_state := ''stopped'', lf_address := None\<rparr>"

definition calm_sweep :: "time \<Rightarrow> idle_sweep" where
  "calm_sweep now = \<lparr>is_list_fails = False, is_load_fails = (\<lambda>_. False), is_stop_fails = (\<lambda>_. False), is_state_fails = (\<lambda>_. False),
     is_clock = (\<lambda>_. now), is_between = (\<lambda>_ tbl. tbl)\<rparr>"

lemma calm_sweep_run:
  assumes "unique_key lf_workspace tbl" and "\<forall>r \<in> set tbl. pg (lf_workspace r) = Some (lf_workspace r)" and "set ids \<subseteq> lf_workspace ` set tbl" and "distinct ids"
  shows "sweep_desktops pg T (calm_sweep now) ids (tbl, stopped) =
    (map (\<lambda>r. if lf_workspace r \<in> set ids \<and> idle_row now T r then stop_row r else r) tbl,
     stopped @ filter (\<lambda>i. \<exists>r \<in> set tbl. lf_workspace r = i \<and> idle_row now T r) ids)"
  using assms
proof (induction ids arbitrary: tbl stopped)
  case (Cons i ids)
  from Cons.prems(3) obtain r where r: "r \<in> set tbl" "lf_workspace r = i" by auto
  then have f: "sql_find (\<lambda>x. lf_workspace x = i) tbl = Some r" and p: "pg i = Some i"
    using sql_find_key [OF Cons.prems(1) r(1)] Cons.prems(2) by auto
  have u: "x = r" if "x \<in> set tbl" "lf_workspace x = i" for x using unique_key_eq [OF Cons.prems(1) that(1) r(1)] that(2) r(2) by simp
  obtain act where a: "LoadActivity pg False now i tbl = Some act" "DesktopIsIdle now act T \<longleftrightarrow> idle_row now T r"
    using idle_found [of pg i i tbl r now T, OF p f] by blast
  have q: "(\<exists>x \<in> set tbl. lf_workspace x = i \<and> idle_row now T x) \<longleftrightarrow> idle_row now T r" using r u by blast
  show ?case
  proof (cases "idle_row now T r")
    case False
    have "sweep_desktops pg T (calm_sweep now) (i # ids) (tbl, stopped) = sweep_desktops pg T (calm_sweep now) ids (tbl, stopped)"
      using a False by (simp add: calm_sweep_def Let_def)
    also have "\<dots> = (map (\<lambda>r. if lf_workspace r \<in> set ids \<and> idle_row now T r then stop_row r else r) tbl,
        stopped @ filter (\<lambda>i. \<exists>r \<in> set tbl. lf_workspace r = i \<and> idle_row now T r) ids)"
      using Cons.prems by (intro Cons.IH) auto
    also have "map (\<lambda>r. if lf_workspace r \<in> set ids \<and> idle_row now T r then stop_row r else r) tbl
        = map (\<lambda>r. if lf_workspace r \<in> set (i # ids) \<and> idle_row now T r then stop_row r else r) tbl"
      using u False by (intro map_cong) auto
    finally show ?thesis using q False by simp
  next
    case True
    let ?tbl = "map (\<lambda>x. if lf_workspace x = i then stop_row x else x) tbl"
    have s: "SetState pg False i ''stopped'' [] tbl = Some ?tbl"
      using r p by (auto simp: SetState_def upsert_desktop_def stop_row_def list_ex_iff sql_update_def)
    have k: "map lf_workspace ?tbl = map lf_workspace tbl" by (simp add: stop_row_def)
    have "sweep_desktops pg T (calm_sweep now) (i # ids) (tbl, stopped) = sweep_desktops pg T (calm_sweep now) ids (?tbl, stopped @ [i])"
      using a True s by (simp add: calm_sweep_def Let_def teardown_desktop_def)
    also have "\<dots> = (map (\<lambda>r. if lf_workspace r \<in> set ids \<and> idle_row now T r then stop_row r else r) ?tbl,
        (stopped @ [i]) @ filter (\<lambda>j. \<exists>r \<in> set ?tbl. lf_workspace r = j \<and> idle_row now T r) ids)"
    proof (rule Cons.IH)
      show "unique_key lf_workspace ?tbl" using Cons.prems(1) unfolding unique_key_def k .
      show "set ids \<subseteq> lf_workspace ` set ?tbl" using Cons.prems(3) k by (metis list.set_map set_subset_Cons subset_trans)
    qed (use Cons.prems in \<open>auto simp: stop_row_def\<close>)
    also have "map (\<lambda>r. if lf_workspace r \<in> set ids \<and> idle_row now T r then stop_row r else r) ?tbl
        = map (\<lambda>r. if lf_workspace r \<in> set (i # ids) \<and> idle_row now T r then stop_row r else r) tbl"
      using Cons.prems(4) u True by (auto simp: stop_row_def)
    also have "filter (\<lambda>j. \<exists>r \<in> set ?tbl. lf_workspace r = j \<and> idle_row now T r) ids = filter (\<lambda>j. \<exists>r \<in> set tbl. lf_workspace r = j \<and> idle_row now T r) ids"
      using Cons.prems(4) by (intro filter_cong) (auto simp: stop_row_def idle_row_def)
    finally show ?thesis using q True by simp
  qed
qed simp


text \<open>
  the sweep takes the idle desktops down and no others. Whatever fails and whatever other
  requests do meanwhile, a desktop is stopped only when the activity read just before was cold:
  no live viewer, no unexpired lease, and both the last action of the agent and the last input of
  a human older than the timeout. When nothing fails or interferes, exactly the running idle
  desktops are stopped and marked so, and no other row changes.
\<close>

theorem sweep_reaps_idle:
  "(Sweep_desktops pg T sw tbl = (tbl', stopped) \<and> i \<in> set stopped \<longrightarrow>
      (\<exists>r \<in> set tbl. lf_workspace r = i \<and> lf_state r = ''running'')
      \<and> (\<exists>seen act. LoadActivity pg (is_load_fails sw i) (is_clock sw i) i (is_between sw i seen) = Some act \<and> DesktopIsIdle (is_clock sw i) act T))
   \<and> (unique_key lf_workspace tbl \<and> (\<forall>r \<in> set tbl. pg (lf_workspace r) = Some (lf_workspace r)) \<longrightarrow>
      Sweep_desktops pg T (calm_sweep now) tbl =
        (map (\<lambda>r. if lf_state r = ''running'' \<and> idle_row now T r then stop_row r else r) tbl,
         map lf_workspace (filter (\<lambda>r. lf_state r = ''running'' \<and> idle_row now T r) tbl)))"
proof (intro conjI impI)
  assume a: "Sweep_desktops pg T sw tbl = (tbl', stopped) \<and> i \<in> set stopped"
  then have f: "\<not> is_list_fails sw" by (auto simp: Sweep_desktops_def RunningDesktopWorkspaceIDs_def split: if_splits)
  with a have "sweep_desktops pg T sw (map lf_workspace (filter (\<lambda>r. lf_state r = ''running'') tbl)) (tbl, []) = (tbl', stopped)"
    by (simp add: Sweep_desktops_def RunningDesktopWorkspaceIDs_def)
  from stopped_was_idle [OF this] a have x: "i \<in> set (map lf_workspace (filter (\<lambda>r. lf_state r = ''running'') tbl))"
    "\<exists>tbl act. LoadActivity pg (is_load_fails sw i) (is_clock sw i) i (is_between sw i tbl) = Some act \<and> DesktopIsIdle (is_clock sw i) act T"
    by auto
  show "\<exists>r \<in> set tbl. lf_workspace r = i \<and> lf_state r = ''running''" using x(1) by auto
  show "\<exists>seen act. LoadActivity pg (is_load_fails sw i) (is_clock sw i) i (is_between sw i seen) = Some act \<and> DesktopIsIdle (is_clock sw i) act T"
    by (rule x(2))
next
  assume a: "unique_key lf_workspace tbl \<and> (\<forall>r \<in> set tbl. pg (lf_workspace r) = Some (lf_workspace r))"
  let ?ids = "map lf_workspace (filter (\<lambda>r. lf_state r = ''running'') tbl)"
  have d: "distinct ?ids" using a by (simp add: unique_key_def distinct_map_filter)
  have s: "Sweep_desktops pg T (calm_sweep now) tbl = sweep_desktops pg T (calm_sweep now) ?ids (tbl, [])"
    by (simp add: Sweep_desktops_def RunningDesktopWorkspaceIDs_def calm_sweep_def)
  have u: "x = r" if "r \<in> set tbl" "x \<in> set tbl" "lf_workspace x = lf_workspace r" for r x
    using that a unique_key_eq [of lf_workspace tbl x r] by blast
  have k: "lf_workspace r \<in> set ?ids \<longleftrightarrow> lf_state r = ''running''" if "r \<in> set tbl" for r
  proof
    assume "lf_workspace r \<in> set ?ids"
    then obtain x where "x \<in> set tbl" "lf_state x = ''running''" "lf_workspace x = lf_workspace r" by auto
    with u that show "lf_state r = ''running''" by blast
  next
    assume "lf_state r = ''running''"
    with that show "lf_workspace r \<in> set ?ids" by simp
  qed
  have q: "(\<exists>x \<in> set tbl. lf_workspace x = lf_workspace r \<and> idle_row now T x) \<longleftrightarrow> idle_row now T r" if "r \<in> set tbl" for r
    using that u by blast
  have m: "map (\<lambda>r. if lf_workspace r \<in> set ?ids \<and> idle_row now T r then stop_row r else r) tbl
      = map (\<lambda>r. if lf_state r = ''running'' \<and> idle_row now T r then stop_row r else r) tbl"
    using k by (intro map_cong) auto
  have f: "filter (\<lambda>i. \<exists>r \<in> set tbl. lf_workspace r = i \<and> idle_row now T r) ?ids
      = map lf_workspace (filter (\<lambda>r. lf_state r = ''running'' \<and> idle_row now T r) tbl)"
  proof -
    have "filter ((\<lambda>i. \<exists>r \<in> set tbl. lf_workspace r = i \<and> idle_row now T r) \<circ> lf_workspace) (filter (\<lambda>r. lf_state r = ''running'') tbl)
        = filter (idle_row now T) (filter (\<lambda>r. lf_state r = ''running'') tbl)"
      using q by (intro filter_cong) auto
    then show ?thesis unfolding filter_map by simp
  qed
  have "set ?ids \<subseteq> lf_workspace ` set tbl" by auto
  with a d calm_sweep_run [of tbl pg ?ids T now "[]"] have r: "sweep_desktops pg T (calm_sweep now) ?ids (tbl, []) =
      (map (\<lambda>r. if lf_workspace r \<in> set ?ids \<and> idle_row now T r then stop_row r else r) tbl,
       [] @ filter (\<lambda>i. \<exists>r \<in> set tbl. lf_workspace r = i \<and> idle_row now T r) ?ids)" by blast
  show "Sweep_desktops pg T (calm_sweep now) tbl =
        (map (\<lambda>r. if lf_state r = ''running'' \<and> idle_row now T r then stop_row r else r) tbl,
         map lf_workspace (filter (\<lambda>r. lf_state r = ''running'' \<and> idle_row now T r) tbl))"
    unfolding s r m f by simp
qed

subsection \<open>Recording what runs\<close>

primrec ensure_calls :: "gateway_config \<Rightarrow> (string \<Rightarrow> string option) \<Rightarrow> string \<Rightarrow> gateway_call list \<Rightarrow> desktop_state \<Rightarrow> desktop_state" where
  "ensure_calls cfg pg ws [] st = st"
| "ensure_calls cfg pg ws (gc # gcs) st = ensure_calls cfg pg ws gcs (snd (ensureRunning cfg pg gc ws st))"

definition not_running :: "string \<Rightarrow> desktop_table \<Rightarrow> bool" where
  "not_running w tbl = (\<forall>r \<in> set tbl. lf_workspace r = w \<longrightarrow> lf_state r \<noteq> ''running'')"

lemma recorded_skips:
  assumes "ws \<in> set (dg_recorded st)" and "\<And>a. gc_start gc \<noteq> Started a True \<or> gc_state_fails gc"
  shows "snd (ensureRunning cfg pg gc ws st) = st"
  using assms by (auto simp: ensureRunning_def SetState_def upsert_desktop_def split: start_answer.splits)

text \<open>
  a desktop that came up is recorded as running, so that the sweep finds it, unless its state was
  recorded once before. For a workspace the gateway has not recorded yet, a failed write is tried
  again until one succeeds. But the record is never taken back when a desktop is scaled to zero:
  when it comes up again and that one write fails, no later call repeats it, and the desktop stays
  invisible to the sweep for as long as it is up.
\<close>

theorem running_recorded:
  assumes "pg ws = Some w" and "gf_state cfg" and "ValidateSidecarTarget addr"
  shows "(ws \<notin> set (dg_recorded st) \<and> gc_start gc = Started addr up \<and> \<not> gc_state_fails gc \<longrightarrow>
        (\<exists>r \<in> set (dg_rows (snd (ensureRunning cfg pg gc ws st))). lf_workspace r = w \<and> lf_state r = ''running'')
        \<and> ws \<in> set (dg_recorded (snd (ensureRunning cfg pg gc ws st))))
    \<and> (ws \<notin> set (dg_recorded st) \<and> gc_state_fails gc \<longrightarrow> ws \<notin> set (dg_recorded (snd (ensureRunning cfg pg gc ws st))))
    \<and> (ws \<in> set (dg_recorded st) \<and> not_running w (dg_rows st) \<and> gc_start gc = Started addr True \<and> gc_state_fails gc
        \<and> (\<forall>c \<in> set later. gc_start c = Started addr False) \<longrightarrow>
        not_running w (dg_rows (ensure_calls cfg pg ws (gc # later) st)))"
proof (intro conjI impI)
  assume a: "ws \<notin> set (dg_recorded st) \<and> gc_start gc = Started addr up \<and> \<not> gc_state_fails gc"
  have addr: "addr \<noteq> []" using assms(3) by (auto simp: ValidateSidecarTarget_def Let_def)
  have s: "SetState pg False ws ''running'' addr (dg_rows st) = Some rows \<Longrightarrow> \<exists>r \<in> set rows. lf_workspace r = w \<and> lf_state r = ''running''" for rows
    using assms(1) by (auto simp: SetState_def upsert_desktop_def list_ex_iff set_sql_update bex_Un new_desktop_def split: if_splits)
  have "\<exists>rows. SetState pg False ws ''running'' addr (dg_rows st) = Some rows" using assms(1) by (simp add: SetState_def upsert_desktop_def)
  then obtain rows where r: "SetState pg False ws ''running'' addr (dg_rows st) = Some rows" by (rule exE)
  have e: "snd (ensureRunning cfg pg gc ws st) = st\<lparr>dg_rows := rows, dg_recorded := List.insert ws (dg_recorded st)\<rparr>"
    using a assms(2,3) addr r by (simp add: ensureRunning_def)
  show "\<exists>r \<in> set (dg_rows (snd (ensureRunning cfg pg gc ws st))). lf_workspace r = w \<and> lf_state r = ''running''"
    unfolding e using s [OF r] by simp
  show "ws \<in> set (dg_recorded (snd (ensureRunning cfg pg gc ws st)))" unfolding e by simp
next
  assume "ws \<notin> set (dg_recorded st) \<and> gc_state_fails gc"
  then show "ws \<notin> set (dg_recorded (snd (ensureRunning cfg pg gc ws st)))"
    by (auto simp: ensureRunning_def SetState_def upsert_desktop_def split: start_answer.splits if_splits option.splits)
next
  assume a: "ws \<in> set (dg_recorded st) \<and> not_running w (dg_rows st) \<and> gc_start gc = Started addr True \<and> gc_state_fails gc
        \<and> (\<forall>c \<in> set later. gc_start c = Started addr False)"
  have "ensure_calls cfg pg ws cs st = st" if "\<forall>c \<in> set cs. \<forall>a. gc_start c \<noteq> Started a True \<or> gc_state_fails c" for cs
    using that
  proof (induction cs)
    case (Cons c cs)
    then have "snd (ensureRunning cfg pg c ws st) = st" using a by (intro recorded_skips) auto
    with Cons show ?case by simp
  qed simp
  from this [of "gc # later"] have "ensure_calls cfg pg ws (gc # later) st = st" using a by simp
  then show "not_running w (dg_rows (ensure_calls cfg pg ws (gc # later) st))" using a by simp
qed


subsection \<open>Viewers keep a desktop up\<close>

definition conns_of :: "desktop_table \<Rightarrow> string \<Rightarrow> int" where
  "conns_of tbl w = (case sql_find (\<lambda>r. lf_workspace r = w) tbl of Some r \<Rightarrow> lf_conns r | None \<Rightarrow> 0)"

lemma upsert_find:
  assumes "pg ws = Some w" and "\<And>r. lf_workspace (f r) = lf_workspace r"
  shows "\<exists>tbl'. upsert_desktop pg False ws f tbl = Some tbl'
    \<and> sql_find (\<lambda>r. lf_workspace r = w) tbl' = Some (f (case sql_find (\<lambda>r. lf_workspace r = w) tbl of Some r \<Rightarrow> r | None \<Rightarrow> new_desktop w))"
proof (cases "sql_find (\<lambda>r. lf_workspace r = w) tbl")
  case None
  then have n: "\<not> list_ex (\<lambda>r. lf_workspace r = w) tbl" by (auto simp: sql_find_None_iff list_ex_iff)
  have "lf_workspace (f (new_desktop w)) = w" using assms(2) by (simp add: new_desktop_def)
  with None n assms(1) show ?thesis by (simp add: upsert_desktop_def sql_find_append sql_find_Cons)
next
  case (Some r)
  then have r: "r \<in> set tbl" "lf_workspace r = w" using sql_find_Some_iff [of "\<lambda>r. lf_workspace r = w" tbl r] by auto
  then have n: "list_ex (\<lambda>r. lf_workspace r = w) tbl" by (auto simp: list_ex_iff)
  have "sql_find (\<lambda>r. lf_workspace r = w) (sql_update (\<lambda>r. lf_workspace r = w) f tbl)
      = map_option (\<lambda>r. if lf_workspace r = w then f r else r) (sql_find (\<lambda>r. lf_workspace r = w) tbl)"
    by (rule sql_find_sql_update) (rule assms(2))
  with Some n r assms(1) show ?thesis by (simp add: upsert_desktop_def)
qed

lemma mirror_conns:
  assumes "pg ws = Some w" and "gf_presence cfg"
  shows "conns_of (dg_rows (mirrorViewers cfg pg False now ws n st)) w = n \<and> dg_viewers (mirrorViewers cfg pg False now ws n st) = dg_viewers st"
proof -
  have "\<exists>tbl'. SetVNCPresence pg False ws n now (dg_rows st) = Some tbl' \<and> (\<exists>r. sql_find (\<lambda>r. lf_workspace r = w) tbl' = Some r \<and> lf_conns r = n)"
    unfolding SetVNCPresence_def using upsert_find [of pg ws w "\<lambda>r. r\<lparr>lf_conns := n, lf_vnc := Some now\<rparr>" "dg_rows st", OF assms(1)] by auto
  then show ?thesis using assms(2) by (auto simp: mirrorViewers_def conns_of_def)
qed

text \<open>
  the stored number of viewers is the live one after a connect or a disconnect that runs to its
  end undisturbed. But the count is written outside the mutex that guards it: when the write of
  the last viewer's disconnect is overtaken by the connect of the next one, the row says nobody
  watches while somebody does, and once the timeout has passed the sweep takes the desktop down
  under the viewer.
\<close>

theorem viewer_count_mirrored:
  assumes "pg ws = Some w" and "gf_presence cfg"
  shows "conns_of (dg_rows (ViewerConnected cfg pg False now ws st)) w = viewers_of (dg_viewers (ViewerConnected cfg pg False now ws st)) ws
    \<and> conns_of (dg_rows (ViewerDisconnected cfg pg False now ws st)) w = viewers_of (dg_viewers (ViewerDisconnected cfg pg False now ws st)) ws
    \<and> (viewers_of (dg_viewers st) ws = 1 \<and> viewer_remove ws st = (n, st1) \<and> ViewerConnected cfg pg False now ws st1 = st2
        \<and> mirrorViewers cfg pg False now ws n st2 = st3 \<longrightarrow> viewers_of (dg_viewers st3) ws = 1 \<and> conns_of (dg_rows st3) w = 0)"
proof (intro conjI impI)
  show "conns_of (dg_rows (ViewerConnected cfg pg False now ws st)) w = viewers_of (dg_viewers (ViewerConnected cfg pg False now ws st)) ws"
    unfolding ViewerConnected_def viewer_add_def Let_def prod.case
    using mirror_conns [of pg ws w cfg now "viewers_of (dg_viewers st) ws + 1", OF assms] by (simp add: viewers_of_def)
  show "conns_of (dg_rows (ViewerDisconnected cfg pg False now ws st)) w = viewers_of (dg_viewers (ViewerDisconnected cfg pg False now ws st)) ws"
    unfolding ViewerDisconnected_def viewer_remove_def Let_def prod.case
    using mirror_conns [of pg ws w cfg now, OF assms] by (simp add: viewers_of_def [of "_(_ := _)"])
next
  assume a: "viewers_of (dg_viewers st) ws = 1 \<and> viewer_remove ws st = (n, st1) \<and> ViewerConnected cfg pg False now ws st1 = st2
        \<and> mirrorViewers cfg pg False now ws n st2 = st3"
  then have n: "n = 0" "dg_viewers st1 ws = None" by (auto simp: viewer_remove_def Let_def)
  have "viewers_of (dg_viewers st2) ws = 1"
    using a n(2) mirror_conns [of pg ws w cfg now, OF assms] by (auto simp: ViewerConnected_def viewer_add_def Let_def viewers_of_def)
  then show "viewers_of (dg_viewers st3) ws = 1" and "conns_of (dg_rows st3) w = 0"
    using a n(1) mirror_conns [of pg ws w cfg now n st2, OF assms] by auto
qed


subsection \<open>Examples\<close>

definition demo_cfg :: gateway_config where
  "demo_cfg = \<lparr>gf_state = True, gf_activity = True, gf_presence = True\<rparr>"

definition demo_addr :: string where "demo_addr = ''wsdesk-a1:6070''"

definition demo_gc :: "bool \<Rightarrow> gateway_call" where
  "demo_gc up = \<lparr>gc_now = 6 * second, gc_lock_fails = False, gc_start = Started demo_addr up, gc_state_fails = up, gc_activity_fails = False,
     gc_token = Some ''t'', gc_status = Some 204, gc_content = []\<rparr>"

definition demo_desktop :: desktop_state where
  "demo_desktop = \<lparr>dg_locks = dc_locks ann_driving, dg_rows = [], dg_recorded = [''w1''], dg_viewers = [''w1'' \<mapsto> 1], dg_sent = []\<rparr>"

lemma demo_target: "ValidateSidecarTarget demo_addr"
  by (simp add: ValidateSidecarTarget_def demo_addr_def desktopSidecarPorts_def WorkspaceIDFromDesktopName_def desktopContainerNamePrefix_def
      IsWellFormedWorkspaceID_def id_char_def in_range_def Let_def)



definition old_row :: desktop_row where
  "old_row = (new_desktop ''w1'')\<lparr>lf_state := ''running'', lf_agent := Some 0\<rparr>"

theorem sweep_reaps_idle_witness:
  "snd (Sweep_desktops Some (15 * minute) (calm_sweep hour) [old_row]) = [''w1'']
   \<and> snd (Sweep_desktops Some (15 * minute) (calm_sweep hour) [old_row\<lparr>lf_conns := 1\<rparr>]) = []"
proof -
  have i: "idle_row hour (15 * minute) old_row" "\<not> idle_row hour (15 * minute) (old_row\<lparr>lf_conns := 1\<rparr>)" "lf_state old_row = ''running''" "lf_workspace old_row = ''w1''"
    by (simp_all add: idle_row_def old_row_def new_desktop_def duration_defs zero_time_def)
  show ?thesis
    using sweep_reaps_idle [of Some "15 * minute" "calm_sweep hour" "[old_row]" "[]" "[]" "[]" hour]
      sweep_reaps_idle [of Some "15 * minute" "calm_sweep hour" "[old_row\<lparr>lf_conns := 1\<rparr>]" "[]" "[]" "[]" hour] i by (simp add: unique_key_def)
qed

theorem running_recorded_witness:
  "not_running ''w1'' (dg_rows (ensure_calls demo_cfg Some ''w1'' [demo_gc True, demo_gc False] demo_desktop))"
proof -
  have "gf_state demo_cfg" "''w1'' \<in> set (dg_recorded demo_desktop)" "not_running ''w1'' (dg_rows demo_desktop)"
    by (simp_all add: demo_cfg_def demo_desktop_def not_running_def)
  moreover have "gc_start (demo_gc True) = Started demo_addr True" "gc_state_fails (demo_gc True)" "gc_start (demo_gc False) = Started demo_addr False"
    by (simp_all add: demo_gc_def)
  ultimately show ?thesis
    using running_recorded [of Some "''w1''" "''w1''" demo_cfg demo_addr demo_desktop "demo_gc True" True "[demo_gc False]"] demo_target by simp
qed

theorem viewer_count_mirrored_witness:
  "\<exists>st3. viewers_of (dg_viewers st3) ''w1'' = 1 \<and> conns_of (dg_rows st3) ''w1'' = 0
     \<and> st3 = mirrorViewers demo_cfg Some False 0 ''w1'' 0 (ViewerConnected demo_cfg Some False 0 ''w1'' (snd (viewer_remove ''w1'' demo_desktop)))"
proof -
  have v: "viewers_of (dg_viewers demo_desktop) ''w1'' = 1" "viewer_remove ''w1'' demo_desktop = (0, snd (viewer_remove ''w1'' demo_desktop))"
    by (simp_all add: viewers_of_def viewer_remove_def demo_desktop_def Let_def)
  have "gf_presence demo_cfg" by (simp add: demo_cfg_def)
  with v show ?thesis
    using viewer_count_mirrored [of Some "''w1''" "''w1''" demo_cfg 0 demo_desktop 0 "snd (viewer_remove ''w1'' demo_desktop)"] by simp
qed

end
