(* ===== verification/Db_Program.thy ===== *)
theory Db_Program
  imports Core_Prelude
begin

text \<open>
  Handlers that run against shared state. A handler is a program of atomic statements: each
  statement sees the shared state of its moment, changes it, and gives the rest of the program.
  The boolean handed to a statement says whether it fails, as a database statement may; what a
  failed statement does is written in the statement itself.

  \<open>run\<close> executes one program alone, with a list of the failures. \<open>interleave\<close> is the step
  relation of several programs over one state, one statement of one program at a time; \<open>moves\<close>
  is its closure. \<open>keeps I p\<close> says that every statement of \<open>p\<close> that meets a state with \<open>I\<close>
  leaves one, whether or not it fails; what a program read earlier it read in a state with \<open>I\<close>.
  The locale \<open>protected\<close> is the contract of a set of programs with an invariant, and lifts it to
  every interleaving of them.
\<close>

subsection \<open>Programs\<close>

datatype ('s, 'r) prog = Ret 'r | Step "bool \<Rightarrow> 's \<Rightarrow> 's \<times> ('s, 'r) prog"

primrec run :: "('s, 'r) prog \<Rightarrow> bool list \<Rightarrow> 's \<Rightarrow> 'r \<times> 's" where
  "run (Ret r) = (\<lambda>fs s. (r, s))"
| "run (Step f) = (\<lambda>fs s.
    case map_prod id run (f (case fs of [] \<Rightarrow> False | b # _ \<Rightarrow> b) s) of (s', k) \<Rightarrow> k (tl fs) s')"

primrec bindp :: "('s, 'a) prog \<Rightarrow> ('a \<Rightarrow> ('s, 'b) prog) \<Rightarrow> ('s, 'b) prog" where
  "bindp (Ret r) = (\<lambda>k. k r)"
| "bindp (Step f) = (\<lambda>k. Step (\<lambda>b s. case map_prod id bindp (f b s) of (s', g) \<Rightarrow> (s', g k)))"

primrec keeps :: "('s \<Rightarrow> bool) \<Rightarrow> ('s, 'r) prog \<Rightarrow> bool" where
  "keeps I (Ret r) = True"
| "keeps I (Step f) = (\<forall>b s. I s \<longrightarrow> (case map_prod id (keeps I) (f b s) of (s', ok) \<Rightarrow> I s' \<and> ok))"

text \<open>
  The statements handlers are made of: a read, a write, a change and a look that cannot fail,
  and a statement that says itself what its failure does.
\<close>

definition query :: "('s \<Rightarrow> 'a) \<Rightarrow> ('a option \<Rightarrow> ('s, 'r) prog) \<Rightarrow> ('s, 'r) prog" where
  "query g k = Step (\<lambda>fails s. (s, k (if fails then None else Some (g s))))"

definition exec :: "('s \<Rightarrow> 's \<times> 'a) \<Rightarrow> ('a option \<Rightarrow> ('s, 'r) prog) \<Rightarrow> ('s, 'r) prog" where
  "exec u k = Step (\<lambda>fails s. if fails then (s, k None) else case u s of (s', x) \<Rightarrow> (s', k (Some x)))"

definition effect :: "('s \<Rightarrow> 's) \<Rightarrow> ('s, 'r) prog \<Rightarrow> ('s, 'r) prog" where
  "effect u p = Step (\<lambda>fails s. (u s, p))"

definition inspect :: "('s \<Rightarrow> 'a) \<Rightarrow> ('a \<Rightarrow> ('s, 'r) prog) \<Rightarrow> ('s, 'r) prog" where
  "inspect g k = Step (\<lambda>fails s. (s, k (g s)))"

definition attempt :: "(bool \<Rightarrow> 's \<Rightarrow> 's \<times> 'a) \<Rightarrow> ('a \<Rightarrow> ('s, 'r) prog) \<Rightarrow> ('s, 'r) prog" where
  "attempt u k = Step (\<lambda>fails s. case u fails s of (s', x) \<Rightarrow> (s', k x))"

primrec for_each :: "'a list \<Rightarrow> ('a \<Rightarrow> ('s, unit) prog) \<Rightarrow> ('s, unit) prog" where
  "for_each [] body = Ret ()"
| "for_each (x # xs) body = bindp (body x) (\<lambda>_. for_each xs body)"

named_theorems prog_simps

lemma run_Ret [simp, prog_simps]: "run (Ret r) fs s = (r, s)"
  by simp

lemma run_Step: "run (Step f) fs s = run (snd (f (case fs of [] \<Rightarrow> False | b # _ \<Rightarrow> b) s)) (tl fs)
    (fst (f (case fs of [] \<Rightarrow> False | b # _ \<Rightarrow> b) s))"
  by (simp add: split_beta)

lemma run_query [simp, prog_simps]:
  "run (query g k) [] s = run (k (Some (g s))) [] s"
  "run (query g k) (b # fs) s = run (k (if b then None else Some (g s))) fs s"
  by (simp_all add: query_def)

lemma run_exec [simp, prog_simps]:
  "run (exec u k) [] s = run (k (Some (snd (u s)))) [] (fst (u s))"
  "run (exec u k) (b # fs) s =
    (if b then run (k None) fs s else run (k (Some (snd (u s)))) fs (fst (u s)))"
  by (simp_all add: exec_def split: prod.split)

lemma run_effect [simp, prog_simps]: "run (effect u p) fs s = run p (tl fs) (u s)"
  by (simp add: effect_def)

lemma run_inspect [simp, prog_simps]: "run (inspect g k) fs s = run (k (g s)) (tl fs) s"
  by (simp add: inspect_def)

lemma run_attempt [simp, prog_simps]:
  "run (attempt w k) [] s = run (k (snd (w False s))) [] (fst (w False s))"
  "run (attempt w k) (b # fs) s = run (k (snd (w b s))) fs (fst (w b s))"
  by (simp_all add: attempt_def split: prod.split)

text \<open>With any list of failures.\<close>

definition fails_now :: "bool list \<Rightarrow> bool" where
  "fails_now fs = (fs \<noteq> [] \<and> hd fs)"

lemma run_any:
  "run (query g k) fs s = run (k (if fails_now fs then None else Some (g s))) (tl fs) s"
  "run (exec u l) fs s = (if fails_now fs then run (l None) (tl fs) s else run (l (Some (snd (u s)))) (tl fs) (fst (u s)))"
  "run (attempt w m) fs s = run (m (snd (w (fails_now fs) s))) (tl fs) (fst (w (fails_now fs) s))"
  by (cases fs; simp add: fails_now_def)+

lemma bindp_simps [simp, prog_simps]:
  "bindp (Ret r) k = k r"
  "bindp (query g h) k = query g (\<lambda>x. bindp (h x) k)"
  "bindp (exec u h) k = exec u (\<lambda>x. bindp (h x) k)"
  "bindp (effect w p) k = effect w (bindp p k)"
  "bindp (inspect i j) k = inspect i (\<lambda>x. bindp (j x) k)"
  "bindp (attempt v l) k = attempt v (\<lambda>x. bindp (l x) k)"
  by (auto simp: query_def exec_def effect_def inspect_def attempt_def fun_eq_iff split: prod.split)

lemma keeps_Step: "keeps I (Step f) \<longleftrightarrow> (\<forall>b s. I s \<longrightarrow> I (fst (f b s)) \<and> keeps I (snd (f b s)))"
  by (auto simp: split_beta)

declare run.simps [simp del] bindp.simps [simp del] keeps.simps [simp del]

lemma keeps_Ret [simp, intro]: "keeps I (Ret r)"
  by (simp add: keeps.simps)

lemma prog_induct:
  assumes "\<And>r. P (Ret r)" and "\<And>f. (\<And>b s. P (snd (f b s))) \<Longrightarrow> P (Step f)"
  shows "P p"
proof (induction p)
  case (Ret r)
  then show ?case by (rule assms)
next
  case (Step f)
  have "P (snd (f b s))" for b s
    by (rule Step.IH [of "f b" "f b s"]) (auto intro: snds.intros)
  then show ?case by (rule assms)
qed

lemma run_bindp [prog_simps]: "run (bindp p k) [] s = (case run p [] s of (r, s') \<Rightarrow> run (k r) [] s')"
  by (induction p arbitrary: s rule: prog_induct) (simp_all add: bindp.simps run_Step split_beta)

lemma run_bindp_any:
  "\<exists>gs. run (bindp p k) fs s = (case run p fs s of (r, s') \<Rightarrow> run (k r) gs s')"
proof (induction p arbitrary: fs s rule: prog_induct)
  case (1 r)
  then show ?case by auto
next
  case (2 f)
  then show ?case by (simp add: bindp.simps run_Step split_beta)
qed

subsection \<open>Interleavings\<close>

inductive interleave :: "'s \<times> ('s, 'r) prog list \<Rightarrow> 's \<times> ('s, 'r) prog list \<Rightarrow> bool" where
  "i < length ps \<Longrightarrow> ps ! i = Step f \<Longrightarrow> f b s = (s', p') \<Longrightarrow> interleave (s, ps) (s', ps[i := p'])"

abbreviation moves :: "'s \<times> ('s, 'r) prog list \<Rightarrow> 's \<times> ('s, 'r) prog list \<Rightarrow> bool" where
  "moves \<equiv> interleave\<^sup>*\<^sup>*"

inductive_cases interleave_cases: "interleave (s, ps) c"

text \<open>A program that runs to its end while the others wait is one interleaving.\<close>

lemma run_moves:
  "i < length ps \<Longrightarrow> ps ! i = p \<Longrightarrow> moves (s, ps) (snd (run p fs s), ps[i := Ret (fst (run p fs s))])"
proof (induction p arbitrary: ps fs s rule: prog_induct)
  case (1 r)
  then have "ps[i := Ret r] = ps" by (metis list_update_id)
  then show ?case by simp
next
  case (2 f)
  let ?b = "case fs of [] \<Rightarrow> False | b # _ \<Rightarrow> b"
  let ?s = "fst (f ?b s)" and ?p = "snd (f ?b s)"
  have "interleave (s, ps) (?s, ps[i := ?p])"
    using 2(2,3) by (intro interleave.intros [where f = f and b = ?b]) auto
  moreover have "moves (?s, ps[i := ?p]) (snd (run ?p (tl fs) ?s), ps[i := Ret (fst (run ?p (tl fs) ?s))])"
    using 2(1) [of "ps[i := ?p]" ?b s ?s "tl fs"] 2(2) by simp
  ultimately show ?case unfolding run_Step by (rule converse_rtranclp_into_rtranclp)
qed

subsection \<open>Invariants\<close>

named_theorems keeps_rules

lemma keeps_query [keeps_rules]:
  "keeps I (k None) \<Longrightarrow> (\<And>s. I s \<Longrightarrow> keeps I (k (Some (g s)))) \<Longrightarrow> keeps I (query g k)"
  by (simp add: query_def keeps_Step)

lemma keeps_inspect [keeps_rules]: "(\<And>s. I s \<Longrightarrow> keeps I (k (g s))) \<Longrightarrow> keeps I (inspect g k)"
  by (simp add: inspect_def keeps_Step)

lemma keeps_exec [keeps_rules]:
  "(\<And>s. I s \<Longrightarrow> I (fst (u s))) \<Longrightarrow> (\<And>x. keeps I (k x)) \<Longrightarrow> keeps I (exec u k)"
  by (simp add: exec_def keeps_Step split_beta)

lemma keeps_attempt [keeps_rules]:
  "(\<And>b s. I s \<Longrightarrow> I (fst (u b s))) \<Longrightarrow> (\<And>x. keeps I (k x)) \<Longrightarrow> keeps I (attempt u k)"
  by (simp add: attempt_def keeps_Step split_beta)

lemma keeps_effect [keeps_rules]: "(\<And>s. I s \<Longrightarrow> I (u s)) \<Longrightarrow> keeps I p \<Longrightarrow> keeps I (effect u p)"
  by (simp add: effect_def keeps_Step)

lemma keeps_bindp [keeps_rules]: "keeps I p \<Longrightarrow> (\<And>r. keeps I (k r)) \<Longrightarrow> keeps I (bindp p k)"
  by (induction p rule: prog_induct) (simp_all add: keeps_Step bindp.simps split_beta)

lemma keeps_for_each [keeps_rules]: "(\<And>x. keeps I (body x)) \<Longrightarrow> keeps I (for_each xs body)"
  by (induction xs) (auto intro: keeps_bindp)

lemma keeps_vacuous: "(\<And>s. \<not> I s) \<Longrightarrow> keeps I p"
  by (cases p) (simp_all add: keeps_Step)

lemma run_kept: "keeps I p \<Longrightarrow> I s \<Longrightarrow> I (snd (run p fs s))"
proof (induction p arbitrary: fs s rule: prog_induct)
  case (2 f)
  then show ?case unfolding run_Step by (auto simp: keeps_Step)
qed simp

lemma interleave_kept:
  assumes "interleave (s, ps) (s', ps')" and "I s" and "\<forall>p \<in> set ps. keeps I p"
  shows "I s' \<and> (\<forall>p \<in> set ps'. keeps I p)"
proof -
  from assms(1) obtain i f b p' where i: "i < length ps" "ps ! i = Step f" "f b s = (s', p')" "ps' = ps[i := p']"
    by (auto elim: interleave_cases)
  then have "keeps I (Step f)" using assms(3) by (metis nth_mem)
  then have "I s'" "keeps I p'" using i(3) assms(2) by (auto simp: keeps_Step dest!: spec [of _ b] spec [of _ s])
  with assms(3) i(4) show ?thesis using set_update_subset_insert [of ps i p'] by blast
qed

locale protected =
  fixes I :: "'s \<Rightarrow> bool" and allowed :: "('s, 'r) prog \<Rightarrow> bool"
  assumes allowed_keeps: "allowed p \<Longrightarrow> keeps I p"
begin

lemma moves_kept:
  assumes "moves (s, ps) (s', ps')" and "I s" and "\<forall>p \<in> set ps. allowed p"
  shows "I s'"
proof -
  have "I s' \<and> (\<forall>p \<in> set ps'. keeps I p)"
    using assms(1)
  proof (induction rule: rtranclp_induct2)
    case refl
    then show ?case using assms(2,3) allowed_keeps by blast
  next
    case (step t qs s' ps')
    then show ?case using interleave_kept [of t qs s' ps' I] by simp
  qed
  then show ?thesis ..
qed

lemma alone_kept: "allowed p \<Longrightarrow> I s \<Longrightarrow> I (snd (run p fs s))"
  by (rule run_kept [OF allowed_keeps])

end

subsection \<open>Accounts\<close>

text \<open>
  \<open>funded \<Phi> p c\<close>: with credit \<open>c\<close>, no statement of \<open>p\<close> raises \<open>\<Phi>\<close> by more than the credit it
  uses up, and what a statement takes from \<open>\<Phi>\<close> it may keep as credit. Credit is private to a
  program, so the sum of \<open>\<Phi>\<close> and of all credits never grows, however programs interleave.
\<close>

primrec funded :: "('s \<Rightarrow> nat) \<Rightarrow> ('s, 'r) prog \<Rightarrow> nat \<Rightarrow> bool" where
  "funded \<Phi> (Ret r) = (\<lambda>c. True)"
| "funded \<Phi> (Step f) = (\<lambda>c. \<forall>b s. \<exists>c'. case map_prod id (funded \<Phi>) (f b s) of (s', g) \<Rightarrow> \<Phi> s' + c' \<le> \<Phi> s + c \<and> g c')"

lemma funded_Step: "funded \<Phi> (Step f) c \<longleftrightarrow> (\<forall>b s. \<exists>c'. \<Phi> (fst (f b s)) + c' \<le> \<Phi> s + c \<and> funded \<Phi> (snd (f b s)) c')"
  by (simp add: split_beta)

declare funded.simps [simp del]

lemma funded_Ret [simp, intro]: "funded \<Phi> (Ret r) c"
  by (simp add: funded.simps)

lemma funded_mono: "funded \<Phi> p c \<Longrightarrow> c \<le> d \<Longrightarrow> funded \<Phi> p d"
  by (cases p) (auto simp: funded_Step, meson add_le_mono order_refl order_trans)

named_theorems funded_rules

lemma funded_query [funded_rules]: "(\<And>x. funded \<Phi> (k x) c) \<Longrightarrow> funded \<Phi> (query g k) c"
  by (auto simp: query_def funded_Step)

lemma funded_exec [funded_rules]:
  "(\<And>s. \<Phi> (fst (u s)) \<le> \<Phi> s) \<Longrightarrow> (\<And>x. funded \<Phi> (k x) c) \<Longrightarrow> funded \<Phi> (exec u k) c"
  by (auto simp: exec_def funded_Step split_beta intro!: exI [of _ c])

lemma funded_effect [funded_rules]: "(\<And>s. \<Phi> (u s) \<le> \<Phi> s) \<Longrightarrow> funded \<Phi> p c \<Longrightarrow> funded \<Phi> (effect u p) c"
  by (auto simp: effect_def funded_Step intro!: exI [of _ c])

lemma funded_claim:
  assumes "\<And>s. \<Phi> (fst (u s)) + snd (u s) \<le> \<Phi> s" and "funded \<Phi> (k None) c" and "funded \<Phi> (k (Some 0)) c"
    and "\<And>n. n > 0 \<Longrightarrow> funded \<Phi> (k (Some n)) (Suc c)"
  shows "funded \<Phi> (exec u k) c"
  unfolding exec_def funded_Step
proof (intro allI)
  fix b s
  let ?n = "snd (u s)"
  show "\<exists>c'. \<Phi> (fst (if b then (s, k None) else case u s of (s', x) \<Rightarrow> (s', k (Some x)))) + c' \<le> \<Phi> s + c
    \<and> funded \<Phi> (snd (if b then (s, k None) else case u s of (s', x) \<Rightarrow> (s', k (Some x)))) c'"
    using assms(1) [of s] assms(2-4)
    by (cases "b \<or> ?n = 0") (auto simp: split_beta intro: exI [of _ c] exI [of _ "Suc c"])
qed

lemma funded_spend: "(\<And>s. \<Phi> (u s) \<le> Suc (\<Phi> s)) \<Longrightarrow> funded \<Phi> p c \<Longrightarrow> funded \<Phi> (effect u p) (Suc c)"
  by (auto simp: effect_def funded_Step intro!: exI [of _ c])

lemma funded_bindp [funded_rules]: "funded \<Phi> p c \<Longrightarrow> (\<And>r. funded \<Phi> (k r) 0) \<Longrightarrow> funded \<Phi> (bindp p k) c"
proof (induction p arbitrary: c rule: prog_induct)
  case (1 r)
  then show ?case by (auto intro: funded_mono)
next
  case (2 f)
  then show ?case by (simp add: funded_Step bindp.simps split_beta) metis
qed

lemma interleave_funded:
  assumes "interleave (s, ps) (s', ps')" and "list_all2 (funded \<Phi>) ps cs"
  shows "\<exists>cs'. list_all2 (funded \<Phi>) ps' cs' \<and> \<Phi> s' + sum_list cs' \<le> \<Phi> s + sum_list cs"
proof -
  from assms(1) obtain i f b p' where i: "i < length ps" "ps ! i = Step f" "f b s = (s', p')" "ps' = ps[i := p']"
    by (auto elim: interleave_cases)
  have len: "length cs = length ps" using assms(2) by (simp add: list_all2_lengthD)
  from assms(2) i(1,2) have "funded \<Phi> (Step f) (cs ! i)" by (metis list_all2_nthD)
  then obtain c where c: "\<Phi> s' + c \<le> \<Phi> s + cs ! i" "funded \<Phi> p' c"
    unfolding funded_Step using i(3) by (metis fst_conv snd_conv)
  have "list_all2 (funded \<Phi>) ps' (cs[i := c])"
    unfolding i(4) using assms(2) c(2) by (rule list_all2_update_cong)
  moreover have "\<Phi> s' + sum_list (cs[i := c]) \<le> \<Phi> s + sum_list cs"
  proof -
    have "cs ! i \<le> sum_list cs" using i(1) len by (simp add: elem_le_sum_list)
    then show ?thesis using c(1) i(1) len by (simp add: sum_list_update)
  qed
  ultimately show ?thesis by blast
qed

locale accounted =
  fixes \<Phi> :: "'s \<Rightarrow> nat" and allowed :: "('s, 'r) prog \<Rightarrow> bool"
  assumes allowed_funded: "allowed p \<Longrightarrow> funded \<Phi> p 0"
begin

lemma moves_bounded:
  assumes "moves (s, ps) (s', ps')" and "\<forall>p \<in> set ps. allowed p"
  shows "\<Phi> s' \<le> \<Phi> s"
proof -
  have "\<exists>cs. list_all2 (funded \<Phi>) ps' cs \<and> \<Phi> s' + sum_list cs \<le> \<Phi> s"
    using assms(1)
  proof (induction rule: rtranclp_induct2)
    case refl
    have "list_all2 (funded \<Phi>) ps (replicate (length ps) 0)"
      using assms(2) allowed_funded by (auto simp: list_all2_conv_all_nth)
    then show ?case by (metis add.right_neutral order_refl sum_list_replicate mult_0_right)
  next
    case (step t qs s' ps')
    then show ?case using interleave_funded by (meson order_trans)
  qed
  then show ?thesis by auto
qed

end

end
