(* ===== verification/Workspace_State.thy ===== *)
theory Workspace_State
  imports Db_Program Tokens Session_Auth Budget Complex_Main
begin

text \<open>
  The state the registry and the workspace life cycle share: the row of a workspace with the
  columns their statements read and write (\<^verbatim>\<open>internal/models/workspace.go\<close>,
  \<^verbatim>\<open>internal/models/workspace_status.go\<close>), the tables next to it, the Redis keys
  (\<^verbatim>\<open>internal/db/redis.go\<close>), the runtime overrides
  (\<^verbatim>\<open>internal/handlers/runtime_overrides.go\<close>) and the shared secret a workspace gets
  (\<^verbatim>\<open>internal/handlers/workspace_provision_shared.go\<close> over \<open>Session_Auth\<close>).

  A workspace id is the canonical text the database stores. What leaves the process (events,
  detached hooks) is appended to \<open>rs_log\<close> in the order it happens.
\<close>

subsection \<open>Status\<close>

datatype WorkspaceStatus = StatusProvisioning | StatusOnline | StatusOffline | StatusDegraded | StatusFailed
  | StatusRemoved | StatusPaused | StatusHibernated | StatusHibernating | StatusAwaitingAgent

fun status_text :: "WorkspaceStatus \<Rightarrow> string" where
  "status_text StatusProvisioning = ''provisioning''"
| "status_text StatusOnline = ''online''"
| "status_text StatusOffline = ''offline''"
| "status_text StatusDegraded = ''degraded''"
| "status_text StatusFailed = ''failed''"
| "status_text StatusRemoved = ''removed''"
| "status_text StatusPaused = ''paused''"
| "status_text StatusHibernated = ''hibernated''"
| "status_text StatusHibernating = ''hibernating''"
| "status_text StatusAwaitingAgent = ''awaiting_agent''"

definition AllWorkspaceStatuses :: "WorkspaceStatus list" where
  "AllWorkspaceStatuses = [StatusProvisioning, StatusOnline, StatusOffline, StatusDegraded, StatusFailed,
    StatusRemoved, StatusPaused, StatusHibernated, StatusHibernating, StatusAwaitingAgent]"

lemma status_text_inj: "status_text a = status_text b \<longleftrightarrow> a = b"
  by (cases a; cases b) simp_all

lemma AllWorkspaceStatuses_complete: "set AllWorkspaceStatuses = UNIV"
  by (auto simp: AllWorkspaceStatuses_def) (metis WorkspaceStatus.exhaust)

definition KindWorkspace :: string where "KindWorkspace = ''workspace''"
definition KindPlatform :: string where "KindPlatform = ''platform''"
definition DeliveryModePush :: string where "DeliveryModePush = ''push''"
definition DeliveryModePoll :: string where "DeliveryModePoll = ''poll''"

definition IsValidKind :: "string \<Rightarrow> bool" where
  "IsValidKind s = (s = KindWorkspace \<or> s = KindPlatform)"

definition IsValidDeliveryMode :: "string \<Rightarrow> bool" where
  "IsValidDeliveryMode s = (s = DeliveryModePush \<or> s = DeliveryModePoll)"

definition externalLikeRuntimes :: "string list" where
  "externalLikeRuntimes = [''external'', ''kimi'', ''kimi-cli'']"

definition isExternalLikeRuntime :: "string \<Rightarrow> bool" where
  "isExternalLikeRuntime runtime = (runtime \<in> set externalLikeRuntimes)"

subsection \<open>What the runtime reported about its tools\<close>

datatype mcpSurfaceVerdict = verdictNoInventory | verdictNoDispatchRecord | verdictNotYetExercised | verdictCorroborated

record mcpSurfaceReport =
  ms_ReportedCount :: nat
  ms_DispatchCorroboratedCount :: nat
  ms_AdvertisedOnlyCount :: nat
  ms_ReportedNamespaces :: "string list"
  ms_DispatchedNamespaces :: "string list"
  ms_DispatchRecords :: nat
  ms_CorroboratedNamespaces :: "string list"
  ms_FirstCorroboratedAt :: "time option"
  ms_Verdict :: mcpSurfaceVerdict
  ms_ObservedAt :: time

subsection \<open>Rows\<close>

record ws_row =
  wr_id :: string
  wr_name :: string
  wr_role :: "string option"
  wr_parent :: "string option"
  wr_kind :: string
  wr_runtime :: "string option"
  wr_status :: WorkspaceStatus
  wr_url :: "string option"
  wr_mode :: "string option"
  wr_card :: "json option"
  wr_heartbeat :: "time option"
  wr_outbound :: "time option"
  wr_updated :: time
  wr_register_failure :: "time option"
  wr_unloaded_since :: "time option"
  wr_error_rate :: rat
  wr_sample_error :: string
  wr_active_tasks :: int
  wr_is_busy :: bool
  wr_uptime :: int
  wr_current_task :: string
  wr_monthly_spend :: int
  wr_max_concurrent :: int
  wr_desired :: int
  wr_observed :: int
  wr_idle_minutes :: "int option"
  wr_loaded_tools :: "string list option"
  wr_surface :: "mcpSurfaceReport option"
  wr_instance :: "string option"
  wr_tier :: int
  wr_template :: string

record runtimeOverrideEntry =
  ro_idleTimeout :: duration
  ro_capabilities :: "(string \<times> bool) list"

datatype reg_effect =
    Recorded string string "(string \<times> json) list"
  | BroadcastOnly string string "(string \<times> json) list"
  | ReconcilePlugins string
  | RestoreSchedules string
  | FirstBootGreeting string nat
  | DrainQueue string int
  | WakeSettled string int
  | RescueCapture string string
  | OfflineCallback string
  | HibernateCallback string
  | WedgedCallback string
  | StopContainer string
  | ProvisionBox string
  | RemoveVolume string
  | ResetAutoRestarts string
  | CountAutoRestart string
  | RestartDispatched string
  | CancelProvisions "string list"
  | StopDesktop string
  | WipeProfile string
  | RetriesExhausted string

record reg_state =
  rs_rows :: "ws_row list"
  rs_secrets :: "(string \<times> string) list"
  rs_declared :: "(string \<times> string) list"
  rs_traces :: "(string \<times> json) list"
  rs_spend :: "spend_event list"
  rs_tokens :: "ws_token list"
  rs_live :: "string \<rightharpoonup> time"
  rs_urls :: "string \<rightharpoonup> string"
  rs_internal_urls :: "string \<rightharpoonup> string"
  rs_overrides :: "string \<rightharpoonup> runtimeOverrideEntry"
  rs_mcp_fire :: "string \<rightharpoonup> time"
  rs_inbound :: inbound_state
  rs_log :: "reg_effect list"

abbreviation row :: "reg_state \<Rightarrow> string \<Rightarrow> ws_row option" where
  "row s i \<equiv> sql_find (\<lambda>r. wr_id r = i) (rs_rows s)"

definition status_of :: "reg_state \<Rightarrow> string \<Rightarrow> WorkspaceStatus option" where
  "status_of s i = map_option wr_status (row s i)"

type_synonym 'r handler = "(reg_state, 'r) prog"

text \<open>\<open>UPDATE workspaces SET f WHERE P\<close>, with the number of rows it changed.\<close>

definition update_rows :: "(ws_row \<Rightarrow> bool) \<Rightarrow> (ws_row \<Rightarrow> ws_row) \<Rightarrow> reg_state \<Rightarrow> reg_state \<times> nat" where
  "update_rows P f s = (s\<lparr>rs_rows := sql_update P f (rs_rows s)\<rparr>, sql_affected P (rs_rows s))"

definition logged :: "reg_effect \<Rightarrow> reg_state \<Rightarrow> reg_state" where
  "logged e s = s\<lparr>rs_log := rs_log s @ [e]\<rparr>"

text \<open>\<open>RecordAndBroadcast\<close>: the insert of the event row; a failed insert broadcasts nothing.\<close>

definition RecordAndBroadcast ::
  "string \<Rightarrow> string \<Rightarrow> (string \<times> json) list \<Rightarrow> (unit option \<Rightarrow> 'r handler) \<Rightarrow> 'r handler" where
  "RecordAndBroadcast event workspaceID payload k = exec (\<lambda>s. (logged (Recorded event workspaceID payload) s, ())) k"

definition BroadcastOnlyEvent :: "string \<Rightarrow> string \<Rightarrow> (string \<times> json) list \<Rightarrow> 'r handler \<Rightarrow> 'r handler" where
  "BroadcastOnlyEvent workspaceID event payload p = effect (logged (BroadcastOnly workspaceID event payload)) p"

subsection \<open>Redis\<close>

definition LivenessTTL :: duration where "LivenessTTL = 180 * second"

definition key_alive :: "time \<Rightarrow> string \<Rightarrow> reg_state \<Rightarrow> bool" where
  "key_alive now i s = (case rs_live s i of None \<Rightarrow> False | Some e \<Rightarrow> now < e)"

definition SetOnline :: "time \<Rightarrow> string \<Rightarrow> (unit option \<Rightarrow> 'r handler) \<Rightarrow> 'r handler" where
  "SetOnline now i k = exec (\<lambda>s. (s\<lparr>rs_live := (rs_live s)(i \<mapsto> now + LivenessTTL)\<rparr>, ())) k"

text \<open>\<open>EXPIRE\<close> on a key that is gone does nothing and is no error.\<close>

definition RefreshTTL :: "time \<Rightarrow> string \<Rightarrow> (unit option \<Rightarrow> 'r handler) \<Rightarrow> 'r handler" where
  "RefreshTTL now i k = exec (\<lambda>s.
    (if key_alive now i s then s\<lparr>rs_live := (rs_live s)(i \<mapsto> now + LivenessTTL)\<rparr> else s, ())) k"

definition CacheURL :: "string \<Rightarrow> string \<Rightarrow> (unit option \<Rightarrow> 'r handler) \<Rightarrow> 'r handler" where
  "CacheURL i url k = exec (\<lambda>s. (s\<lparr>rs_urls := (rs_urls s)(i \<mapsto> url)\<rparr>, ())) k"

definition CacheInternalURL :: "string \<Rightarrow> string \<Rightarrow> (unit option \<Rightarrow> 'r handler) \<Rightarrow> 'r handler" where
  "CacheInternalURL i url k = exec (\<lambda>s. (s\<lparr>rs_internal_urls := (rs_internal_urls s)(i \<mapsto> url)\<rparr>, ())) k"

definition ClearWorkspaceKeys :: "string \<Rightarrow> 'r handler \<Rightarrow> 'r handler" where
  "ClearWorkspaceKeys i p =
    exec (\<lambda>s. (s\<lparr>rs_live := (rs_live s)(i := None)\<rparr>, ())) (\<lambda>_.
    exec (\<lambda>s. (s\<lparr>rs_urls := (rs_urls s)(i := None)\<rparr>, ())) (\<lambda>_.
    exec (\<lambda>s. (s\<lparr>rs_internal_urls := (rs_internal_urls s)(i := None)\<rparr>, ())) (\<lambda>_. p)))"

subsection \<open>Runtime overrides\<close>

definition loadEntry :: "reg_state \<Rightarrow> string \<Rightarrow> runtimeOverrideEntry" where
  "loadEntry s i = (case rs_overrides s i of None \<Rightarrow> \<lparr>ro_idleTimeout = 0, ro_capabilities = []\<rparr> | Some e \<Rightarrow> e)"

definition deleteIfEmpty :: "string \<Rightarrow> runtimeOverrideEntry \<Rightarrow> reg_state \<Rightarrow> reg_state" where
  "deleteIfEmpty i e s =
    (if ro_idleTimeout e \<le> 0 \<and> ro_capabilities e = []
     then s\<lparr>rs_overrides := (rs_overrides s)(i := None)\<rparr>
     else s\<lparr>rs_overrides := (rs_overrides s)(i \<mapsto> e)\<rparr>)"

definition SetIdleTimeout :: "string \<Rightarrow> duration \<Rightarrow> reg_state \<Rightarrow> reg_state" where
  "SetIdleTimeout i d s =
    (if i = [] then s
     else deleteIfEmpty i ((loadEntry s i)\<lparr>ro_idleTimeout := (if d \<le> 0 then 0 else d)\<rparr>) s)"

definition IdleTimeout :: "reg_state \<Rightarrow> string \<Rightarrow> duration option" where
  "IdleTimeout s i = (if ro_idleTimeout (loadEntry s i) \<le> 0 then None else Some (ro_idleTimeout (loadEntry s i)))"

definition SetCapabilities :: "string \<Rightarrow> (string \<times> bool) list \<Rightarrow> reg_state \<Rightarrow> reg_state" where
  "SetCapabilities i caps s =
    (if i = [] then s else deleteIfEmpty i ((loadEntry s i)\<lparr>ro_capabilities := caps\<rparr>) s)"

definition HasCapability :: "reg_state \<Rightarrow> string \<Rightarrow> string \<Rightarrow> bool" where
  "HasCapability s i cap =
    (i \<noteq> [] \<and> cap \<noteq> [] \<and> obj_get (ro_capabilities (loadEntry s i)) cap = Some True)"

definition ProvidesNativeScheduler :: "reg_state \<Rightarrow> string \<Rightarrow> bool" where
  "ProvidesNativeScheduler s i = HasCapability s i ''scheduler''"

subsection \<open>The secret the platform presents to a workspace\<close>

text \<open>\<open>rnd\<close> is the random source: the 32 bytes it gives, or \<open>None\<close>.\<close>

definition readOrLazyHealInboundSecret ::
  "string option \<Rightarrow> time \<Rightarrow> string \<Rightarrow> (string option \<Rightarrow> 'r handler) \<Rightarrow> 'r handler" where
  "readOrLazyHealInboundSecret rnd now i k =
    attempt (\<lambda>fails s. case ReadPlatformInboundSecret Some fails now i (rs_inbound s) of
        (res, st) \<Rightarrow> (s\<lparr>rs_inbound := st\<rparr>, res)) (\<lambda>res.
      case res of
        Inr secret \<Rightarrow> k (Some secret)
      | Inl e \<Rightarrow>
          if e \<noteq> ErrNoInboundSecret then k None
          else attempt (\<lambda>fails s. case IssuePlatformInboundSecret b64_encode Some fails rnd now i (rs_inbound s) of
              (res, st) \<Rightarrow> (s\<lparr>rs_inbound := st\<rparr>, res)) (\<lambda>res.
            case res of Inr minted \<Rightarrow> k (Some minted) | Inl _ \<Rightarrow> k None))"

subsection \<open>Hooks\<close>

text \<open>Which hooks the router has wired, and the configuration the handlers read.\<close>

record reg_env =
  re_reconcile :: bool
  re_restore :: bool
  re_greeter :: bool
  re_settler :: bool
  re_drain :: bool
  re_fail_closed :: bool
  re_provisioner :: bool

definition fireReconcileOnline :: "reg_env \<Rightarrow> string \<Rightarrow> 'r handler \<Rightarrow> 'r handler" where
  "fireReconcileOnline env i p =
    effect (\<lambda>s. if re_reconcile env then logged (ReconcilePlugins i) s else s)
      (effect (\<lambda>s. if re_restore env then logged (RestoreSchedules i) s else s) p)"

definition fireFirstBootGreeting :: "reg_env \<Rightarrow> string \<Rightarrow> nat \<Rightarrow> 'r handler \<Rightarrow> 'r handler" where
  "fireFirstBootGreeting env i n p = (if re_greeter env then effect (logged (FirstBootGreeting i n)) p else p)"

definition fireWakeSettled :: "reg_env \<Rightarrow> string \<Rightarrow> int \<Rightarrow> 'r handler \<Rightarrow> 'r handler" where
  "fireWakeSettled env i g p = (if re_settler env then effect (logged (WakeSettled i g)) p else p)"

definition mcpRecoveryCooldown :: duration where "mcpRecoveryCooldown = 5 * minute"

definition fireReconcileMCPRecovery :: "reg_env \<Rightarrow> time \<Rightarrow> string \<Rightarrow> 'r handler \<Rightarrow> 'r handler" where
  "fireReconcileMCPRecovery env now i p =
    (if \<not> re_reconcile env \<or> i = [] then p
     else inspect (\<lambda>s. rs_mcp_fire s i) (\<lambda>last.
       if (case last of Some t \<Rightarrow> now - t < mcpRecoveryCooldown | None \<Rightarrow> False) then p
       else effect (\<lambda>s. s\<lparr>rs_mcp_fire := (rs_mcp_fire s)(i \<mapsto> now)\<rparr>)
              (effect (logged (ReconcilePlugins i)) p)))"

subsection \<open>Statements on rows\<close>

lemma rows_update_rows [simp]: "rs_rows (fst (update_rows P f s)) = sql_update P f (rs_rows s)"
  by (simp add: update_rows_def)

lemma update_rows_frame [simp]:
  "rs_log (fst (update_rows P f s)) = rs_log s"
  "rs_live (fst (update_rows P f s)) = rs_live s"
  "rs_tokens (fst (update_rows P f s)) = rs_tokens s"
  "rs_secrets (fst (update_rows P f s)) = rs_secrets s"
  "rs_declared (fst (update_rows P f s)) = rs_declared s"
  "rs_overrides (fst (update_rows P f s)) = rs_overrides s"
  "rs_mcp_fire (fst (update_rows P f s)) = rs_mcp_fire s"
  "rs_traces (fst (update_rows P f s)) = rs_traces s"
  "rs_inbound (fst (update_rows P f s)) = rs_inbound s"
  "rs_spend (fst (update_rows P f s)) = rs_spend s"
  by (simp_all add: update_rows_def)

lemma find_update_rows:
  assumes "\<And>r. wr_id (f r) = wr_id r"
  shows "sql_find (\<lambda>r. wr_id r = i) (sql_update P f rows) =
    map_option (\<lambda>r. if P r then f r else r) (sql_find (\<lambda>r. wr_id r = i) rows)"
  using assms by (simp add: sql_find_sql_update)

lemma row_update_rows:
  assumes "\<And>r. wr_id (f r) = wr_id r"
  shows "row (fst (update_rows P f s)) i = map_option (\<lambda>r. if P r then f r else r) (row s i)"
  by (simp add: find_update_rows assms)

lemmas affected_row = sql_affected_unique [where key = wr_id]

lemma logged_simps [simp]:
  "rs_rows (logged e s) = rs_rows s" "rs_log (logged e s) = rs_log s @ [e]" "rs_live (logged e s) = rs_live s"
  "rs_tokens (logged e s) = rs_tokens s" "rs_secrets (logged e s) = rs_secrets s" "rs_declared (logged e s) = rs_declared s"
  "rs_overrides (logged e s) = rs_overrides s" "rs_mcp_fire (logged e s) = rs_mcp_fire s"
  "rs_inbound (logged e s) = rs_inbound s" "rs_traces (logged e s) = rs_traces s" "rs_spend (logged e s) = rs_spend s"
  by (simp_all add: logged_def)

subsection \<open>Example states\<close>

definition blank_row :: "string \<Rightarrow> ws_row" where
  "blank_row i = \<lparr>wr_id = i, wr_name = i, wr_role = None, wr_parent = None, wr_kind = KindWorkspace, wr_runtime = None,
    wr_status = StatusProvisioning, wr_url = None, wr_mode = None, wr_card = None, wr_heartbeat = None, wr_outbound = None,
    wr_updated = 0, wr_register_failure = None, wr_unloaded_since = None, wr_error_rate = 0, wr_sample_error = [],
    wr_active_tasks = 0, wr_is_busy = False, wr_uptime = 0, wr_current_task = [], wr_monthly_spend = 0,
    wr_max_concurrent = 1, wr_desired = 0, wr_observed = 0, wr_idle_minutes = None, wr_loaded_tools = None,
    wr_surface = None, wr_instance = None, wr_tier = 1, wr_template = []\<rparr>"

definition blank_state :: "ws_row list \<Rightarrow> reg_state" where
  "blank_state rows = \<lparr>rs_rows = rows, rs_secrets = [], rs_declared = [], rs_traces = [], rs_spend = [], rs_tokens = [],
    rs_live = (\<lambda>_. None), rs_urls = (\<lambda>_. None), rs_internal_urls = (\<lambda>_. None), rs_overrides = (\<lambda>_. None),
    rs_mcp_fire = (\<lambda>_. None), rs_inbound = \<lparr>in_rows = [], in_cache = []\<rparr>, rs_log = []\<rparr>"

lemma row_blank [simp]: "row (blank_state [r]) i = (if wr_id r = i then Some r else None)"
  by (simp add: blank_state_def sql_find_Cons)

end
