(* ===== verification/Mcp_Surface.thy ===== *)
theory Mcp_Surface
  imports Workspace_State Upload_Names Json_Decode "HOL-Library.Char_ord" "HOL-Library.List_Lexorder"
begin

text \<open>
  The corroboration of the tools a runtime reports against the tools its model was seen to
  dispatch (\<^verbatim>\<open>internal/handlers/registry.go\<close>, \<open>mcpToolIDNamespace\<close> to
  \<open>conciergeOnlineEvidence\<close>). A set of namespaces is a list without repetitions; a report is
  kept in the column \<open>wr_surface\<close> as the value its JSON stands for; a tool trace is the JSON
  document of its column.
\<close>

subsection \<open>Namespaces of tool ids\<close>

definition mcp_name_char :: "char \<Rightarrow> bool" where
  "mcp_name_char c = (let n = (of_char c :: nat) in
    48 \<le> n \<and> n \<le> 57 \<or> 65 \<le> n \<and> n \<le> 90 \<or> 97 \<le> n \<and> n \<le> 122 \<or> n = 95)"

definition mcpToolIDUnsafe :: "string \<Rightarrow> string" where
  "mcpToolIDUnsafe s = concat (map (\<lambda>r. case r of [c] \<Rightarrow> if mcp_name_char c then [c] else ''_'' | _ \<Rightarrow> ''_'') (runes s))"

text \<open>\<open>strings.Index(s, "__")\<close> as the two sides of the separator.\<close>

fun cut_sep :: "string \<Rightarrow> (string \<times> string) option" where
  "cut_sep (a # b # s) =
    (if a = CHR ''_'' \<and> b = CHR ''_'' then Some ([], s)
     else case cut_sep (b # s) of None \<Rightarrow> None | Some (l, r) \<Rightarrow> Some (a # l, r))"
| "cut_sep _ = None"

definition mcpToolIDNamespace :: "string \<Rightarrow> string" where
  "mcpToolIDNamespace toolID =
    (let s = TrimSpace toolID in
     if take 5 s \<noteq> ''mcp__'' then []
     else case cut_sep (drop 5 s) of
         None \<Rightarrow> []
       | Some (ns, tool) \<Rightarrow> if ns = [] \<or> tool = [] then [] else mcpToolIDUnsafe ns)"

subsection \<open>What the model dispatched\<close>

definition trace_entry :: "json \<Rightarrow> string option" where
  "trace_entry e =
    (case decode_field ''tool'' decode_string e [] of
       Some (c # t) \<Rightarrow> Some (c # t)
     | _ \<Rightarrow> (case decode_string e [] of Some (c # t) \<Rightarrow> Some (c # t) | _ \<Rightarrow> None))"

definition trace_entries :: "json \<Rightarrow> json list" where
  "trace_entries doc = (case doc of JArr es \<Rightarrow> es | _ \<Rightarrow> [])"

definition mcpDispatchNamespacesFrom :: "json list \<Rightarrow> string list \<times> nat" where
  "mcpDispatchNamespacesFrom docs =
    (let ids = List.map_filter trace_entry (concat (map trace_entries docs));
         hits = filter (\<lambda>n. n \<noteq> []) (map mcpToolIDNamespace ids)
     in (remdups hits, length hits))"

subsection \<open>The verdict\<close>

definition classifyMCPSurface ::
  "string list \<Rightarrow> string list \<Rightarrow> nat \<Rightarrow> mcpSurfaceReport option \<Rightarrow> time \<Rightarrow> mcpSurfaceReport" where
  "classifyMCPSurface reported dispatched dispatchRecords prior now =
    (let ever = remdups ((case prior of None \<Rightarrow> [] | Some p \<Rightarrow> filter (\<lambda>n. n \<noteq> []) (ms_CorroboratedNamespaces p)) @ dispatched);
         first = (case prior of None \<Rightarrow> None | Some p \<Rightarrow> ms_FirstCorroboratedAt p);
         named = filter (\<lambda>n. n \<noteq> []) (map mcpToolIDNamespace reported);
         corroborated = length (filter (\<lambda>n. n \<in> set ever) named);
         verdict = (if reported = [] then verdictNoInventory
                    else if corroborated > 0 then verdictCorroborated
                    else if ever = [] then verdictNoDispatchRecord
                    else verdictNotYetExercised)
     in \<lparr>ms_ReportedCount = length reported,
         ms_DispatchCorroboratedCount = corroborated,
         ms_AdvertisedOnlyCount = length reported - corroborated,
         ms_ReportedNamespaces = sort (remdups named),
         ms_DispatchedNamespaces = sort dispatched,
         ms_DispatchRecords = dispatchRecords,
         ms_CorroboratedNamespaces = sort ever,
         ms_FirstCorroboratedAt =
           (if verdict = verdictCorroborated \<and> first = None then Some now else first),
         ms_Verdict = verdict,
         ms_ObservedAt = now\<rparr>)"

definition mcpDispatchLookbackRows :: nat where "mcpDispatchLookbackRows = 200"

definition dispatch_traces :: "string \<Rightarrow> reg_state \<Rightarrow> json list" where
  "dispatch_traces workspaceID s =
    take mcpDispatchLookbackRows (map snd (filter (\<lambda>t. fst t = workspaceID) (rs_traces s)))"

definition priorMCPSurface :: "string \<Rightarrow> (mcpSurfaceReport option \<Rightarrow> 'r handler) \<Rightarrow> 'r handler" where
  "priorMCPSurface workspaceID k =
    query (\<lambda>s. row s workspaceID) (\<lambda>res.
      case res of Some (Some r) \<Rightarrow> k (wr_surface r) | _ \<Rightarrow> k None)"

definition persist_surface :: "time \<Rightarrow> string \<Rightarrow> mcpSurfaceReport \<Rightarrow> reg_state \<Rightarrow> reg_state \<times> nat" where
  "persist_surface now workspaceID report =
    update_rows (\<lambda>r. wr_id r = workspaceID \<and> wr_status r \<noteq> StatusRemoved)
      (\<lambda>r. r\<lparr>wr_surface := Some report, wr_updated := now\<rparr>)"

text \<open>The continuation gets the verdict the request carries on, if one was reached.\<close>

definition recordMCPSurfaceCorroboration ::
  "time \<Rightarrow> string \<Rightarrow> string list \<Rightarrow> (mcpSurfaceVerdict option \<Rightarrow> 'r handler) \<Rightarrow> 'r handler" where
  "recordMCPSurfaceCorroboration now workspaceID reported k =
    (if reported = [] then
       let report = classifyMCPSurface reported [] 0 None now
       in exec (persist_surface now workspaceID report) (\<lambda>_. k (Some (ms_Verdict report)))
     else
       priorMCPSurface workspaceID (\<lambda>prior.
       query (dispatch_traces workspaceID) (\<lambda>res.
         case res of
           None \<Rightarrow> k None
         | Some docs \<Rightarrow>
             let (dispatched, records) = mcpDispatchNamespacesFrom docs;
                 report = classifyMCPSurface reported dispatched records prior now
             in exec (persist_surface now workspaceID report) (\<lambda>_. k (Some (ms_Verdict report))))))"

datatype conciergeReadinessEvidence = evidenceAbsent | evidenceSelfReportMCPToolsReady | evidenceSelfReportLoadedMCPTools
  | evidenceNoneLegacyRuntime | evidenceDispatchObservedMCPSurface

fun evidence_text :: "conciergeReadinessEvidence \<Rightarrow> string" where
  "evidence_text evidenceAbsent = []"
| "evidence_text evidenceSelfReportMCPToolsReady = ''self_report:mcp_tools_ready''"
| "evidence_text evidenceSelfReportLoadedMCPTools = ''self_report:loaded_mcp_tools''"
| "evidence_text evidenceNoneLegacyRuntime = ''none:legacy_runtime_no_readiness_contract''"
| "evidence_text evidenceDispatchObservedMCPSurface = ''dispatch_observed:mcp_namespace_corroborated''"

definition conciergeOnlineEvidence :: "bool \<Rightarrow> bool \<Rightarrow> mcpSurfaceVerdict option \<Rightarrow> conciergeReadinessEvidence" where
  "conciergeOnlineEvidence mcpToolsReady provisionToolLoaded surface =
    (if \<not> mcpToolsReady \<and> \<not> provisionToolLoaded then evidenceAbsent
     else if surface = Some verdictCorroborated then evidenceDispatchObservedMCPSurface
     else if mcpToolsReady then evidenceSelfReportMCPToolsReady
     else evidenceSelfReportLoadedMCPTools)"

subsection \<open>Corroboration stays\<close>

lemma dispatched_nonempty: "n \<in> set (fst (mcpDispatchNamespacesFrom docs)) \<Longrightarrow> n \<noteq> []"
  by (auto simp: mcpDispatchNamespacesFrom_def Let_def)

text \<open>The specification: a report is corroborated exactly by the namespaces ever dispatched.\<close>

definition ever_dispatched :: "mcpSurfaceReport option \<Rightarrow> string list \<Rightarrow> string set" where
  "ever_dispatched prior dispatched =
    set dispatched \<union> (case prior of None \<Rightarrow> {} | Some p \<Rightarrow> set (ms_CorroboratedNamespaces p) - {[]})"

lemma classify_set: "set (ms_CorroboratedNamespaces (classifyMCPSurface reported dispatched n prior now)) = ever_dispatched prior dispatched"
  by (auto simp: classifyMCPSurface_def Let_def ever_dispatched_def split: option.splits)

lemma classify_verdict:
  "ms_Verdict (classifyMCPSurface reported dispatched n prior now) = verdictCorroborated \<longleftrightarrow>
    (\<exists>i \<in> set reported. mcpToolIDNamespace i \<noteq> [] \<and> mcpToolIDNamespace i \<in> ever_dispatched prior dispatched)"
  by (cases prior) (auto simp: classifyMCPSurface_def Let_def ever_dispatched_def filter_empty_conv)

lemma classify_counts:
  "ms_DispatchCorroboratedCount (classifyMCPSurface reported dispatched n prior now)
     + ms_AdvertisedOnlyCount (classifyMCPSurface reported dispatched n prior now) = length reported"
proof -
  have "length (filter P (filter Q (map f reported))) \<le> length reported" for P Q and f :: "string \<Rightarrow> string"
    by (metis length_filter_le length_map order_trans)
  then show ?thesis by (simp add: classifyMCPSurface_def Let_def)
qed

lemma classify_first:
  "prior = Some p \<Longrightarrow> ms_FirstCorroboratedAt p = Some t \<Longrightarrow>
    ms_FirstCorroboratedAt (classifyMCPSurface reported dispatched n prior now) = Some t"
  by (simp add: classifyMCPSurface_def Let_def)


definition surface_of :: "reg_state \<Rightarrow> string \<Rightarrow> mcpSurfaceReport option" where
  "surface_of s i = (case row s i of None \<Rightarrow> None | Some r \<Rightarrow> wr_surface r)"

lemma surface_persist:
  "surface_of (fst (persist_surface now i rep s)) i =
    (case row s i of None \<Rightarrow> None | Some r \<Rightarrow> if wr_status r \<noteq> StatusRemoved then Some rep else wr_surface r)"
proof (cases "row s i")
  case None
  then show ?thesis by (simp add: surface_of_def persist_surface_def find_update_rows)
next
  case (Some r)
  moreover have "wr_id r = i" using sql_find_Some_iff [OF Some] by simp
  ultimately show ?thesis by (simp add: surface_of_def persist_surface_def find_update_rows)
qed

text \<open>What a record says was ever dispatched, and since when it is corroborated.\<close>

definition corroborated_at :: "mcpSurfaceReport option \<Rightarrow> string set \<times> time option" where
  "corroborated_at rep = (case rep of None \<Rightarrow> ({}, None) | Some p \<Rightarrow> (set (ms_CorroboratedNamespaces p) - {[]}, ms_FirstCorroboratedAt p))"

lemma record_surface_run:
  assumes "reported \<noteq> []" and "row s i = Some r"
  shows "surface_of (snd (run (recordMCPSurfaceCorroboration now i reported Ret) (b # fs) s)) i =
    (let prior = (if b then None else wr_surface r); d = mcpDispatchNamespacesFrom (dispatch_traces i s);
         rep = classifyMCPSurface reported (fst d) (snd d) prior now
     in case fs of
          [] \<Rightarrow> if wr_status r \<noteq> StatusRemoved then Some rep else wr_surface r
        | c # gs \<Rightarrow> if \<not> c \<and> (gs = [] \<or> \<not> hd gs) \<and> wr_status r \<noteq> StatusRemoved then Some rep else wr_surface r)"
proof -
  have 0: "surface_of s i = wr_surface r" using assms(2) by (simp add: surface_of_def)
  note defs = recordMCPSurfaceCorroboration_def priorMCPSurface_def Let_def split_beta surface_persist
  show ?thesis
  proof (cases fs)
    case Nil
    with assms 0 show ?thesis by (simp add: defs)
  next
    case (Cons c gs)
    with assms 0 show ?thesis by (cases c; cases gs) (simp_all add: defs)
  qed
qed

lemma corroborated_at_classify:
  "ms_FirstCorroboratedAt p = Some t \<Longrightarrow>
    fst (corroborated_at (Some p)) \<subseteq> fst (corroborated_at (Some (classifyMCPSurface reported d n (Some p) now)))
    \<and> snd (corroborated_at (Some (classifyMCPSurface reported d n (Some p) now))) = Some t"
  by (simp add: corroborated_at_def classify_set classify_first) (auto simp: ever_dispatched_def)

text \<open>
  The corroboration of the tools of a live workspace is kept by every beat with an
  inventory, whatever statement after the read of the prior record fails: no namespace that
  was ever dispatched and no first date is lost. A beat with an empty inventory wipes both,
  and so does a beat whose read of the prior record fails, as far as the last 200 traces do
  not show the dispatch again.
\<close>

theorem corroboration_kept:
  assumes "row s i = Some r" and "wr_status r \<noteq> StatusRemoved" and "wr_surface r = Some p"
    and "ms_FirstCorroboratedAt p = Some t" and "reported \<noteq> []"
  shows "(\<forall>fs. let rep' = surface_of (snd (run (recordMCPSurfaceCorroboration now i reported Ret) (False # fs) s)) i
      in fst (corroborated_at (Some p)) \<subseteq> fst (corroborated_at rep') \<and> snd (corroborated_at rep') = Some t)
    \<and> corroborated_at (surface_of (snd (run (recordMCPSurfaceCorroboration now i [] Ret) [] s)) i) = ({}, None)
    \<and> fst (corroborated_at (surface_of (snd (run (recordMCPSurfaceCorroboration now i reported Ret) [True] s)) i))
        = set (fst (mcpDispatchNamespacesFrom (dispatch_traces i s)))"
proof (intro conjI allI)
  fix fs
  show "let rep' = surface_of (snd (run (recordMCPSurfaceCorroboration now i reported Ret) (False # fs) s)) i
      in fst (corroborated_at (Some p)) \<subseteq> fst (corroborated_at rep') \<and> snd (corroborated_at rep') = Some t"
    using corroborated_at_classify [OF assms(4)] assms(4)
    by (simp add: record_surface_run [OF assms(5,1)] assms(2,3) Let_def corroborated_at_def split: list.split)
  show "corroborated_at (surface_of (snd (run (recordMCPSurfaceCorroboration now i [] Ret) [] s)) i) = ({}, None)"
    using assms by (simp add: recordMCPSurfaceCorroboration_def surface_persist corroborated_at_def
        classifyMCPSurface_def Let_def)
  show "fst (corroborated_at (surface_of (snd (run (recordMCPSurfaceCorroboration now i reported Ret) [True] s)) i))
      = set (fst (mcpDispatchNamespacesFrom (dispatch_traces i s)))"
    using assms(2) dispatched_nonempty
    by (auto simp: record_surface_run [OF assms(5,1)] Let_def corroborated_at_def classify_set ever_dispatched_def)
qed


text \<open>A record with one dispatched namespace, and a beat that lists a tool of it.\<close>

definition seen_report :: mcpSurfaceReport where
  "seen_report = \<lparr>ms_ReportedCount = 1, ms_DispatchCorroboratedCount = 1, ms_AdvertisedOnlyCount = 0,
    ms_ReportedNamespaces = [''ns''], ms_DispatchedNamespaces = [''ns''], ms_DispatchRecords = 1,
    ms_CorroboratedNamespaces = [''ns''], ms_FirstCorroboratedAt = Some 3, ms_Verdict = verdictCorroborated,
    ms_ObservedAt = 3\<rparr>"

theorem corroboration_kept_witness:
  "snd (corroborated_at (surface_of (snd (run (recordMCPSurfaceCorroboration 9 ''c'' [''mcp__ns__list''] Ret) [False, True]
      (blank_state [(blank_row ''c'')\<lparr>wr_surface := Some seen_report\<rparr>]))) ''c'')) = Some 3
   \<and> ''ns'' \<in> fst (corroborated_at (surface_of (snd (run (recordMCPSurfaceCorroboration 9 ''c'' [''mcp__ns__list''] Ret) [False]
      (blank_state [(blank_row ''c'')\<lparr>wr_surface := Some seen_report\<rparr>]))) ''c''))"
proof -
  note kept = corroboration_kept [where i = "''c''" and s = "blank_state [(blank_row ''c'')\<lparr>wr_surface := Some seen_report\<rparr>]"
      and r = "(blank_row ''c'')\<lparr>wr_surface := Some seen_report\<rparr>" and p = seen_report and t = 3
      and reported = "[''mcp__ns__list'']" and now = 9, THEN conjunct1]
  have seen: "fst (corroborated_at (Some seen_report)) = {''ns''}" by (simp add: corroborated_at_def seen_report_def)
  have k: "let rep' = surface_of (snd (run (recordMCPSurfaceCorroboration 9 ''c'' [''mcp__ns__list''] Ret) (False # fs)
      (blank_state [(blank_row ''c'')\<lparr>wr_surface := Some seen_report\<rparr>]))) ''c''
    in {''ns''} \<subseteq> fst (corroborated_at rep') \<and> snd (corroborated_at rep') = Some 3" for fs
    unfolding seen [symmetric]
    by (rule kept [THEN spec]) (simp_all add: blank_row_def seen_report_def)
  from k [of "[True]"] k [of "[]"] show ?thesis unfolding Let_def by (auto simp del: run_query run_exec)
qed

end
