(* ===== verification/Heartbeat_Status.thy ===== *)
theory Heartbeat_Status
  imports Mcp_Surface
begin

text \<open>
  The status machine a heartbeat drives (\<^verbatim>\<open>internal/handlers/registry.go\<close>, \<open>evaluateStatus\<close>
  with the gates it calls), as a program of the statements it sends. The branches of the Go
  function are definitions of their own: the fail-closed gate and the promotion of a platform
  agent, the warming hold, the grace window of an online platform agent, the degrade and the
  recovery branches of every other workspace, and the hand-over of queued messages.

  An error rate is the exact value of the 64-bit float the request carries. \<open>now\<close> is the time
  of the beat, for the process and for the database.
\<close>

subsection \<open>The request\<close>

record RuntimeMetadata =
  rm_Capabilities :: "(string \<times> bool) list"
  rm_IdleTimeoutSeconds :: "int option"

record HeartbeatPayload =
  hb_WorkspaceID :: string
  hb_ErrorRate :: rat
  hb_SampleError :: string
  hb_ActiveTasks :: int
  hb_IsBusy :: "bool option"
  hb_UptimeSeconds :: int
  hb_CurrentTask :: string
  hb_MonthlySpend :: int
  hb_ObservedGeneration :: "int option"
  hb_RuntimeState :: string
  hb_RuntimeMetadata :: "RuntimeMetadata option"
  hb_AgentCard :: "json option"
  hb_MCPServerPresent :: "bool option"
  hb_LoadedMCPTools :: "string list option"
  hb_MCPToolsReady :: "bool option"

definition wedged :: string where "wedged = ''wedged''"

definition managementMCPUnloadedGrace :: duration where "managementMCPUnloadedGrace = 180 * second"
definition conciergeWarmupFailGrace :: duration where "conciergeWarmupFailGrace = 300 * second"
definition register_failure_window :: duration where "register_failure_window = 5 * minute"

text \<open>The float constants \<open>0.5\<close> and \<open>0.1\<close>.\<close>

definition degrade_rate :: rat where "degrade_rate = 1 / 2"
definition recover_rate :: rat where "recover_rate = 3602879701896397 / 36028797018963968"

definition conciergePlatformMCPName :: string where
  "conciergePlatformMCPName = ''molecule-ai-plugin-molecule-platform-mcp''"

definition conciergePlatformMCPProvisionWorkspaceTool :: string where
  "conciergePlatformMCPProvisionWorkspaceTool = ''mcp__molecule-platform__provision_workspace''"

subsection \<open>Events\<close>

definition EventWorkspaceOnline :: string where "EventWorkspaceOnline = ''WORKSPACE_ONLINE''"
definition EventWorkspaceDegraded :: string where "EventWorkspaceDegraded = ''WORKSPACE_DEGRADED''"
definition EventWorkspaceProvisionFailed :: string where "EventWorkspaceProvisionFailed = ''WORKSPACE_PROVISION_FAILED''"

subsection \<open>Gates\<close>

definition platformAgentHasModelSecret :: "string \<Rightarrow> reg_state \<Rightarrow> bool" where
  "platformAgentHasModelSecret workspaceID s = ((workspaceID, ''MODEL'') \<in> set (rs_secrets s))"

definition platformAgentMCPServerPresent :: "bool option \<Rightarrow> bool" where
  "platformAgentMCPServerPresent present = (present = None \<or> present = Some True)"

definition listDeclaredPlugins :: "string \<Rightarrow> reg_state \<Rightarrow> string list" where
  "listDeclaredPlugins workspaceID s = map snd (filter (\<lambda>d. fst d = workspaceID) (rs_declared s))"

text \<open>True means missing: the plugin is declared and its required tool is not loaded.\<close>

definition platformAgentManagementMCPLoaded ::
  "string \<Rightarrow> string list \<Rightarrow> (bool option \<Rightarrow> 'r handler) \<Rightarrow> 'r handler" where
  "platformAgentManagementMCPLoaded workspaceID loaded k =
    query (listDeclaredPlugins workspaceID) (\<lambda>res.
      case res of
        None \<Rightarrow> k None
      | Some declared \<Rightarrow>
          k (Some (conciergePlatformMCPName \<in> set declared
              \<and> conciergePlatformMCPProvisionWorkspaceTool \<notin> set loaded)))"

definition markWorkspaceFailed :: "time \<Rightarrow> string \<Rightarrow> string \<Rightarrow> string \<Rightarrow> 'r handler \<Rightarrow> 'r handler" where
  "markWorkspaceFailed now workspaceID msg reason p =
    RecordAndBroadcast EventWorkspaceProvisionFailed workspaceID
      [(''error'', JStr msg), (''code'', JStr ''PLATFORM_AGENT_IDENTITY_GATE''), (''reason'', JStr reason)] (\<lambda>_.
    exec (update_rows (\<lambda>r. wr_id r = workspaceID)
      (\<lambda>r. r\<lparr>wr_status := StatusFailed, wr_sample_error := msg, wr_updated := now\<rparr>)) (\<lambda>_. p))"

definition holdOnlineBroadcastForWarmingPlatform :: "string \<Rightarrow> WorkspaceStatus \<Rightarrow> bool" where
  "holdOnlineBroadcastForWarmingPlatform kind status = (kind = KindPlatform \<and> status = StatusProvisioning)"

subsection \<open>Statements\<close>

text \<open>\<open>UPDATE workspaces SET status = to WHERE id = i AND status = from\<close>.\<close>

definition flip :: "time \<Rightarrow> string \<Rightarrow> WorkspaceStatus \<Rightarrow> WorkspaceStatus \<Rightarrow> reg_state \<Rightarrow> reg_state \<times> nat" where
  "flip now i from to = update_rows (\<lambda>r. wr_id r = i \<and> wr_status r = from) (\<lambda>r. r\<lparr>wr_status := to, wr_updated := now\<rparr>)"

definition degrade_with :: "time \<Rightarrow> string \<Rightarrow> WorkspaceStatus \<Rightarrow> string \<Rightarrow> reg_state \<Rightarrow> reg_state \<times> nat" where
  "degrade_with now i from msg = update_rows (\<lambda>r. wr_id r = i \<and> wr_status r = from)
     (\<lambda>r. r\<lparr>wr_status := StatusDegraded, wr_sample_error := msg, wr_updated := now\<rparr>)"

definition stamp_unloaded :: "time \<Rightarrow> string \<Rightarrow> reg_state \<Rightarrow> reg_state \<times> nat" where
  "stamp_unloaded now i = update_rows (\<lambda>r. wr_id r = i)
     (\<lambda>r. r\<lparr>wr_unloaded_since := coalesce (wr_unloaded_since r) (Some now), wr_updated := now\<rparr>)"

definition clear_unloaded :: "time \<Rightarrow> string \<Rightarrow> reg_state \<Rightarrow> reg_state \<times> nat" where
  "clear_unloaded now i = update_rows (\<lambda>r. wr_id r = i \<and> wr_unloaded_since r \<noteq> None)
     (\<lambda>r. r\<lparr>wr_unloaded_since := None, wr_updated := now\<rparr>)"

text \<open>The first beat that sees the tools missing starts the clock; the continuation gets its start.\<close>

definition first_unloaded :: "time \<Rightarrow> string \<Rightarrow> time option \<Rightarrow> (time \<Rightarrow> 'r handler) \<Rightarrow> 'r handler" where
  "first_unloaded now i since k =
    (case since of Some t \<Rightarrow> k t | None \<Rightarrow> exec (stamp_unloaded now i) (\<lambda>_. k now))"

subsection \<open>The facts of one beat\<close>

definition hasRecentRegisterFailure :: "time \<Rightarrow> ws_row \<Rightarrow> bool" where
  "hasRecentRegisterFailure now r =
    (case wr_register_failure r of None \<Rightarrow> False | Some t \<Rightarrow> now - t < register_failure_window)"

definition provisionToolLoaded :: "HeartbeatPayload \<Rightarrow> bool" where
  "provisionToolLoaded p =
    (case hb_LoadedMCPTools p of None \<Rightarrow> False | Some ts \<Rightarrow> conciergePlatformMCPProvisionWorkspaceTool \<in> set ts)"

definition mcpToolsReady :: "HeartbeatPayload \<Rightarrow> bool" where
  "mcpToolsReady p = (hb_MCPToolsReady p = Some True)"

definition mcpSurfaceSelfReported :: "HeartbeatPayload \<Rightarrow> bool" where
  "mcpSurfaceSelfReported p = (mcpToolsReady p \<or> provisionToolLoaded p)"

definition tool_count :: "HeartbeatPayload \<Rightarrow> nat" where
  "tool_count p = (case hb_LoadedMCPTools p of None \<Rightarrow> 0 | Some ts \<Rightarrow> length ts)"

definition recoverable :: "WorkspaceStatus \<Rightarrow> bool" where
  "recoverable st = (st \<in> {StatusProvisioning, StatusFailed, StatusOffline, StatusAwaitingAgent, StatusDegraded})"

definition conciergeUnhealthy :: "time \<Rightarrow> HeartbeatPayload \<Rightarrow> ws_row \<Rightarrow> bool" where
  "conciergeUnhealthy now p r =
    (hb_RuntimeState p = wedged \<or> hb_ErrorRate p \<ge> degrade_rate \<or> hasRecentRegisterFailure now r)"

subsection \<open>A platform agent that is not online\<close>

definition announce_promotion ::
  "reg_env \<Rightarrow> HeartbeatPayload \<Rightarrow> WorkspaceStatus \<Rightarrow> conciergeReadinessEvidence \<Rightarrow> unit handler" where
  "announce_promotion env p current evidence =
    (let i = hb_WorkspaceID p in
     RecordAndBroadcast EventWorkspaceOnline i
       [(''readiness_evidence'', JStr (evidence_text evidence)), (''recovered_from'', JStr (status_text current))] (\<lambda>_.
     fireReconcileOnline env i
       (if current = StatusProvisioning then fireFirstBootGreeting env i (tool_count p) (Ret ()) else Ret ())))"

definition promote_legacy :: "reg_env \<Rightarrow> time \<Rightarrow> HeartbeatPayload \<Rightarrow> WorkspaceStatus \<Rightarrow> unit handler" where
  "promote_legacy env now p current =
    exec (flip now (hb_WorkspaceID p) current StatusOnline) (\<lambda>_.
      announce_promotion env p current evidenceNoneLegacyRuntime)"

definition promote_reported ::
  "reg_env \<Rightarrow> time \<Rightarrow> HeartbeatPayload \<Rightarrow> mcpSurfaceVerdict option \<Rightarrow> WorkspaceStatus \<Rightarrow> unit handler" where
  "promote_reported env now p surface current =
    exec (update_rows (\<lambda>r. wr_id r = hb_WorkspaceID p \<and> wr_status r = current)
      (\<lambda>r. r\<lparr>wr_status := StatusOnline, wr_unloaded_since := None, wr_updated := now\<rparr>)) (\<lambda>_.
      announce_promotion env p current (conciergeOnlineEvidence (mcpToolsReady p) (provisionToolLoaded p) surface))"

definition warmup_message :: string where
  "warmup_message = ''platform concierge never reached management-MCP readiness within 5m0s of warming (mcp_tools_ready not published and loaded_mcp_tools did not carry provision_workspace); marking degraded (EV2 warm-fail safety net, core#3082/#4449)''"

definition warming_hold :: "reg_env \<Rightarrow> time \<Rightarrow> HeartbeatPayload \<Rightarrow> ws_row \<Rightarrow> unit handler" where
  "warming_hold env now p r =
    (let i = hb_WorkspaceID p in
     first_unloaded now i (wr_unloaded_since r) (\<lambda>first.
       if now - first \<ge> conciergeWarmupFailGrace
       then exec (degrade_with now i StatusProvisioning warmup_message) (\<lambda>res.
         case res of
           None \<Rightarrow> fireReconcileMCPRecovery env now i (Ret ())
         | Some n \<Rightarrow>
             if n > 0
             then RecordAndBroadcast EventWorkspaceDegraded i
               [(''warmup_never_ready'', JBool True), (''warming_for_secs'', JInt ((now - first) div second)),
                (''sample_error'', JStr warmup_message)] (\<lambda>_. fireReconcileMCPRecovery env now i (Ret ()))
             else Ret ())
       else Ret ()))"

definition platform_not_online ::
  "reg_env \<Rightarrow> time \<Rightarrow> HeartbeatPayload \<Rightarrow> mcpSurfaceVerdict option \<Rightarrow> ws_row \<Rightarrow> unit handler" where
  "platform_not_online env now p surface r =
    (if \<not> recoverable (wr_status r) then Ret ()
     else if hb_MCPServerPresent p = None \<and> \<not> conciergeUnhealthy now p r then promote_legacy env now p (wr_status r)
     else if mcpSurfaceSelfReported p \<and> \<not> conciergeUnhealthy now p r then promote_reported env now p surface (wr_status r)
     else if wr_status r = StatusProvisioning then warming_hold env now p r
     else Ret ())"

subsection \<open>A platform agent that is online\<close>

definition not_ready_message :: string where
  "not_ready_message = ''platform agent management-MCP readiness probe reports provision_workspace not loaded past the grace window; marking degraded (EV2 live mcp_tools_ready=false, core#3082/#4457)''"

definition probe_negative :: "reg_env \<Rightarrow> time \<Rightarrow> HeartbeatPayload \<Rightarrow> ws_row \<Rightarrow> bool handler" where
  "probe_negative env now p r =
    (let i = hb_WorkspaceID p in
     first_unloaded now i (wr_unloaded_since r) (\<lambda>first.
       if now - first < managementMCPUnloadedGrace then Ret True
       else exec (degrade_with now i StatusOnline not_ready_message) (\<lambda>res.
         case res of
           None \<Rightarrow> fireReconcileMCPRecovery env now i (Ret True)
         | Some n \<Rightarrow>
             if n > 0
             then RecordAndBroadcast EventWorkspaceDegraded i
               [(''mcp_tools_ready_false'', JBool True), (''sample_error'', JStr not_ready_message)] (\<lambda>_.
               fireReconcileMCPRecovery env now i (Ret True))
             else Ret True)))"

definition missing_message :: "bool \<Rightarrow> string" where
  "missing_message absentToolsList =
    (if absentToolsList
     then ''platform agent runtime did not report loaded_mcp_tools on a mcp_server_present=true heartbeat; cannot verify provision_workspace tool is loaded '' @ [CHR 0xE2, CHR 0x80, CHR 0x94] @ '' marking degraded (core#3082)''
     else ''platform agent management MCP declared but not loaded; marking degraded (core#3082)'')"

definition tools_missing :: "reg_env \<Rightarrow> time \<Rightarrow> HeartbeatPayload \<Rightarrow> ws_row \<Rightarrow> bool \<Rightarrow> bool handler" where
  "tools_missing env now p r absentToolsList =
    (let i = hb_WorkspaceID p in
     first_unloaded now i (wr_unloaded_since r) (\<lambda>first.
       if now - first < managementMCPUnloadedGrace then Ret True
       else exec (degrade_with now i StatusOnline (missing_message absentToolsList)) (\<lambda>_.
         RecordAndBroadcast EventWorkspaceDegraded i
           [(''management_mcp_missing'', JBool True), (''loaded_mcp_tools_absent'', JBool absentToolsList),
            (''sample_error'', JStr (missing_message absentToolsList))] (\<lambda>_.
         fireReconcileMCPRecovery env now i (Ret True)))))"

text \<open>\<open>lookup_error\<close> is the text of the driver's error inside the message.\<close>

definition lookup_failed :: "time \<Rightarrow> HeartbeatPayload \<Rightarrow> string \<Rightarrow> bool handler" where
  "lookup_failed now p lookup_error =
    (let i = hb_WorkspaceID p;
         msg = ''platform agent declared management MCP lookup failed: declared-plugin lookup: listDeclaredPlugins: '' @ lookup_error
           @ ''; marking degraded (core#3082)'' in
     exec (degrade_with now i StatusOnline msg) (\<lambda>_.
     RecordAndBroadcast EventWorkspaceDegraded i
       [(''management_mcp_lookup_failed'', JBool True), (''sample_error'', JStr msg)] (\<lambda>_. Ret True)))"

definition clear_stamp :: "time \<Rightarrow> HeartbeatPayload \<Rightarrow> ws_row \<Rightarrow> bool handler" where
  "clear_stamp now p r =
    (if wr_unloaded_since r \<noteq> None then exec (clear_unloaded now (hb_WorkspaceID p)) (\<lambda>_. Ret False) else Ret False)"

definition tools_listed :: "reg_env \<Rightarrow> time \<Rightarrow> HeartbeatPayload \<Rightarrow> ws_row \<Rightarrow> string \<Rightarrow> bool handler" where
  "tools_listed env now p r lookup_error =
    (case hb_LoadedMCPTools p of
       None \<Rightarrow> tools_missing env now p r True
     | Some loaded \<Rightarrow>
         platformAgentManagementMCPLoaded (hb_WorkspaceID p) loaded (\<lambda>res.
           case res of
             None \<Rightarrow> lookup_failed now p lookup_error
           | Some True \<Rightarrow> tools_missing env now p r False
           | Some False \<Rightarrow> clear_stamp now p r))"

text \<open>The value is \<open>managementMCPUnloaded\<close>.\<close>

definition platform_online :: "reg_env \<Rightarrow> time \<Rightarrow> HeartbeatPayload \<Rightarrow> ws_row \<Rightarrow> string \<Rightarrow> bool handler" where
  "platform_online env now p r lookup_error =
    (if hb_MCPServerPresent p \<noteq> Some True then Ret False
     else if mcpToolsReady p then clear_stamp now p r
     else if hb_MCPToolsReady p \<noteq> None then probe_negative env now p r
     else tools_listed env now p r lookup_error)"

subsection \<open>Every workspace\<close>

definition wedged_branch :: "time \<Rightarrow> HeartbeatPayload \<Rightarrow> WorkspaceStatus \<Rightarrow> unit handler" where
  "wedged_branch now p current =
    (if hb_RuntimeState p = wedged \<and> current = StatusOnline
     then exec (flip now (hb_WorkspaceID p) StatusOnline StatusDegraded) (\<lambda>_.
       RecordAndBroadcast EventWorkspaceDegraded (hb_WorkspaceID p)
         [(''runtime_state'', JStr ''wedged''), (''sample_error'', JStr (hb_SampleError p))] (\<lambda>_. Ret ()))
     else Ret ())"

text \<open>\<open>show_rate\<close> is the text \<open>encoding/json\<close> gives a float.\<close>

definition error_rate_branch :: "(rat \<Rightarrow> string) \<Rightarrow> time \<Rightarrow> HeartbeatPayload \<Rightarrow> WorkspaceStatus \<Rightarrow> bool \<Rightarrow> unit handler" where
  "error_rate_branch show_rate now p current nativeStatus =
    (if \<not> nativeStatus \<and> current = StatusOnline \<and> hb_ErrorRate p \<ge> degrade_rate
     then exec (flip now (hb_WorkspaceID p) StatusOnline StatusDegraded) (\<lambda>_.
       RecordAndBroadcast EventWorkspaceDegraded (hb_WorkspaceID p)
         [(''error_rate'', JReal (show_rate (hb_ErrorRate p))), (''sample_error'', JStr (hb_SampleError p))] (\<lambda>_. Ret ()))
     else Ret ())"

definition stale_token_message :: string where
  "stale_token_message = ''Register failed '' @ [CHR 0xE2, CHR 0x80, CHR 0x94] @ '' workspace auth token may be stale. Restart or reprovision to recover.''"

definition register_failure_branch :: "time \<Rightarrow> HeartbeatPayload \<Rightarrow> WorkspaceStatus \<Rightarrow> bool \<Rightarrow> unit handler" where
  "register_failure_branch now p current recent =
    (if current = StatusOnline \<and> recent
     then exec (flip now (hb_WorkspaceID p) StatusOnline StatusDegraded) (\<lambda>_.
       RecordAndBroadcast EventWorkspaceDegraded (hb_WorkspaceID p)
         [(''register_failure'', JBool True), (''sample_error'', JStr stale_token_message)] (\<lambda>_. Ret ()))
     else Ret ())"

definition recover_from :: "reg_env \<Rightarrow> time \<Rightarrow> HeartbeatPayload \<Rightarrow> WorkspaceStatus \<Rightarrow> (string \<times> json) list \<Rightarrow> unit handler" where
  "recover_from env now p from payload =
    exec (flip now (hb_WorkspaceID p) from StatusOnline) (\<lambda>_.
    RecordAndBroadcast EventWorkspaceOnline (hb_WorkspaceID p) payload (\<lambda>_.
    fireReconcileOnline env (hb_WorkspaceID p) (Ret ())))"

definition degraded_recovers :: "HeartbeatPayload \<Rightarrow> bool \<Rightarrow> bool \<Rightarrow> bool \<Rightarrow> bool" where
  "degraded_recovers p nativeStatus recent managementMCPUnloaded =
    (\<not> nativeStatus \<and> hb_ErrorRate p < recover_rate \<and> hb_RuntimeState p = [] \<and> \<not> recent \<and> \<not> managementMCPUnloaded)"

definition recovery_branches ::
  "reg_env \<Rightarrow> time \<Rightarrow> HeartbeatPayload \<Rightarrow> WorkspaceStatus \<Rightarrow> bool \<Rightarrow> bool \<Rightarrow> bool \<Rightarrow> unit handler" where
  "recovery_branches env now p current nativeStatus recent managementMCPUnloaded =
    (if current = StatusDegraded
     then if degraded_recovers p nativeStatus recent managementMCPUnloaded
          then recover_from env now p StatusDegraded [] else Ret ()
     else if current = StatusOffline then recover_from env now p StatusOffline []
     else if current \<in> {StatusProvisioning, StatusAwaitingAgent, StatusFailed}
     then recover_from env now p current [(''recovered_from'', JStr (status_text current))]
     else Ret ())"

definition drain_branch :: "reg_env \<Rightarrow> HeartbeatPayload \<Rightarrow> unit handler" where
  "drain_branch env p =
    (if \<not> re_drain env then Ret ()
     else query (\<lambda>s. map_option wr_max_concurrent (row s (hb_WorkspaceID p))) (\<lambda>res.
       let maxConcurrent = (case res of Some (Some m) \<Rightarrow> m | _ \<Rightarrow> 0);
           capacity = maxConcurrent - hb_ActiveTasks p
       in if hb_ActiveTasks p < maxConcurrent
          then effect (logged (DrainQueue (hb_WorkspaceID p) (if capacity < 1 then 1 else capacity))) (Ret ())
          else Ret ()))"

definition generic_status ::
  "reg_env \<Rightarrow> (rat \<Rightarrow> string) \<Rightarrow> time \<Rightarrow> HeartbeatPayload \<Rightarrow> ws_row \<Rightarrow> bool \<Rightarrow> unit handler" where
  "generic_status env show_rate now p r managementMCPUnloaded =
    (let current = wr_status r; recent = hasRecentRegisterFailure now r in
     bindp (wedged_branch now p current) (\<lambda>_.
     inspect (\<lambda>s. HasCapability s (hb_WorkspaceID p) ''status_mgmt'') (\<lambda>nativeStatus.
     bindp (error_rate_branch show_rate now p current nativeStatus) (\<lambda>_.
     bindp (register_failure_branch now p current recent) (\<lambda>_.
     bindp (recovery_branches env now p current nativeStatus recent managementMCPUnloaded) (\<lambda>_.
     drain_branch env p))))))"

definition model_message :: string where
  "model_message = ''platform agent heartbeat denied: no seeded MODEL workspace_secret; refusing to mark online (RCA #2970 FAIL-CLOSED)''"

definition mcp_message :: string where
  "mcp_message = ''platform agent heartbeat denied: management MCP server absent (mcp_server_present=false); refusing to mark online (RCA #2970 FAIL-CLOSED)''"

definition platform_status ::
  "reg_env \<Rightarrow> (rat \<Rightarrow> string) \<Rightarrow> string \<Rightarrow> time \<Rightarrow> HeartbeatPayload \<Rightarrow> mcpSurfaceVerdict option \<Rightarrow> ws_row \<Rightarrow> unit handler" where
  "platform_status env show_rate lookup_error now p surface r =
    (let i = hb_WorkspaceID p in
     query (platformAgentHasModelSecret i) (\<lambda>res.
       case res of
         None \<Rightarrow> Ret ()
       | Some hasModel \<Rightarrow>
           if \<not> hasModel then markWorkspaceFailed now i model_message ''model_missing'' (Ret ())
           else if \<not> platformAgentMCPServerPresent (hb_MCPServerPresent p)
           then fireReconcileMCPRecovery env now i (markWorkspaceFailed now i mcp_message ''mcp_server_missing'' (Ret ()))
           else if wr_status r \<noteq> StatusOnline then platform_not_online env now p surface r
           else bindp (platform_online env now p r lookup_error) (generic_status env show_rate now p r)))"

definition evaluateStatus ::
  "reg_env \<Rightarrow> (rat \<Rightarrow> string) \<Rightarrow> string \<Rightarrow> time \<Rightarrow> HeartbeatPayload \<Rightarrow> mcpSurfaceVerdict option \<Rightarrow> unit handler" where
  "evaluateStatus env show_rate lookup_error now p surface =
    query (\<lambda>s. row s (hb_WorkspaceID p)) (\<lambda>res.
      case res of
        Some (Some r) \<Rightarrow>
          if wr_kind r = KindPlatform then platform_status env show_rate lookup_error now p surface r
          else generic_status env show_rate now p r False
      | _ \<Rightarrow> Ret ())"

subsection \<open>What the statements do to a status\<close>

lemma status_update_rows:
  assumes "\<And>r. wr_id (f r) = wr_id r"
  shows "status_of (fst (update_rows P f s)) j = map_option (\<lambda>r. if P r then wr_status (f r) else wr_status r) (row s j)"
  by (simp add: status_of_def find_update_rows assms option.map_comp o_def if_distrib)

lemma row_id: "row s j = Some r \<Longrightarrow> wr_id r = j"
  using sql_find_Some_iff by fastforce

lemma status_update_at:
  assumes "\<And>r. wr_id (f r) = wr_id r" and "\<And>r. wr_status (f r) = g (wr_status r)"
  shows "status_of (fst (update_rows (\<lambda>r. wr_id r = i \<and> P (wr_status r)) f s)) j =
    (if j = i then map_option (\<lambda>st. if P st then g st else st) (status_of s j) else status_of s j)"
  unfolding status_update_rows [of f, OF assms(1)]
  by (cases "row s j") (auto simp: status_of_def assms(2) dest: row_id)

lemma status_flip:
  "status_of (fst (flip now i from to s)) j = (if j = i \<and> status_of s j = Some from then Some to else status_of s j)"
  unfolding flip_def
  by (subst status_update_at [where g = "\<lambda>_. to" and P = "\<lambda>st. st = from"])
    (cases "status_of s j"; auto)+

lemma status_degrade:
  "status_of (fst (degrade_with now i from msg s)) j = (if j = i \<and> status_of s j = Some from then Some StatusDegraded else status_of s j)"
  unfolding degrade_with_def
  by (subst status_update_at [where g = "\<lambda>_. StatusDegraded" and P = "\<lambda>st. st = from"])
    (cases "status_of s j"; auto)+

lemma status_kept:
  assumes "\<And>r. wr_id (f r) = wr_id r" and "\<And>r. wr_status (f r) = wr_status r"
  shows "status_of (fst (update_rows P f s)) j = status_of s j"
  unfolding status_update_rows [of f, OF assms(1)] by (cases "row s j") (simp_all add: status_of_def assms(2))

lemma status_stamps:
  "status_of (fst (stamp_unloaded now i s)) j = status_of s j"
  "status_of (fst (clear_unloaded now i s)) j = status_of s j"
  unfolding stamp_unloaded_def clear_unloaded_def by (simp_all add: status_kept)

lemma status_logged [simp]: "status_of (logged e s) j = status_of s j"
  by (simp add: status_of_def)

lemma row_statements:
  "rs_overrides (fst (flip now i from to s)) = rs_overrides s"
  "rs_overrides (fst (degrade_with now i from msg s)) = rs_overrides s"
  "rs_overrides (fst (stamp_unloaded now i s)) = rs_overrides s"
  "rs_overrides (fst (clear_unloaded now i s)) = rs_overrides s"
  "rs_declared (fst (stamp_unloaded now i s)) = rs_declared s"
  by (simp_all add: flip_def degrade_with_def stamp_unloaded_def clear_unloaded_def)

lemma affected_degrade:
  assumes "unique_key wr_id (rs_rows s)"
  shows "snd (degrade_with now i from msg s) > 0 \<longleftrightarrow> status_of s i = Some from"
  using assms
  by (simp add: degrade_with_def update_rows_def affected_row status_of_def split: option.split)

lemmas statement_simps = status_flip status_degrade status_stamps row_statements

text \<open>Broadcasts and hooks change no row.\<close>

lemma run_announcements [simp]:
  "run (RecordAndBroadcast ev i pl k) [] s = run (k (Some ())) [] (logged (Recorded ev i pl) s)"
  by (simp add: RecordAndBroadcast_def)

lemma status_mcp_fire [simp]:
  "status_of (s\<lparr>rs_mcp_fire := m\<rparr>) j = status_of s j"
  by (simp add: status_of_def)

lemma run_hooks:
  "status_of (snd (run (fireReconcileOnline env i q) [] s)) j = status_of (snd (run q [] (if re_restore env
      then logged (RestoreSchedules i) (if re_reconcile env then logged (ReconcilePlugins i) s else s)
      else if re_reconcile env then logged (ReconcilePlugins i) s else s))) j"
  "status_of (snd (run (fireReconcileMCPRecovery env now i (Ret x)) [] s)) j = status_of s j"
  "fst (run (fireReconcileMCPRecovery env now i (Ret x)) [] s) = x"
  "rs_overrides (snd (run (fireReconcileMCPRecovery env now i (Ret x)) [] s)) = rs_overrides s"
  "status_of (snd (run (fireFirstBootGreeting env i n (Ret ())) [] s)) j = status_of s j"
  by (simp_all add: fireReconcileOnline_def fireReconcileMCPRecovery_def fireFirstBootGreeting_def)

lemma run_promotion:
  "status_of (snd (run (announce_promotion env p cur ev) [] s)) j = status_of s j"
  by (simp add: announce_promotion_def Let_def run_hooks fireFirstBootGreeting_def)

lemma run_recover:
  "status_of (snd (run (recover_from env now p from pl) [] s)) j =
    (if j = hb_WorkspaceID p \<and> status_of s j = Some from then Some StatusOnline else status_of s j)"
  by (auto simp: recover_from_def run_hooks status_flip)

lemma run_drain: "status_of (snd (run (drain_branch env p) [] s)) j = status_of s j"
  by (simp add: drain_branch_def Let_def)

lemma run_branches:
  "status_of (snd (run (wedged_branch now p cur) [] s)) j =
    (if hb_RuntimeState p = wedged \<and> cur = StatusOnline \<and> j = hb_WorkspaceID p \<and> status_of s j = Some StatusOnline
     then Some StatusDegraded else status_of s j)"
  "status_of (snd (run (error_rate_branch sr now p cur native) [] s)) j =
    (if \<not> native \<and> hb_ErrorRate p \<ge> degrade_rate \<and> cur = StatusOnline \<and> j = hb_WorkspaceID p \<and> status_of s j = Some StatusOnline
     then Some StatusDegraded else status_of s j)"
  "status_of (snd (run (register_failure_branch now p cur recent) [] s)) j =
    (if recent \<and> cur = StatusOnline \<and> j = hb_WorkspaceID p \<and> status_of s j = Some StatusOnline
     then Some StatusDegraded else status_of s j)"
  by (auto simp: wedged_branch_def error_rate_branch_def register_failure_branch_def status_flip)

lemma run_branches_overrides:
  "rs_overrides (snd (run (wedged_branch now p cur) [] s)) = rs_overrides s"
  by (simp add: wedged_branch_def row_statements)

lemma capability_cong: "rs_overrides s = rs_overrides t \<Longrightarrow> HasCapability s i c = HasCapability t i c"
  by (simp add: HasCapability_def loadEntry_def)

subsection \<open>The specification of one beat\<close>

text \<open>The next status of a workspace that is not a platform agent.\<close>

definition generic_next :: "time \<Rightarrow> bool \<Rightarrow> HeartbeatPayload \<Rightarrow> bool \<Rightarrow> bool \<Rightarrow> WorkspaceStatus \<Rightarrow> WorkspaceStatus" where
  "generic_next now native p recent unloaded st =
    (case st of
       StatusOnline \<Rightarrow> if hb_RuntimeState p = wedged \<or> \<not> native \<and> hb_ErrorRate p \<ge> degrade_rate \<or> recent
         then StatusDegraded else StatusOnline
     | StatusDegraded \<Rightarrow> if degraded_recovers p native recent unloaded then StatusOnline else StatusDegraded
     | StatusRemoved \<Rightarrow> StatusRemoved | StatusPaused \<Rightarrow> StatusPaused
     | StatusHibernated \<Rightarrow> StatusHibernated | StatusHibernating \<Rightarrow> StatusHibernating
     | _ \<Rightarrow> StatusOnline)"

lemma run_recovery:
  assumes "status_of s (hb_WorkspaceID p) = Some cur"
  shows "status_of (snd (run (recovery_branches env now p cur native recent unloaded) [] s)) j =
    (if j = hb_WorkspaceID p
     then Some (case cur of StatusOnline \<Rightarrow> StatusOnline | _ \<Rightarrow> generic_next now native p recent unloaded cur)
     else status_of s j)"
  using assms by (cases cur) (auto simp: recovery_branches_def run_recover generic_next_def)


text \<open>A platform agent that an earlier branch of the same beat degraded stays degraded.\<close>

lemma run_generic:
  assumes "status_of s (hb_WorkspaceID p) = Some st" and "wr_status r = cur"
    and "st = cur \<or> cur = StatusOnline \<and> st = StatusDegraded"
  shows "status_of (snd (run (generic_status env sr now p r unloaded) [] s)) j =
    (if j = hb_WorkspaceID p
     then Some (if st = cur
        then generic_next now (HasCapability s (hb_WorkspaceID p) ''status_mgmt'') p (hasRecentRegisterFailure now r) unloaded cur
        else StatusDegraded)
     else status_of s j)"
proof -
  let ?i = "hb_WorkspaceID p" and ?recent = "hasRecentRegisterFailure now r"
  define native where "native = HasCapability s ?i ''status_mgmt''"
  define s1 where "s1 = snd (run (wedged_branch now p cur) [] s)"
  define s2 where "s2 = snd (run (error_rate_branch sr now p cur native) [] s1)"
  define s3 where "s3 = snd (run (register_failure_branch now p cur ?recent) [] s2)"
  define s4 where "s4 = snd (run (recovery_branches env now p cur native ?recent unloaded) [] s3)"
  have native: "HasCapability s1 ?i ''status_mgmt'' = native"
    unfolding native_def s1_def by (rule capability_cong) (rule run_branches_overrides)
  have run: "snd (run (generic_status env sr now p r unloaded) [] s) = snd (run (drain_branch env p) [] s4)"
    using assms(2)
    by (simp add: generic_status_def Let_def run_bindp split_beta native s1_def [symmetric] s2_def [symmetric]
        s3_def [symmetric] s4_def [symmetric])
  have s3: "status_of s3 j = (if j = ?i \<and> cur = StatusOnline \<and> st = cur
      then Some (generic_next now native p ?recent unloaded cur) else status_of s j)" for j
    using assms(1) unfolding s3_def s2_def s1_def run_branches by (auto simp: generic_next_def)
  have s4: "status_of s4 j = (if j = ?i then Some (if st = cur
      then generic_next now native p ?recent unloaded cur else StatusDegraded) else status_of s j)"
  proof (cases "cur = StatusOnline")
    case True
    then have "s4 = s3" by (simp add: s4_def recovery_branches_def)
    then show ?thesis using assms(1,3) True s3 by auto
  next
    case False
    then have "status_of s3 ?i = Some cur" using assms(1,3) s3 by auto
    from run_recovery [OF this] show ?thesis using False assms(3) s3
      by (auto simp: s4_def split: WorkspaceStatus.split)
  qed
  show ?thesis unfolding run run_drain s4 native_def by simp
qed

subsection \<open>The specification of one beat of a platform agent\<close>

definition past :: "duration \<Rightarrow> time \<Rightarrow> time option \<Rightarrow> bool" where
  "past d now since = (case since of None \<Rightarrow> False | Some t \<Rightarrow> now - t \<ge> d)"

text \<open>The beat of an online agent does not show the management tools it should have.\<close>

definition tools_gone :: "HeartbeatPayload \<Rightarrow> bool \<Rightarrow> bool" where
  "tools_gone p declared =
    (hb_MCPServerPresent p = Some True \<and> \<not> mcpToolsReady p
     \<and> (hb_MCPToolsReady p \<noteq> None \<or> hb_LoadedMCPTools p = None \<or> declared \<and> \<not> provisionToolLoaded p))"

definition platform_next :: "time \<Rightarrow> bool \<Rightarrow> bool \<Rightarrow> bool \<Rightarrow> HeartbeatPayload \<Rightarrow> ws_row \<Rightarrow> WorkspaceStatus" where
  "platform_next now native hasModel declared p r =
    (if \<not> hasModel \<or> hb_MCPServerPresent p = Some False then StatusFailed
     else if wr_status r = StatusOnline then
       if tools_gone p declared \<and> past managementMCPUnloadedGrace now (wr_unloaded_since r) then StatusDegraded
       else generic_next now native p (hasRecentRegisterFailure now r) False StatusOnline
     else if \<not> recoverable (wr_status r) then wr_status r
     else if \<not> conciergeUnhealthy now p r \<and> (hb_MCPServerPresent p = None \<or> mcpSurfaceSelfReported p) then StatusOnline
     else if wr_status r = StatusProvisioning \<and> past conciergeWarmupFailGrace now (wr_unloaded_since r) then StatusDegraded
     else wr_status r)"

definition declares_management :: "string \<Rightarrow> reg_state \<Rightarrow> bool" where
  "declares_management i s = (conciergePlatformMCPName \<in> set (listDeclaredPlugins i s))"

lemma grace_pos: "managementMCPUnloadedGrace > 0" "conciergeWarmupFailGrace > 0"
  by (simp_all add: managementMCPUnloadedGrace_def conciergeWarmupFailGrace_def duration_defs)

lemma run_clear_stamp:
  "fst (run (clear_stamp now p r) [] s) = False"
  "status_of (snd (run (clear_stamp now p r) [] s)) j = status_of s j"
  "rs_overrides (snd (run (clear_stamp now p r) [] s)) = rs_overrides s"
  by (simp_all add: clear_stamp_def statement_simps)

lemma run_grace:
  assumes "status_of s (hb_WorkspaceID p) = Some StatusOnline"
  shows "fst (run (probe_negative env now p r) [] s) = True"
    and "fst (run (tools_missing env now p r a) [] s) = True"
    and "status_of (snd (run (probe_negative env now p r) [] s)) j =
      (if j = hb_WorkspaceID p \<and> past managementMCPUnloadedGrace now (wr_unloaded_since r) then Some StatusDegraded else status_of s j)"
    and "status_of (snd (run (tools_missing env now p r a) [] s)) j =
      (if j = hb_WorkspaceID p \<and> past managementMCPUnloadedGrace now (wr_unloaded_since r) then Some StatusDegraded else status_of s j)"
    and "rs_overrides (snd (run (probe_negative env now p r) [] s)) = rs_overrides s"
    and "rs_overrides (snd (run (tools_missing env now p r a) [] s)) = rs_overrides s"
  using assms grace_pos
  by (cases "wr_unloaded_since r";
      auto simp: probe_negative_def tools_missing_def first_unloaded_def Let_def statement_simps run_hooks past_def)+

lemma run_platform_online:
  assumes "status_of s (hb_WorkspaceID p) = Some StatusOnline"
  shows "fst (run (platform_online env now p r err) [] s) = tools_gone p (declares_management (hb_WorkspaceID p) s)"
    and "status_of (snd (run (platform_online env now p r err) [] s)) j =
      (if j = hb_WorkspaceID p \<and> tools_gone p (declares_management (hb_WorkspaceID p) s)
          \<and> past managementMCPUnloadedGrace now (wr_unloaded_since r)
       then Some StatusDegraded else status_of s j)"
    and "rs_overrides (snd (run (platform_online env now p r err) [] s)) = rs_overrides s"
  by (cases "hb_LoadedMCPTools p";
      auto simp: platform_online_def tools_listed_def platformAgentManagementMCPLoaded_def run_clear_stamp run_grace [OF assms]
        tools_gone_def declares_management_def provisionToolLoaded_def split: bool.split)+

lemma run_warming:
  assumes "status_of s (hb_WorkspaceID p) = Some StatusProvisioning"
  shows "status_of (snd (run (warming_hold env now p r) [] s)) j =
    (if j = hb_WorkspaceID p \<and> past conciergeWarmupFailGrace now (wr_unloaded_since r) then Some StatusDegraded else status_of s j)"
  using assms grace_pos
  by (cases "wr_unloaded_since r")
     (auto simp: warming_hold_def first_unloaded_def Let_def statement_simps run_hooks past_def)

lemma run_promotes:
  assumes "status_of s (hb_WorkspaceID p) = Some cur"
  shows "status_of (snd (run (promote_legacy env now p cur) [] s)) j =
      (if j = hb_WorkspaceID p then Some StatusOnline else status_of s j)"
    and "status_of (snd (run (promote_reported env now p surface cur) [] s)) j =
      (if j = hb_WorkspaceID p then Some StatusOnline else status_of s j)"
proof -
  show "status_of (snd (run (promote_legacy env now p cur) [] s)) j =
      (if j = hb_WorkspaceID p then Some StatusOnline else status_of s j)"
    using assms by (auto simp: promote_legacy_def run_promotion statement_simps)
  have "status_of (fst (update_rows (\<lambda>r. wr_id r = hb_WorkspaceID p \<and> wr_status r = cur)
      (\<lambda>r. r\<lparr>wr_status := StatusOnline, wr_unloaded_since := None, wr_updated := now\<rparr>) s)) j =
      (if j = hb_WorkspaceID p then Some StatusOnline else status_of s j)"
    using assms
    by (subst status_update_at [where g = "\<lambda>_. StatusOnline" and P = "\<lambda>st. st = cur"]) auto
  then show "status_of (snd (run (promote_reported env now p surface cur) [] s)) j =
      (if j = hb_WorkspaceID p then Some StatusOnline else status_of s j)"
    by (simp add: promote_reported_def run_promotion)
qed

lemma run_not_online:
  assumes "status_of s (hb_WorkspaceID p) = Some (wr_status r)" and "wr_status r \<noteq> StatusOnline"
    and "hb_MCPServerPresent p \<noteq> Some False"
  shows "status_of (snd (run (platform_not_online env now p surface r) [] s)) j =
    (if j = hb_WorkspaceID p then Some (platform_next now native True declared p r) else status_of s j)"
  using assms
  by (auto simp: platform_not_online_def platform_next_def run_promotes run_warming)

lemma run_mark_failed:
  assumes "status_of s i = Some st"
  shows "status_of (snd (run (markWorkspaceFailed now i msg reason (Ret ())) [] s)) j =
    (if j = i then Some StatusFailed else status_of s j)"
proof -
  have "status_of (fst (update_rows (\<lambda>r. wr_id r = i \<and> True)
      (\<lambda>r. r\<lparr>wr_status := StatusFailed, wr_sample_error := msg, wr_updated := now\<rparr>) t)) j =
      (if j = i then Some StatusFailed else status_of t j)" if "status_of t i = Some st" for t
    using that by (subst status_update_at [where g = "\<lambda>_. StatusFailed" and P = "\<lambda>_. True"]) auto
  from this [of "logged x s" for x] show ?thesis using assms by (simp add: markWorkspaceFailed_def)
qed

lemma run_recovery_hook:
  "\<exists>t. run (fireReconcileMCPRecovery env now i q) [] s = run q [] t \<and> (\<forall>j. status_of t j = status_of s j)"
  unfolding fireReconcileMCPRecovery_def
  by (cases "re_reconcile env \<and> i \<noteq> []"; cases "rs_mcp_fire s i") (auto intro!: exI [of _ s] exI)

lemma run_platform:
  assumes "status_of s (hb_WorkspaceID p) = Some (wr_status r)"
  shows "status_of (snd (run (platform_status env sr err now p surface r) [] s)) j =
    (if j = hb_WorkspaceID p
     then Some (platform_next now (HasCapability s (hb_WorkspaceID p) ''status_mgmt'')
       (platformAgentHasModelSecret (hb_WorkspaceID p) s) (declares_management (hb_WorkspaceID p) s) p r)
     else status_of s j)"
proof -
  let ?i = "hb_WorkspaceID p"
  consider (model) "\<not> platformAgentHasModelSecret ?i s"
    | (mcp) "platformAgentHasModelSecret ?i s" "hb_MCPServerPresent p = Some False"
    | (off) "platformAgentHasModelSecret ?i s" "hb_MCPServerPresent p \<noteq> Some False" "wr_status r \<noteq> StatusOnline"
    | (on) "platformAgentHasModelSecret ?i s" "hb_MCPServerPresent p \<noteq> Some False" "wr_status r = StatusOnline"
    by blast
  then show ?thesis
  proof cases
    case model
    then show ?thesis
      by (simp add: platform_status_def Let_def platform_next_def run_mark_failed [OF assms])
  next
    case mcp
    obtain t where t: "run (fireReconcileMCPRecovery env now ?i (markWorkspaceFailed now ?i mcp_message ''mcp_server_missing'' (Ret ()))) [] s
        = run (markWorkspaceFailed now ?i mcp_message ''mcp_server_missing'' (Ret ())) [] t" "\<forall>j. status_of t j = status_of s j"
      using run_recovery_hook by blast
    with mcp assms show ?thesis
      by (simp add: platform_status_def Let_def platform_next_def platformAgentMCPServerPresent_def run_mark_failed)
  next
    case off
    have "platformAgentMCPServerPresent (hb_MCPServerPresent p)" using off(2)
      by (cases "hb_MCPServerPresent p") (auto simp: platformAgentMCPServerPresent_def)
    with off run_not_online [OF assms off(3,2), where native = "HasCapability s ?i ''status_mgmt''"
        and declared = "declares_management ?i s"]
    show ?thesis by (simp add: platform_status_def Let_def)
  next
    case on
    have present: "platformAgentMCPServerPresent (hb_MCPServerPresent p)" using on(2)
      by (cases "hb_MCPServerPresent p") (auto simp: platformAgentMCPServerPresent_def)
    have st: "status_of s ?i = Some StatusOnline" using assms on(3) by simp
    define t where "t = snd (run (platform_online env now p r err) [] s)"
    define gone where "gone = (tools_gone p (declares_management ?i s) \<and> past managementMCPUnloadedGrace now (wr_unloaded_since r))"
    have t: "status_of t j = (if j = ?i \<and> gone then Some StatusDegraded else status_of s j)" for j
      unfolding t_def gone_def by (simp add: run_platform_online [OF st])
    have "HasCapability t ?i ''status_mgmt'' = HasCapability s ?i ''status_mgmt''"
      unfolding t_def by (rule capability_cong) (rule run_platform_online(3) [OF st])
    moreover have "status_of t ?i = Some (if gone then StatusDegraded else StatusOnline)" using t st by simp
    ultimately have "status_of (snd (run (generic_status env sr now p r (tools_gone p (declares_management ?i s))) [] t)) j =
        (if j = ?i then Some (if gone then StatusDegraded
           else generic_next now (HasCapability s ?i ''status_mgmt'') p (hasRecentRegisterFailure now r) False StatusOnline)
         else status_of s j)"
      using run_generic [of t p "if gone then StatusDegraded else StatusOnline" r StatusOnline env sr now
          "tools_gone p (declares_management ?i s)" j] on(3) t
      by (auto simp: generic_next_def)
    then show ?thesis
      using on present run_platform_online(1) [OF st, of env now r err]
      by (simp add: platform_status_def Let_def run_bindp split_beta t_def [symmetric] platform_next_def gone_def)
  qed
qed

subsection \<open>The status after a beat\<close>

definition beat_next :: "time \<Rightarrow> HeartbeatPayload \<Rightarrow> reg_state \<Rightarrow> ws_row \<Rightarrow> WorkspaceStatus" where
  "beat_next now p s r =
    (let i = hb_WorkspaceID p; native = HasCapability s i ''status_mgmt'' in
     if wr_kind r = KindPlatform
     then platform_next now native (platformAgentHasModelSecret i s) (declares_management i s) p r
     else generic_next now native p (hasRecentRegisterFailure now r) False (wr_status r))"

lemma run_evaluateStatus:
  assumes "row s (hb_WorkspaceID p) = Some r"
  shows "status_of (snd (run (evaluateStatus env sr err now p surface) [] s)) j =
    (if j = hb_WorkspaceID p then Some (beat_next now p s r) else status_of s j)"
proof -
  have st: "status_of s (hb_WorkspaceID p) = Some (wr_status r)" using assms by (simp add: status_of_def)
  show ?thesis
    using run_platform [OF st, of env sr err now surface]
      run_generic [OF st, where r = r and cur = "wr_status r" and env = env and sr = sr and now = now and unloaded = False]
      assms
    by (simp add: evaluateStatus_def beat_next_def Let_def)
qed


subsection \<open>Example states\<close>

definition blank_beat :: "string \<Rightarrow> HeartbeatPayload" where
  "blank_beat i = \<lparr>hb_WorkspaceID = i, hb_ErrorRate = 0, hb_SampleError = [], hb_ActiveTasks = 0, hb_IsBusy = None,
    hb_UptimeSeconds = 0, hb_CurrentTask = [], hb_MonthlySpend = 0, hb_ObservedGeneration = None, hb_RuntimeState = [],
    hb_RuntimeMetadata = None, hb_AgentCard = None, hb_MCPServerPresent = None, hb_LoadedMCPTools = None,
    hb_MCPToolsReady = None\<rparr>"

definition plain_env :: reg_env where
  "plain_env = \<lparr>re_reconcile = True, re_restore = True, re_greeter = True, re_settler = True, re_drain = True,
    re_fail_closed = False, re_provisioner = True\<rparr>"

lemmas blank_defs = blank_row_def blank_state_def blank_beat_def plain_env_def


subsection \<open>Beats of an agent that never gets ready\<close>

definition unready :: "HeartbeatPayload \<Rightarrow> bool" where
  "unready p = (hb_MCPServerPresent p = Some True \<and> \<not> mcpSurfaceSelfReported p)"

fun beats ::
  "reg_env \<Rightarrow> (rat \<Rightarrow> string) \<Rightarrow> string \<Rightarrow> (time \<times> HeartbeatPayload \<times> mcpSurfaceVerdict option) list \<Rightarrow> reg_state \<Rightarrow> reg_state" where
  "beats env sr err [] s = s"
| "beats env sr err ((now, p, surface) # bs) s = beats env sr err bs (snd (run (evaluateStatus env sr err now p surface) [] s))"

definition warming_row :: "time \<Rightarrow> ws_row \<Rightarrow> ws_row" where
  "warming_row now r =
    (let since = (case wr_unloaded_since r of None \<Rightarrow> now | Some t \<Rightarrow> t); r1 = r\<lparr>wr_unloaded_since := Some since\<rparr> in
     if now - since \<ge> conciergeWarmupFailGrace
     then r1\<lparr>wr_status := StatusDegraded, wr_sample_error := warmup_message, wr_updated := now\<rparr>
     else if wr_unloaded_since r = None then r1\<lparr>wr_updated := now\<rparr> else r1)"

lemma run_recovery_rows:
  "rs_rows (snd (run (fireReconcileMCPRecovery env now i (Ret x)) [] s)) = rs_rows s"
  "rs_secrets (snd (run (fireReconcileMCPRecovery env now i (Ret x)) [] s)) = rs_secrets s"
  by (simp_all add: fireReconcileMCPRecovery_def)

lemma row_warming:
  assumes "row s (hb_WorkspaceID p) = Some r" and "wr_status r = StatusProvisioning"
  shows "row (snd (run (warming_hold env now p r) [] s)) (hb_WorkspaceID p) = Some (warming_row now r)"
    and "rs_secrets (snd (run (warming_hold env now p r) [] s)) = rs_secrets s"
  using assms grace_pos row_id [OF assms(1)]
  by (cases "wr_unloaded_since r";
      auto simp: warming_hold_def first_unloaded_def Let_def warming_row_def run_recovery_rows stamp_unloaded_def
        degrade_with_def find_update_rows)+

lemma beat_unready:
  assumes "row s (hb_WorkspaceID p) = Some r" and "wr_kind r = KindPlatform" and "(hb_WorkspaceID p, ''MODEL'') \<in> set (rs_secrets s)"
    and "unready p"
  shows "wr_status r = StatusProvisioning \<Longrightarrow> row (snd (run (evaluateStatus env sr err now p surface) [] s)) (hb_WorkspaceID p) = Some (warming_row now r)"
    and "wr_status r = StatusDegraded \<Longrightarrow> row (snd (run (evaluateStatus env sr err now p surface) [] s)) (hb_WorkspaceID p) = Some r"
    and "wr_status r \<in> {StatusProvisioning, StatusDegraded} \<Longrightarrow> rs_secrets (snd (run (evaluateStatus env sr err now p surface) [] s)) = rs_secrets s"
  using assms(1-4) row_warming [OF assms(1)]
  by (auto simp: evaluateStatus_def platform_status_def Let_def platformAgentHasModelSecret_def unready_def
      platformAgentMCPServerPresent_def platform_not_online_def recoverable_def)

lemma warming_row_simps [simp]:
  "wr_kind (warming_row now r) = wr_kind r" "wr_id (warming_row now r) = wr_id r"
  by (auto simp: warming_row_def Let_def)

lemma beats_degraded:
  assumes "row s i = Some r" "wr_kind r = KindPlatform" "(i, ''MODEL'') \<in> set (rs_secrets s)" "wr_status r = StatusDegraded"
    and "\<forall>(t, p, v) \<in> set bs. hb_WorkspaceID p = i \<and> unready p"
  shows "status_of (beats env sr err bs s) i = Some StatusDegraded"
  using assms
proof (induction env sr err bs s rule: beats.induct)
  case (1 env sr err s)
  then show ?case by (simp add: status_of_def)
next
  case (2 env sr err now p surface bs s)
  then show ?case using beat_unready(2,3) [of p s r env sr err now surface] by auto
qed

lemma beats_warming:
  assumes "row s i = Some r" "wr_kind r = KindPlatform" "(i, ''MODEL'') \<in> set (rs_secrets s)"
    "wr_status r = StatusProvisioning" "wr_unloaded_since r = Some t0"
    and "\<forall>(t, p, v) \<in> set bs. hb_WorkspaceID p = i \<and> unready p"
  shows "status_of (beats env sr err bs s) i =
    Some (if \<exists>(t, _) \<in> set bs. t - t0 \<ge> conciergeWarmupFailGrace then StatusDegraded else StatusProvisioning)"
  using assms
proof (induction env sr err bs s arbitrary: r rule: beats.induct)
  case (1 env sr err s)
  then show ?case by (simp add: status_of_def)
next
  case (2 env sr err now p surface bs s)
  let ?s = "snd (run (evaluateStatus env sr err now p surface) [] s)"
  have p: "hb_WorkspaceID p = i" "unready p" using 2 by auto
  have row: "row ?s i = Some (warming_row now r)" and sec: "(i, ''MODEL'') \<in> set (rs_secrets ?s)"
    using beat_unready(1,3) [of p s r env sr err now surface] 2 p by auto
  show ?case
  proof (cases "now - t0 \<ge> conciergeWarmupFailGrace")
    case True
    then have "wr_status (warming_row now r) = StatusDegraded" using 2 by (simp add: warming_row_def)
    from beats_degraded [OF row _ sec this] True 2 show ?thesis by (auto simp: case_prod_beta)
  next
    case False
    then have "wr_status (warming_row now r) = StatusProvisioning" "wr_unloaded_since (warming_row now r) = Some t0"
      using 2 by (auto simp: warming_row_def)
    from "2.IH" [OF row _ sec this] False 2 show ?thesis by (simp add: case_prod_beta)
  qed
qed

text \<open>
  C25: A platform agent that keeps beating but never reports its tools is held in provisioning,
  and is degraded by the first of its beats that comes 300 seconds or more after the first one;
  it is not held for ever and is not degraded before.
\<close>

theorem warming_bounded:
  assumes "row s i = Some r" and "wr_kind r = KindPlatform" and "(i, ''MODEL'') \<in> set (rs_secrets s)"
    and "wr_status r = StatusProvisioning" and "wr_unloaded_since r = None"
    and "\<forall>(t, p, v) \<in> set ((t0, p0, v0) # bs). hb_WorkspaceID p = i \<and> unready p"
  shows "status_of (beats env sr err ((t0, p0, v0) # bs) s) i =
    Some (if \<exists>(t, _) \<in> set bs. t \<ge> t0 + 300 * second then StatusDegraded else StatusProvisioning)"
proof -
  let ?s = "snd (run (evaluateStatus env sr err t0 p0 v0) [] s)"
  have p: "hb_WorkspaceID p0 = i" "unready p0" using assms(6) by auto
  have row: "row ?s i = Some (warming_row t0 r)" and sec: "(i, ''MODEL'') \<in> set (rs_secrets ?s)"
    using beat_unready(1,3) [of p0 s r env sr err t0 v0] assms p by auto
  have "wr_status (warming_row t0 r) = StatusProvisioning" "wr_unloaded_since (warming_row t0 r) = Some t0"
    using assms(4,5) grace_pos by (auto simp: warming_row_def)
  from beats_warming [OF row _ sec this] assms(2,6) show ?thesis
    by (simp add: conciergeWarmupFailGrace_def le_diff_eq add.commute)
qed

lemma warming_bounded_witness:
  "status_of (beats plain_env (\<lambda>_. []) []
      [(0, (blank_beat ''c'')\<lparr>hb_MCPServerPresent := Some True\<rparr>, None),
       (300 * second, (blank_beat ''c'')\<lparr>hb_MCPServerPresent := Some True\<rparr>, None)]
      ((blank_state [(blank_row ''c'')\<lparr>wr_kind := KindPlatform\<rparr>])\<lparr>rs_secrets := [(''c'', ''MODEL'')]\<rparr>)) ''c''
    = Some StatusDegraded"
  by (subst warming_bounded [where r = "(blank_row ''c'')\<lparr>wr_kind := KindPlatform\<rparr>"])
     (simp_all add: blank_defs sql_find_Cons unready_def mcpSurfaceSelfReported_def mcpToolsReady_def provisionToolLoaded_def)

end
