(* ===== verification/Agent_Url.thy ===== *)
theory Agent_Url
  imports Core_Prelude "HOL-Library.Word"
begin

text \<open>
  The checks of a URL before the platform stores it or sends to it
  (\<^verbatim>\<open>internal/handlers/ssrf.go\<close>; \<open>validateAgentURL\<close>, \<open>isPlatformTunnelHostname\<close>,
  \<open>saasMode\<close> and \<open>isProvisionerHostPortURL\<close> of \<^verbatim>\<open>internal/handlers/registry.go\<close>).

  An address is a word of 32 or 128 bits; an IPv4-mapped IPv6 address is the IPv4 address, as
  \<open>To4\<close> makes it. \<open>nv_parse\<close> is \<open>url.Parse\<close> with the scheme and \<open>Hostname()\<close> of the result,
  \<open>nv_ip\<close> is \<open>net.ParseIP\<close>, \<open>nv_host\<close> and \<open>nv_lookup\<close> are the name lookups \<open>net.LookupHost\<close>
  and \<open>net.LookupIP\<close>; the other fields are environment variables.
\<close>

unbundle bit_operations_syntax

subsection \<open>Addresses\<close>

datatype net_ip = IP4 "32 word" | IP6 "128 word"

datatype net_cidr = Net4 "32 word" nat | Net6 "128 word" nat

text \<open>The network of an address and a prefix length.\<close>

fun Contains :: "net_cidr \<Rightarrow> net_ip \<Rightarrow> bool" where
  "Contains (Net4 base len) (IP4 a) = (drop_bit (32 - len) a = drop_bit (32 - len) base)"
| "Contains (Net6 base len) (IP6 a) = (drop_bit (128 - len) a = drop_bit (128 - len) base)"
| "Contains _ _ = False"

definition quad :: "nat \<Rightarrow> nat \<Rightarrow> nat \<Rightarrow> nat \<Rightarrow> 32 word" where
  "quad a b c d = of_nat (((a * 256 + b) * 256 + c) * 256 + d)"

text \<open>An IPv6 base given by its first two groups of 16 bits.\<close>

definition six :: "nat \<Rightarrow> nat \<Rightarrow> 128 word" where
  "six a b = push_bit 96 (of_nat (a * 65536 + b))"

definition metadataV4 :: net_cidr where "metadataV4 = Net4 (quad 169 254 0 0) 16"
definition cgnatV4 :: net_cidr where "cgnatV4 = Net4 (quad 100 64 0 0) 10"
definition privateV4 :: "net_cidr list" where
  "privateV4 = [Net4 (quad 10 0 0 0) 8, Net4 (quad 172 16 0 0) 12, Net4 (quad 192 168 0 0) 16]"
definition docRangesV4 :: "net_cidr list" where
  "docRangesV4 = [Net4 (quad 192 0 2 0) 24, Net4 (quad 198 51 100 0) 24, Net4 (quad 203 0 113 0) 24]"
definition ulaV6 :: net_cidr where "ulaV6 = Net6 (six 0xfc00 0) 7"
definition fd00V6 :: net_cidr where "fd00V6 = Net6 (six 0xfd00 0) 8"
definition loopbackV4 :: net_cidr where "loopbackV4 = Net4 (quad 127 0 0 0) 8"
definition linkLocalV6 :: net_cidr where "linkLocalV6 = Net6 (six 0xfe80 0) 10"

text \<open>The predicates of \<open>net.IP\<close>.\<close>

fun IsLoopback :: "net_ip \<Rightarrow> bool" where
  "IsLoopback (IP4 a) = Contains loopbackV4 (IP4 a)"
| "IsLoopback (IP6 a) = (a = 1)"

fun IsUnspecified :: "net_ip \<Rightarrow> bool" where
  "IsUnspecified (IP4 a) = (a = 0)"
| "IsUnspecified (IP6 a) = (a = 0)"

fun IsLinkLocalUnicast :: "net_ip \<Rightarrow> bool" where
  "IsLinkLocalUnicast (IP4 a) = Contains metadataV4 (IP4 a)"
| "IsLinkLocalUnicast (IP6 a) = Contains linkLocalV6 (IP6 a)"

fun IsLinkLocalMulticast :: "net_ip \<Rightarrow> bool" where
  "IsLinkLocalMulticast (IP4 a) = Contains (Net4 (quad 224 0 0 0) 24) (IP4 a)"
| "IsLinkLocalMulticast (IP6 a) = (drop_bit 120 a = 0xff \<and> (drop_bit 112 a) AND 0x0f = 2)"

fun IsInterfaceLocalMulticast :: "net_ip \<Rightarrow> bool" where
  "IsInterfaceLocalMulticast (IP4 a) = False"
| "IsInterfaceLocalMulticast (IP6 a) = (drop_bit 120 a = 0xff \<and> (drop_bit 112 a) AND 0x0f = 1)"

fun IsPrivate :: "net_ip \<Rightarrow> bool" where
  "IsPrivate (IP4 a) = list_ex (\<lambda>n. Contains n (IP4 a)) privateV4"
| "IsPrivate (IP6 a) = Contains ulaV6 (IP6 a)"

subsection \<open>The environment\<close>

record net_env =
  nv_molecule_env :: string
  nv_deploy_mode :: string
  nv_org_id :: string
  nv_app_domain :: string
  nv_parse :: "string \<Rightarrow> (string \<times> string) option"
  nv_ip :: "string \<Rightarrow> net_ip option"
  nv_host :: "string \<Rightarrow> string list option"
  nv_lookup :: "string \<Rightarrow> net_ip list option"

definition devModeAllowsLoopback :: "net_env \<Rightarrow> bool" where
  "devModeAllowsLoopback e = (let v = ascii_lower (TrimSpace (nv_molecule_env e)) in v = ''development'' \<or> v = ''dev'')"

definition saasMode :: "net_env \<Rightarrow> bool" where
  "saasMode e =
    (let trimmed = TrimSpace (nv_deploy_mode e) in
     if trimmed \<noteq> [] then ascii_lower trimmed = ''saas''
     else TrimSpace (nv_org_id e) \<noteq> [])"

definition has_prefix :: "string \<Rightarrow> string \<Rightarrow> bool" where
  "has_prefix p s = (take (length p) s = p)"

definition has_suffix :: "string \<Rightarrow> string \<Rightarrow> bool" where
  "has_suffix p s = (length p \<le> length s \<and> drop (length s - length p) s = p)"

definition trim_dot :: "string \<Rightarrow> string" where
  "trim_dot s = (if s \<noteq> [] \<and> last s = CHR ''.'' then butlast s else s)"

definition isPlatformTunnelHostname :: "net_env \<Rightarrow> string \<Rightarrow> bool" where
  "isPlatformTunnelHostname e h =
    (let h = ascii_lower (trim_dot h);
         d = ascii_lower (TrimSpace (nv_app_domain e));
         domain = ascii_lower (trim_dot (if d = [] then ''moleculesai.app'' else d))
     in has_prefix ''ws-'' h \<and> has_suffix (''.'' @ domain) h)"

definition isProvisionerHostPortURL :: "string \<Rightarrow> bool" where
  "isProvisionerHostPortURL u =
    (if u = [] \<or> \<not> (has_prefix ''http://127.0.0.1:'' u \<or> has_prefix ''http://localhost:'' u) then False
     else let port = last (split_on CHR '':'' u)
          in case (if port = [] then None else atoi port) of None \<Rightarrow> False | Some n \<Rightarrow> n \<noteq> 8000)"

subsection \<open>Checks\<close>

definition isPrivateOrMetadataIP :: "net_env \<Rightarrow> net_ip \<Rightarrow> bool" where
  "isPrivateOrMetadataIP e ip =
    (let saas = saasMode e \<or> devModeAllowsLoopback e in
     case ip of
       IP4 a \<Rightarrow>
         if Contains metadataV4 ip \<or> list_ex (\<lambda>n. Contains n ip) docRangesV4 \<or> Contains cgnatV4 ip then True
         else if list_ex (\<lambda>n. Contains n ip) privateV4 then \<not> saas
         else False
     | IP6 a \<Rightarrow>
         if IsLoopback ip \<and> \<not> devModeAllowsLoopback e \<or> IsLinkLocalUnicast ip then True
         else if Contains ulaV6 ip then \<not> (saas \<and> Contains fd00V6 ip)
         else False)"

definition forbidden_ip :: "net_env \<Rightarrow> net_ip \<Rightarrow> bool" where
  "forbidden_ip e ip =
    (IsLoopback ip \<and> \<not> devModeAllowsLoopback e \<or> IsUnspecified ip \<or> IsLinkLocalUnicast ip \<or> IsLinkLocalMulticast ip
     \<or> IsInterfaceLocalMulticast ip \<or> isPrivateOrMetadataIP e ip)"

datatype url_error = InvalidURL | ForbiddenScheme | EmptyHost | BlockedIP | Unresolved

definition web_scheme :: "string \<Rightarrow> bool" where
  "web_scheme s = (s = ''http'' \<or> s = ''https'')"

definition isSafeURL :: "net_env \<Rightarrow> string \<Rightarrow> url_error option" where
  "isSafeURL e rawURL =
    (case nv_parse e rawURL of
       None \<Rightarrow> Some InvalidURL
     | Some (scheme, host) \<Rightarrow>
         if \<not> web_scheme scheme then Some ForbiddenScheme
         else if host = [] then Some EmptyHost
         else case nv_ip e host of
             Some ip \<Rightarrow> if forbidden_ip e ip then Some BlockedIP else None
           | None \<Rightarrow>
              (case nv_host e host of
                 None \<Rightarrow> Some Unresolved
               | Some addrs \<Rightarrow>
                   if addrs = [] then Some Unresolved
                   else if list_ex (\<lambda>a. case nv_ip e a of None \<Rightarrow> False | Some ip \<Rightarrow> forbidden_ip e ip) addrs
                   then Some BlockedIP else None))"

definition blockedRanges :: "net_env \<Rightarrow> net_cidr list" where
  "blockedRanges e =
    [metadataV4, linkLocalV6] @ docRangesV4 @
    [cgnatV4, Net4 (quad 224 0 0 0) 4, Net6 (six 0xfc00 0) 8, Net6 (six 0x2001 0xdb8) 32] @
    (if devModeAllowsLoopback e then [] else [loopbackV4, Net6 1 128]) @
    (if saasMode e then [] else privateV4 @ [fd00V6])"

definition checkIP :: "net_env \<Rightarrow> net_ip \<Rightarrow> bool" where
  "checkIP e ip = (\<not> list_ex (\<lambda>n. Contains n ip) (blockedRanges e))"

definition validateAgentURL :: "net_env \<Rightarrow> string \<Rightarrow> url_error option" where
  "validateAgentURL e rawURL =
    (if rawURL = [] then Some EmptyHost
     else case nv_parse e rawURL of
       None \<Rightarrow> Some InvalidURL
     | Some (scheme, host) \<Rightarrow>
         if \<not> web_scheme scheme then Some ForbiddenScheme
         else case nv_ip e host of
             Some ip \<Rightarrow> if checkIP e ip then None else Some BlockedIP
           | None \<Rightarrow>
               if host = ''localhost'' then None
               else case nv_lookup e host of
                   None \<Rightarrow> if saasMode e \<and> isPlatformTunnelHostname e host then None else Some Unresolved
                 | Some ips \<Rightarrow> if list_all (checkIP e) ips then None else Some BlockedIP)"

definition containerNameForWorkspace :: "string \<Rightarrow> string" where
  "containerNameForWorkspace workspaceID = ''ws-'' @ workspaceID"

definition legacyContainerNameForWorkspace :: "string \<Rightarrow> string" where
  "legacyContainerNameForWorkspace workspaceID = ''ws-'' @ take 12 workspaceID"

definition isExternalAgentURL :: "net_env \<Rightarrow> string \<Rightarrow> string \<Rightarrow> bool" where
  "isExternalAgentURL e workspaceID agentURL =
    (case nv_parse e agentURL of
       None \<Rightarrow> False
     | Some (scheme, host) \<Rightarrow>
         if host = [] \<or> host = containerNameForWorkspace workspaceID \<or> host = legacyContainerNameForWorkspace workspaceID
            \<or> isPlatformTunnelHostname e host then False
         else case nv_ip e host of
             Some ip \<Rightarrow> \<not> (IsLoopback ip \<or> IsUnspecified ip \<or> IsLinkLocalUnicast ip \<or> IsLinkLocalMulticast ip
                \<or> IsInterfaceLocalMulticast ip \<or> IsPrivate ip \<or> isPrivateOrMetadataIP e ip)
           | None \<Rightarrow> True)"

subsection \<open>What an accepted URL can reach\<close>

text \<open>
  The addresses a request to an accepted URL may reach: the literal address, or those the name
  resolves to. Two hosts are accepted without looking at addresses: \<open>localhost\<close> by
  \<open>validateAgentURL\<close>, and a tunnel host of the platform whose name does not resolve yet.
\<close>

definition targets :: "net_env \<Rightarrow> string \<Rightarrow> net_ip set" where
  "targets e host =
    (case nv_ip e host of
       Some ip \<Rightarrow> {ip}
     | None \<Rightarrow> (case nv_lookup e host of None \<Rightarrow> {} | Some ips \<Rightarrow> set ips))"

definition host_targets :: "net_env \<Rightarrow> string \<Rightarrow> net_ip set" where
  "host_targets e host =
    (case nv_ip e host of
       Some ip \<Rightarrow> {ip}
     | None \<Rightarrow> (case nv_host e host of None \<Rightarrow> {} | Some as \<Rightarrow> {ip. \<exists>a \<in> set as. nv_ip e a = Some ip}))"

definition always_blocked :: "net_env \<Rightarrow> net_ip \<Rightarrow> bool" where
  "always_blocked e ip =
    (Contains metadataV4 ip \<or> Contains linkLocalV6 ip \<or> Contains cgnatV4 ip \<or> list_ex (\<lambda>n. Contains n ip) docRangesV4
     \<or> IsLoopback ip \<and> \<not> devModeAllowsLoopback e
     \<or> IsPrivate ip \<and> \<not> saasMode e \<and> \<not> devModeAllowsLoopback e)"

lemma loopback_six: "Contains (Net6 1 128) (IP6 a) \<longleftrightarrow> a = 1"
  by simp

lemma ula_tops:
  "drop_bit 121 (six 0xfc00 0) = 126" "drop_bit 120 (six 0xfc00 0) = 252" "drop_bit 120 (six 0xfd00 0) = 253"
  by (simp_all add: six_def push_bit_eq_mult word_unat_eq_iff unat_drop_bit_eq drop_bit_eq_div)

lemma halves: "drop_bit 1 (x :: 128 word) = 126 \<Longrightarrow> x = 252 \<or> x = 253"
proof -
  assume "drop_bit 1 x = 126"
  then have "unat (drop_bit 1 x) = 126" by simp
  then have "drop_bit 1 (unat x) = 126" by (simp only: unat_drop_bit_eq)
  then have "unat x div 2 = 126" by (simp add: drop_bit_eq_div)
  then have "unat x = 252 \<or> unat x = 253" by linarith
  then show ?thesis by (simp add: word_unat_eq_iff)
qed

lemma ula_split:
  assumes "Contains ulaV6 (IP6 a)"
  shows "Contains (Net6 (six 0xfc00 0) 8) (IP6 a) \<or> Contains fd00V6 (IP6 a)"
proof -
  have "drop_bit 1 (drop_bit 120 a) = 126" using assms by (simp add: ulaV6_def ula_tops)
  from halves [OF this] show ?thesis by (simp add: fd00V6_def ula_tops)
qed

lemma contains_cross:
  "\<not> Contains metadataV4 (IP6 a)" "\<not> Contains cgnatV4 (IP6 a)" "\<not> list_ex (\<lambda>n. Contains n (IP6 a)) docRangesV4"
  "\<not> Contains linkLocalV6 (IP4 b)" "Contains (Net6 1 128) (IP6 a) = (a = 1)"
  by (simp_all add: metadataV4_def cgnatV4_def docRangesV4_def linkLocalV6_def)

declare Contains.simps [simp del]

lemma forbidden_covers:
  assumes "always_blocked e ip \<or> IsUnspecified ip"
  shows "forbidden_ip e ip"
  using assms
  by (cases ip; simp add: always_blocked_def forbidden_ip_def isPrivateOrMetadataIP_def Let_def contains_cross; blast)

lemma checkIP_covers: "checkIP e ip \<Longrightarrow> \<not> always_blocked e ip"
proof (cases ip)
  case (IP4 a)
  assume "checkIP e ip"
  with IP4 show ?thesis by (simp add: always_blocked_def checkIP_def blockedRanges_def contains_cross split: if_splits)
next
  case (IP6 a)
  assume "checkIP e ip"
  with IP6 ula_split [of a] show ?thesis
    by (simp add: always_blocked_def checkIP_def blockedRanges_def contains_cross split: if_splits) blast+
qed

lemma unspecified_free: "\<not> list_ex (\<lambda>n. Contains n (IP4 0)) (blockedRanges e)"
proof -
  have "Contains (Net4 (of_nat k) len) (IP4 0) = False" if "len \<le> 32" "2 ^ (32 - len) \<le> k" "k < 2 ^ 32" for len k :: nat
  proof -
    have "unat (of_nat k :: 32 word) = k" using that(3) by (simp add: unat_of_nat take_bit_nat_eq_self)
    then have "unat (drop_bit (32 - len) (of_nat k :: 32 word)) = k div 2 ^ (32 - len)"
      by (simp add: unat_drop_bit_eq del: drop_bit_eq_div) (simp add: drop_bit_eq_div)
    also have "\<dots> \<noteq> 0" using that(2) by (simp add: div_eq_0_iff)
    finally show ?thesis by (auto simp: Contains.simps)
  qed
  from this [of _ "numeral n" for n]
  have "Contains (Net4 (numeral n) len) (IP4 0) = False"
    if "len \<le> 32" "2 ^ (32 - len) \<le> (numeral n :: nat)" "(numeral n :: nat) < 2 ^ 32" for len n
    using that by simp
  then show ?thesis
    by (simp add: blockedRanges_def metadataV4_def linkLocalV6_def docRangesV4_def cgnatV4_def loopbackV4_def
        privateV4_def fd00V6_def quad_def Contains.simps(3,4))
qed

lemma isSafeURL_accepts:
  assumes "isSafeURL e u = None"
  shows "\<exists>scheme host. nv_parse e u = Some (scheme, host) \<and> web_scheme scheme \<and> host \<noteq> []
    \<and> (\<forall>ip \<in> host_targets e host. \<not> always_blocked e ip \<and> \<not> IsUnspecified ip)"
proof -
  obtain scheme host where u: "nv_parse e u = Some (scheme, host)" "web_scheme scheme" "host \<noteq> []"
    using assms by (auto simp: isSafeURL_def split: option.splits if_splits)
  have "\<forall>ip \<in> host_targets e host. \<not> forbidden_ip e ip"
    using assms u by (auto simp: isSafeURL_def host_targets_def list_ex_iff split: option.splits if_splits)
  with u show ?thesis using forbidden_covers by blast
qed

lemma validateAgentURL_accepts:
  assumes "validateAgentURL e u = None"
  shows "\<exists>scheme host. nv_parse e u = Some (scheme, host) \<and> web_scheme scheme
    \<and> (host = ''localhost'' \<and> nv_ip e host = None
       \<or> nv_lookup e host = None \<and> nv_ip e host = None \<and> saasMode e \<and> isPlatformTunnelHostname e host
       \<or> (\<forall>ip \<in> targets e host. \<not> always_blocked e ip))"
proof -
  obtain scheme host where u: "nv_parse e u = Some (scheme, host)" "web_scheme scheme"
    using assms by (auto simp: validateAgentURL_def split: option.splits if_splits)
  have "host = ''localhost'' \<and> nv_ip e host = None
       \<or> nv_lookup e host = None \<and> nv_ip e host = None \<and> saasMode e \<and> isPlatformTunnelHostname e host
       \<or> (\<forall>ip \<in> targets e host. checkIP e ip)"
    using assms u by (cases "nv_ip e host"; cases "nv_lookup e host")
      (simp_all add: validateAgentURL_def targets_def list_all_iff split: if_splits)
  with u show ?thesis using checkIP_covers by blast
qed

lemma unspecified_verdicts:
  assumes "nv_parse e u = Some (''http'', host)" "u \<noteq> []" "host \<noteq> []" "nv_ip e host = Some (IP4 0)"
  shows "validateAgentURL e u = None" "isSafeURL e u = Some BlockedIP"
  using assms unspecified_free [of e]
  by (simp_all add: validateAgentURL_def isSafeURL_def web_scheme_def checkIP_def forbidden_ip_def)


definition plain_net :: net_env where
  "plain_net = \<lparr>nv_molecule_env = [], nv_deploy_mode = [], nv_org_id = [], nv_app_domain = [],
    nv_parse = (\<lambda>u. if u = ''http://0.0.0.0'' then Some (''http'', ''0.0.0.0'') else None),
    nv_ip = (\<lambda>h. if h = ''0.0.0.0'' then Some (IP4 0) else None), nv_host = (\<lambda>_. None), nv_lookup = (\<lambda>_. None)\<rparr>"


end
