(* ===== verification/Registry.thy ===== *)
theory Registry
  imports Heartbeat_Status Agent_Url
begin

text \<open>
  The endpoints an agent calls (\<^verbatim>\<open>internal/handlers/registry.go\<close>): \<open>Register\<close>,
  \<open>Heartbeat\<close> and \<open>UpdateCard\<close> with the token gate in front of them, and the identity an
  agent card gets (\<^verbatim>\<open>internal/handlers/agent_card_reconcile.go\<close>), as programs of the
  statements they send.

  A request body that does not bind is \<open>None\<close>. A card is the JSON value the request carries;
  \<open>renum\<close> is what a number becomes when a card is decoded into \<open>any\<close> and encoded again.
  Log lines are left out; the read behind them (\<open>existingState\<close>) stays, because its kind
  decides a branch.
\<close>

subsection \<open>Calls\<close>

record RegisterPayload =
  rp_ID :: string
  rp_URL :: string
  rp_AgentCard :: json
  rp_DeliveryMode :: string
  rp_Kind :: string
  rp_MCPServerPresent :: "bool option"

text \<open>
  What a call brings along: the time, its \<open>Authorization\<close> header, the hash of tokens, the id a
  new token row gets, and the random bytes for a token and for the secret.
\<close>

record reg_call =
  rc_now :: time
  rc_auth :: string
  rc_sha :: "string \<Rightarrow> string"
  rc_fresh :: string
  rc_token_rnd :: "string option"
  rc_secret_rnd :: "string option"

datatype register_reply = RegRejected int string | RegUrlRejected url_error | Registered string "string option" "string option"

datatype beat_reply = BeatRejected int string | BeatOk int "string option"

datatype card_reply = CardRejected int string | CardUpdated

definition EventTaskUpdated :: string where "EventTaskUpdated = ''TASK_UPDATED''"
definition EventWorkspaceHeartbeat :: string where "EventWorkspaceHeartbeat = ''WORKSPACE_HEARTBEAT''"
definition EventAgentCardUpdated :: string where "EventAgentCardUpdated = ''AGENT_CARD_UPDATED''"

subsection \<open>The token gate\<close>

definition tokens_of :: "reg_state \<Rightarrow> token_db" where
  "tokens_of s = \<lparr>td_workspaces = map (\<lambda>r. \<lparr>wn_id = wr_id r, wn_parent = wr_parent r, wn_name = wr_name r,
      wn_status = status_text (wr_status r)\<rparr>) (rs_rows s),
    td_tokens = rs_tokens s, td_org_tokens = [], td_audit = []\<rparr>"

definition has_live_instance :: "string \<Rightarrow> (token_error + bool \<Rightarrow> 'r handler) \<Rightarrow> 'r handler" where
  "has_live_instance i k = attempt (\<lambda>fails s. (s, HasLiveInstanceToken Some fails i (tokens_of s))) k"

text \<open>\<open>ValidateToken\<close>, its lookup and its update of \<open>last_used_at\<close> as two statements.\<close>

definition validate_token :: "reg_call \<Rightarrow> string \<Rightarrow> string \<Rightarrow> (bool \<Rightarrow> 'r handler) \<Rightarrow> 'r handler" where
  "validate_token c i token k =
    (if token = [] \<or> i = [] then k False
     else attempt (\<lambda>fails s. (s, lookupTokenByHash fails (rc_sha c token) (tokens_of s))) (\<lambda>res.
       case res of
         Inl _ \<Rightarrow> k False
       | Inr (tokenID, workspaceID) \<Rightarrow>
           if workspaceID \<noteq> i then k False
           else attempt (\<lambda>fails s. (s\<lparr>rs_tokens := td_tokens (bump_token fails (rc_now c) tokenID (tokens_of s))\<rparr>, ()))
             (\<lambda>_. k True)))"

text \<open>The continuation gets the refusal, \<open>None\<close> when the request may go on.\<close>

definition requireWorkspaceToken ::
  "reg_env \<Rightarrow> reg_call \<Rightarrow> string \<Rightarrow> ((int \<times> string) option \<Rightarrow> 'r handler) \<Rightarrow> 'r handler" where
  "requireWorkspaceToken env c i k =
    has_live_instance i (\<lambda>res.
      case res of
        Inl _ \<Rightarrow> if \<not> re_fail_closed env then k None else k (Some (503, ''cannot verify workspace credentials''))
      | Inr hasLive \<Rightarrow>
          if \<not> hasLive then k None
          else let token = BearerTokenFromHeader (rc_auth c) in
            if token = [] then k (Some (401, ''missing workspace auth token''))
            else validate_token c i token (\<lambda>valid.
              if valid then k None
              else has_live_instance i (\<lambda>res.
                case res of
                  Inr False \<Rightarrow> k None
                | _ \<Rightarrow> k (Some (401, ''invalid workspace auth token'')))))"

subsection \<open>Agent cards\<close>

definition agentCardURL :: "json \<Rightarrow> string" where
  "agentCardURL agentCard =
    (case agentCard of JObj m \<Rightarrow> (case obj_get m ''url'' of Some (JStr u) \<Rightarrow> TrimSpace u | _ \<Rightarrow> []) | _ \<Rightarrow> [])"

definition obj_put :: "(string \<times> json) list \<Rightarrow> string \<Rightarrow> json \<Rightarrow> (string \<times> json) list" where
  "obj_put m k v = filter (\<lambda>kv. fst kv \<noteq> k) m @ [(k, v)]"

definition str_member :: "(string \<times> json) list \<Rightarrow> string \<Rightarrow> string" where
  "str_member m k = (case obj_get m k of Some (JStr s) \<Rightarrow> s | _ \<Rightarrow> [])"

fun renumber :: "(json \<Rightarrow> json) \<Rightarrow> json \<Rightarrow> json" where
  "renumber renum (JArr xs) = JArr (map (renumber renum) xs)"
| "renumber renum (JObj m) = JObj (map (\<lambda>(k, v). (k, renumber renum v)) m)"
| "renumber renum (JInt n) = renum (JInt n)"
| "renumber renum (JReal r) = renum (JReal r)"
| "renumber renum j = j"

definition reconcile_name :: "string \<Rightarrow> string \<Rightarrow> (string \<times> json) list \<Rightarrow> (string \<times> json) list \<times> bool" where
  "reconcile_name workspaceID dbName m =
    (let cardName = str_member m ''name'' in
     if (cardName = [] \<or> cardName = workspaceID) \<and> dbName \<noteq> [] \<and> dbName \<noteq> workspaceID
     then (obj_put m ''name'' (JStr dbName), True) else (m, False))"

definition reconcile_description :: "string \<Rightarrow> (string \<times> json) list \<Rightarrow> (string \<times> json) list \<times> bool" where
  "reconcile_description workspaceID m =
    (let n = str_member m ''name'' in
     if str_member m ''description'' = [] \<and> n \<noteq> [] \<and> n \<noteq> workspaceID
     then (obj_put m ''description'' (JStr n), True) else (m, False))"

definition reconcile_role :: "string \<Rightarrow> (string \<times> json) list \<Rightarrow> (string \<times> json) list \<times> bool" where
  "reconcile_role dbRole m =
    (if dbRole \<noteq> [] \<and> str_member m ''role'' = [] then (obj_put m ''role'' (JStr dbRole), True) else (m, False))"

definition reconcileAgentCardIdentity :: "(json \<Rightarrow> json) \<Rightarrow> json \<Rightarrow> string \<Rightarrow> string \<Rightarrow> string \<Rightarrow> json" where
  "reconcileAgentCardIdentity renum agentCard workspaceID dbName dbRole =
    (case agentCard of
       JObj m \<Rightarrow>
         (let (m1, c1) = reconcile_name workspaceID dbName m;
              (m2, c2) = reconcile_description workspaceID m1;
              (m3, c3) = reconcile_role dbRole m2
          in if c1 \<or> c2 \<or> c3 then renumber renum (JObj m3) else agentCard)
     | _ \<Rightarrow> agentCard)"


subsection \<open>Update card\<close>

text \<open>\<open>json.Unmarshal\<close> into a struct with the field \<open>url\<close>; \<open>None\<close> when it fails.\<close>

definition card_url_field :: "json \<Rightarrow> string option" where
  "card_url_field agentCard = decode_path [''url''] decode_string agentCard []"

definition card_url_refused :: "net_env \<Rightarrow> json \<Rightarrow> bool" where
  "card_url_refused net agentCard =
    (case card_url_field agentCard of None \<Rightarrow> False | Some u \<Rightarrow> u \<noteq> [] \<and> isSafeURL net u \<noteq> None)"

definition store_card :: "time \<Rightarrow> string \<Rightarrow> json \<Rightarrow> reg_state \<Rightarrow> reg_state \<times> nat" where
  "store_card now i agentCard = update_rows (\<lambda>r. wr_id r = i) (\<lambda>r. r\<lparr>wr_card := Some agentCard, wr_updated := now\<rparr>)"

definition UpdateCard :: "reg_env \<Rightarrow> net_env \<Rightarrow> reg_call \<Rightarrow> (string \<times> json) option \<Rightarrow> card_reply handler" where
  "UpdateCard env net c payload =
    (case payload of
       None \<Rightarrow> Ret (CardRejected 400 ''invalid request body'')
     | Some (workspaceID, agentCard) \<Rightarrow>
         requireWorkspaceToken env c workspaceID (\<lambda>refusal.
           case refusal of
             Some (code, msg) \<Rightarrow> Ret (CardRejected code msg)
           | None \<Rightarrow>
               if card_url_refused net agentCard then Ret (CardRejected 400 ''workspace URL not allowed'')
               else exec (store_card (rc_now c) workspaceID agentCard) (\<lambda>res.
                 case res of
                   None \<Rightarrow> Ret (CardRejected 500 ''failed to update card'')
                 | Some _ \<Rightarrow>
                     RecordAndBroadcast EventAgentCardUpdated workspaceID [(''agent_card'', agentCard)] (\<lambda>_. Ret CardUpdated))))"

subsection \<open>Heartbeat\<close>

definition clamp_spend :: "int \<Rightarrow> int" where
  "clamp_spend reported =
    (let spend = (if reported < 0 then 0 else reported) in if spend > maxMonthlySpend then maxMonthlySpend else spend)"

definition spend_delta :: "int \<Rightarrow> int \<Rightarrow> int" where
  "spend_delta spend prevSpend = (let delta = spend - prevSpend in if delta < 0 then spend else delta)"

text \<open>\<open>recordSpendDelta\<close>: the insert, and the prune after it.\<close>

definition insert_spend :: "time \<Rightarrow> string \<Rightarrow> int \<Rightarrow> reg_state \<Rightarrow> reg_state \<times> unit" where
  "insert_spend now i delta s =
    (s\<lparr>rs_spend := rs_spend s @ [\<lparr>se_workspace = i, se_delta = delta, se_at = now\<rparr>]\<rparr>, ())"

definition prune_spend :: "time \<Rightarrow> string \<Rightarrow> reg_state \<Rightarrow> reg_state \<times> unit" where
  "prune_spend now i s =
    (s\<lparr>rs_spend := filter (\<lambda>e. \<not> (se_workspace e = i \<and> se_at e < now - spendLedgerRetention)) (rs_spend s)\<rparr>, ())"

definition record_spend :: "time \<Rightarrow> string \<Rightarrow> int \<Rightarrow> int \<Rightarrow> 'r handler \<Rightarrow> 'r handler" where
  "record_spend now i spend prevSpend p =
    (if spend > 0 \<and> spend_delta spend prevSpend > 0
     then exec (insert_spend now i (spend_delta spend prevSpend)) (\<lambda>res.
       case res of None \<Rightarrow> p | Some _ \<Rightarrow> exec (prune_spend now i) (\<lambda>_. p))
     else p)"

definition beat_columns :: "time \<Rightarrow> HeartbeatPayload \<Rightarrow> ws_row \<Rightarrow> ws_row" where
  "beat_columns now p r =
    r\<lparr>wr_heartbeat := Some now, wr_error_rate := hb_ErrorRate p, wr_sample_error := hb_SampleError p,
      wr_active_tasks := hb_ActiveTasks p, wr_uptime := hb_UptimeSeconds p, wr_current_task := hb_CurrentTask p,
      wr_monthly_spend := (if clamp_spend (hb_MonthlySpend p) > 0 then clamp_spend (hb_MonthlySpend p) else wr_monthly_spend r),
      wr_is_busy := (case hb_IsBusy p of None \<Rightarrow> hb_ActiveTasks p > 0 | Some b \<Rightarrow> b),
      wr_status := (if wr_status r = StatusProvisioning \<and> wr_kind r \<noteq> KindPlatform then StatusOnline else wr_status r),
      wr_updated := now\<rparr>"

definition live_update :: "string \<Rightarrow> (ws_row \<Rightarrow> ws_row) \<Rightarrow> reg_state \<Rightarrow> reg_state \<times> nat" where
  "live_update i f = update_rows (\<lambda>r. wr_id r = i \<and> wr_status r \<noteq> StatusRemoved) f"

definition beat_tools :: "time \<Rightarrow> HeartbeatPayload \<Rightarrow> (mcpSurfaceVerdict option \<Rightarrow> 'r handler) \<Rightarrow> 'r handler" where
  "beat_tools now p k =
    (case hb_LoadedMCPTools p of
       None \<Rightarrow> k None
     | Some tools \<Rightarrow>
         exec (live_update (hb_WorkspaceID p) (\<lambda>r. r\<lparr>wr_loaded_tools := Some tools, wr_updated := now\<rparr>)) (\<lambda>_.
         recordMCPSurfaceCorroboration now (hb_WorkspaceID p) tools k))"

definition beat_generation :: "reg_env \<Rightarrow> time \<Rightarrow> HeartbeatPayload \<Rightarrow> int \<Rightarrow> 'r handler \<Rightarrow> 'r handler" where
  "beat_generation env now p desiredGen q =
    (case hb_ObservedGeneration p of
       None \<Rightarrow> q
     | Some g \<Rightarrow>
         exec (live_update (hb_WorkspaceID p) (\<lambda>r. r\<lparr>wr_observed := max (wr_observed r) g, wr_updated := now\<rparr>)) (\<lambda>_.
         if g \<ge> desiredGen then fireWakeSettled env (hb_WorkspaceID p) g q else q))"

definition beat_card :: "HeartbeatPayload \<Rightarrow> 'r handler \<Rightarrow> 'r handler" where
  "beat_card p q =
    (case hb_AgentCard p of
       None \<Rightarrow> q
     | Some agentCard \<Rightarrow>
         exec (update_rows (\<lambda>r. wr_id r = hb_WorkspaceID p \<and> wr_card r = None) (\<lambda>r. r\<lparr>wr_card := Some agentCard\<rparr>)) (\<lambda>_.
         exec (update_rows (\<lambda>r. wr_id r = hb_WorkspaceID p \<and> wr_register_failure r \<noteq> None)
           (\<lambda>r. r\<lparr>wr_register_failure := None\<rparr>)) (\<lambda>_. q)))"

definition beat_broadcasts :: "HeartbeatPayload \<Rightarrow> string \<Rightarrow> 'r handler \<Rightarrow> 'r handler" where
  "beat_broadcasts p prevTask q =
    (let i = hb_WorkspaceID p;
         beat = BroadcastOnlyEvent i EventWorkspaceHeartbeat
           [(''active_tasks'', JInt (hb_ActiveTasks p)), (''uptime_seconds'', JInt (hb_UptimeSeconds p))] q
     in if hb_CurrentTask p \<noteq> prevTask
        then BroadcastOnlyEvent i EventTaskUpdated
          [(''current_task'', JStr (hb_CurrentTask p)), (''active_tasks'', JInt (hb_ActiveTasks p))] beat
        else beat)"

definition beat_overrides :: "HeartbeatPayload \<Rightarrow> 'r handler \<Rightarrow> 'r handler" where
  "beat_overrides p q =
    (let i = hb_WorkspaceID p;
         idle = (case hb_RuntimeMetadata p of
             Some m \<Rightarrow> (case rm_IdleTimeoutSeconds m of Some n \<Rightarrow> int64 (n * second) | None \<Rightarrow> 0)
           | None \<Rightarrow> 0);
         caps = (case hb_RuntimeMetadata p of Some m \<Rightarrow> rm_Capabilities m | None \<Rightarrow> [])
     in effect (SetIdleTimeout i idle) (effect (SetCapabilities i caps) q))"

text \<open>The columns the beat reads first; a failed read and a missing row leave their zero values.\<close>

record prev_beat =
  pb_task :: string
  pb_spend :: int
  pb_status :: "WorkspaceStatus option"
  pb_desired :: int

definition read_prev :: "string \<Rightarrow> (prev_beat \<Rightarrow> 'r handler) \<Rightarrow> 'r handler" where
  "read_prev i k = query (\<lambda>s. row s i) (\<lambda>res.
    k (case res of
         Some (Some r) \<Rightarrow> \<lparr>pb_task = wr_current_task r, pb_spend = wr_monthly_spend r, pb_status = Some (wr_status r),
           pb_desired = wr_desired r\<rparr>
       | _ \<Rightarrow> \<lparr>pb_task = [], pb_spend = 0, pb_status = None, pb_desired = 0\<rparr>))"

definition beat_rest ::
  "reg_env \<Rightarrow> (rat \<Rightarrow> string) \<Rightarrow> string \<Rightarrow> reg_call \<Rightarrow> HeartbeatPayload \<Rightarrow> prev_beat \<Rightarrow> beat_reply handler" where
  "beat_rest env show_rate lookup_error c p prev =
    (let i = hb_WorkspaceID p; now = rc_now c in
     beat_tools now p (\<lambda>surface.
     beat_generation env now p (pb_desired prev)
     ((if pb_status prev = Some StatusProvisioning then fireReconcileOnline env i else id)
     (beat_card p
     (RefreshTTL now i (\<lambda>_.
     bindp (evaluateStatus env show_rate lookup_error now p surface) (\<lambda>_.
     beat_broadcasts p (pb_task prev)
     (beat_overrides p
     (readOrLazyHealInboundSecret (rc_secret_rnd c) now i (\<lambda>secret.
      Ret (BeatOk (pb_desired prev) (if secret = Some [] then None else secret)))))))))))) "

definition Heartbeat ::
  "reg_env \<Rightarrow> (rat \<Rightarrow> string) \<Rightarrow> string \<Rightarrow> reg_call \<Rightarrow> HeartbeatPayload option \<Rightarrow> beat_reply handler" where
  "Heartbeat env show_rate lookup_error c payload =
    (case payload of
       None \<Rightarrow> Ret (BeatRejected 400 ''invalid request body'')
     | Some p \<Rightarrow>
         requireWorkspaceToken env c (hb_WorkspaceID p) (\<lambda>refusal.
           case refusal of
             Some (code, msg) \<Rightarrow> Ret (BeatRejected code msg)
           | None \<Rightarrow>
               read_prev (hb_WorkspaceID p) (\<lambda>prev.
               record_spend (rc_now c) (hb_WorkspaceID p) (clamp_spend (hb_MonthlySpend p)) (pb_spend prev)
               (exec (live_update (hb_WorkspaceID p) (beat_columns (rc_now c) p)) (\<lambda>res.
                 case res of
                   None \<Rightarrow> Ret (BeatRejected 500 ''failed to update'')
                 | Some _ \<Rightarrow> beat_rest env show_rate lookup_error c p prev)))))"


subsection \<open>Register\<close>

definition resolveDeliveryMode :: "string \<Rightarrow> string \<Rightarrow> (string option \<Rightarrow> 'r handler) \<Rightarrow> 'r handler" where
  "resolveDeliveryMode workspaceID payloadMode k =
    (if payloadMode \<noteq> [] then k (Some payloadMode)
     else query (\<lambda>s. row s workspaceID) (\<lambda>res.
       case res of
         None \<Rightarrow> k None
       | Some None \<Rightarrow> k (Some DeliveryModePush)
       | Some (Some r) \<Rightarrow>
           (case wr_mode r of
              Some m \<Rightarrow> if m \<noteq> [] then k (Some m)
                else if (case wr_runtime r of Some rt \<Rightarrow> isExternalLikeRuntime rt | None \<Rightarrow> False) then k (Some DeliveryModePoll)
                else k (Some DeliveryModePush)
            | None \<Rightarrow>
                if (case wr_runtime r of Some rt \<Rightarrow> isExternalLikeRuntime rt | None \<Rightarrow> False) then k (Some DeliveryModePoll)
                else k (Some DeliveryModePush))))"

text \<open>
  What \<open>CAST(substring(url FROM ':([0-9]+)$') AS int) <> 8000\<close> says of a loopback URL; \<open>None\<close>
  when the port does not fit a 32-bit integer and the statement fails.
\<close>

definition keeps_stored_url :: "string option \<Rightarrow> bool option" where
  "keeps_stored_url url =
    (case url of
       None \<Rightarrow> Some False
     | Some u \<Rightarrow>
         if u = [] \<or> \<not> (has_prefix ''http://127.0.0.1:'' u \<or> has_prefix ''http://localhost:'' u) then Some False
         else let port = last (split_on CHR '':'' u) in
           if port = [] \<or> \<not> list_all is_digit port then Some False
           else case atoi port of
               Some n \<Rightarrow> if n < 2 ^ 31 then Some (n \<noteq> 8000) else None
             | None \<Rightarrow> None)"

datatype upsert_result = Upserted | PlatformRootViolation | UpsertFailed

definition root_violation :: "reg_state \<Rightarrow> string \<Rightarrow> string option \<Rightarrow> string \<Rightarrow> bool" where
  "root_violation s i parent kind =
    (kind = KindPlatform \<and> (parent \<noteq> None \<or> list_ex (\<lambda>r. wr_kind r = KindPlatform \<and> wr_id r \<noteq> i) (rs_rows s)))"

text \<open>The columns of the insert; the others take the defaults of the schema.\<close>

definition registered_row :: "time \<Rightarrow> string \<Rightarrow> string option \<Rightarrow> json \<Rightarrow> string \<Rightarrow> string \<Rightarrow> ws_row" where
  "registered_row now i url agentCard mode kind =
    \<lparr>wr_id = i, wr_name = i, wr_role = None, wr_parent = None, wr_kind = kind, wr_runtime = Some ''hermes'',
     wr_status = (if kind = KindPlatform then StatusProvisioning else StatusOnline), wr_url = url, wr_mode = Some mode,
     wr_card = Some agentCard, wr_heartbeat = Some now, wr_outbound = None, wr_updated = now, wr_register_failure = None,
     wr_unloaded_since = None, wr_error_rate = 0, wr_sample_error = [], wr_active_tasks = 0, wr_is_busy = False,
     wr_uptime = 0, wr_current_task = [], wr_monthly_spend = 0, wr_max_concurrent = 1, wr_desired = 0, wr_observed = 0,
     wr_idle_minutes = None, wr_loaded_tools = None, wr_surface = None, wr_instance = None, wr_tier = 1, wr_template = []\<rparr>"

definition reregistered ::
  "time \<Rightarrow> string option \<Rightarrow> bool \<Rightarrow> json \<Rightarrow> string \<Rightarrow> string \<Rightarrow> ws_row \<Rightarrow> ws_row" where
  "reregistered now url keep agentCard mode kind r =
    r\<lparr>wr_url := (if keep then wr_url r else url), wr_card := Some agentCard,
      wr_status := (if wr_kind r = KindPlatform then wr_status r else StatusOnline),
      wr_heartbeat := Some now, wr_mode := Some mode, wr_kind := (if kind = [] then wr_kind r else kind), wr_updated := now\<rparr>"

definition dormant :: "WorkspaceStatus \<Rightarrow> bool" where
  "dormant st = (st \<in> {StatusRemoved, StatusPaused, StatusHibernated})"

definition register_upsert ::
  "time \<Rightarrow> string \<Rightarrow> string option \<Rightarrow> json \<Rightarrow> string \<Rightarrow> string \<Rightarrow> reg_state \<Rightarrow> reg_state \<times> upsert_result" where
  "register_upsert now i url agentCard mode kind s =
    (case row s i of
       None \<Rightarrow>
         let k = (if kind = [] then KindWorkspace else kind) in
         if root_violation s i None k then (s, PlatformRootViolation)
         else (s\<lparr>rs_rows := rs_rows s @ [registered_row now i url agentCard mode k]\<rparr>, Upserted)
     | Some r \<Rightarrow>
         if dormant (wr_status r) then (s, Upserted)
         else case keeps_stored_url (wr_url r) of
             None \<Rightarrow> (s, UpsertFailed)
           | Some keep \<Rightarrow>
               if root_violation s i (wr_parent r) (if kind = [] then wr_kind r else kind) then (s, PlatformRootViolation)
               else (fst (update_rows (\<lambda>r. wr_id r = i) (reregistered now url keep agentCard mode kind) s), Upserted))"

definition platform_precheck :: "RegisterPayload \<Rightarrow> ((int \<times> string) option \<Rightarrow> 'r handler) \<Rightarrow> 'r handler" where
  "platform_precheck p k =
    (if rp_Kind p \<noteq> KindPlatform then k None
     else query (\<lambda>s. map_option wr_kind (row s (rp_ID p))) (\<lambda>res.
       case res of
         None \<Rightarrow> k (Some (500, ''registration failed''))
       | Some existing \<Rightarrow>
           if existing = Some KindPlatform then k None
           else k (Some (403, ''kind='platform' may only be assigned by the platform-agent install path''))))"

definition register_no_model :: string where
  "register_no_model = ''platform agent registered without a seeded MODEL secret; refusing online''"

definition register_no_mcp :: string where
  "register_no_mcp = ''platform agent registered without its management MCP server (mcp_server_present=false); refusing online''"

definition identity_gate ::
  "reg_env \<Rightarrow> time \<Rightarrow> RegisterPayload \<Rightarrow> string option \<Rightarrow> ((int \<times> string) option \<Rightarrow> 'r handler) \<Rightarrow> 'r handler" where
  "identity_gate env now p existingKind k =
    (let i = rp_ID p; incomplete = k (Some (400, ''platform agent identity incomplete'')) in
     if rp_Kind p \<noteq> KindPlatform \<and> existingKind \<noteq> Some KindPlatform then k None
     else query (platformAgentHasModelSecret i) (\<lambda>res.
       case res of
         None \<Rightarrow> k (Some (500, ''registration failed''))
       | Some hasModel \<Rightarrow>
           if \<not> hasModel then markWorkspaceFailed now i register_no_model ''model_missing'' incomplete
           else if \<not> platformAgentMCPServerPresent (rp_MCPServerPresent p)
           then fireReconcileMCPRecovery env now i (markWorkspaceFailed now i register_no_mcp ''mcp_server_missing'' incomplete)
           else k None))"

text \<open>The URL a push-mode workspace is reached at, or the refusal.\<close>

definition push_url :: "net_env \<Rightarrow> RegisterPayload \<Rightarrow> register_reply + string" where
  "push_url net p =
    (let cardURL = agentCardURL (rp_AgentCard p);
         effectiveURL = (if rp_URL p = [] then cardURL else rp_URL p)
     in if cardURL \<noteq> [] \<and> isSafeURL net cardURL \<noteq> None then Inl (RegRejected 400 ''workspace agent_card URL not allowed'')
        else if effectiveURL = [] then Inl (RegRejected 400 ''url is required for push-mode workspaces'')
        else case validateAgentURL net effectiveURL of
            Some e \<Rightarrow> Inl (RegUrlRejected e)
          | None \<Rightarrow> Inr effectiveURL)"

definition register_url :: "net_env \<Rightarrow> RegisterPayload \<Rightarrow> string \<Rightarrow> register_reply + string" where
  "register_url net p mode = (if mode = DeliveryModePush then push_url net p else Inr (rp_URL p))"

definition reconcile_card :: "(json \<Rightarrow> json) \<Rightarrow> RegisterPayload \<Rightarrow> (json \<Rightarrow> 'r handler) \<Rightarrow> 'r handler" where
  "reconcile_card renum p k =
    query (\<lambda>s. row s (rp_ID p)) (\<lambda>res.
      case res of
        Some (Some r) \<Rightarrow> k (reconcileAgentCardIdentity renum (rp_AgentCard p) (rp_ID p) (wr_name r)
          (case wr_role r of None \<Rightarrow> [] | Some role \<Rightarrow> role))
      | _ \<Rightarrow> k (rp_AgentCard p))"

definition prev_status_read :: "reg_env \<Rightarrow> string \<Rightarrow> (WorkspaceStatus option \<Rightarrow> 'r handler) \<Rightarrow> 'r handler" where
  "prev_status_read env i k =
    (if re_reconcile env \<or> re_greeter env
     then query (\<lambda>s. status_of s i) (\<lambda>res. k (case res of Some st \<Rightarrow> st | None \<Rightarrow> None))
     else k None)"

definition cache_urls :: "RegisterPayload \<Rightarrow> string \<Rightarrow> (string \<Rightarrow> 'r handler) \<Rightarrow> 'r handler" where
  "cache_urls p effectiveURL k =
    query (\<lambda>s. case row s (rp_ID p) of None \<Rightarrow> None | Some r \<Rightarrow> wr_url r) (\<lambda>res.
      let cachedURL = (case res of
              Some (Some dbURL) \<Rightarrow> if isProvisionerHostPortURL dbURL then dbURL else effectiveURL
            | _ \<Rightarrow> effectiveURL);
          internal = (if rp_URL p \<noteq> [] then CacheInternalURL (rp_ID p) (rp_URL p) (\<lambda>_. k cachedURL) else k cachedURL)
      in if cachedURL \<noteq> [] then CacheURL (rp_ID p) cachedURL (\<lambda>_. internal) else internal)"

definition announce_register ::
  "reg_env \<Rightarrow> RegisterPayload \<Rightarrow> string \<Rightarrow> json \<Rightarrow> string \<Rightarrow> WorkspaceStatus option \<Rightarrow> 'r handler \<Rightarrow> 'r handler" where
  "announce_register env p cachedURL agentCard mode prev q =
    query (\<lambda>s. row s (rp_ID p)) (\<lambda>res.
      if (case res of Some (Some r) \<Rightarrow> holdOnlineBroadcastForWarmingPlatform (wr_kind r) (wr_status r) | _ \<Rightarrow> False) then q
      else RecordAndBroadcast EventWorkspaceOnline (rp_ID p)
        [(''url'', JStr cachedURL), (''agent_card'', agentCard), (''delivery_mode'', JStr mode)] (\<lambda>_.
        if prev = Some StatusProvisioning then fireFirstBootGreeting env (rp_ID p) 0 q else q))"

definition first_token :: "reg_call \<Rightarrow> string \<Rightarrow> (string option \<Rightarrow> 'r handler) \<Rightarrow> 'r handler" where
  "first_token c i k =
    has_live_instance i (\<lambda>res.
      case res of
        Inr False \<Rightarrow>
          attempt (\<lambda>fails s.
            case IssueToken (rc_sha c) Some fails (rc_fresh c) (rc_token_rnd c) (rc_now c) i (tokens_of s) of
              (res, db) \<Rightarrow> (s\<lparr>rs_tokens := td_tokens db\<rparr>, res)) (\<lambda>res.
            case res of Inr token \<Rightarrow> k (Some token) | Inl _ \<Rightarrow> k None)
      | _ \<Rightarrow> k None)"

definition register_failure_at :: "string \<Rightarrow> time option \<Rightarrow> reg_state \<Rightarrow> reg_state \<times> nat" where
  "register_failure_at i t = update_rows (\<lambda>r. wr_id r = i) (\<lambda>r. r\<lparr>wr_register_failure := t\<rparr>)"

definition register_online ::
  "reg_env \<Rightarrow> reg_call \<Rightarrow> RegisterPayload \<Rightarrow> string \<Rightarrow> string \<Rightarrow> json \<Rightarrow> WorkspaceStatus option
     \<Rightarrow> register_reply handler" where
  "register_online env c p mode effectiveURL agentCard prev =
    (let i = rp_ID p; now = rc_now c in
     SetOnline now i (\<lambda>_.
     (if prev = Some StatusProvisioning then fireReconcileOnline env i else id)
     (cache_urls p effectiveURL (\<lambda>cachedURL.
     announce_register env p cachedURL agentCard mode prev
     (first_token c i (\<lambda>token.
     readOrLazyHealInboundSecret (rc_secret_rnd c) now i (\<lambda>secret.
     exec (register_failure_at i None) (\<lambda>_. Ret (Registered mode token secret)))))))))"

definition register_store ::
  "reg_env \<Rightarrow> (json \<Rightarrow> json) \<Rightarrow> reg_call \<Rightarrow> RegisterPayload \<Rightarrow> string \<Rightarrow> string \<Rightarrow> register_reply handler" where
  "register_store env renum c p mode effectiveURL =
    reconcile_card renum p (\<lambda>agentCard.
    prev_status_read env (rp_ID p) (\<lambda>prev.
    exec (register_upsert (rc_now c) (rp_ID p) (if effectiveURL = [] then None else Some effectiveURL) agentCard mode (rp_Kind p))
      (\<lambda>res.
        case res of
          Some Upserted \<Rightarrow> register_online env c p mode effectiveURL agentCard prev
        | Some PlatformRootViolation \<Rightarrow> Ret (RegRejected 409
            ''a platform agent must be the org root (parent_id must be null) and there can be only one per org'')
        | _ \<Rightarrow> Ret (RegRejected 500 ''registration failed''))))"

definition register_checked ::
  "reg_env \<Rightarrow> net_env \<Rightarrow> (json \<Rightarrow> json) \<Rightarrow> reg_call \<Rightarrow> RegisterPayload \<Rightarrow> string option \<Rightarrow> register_reply handler" where
  "register_checked env net renum c p existingKind =
    resolveDeliveryMode (rp_ID p) (rp_DeliveryMode p) (\<lambda>mode.
      case mode of
        None \<Rightarrow> Ret (RegRejected 500 ''registration failed'')
      | Some effectiveMode \<Rightarrow>
          identity_gate env (rc_now c) p existingKind (\<lambda>refusal.
            case refusal of
              Some (code, msg) \<Rightarrow> Ret (RegRejected code msg)
            | None \<Rightarrow>
                (case register_url net p effectiveMode of
                   Inl reply \<Rightarrow> Ret reply
                 | Inr effectiveURL \<Rightarrow> register_store env renum c p effectiveMode effectiveURL)))"

definition register_admitted ::
  "reg_env \<Rightarrow> net_env \<Rightarrow> (json \<Rightarrow> json) \<Rightarrow> reg_call \<Rightarrow> RegisterPayload \<Rightarrow> string option \<Rightarrow> register_reply handler" where
  "register_admitted env net renum c p existingKind =
    platform_precheck p (\<lambda>refusal.
      case refusal of
        Some (code, msg) \<Rightarrow> Ret (RegRejected code msg)
      | None \<Rightarrow> register_checked env net renum c p existingKind)"

fun registered :: "register_reply \<Rightarrow> bool" where
  "registered (Registered _ _ _) = True"
| "registered _ = False"

definition Register ::
  "reg_env \<Rightarrow> net_env \<Rightarrow> (json \<Rightarrow> json) \<Rightarrow> reg_call \<Rightarrow> RegisterPayload option \<Rightarrow> register_reply handler" where
  "Register env net renum c payload =
    (case payload of
       None \<Rightarrow> Ret (RegRejected 400 ''invalid request body'')
     | Some p \<Rightarrow>
         if rp_DeliveryMode p \<noteq> [] \<and> \<not> IsValidDeliveryMode (rp_DeliveryMode p)
         then Ret (RegRejected 400 (''delivery_mode must be 'push' or 'poll'' @ [CHR 0x27]))
         else if rp_Kind p \<noteq> [] \<and> \<not> IsValidKind (rp_Kind p)
         then Ret (RegRejected 400 (''kind must be 'workspace' or 'platform'' @ [CHR 0x27]))
         else query (\<lambda>s. map_option wr_kind (row s (rp_ID p))) (\<lambda>existing.
           requireWorkspaceToken env c (rp_ID p) (\<lambda>refusal.
             case refusal of
               Some (code, msg) \<Rightarrow> Ret (RegRejected code msg)
             | None \<Rightarrow>
                 bindp (register_admitted env net renum c p (case existing of Some k \<Rightarrow> k | None \<Rightarrow> None)) (\<lambda>reply.
                   if registered reply then Ret reply
                   else exec (register_failure_at (rp_ID p) (Some (rc_now c))) (\<lambda>_. Ret reply)))))"


subsection \<open>Who may speak for a workspace\<close>

text \<open>The bearer of the call is a live token of the workspace.\<close>

definition owns :: "reg_call \<Rightarrow> string \<Rightarrow> reg_state \<Rightarrow> bool" where
  "owns c i s \<longleftrightarrow> (\<exists>t \<in> set (rs_tokens s). wt_workspace t = i
     \<and> wt_hash t = rc_sha c (BearerTokenFromHeader (rc_auth c)) \<and> live_row (tokens_of s) t)"

definition has_instance_token :: "string \<Rightarrow> reg_state \<Rightarrow> bool" where
  "has_instance_token i s \<longleftrightarrow> (\<exists>t \<in> set (rs_tokens s). wt_workspace t = i \<and> wt_kind t = ''instance'' \<and> wt_revoked t = None)"

lemma HasLive_iff: "HasLiveInstanceToken Some False i (tokens_of s) = Inr (has_instance_token i s)"
proof -
  have "sql_affected P xs > 0 \<longleftrightarrow> (\<exists>t \<in> set xs. P t)" for P :: "ws_token \<Rightarrow> bool" and xs
    using sql_affected_zero [of P xs] by auto
  then show ?thesis by (auto simp: HasLiveInstanceToken_def count_live_def has_instance_token_def tokens_of_def)
qed

lemma run_gate_refused:
  assumes "has_instance_token i s" and "\<not> owns c i s" and "re_fail_closed env \<or> \<not> fails_now fs"
  shows "\<exists>code msg gs. code \<in> {401, 503} \<and> run (requireWorkspaceToken env c i k) fs s = run (k (Some (code, msg))) gs s"
proof (cases "fails_now fs")
  case True
  with assms(3) have "run (requireWorkspaceToken env c i k) fs s
      = run (k (Some (503, ''cannot verify workspace credentials''))) (tl fs) s"
    by (simp add: requireWorkspaceToken_def has_live_instance_def run_any HasLiveInstanceToken_def)
  then show ?thesis by blast
next
  case False
  let ?token = "BearerTokenFromHeader (rc_auth c)"
  have live: "HasLiveInstanceToken Some b i (tokens_of s) \<noteq> Inr False" for b
    using assms(1) by (cases b) (simp_all add: HasLive_iff, simp add: HasLiveInstanceToken_def)
  have gate: "run (requireWorkspaceToken env c i k) fs s =
      (if ?token = [] then run (k (Some (401, ''missing workspace auth token''))) (tl fs) s
       else run (validate_token c i ?token (\<lambda>valid. if valid then k None
          else has_live_instance i (\<lambda>res. case res of Inr False \<Rightarrow> k None
            | _ \<Rightarrow> k (Some (401, ''invalid workspace auth token''))))) (tl fs) s)"
    using False assms(1) by (simp add: requireWorkspaceToken_def has_live_instance_def run_any HasLive_iff Let_def)
  have recheck: "\<exists>gs. run (has_live_instance i (\<lambda>res. case res of Inr False \<Rightarrow> k None
      | _ \<Rightarrow> k (Some (401, ''invalid workspace auth token'')))) hs s = run (k (Some (401, ''invalid workspace auth token''))) gs s" for hs
    using live by (auto simp: has_live_instance_def run_any split: sum.split bool.split)
  have "lookupTokenByHash b (rc_sha c ?token) (tokens_of s) \<noteq> Inr (tid, i)" for b tid
    using assms(2) by (auto simp: lookupTokenByHash_def owns_def tokens_of_def dest!: sql_find_Some_iff split: option.splits if_splits)
  then have validate: "\<exists>gs. run (validate_token c i ?token q) hs s = run (q False) gs s" for q :: "bool \<Rightarrow> 'a handler" and hs
    by (cases "lookupTokenByHash (fails_now hs) (rc_sha c ?token) (tokens_of s)") (auto simp: validate_token_def run_any)
  show ?thesis
  proof (cases "?token = []")
    case True
    then show ?thesis unfolding gate by auto
  next
    case False
    let ?q = "\<lambda>valid. if valid then k None else has_live_instance i (\<lambda>res. case res of Inr False \<Rightarrow> k None
      | _ \<Rightarrow> k (Some (401, ''invalid workspace auth token'')))"
    obtain gs where "run (validate_token c i ?token ?q) (tl fs) s = run (?q False) gs s" using validate by blast
    moreover obtain hs where "run (?q False) gs s = run (k (Some (401, ''invalid workspace auth token''))) hs s"
      using recheck [of gs] by auto
    ultimately have "run (requireWorkspaceToken env c i k) fs s = run (k (Some (401, ''invalid workspace auth token''))) hs s"
      unfolding gate using False by simp
    then show ?thesis by blast
  qed
qed



text \<open>A workspace with a credential, and a call that presents another one.\<close>

definition instance_key :: ws_token where
  "instance_key = \<lparr>wt_id = ''t'', wt_workspace = ''w'', wt_hash = ''secret'', wt_prefix = ''secr'', wt_kind = ''instance'',
    wt_created = 0, wt_revoked = None, wt_last_used = None\<rparr>"

definition keyed_state :: reg_state where
  "keyed_state = (blank_state [blank_row ''w''])\<lparr>rs_tokens := [instance_key]\<rparr>"

definition intruder :: reg_call where
  "intruder = \<lparr>rc_now = 1, rc_auth = ''Bearer x'', rc_sha = id, rc_fresh = ''u'', rc_token_rnd = None, rc_secret_rnd = None\<rparr>"

definition takeover :: RegisterPayload where
  "takeover = \<lparr>rp_ID = ''w'', rp_URL = ''http://evil.example'', rp_AgentCard = JObj [], rp_DeliveryMode = [], rp_Kind = [],
    rp_MCPServerPresent = None\<rparr>"


subsection \<open>The URL in a card\<close>

lemma decode_field_filter:
  "decode_field name dec (JObj kvs) acc = foldl (\<lambda>st (k, v). case st of None \<Rightarrow> None | Some x \<Rightarrow> dec v x) (Some acc)
    (filter (\<lambda>kv. fold_name (fst kv) = fold_name name) kvs)"
proof -
  have "foldl (\<lambda>st (k, v). case st of None \<Rightarrow> None | Some x \<Rightarrow> if fold_name k = fold_name name then dec v x else Some x) st kvs
    = foldl (\<lambda>st (k, v). case st of None \<Rightarrow> None | Some x \<Rightarrow> dec v x) st
        (filter (\<lambda>kv. fold_name (fst kv) = fold_name name) kvs)" for st
    by (induction kvs arbitrary: st) (auto split: option.split)
  then show ?thesis by (simp add: decode_field_def)
qed


lemma run_validate: "\<exists>b gs t. run (validate_token c i token k) fs s = run (k b) gs t"
proof (cases "token = [] \<or> i = []")
  case True
  then show ?thesis by (auto simp: validate_token_def)
next
  case False
  then show ?thesis
    by (cases "lookupTokenByHash (fails_now fs) (rc_sha c token) (tokens_of s)"; auto simp: validate_token_def run_any; blast)
qed

lemma run_gate: "\<exists>x gs t. run (requireWorkspaceToken env c i k) fs s = run (k x) gs t"
proof -
  let ?token = "BearerTokenFromHeader (rc_auth c)"
  let ?again = "has_live_instance i (\<lambda>res. case res of Inr False \<Rightarrow> k None
    | _ \<Rightarrow> k (Some (401, ''invalid workspace auth token'')))"
  have again: "\<exists>x gs t. run ?again hs u = run (k x) gs t" for hs u
    by (auto simp: has_live_instance_def run_any split: sum.split bool.split)
  obtain b hs u where v: "run (validate_token c i ?token (\<lambda>valid. if valid then k None else ?again)) (tl fs) s
      = run (if b then k None else ?again) hs u" using run_validate by blast
  have "\<exists>x gs t. run (if b then k None else ?again) hs u = run (k x) gs t" using again by auto
  with v show ?thesis
    by (auto simp: requireWorkspaceToken_def has_live_instance_def run_any Let_def split: sum.split)
qed



definition public_net :: net_env where
  "public_net = plain_net\<lparr>nv_parse := (\<lambda>u. if u = ''https://a.example'' then Some (''https'', ''a.example'') else None),
    nv_ip := (\<lambda>_. None), nv_host := (\<lambda>_. Some [''fe80::1%eth0''])\<rparr>"


end
