(* ===== verification/Status_Sweeps.thy ===== *)
theory Status_Sweeps
  imports Heartbeat_Status
begin

text \<open>
  The background passes over the workspaces (\<^verbatim>\<open>internal/registry/\<close>): the liveness
  monitor, the health sweep, the hibernation, provisioning-timeout and wedged-agent monitors, the
  reconcile of recorded instances, and the orphan sweepers. One tick of each is a program.

  What a pass asks the provisioner is a parameter: \<open>is_running\<close> (\<open>None\<close> when the check
  fails), the listed container prefixes, and whether a stop or the removal of a volume succeeds.
  The callback of a pass is logged. A deadline that cuts a pass short is the number of rows it
  still handles.
\<close>

subsection \<open>Liveness\<close>

definition liveness_key :: "string \<Rightarrow> string option" where
  "liveness_key key =
    (if \<not> prefix ''ws:'' key then None
     else case split_on CHR '':'' key of [_, workspaceID] \<Rightarrow> Some workspaceID | _ \<Rightarrow> None)"

definition mark_expired :: "time \<Rightarrow> string \<Rightarrow> reg_state \<Rightarrow> reg_state \<times> nat" where
  "mark_expired now i = update_rows
     (\<lambda>r. wr_id r = i \<and> wr_status r \<notin> {StatusRemoved, StatusPaused, StatusHibernated})
     (\<lambda>r. r\<lparr>wr_status := (if wr_runtime r = Some ''external'' then StatusAwaitingAgent else StatusOffline), wr_updated := now\<rparr>)"

definition liveness_expired :: "time \<Rightarrow> string \<Rightarrow> unit handler" where
  "liveness_expired now key =
    (case liveness_key key of
       None \<Rightarrow> Ret ()
     | Some i \<Rightarrow> exec (mark_expired now i) (\<lambda>res.
         case res of None \<Rightarrow> Ret () | Some _ \<Rightarrow> effect (logged (OfflineCallback i)) (Ret ())))"

subsection \<open>Health sweep\<close>

definition DefaultRemoteStaleAfter :: duration where "DefaultRemoteStaleAfter = 180 * second"

text \<open>A positive number of seconds from the environment, or the default.\<close>

definition env_seconds :: "duration \<Rightarrow> string \<Rightarrow> duration" where
  "env_seconds dflt v =
    (case (if v = [] then None else atoi v) of
       None \<Rightarrow> dflt
     | Some n \<Rightarrow> if n \<le> 0 then dflt else int64 (n * second))"

definition remoteStaleAfter :: "string \<Rightarrow> duration" where
  "remoteStaleAfter v = env_seconds DefaultRemoteStaleAfter v"

definition whole_seconds :: "duration \<Rightarrow> int" where
  "whole_seconds d = (if d < 0 then - ((- d) div second) else d div second)"

definition running_status :: "ws_row \<Rightarrow> bool" where
  "running_status r = (wr_status r = StatusOnline \<or> wr_status r = StatusDegraded)"

definition runtime_or :: "string \<Rightarrow> ws_row \<Rightarrow> string" where
  "runtime_or dflt r = (case wr_runtime r of None \<Rightarrow> dflt | Some rt \<Rightarrow> rt)"

definition select_ids :: "(ws_row \<Rightarrow> bool) \<Rightarrow> reg_state \<Rightarrow> string list" where
  "select_ids P s = map wr_id (filter P (rs_rows s))"

definition take_offline ::
  "time \<Rightarrow> WorkspaceStatus set \<Rightarrow> WorkspaceStatus \<Rightarrow> string \<Rightarrow> unit handler" where
  "take_offline now spared target i =
    exec (update_rows (\<lambda>r. wr_id r = i \<and> wr_status r \<notin> spared) (\<lambda>r. r\<lparr>wr_status := target, wr_updated := now\<rparr>)) (\<lambda>res.
      case res of
        None \<Rightarrow> Ret ()
      | Some _ \<Rightarrow> ClearWorkspaceKeys i (effect (logged (OfflineCallback i)) (Ret ())))"

definition sweepOnlineWorkspaces :: "(string \<Rightarrow> bool option) \<Rightarrow> time \<Rightarrow> unit handler" where
  "sweepOnlineWorkspaces is_running now =
    query (select_ids (\<lambda>r. running_status r \<and> runtime_or ''claude-code'' r \<notin> {''external'', ''mock''})) (\<lambda>res.
      case res of
        None \<Rightarrow> Ret ()
      | Some ids \<Rightarrow> for_each ids (\<lambda>i.
          case is_running i of
            Some False \<Rightarrow> take_offline now
              {StatusRemoved, StatusProvisioning, StatusPaused, StatusHibernated, StatusHibernating} StatusOffline i
          | _ \<Rightarrow> Ret ()))"

definition sweepStaleRemoteWorkspaces :: "string \<Rightarrow> time \<Rightarrow> unit handler" where
  "sweepStaleRemoteWorkspaces env_value now =
    (let staleAfterSec = whole_seconds (remoteStaleAfter env_value) in
     query (select_ids (\<lambda>r. running_status r \<and> runtime_or ''claude-code'' r = ''external''
        \<and> (case wr_heartbeat r of Some t \<Rightarrow> t | None \<Rightarrow> wr_updated r) < now - staleAfterSec * second)) (\<lambda>res.
      case res of
        None \<Rightarrow> Ret ()
      | Some ids \<Rightarrow> for_each ids
          (take_offline now {StatusRemoved, StatusProvisioning, StatusPaused} StatusAwaitingAgent)))"

subsection \<open>Hibernation monitor\<close>

definition hibernation_due :: "time \<Rightarrow> ws_row \<Rightarrow> bool" where
  "hibernation_due now r =
    (case (wr_idle_minutes r, wr_heartbeat r) of
       (Some m, Some t) \<Rightarrow> m > 0 \<and> running_status r \<and> wr_active_tasks r = 0 \<and> runtime_or ''claude-code'' r \<noteq> ''external''
         \<and> t < now - m * minute
     | _ \<Rightarrow> False)"

definition hibernateIdleWorkspaces :: "time \<Rightarrow> unit handler" where
  "hibernateIdleWorkspaces now =
    query (select_ids (hibernation_due now)) (\<lambda>res.
      case res of
        None \<Rightarrow> Ret ()
      | Some ids \<Rightarrow> for_each ids (\<lambda>i. effect (logged (HibernateCallback i)) (Ret ())))"

subsection \<open>Wedged agents\<close>

definition DefaultWedgedThreshold :: duration where "DefaultWedgedThreshold = 5 * minute"

definition wedgedThreshold :: "string \<Rightarrow> duration" where
  "wedgedThreshold v = env_seconds DefaultWedgedThreshold v"

definition stale_for :: "time \<Rightarrow> duration \<Rightarrow> time option \<Rightarrow> bool" where
  "stale_for now threshold t = (case t of None \<Rightarrow> True | Some t \<Rightarrow> now - t > threshold)"

definition IsWedgedAgent :: "time \<Rightarrow> int \<Rightarrow> time option \<Rightarrow> time option \<Rightarrow> duration \<Rightarrow> bool" where
  "IsWedgedAgent now activeTasks lastOutboundAt lastHeartbeatAt threshold =
    (if activeTasks \<le> 0 then False
     else if threshold \<le> 0 then False
     else stale_for now threshold lastOutboundAt \<and> stale_for now threshold lastHeartbeatAt)"

text \<open>\<open>db_now\<close> is the time of the query, \<open>now\<close> the time of the check in the process.\<close>

definition sweepWedgedAgents :: "duration \<Rightarrow> time \<Rightarrow> time \<Rightarrow> unit handler" where
  "sweepWedgedAgents threshold db_now now =
    (let old = (\<lambda>t. case t of None \<Rightarrow> True | Some t \<Rightarrow> t < db_now - whole_seconds threshold * second) in
     query (\<lambda>s. map wr_id (filter (\<lambda>r. IsWedgedAgent now (wr_active_tasks r) (wr_outbound r) (wr_heartbeat r) threshold)
        (filter (\<lambda>r. running_status r \<and> wr_active_tasks r > 0 \<and> runtime_or ''claude-code'' r \<noteq> ''external''
          \<and> old (wr_outbound r) \<and> old (wr_heartbeat r)) (rs_rows s)))) (\<lambda>res.
      case res of
        None \<Rightarrow> Ret ()
      | Some ids \<Rightarrow> for_each ids (\<lambda>i. effect (logged (WedgedCallback i)) (Ret ()))))"

subsection \<open>Provisioning timeout\<close>

definition DefaultProvisioningTimeout :: duration where "DefaultProvisioningTimeout = 12 * minute"
definition HermesProvisioningTimeout :: duration where "HermesProvisioningTimeout = 30 * minute"

text \<open>\<open>lookup\<close> is the override of the runtime's template in seconds, \<open>None\<close> when none is wired.\<close>

definition runtime_timeout :: "string \<Rightarrow> duration" where
  "runtime_timeout runtime = (if runtime = ''hermes'' then HermesProvisioningTimeout else DefaultProvisioningTimeout)"

definition template_timeout :: "(string \<Rightarrow> int) option \<Rightarrow> string \<Rightarrow> duration" where
  "template_timeout lookup runtime =
    (case lookup of
       None \<Rightarrow> runtime_timeout runtime
     | Some f \<Rightarrow> if f runtime > 0 then int64 (f runtime * second) else runtime_timeout runtime)"

definition provisioningTimeoutFor :: "string \<Rightarrow> (string \<Rightarrow> int) option \<Rightarrow> string \<Rightarrow> duration" where
  "provisioningTimeoutFor env_value lookup runtime =
    (case (if env_value = [] then None else atoi env_value) of
       None \<Rightarrow> template_timeout lookup runtime
     | Some n \<Rightarrow> if n > 0 then int64 (n * second) else template_timeout lookup runtime)"

text \<open>\<open>EXTRACT(EPOCH FROM d)::int\<close>, rounded half away from zero.\<close>

definition epoch_int :: "duration \<Rightarrow> int" where
  "epoch_int d = (if d < 0 then - ((2 * (- d) + second) div (2 * second)) else (2 * d + second) div (2 * second))"

definition provision_timeout_message :: string where
  "provision_timeout_message = ''provisioning timed out '' @ [CHR 0xE2, CHR 0x80, CHR 0x94]
     @ '' container started but never called /registry/register. Check container logs and network connectivity to the platform.''"

definition fail_stuck :: "time \<Rightarrow> string \<Rightarrow> int \<Rightarrow> reg_state \<Rightarrow> reg_state \<times> nat" where
  "fail_stuck now i timeoutSec = update_rows
     (\<lambda>r. wr_id r = i \<and> wr_status r = StatusProvisioning \<and> wr_updated r < now - timeoutSec * second)
     (\<lambda>r. r\<lparr>wr_status := StatusFailed, wr_sample_error := provision_timeout_message, wr_updated := now\<rparr>)"

definition stuck_candidate :: "bool \<Rightarrow> string \<Rightarrow> (string \<Rightarrow> int) option \<Rightarrow> time \<Rightarrow> ws_row \<Rightarrow> unit handler" where
  "stuck_candidate rescue env_value lookup now r =
    (let timeoutSec = whole_seconds (provisioningTimeoutFor env_value lookup (runtime_or [] r)) in
     if epoch_int (now - wr_updated r) < timeoutSec then Ret ()
     else exec (fail_stuck now (wr_id r) timeoutSec) (\<lambda>res.
       case res of
         None \<Rightarrow> Ret ()
       | Some n \<Rightarrow>
           if n = 0 then Ret ()
           else effect (\<lambda>s. if rescue then logged (RescueCapture (wr_id r)
                (case wr_instance r of None \<Rightarrow> [] | Some inst \<Rightarrow> inst)) s else s)
             (RecordAndBroadcast EventWorkspaceProvisionFailed (wr_id r)
               [(''error'', JStr provision_timeout_message), (''timeout_secs'', JInt timeoutSec),
                (''runtime'', JStr (runtime_or [] r)), (''source'', JStr ''provision_timeout_sweep'')] (\<lambda>_. Ret ()))))"

definition sweepStuckProvisioning :: "bool \<Rightarrow> string \<Rightarrow> (string \<Rightarrow> int) option \<Rightarrow> time \<Rightarrow> unit handler" where
  "sweepStuckProvisioning rescue env_value lookup now =
    query (\<lambda>s. filter (\<lambda>r. wr_status r = StatusProvisioning) (rs_rows s)) (\<lambda>res.
      case res of
        None \<Rightarrow> Ret ()
      | Some candidates \<Rightarrow> for_each candidates (stuck_candidate rescue env_value lookup now))"

subsection \<open>Recorded instances\<close>

definition CPInstanceReconcileLimit :: nat where "CPInstanceReconcileLimit = 200"
definition cpSweepLimit :: nat where "cpSweepLimit = 100"

definition newest_first :: "nat \<Rightarrow> (ws_row \<Rightarrow> bool) \<Rightarrow> reg_state \<Rightarrow> ws_row list" where
  "newest_first limit P s = take limit (sort_key (\<lambda>r. - wr_updated r) (filter P (rs_rows s)))"

definition has_instance :: "ws_row \<Rightarrow> bool" where
  "has_instance r = (case wr_instance r of None \<Rightarrow> False | Some inst \<Rightarrow> inst \<noteq> [])"

definition reconfirmStillOfflineCandidate :: "string \<Rightarrow> string option \<Rightarrow> (bool \<Rightarrow> 'r handler) \<Rightarrow> 'r handler" where
  "reconfirmStillOfflineCandidate i inst k =
    query (\<lambda>s. row s i) (\<lambda>res.
      k (case res of Some (Some r) \<Rightarrow> running_status r \<and> has_instance r \<and> wr_instance r = inst | _ \<Rightarrow> False))"

definition reconcileOnce :: "(string \<Rightarrow> bool option) \<Rightarrow> nat \<Rightarrow> unit handler" where
  "reconcileOnce is_running deadline =
    query (newest_first CPInstanceReconcileLimit
        (\<lambda>r. running_status r \<and> has_instance r \<and> runtime_or [] r \<noteq> ''external'')) (\<lambda>res.
      case res of
        None \<Rightarrow> Ret ()
      | Some candidates \<Rightarrow> for_each (take deadline candidates) (\<lambda>c.
          case is_running (wr_id c) of
            Some False \<Rightarrow> reconfirmStillOfflineCandidate (wr_id c) (wr_instance c) (\<lambda>confirmed.
              if confirmed then effect (logged (OfflineCallback (wr_id c))) (Ret ()) else Ret ())
          | _ \<Rightarrow> Ret ()))"

definition cpSweepOnce :: "(string \<Rightarrow> bool) \<Rightarrow> time \<Rightarrow> unit handler" where
  "cpSweepOnce stop_ok now =
    query (\<lambda>s. map wr_id (newest_first cpSweepLimit (\<lambda>r. wr_status r = StatusRemoved \<and> has_instance r) s)) (\<lambda>res.
      case res of
        None \<Rightarrow> Ret ()
      | Some ids \<Rightarrow> for_each ids (\<lambda>i.
          effect (logged (StopContainer i))
          (if stop_ok i
           then exec (update_rows (\<lambda>r. wr_id r = i) (\<lambda>r. r\<lparr>wr_instance := None, wr_updated := now\<rparr>)) (\<lambda>_. Ret ())
           else Ret ())))"

subsection \<open>Containers without a workspace\<close>

definition isLikelyWorkspaceID :: "string \<Rightarrow> bool" where
  "isLikelyWorkspaceID s =
    (s \<noteq> [] \<and> list_all (\<lambda>ch. let n = (of_char ch :: nat) in
       48 \<le> n \<and> n \<le> 57 \<or> 97 \<le> n \<and> n \<le> 102 \<or> 65 \<le> n \<and> n \<le> 70 \<or> n = 45) s)"

text \<open>
  \<open>id::text LIKE p || '%'\<close>, for a prefix without wildcards.
\<close>

definition like_any :: "string list \<Rightarrow> string \<Rightarrow> bool" where
  "like_any likes i = list_ex (\<lambda>p. prefix p i) likes"

definition stop_and_remove :: "(string \<Rightarrow> bool) \<Rightarrow> string \<Rightarrow> unit handler" where
  "stop_and_remove stop_ok i =
    effect (logged (StopContainer i)) (if stop_ok i then effect (logged (RemoveVolume i)) (Ret ()) else Ret ())"

definition sweepRemovedRows :: "string list option \<Rightarrow> (string \<Rightarrow> bool) \<Rightarrow> unit handler" where
  "sweepRemovedRows listed stop_ok =
    (case listed of
       None \<Rightarrow> Ret ()
     | Some ps \<Rightarrow>
         let likes = filter isLikelyWorkspaceID ps in
         if likes = [] then Ret ()
         else query (select_ids (\<lambda>r. wr_status r = StatusRemoved \<and> like_any likes (wr_id r))) (\<lambda>res.
           case res of None \<Rightarrow> Ret () | Some ids \<Rightarrow> for_each ids (stop_and_remove stop_ok)))"

definition sweepLabeledOrphansWithoutRows :: "string list option \<Rightarrow> (string \<Rightarrow> bool) \<Rightarrow> unit handler" where
  "sweepLabeledOrphansWithoutRows managed stop_ok =
    (case managed of
       None \<Rightarrow> Ret ()
     | Some ps \<Rightarrow>
         let keep = filter isLikelyWorkspaceID ps in
         if keep = [] then Ret ()
         else query (\<lambda>s. filter (\<lambda>p. list_ex (\<lambda>r. prefix p (wr_id r)) (rs_rows s)) keep) (\<lambda>res.
           case res of
             None \<Rightarrow> Ret ()
           | Some known \<Rightarrow> for_each (filter (\<lambda>p. p \<notin> set known) keep) (stop_and_remove stop_ok)))"

definition staleTokenGrace :: duration where "staleTokenGrace = 5 * minute"

definition stale_token :: "time \<Rightarrow> ws_token \<Rightarrow> bool" where
  "stale_token now t =
    (wt_revoked t = None \<and> (case wt_last_used t of Some u \<Rightarrow> u | None \<Rightarrow> wt_created t) < now - staleTokenGrace)"

definition stale_workspaces :: "string list \<Rightarrow> time \<Rightarrow> reg_state \<Rightarrow> string list" where
  "stale_workspaces likes now s = remdups (map wt_workspace (filter (\<lambda>t. stale_token now t
     \<and> list_ex (\<lambda>r. wr_id r = wt_workspace t \<and> wr_status r \<notin> {StatusRemoved, StatusProvisioning}
         \<and> (case wr_runtime r of None \<Rightarrow> False | Some rt \<Rightarrow> rt \<notin> {''external'', ''mock''})) (rs_rows s)
     \<and> (likes = [] \<or> \<not> like_any likes (wt_workspace t))) (rs_tokens s)))"

definition revoke_stale :: "time \<Rightarrow> string \<Rightarrow> reg_state \<Rightarrow> reg_state \<times> unit" where
  "revoke_stale now i s =
    (s\<lparr>rs_tokens := sql_update (\<lambda>t. wt_workspace t = i \<and> stale_token now t) (\<lambda>t. t\<lparr>wt_revoked := Some now\<rparr>) (rs_tokens s)\<rparr>, ())"

primrec revoke_each :: "time \<Rightarrow> string list \<Rightarrow> unit handler" where
  "revoke_each now [] = Ret ()"
| "revoke_each now (i # ids) = exec (revoke_stale now i) (\<lambda>res. case res of None \<Rightarrow> Ret () | Some _ \<Rightarrow> revoke_each now ids)"

definition sweepStaleTokensWithoutContainer :: "string list option \<Rightarrow> time \<Rightarrow> unit handler" where
  "sweepStaleTokensWithoutContainer listed now =
    (case listed of
       None \<Rightarrow> Ret ()
     | Some ps \<Rightarrow> query (stale_workspaces (filter isLikelyWorkspaceID ps) now) (\<lambda>res.
         case res of None \<Rightarrow> Ret () | Some ids \<Rightarrow> revoke_each now ids))"

definition sweepOnce ::
  "string list option \<Rightarrow> string list option \<Rightarrow> string list option \<Rightarrow> (string \<Rightarrow> bool) \<Rightarrow> time \<Rightarrow> unit handler" where
  "sweepOnce listed managed listed_again stop_ok now =
    bindp (sweepRemovedRows listed stop_ok) (\<lambda>_.
    bindp (sweepLabeledOrphansWithoutRows managed stop_ok) (\<lambda>_.
    sweepStaleTokensWithoutContainer listed_again now))"

end
