(* ===== verification/Status_Guard.thy ===== *)
theory Status_Guard
  imports Registry Status_Sweeps
begin

text \<open>
  What no agent and no background pass can do, however their statements interleave and whatever
  fails: wake a workspace that was parked or deleted, and mint a platform agent.

  The locale \<open>row_invariant\<close> is the contract of an invariant of the workspace rows that ignores
  every column but id, kind and status; the programs that only touch other columns keep it. It is
  interpreted for the two invariants below. Their programs then satisfy the contract \<open>protected\<close>
  of \<open>Db_Program\<close>, which covers every interleaving.
\<close>

subsection \<open>Invariants of the rows\<close>

definition on_rows :: "(ws_row list \<Rightarrow> bool) \<Rightarrow> reg_state \<Rightarrow> bool" where
  "on_rows J s = J (rs_rows s)"

definition keeps_identity :: "(ws_row \<Rightarrow> ws_row) \<Rightarrow> bool" where
  "keeps_identity f = (\<forall>r. wr_id (f r) = wr_id r \<and> wr_kind (f r) = wr_kind r \<and> wr_status (f r) = wr_status r)"

named_theorems row_rules

lemma on_rows_cong: "rs_rows t = rs_rows s \<Longrightarrow> on_rows J s \<Longrightarrow> on_rows J t"
  by (simp add: on_rows_def)

lemma on_rows_simps [simp]:
  "on_rows J (s\<lparr>rs_log := a\<rparr>) = on_rows J s" "on_rows J (s\<lparr>rs_live := b\<rparr>) = on_rows J s"
  "on_rows J (s\<lparr>rs_urls := c\<rparr>) = on_rows J s" "on_rows J (s\<lparr>rs_internal_urls := c\<rparr>) = on_rows J s"
  "on_rows J (s\<lparr>rs_tokens := d\<rparr>) = on_rows J s" "on_rows J (s\<lparr>rs_spend := e\<rparr>) = on_rows J s"
  "on_rows J (s\<lparr>rs_inbound := g\<rparr>) = on_rows J s" "on_rows J (s\<lparr>rs_mcp_fire := h\<rparr>) = on_rows J s"
  "on_rows J (s\<lparr>rs_overrides := k\<rparr>) = on_rows J s" "on_rows J (logged l s) = on_rows J s"
  by (simp_all add: on_rows_def logged_def)

lemma on_rows_overrides [simp]:
  "on_rows J (SetIdleTimeout i d s) = on_rows J s" "on_rows J (SetCapabilities i cs s) = on_rows J s"
  by (simp_all add: SetIdleTimeout_def SetCapabilities_def deleteIfEmpty_def)

text \<open>Programs that do not write rows.\<close>

lemma keeps_events [row_rules]:
  "(\<And>x. keeps (on_rows J) (k x)) \<Longrightarrow> keeps (on_rows J) (RecordAndBroadcast e i pl k)"
  "keeps (on_rows J) q \<Longrightarrow> keeps (on_rows J) (BroadcastOnlyEvent i e pl q)"
  by (auto simp: RecordAndBroadcast_def BroadcastOnlyEvent_def intro!: keeps_rules)

lemma keeps_redis [row_rules]:
  "(\<And>x. keeps (on_rows J) (k x)) \<Longrightarrow> keeps (on_rows J) (SetOnline now i k)"
  "(\<And>x. keeps (on_rows J) (k x)) \<Longrightarrow> keeps (on_rows J) (RefreshTTL now i k)"
  "(\<And>x. keeps (on_rows J) (k x)) \<Longrightarrow> keeps (on_rows J) (CacheURL i u k)"
  "(\<And>x. keeps (on_rows J) (k x)) \<Longrightarrow> keeps (on_rows J) (CacheInternalURL i u k)"
  "keeps (on_rows J) q \<Longrightarrow> keeps (on_rows J) (ClearWorkspaceKeys i q)"
  by (auto simp: SetOnline_def RefreshTTL_def CacheURL_def CacheInternalURL_def ClearWorkspaceKeys_def intro!: keeps_rules)

lemma keeps_hooks [row_rules]:
  "keeps (on_rows J) q \<Longrightarrow> keeps (on_rows J) (fireReconcileOnline env i q)"
  "keeps (on_rows J) q \<Longrightarrow> keeps (on_rows J) (fireFirstBootGreeting env i n q)"
  "keeps (on_rows J) q \<Longrightarrow> keeps (on_rows J) (fireWakeSettled env i g q)"
  "keeps (on_rows J) q \<Longrightarrow> keeps (on_rows J) (fireReconcileMCPRecovery env now i q)"
  by (auto simp: fireReconcileOnline_def fireFirstBootGreeting_def fireWakeSettled_def fireReconcileMCPRecovery_def
      intro!: keeps_rules)

lemma keeps_secret [row_rules]:
  "(\<And>x. keeps (on_rows J) (k x)) \<Longrightarrow> keeps (on_rows J) (readOrLazyHealInboundSecret rnd now i k)"
  by (auto simp: readOrLazyHealInboundSecret_def intro!: keeps_rules split: sum.split prod.split)

lemma keeps_tokens [row_rules]:
  "(\<And>x. keeps (on_rows J) (k x)) \<Longrightarrow> keeps (on_rows J) (has_live_instance i k)"
  "(\<And>b. keeps (on_rows J) (k' b)) \<Longrightarrow> keeps (on_rows J) (validate_token c i token k')"
  by (auto simp: has_live_instance_def validate_token_def intro!: keeps_rules split: sum.split prod.split)

lemma keeps_gate [row_rules]:
  "(\<And>x. keeps (on_rows J) (k x)) \<Longrightarrow> keeps (on_rows J) (requireWorkspaceToken env c i k)"
  by (auto simp: requireWorkspaceToken_def Let_def intro!: row_rules split: sum.split bool.split)

lemma keeps_first_token [row_rules]:
  "(\<And>x. keeps (on_rows J) (k x)) \<Longrightarrow> keeps (on_rows J) (first_token c i k)"
  by (auto simp: first_token_def intro!: row_rules keeps_rules split: sum.split bool.split prod.split)

lemma keeps_register_reads [row_rules]:
  "(\<And>x. keeps (on_rows J) (k x)) \<Longrightarrow> keeps (on_rows J) (reconcile_card renum p k)"
  "(\<And>x. keeps (on_rows J) (k' x)) \<Longrightarrow> keeps (on_rows J) (prev_status_read env i k')"
  "(\<And>x. keeps (on_rows J) (l x)) \<Longrightarrow> keeps (on_rows J) (cache_urls p u l)"
  "keeps (on_rows J) q \<Longrightarrow> keeps (on_rows J) (announce_register env p u agentCard mode prev q)"
  "(\<And>x. keeps (on_rows J) (m x)) \<Longrightarrow> keeps (on_rows J) (resolveDeliveryMode i pm m)"
  by (auto simp: reconcile_card_def prev_status_read_def cache_urls_def announce_register_def resolveDeliveryMode_def Let_def
      intro!: keeps_rules row_rules split: option.split)

lemma keeps_beat_parts [row_rules]:
  "keeps (on_rows J) q \<Longrightarrow> keeps (on_rows J) (record_spend now i sp pv q)"
  "keeps (on_rows J) q \<Longrightarrow> keeps (on_rows J) (beat_broadcasts p pt q)"
  "keeps (on_rows J) q \<Longrightarrow> keeps (on_rows J) (beat_overrides p q)"
  "(\<And>x. keeps (on_rows J) (k x)) \<Longrightarrow> keeps (on_rows J) (read_prev i k)"
  by (auto simp: record_spend_def insert_spend_def prune_spend_def beat_broadcasts_def beat_overrides_def read_prev_def Let_def
      intro!: keeps_rules row_rules split: option.split)


locale row_invariant =
  fixes J :: "ws_row list \<Rightarrow> bool"
  assumes neutral: "keeps_identity f \<Longrightarrow> J rows \<Longrightarrow> J (sql_update P f rows)"
begin

lemma keeps_neutral:
  "keeps_identity f \<Longrightarrow> (\<And>x. keeps (on_rows J) (k x)) \<Longrightarrow> keeps (on_rows J) (exec (update_rows P f) k)"
  using neutral by (auto intro!: keeps_rules simp: on_rows_def)

lemma keeps_UpdateCard: "keeps (on_rows J) (UpdateCard env net c payload)"
  by (auto simp: UpdateCard_def store_card_def keeps_identity_def intro!: row_rules keeps_neutral
      split: option.split prod.split)

lemma keeps_corroboration:
  "(\<And>x. keeps (on_rows J) (k x)) \<Longrightarrow> keeps (on_rows J) (recordMCPSurfaceCorroboration now i tools k)"
  by (auto simp: recordMCPSurfaceCorroboration_def priorMCPSurface_def persist_surface_def Let_def keeps_identity_def
      intro!: keeps_rules(1) keeps_neutral split: option.split prod.split)

lemma keeps_neutral_beat:
  "(\<And>x. keeps (on_rows J) (k x)) \<Longrightarrow> keeps (on_rows J) (beat_tools now p k)"
  "keeps (on_rows J) q \<Longrightarrow> keeps (on_rows J) (beat_generation env now p g q)"
  "keeps (on_rows J) q \<Longrightarrow> keeps (on_rows J) (beat_card p q)"
  by (auto simp: beat_tools_def beat_generation_def beat_card_def live_update_def keeps_identity_def
      intro!: keeps_neutral keeps_corroboration row_rules split: option.split)

lemma keeps_register_online:
  "keeps (on_rows J) (register_online env c p mode u agentCard prev)"
  by (auto simp: register_online_def register_failure_at_def Let_def keeps_identity_def
      intro!: row_rules keeps_neutral split: option.split)

text \<open>A beat keeps the invariant when its own status statements do.\<close>

lemma keeps_Heartbeat:
  assumes "\<And>p surface. keeps (on_rows J) (evaluateStatus env sr le (rc_now c) p surface)"
    and "\<And>p rows. J rows \<Longrightarrow>
      J (sql_update (\<lambda>r. wr_id r = hb_WorkspaceID p \<and> wr_status r \<noteq> StatusRemoved) (beat_columns (rc_now c) p) rows)"
  shows "keeps (on_rows J) (Heartbeat env sr le c payload)"
proof -
  have rest: "keeps (on_rows J) (beat_rest env sr le c p prev)" for p prev
    by (auto simp: beat_rest_def Let_def intro!: keeps_neutral_beat row_rules keeps_bindp assms(1))
  have live: "keeps (on_rows J) (exec (live_update (hb_WorkspaceID p) (beat_columns (rc_now c) p)) k)"
    if "\<And>x. keeps (on_rows J) (k x)" for p k
    using assms(2) that by (auto simp: live_update_def on_rows_def intro!: keeps_exec)
  show ?thesis
    by (auto simp: Heartbeat_def intro!: row_rules live rest split: option.split prod.split)
qed

text \<open>So does a registration when its identity gate and its upsert do.\<close>

lemma keeps_register_store:
  assumes "\<And>url agentCard m t. on_rows J t \<Longrightarrow> on_rows J (fst (register_upsert (rc_now c) (rp_ID p) url agentCard m (rp_Kind p) t))"
  shows "keeps (on_rows J) (register_store env renum c p mode u)"
  unfolding register_store_def
  by (intro row_rules keeps_exec assms) (auto intro!: keeps_register_online split: option.split upsert_result.split)

lemma keeps_Register:
  assumes "\<And>p s ek. on_rows J s \<Longrightarrow> ek = map_option wr_kind (row s (rp_ID p)) \<or> ek = None \<Longrightarrow>
      keeps (on_rows J) (register_admitted env net renum c p ek)"
  shows "keeps (on_rows J) (Register env net renum c payload)"
proof -
  have rest: "keeps (on_rows J) (bindp (register_admitted env net renum c p ek) (\<lambda>reply.
      if registered reply then Ret reply else exec (register_failure_at (rp_ID p) (Some (rc_now c))) (\<lambda>_. Ret reply)))"
    if "on_rows J s" "ek = map_option wr_kind (row s (rp_ID p)) \<or> ek = None" for p s ek
    using assms [OF that] by (auto simp: register_failure_at_def keeps_identity_def intro!: keeps_bindp keeps_neutral)
  have none: "keeps (on_rows J) (bindp (register_admitted env net renum c p None) (\<lambda>reply.
      if registered reply then Ret reply else exec (register_failure_at (rp_ID p) (Some (rc_now c))) (\<lambda>_. Ret reply)))" for p
  proof (cases "\<exists>s. on_rows J s")
    case True
    then show ?thesis using rest by blast
  next
    case False
    then show ?thesis by (intro keeps_vacuous) blast
  qed
  show ?thesis unfolding Register_def
    by (auto intro!: keeps_query row_rules none rest split: option.split prod.split)
qed

end


subsection \<open>Invariants that outlast a beat\<close>

text \<open>A workspace sleeps when only its operator may wake it.\<close>

definition asleep :: "WorkspaceStatus \<Rightarrow> bool" where
  "asleep st = (st \<in> {StatusRemoved, StatusPaused, StatusHibernated, StatusHibernating})"

lemma asleep_active [simp]:
  "\<not> asleep StatusOnline" "\<not> asleep StatusDegraded" "\<not> asleep StatusProvisioning" "\<not> asleep StatusOffline"
  "\<not> asleep StatusFailed" "\<not> asleep StatusAwaitingAgent"
  by (simp_all add: asleep_def)

text \<open>Statements on workspaces that are awake do not hurt either.\<close>

locale status_invariant = row_invariant +
  assumes awake: "(\<And>r. wr_id (f r) = wr_id r \<and> wr_kind (f r) = wr_kind r) \<Longrightarrow> (\<And>r. P r \<Longrightarrow> \<not> asleep (wr_status r)) \<Longrightarrow>
    J rows \<Longrightarrow> J (sql_update P f rows)"
begin

lemma keeps_awake:
  "(\<And>r. wr_id (f r) = wr_id r \<and> wr_kind (f r) = wr_kind r) \<Longrightarrow> (\<And>r. P r \<Longrightarrow> \<not> asleep (wr_status r)) \<Longrightarrow>
    (\<And>x. keeps (on_rows J) (k x)) \<Longrightarrow> keeps (on_rows J) (exec (update_rows P f) k)"
  by (rule keeps_exec) (auto simp: on_rows_def intro!: awake)

lemma keeps_flips:
  assumes "\<not> asleep from" and "\<And>x. keeps (on_rows J) (k x)"
  shows "keeps (on_rows J) (exec (flip now j from to) k)"
    and "keeps (on_rows J) (exec (degrade_with now j from msg) k)"
  using assms unfolding flip_def degrade_with_def by (auto intro!: keeps_awake)

lemma keeps_stamps:
  assumes "\<And>x. keeps (on_rows J) (k x)"
  shows "keeps (on_rows J) (exec (stamp_unloaded now j) k)"
    and "keeps (on_rows J) (exec (clear_unloaded now j) k)"
  using assms unfolding stamp_unloaded_def clear_unloaded_def by (auto simp: keeps_identity_def intro!: keeps_neutral)

lemma keeps_first:
  "(\<And>x. keeps (on_rows J) (k x)) \<Longrightarrow> keeps (on_rows J) (first_unloaded now j since k)"
  by (auto simp: first_unloaded_def intro!: keeps_stamps split: option.split)

lemmas status_rules = keeps_flips keeps_stamps keeps_first row_rules keeps_bindp

lemma keeps_generic: "keeps (on_rows J) (generic_status env sr now p r unloaded)"
proof -
  have recover: "keeps (on_rows J) (recover_from env now p old pl)" if "\<not> asleep old" for old pl
    unfolding recover_from_def by (intro status_rules that) auto
  have "keeps (on_rows J) (recovery_branches env now p cur native recent unloaded)" for cur native recent
    by (auto simp: recovery_branches_def intro!: recover)
  moreover have "keeps (on_rows J) (drain_branch env p)"
    by (auto simp: drain_branch_def Let_def intro!: keeps_query keeps_effect)
  ultimately show ?thesis
    unfolding generic_status_def Let_def
    by (auto simp: wedged_branch_def error_rate_branch_def register_failure_branch_def
        intro!: keeps_inspect status_rules)
qed

lemma keeps_not_online: "keeps (on_rows J) (platform_not_online env now p surface r)"
proof -
  have promo: "keeps (on_rows J) (announce_promotion env p cur ev)" for cur ev
    by (auto simp: announce_promotion_def Let_def intro!: row_rules)
  have reported: "keeps (on_rows J) (promote_reported env now p surface cur)" if "\<not> asleep cur" for cur
    unfolding promote_reported_def using that by (auto intro!: keeps_awake promo)
  have legacy: "keeps (on_rows J) (promote_legacy env now p cur)" if "\<not> asleep cur" for cur
    unfolding promote_legacy_def using that by (auto intro!: keeps_flips promo)
  have hold: "keeps (on_rows J) (warming_hold env now p r)"
    by (auto simp: warming_hold_def Let_def intro!: status_rules split: option.split)
  show ?thesis unfolding platform_not_online_def
    by (auto simp: recoverable_def asleep_def intro!: legacy reported hold)
qed

lemma keeps_online: "keeps (on_rows J) (platform_online env now p r lookup_error)"
proof -
  have missing: "keeps (on_rows J) (tools_missing env now p r b)" for b
    by (auto simp: tools_missing_def Let_def intro!: status_rules)
  have negative: "keeps (on_rows J) (probe_negative env now p r)"
    by (auto simp: probe_negative_def Let_def intro!: status_rules split: option.split)
  have failed: "keeps (on_rows J) (lookup_failed now p lookup_error)"
    by (auto simp: lookup_failed_def Let_def intro!: status_rules)
  have clear: "keeps (on_rows J) (clear_stamp now p r)"
    by (auto simp: clear_stamp_def intro!: status_rules)
  show ?thesis
    by (auto simp: platform_online_def tools_listed_def platformAgentManagementMCPLoaded_def
        intro!: missing negative failed clear keeps_query split: option.split bool.split)
qed

lemma keeps_platform_status:
  assumes "\<And>msg why (q :: unit handler). keeps (on_rows J) q \<Longrightarrow> keeps (on_rows J) (markWorkspaceFailed now (hb_WorkspaceID p) msg why q)"
  shows "keeps (on_rows J) (platform_status env sr le now p surface r)"
  unfolding platform_status_def Let_def
  by (auto intro!: keeps_query assms row_rules keeps_not_online keeps_bindp keeps_online keeps_generic split: option.split)

lemma keeps_beat_columns:
  "J rows \<Longrightarrow> J (sql_update (\<lambda>r. wr_id r = i \<and> wr_status r \<noteq> StatusRemoved) (beat_columns now p) rows)"
proof -
  assume J: "J rows"
  let ?woken = "\<lambda>r. wr_id r = i \<and> wr_status r = StatusProvisioning \<and> wr_kind r \<noteq> KindPlatform"
  let ?rest = "\<lambda>r. wr_id r = i \<and> wr_status r \<noteq> StatusRemoved \<and> \<not> (wr_status r = StatusProvisioning \<and> wr_kind r \<noteq> KindPlatform)"
  let ?same = "\<lambda>r. (beat_columns now p r)\<lparr>wr_status := wr_status r\<rparr>"
  have "sql_update (\<lambda>r. wr_id r = i \<and> wr_status r \<noteq> StatusRemoved) (beat_columns now p) rows
      = sql_update ?woken (beat_columns now p) (sql_update ?rest ?same rows)"
    by (auto simp: sql_update_def beat_columns_def)
  moreover have "J (sql_update ?rest ?same rows)"
    using J by (rule neutral [rotated]) (simp add: keeps_identity_def beat_columns_def)
  ultimately show ?thesis using awake [of "beat_columns now p" ?woken] by (auto simp: beat_columns_def)
qed

end

subsection \<open>A parked workspace\<close>

definition parked_rows :: "string \<Rightarrow> WorkspaceStatus \<Rightarrow> ws_row list \<Rightarrow> bool" where
  "parked_rows i st rows \<longleftrightarrow>
    asleep st \<and> (\<exists>r. sql_find (\<lambda>r. wr_id r = i) rows = Some r \<and> wr_kind r \<noteq> KindPlatform \<and> wr_status r = st)"

lemma parked_update:
  assumes "\<And>r. wr_id (f r) = wr_id r"
    and "\<And>r. wr_id r = i \<Longrightarrow> wr_kind r \<noteq> KindPlatform \<Longrightarrow> wr_status r = st \<Longrightarrow> P r \<Longrightarrow>
      wr_kind (f r) \<noteq> KindPlatform \<and> wr_status (f r) = st"
    and "parked_rows i st rows"
  shows "parked_rows i st (sql_update P f rows)"
proof -
  from assms(3) obtain r where r: "sql_find (\<lambda>r. wr_id r = i) rows = Some r" "wr_kind r \<noteq> KindPlatform" "wr_status r = st"
    by (auto simp: parked_rows_def)
  moreover have "wr_id r = i" using sql_find_Some_iff [OF r(1)] by simp
  ultimately show ?thesis using assms(2) [of r] assms(3) by (simp add: parked_rows_def find_update_rows assms(1))
qed

interpretation parked: status_invariant "parked_rows i st" for i st
proof unfold_locales
  fix f :: "ws_row \<Rightarrow> ws_row" and P :: "ws_row \<Rightarrow> bool" and rows :: "ws_row list"
  assume "keeps_identity f" and "parked_rows i st rows"
  then show "parked_rows i st (sql_update P f rows)" by (auto simp: keeps_identity_def intro!: parked_update)
next
  fix f :: "ws_row \<Rightarrow> ws_row" and P :: "ws_row \<Rightarrow> bool" and rows :: "ws_row list"
  assume "\<And>r. wr_id (f r) = wr_id r \<and> wr_kind (f r) = wr_kind r" and "\<And>r. P r \<Longrightarrow> \<not> asleep (wr_status r)"
    and "parked_rows i st rows"
  then show "parked_rows i st (sql_update P f rows)"
    by (intro parked_update) (auto simp: parked_rows_def)
qed

lemma keeps_parked_update:
  assumes "\<And>r. wr_id (f r) = wr_id r"
    and "\<And>r. wr_id r = i \<Longrightarrow> wr_status r = st \<Longrightarrow> P r \<Longrightarrow> wr_kind (f r) = wr_kind r \<and> wr_status (f r) = st"
    and "\<And>x. keeps (on_rows (parked_rows i st)) (k x)"
  shows "keeps (on_rows (parked_rows i st)) (exec (update_rows P f) k)"
  by (rule keeps_exec) (use assms(2) in \<open>auto simp: on_rows_def intro!: parked_update assms(1,3)\<close>)

lemma keeps_parked_failed:
  "j \<noteq> i \<Longrightarrow> keeps (on_rows (parked_rows i st)) q \<Longrightarrow> keeps (on_rows (parked_rows i st)) (markWorkspaceFailed now j msg why q)"
  by (auto simp: markWorkspaceFailed_def intro!: row_rules keeps_parked_update)

lemma keeps_parked_evaluate:
  "keeps (on_rows (parked_rows i st)) (evaluateStatus env sr le now p surface)"
  unfolding evaluateStatus_def
proof (rule keeps_query)
  fix s
  assume I: "on_rows (parked_rows i st) s"
  show "keeps (on_rows (parked_rows i st)) (case Some (row s (hb_WorkspaceID p)) of
      Some (Some r) \<Rightarrow> if wr_kind r = KindPlatform then platform_status env sr le now p surface r
        else generic_status env sr now p r False
    | _ \<Rightarrow> Ret ())"
  proof (cases "hb_WorkspaceID p = i")
    case True
    with I show ?thesis by (auto simp: on_rows_def parked_rows_def intro!: parked.keeps_generic)
  next
    case False
    then show ?thesis
      by (auto intro!: parked.keeps_generic parked.keeps_platform_status keeps_parked_failed split: option.split)
  qed
qed simp

lemma keeps_parked_Heartbeat: "keeps (on_rows (parked_rows i st)) (Heartbeat env sr le c payload)"
  by (rule parked.keeps_Heartbeat) (rule keeps_parked_evaluate parked.keeps_beat_columns | assumption)+

lemma keeps_precheck:
  assumes "rp_Kind p \<noteq> KindPlatform \<Longrightarrow> keeps (on_rows J) (k None)"
    and "\<And>s. rp_Kind p = KindPlatform \<Longrightarrow> on_rows J s \<Longrightarrow> map_option wr_kind (row s (rp_ID p)) = Some KindPlatform \<Longrightarrow>
      keeps (on_rows J) (k None)"
    and "\<And>x. keeps (on_rows J) (k (Some x))"
  shows "keeps (on_rows J) (platform_precheck p k)"
  using assms by (auto simp: platform_precheck_def intro!: keeps_query)

lemma keeps_gate_skipped:
  assumes "rp_Kind p \<noteq> KindPlatform" and "ek \<noteq> Some KindPlatform" and "keeps I (k None)"
  shows "keeps I (identity_gate env now p ek k)"
  using assms by (simp add: identity_gate_def)

lemma parked_upsert:
  assumes "dormant st \<or> rp_ID p \<noteq> i" and "on_rows (parked_rows i st) s"
  shows "on_rows (parked_rows i st) (fst (register_upsert now (rp_ID p) url agentCard m kind s))"
proof (cases "rp_ID p = i")
  case True
  with assms show ?thesis by (auto simp: on_rows_def parked_rows_def register_upsert_def)
next
  case False
  have append: "parked_rows i st (rs_rows s @ [registered_row now (rp_ID p) url agentCard m k])" for k
    using assms(2) by (auto simp: on_rows_def parked_rows_def sql_find_append)
  have update: "parked_rows i st (sql_update (\<lambda>r. wr_id r = rp_ID p) (reregistered now url keep agentCard m kind) (rs_rows s))"
    for keep
    by (rule parked_update) (use False assms(2) in \<open>auto simp: reregistered_def on_rows_def\<close>)
  show ?thesis using assms(2) append update
    by (auto simp: register_upsert_def on_rows_def Let_def split: option.split)
qed

lemma keeps_parked_Register:
  assumes "dormant st"
  shows "keeps (on_rows (parked_rows i st)) (Register env net renum c payload)"
proof (rule parked.keeps_Register)
  let ?I = "on_rows (parked_rows i st)"
  fix p :: RegisterPayload and s ek
  assume I: "?I s" and ek: "ek = map_option wr_kind (row s (rp_ID p)) \<or> ek = None"
  have store: "keeps ?I (register_store env renum c p mode u)" for mode u
    by (rule parked.keeps_register_store) (use assms parked_upsert in blast)
  have gate: "keeps ?I (identity_gate env (rc_now c) p ek k)"
    if "\<And>x. keeps ?I (k x)" "rp_ID p = i \<longrightarrow> rp_Kind p \<noteq> KindPlatform" for k
  proof (cases "rp_ID p = i")
    case True
    with I ek have "ek \<noteq> Some KindPlatform" by (auto simp: on_rows_def parked_rows_def)
    with True that show ?thesis by (intro keeps_gate_skipped) auto
  next
    case False
    with that show ?thesis
      by (auto simp: identity_gate_def Let_def intro!: keeps_query keeps_parked_failed row_rules split: option.split)
  qed
  have checked: "keeps ?I (register_checked env net renum c p ek)" if "rp_ID p = i \<longrightarrow> rp_Kind p \<noteq> KindPlatform"
    using that by (auto simp: register_checked_def intro!: row_rules gate store split: option.split sum.split prod.split)
  show "keeps ?I (register_admitted env net renum c p ek)"
    unfolding register_admitted_def
    by (rule keeps_precheck) (auto simp: on_rows_def parked_rows_def intro!: checked)
qed


subsection \<open>The background passes\<close>

lemma keeps_parked_take_offline:
  assumes "st \<in> spared"
  shows "keeps (on_rows (parked_rows i st)) (take_offline now spared target j)"
  unfolding take_offline_def using assms
  by (auto intro!: keeps_parked_update row_rules keeps_effect split: option.split)

lemma keeps_parked_passes:
  assumes "dormant st"
  shows "keeps (on_rows (parked_rows i st)) (liveness_expired now key)"
    and "keeps (on_rows (parked_rows i st)) (sweepOnlineWorkspaces is_running now)"
    and "keeps (on_rows (parked_rows i st)) (hibernateIdleWorkspaces now)"
    and "keeps (on_rows (parked_rows i st)) (sweepWedgedAgents threshold now db_now)"
    and "keeps (on_rows (parked_rows i st)) (reconcileOnce is_running deadline)"
    and "keeps (on_rows (parked_rows i st)) (cpSweepOnce stop_ok now)"
proof -
  show "keeps (on_rows (parked_rows i st)) (liveness_expired now key)"
    using assms unfolding liveness_expired_def mark_expired_def dormant_def
    by (auto intro!: keeps_parked_update keeps_effect split: option.split)
  show "keeps (on_rows (parked_rows i st)) (sweepOnlineWorkspaces is_running now)"
    using assms unfolding sweepOnlineWorkspaces_def
    by (auto simp: dormant_def intro!: keeps_query keeps_for_each keeps_parked_take_offline split: option.split bool.split)
  show "keeps (on_rows (parked_rows i st)) (hibernateIdleWorkspaces now)"
    unfolding hibernateIdleWorkspaces_def by (auto intro!: keeps_query keeps_for_each keeps_effect split: option.split)
  show "keeps (on_rows (parked_rows i st)) (sweepWedgedAgents threshold now db_now)"
    unfolding sweepWedgedAgents_def Let_def by (auto intro!: keeps_query keeps_for_each keeps_effect split: option.split)
  show "keeps (on_rows (parked_rows i st)) (reconcileOnce is_running deadline)"
    unfolding reconcileOnce_def reconfirmStillOfflineCandidate_def
    by (auto intro!: keeps_query keeps_for_each keeps_effect split: option.split bool.split)
  show "keeps (on_rows (parked_rows i st)) (cpSweepOnce stop_ok now)"
    unfolding cpSweepOnce_def
    by (auto intro!: keeps_query keeps_for_each keeps_effect keeps_parked_update split: option.split)
qed

lemma keeps_parked_stale_remote:
  "st \<in> {StatusRemoved, StatusPaused} \<Longrightarrow>
    keeps (on_rows (parked_rows i st)) (sweepStaleRemoteWorkspaces env_value now)"
  unfolding sweepStaleRemoteWorkspaces_def Let_def
  by (auto intro!: keeps_query keeps_for_each keeps_parked_take_offline split: option.split)

lemma keeps_parked_stuck: "keeps (on_rows (parked_rows i st)) (sweepStuckProvisioning rescue env_value lookup now)"
  unfolding sweepStuckProvisioning_def stuck_candidate_def fail_stuck_def Let_def
  by (auto intro!: keeps_query keeps_for_each keeps_effect row_rules parked.keeps_awake split: option.split)

lemma keeps_revoke_each: "keeps (on_rows J) (revoke_each now ids)"
  by (induction ids) (auto intro!: keeps_exec simp: revoke_stale_def split: option.split)

lemma keeps_orphans: "keeps (on_rows J) (sweepOnce listed managed listed_again stop_ok now)"
proof -
  have "keeps (on_rows J) (stop_and_remove stop_ok j)" for j
    by (auto simp: stop_and_remove_def intro!: keeps_effect)
  then show ?thesis
    unfolding sweepOnce_def sweepRemovedRows_def sweepLabeledOrphansWithoutRows_def sweepStaleTokensWithoutContainer_def Let_def
    by (auto intro!: keeps_bindp keeps_query keeps_for_each keeps_revoke_each split: option.split)
qed

text \<open>
  The programs agents and background passes run. The sweep of silent remote agents is one of
  them only when \<open>remote\<close> is set.
\<close>

abbreviation silent :: "'r handler \<Rightarrow> unit handler" where
  "silent p \<equiv> bindp p (\<lambda>_. Ret ())"

inductive agent_or_pass :: "bool \<Rightarrow> unit handler \<Rightarrow> bool" for remote :: bool where
  beats: "agent_or_pass remote (silent (Heartbeat env show_rate lookup_error c payload))"
| registers: "agent_or_pass remote (silent (Register env net renum c registration))"
| updates_card: "agent_or_pass remote (silent (UpdateCard env net c update))"
| key_expires: "agent_or_pass remote (liveness_expired now key)"
| health_sweep: "agent_or_pass remote (sweepOnlineWorkspaces is_running now)"
| remote_sweep: "remote \<Longrightarrow> agent_or_pass remote (sweepStaleRemoteWorkspaces env_value now)"
| hibernation: "agent_or_pass remote (hibernateIdleWorkspaces now)"
| wedged_sweep: "agent_or_pass remote (sweepWedgedAgents threshold db_now now)"
| stuck_sweep: "agent_or_pass remote (sweepStuckProvisioning rescue env_value lookup now)"
| instance_sweep: "agent_or_pass remote (reconcileOnce is_running deadline)"
| removed_sweep: "agent_or_pass remote (cpSweepOnce stop_ok now)"
| orphan_sweep: "agent_or_pass remote (sweepOnce listed managed listed_again stop_ok now)"

lemma agent_or_pass_keeps:
  assumes "agent_or_pass remote p" and "dormant st" and "remote \<longrightarrow> st \<noteq> StatusHibernated"
  shows "keeps (on_rows (parked_rows i st)) p"
proof -
  show ?thesis using assms(1)
  proof cases
    case remote_sweep
    with assms(2,3) show ?thesis by (auto simp: dormant_def intro!: keeps_parked_stale_remote)
  qed (auto intro!: keeps_bindp keeps_parked_Heartbeat keeps_parked_Register parked.keeps_UpdateCard keeps_parked_passes
      keeps_parked_stuck keeps_orphans assms(2))
qed

definition may_run :: "WorkspaceStatus \<Rightarrow> unit handler \<Rightarrow> bool" where
  "may_run st p \<longleftrightarrow> dormant st \<and> agent_or_pass (st \<noteq> StatusHibernated) p"

interpretation dormant_rows: protected "on_rows (parked_rows i st)" "may_run st" for i st
  by unfold_locales (auto simp: may_run_def intro: agent_or_pass_keeps)



text \<open>The key of a paused workspace expires; the monitor runs to its end.\<close>

definition paused_state :: reg_state where
  "paused_state = blank_state [(blank_row ''w'')\<lparr>wr_status := StatusPaused\<rparr>]"

lemma expired_moves:
  "moves (paused_state, [liveness_expired 5 ''ws:w'']) (logged (OfflineCallback ''w'') (fst (mark_expired 5 ''w'' paused_state)), [Ret ()])"
proof -
  let ?p = "effect (logged (OfflineCallback ''w'')) (Ret ())"
  have "liveness_key ''ws:w'' = Some ''w''" by (simp add: liveness_key_def)
  then have p: "liveness_expired 5 ''ws:w'' = exec (mark_expired 5 ''w'') (\<lambda>res. case res of None \<Rightarrow> Ret () | Some _ \<Rightarrow> ?p)"
    by (simp add: liveness_expired_def)
  have 1: "interleave (paused_state, [liveness_expired 5 ''ws:w'']) (fst (mark_expired 5 ''w'' paused_state), [?p])"
    using interleave.intros [of 0 "[liveness_expired 5 ''ws:w'']" _ False paused_state "fst (mark_expired 5 ''w'' paused_state)" ?p]
    by (simp add: p exec_def split_beta)
  have 2: "interleave (t, [?p]) (logged (OfflineCallback ''w'') t, [Ret ()])" for t
    using interleave.intros [of 0 "[?p]" _ False t "logged (OfflineCallback ''w'') t" "Ret ()"] by (simp add: effect_def)
  show ?thesis using 1 2 by (meson rtranclp.rtrancl_into_rtrancl rtranclp.rtrancl_refl)
qed


subsection \<open>Platform agents\<close>

definition platform_ids :: "ws_row list \<Rightarrow> string set" where
  "platform_ids rows = wr_id ` {r \<in> set rows. wr_kind r = KindPlatform}"

definition platform_rows :: "string set \<Rightarrow> ws_row list \<Rightarrow> bool" where
  "platform_rows S rows \<longleftrightarrow> platform_ids rows \<subseteq> S"

lemma platform_update:
  assumes "\<And>r. r \<in> set rows \<Longrightarrow> P r \<Longrightarrow> wr_kind (f r) = KindPlatform \<Longrightarrow> wr_id (f r) \<in> S"
    and "platform_rows S rows"
  shows "platform_rows S (sql_update P f rows)"
  using assms by (auto simp: platform_rows_def platform_ids_def sql_update_def split: if_splits)

lemma platform_update_kind:
  assumes "\<And>r. wr_id (f r) = wr_id r \<and> wr_kind (f r) = wr_kind r" and "platform_rows S rows"
  shows "platform_rows S (sql_update P f rows)"
  by (rule platform_update) (use assms in \<open>auto simp: platform_rows_def platform_ids_def\<close>)

interpretation platforms: status_invariant "platform_rows S" for S
  by unfold_locales (auto simp: keeps_identity_def intro!: platform_update_kind)

lemma keeps_platform_update:
  "(\<And>r. wr_id (f r) = wr_id r \<and> wr_kind (f r) = wr_kind r) \<Longrightarrow> (\<And>x. keeps (on_rows (platform_rows S)) (k x)) \<Longrightarrow>
    keeps (on_rows (platform_rows S)) (exec (update_rows P f) k)"
  by (rule keeps_exec) (auto simp: on_rows_def intro!: platform_update_kind)


lemma keeps_platform_failed:
  "keeps (on_rows (platform_rows S)) q \<Longrightarrow> keeps (on_rows (platform_rows S)) (markWorkspaceFailed now j msg why q)"
  by (auto simp: markWorkspaceFailed_def intro!: row_rules keeps_platform_update)

lemma keeps_platform_Heartbeat: "keeps (on_rows (platform_rows S)) (Heartbeat env sr le c payload)"
proof (rule platforms.keeps_Heartbeat)
  show "keeps (on_rows (platform_rows S)) (evaluateStatus env sr le (rc_now c) p surface)" for p surface
    by (auto simp: evaluateStatus_def intro!: keeps_query platforms.keeps_generic platforms.keeps_platform_status
        keeps_platform_failed split: option.split)
qed (rule platforms.keeps_beat_columns)

lemma platform_upsert:
  assumes "kind = KindPlatform \<Longrightarrow> i \<in> S" and "on_rows (platform_rows S) s"
  shows "on_rows (platform_rows S) (fst (register_upsert now i url agentCard m kind s))"
proof -
  have append: "platform_rows S (rs_rows s @ [registered_row now i url agentCard m k])" if "k = KindPlatform \<Longrightarrow> i \<in> S" for k
    using assms(2) that by (auto simp: on_rows_def platform_rows_def platform_ids_def registered_row_def)
  have update: "platform_rows S (sql_update (\<lambda>r. wr_id r = i) (reregistered now url keep agentCard m kind) (rs_rows s))" for keep
  proof (rule platform_update)
    show "platform_rows S (rs_rows s)" using assms(2) by (simp add: on_rows_def)
    then show "wr_id (reregistered now url keep agentCard m kind r) \<in> S"
      if "r \<in> set (rs_rows s)" "wr_id r = i" "wr_kind (reregistered now url keep agentCard m kind r) = KindPlatform" for r
      using that assms(1) by (auto simp: reregistered_def platform_rows_def platform_ids_def split: if_splits)
  qed
  have "platform_rows S (rs_rows s @ [registered_row now i url agentCard m KindWorkspace])"
    by (rule append) (simp add: KindWorkspace_def KindPlatform_def)
  with assms append update show ?thesis
    by (auto simp: register_upsert_def on_rows_def Let_def split: option.split)
qed

lemma keeps_platform_Register: "keeps (on_rows (platform_rows S)) (Register env net renum c payload)"
proof (rule platforms.keeps_Register)
  let ?I = "on_rows (platform_rows S)"
  fix p :: RegisterPayload and s ek
  have gate: "keeps ?I (identity_gate env (rc_now c) p ek k)" if "\<And>x. keeps ?I (k x)" for k
    using that by (auto simp: identity_gate_def Let_def intro!: keeps_query keeps_platform_failed row_rules split: option.split)
  have checked: "keeps ?I (register_checked env net renum c p ek)" if "rp_Kind p = KindPlatform \<Longrightarrow> rp_ID p \<in> S"
  proof -
    have "keeps ?I (register_store env renum c p mode u)" for mode u
      by (rule platforms.keeps_register_store) (use that platform_upsert in blast)
    then show ?thesis
      by (auto simp: register_checked_def intro!: row_rules gate split: option.split sum.split prod.split)
  qed
  have known: "rp_ID p \<in> S" if "?I t" "map_option wr_kind (row t (rp_ID p)) = Some KindPlatform" for t
  proof -
    from that(2) obtain r where r: "row t (rp_ID p) = Some r" "wr_kind r = KindPlatform" by auto
    from sql_find_Some_iff [OF r(1)] r(2) that(1) show ?thesis
      by (auto simp: on_rows_def platform_rows_def platform_ids_def)
  qed
  show "keeps ?I (register_admitted env net renum c p ek)"
    unfolding register_admitted_def by (rule keeps_precheck) (auto intro!: checked dest: known)
qed

lemma keeps_platform_passes:
  "keeps (on_rows (platform_rows S)) (liveness_expired now key)"
  "keeps (on_rows (platform_rows S)) (sweepOnlineWorkspaces is_running now)"
  "keeps (on_rows (platform_rows S)) (sweepStaleRemoteWorkspaces env_value now)"
  "keeps (on_rows (platform_rows S)) (hibernateIdleWorkspaces now)"
  "keeps (on_rows (platform_rows S)) (sweepWedgedAgents threshold now db_now)"
  "keeps (on_rows (platform_rows S)) (reconcileOnce is_running deadline)"
  "keeps (on_rows (platform_rows S)) (cpSweepOnce stop_ok now)"
  "keeps (on_rows (platform_rows S)) (sweepStuckProvisioning rescue env_value lookup now)"
proof -
  have off: "keeps (on_rows (platform_rows S)) (take_offline now spared target j)" for spared target j
    by (auto simp: take_offline_def intro!: keeps_platform_update row_rules keeps_effect split: option.split)
  note rules = keeps_query keeps_for_each keeps_effect keeps_platform_update row_rules off
  show "keeps (on_rows (platform_rows S)) (liveness_expired now key)"
    by (auto simp: liveness_expired_def mark_expired_def intro!: rules split: option.split)
  show "keeps (on_rows (platform_rows S)) (sweepOnlineWorkspaces is_running now)"
    by (auto simp: sweepOnlineWorkspaces_def intro!: rules split: option.split bool.split)
  show "keeps (on_rows (platform_rows S)) (sweepStaleRemoteWorkspaces env_value now)"
    by (auto simp: sweepStaleRemoteWorkspaces_def Let_def intro!: rules split: option.split)
  show "keeps (on_rows (platform_rows S)) (hibernateIdleWorkspaces now)"
    by (auto simp: hibernateIdleWorkspaces_def intro!: rules split: option.split)
  show "keeps (on_rows (platform_rows S)) (sweepWedgedAgents threshold now db_now)"
    by (auto simp: sweepWedgedAgents_def Let_def intro!: rules split: option.split)
  show "keeps (on_rows (platform_rows S)) (reconcileOnce is_running deadline)"
    by (auto simp: reconcileOnce_def reconfirmStillOfflineCandidate_def intro!: rules split: option.split bool.split)
  show "keeps (on_rows (platform_rows S)) (cpSweepOnce stop_ok now)"
    by (auto simp: cpSweepOnce_def intro!: rules split: option.split)
  show "keeps (on_rows (platform_rows S)) (sweepStuckProvisioning rescue env_value lookup now)"
    by (auto simp: sweepStuckProvisioning_def stuck_candidate_def fail_stuck_def Let_def intro!: rules split: option.split)
qed

lemma agent_or_pass_platform: "agent_or_pass remote p \<Longrightarrow> keeps (on_rows (platform_rows S)) p"
  by (induction rule: agent_or_pass.induct)
    (auto intro!: keeps_bindp keeps_platform_Heartbeat keeps_platform_Register platforms.keeps_UpdateCard
      keeps_platform_passes keeps_orphans)

interpretation platform_agents: protected "on_rows (platform_rows S)" "agent_or_pass remote" for S remote
  by unfold_locales (rule agent_or_pass_platform)

text \<open>
  C16: no agent makes itself a platform agent. Whatever registrations, beats, card updates and
  passes interleave, and whichever of their statements fail, every workspace that is a platform
  agent afterwards was one before: the public endpoint neither creates nor promotes one, even
  when the check and the write of a registration are separated by other statements.
\<close>

theorem platform_never_minted:
  assumes "\<forall>p \<in> set ps. agent_or_pass True p" and "moves (s, ps) (s', ps')"
  shows "platform_ids (rs_rows s') \<subseteq> platform_ids (rs_rows s)"
  using platform_agents.moves_kept [OF assms(2), of "platform_ids (rs_rows s)" True] assms(1)
  by (simp add: on_rows_def platform_rows_def)

theorem platform_never_minted_witness:
  "platform_ids (rs_rows (logged (OfflineCallback ''w'') (fst (mark_expired 5 ''w'' paused_state)))) = {}"
proof -
  have "platform_ids (rs_rows paused_state) = {}"
    by (auto simp: paused_state_def blank_state_def blank_row_def platform_ids_def KindWorkspace_def KindPlatform_def)
  with platform_never_minted [OF _ expired_moves] show ?thesis by (simp add: agent_or_pass.key_expires)
qed

end
