(* ===== verification/Workspace_Lifecycle.thy ===== *)
theory Workspace_Lifecycle
  imports Status_Guard
begin

text \<open>
  The operator's side of the life cycle (\<^verbatim>\<open>internal/handlers/workspace_restart.go\<close>, with
  \<open>CascadeDelete\<close> of \<^verbatim>\<open>workspace_crud.go\<close> and the dispatchers of
  \<^verbatim>\<open>workspace_dispatchers.go\<close>): pause, resume, hibernate, wake, restart and delete, as
  programs of the statements they send.

  The backend is a parameter: which provisioner is wired, whether a stop succeeds, whether the
  pinned image of a workspace can be obtained, whether its container runs. A dispatched provision
  is logged; what it does is not modelled. The reads that only assemble the provision request,
  the canvas layout rows, the capture of schedules before a delete and the message that tells an
  agent why it was restarted are left out. A detached context with a deadline shows as statements that fail.
\<close>

record life_env =
  le_cp :: bool
  le_docker :: bool
  le_sidecar :: bool
  le_stop :: "string \<Rightarrow> bool"
  le_image :: "string \<Rightarrow> bool"
  le_running :: "string \<Rightarrow> bool option"

definition EventWorkspaceProvisioning :: string where "EventWorkspaceProvisioning = ''WORKSPACE_PROVISIONING''"
definition EventWorkspacePaused :: string where "EventWorkspacePaused = ''WORKSPACE_PAUSED''"
definition EventWorkspaceHibernated :: string where "EventWorkspaceHibernated = ''WORKSPACE_HIBERNATED''"
definition EventWorkspaceRemoved :: string where "EventWorkspaceRemoved = ''WORKSPACE_REMOVED''"
definition EventWorkspaceRestartDeclined :: string where "EventWorkspaceRestartDeclined = ''WORKSPACE_RESTART_DECLINED''"

subsection \<open>Dispatchers\<close>

definition HasProvisioner :: "life_env \<Rightarrow> bool" where
  "HasProvisioner le = (le_cp le \<or> le_docker le)"

text \<open>The continuation gets whether the stop was without error.\<close>

definition StopWorkspaceAuto :: "life_env \<Rightarrow> string \<Rightarrow> (bool \<Rightarrow> 'r handler) \<Rightarrow> 'r handler" where
  "StopWorkspaceAuto le i k =
    (if HasProvisioner le then effect (logged (StopContainer i)) (k (le_stop le i)) else k True)"

definition markProvisionFailed :: "time \<Rightarrow> string \<Rightarrow> string \<Rightarrow> 'r handler \<Rightarrow> 'r handler" where
  "markProvisionFailed now i msg q =
    exec (live_update i (\<lambda>r. r\<lparr>wr_status := StatusFailed, wr_sample_error := msg, wr_updated := now\<rparr>)) (\<lambda>_.
    RecordAndBroadcast EventWorkspaceProvisionFailed i [(''error'', JStr msg)] (\<lambda>_. q))"

definition no_backend_message :: string where
  "no_backend_message = ''no provisioning backend available '' @ [CHR 0xE2, CHR 0x80, CHR 0x94]
     @ '' workspace requires either a Docker daemon (self-hosted) or control-plane provisioner (SaaS)''"

definition provisionWorkspaceAuto :: "life_env \<Rightarrow> time \<Rightarrow> string \<Rightarrow> 'r handler \<Rightarrow> 'r handler" where
  "provisionWorkspaceAuto le now i q =
    (if HasProvisioner le then effect (logged (ProvisionBox i)) q
     else markProvisionFailed now i no_backend_message q)"

definition clearWorkspaceRouting :: "time \<Rightarrow> string \<Rightarrow> 'r handler \<Rightarrow> 'r handler" where
  "clearWorkspaceRouting now i q =
    exec (update_rows (\<lambda>r. wr_id r = i) (\<lambda>r. r\<lparr>wr_url := Some [], wr_updated := now\<rparr>)) (\<lambda>_. ClearWorkspaceKeys i q)"

definition provisioning_event :: "string \<Rightarrow> int \<Rightarrow> string \<Rightarrow> string \<Rightarrow> (string \<times> json) list" where
  "provisioning_event name tier runtime template =
    [(''name'', JStr name), (''tier'', JInt tier), (''runtime'', JStr runtime), (''template'', JStr template)]"

subsection \<open>The tree\<close>

text \<open>
  \<open>isParentPaused\<close> follows the parents until one is paused. The recursion of the code ends with
  the chain of parents; \<open>fuel\<close> bounds the parents it reads.
\<close>

primrec isParentPaused :: "nat \<Rightarrow> string \<Rightarrow> (string option \<Rightarrow> 'r handler) \<Rightarrow> 'r handler" where
  "isParentPaused 0 i k = k None"
| "isParentPaused (Suc fuel) i k =
    query (\<lambda>s. case row s i of None \<Rightarrow> None | Some r \<Rightarrow> wr_parent r) (\<lambda>res.
      case res of
        Some (Some parentID) \<Rightarrow>
          query (\<lambda>s. row s parentID) (\<lambda>res.
            case res of
              Some (Some pr) \<Rightarrow>
                if wr_status pr = StatusPaused then k (Some (wr_name pr)) else isParentPaused fuel parentID k
            | _ \<Rightarrow> k None)
      | _ \<Rightarrow> k None)"

text \<open>The recursive query over the children, level by level; \<open>fuel\<close> bounds the levels.\<close>

primrec levels :: "nat \<Rightarrow> (ws_row \<Rightarrow> bool) \<Rightarrow> ws_row list \<Rightarrow> string list \<Rightarrow> ws_row list" where
  "levels 0 P rows frontier = []"
| "levels (Suc fuel) P rows frontier =
    (let next = filter (\<lambda>r. P r \<and> (case wr_parent r of None \<Rightarrow> False | Some p \<Rightarrow> p \<in> set frontier)) rows
     in if next = [] then [] else next @ levels fuel P rows (map wr_id next))"

definition descendants :: "(ws_row \<Rightarrow> bool) \<Rightarrow> string \<Rightarrow> reg_state \<Rightarrow> ws_row list" where
  "descendants P i s = levels (length (rs_rows s)) P (rs_rows s) [i]"

subsection \<open>Pause\<close>

datatype life_stage = StageStop | StageMark | StageClaim | StageBroadcast

type_synonym life_failure = "string \<times> life_stage"

datatype pause_reply = PauseRejected int string | HasDescendants "string list" | PausedAll nat
  | PauseFailed "life_failure list" | PartiallyPaused nat "life_failure list"

definition pausable :: "ws_row \<Rightarrow> bool" where
  "pausable r = (wr_status r \<notin> {StatusRemoved, StatusPaused})"

definition pause_claim :: "time \<Rightarrow> string \<Rightarrow> reg_state \<Rightarrow> reg_state \<times> nat" where
  "pause_claim now i = update_rows (\<lambda>r. wr_id r = i \<and> pausable r)
     (\<lambda>r. r\<lparr>wr_status := StatusPaused, wr_url := Some [], wr_updated := now\<rparr>)"

text \<open>The failures of one workspace and whether this call parked it.\<close>

definition pause_one :: "life_env \<Rightarrow> time \<Rightarrow> string \<times> string \<Rightarrow> (life_failure list \<times> bool) handler" where
  "pause_one le now ws =
    (let i = fst ws in
     StopWorkspaceAuto le i (\<lambda>stopped.
       if \<not> stopped then Ret ([(i, StageStop)], False)
       else exec (pause_claim now i) (\<lambda>res.
         case res of
           None \<Rightarrow> Ret ([(i, StageMark)], False)
         | Some n \<Rightarrow>
             if n = 0 then Ret ([(i, StageClaim)], False)
             else ClearWorkspaceKeys i
               (RecordAndBroadcast EventWorkspacePaused i [(''name'', JStr (snd ws))] (\<lambda>res.
                 Ret (if res = None then [(i, StageBroadcast)] else [], True))))))"

primrec each_counted :: "('a \<Rightarrow> (life_failure list \<times> bool) handler) \<Rightarrow> 'a list \<Rightarrow> (life_failure list \<times> nat) handler" where
  "each_counted body [] = Ret ([], 0)"
| "each_counted body (x # xs) = bindp (body x) (\<lambda>(fs, done). bindp (each_counted body xs) (\<lambda>(gs, n).
     Ret (fs @ gs, n + (if done then 1 else 0))))"

definition Pause :: "life_env \<Rightarrow> time \<Rightarrow> bool \<Rightarrow> string \<Rightarrow> pause_reply handler" where
  "Pause le now cascade i =
    query (\<lambda>s. row s i) (\<lambda>res.
      case res of
        None \<Rightarrow> Ret (PauseRejected 500 ''lookup failed'')
      | Some None \<Rightarrow> Ret (PauseRejected 404 ''workspace not found or already paused'')
      | Some (Some r) \<Rightarrow>
          if \<not> pausable r then Ret (PauseRejected 404 ''workspace not found or already paused'')
          else query (descendants pausable i) (\<lambda>res.
            let below = (case res of None \<Rightarrow> [] | Some rs \<Rightarrow> rs) in
            if \<not> cascade \<and> below \<noteq> [] then Ret (HasDescendants (map wr_id below))
            else bindp (each_counted (pause_one le now) ((i, wr_name r) # map (\<lambda>d. (wr_id d, wr_name d)) below)) (\<lambda>(failures, n).
              Ret (if failures = [] then PausedAll n else if n = 0 then PauseFailed failures
                   else PartiallyPaused n failures))))"

subsection \<open>Resume\<close>

datatype resume_reply = ResumeRejected int string | ResumeDescendants "string list" | ResumedAll nat
  | ResumeFailed "life_failure list" | PartiallyResumed nat "life_failure list"

definition resume_claim :: "time \<Rightarrow> string \<Rightarrow> reg_state \<Rightarrow> reg_state \<times> nat" where
  "resume_claim now i = update_rows (\<lambda>r. wr_id r = i \<and> wr_status r = StatusPaused)
     (\<lambda>r. r\<lparr>wr_status := StatusProvisioning, wr_unloaded_since := None, wr_updated := now\<rparr>)"

definition row_event :: "ws_row \<Rightarrow> (string \<times> json) list" where
  "row_event r = provisioning_event (wr_name r) (wr_tier r) (runtime_or ''claude-code'' r) (wr_template r)"

definition resume_one :: "life_env \<Rightarrow> time \<Rightarrow> ws_row \<Rightarrow> (life_failure list \<times> bool) handler" where
  "resume_one le now r =
    (let i = wr_id r in
     exec (resume_claim now i) (\<lambda>res.
       case res of
         None \<Rightarrow> Ret ([(i, StageMark)], False)
       | Some n \<Rightarrow>
           if n = 0 then Ret ([(i, StageClaim)], False)
           else effect (logged (ResetAutoRestarts i))
             (RecordAndBroadcast EventWorkspaceProvisioning i (row_event r) (\<lambda>res.
             provisionWorkspaceAuto le now i (Ret (if res = None then [(i, StageBroadcast)] else [], True))))))"

definition paused_parent_message :: "string \<Rightarrow> string" where
  "paused_parent_message name = ''parent workspace '' @ [CHR 0x22] @ name @ [CHR 0x22] @ '' is paused '' @ [CHR 0xE2, CHR 0x80, CHR 0x94] @ '' resume it first''"

definition Resume :: "life_env \<Rightarrow> nat \<Rightarrow> time \<Rightarrow> bool \<Rightarrow> string \<Rightarrow> resume_reply handler" where
  "Resume le fuel now cascade i =
    query (\<lambda>s. row s i) (\<lambda>res.
      case res of
        None \<Rightarrow> Ret (ResumeRejected 500 ''lookup failed'')
      | Some None \<Rightarrow> Ret (ResumeRejected 404 ''workspace not found or not paused'')
      | Some (Some r) \<Rightarrow>
          if wr_status r \<noteq> StatusPaused then Ret (ResumeRejected 404 ''workspace not found or not paused'')
          else if \<not> HasProvisioner le then Ret (ResumeRejected 503 ''provisioner not available'')
          else isParentPaused fuel i (\<lambda>paused.
            case paused of
              Some parentName \<Rightarrow> Ret (ResumeRejected 409 (paused_parent_message parentName))
            | None \<Rightarrow>
                query (descendants (\<lambda>d. wr_status d = StatusPaused) i) (\<lambda>res.
                  let below = (case res of None \<Rightarrow> [] | Some rs \<Rightarrow> rs) in
                  if \<not> cascade \<and> below \<noteq> [] then Ret (ResumeDescendants (map wr_id below))
                  else bindp (each_counted (resume_one le now) (r # below)) (\<lambda>(failures, n).
                    Ret (if failures = [] then ResumedAll n else if n = 0 then ResumeFailed failures
                         else PartiallyResumed n failures)))))"


subsection \<open>Hibernate and wake\<close>

datatype hibernate_result = Hibernated | NotClaimed | HibernateError

datatype hibernate_reply = HibernateRejected int string | HibernatedOk

definition hibernate_claim :: "time \<Rightarrow> bool \<Rightarrow> string \<Rightarrow> reg_state \<Rightarrow> reg_state \<times> nat" where
  "hibernate_claim now force i = update_rows
     (\<lambda>r. wr_id r = i \<and> running_status r \<and> (force \<or> wr_active_tasks r = 0))
     (\<lambda>r. r\<lparr>wr_status := StatusHibernating, wr_updated := now\<rparr>)"

definition mark_hibernated :: "time \<Rightarrow> string \<Rightarrow> reg_state \<Rightarrow> reg_state \<times> nat" where
  "mark_hibernated now i = update_rows (\<lambda>r. wr_id r = i)
     (\<lambda>r. r\<lparr>wr_status := StatusHibernated, wr_url := Some [], wr_active_tasks := 0, wr_updated := now\<rparr>)"

definition hibernateWorkspace :: "life_env \<Rightarrow> time \<Rightarrow> bool \<Rightarrow> string \<Rightarrow> hibernate_result handler" where
  "hibernateWorkspace le now force i =
    exec (hibernate_claim now force i) (\<lambda>res.
      case res of
        None \<Rightarrow> Ret HibernateError
      | Some n \<Rightarrow>
          if n = 0 then Ret NotClaimed
          else query (\<lambda>s. map_option (\<lambda>r. (wr_name r, wr_tier r)) (row s i)) (\<lambda>res.
            let (name, tier) = (case res of Some (Some nt) \<Rightarrow> nt | _ \<Rightarrow> (i, 0)) in
            StopWorkspaceAuto le i (\<lambda>_.
            exec (mark_hibernated now i) (\<lambda>res.
              case res of
                None \<Rightarrow> Ret HibernateError
              | Some _ \<Rightarrow>
                  ClearWorkspaceKeys i
                  (RecordAndBroadcast EventWorkspaceHibernated i [(''name'', JStr name), (''tier'', JInt tier)] (\<lambda>_.
                   Ret Hibernated))))))"

definition HibernateWorkspace :: "life_env \<Rightarrow> time \<Rightarrow> string \<Rightarrow> unit handler" where
  "HibernateWorkspace le now i = bindp (hibernateWorkspace le now False i) (\<lambda>_. Ret ())"

definition hibernate_partway :: string where
  "hibernate_partway = ''hibernation failed partway '' @ [CHR 0xE2, CHR 0x80, CHR 0x94]
     @ '' the workspace may be stopped with its row left mid-transition; re-check its status before retrying''"

definition hibernate_lost :: string where
  "hibernate_lost = ''workspace could not be hibernated '' @ [CHR 0xE2, CHR 0x80, CHR 0x94]
     @ '' it was no longer online/degraded-and-idle when the claim landed (a concurrent pause, restart, or hibernation, or a heartbeat that raised active_tasks since the eligibility check)''"

definition Hibernate :: "life_env \<Rightarrow> time \<Rightarrow> bool \<Rightarrow> string \<Rightarrow> hibernate_reply handler" where
  "Hibernate le now force i =
    query (\<lambda>s. row s i) (\<lambda>res.
      case res of
        None \<Rightarrow> Ret (HibernateRejected 500 ''lookup failed'')
      | Some None \<Rightarrow> Ret (HibernateRejected 404 ''workspace not found or not in a hibernatable state (must be online or degraded)'')
      | Some (Some r) \<Rightarrow>
          if \<not> running_status r
          then Ret (HibernateRejected 404 ''workspace not found or not in a hibernatable state (must be online or degraded)'')
          else if wr_active_tasks r > 0 \<and> \<not> force
          then Ret (HibernateRejected 409 ''workspace has active tasks; use ?force=true to terminate them'')
          else bindp (hibernateWorkspace le now force i) (\<lambda>result.
            case result of
              Hibernated \<Rightarrow> Ret HibernatedOk
            | HibernateError \<Rightarrow> Ret (HibernateRejected 500 hibernate_partway)
            | NotClaimed \<Rightarrow> Ret (HibernateRejected 409 hibernate_lost)))"

definition wake_claim :: "time \<Rightarrow> string \<Rightarrow> reg_state \<Rightarrow> reg_state \<times> nat" where
  "wake_claim now i = update_rows (\<lambda>r. wr_id r = i \<and> wr_status r = StatusHibernated)
     (\<lambda>r. r\<lparr>wr_status := StatusProvisioning, wr_url := Some [], wr_updated := now\<rparr>)"

definition WakeWorkspace :: "life_env \<Rightarrow> time \<Rightarrow> string \<Rightarrow> unit handler" where
  "WakeWorkspace le now i =
    (if \<not> HasProvisioner le then Ret ()
     else exec (wake_claim now i) (\<lambda>res.
       if res = None \<or> res = Some 0 then Ret ()
       else query (\<lambda>s. row s i) (\<lambda>res.
         case res of
           Some (Some r) \<Rightarrow>
             RecordAndBroadcast EventWorkspaceProvisioning i (row_event r) (\<lambda>_. provisionWorkspaceAuto le now i (Ret ()))
         | _ \<Rightarrow> Ret ())))"

subsection \<open>Restart\<close>

definition markProvisioningForRestart :: "time \<Rightarrow> string \<Rightarrow> 'r handler \<Rightarrow> 'r handler" where
  "markProvisioningForRestart now i q =
    exec (update_rows (\<lambda>r. wr_id r = i)
      (\<lambda>r. r\<lparr>wr_status := StatusProvisioning, wr_unloaded_since := None, wr_updated := now\<rparr>)) (\<lambda>_. q)"

definition declined_message :: "string \<Rightarrow> string" where
  "declined_message runtime = ''restart declined '' @ [CHR 0xE2, CHR 0x80, CHR 0x94] @ '' the pinned image for runtime='' @ runtime
     @ '' could not be made available, so the running container was left untouched (core#5019). ''
     @ ''The workspace is still serving its previous version; it will retry on the next restart.''"

definition stranded_message :: "string \<Rightarrow> string" where
  "stranded_message runtime = ''first boot declined '' @ [CHR 0xE2, CHR 0x80, CHR 0x94] @ '' the pinned image for runtime='' @ runtime
     @ '' could not be made available, so no container was ever started (core#5019). ''
     @ ''This workspace has never had a running agent, so nothing is serving and no heartbeat ''
     @ ''will arrive to change this status; marking failed rather than holding 'provisioning' ''
     @ ''with no verdict (core#5136).''"

definition fail_stranded :: "time \<Rightarrow> string \<Rightarrow> string \<Rightarrow> reg_state \<Rightarrow> reg_state \<times> nat" where
  "fail_stranded now i msg = update_rows (\<lambda>r. wr_id r = i \<and> wr_status r = StatusProvisioning \<and> wr_heartbeat r = None)
     (\<lambda>r. r\<lparr>wr_status := StatusFailed, wr_sample_error := msg, wr_updated := now\<rparr>)"

definition markRestartDeclined :: "time \<Rightarrow> string \<Rightarrow> string \<Rightarrow> string \<Rightarrow> string \<Rightarrow> 'r handler \<Rightarrow> 'r handler" where
  "markRestartDeclined now i wsName runtime template q =
    exec (fail_stranded now i (stranded_message runtime)) (\<lambda>res.
      let stranded = (case res of Some n \<Rightarrow> n > 0 | None \<Rightarrow> False);
          declined = (\<lambda>msg reason k. RecordAndBroadcast EventWorkspaceRestartDeclined i
            [(''name'', JStr wsName), (''runtime'', JStr runtime), (''template'', JStr template), (''error'', JStr msg),
             (''reason'', JStr reason)] (\<lambda>_. k))
      in if stranded
         then declined (stranded_message runtime) ''image_prewarm_declined_no_container''
           (RecordAndBroadcast EventWorkspaceProvisionFailed i
             [(''name'', JStr wsName), (''runtime'', JStr runtime), (''error'', JStr (stranded_message runtime)),
              (''source'', JStr ''image_prewarm_declined_no_container'')] (\<lambda>_. q))
         else declined (declined_message runtime) ''image_prewarm_declined''
           (exec (update_rows (\<lambda>r. wr_id r = i) (\<lambda>r. r\<lparr>wr_sample_error := declined_message runtime, wr_updated := now\<rparr>)) (\<lambda>_. q)))"

text \<open>The dispatch of a manual restart, which runs after the reply.\<close>

definition RestartWorkspaceAutoOpts :: "life_env \<Rightarrow> time \<Rightarrow> string \<Rightarrow> string \<Rightarrow> string \<Rightarrow> string \<Rightarrow> bool handler" where
  "RestartWorkspaceAutoOpts le now i wsName runtime template =
    (if le_cp le \<and> \<not> le_image le i then markRestartDeclined now i wsName runtime template (Ret False)
     else if HasProvisioner le
     then effect (logged (StopContainer i)) (clearWorkspaceRouting now i (effect (logged (ProvisionBox i)) (Ret True)))
     else markProvisionFailed now i no_backend_message (Ret False))"

datatype restart_reply = RestartRejected int string | RestartNoop string | RestartProvisioning

text \<open>\<open>body_ok\<close>: the body is empty or binds.\<close>

definition Restart :: "life_env \<Rightarrow> nat \<Rightarrow> time \<Rightarrow> bool \<Rightarrow> string \<Rightarrow> restart_reply handler" where
  "Restart le fuel now body_ok i =
    query (\<lambda>s. row s i) (\<lambda>res.
      case res of
        None \<Rightarrow> Ret (RestartRejected 500 ''lookup failed'')
      | Some None \<Rightarrow> Ret (RestartRejected 404 ''workspace not found'')
      | Some (Some r) \<Rightarrow>
          if wr_status r = StatusRemoved then Ret (RestartRejected 404 ''workspace not found'')
          else isParentPaused fuel i (\<lambda>paused.
            case paused of
              Some parentName \<Rightarrow> Ret (RestartRejected 409 (paused_parent_message parentName))
            | None \<Rightarrow>
                let runtime = runtime_or ''claude-code'' r in
                if isExternalLikeRuntime runtime \<or> runtime = ''mock'' then Ret (RestartNoop runtime)
                else if \<not> HasProvisioner le then Ret (RestartRejected 503 ''provisioner not available'')
                else if \<not> body_ok then Ret (RestartRejected 400 ''invalid JSON body'')
                else markProvisioningForRestart now i
                  (RecordAndBroadcast EventWorkspaceProvisioning i
                    [(''name'', JStr (wr_name r)), (''tier'', JInt (wr_tier r)), (''runtime'', JStr runtime)] (\<lambda>_.
                   effect (logged (ResetAutoRestarts i))
                   (effect (logged (RestartDispatched i)) (Ret RestartProvisioning))))))"

definition isLiveWarmingPlatformConcierge :: "string \<Rightarrow> WorkspaceStatus \<Rightarrow> bool option \<Rightarrow> bool" where
  "isLiveWarmingPlatformConcierge kind status running =
    (running = Some True \<and> kind = KindPlatform \<and> status = StatusProvisioning)"

definition halt_message :: "string \<Rightarrow> string" where
  "halt_message trigger = ''Automatic restarts stopped: 3 automatic restarts within 30m0s did not keep this workspace up (last trigger: ''
     @ trigger @ ''). It will not be restarted automatically again until it is restarted manually.''"

definition haltAutoRestarts :: "time \<Rightarrow> string \<Rightarrow> string \<Rightarrow> unit handler" where
  "haltAutoRestarts now i trigger =
    exec (update_rows (\<lambda>r. wr_id r = i
        \<and> wr_status r \<notin> {StatusRemoved, StatusProvisioning, StatusPaused, StatusHibernated, StatusFailed})
      (\<lambda>r. r\<lparr>wr_status := StatusFailed, wr_sample_error := halt_message trigger, wr_updated := now\<rparr>)) (\<lambda>res.
      if res = None \<or> res = Some 0 then Ret ()
      else RecordAndBroadcast EventWorkspaceProvisionFailed i
        [(''error'', JStr (halt_message trigger)), (''source'', JStr ''auto_restart_crash_loop''), (''trigger'', JStr trigger)]
        (\<lambda>_. Ret ()))"

text \<open>
  One cycle of an automatic restart. \<open>trigger\<close> is empty for a programmatic restart; \<open>halted\<close>
  is the verdict of the crash-loop breaker.
\<close>

definition runRestartCycle :: "life_env \<Rightarrow> nat \<Rightarrow> time \<Rightarrow> (string \<Rightarrow> bool) \<Rightarrow> string \<Rightarrow> string \<Rightarrow> unit handler" where
  "runRestartCycle le fuel now halted i trigger =
    query (\<lambda>s. row s i) (\<lambda>res.
      case res of
        Some (Some r) \<Rightarrow>
          let runtime = runtime_or ''claude-code'' r in
          if dormant (wr_status r) \<or> isExternalLikeRuntime runtime \<or> runtime = ''mock'' then Ret ()
          else isParentPaused fuel i (\<lambda>paused.
            if paused \<noteq> None then Ret ()
            else if HasProvisioner le \<and> isLiveWarmingPlatformConcierge (wr_kind r) (wr_status r) (le_running le i) then Ret ()
            else if trigger \<noteq> [] \<and> halted i then haltAutoRestarts now i trigger
            else if \<not> le_image le i then markRestartDeclined now i (wr_name r) runtime (wr_template r) (Ret ())
            else effect (\<lambda>s. if HasProvisioner le then logged (StopContainer i) s else s)
              (clearWorkspaceRouting now i
              (effect (\<lambda>s. if trigger \<noteq> [] then logged (CountAutoRestart i) s else s)
              (exec (update_rows (\<lambda>r. wr_id r = i) (\<lambda>r. r\<lparr>wr_status := StatusProvisioning, wr_url := Some [],
                  wr_unloaded_since := None, wr_updated := now\<rparr>)) (\<lambda>_.
              RecordAndBroadcast EventWorkspaceProvisioning i (row_event r) (\<lambda>_.
              provisionWorkspaceAuto le now i (Ret ())))))))
      | _ \<Rightarrow> Ret ())"


subsection \<open>Delete\<close>

definition revoke_all_tokens :: "time \<Rightarrow> string list \<Rightarrow> reg_state \<Rightarrow> reg_state \<times> unit" where
  "revoke_all_tokens now ids s =
    (s\<lparr>rs_tokens := sql_update (\<lambda>t. wt_workspace t \<in> set ids \<and> wt_revoked t = None) (\<lambda>t. t\<lparr>wt_revoked := Some now\<rparr>) (rs_tokens s)\<rparr>, ())"

definition mark_removed :: "time \<Rightarrow> string list \<Rightarrow> reg_state \<Rightarrow> reg_state \<times> nat" where
  "mark_removed now ids = update_rows (\<lambda>r. wr_id r \<in> set ids) (\<lambda>r. r\<lparr>wr_status := StatusRemoved, wr_updated := now\<rparr>)"

text \<open>The stop before a delete; a control plane that keeps failing leaves a durable record.\<close>

definition stopWorkspaceForDelete :: "life_env \<Rightarrow> string \<Rightarrow> (bool \<Rightarrow> 'r handler) \<Rightarrow> 'r handler" where
  "stopWorkspaceForDelete le i k =
    (if \<not> HasProvisioner le then k True
     else effect (logged (StopContainer i))
       (if le_cp le \<and> \<not> le_stop le i then exec (\<lambda>s. (logged (RetriesExhausted i) s, ())) (\<lambda>_. k False)
        else k (le_stop le i)))"

definition delete_one :: "life_env \<Rightarrow> time \<Rightarrow> (string \<times> json) list \<Rightarrow> string \<Rightarrow> (string list) handler" where
  "delete_one le now payload i =
    (let rest = (\<lambda>errs. ClearWorkspaceKeys i (RecordAndBroadcast EventWorkspaceRemoved i payload (\<lambda>_. Ret errs)));
         desktop = (\<lambda>q. if le_sidecar le then effect (logged (StopDesktop i)) (effect (logged (WipeProfile i)) q) else q);
         volume = (\<lambda>q. if le_docker le then effect (logged (RemoveVolume i)) q else q)
     in stopWorkspaceForDelete le i (\<lambda>stopped.
       if \<not> stopped then rest [i]
       else exec (update_rows (\<lambda>r. wr_id r = i) (\<lambda>r. r\<lparr>wr_instance := None, wr_updated := now\<rparr>)) (\<lambda>_.
         volume (desktop (rest [])))))"

primrec delete_each :: "life_env \<Rightarrow> time \<Rightarrow> string list \<Rightarrow> (string list) handler" where
  "delete_each le now [] = Ret []"
| "delete_each le now (i # ids) = bindp (delete_one le now [] i) (\<lambda>errs. bindp (delete_each le now ids) (\<lambda>errs'. Ret (errs @ errs')))"

text \<open>
  The descendants and the workspaces whose stop failed; \<open>None\<close> when the descendants could not be
  read. \<open>valid\<close> is the shape check of the id.
\<close>

definition CascadeDelete :: "life_env \<Rightarrow> bool \<Rightarrow> time \<Rightarrow> string \<Rightarrow> (string list \<times> string list) option handler" where
  "CascadeDelete le valid now i =
    (if \<not> valid then Ret None
     else query (\<lambda>s. map wr_id (descendants (\<lambda>d. wr_status d \<noteq> StatusRemoved) i s)) (\<lambda>res.
       case res of
         None \<Rightarrow> Ret None
       | Some below \<Rightarrow>
           exec (mark_removed now (i # below)) (\<lambda>_.
           exec (revoke_all_tokens now (i # below)) (\<lambda>_.
           effect (logged (CancelProvisions (i # below)))
           (bindp (delete_each le now below) (\<lambda>errs.
            bindp (delete_one le now [(''cascade_deleted'', JInt (int (length below)))] i) (\<lambda>errs'.
            Ret (Some (below, errs @ errs')))))))))"

definition WorkspaceIsRemoved :: "string \<Rightarrow> (bool \<Rightarrow> 'r handler) \<Rightarrow> 'r handler" where
  "WorkspaceIsRemoved i k =
    query (\<lambda>s. status_of s i) (\<lambda>res.
      k (case res of None \<Rightarrow> False | Some None \<Rightarrow> True | Some (Some st) \<Rightarrow> st = StatusRemoved))"

end
