(* ===== verification/Lifecycle_Guarantees.thy ===== *)
theory Lifecycle_Guarantees
  imports Workspace_Lifecycle
begin

text \<open>
  What the replies of pause, resume, hibernate and delete mean. A run of one of them alone, with
  any of its statements failing, is described by what it does to the rows (\<open>changes_status\<close>); the
  invariants of \<open>Status_Guard\<close> then carry the result through whatever agents and passes do next.
  For resumes that race, each claim of a parked row pays for at most one new box: \<open>funded\<close> is
  that accounting, the locale \<open>accounted\<close> its contract, and its lemma holds for every interleaving.
\<close>

subsection \<open>Running the building blocks\<close>

lemma run_then: "run p fs s = (r, u) \<Longrightarrow> \<exists>gs. run (bindp p k) fs s = run (k r) gs u"
  using run_bindp_any [of p k fs s] by simp

lemma run_ClearWorkspaceKeys:
  "\<exists>gs t. run (ClearWorkspaceKeys i q) fs s = run q gs t \<and> rs_rows t = rs_rows s \<and> rs_log t = rs_log s \<and> rs_tokens t = rs_tokens s"
  unfolding ClearWorkspaceKeys_def run_any by (simp; fastforce)

lemma run_RecordAndBroadcast:
  "\<exists>gs t x. run (RecordAndBroadcast e i pl k) fs s = run (k x) gs t \<and> rs_rows t = rs_rows s \<and> rs_tokens t = rs_tokens s
     \<and> (\<exists>es. rs_log t = rs_log s @ es \<and> set es \<subseteq> {Recorded e i pl})"
  unfolding RecordAndBroadcast_def run_any by (cases "fails_now fs") fastforce+

lemma run_cleared:
  "\<exists>gs t x. run (ClearWorkspaceKeys i (RecordAndBroadcast e j pl k)) fs s = run (k x) gs t \<and> rs_rows t = rs_rows s
     \<and> rs_tokens t = rs_tokens s \<and> (\<exists>es. rs_log t = rs_log s @ es \<and> set es \<subseteq> {Recorded e j pl})"
proof -
  obtain gs u where u: "run (ClearWorkspaceKeys i (RecordAndBroadcast e j pl k)) fs s = run (RecordAndBroadcast e j pl k) gs u"
    "rs_rows u = rs_rows s" "rs_log u = rs_log s" "rs_tokens u = rs_tokens s"
    using run_ClearWorkspaceKeys by blast
  show ?thesis unfolding u(1) u(2-) [symmetric] by (rule run_RecordAndBroadcast)
qed

lemma status_rows: "rs_rows t = rs_rows s \<Longrightarrow> status_of t j = status_of s j"
  by (simp add: status_of_def)

definition kind_of :: "reg_state \<Rightarrow> string \<Rightarrow> string option" where
  "kind_of s i = map_option wr_kind (row s i)"

lemma kind_rows: "rs_rows t = rs_rows s \<Longrightarrow> kind_of t j = kind_of s j"
  by (simp add: kind_of_def)

lemma kind_update_rows:
  assumes "\<And>r. wr_id (f r) = wr_id r" and "\<And>r. wr_kind (f r) = wr_kind r"
  shows "kind_of (fst (update_rows P f s)) j = kind_of s j"
  by (cases "row s j") (simp_all add: kind_of_def find_update_rows assms)

lemma status_update_same:
  assumes "\<And>r. wr_id (f r) = wr_id r" and "\<And>r. wr_status (f r) = wr_status r"
  shows "status_of (fst (update_rows P f s)) j = status_of s j"
  by (cases "row s j") (simp_all add: status_of_def find_update_rows assms)

lemma row_update_other:
  assumes "\<And>r. wr_id (f r) = wr_id r" and "\<And>r. P r \<Longrightarrow> wr_id r = i" and "j \<noteq> i"
  shows "row (fst (update_rows P f s)) j = row s j"
  unfolding row_update_rows [where f = f, OF assms(1)] using assms(2,3) by (cases "row s j") (auto dest: sql_find_Some_iff)

text \<open>A claim of one workspace: it wins exactly when the row is there and eligible.\<close>

lemma status_claim:
  assumes "unique_key wr_id (rs_rows s)" and "\<And>r. wr_id (f r) = wr_id r" and "\<And>r. wr_status (f r) = st"
  shows "snd (update_rows (\<lambda>r. wr_id r = i \<and> Q r) f s) > 0 \<longleftrightarrow> (\<exists>r. row s i = Some r \<and> Q r)"
    and "status_of (fst (update_rows (\<lambda>r. wr_id r = i \<and> Q r) f s)) j =
      (if j = i \<and> (\<exists>r. row s i = Some r \<and> Q r) then Some st else status_of s j)"
proof -
  show "snd (update_rows (\<lambda>r. wr_id r = i \<and> Q r) f s) > 0 \<longleftrightarrow> (\<exists>r. row s i = Some r \<and> Q r)"
    by (simp add: update_rows_def affected_row [OF assms(1)] split: option.split)
  show "status_of (fst (update_rows (\<lambda>r. wr_id r = i \<and> Q r) f s)) j =
      (if j = i \<and> (\<exists>r. row s i = Some r \<and> Q r) then Some st else status_of s j)"
    unfolding status_update_rows [where f = f, OF assms(2)] status_of_def [of s] using assms(3)
    by (cases "row s j") (auto dest: sql_find_Some_iff)
qed

subsection \<open>Pausing\<close>

lemma status_pause_claim:
  assumes "unique_key wr_id (rs_rows s)"
  shows "snd (pause_claim now i s) > 0 \<longleftrightarrow> (\<exists>r. row s i = Some r \<and> pausable r)"
    and "status_of (fst (pause_claim now i s)) j =
      (if j = i \<and> snd (pause_claim now i s) > 0 then Some StatusPaused else status_of s j)"
    and "unique_key wr_id (rs_rows (fst (pause_claim now i s)))"
    and "kind_of (fst (pause_claim now i s)) j = kind_of s j"
  unfolding pause_claim_def using assms by (simp_all add: status_claim unique_key_sql_update kind_update_rows)

lemma run_StopWorkspaceAuto:
  "\<exists>gs t. run (StopWorkspaceAuto le i k) fs s = run (k (HasProvisioner le \<longrightarrow> le_stop le i)) gs t \<and> rs_rows t = rs_rows s
     \<and> rs_tokens t = rs_tokens s \<and> (\<exists>es. rs_log t = rs_log s @ es \<and> set es \<subseteq> {StopContainer i})"
  by (fastforce simp: StopWorkspaceAuto_def)

lemma pause_claim_none: "snd (pause_claim now i s) = 0 \<Longrightarrow> rs_rows (fst (pause_claim now i s)) = rs_rows s"
  by (auto simp: pause_claim_def update_rows_def sql_affected_zero intro: sql_update_none)

text \<open>What pausing one workspace does, by the result.\<close>

lemma run_pause_one:
  assumes "run (pause_one le now (i, name)) fs s = ((fl, ok), t)" and "unique_key wr_id (rs_rows s)"
  shows "unique_key wr_id (rs_rows t)
    \<and> (\<forall>j. status_of t j = (if ok \<and> j = i then Some StatusPaused else status_of s j)) \<and> kind_of t = kind_of s
    \<and> (ok \<longrightarrow> HasProvisioner le \<longrightarrow> le_stop le i) \<and> (\<not> ok \<longrightarrow> fl \<noteq> [])
    \<and> (\<forall>k. (k, StageStop) \<in> set fl \<longrightarrow> k = i \<and> HasProvisioner le \<and> \<not> le_stop le i \<and> \<not> ok)"
proof -
  let ?stopped = "HasProvisioner le \<longrightarrow> le_stop le i"
  define k where "k = (\<lambda>stopped. if \<not> stopped then Ret ([(i, StageStop)], False)
       else exec (pause_claim now i) (\<lambda>res.
         case res of
           None \<Rightarrow> Ret ([(i, StageMark)], False)
         | Some n \<Rightarrow>
             if n = 0 then Ret ([(i, StageClaim)], False)
             else ClearWorkspaceKeys i
               (RecordAndBroadcast EventWorkspacePaused i [(''name'', JStr name)] (\<lambda>res.
                 Ret (if res = None then [(i, StageBroadcast)] else [], True)))))"
  have p: "pause_one le now (i, name) = StopWorkspaceAuto le i k"
    unfolding pause_one_def Let_def k_def by (simp only: prod.sel)
  obtain gs u where u: "run (StopWorkspaceAuto le i k) fs s = run (k ?stopped) gs u" "rs_rows u = rs_rows s"
    using run_StopWorkspaceAuto by blast
  have r: "run (k ?stopped) gs u = ((fl, ok), t)"
    using assms(1) u(1) unfolding p by simp
  have uk: "unique_key wr_id (rs_rows u)" using assms(2) u(2) by simp
  note same = status_rows [OF u(2)] kind_rows [OF u(2)]
  show ?thesis
  proof (cases "?stopped \<and> \<not> fails_now gs \<and> snd (pause_claim now i u) > 0")
    case False
    with r have "rs_rows t = rs_rows u \<and> \<not> ok \<and> (fl = [(i, StageStop)] \<and> \<not> ?stopped \<or> fl = [(i, StageMark)] \<or> fl = [(i, StageClaim)])"
      using pause_claim_none
      by (auto simp: k_def run_any split: if_splits)
    then show ?thesis using uk same by (auto simp: status_of_def kind_of_def)
  next
    case True
    let ?v = "fst (pause_claim now i u)"
    from True r have "run (ClearWorkspaceKeys i (RecordAndBroadcast EventWorkspacePaused i [(''name'', JStr name)] (\<lambda>res.
        Ret (if res = None then [(i, StageBroadcast)] else [], True)))) (tl gs) ?v = ((fl, ok), t)"
      by (simp add: k_def run_any)
    with run_cleared [of i EventWorkspacePaused i "[(''name'', JStr name)]"
        "\<lambda>res. Ret (if res = None then [(i, StageBroadcast)] else [], True)" "tl gs" ?v]
    have "rs_rows t = rs_rows ?v \<and> ok \<and> (fl = [] \<or> fl = [(i, StageBroadcast)])"
      by (auto split: if_splits)
    then show ?thesis using True status_pause_claim [OF uk] same
      by (auto simp: status_rows [of t ?v] kind_rows [of t ?v])
  qed
qed

text \<open>
  What the loop of \<open>Pause\<close> does: the workspaces it parked are among those it was given, each of
  them with its container stopped; every other row keeps its status.
\<close>

definition parks :: "life_env \<Rightarrow> string set \<Rightarrow> reg_state \<Rightarrow> reg_state \<Rightarrow> string set \<Rightarrow> bool" where
  "parks le ids s t S \<longleftrightarrow> S \<subseteq> ids \<and> (\<forall>j \<in> S. HasProvisioner le \<longrightarrow> le_stop le j)
    \<and> (\<forall>j. status_of t j = (if j \<in> S then Some StatusPaused else status_of s j)) \<and> kind_of t = kind_of s"

lemma run_each_counted:
  "\<exists>gs fl ok u fl' m t. run (body x) fs s = ((fl, ok), u) \<and> run (each_counted body xs) gs u = ((fl', m), t)
     \<and> run (each_counted body (x # xs)) fs s = ((fl @ fl', m + (if ok then 1 else 0)), t)"
proof -
  obtain fl ok u where 1: "run (body x) fs s = ((fl, ok), u)" by (cases "run (body x) fs s") auto
  let ?k = "\<lambda>(fs, done). bindp (each_counted body xs) (\<lambda>(gs, n). Ret (fs @ gs, n + (if done then 1 else 0)))"
  obtain gs where 2: "run (each_counted body (x # xs)) fs s = run (?k (fl, ok)) gs u"
    using run_then [OF 1, of ?k] by auto
  obtain fl' m t where 3: "run (each_counted body xs) gs u = ((fl', m), t)"
    by (cases "run (each_counted body xs) gs u") auto
  from run_then [OF 3, of "\<lambda>(gs, n). Ret (fl @ gs, n + (if ok then 1 else 0))"]
  have 4: "run (each_counted body (x # xs)) fs s = ((fl @ fl', m + (if ok then 1 else 0)), t)"
    unfolding 2 by auto
  show ?thesis by (intro exI conjI) (rule 1, rule 3, rule 4)
qed

lemma run_pause_each:
  assumes "run (each_counted (pause_one le now) wss) fs s = ((fl, n), t)" and "unique_key wr_id (rs_rows s)"
  shows "\<exists>S. parks le (fst ` set wss) s t S \<and> (fl = [] \<longrightarrow> S = fst ` set wss \<and> n = length wss) \<and> (n = 0 \<longrightarrow> S = {})
    \<and> (\<forall>k. (k, StageStop) \<in> set fl \<longrightarrow> HasProvisioner le \<and> \<not> le_stop le k)"
  using assms
proof (induction wss arbitrary: fs s fl n)
  case Nil
  then show ?case by (auto simp: parks_def)
next
  case (Cons ws wss)
  obtain i name where ws: "ws = (i, name)" by fastforce
  obtain gs fl1 ok u fl2 m t' where
    1: "run (pause_one le now (i, name)) fs s = ((fl1, ok), u)" and
    2: "run (each_counted (pause_one le now) wss) gs u = ((fl2, m), t')" and
    3: "run (each_counted (pause_one le now) (ws # wss)) fs s = ((fl1 @ fl2, m + (if ok then 1 else 0)), t')"
    using run_each_counted [of "pause_one le now" ws fs s wss] unfolding ws by blast
  note one = run_pause_one [OF 1 Cons.prems(2)]
  have t: "t' = t" "fl = fl1 @ fl2" "n = m + (if ok then 1 else 0)" using 3 Cons.prems(1) by auto
  from Cons.IH [OF 2 [unfolded t(1)]] one obtain S where S: "parks le (fst ` set wss) u t S"
    "fl2 = [] \<longrightarrow> S = fst ` set wss \<and> m = length wss" "m = 0 \<longrightarrow> S = {}"
    "\<forall>k. (k, StageStop) \<in> set fl2 \<longrightarrow> HasProvisioner le \<and> \<not> le_stop le k" by blast
  have "parks le (fst ` set (ws # wss)) s t (if ok then insert i S else S)"
    using S(1) one by (auto simp: parks_def ws)
  then show ?case using S one t by (intro exI [of _ "if ok then insert i S else S"]) (auto simp: ws)
qed

definition pause_targets :: "string \<Rightarrow> reg_state \<Rightarrow> string set" where
  "pause_targets i s = insert i (wr_id ` set (descendants pausable i s))"

fun pause_failures :: "pause_reply \<Rightarrow> life_failure list" where
  "pause_failures (PauseFailed fl) = fl"
| "pause_failures (PartiallyPaused n fl) = fl"
| "pause_failures _ = []"

text \<open>The effect of one call, by its reply.\<close>

lemma run_Pause_cases:
  assumes "run (Pause le now cascade i) fs s = (rep, t)"
    and "below = (if fails_now (tl fs) then [] else descendants pausable i s)"
  obtains (refused) "t = s" "\<forall>n. rep \<noteq> PausedAll n" "pause_failures rep = []"
  | (loop) r :: ws_row and gs fl n where
      "run (each_counted (pause_one le now) ((i, wr_name r) # map (\<lambda>d. (wr_id d, wr_name d)) below)) gs s = ((fl, n), t)"
      "rep = (if fl = [] then PausedAll n else if n = 0 then PauseFailed fl else PartiallyPaused n fl)"
proof (cases "\<exists>r. \<not> fails_now fs \<and> row s i = Some r \<and> pausable r \<and> (cascade \<or> below = [])")
  case False
  then have "t = s \<and> (\<forall>n. rep \<noteq> PausedAll n) \<and> pause_failures rep = []"
    using assms(1) unfolding Pause_def run_any Let_def assms(2)
    by (auto simp: run_any split: if_splits option.splits)
  with refused show ?thesis by blast
next
  case True
  then obtain r where r: "\<not> fails_now fs" "row s i = Some r" "pausable r" "cascade \<or> below = []" by blast
  let ?wss = "(i, wr_name r) # map (\<lambda>d. (wr_id d, wr_name d)) below"
  let ?k = "\<lambda>(failures, n). Ret (if failures = [] then PausedAll n else if n = 0 then PauseFailed failures
                   else PartiallyPaused n failures)"
  obtain fl n u where u: "run (each_counted (pause_one le now) ?wss) (tl (tl fs)) s = ((fl, n), u)"
    by (cases "run (each_counted (pause_one le now) ?wss) (tl (tl fs)) s") auto
  have "run (Pause le now cascade i) fs s = run (bindp (each_counted (pause_one le now) ?wss) ?k) (tl (tl fs)) s"
    using r unfolding Pause_def run_any Let_def assms(2)
    by (auto simp: run_any simp del: each_counted.simps split: if_splits)
  with run_then [OF u, of ?k] assms(1)
  have e: "u = t" "rep = (if fl = [] then PausedAll n else if n = 0 then PauseFailed fl else PartiallyPaused n fl)" by auto
  show ?thesis by (rule loop [OF u [unfolded e(1)] e(2)])
qed

lemma run_Pause:
  assumes "run (Pause le now cascade i) fs s = (rep, t)" and "unique_key wr_id (rs_rows s)"
  shows "\<exists>S. parks le (pause_targets i s) s t S
    \<and> (\<forall>n. rep = PausedAll n \<longrightarrow> i \<in> S \<and> (fails_now (tl fs) \<or> S = pause_targets i s))
    \<and> (\<forall>k. (k, StageStop) \<in> set (pause_failures rep) \<longrightarrow> HasProvisioner le \<and> \<not> le_stop le k)"
proof (rule run_Pause_cases [OF assms(1) refl])
  assume "t = s" "\<forall>n. rep \<noteq> PausedAll n" "pause_failures rep = []"
  then show ?thesis by (intro exI [of _ "{}"]) (auto simp: parks_def)
next
  fix r :: ws_row and gs fl n
  assume loop: "run (each_counted (pause_one le now) ((i, wr_name r) # map (\<lambda>d. (wr_id d, wr_name d))
      (if fails_now (tl fs) then [] else descendants pausable i s))) gs s = ((fl, n), t)"
    "rep = (if fl = [] then PausedAll n else if n = 0 then PauseFailed fl else PartiallyPaused n fl)"
  let ?ids = "insert i (wr_id ` set (if fails_now (tl fs) then [] else descendants pausable i s))"
  from run_pause_each [OF loop(1) assms(2)] obtain S where S: "parks le ?ids s t S" "fl = [] \<longrightarrow> S = ?ids"
    "\<forall>k. (k, StageStop) \<in> set fl \<longrightarrow> HasProvisioner le \<and> \<not> le_stop le k"
    by (auto simp: image_image split del: if_split)
  then have "parks le (pause_targets i s) s t S" unfolding parks_def pause_targets_def by (auto split: if_splits)
  with S(2,3) show ?thesis
    by (intro exI [of _ S]) (auto simp: loop(2) pause_targets_def split: if_splits)
qed

text \<open>A parked workspace that is no platform agent, through whatever agents and passes do.\<close>

lemma parked_carried:
  assumes "status_of t j = Some st" and "kind_of t j \<noteq> Some KindPlatform" and "dormant st"
    and "\<forall>p \<in> set ps. agent_or_pass (st \<noteq> StatusHibernated) p" and "moves (t, ps) (t', ps')"
  shows "status_of t' j = Some st"
proof -
  have "on_rows (parked_rows j st) t'"
    by (rule dormant_rows.moves_kept [OF assms(5)])
      (use assms(1-4) in \<open>auto simp: on_rows_def parked_rows_def may_run_def dormant_def asleep_def status_of_def kind_of_def\<close>)
  then show ?thesis by (auto simp: on_rows_def parked_rows_def status_of_def)
qed


text \<open>A workspace is paused with its child.\<close>

definition pair_state :: reg_state where
  "pair_state = blank_state [(blank_row ''w'')\<lparr>wr_status := StatusOnline\<rparr>, (blank_row ''v'')\<lparr>wr_status := StatusOnline, wr_parent := Some ''w''\<rparr>]"

definition docker_env :: "(string \<Rightarrow> bool) \<Rightarrow> life_env" where
  "docker_env stops = \<lparr>le_cp = False, le_docker = True, le_sidecar = False, le_stop = stops, le_image = (\<lambda>_. True),
     le_running = (\<lambda>_. Some True)\<rparr>"

definition paused_pair :: "pause_reply \<times> reg_state" where
  "paused_pair = run (Pause (docker_env (\<lambda>_. True)) 5 True ''w'') [] pair_state"

lemma pair_simps:
  "rs_rows pair_state = [(blank_row ''w'')\<lparr>wr_status := StatusOnline\<rparr>, (blank_row ''v'')\<lparr>wr_status := StatusOnline, wr_parent := Some ''w''\<rparr>]"
  "wr_id (blank_row i) = i" "wr_kind (blank_row i) = KindWorkspace" "wr_parent (blank_row i) = None"
  by (simp_all add: pair_state_def blank_state_def blank_row_def)

lemma pair_reply: "fst paused_pair = PausedAll 2"
  by code_simp

lemma pair_targets: "''v'' \<in> pause_targets ''w'' pair_state"
  by code_simp


subsection \<open>Resuming and waking\<close>

text \<open>
  The account of a workspace: its rows that a resume or a wake may still claim, and the boxes that
  were provisioned for it.
\<close>

definition claimable :: "string \<Rightarrow> ws_row \<Rightarrow> bool" where
  "claimable j r \<longleftrightarrow> wr_id r = j \<and> wr_status r \<in> {StatusPaused, StatusHibernated}"

definition boxes :: "string \<Rightarrow> reg_state \<Rightarrow> nat" where
  "boxes j s = count_list (rs_log s) (ProvisionBox j)"

definition account :: "string \<Rightarrow> reg_state \<Rightarrow> nat" where
  "account j s = sql_affected (claimable j) (rs_rows s) + boxes j s"

lemma account_logged [simp]: "account j (logged e s) = account j s + (if e = ProvisionBox j then 1 else 0)"
  by (simp add: account_def boxes_def)

lemma account_cong: "rs_rows t = rs_rows s \<Longrightarrow> rs_log t = rs_log s \<Longrightarrow> account j t = account j s"
  by (simp add: account_def boxes_def)

lemma affected_update:
  assumes "\<And>r. Q (f r) \<Longrightarrow> P r \<Longrightarrow> Q r"
  shows "sql_affected Q (sql_update P f rows) \<le> sql_affected Q rows"
  using assms by (induction rows) (auto simp: sql_affected_def sql_update_Cons)

lemma affected_claim:
  assumes "\<And>r. P r \<Longrightarrow> Q r" and "\<And>r. P r \<Longrightarrow> \<not> Q (f r)"
  shows "sql_affected Q (sql_update P f rows) + sql_affected P rows = sql_affected Q rows"
  using assms by (induction rows) (auto simp: sql_affected_def sql_update_Cons)

lemma account_update:
  assumes "\<And>r. claimable j (f r) \<Longrightarrow> P r \<Longrightarrow> claimable j r"
  shows "account j (fst (update_rows P f s)) \<le> account j s"
  using affected_update [of "claimable j" f P] assms by (simp add: account_def boxes_def)

lemma account_claim:
  assumes "\<And>r. P r \<Longrightarrow> claimable j r" and "\<And>r. P r \<Longrightarrow> \<not> claimable j (f r)"
  shows "account j (fst (update_rows P f s)) + snd (update_rows P f s) \<le> account j s"
  using affected_claim [of P "claimable j" f "rs_rows s"] assms by (simp add: account_def boxes_def update_rows_def)

lemma funded_events [funded_rules]:
  "(\<And>x. funded (account j) (k x) c) \<Longrightarrow> funded (account j) (RecordAndBroadcast e i pl k) c"
  by (auto simp: RecordAndBroadcast_def intro!: funded_exec)

lemma funded_provision:
  assumes "funded (account j) q c"
  shows "funded (account j) (provisionWorkspaceAuto le now i q) (if i = j then Suc c else c)"
proof -
  have failed: "funded (account j) (markProvisionFailed now i no_backend_message q) c"
    using assms by (auto simp: markProvisionFailed_def live_update_def claimable_def intro!: funded_rules account_update)
  show ?thesis
    using assms failed funded_mono [OF failed, of "Suc c"]
    by (cases "i = j") (auto simp: provisionWorkspaceAuto_def intro: funded_spend funded_effect)
qed

lemma funded_isParentPaused: "(\<And>x. funded (account j) (k x) c) \<Longrightarrow> funded (account j) (isParentPaused fuel i k) c"
  by (induction fuel arbitrary: i) (auto intro!: funded_query split: option.split)

text \<open>A claim that wins pays for the box; one that loses provisions nothing.\<close>

lemma funded_claimed:
  fixes f :: "ws_row \<Rightarrow> ws_row"
  assumes "\<And>r. P r \<Longrightarrow> claimable i r" and "\<And>r. wr_id (f r) = wr_id r" and "\<And>r. wr_status (f r) = StatusProvisioning"
    and "funded (account j) (k None) c" and "funded (account j) (k (Some 0)) c"
    and "\<And>n. n > 0 \<Longrightarrow> funded (account j) (k (Some n)) (if i = j then Suc c else c)"
  shows "funded (account j) (exec (update_rows P f) k) c"
proof (cases "i = j")
  case True
  then show ?thesis using assms by (intro funded_claim account_claim) (auto simp: claimable_def)
next
  case False
  have "funded (account j) (k x) c" for x
    using assms(4-6) False by (cases x; cases "x = Some 0") auto
  then show ?thesis using assms(2,3) by (intro funded_exec account_update) (auto simp: claimable_def)
qed

lemma funded_resume_one: "funded (account j) (resume_one le now r) 0"
  unfolding resume_one_def Let_def resume_claim_def
  by (rule funded_claimed) (auto simp: claimable_def intro!: funded_effect funded_events funded_provision [THEN funded_mono])

lemma funded_each_counted: "(\<And>x. funded \<Phi> (body x) 0) \<Longrightarrow> funded \<Phi> (each_counted body xs) 0"
  by (induction xs) (auto intro!: funded_bindp split: prod.split)

lemma funded_Resume: "funded (account j) (Resume le fuel now cascade i) 0"
  unfolding Resume_def Let_def
  by (auto intro!: funded_query funded_isParentPaused funded_bindp funded_each_counted funded_resume_one split: option.split prod.split
      simp del: each_counted.simps)

lemma funded_Wake: "funded (account j) (WakeWorkspace le now i) 0"
proof -
  let ?go = "query (\<lambda>s. row s i) (\<lambda>res. case res of
       Some (Some r) \<Rightarrow> RecordAndBroadcast EventWorkspaceProvisioning i (row_event r) (\<lambda>_. provisionWorkspaceAuto le now i (Ret ()))
     | _ \<Rightarrow> Ret ())"
  have "funded (account j) ?go (if i = j then Suc 0 else 0)"
    by (rule funded_query) (auto intro!: funded_events funded_provision split: option.split split del: if_split)
  then show ?thesis
    unfolding WakeWorkspace_def wake_claim_def
    by (auto simp: claimable_def intro!: funded_claimed)
qed

text \<open>The programs that bring a parked workspace back: resumes and wakes of whatever workspaces.\<close>

inductive brings_back :: "unit handler \<Rightarrow> bool" where
  resumes: "brings_back (silent (Resume le fuel now cascade i))"
| wakes: "brings_back (WakeWorkspace le now i)"

interpretation boxes_paid: accounted "account j" brings_back for j
  by unfold_locales (auto elim!: brings_back.cases intro: funded_bindp funded_Resume funded_Wake)

text \<open>
  C5: resumes and wakes that race provision one box. Any number of resumes and wakes of any
  workspaces, with or without their descendants, interleaved in any order and with any of their
  statements failing, provision at most one box for a workspace, and none for one that is neither
  paused nor hibernated.
\<close>

theorem resume_provisions_once:
  assumes "unique_key wr_id (rs_rows s)" and "\<forall>p \<in> set ps. brings_back p" and "moves (s, ps) (s', ps')"
  shows "boxes j s' \<le> boxes j s + (if status_of s j \<in> {Some StatusPaused, Some StatusHibernated} then 1 else 0)"
proof -
  have "account j s = boxes j s + (if status_of s j \<in> {Some StatusPaused, Some StatusHibernated} then 1 else 0)"
    unfolding account_def claimable_def affected_row [OF assms(1)] status_of_def by (auto split: option.split)
  with boxes_paid.moves_bounded [OF assms(3,2), of j] show ?thesis by (simp add: account_def)
qed

text \<open>A hibernated workspace is woken.\<close>

definition asleep_state :: reg_state where
  "asleep_state = blank_state [(blank_row ''w'')\<lparr>wr_status := StatusHibernated\<rparr>]"

definition wake_w :: "unit handler" where
  "wake_w = WakeWorkspace (docker_env (\<lambda>_. True)) 5 ''w''"

definition woken :: "reg_state \<Rightarrow> reg_state" where
  "woken s = snd (run wake_w [] s)"

lemma two_wakes: "moves (s, [wake_w, wake_w]) (woken (woken s), [Ret (), Ret ()])"
  using run_moves [of 0 "[wake_w, wake_w]" wake_w s "[]"] run_moves [of 1 "[Ret (), wake_w]" wake_w "woken s" "[]"]
  by (simp add: woken_def [symmetric])

lemma woken_once: "boxes ''w'' (woken asleep_state) = 1 \<and> boxes ''w'' asleep_state = 0"
  by code_simp

theorem resume_provisions_once_witness: "boxes ''w'' (woken (woken asleep_state)) \<le> 1"
proof -
  have "unique_key wr_id (rs_rows asleep_state)" by (simp add: asleep_state_def blank_state_def unique_key_def)
  from resume_provisions_once [OF this _ two_wakes, of "''w''"] show ?thesis
    using woken_once by (simp add: wake_w_def brings_back.wakes split: if_splits)
qed

subsection \<open>Hibernating\<close>

text \<open>The rows after each outcome of the two writes.\<close>

lemma run_hibernateWorkspace:
  assumes "run (hibernateWorkspace le now force i) fs s = (res, t)"
  defines "claimed \<equiv> hibernate_claim now force i s"
  shows "res = NotClaimed \<and> rs_rows t = rs_rows s
    \<or> res = HibernateError \<and> rs_rows t \<in> {rs_rows s, rs_rows (fst claimed)}
    \<or> res = Hibernated \<and> snd claimed > 0 \<and> rs_rows t = rs_rows (fst (mark_hibernated now i (fst claimed)))"
proof (cases "fails_now fs \<or> snd claimed = 0")
  case True
  have "rs_rows (fst claimed) = rs_rows s" if "snd claimed = 0"
    using that by (auto simp: claimed_def hibernate_claim_def update_rows_def sql_affected_zero intro: sql_update_none)
  with True assms(1) show ?thesis
    by (auto simp: hibernateWorkspace_def run_any claimed_def split: if_splits)
next
  case False
  let ?name = "\<lambda>nt :: string \<times> int. [(''name'', JStr (fst nt)), (''tier'', JInt (snd nt))]"
  let ?fin = "\<lambda>nt. ClearWorkspaceKeys i (RecordAndBroadcast EventWorkspaceHibernated i (?name nt) (\<lambda>_. Ret Hibernated))"
  let ?stop = "\<lambda>nt. StopWorkspaceAuto le i (\<lambda>_. exec (mark_hibernated now i) (\<lambda>res. case res of None \<Rightarrow> Ret HibernateError | Some _ \<Rightarrow> ?fin nt))"
  obtain nt where 1: "run (hibernateWorkspace le now force i) fs s = run (?stop nt) (tl (tl fs)) (fst claimed)"
    using False unfolding hibernateWorkspace_def run_any claimed_def Let_def by (simp add: run_any split_beta)
  obtain gs u where 2: "run (?stop nt) (tl (tl fs)) (fst claimed) =
      run (exec (mark_hibernated now i) (\<lambda>res. case res of None \<Rightarrow> Ret HibernateError | Some _ \<Rightarrow> ?fin nt)) gs u"
    and u: "rs_rows u = rs_rows (fst claimed)"
    using run_StopWorkspaceAuto by blast
  have same: "rs_rows (fst (mark_hibernated now i u)) = rs_rows (fst (mark_hibernated now i (fst claimed)))"
    by (simp add: mark_hibernated_def u)
  show ?thesis
  proof (cases "fails_now gs")
    case True
    then show ?thesis using assms(1) u unfolding 1 2 by (simp add: run_any)
  next
    case not_failed: False
    with run_cleared [of i EventWorkspaceHibernated i "?name nt" "\<lambda>_. Ret Hibernated" "tl gs" "fst (mark_hibernated now i u)"]
      assms(1) False same show ?thesis
      unfolding 1 2 by (auto simp: run_any)
  qed
qed

lemma hibernate_rows:
  assumes "unique_key wr_id (rs_rows s)"
  shows "snd (hibernate_claim now force i s) > 0 \<longleftrightarrow> (\<exists>r. row s i = Some r \<and> running_status r \<and> (force \<or> wr_active_tasks r = 0))"
    and "j \<noteq> i \<Longrightarrow> row (fst (hibernate_claim now force i s)) j = row s j"
    and "j \<noteq> i \<Longrightarrow> row (fst (mark_hibernated now i s)) j = row s j"
    and "kind_of (fst (hibernate_claim now force i s)) = kind_of s"
    and "kind_of (fst (mark_hibernated now i s)) = kind_of s"
    and "row s i = Some r \<Longrightarrow> \<exists>r'. row (fst (mark_hibernated now i (fst (hibernate_claim now force i s)))) i = Some r'
      \<and> wr_status r' = StatusHibernated \<and> wr_url r' = Some [] \<and> wr_active_tasks r' = 0"
proof -
  show "j \<noteq> i \<Longrightarrow> row (fst (hibernate_claim now force i s)) j = row s j"
    and "j \<noteq> i \<Longrightarrow> row (fst (mark_hibernated now i s)) j = row s j"
    unfolding hibernate_claim_def mark_hibernated_def by (rule row_update_other; simp)+
qed (use assms in \<open>auto simp: hibernate_claim_def mark_hibernated_def status_claim kind_update_rows find_update_rows fun_eq_iff
    dest: sql_find_Some_iff\<close>)

definition hibernate_answer :: "hibernate_result \<Rightarrow> hibernate_reply" where
  "hibernate_answer res = (case res of Hibernated \<Rightarrow> HibernatedOk | HibernateError \<Rightarrow> HibernateRejected 500 hibernate_partway
     | NotClaimed \<Rightarrow> HibernateRejected 409 hibernate_lost)"

lemma run_Hibernate:
  assumes "run (Hibernate le now force i) fs s = (rep, t)"
  shows "t = s \<and> rep \<noteq> HibernatedOk
    \<or> (\<exists>res. run (hibernateWorkspace le now force i) (tl fs) s = (res, t) \<and> rep = hibernate_answer res)"
proof (cases "\<exists>r. \<not> fails_now fs \<and> row s i = Some r \<and> running_status r \<and> \<not> (wr_active_tasks r > 0 \<and> \<not> force)")
  case False
  then show ?thesis using assms unfolding Hibernate_def run_any by (auto split: if_splits option.splits)
next
  case True
  let ?k = "\<lambda>result. case result of Hibernated \<Rightarrow> Ret HibernatedOk | HibernateError \<Rightarrow> Ret (HibernateRejected 500 hibernate_partway)
     | NotClaimed \<Rightarrow> Ret (HibernateRejected 409 hibernate_lost)"
  obtain res u where u: "run (hibernateWorkspace le now force i) (tl fs) s = (res, u)" by fastforce
  have "run (Hibernate le now force i) fs s = run (bindp (hibernateWorkspace le now force i) ?k) (tl fs) s"
    using True unfolding Hibernate_def run_any by auto
  with run_then [OF u, of ?k] assms have "(rep, t) = (hibernate_answer res, u)"
    by (auto simp: hibernate_answer_def split: hibernate_result.splits)
  with u show ?thesis by blast
qed


text \<open>An idle workspace is hibernated.\<close>

definition idle_state :: reg_state where
  "idle_state = blank_state [(blank_row ''w'')\<lparr>wr_status := StatusOnline\<rparr>]"

definition put_to_sleep :: "hibernate_reply \<times> reg_state" where
  "put_to_sleep = run (Hibernate (docker_env (\<lambda>_. False)) 5 False ''w'') [] idle_state"

lemma put_to_sleep_reply: "fst put_to_sleep = HibernatedOk"
  by code_simp


subsection \<open>Deleting\<close>

text \<open>After the two writes of \<open>CascadeDelete\<close>, the rest of the call changes neither statuses nor tokens.\<close>

definition same_standing :: "reg_state \<Rightarrow> reg_state \<Rightarrow> bool" where
  "same_standing s t \<longleftrightarrow> status_of t = status_of s \<and> kind_of t = kind_of s \<and> rs_tokens t = rs_tokens s"

lemma same_standing_trans: "same_standing s t \<Longrightarrow> same_standing t u \<Longrightarrow> same_standing s u"
  by (simp add: same_standing_def)

lemma same_standing_rows: "rs_rows t = rs_rows s \<Longrightarrow> rs_tokens t = rs_tokens s \<Longrightarrow> same_standing s t"
  by (simp add: same_standing_def status_of_def kind_of_def fun_eq_iff)

definition stop_failed :: "life_env \<Rightarrow> string \<Rightarrow> bool" where
  "stop_failed le i \<longleftrightarrow> HasProvisioner le \<and> \<not> le_stop le i"

lemma run_stopWorkspaceForDelete:
  "\<exists>gs t. run (stopWorkspaceForDelete le i k) fs s = run (k (\<not> stop_failed le i)) gs t \<and> rs_rows t = rs_rows s \<and> rs_tokens t = rs_tokens s"
  by (cases "HasProvisioner le"; cases "le_cp le \<and> \<not> le_stop le i"; cases "fails_now (tl fs)")
    (fastforce simp: stopWorkspaceForDelete_def stop_failed_def run_any)+

lemma run_delete_one:
  assumes "run (delete_one le now payload i) fs s = (errs, t)"
  shows "same_standing s t \<and> errs = (if stop_failed le i then [i] else [])"
proof -
  let ?rest = "\<lambda>errs. ClearWorkspaceKeys i (RecordAndBroadcast EventWorkspaceRemoved i payload (\<lambda>_. Ret errs))"
  let ?desktop = "\<lambda>q. if le_sidecar le then effect (logged (StopDesktop i)) (effect (logged (WipeProfile i)) q) else q"
  let ?volume = "\<lambda>q. if le_docker le then effect (logged (RemoveVolume i)) q else q"
  let ?clear = "update_rows (\<lambda>r. wr_id r = i) (\<lambda>r. r\<lparr>wr_instance := None, wr_updated := now\<rparr>)"
  let ?k = "\<lambda>stopped. if \<not> stopped then ?rest [i] else exec ?clear (\<lambda>_. ?volume (?desktop (?rest [])))"
  have rest: "same_standing u t \<and> errs = es" if "run (?rest es) gs u = (errs, t)" for es gs u
    using run_cleared [of i EventWorkspaceRemoved i payload "\<lambda>_. Ret es" gs u] that by (auto intro: same_standing_rows)
  have boxes: "same_standing u t \<and> errs = es" if "run (?volume (?desktop (?rest es))) gs u = (errs, t)" for es gs u
  proof -
    from that obtain gs' u' where "run (?rest es) gs' u' = (errs, t)" "rs_rows u' = rs_rows u" "rs_tokens u' = rs_tokens u"
      by (auto split: if_splits)
    then show ?thesis using rest same_standing_rows same_standing_trans by blast
  qed
  have cleared: "same_standing u (fst (?clear u))" for u
    by (simp add: same_standing_def fun_eq_iff status_update_same kind_update_rows)
  obtain gs u where u: "run (stopWorkspaceForDelete le i ?k) fs s = run (?k (\<not> stop_failed le i)) gs u" "rs_rows u = rs_rows s" "rs_tokens u = rs_tokens s"
    using run_stopWorkspaceForDelete by blast
  have "delete_one le now payload i = stopWorkspaceForDelete le i ?k"
    unfolding delete_one_def Let_def ..
  then have "run (?k (\<not> stop_failed le i)) gs u = (errs, t)" using assms u(1) by simp
  then have "same_standing u t \<and> errs = (if stop_failed le i then [i] else [])"
  proof (cases "stop_failed le i")
    case True
    then show ?thesis using rest \<open>run (?k (\<not> stop_failed le i)) gs u = (errs, t)\<close> by simp
  next
    case False
    then have "run (exec ?clear (\<lambda>_. ?volume (?desktop (?rest [])))) gs u = (errs, t)"
      using \<open>run (?k (\<not> stop_failed le i)) gs u = (errs, t)\<close> by simp
    then have "run (?volume (?desktop (?rest []))) (tl gs) (if fails_now gs then u else fst (?clear u)) = (errs, t)"
      unfolding run_any by (simp only: if_distrib [where f = "run _ _"] split: if_split)
    from boxes [OF this] False show ?thesis using same_standing_trans [OF cleared, of u t] by (simp split: if_splits)
  qed
  then show ?thesis using same_standing_trans [OF same_standing_rows [OF u(2,3)]] by blast
qed

lemma run_delete_each:
  "run (delete_each le now ids) fs s = (errs, t) \<Longrightarrow> same_standing s t \<and> errs = filter (stop_failed le) ids"
proof (induction ids arbitrary: fs s errs t)
  case Nil
  then show ?case by (simp add: same_standing_def)
next
  case (Cons i ids)
  let ?k = "\<lambda>errs. bindp (delete_each le now ids) (\<lambda>errs'. Ret (errs @ errs'))"
  obtain e u where u: "run (delete_one le now [] i) fs s = (e, u)" by fastforce
  obtain gs where gs: "run (delete_each le now (i # ids)) fs s = run (?k e) gs u" using run_then [OF u, of ?k] by auto
  obtain e' v where v: "run (delete_each le now ids) gs u = (e', v)" by fastforce
  have "errs = e @ e' \<and> v = t" using run_then [OF v, of "\<lambda>errs'. Ret (e @ errs')"] Cons.prems gs by auto
  with Cons.IH [OF v] run_delete_one [OF u] show ?case by (auto intro: same_standing_trans)
qed

text \<open>The state after the two writes.\<close>

definition deleted_state :: "time \<Rightarrow> string list \<Rightarrow> reg_state \<Rightarrow> reg_state" where
  "deleted_state now ids s = fst (revoke_all_tokens now ids (fst (mark_removed now ids s)))"

lemma status_deleted:
  "status_of (deleted_state now ids s) j = (if j \<in> set ids \<and> row s j \<noteq> None then Some StatusRemoved else status_of s j)"
proof -
  have "status_of (deleted_state now ids s) j = status_of (fst (mark_removed now ids s)) j"
    by (simp add: deleted_state_def revoke_all_tokens_def status_of_def)
  also have "\<dots> = (if j \<in> set ids \<and> row s j \<noteq> None then Some StatusRemoved else status_of s j)"
    unfolding mark_removed_def by (subst status_update_rows) (cases "row s j"; auto simp: status_of_def dest: sql_find_Some_iff)+
  finally show ?thesis .
qed

lemma kind_deleted: "kind_of (deleted_state now ids s) = kind_of s"
proof (rule ext)
  fix j
  have "kind_of (deleted_state now ids s) j = kind_of (fst (mark_removed now ids s)) j"
    by (simp add: deleted_state_def revoke_all_tokens_def kind_of_def)
  also have "\<dots> = kind_of s j" by (simp add: mark_removed_def kind_update_rows)
  finally show "kind_of (deleted_state now ids s) j = kind_of s j" .
qed

lemma tokens_deleted:
  "tk \<in> set (rs_tokens (deleted_state now ids s)) \<Longrightarrow> wt_workspace tk \<in> set ids \<Longrightarrow> wt_revoked tk \<noteq> None"
  by (auto simp: deleted_state_def revoke_all_tokens_def set_sql_update mark_removed_def split: if_splits)

lemma run_CascadeDelete:
  assumes "run (CascadeDelete le True now i) fs s = (rep, t)"
    and "\<not> fails_now fs" and "\<not> fails_now (tl fs)" and "\<not> fails_now (tl (tl fs))"
  defines "below \<equiv> map wr_id (descendants (\<lambda>d. wr_status d \<noteq> StatusRemoved) i s)"
  shows "same_standing (deleted_state now (i # below) s) t \<and> rep = Some (below, filter (stop_failed le) (below @ [i]))"
proof -
  let ?one = "\<lambda>errs. bindp (delete_one le now [(''cascade_deleted'', JInt (int (length below)))] i) (\<lambda>errs'. Ret (Some (below, errs @ errs')))"
  let ?gs = "tl (tl (tl (tl fs)))"
  let ?u = "logged (CancelProvisions (i # below)) (deleted_state now (i # below) s)"
  have 1: "run (CascadeDelete le True now i) fs s = run (bindp (delete_each le now below) ?one) ?gs ?u"
    using assms(2-4) unfolding CascadeDelete_def below_def [symmetric] deleted_state_def by (simp add: run_any below_def)
  obtain e v where v: "run (delete_each le now below) ?gs ?u = (e, v)" by fastforce
  obtain hs where 2: "run (bindp (delete_each le now below) ?one) ?gs ?u = run (?one e) hs v"
    using run_then [OF v, of ?one] by blast
  obtain e' w where w: "run (delete_one le now [(''cascade_deleted'', JInt (int (length below)))] i) hs v = (e', w)" by fastforce
  have "rep = Some (below, e @ e') \<and> w = t"
    using run_then [OF w, of "\<lambda>errs'. Ret (Some (below, e @ errs'))"] assms(1) 1 2 by auto
  moreover have "same_standing (deleted_state now (i # below) s) ?u" by (rule same_standing_rows) simp_all
  ultimately show ?thesis
    using run_delete_each [OF v] run_delete_one [OF w] by (auto intro: same_standing_trans)
qed


text \<open>A workspace and its child are deleted; the container of the child cannot be stopped.\<close>

definition deleted_pair :: "(string list \<times> string list) option \<times> reg_state" where
  "deleted_pair = run (CascadeDelete (docker_env (\<lambda>j. j = ''w'')) True 5 ''w'') [] pair_state"


end
