(* ===== verification/Lifecycle_Roundtrip.thy ===== *)
theory Lifecycle_Roundtrip
  imports Lifecycle_Guarantees
begin

text \<open>
  Pausing a tree and resuming it. The walk to the ancestors (\<open>isParentPaused\<close>) against the chain of
  parents, with the fuel it needs; what a pause and a resume do when nothing fails; and their
  composition: every workspace the pause parked is brought back, with one new box.
\<close>

subsection \<open>Ancestors\<close>

definition parent_of :: "reg_state \<Rightarrow> string \<Rightarrow> string option" where
  "parent_of s i = Option.bind (row s i) wr_parent"

text \<open>The nearest paused ancestor; \<open>None\<close> when the chain of parents is longer than \<open>n\<close>.\<close>

primrec paused_ancestor :: "nat \<Rightarrow> reg_state \<Rightarrow> string \<Rightarrow> ws_row option option" where
  "paused_ancestor 0 s i = None"
| "paused_ancestor (Suc n) s i = (case parent_of s i of None \<Rightarrow> Some None | Some p \<Rightarrow>
    (case row s p of None \<Rightarrow> Some None | Some pr \<Rightarrow>
      if wr_status pr = StatusPaused then Some (Some pr) else paused_ancestor n s p))"

lemma run_isParentPaused:
  "paused_ancestor n s i = Some a \<Longrightarrow> n \<le> fuel \<Longrightarrow>
    run (isParentPaused fuel i k) [] s = run (k (map_option wr_name a)) [] s"
proof (induction n arbitrary: i fuel)
  case 0
  then show ?case by simp
next
  case (Suc n)
  then obtain m where "fuel = Suc m" "n \<le> m" by (cases fuel) auto
  with Suc show ?case
    by (auto simp: parent_of_def split: option.splits if_splits)
qed

subsection \<open>A call in which nothing fails\<close>

lemma boxes_logged [simp]: "boxes j (logged e s) = boxes j s + (if e = ProvisionBox j then 1 else 0)"
  by (simp add: boxes_def)

lemma boxes_frame [simp]:
  "boxes j (fst (update_rows P f s)) = boxes j s" "boxes j (s\<lparr>rs_live := a\<rparr>) = boxes j s"
  "boxes j (s\<lparr>rs_urls := b\<rparr>) = boxes j s" "boxes j (s\<lparr>rs_internal_urls := c\<rparr>) = boxes j s"
  by (simp_all add: boxes_def)

lemma status_frame [simp]:
  "status_of (logged e s) = status_of s" "status_of (s\<lparr>rs_live := a\<rparr>) = status_of s"
  "status_of (s\<lparr>rs_urls := b\<rparr>) = status_of s" "status_of (s\<lparr>rs_internal_urls := c\<rparr>) = status_of s"
  by (simp_all add: status_of_def fun_eq_iff)

text \<open>
  \<open>shifts from to\<close>: one call on workspace \<open>i\<close> moves it from a status in \<open>from\<close> to \<open>to\<close>, provisions
  \<open>n\<close> boxes when it does, and leaves the other statuses and counts.
\<close>

definition shifts :: "WorkspaceStatus set \<Rightarrow> WorkspaceStatus \<Rightarrow> nat \<Rightarrow> string set \<Rightarrow> reg_state \<Rightarrow> reg_state \<Rightarrow> bool" where
  "shifts origin target n ids s t \<longleftrightarrow> (unique_key wr_id (rs_rows s) \<longrightarrow> unique_key wr_id (rs_rows t)
    \<and> (\<forall>j. if j \<in> ids \<and> status_of s j \<in> Some ` origin then status_of t j = Some target \<and> boxes j t = boxes j s + n
           else status_of t j = status_of s j \<and> boxes j t = boxes j s))"

lemma shifts_trans:
  assumes "shifts origin target n A s u" and "shifts origin target n B u v" and "target \<notin> origin"
  shows "shifts origin target n (A \<union> B) s v"
  unfolding shifts_def
proof (intro impI conjI allI)
  assume uk: "unique_key wr_id (rs_rows s)"
  with assms(1) have uk': "unique_key wr_id (rs_rows u)" by (simp add: shifts_def)
  with assms(2) show "unique_key wr_id (rs_rows v)" by (simp add: shifts_def)
  fix j
  from assms(1) uk have 1: "if j \<in> A \<and> status_of s j \<in> Some ` origin then status_of u j = Some target \<and> boxes j u = boxes j s + n
      else status_of u j = status_of s j \<and> boxes j u = boxes j s" unfolding shifts_def by blast
  from assms(2) uk' have 2: "if j \<in> B \<and> status_of u j \<in> Some ` origin then status_of v j = Some target \<and> boxes j v = boxes j u + n
      else status_of v j = status_of u j \<and> boxes j v = boxes j u" unfolding shifts_def by blast
  from 1 2 assms(3) show "if j \<in> A \<union> B \<and> status_of s j \<in> Some ` origin then status_of v j = Some target \<and> boxes j v = boxes j s + n
      else status_of v j = status_of s j \<and> boxes j v = boxes j s"
    by (cases "j \<in> A \<and> status_of s j \<in> Some ` origin") (auto split: if_splits)
qed

lemma shifts_each:
  assumes "\<And>x s. shifts origin target n {name x} s (snd (run (body x) [] s))" and "target \<notin> origin"
  shows "shifts origin target n (name ` set xs) s (snd (run (each_counted body xs) [] s))"
proof (induction xs arbitrary: s)
  case Nil
  then show ?case by (simp add: shifts_def)
next
  case (Cons x xs)
  have "snd (run (each_counted body (x # xs)) [] s) = snd (run (each_counted body xs) [] (snd (run (body x) [] s)))"
    by (simp add: run_bindp split_beta)
  with shifts_trans [OF assms(1) Cons.IH assms(2)] show ?case by (metis image_insert insert_is_Un list.simps(15))
qed

lemma shifts_claim:
  assumes "\<And>r. wr_id (f r) = wr_id r" and "\<And>r. wr_status (f r) = target"
    and "unique_key wr_id (rs_rows s) \<Longrightarrow> rs_rows t = rs_rows (fst (update_rows (\<lambda>r. wr_id r = i \<and> wr_status r \<in> origin) f s))"
    and "\<And>j. boxes j t = boxes j s + (if j = i \<and> snd (update_rows (\<lambda>r. wr_id r = i \<and> wr_status r \<in> origin) f s) > 0 then n else 0)"
  shows "shifts origin target n {i} s t"
  unfolding shifts_def
proof (intro impI conjI allI)
  assume uk: "unique_key wr_id (rs_rows s)"
  note t = assms(3) [OF uk]
  from uk assms(1) show "unique_key wr_id (rs_rows t)" by (simp add: t unique_key_sql_update)
  fix j
  have "status_of s i \<in> Some ` origin \<longleftrightarrow> (\<exists>r. row s i = Some r \<and> wr_status r \<in> origin)" by (auto simp: status_of_def)
  then show "if j \<in> {i} \<and> status_of s j \<in> Some ` origin then status_of t j = Some target \<and> boxes j t = boxes j s + n
      else status_of t j = status_of s j \<and> boxes j t = boxes j s"
    using status_claim [where f = f and i = i and Q = "\<lambda>r. wr_status r \<in> origin", OF uk assms(1,2)]
    unfolding assms(4) status_rows [OF t] by (cases "j = i") auto
qed

lemma shifts_pause_one:
  assumes "\<And>j. le_stop le j"
  shows "shifts (- {StatusRemoved, StatusPaused}) StatusPaused 0 {fst ws} s (snd (run (pause_one le now ws) [] s))"
proof -
  have claim: "pause_claim now i = update_rows (\<lambda>r. wr_id r = i \<and> wr_status r \<in> - {StatusRemoved, StatusPaused})
      (\<lambda>r. r\<lparr>wr_status := StatusPaused, wr_url := Some [], wr_updated := now\<rparr>)" for i
    by (simp add: pause_claim_def pausable_def)
  show ?thesis
    by (rule shifts_claim [where f = "\<lambda>r. r\<lparr>wr_status := StatusPaused, wr_url := Some [], wr_updated := now\<rparr>"])
      (use assms in \<open>simp_all add: pause_one_def Let_def StopWorkspaceAuto_def ClearWorkspaceKeys_def RecordAndBroadcast_def claim\<close>)
qed

lemma shifts_resume_one:
  assumes "HasProvisioner le"
  shows "shifts {StatusPaused} StatusProvisioning 1 {wr_id r} s (snd (run (resume_one le now r) [] s))"
proof -
  have claim: "resume_claim now i = update_rows (\<lambda>r. wr_id r = i \<and> wr_status r \<in> {StatusPaused})
      (\<lambda>r. r\<lparr>wr_status := StatusProvisioning, wr_unloaded_since := None, wr_updated := now\<rparr>)" for i
    by (simp add: resume_claim_def)
  show ?thesis
    by (rule shifts_claim [where f = "\<lambda>r. r\<lparr>wr_status := StatusProvisioning, wr_unloaded_since := None, wr_updated := now\<rparr>"])
      (use assms in \<open>simp_all add: resume_one_def Let_def provisionWorkspaceAuto_def RecordAndBroadcast_def claim\<close>)
qed

subsection \<open>The tree\<close>

text \<open>Rows with the same ids and parents, in which what was reached before may be walked through again.\<close>

definition links :: "ws_row list \<Rightarrow> (string \<times> string option) list" where
  "links rows = map (\<lambda>r. (wr_id r, wr_parent r)) rows"

lemma levels_reached:
  assumes "links rows' = links rows" and "set frontier \<subseteq> set frontier'"
    and "\<And>r r'. r \<in> set (levels n P rows frontier) \<Longrightarrow> r' \<in> set rows' \<Longrightarrow> wr_id r' = wr_id r \<Longrightarrow> P' r'"
  shows "wr_id ` set (levels n P rows frontier) \<subseteq> wr_id ` set (levels n P' rows' frontier')"
  using assms(2,3)
proof (induction n arbitrary: frontier frontier')
  case 0
  then show ?case by simp
next
  case (Suc n)
  let ?below = "\<lambda>frontier r. case wr_parent r of None \<Rightarrow> False | Some p \<Rightarrow> p \<in> set frontier"
  let ?next = "filter (\<lambda>r. P r \<and> ?below frontier r) rows"
  let ?next' = "filter (\<lambda>r. P' r \<and> ?below frontier' r) rows'"
  have step: "wr_id r \<in> wr_id ` set ?next'" if "r \<in> set ?next" for r
  proof -
    from that have "(wr_id r, wr_parent r) \<in> set (links rows')" unfolding assms(1) by (auto simp: links_def)
    then obtain r' where r': "r' \<in> set rows'" "wr_id r' = wr_id r" "wr_parent r' = wr_parent r" by (auto simp: links_def)
    moreover have "r \<in> set (levels (Suc n) P rows frontier)" using that by (auto simp: Let_def filter_empty_conv)
    ultimately have "r' \<in> set ?next'" using that Suc.prems by (auto split: option.splits)
    from imageI [OF this, of wr_id] show ?thesis unfolding r'(2) .
  qed
  show ?case
  proof (cases "?next = []")
    case True
    then show ?thesis by simp
  next
    case False
    then obtain r where "r \<in> set ?next" by (metis list.set_intros(1) neq_Nil_conv)
    from step [OF this] have ne: "?next' \<noteq> []" by (metis (no_types) empty_iff image_empty list.set(1))
    have "wr_id ` set (levels n P rows (map wr_id ?next)) \<subseteq> wr_id ` set (levels n P' rows' (map wr_id ?next'))"
      by (rule Suc.IH) (use step Suc.prems(2) False in \<open>auto simp: Let_def\<close>)
    then show ?thesis using step ne False by (auto simp: Let_def image_Un)
  qed
qed

lemma links_update:
  assumes "\<And>r. wr_id (f r) = wr_id r" and "\<And>r. wr_parent (f r) = wr_parent r"
  shows "links (sql_update P f rows) = links rows"
  using assms by (simp add: links_def sql_update_def)

lemma keeps_links_Pause: "keeps (on_rows (\<lambda>rows. links rows = L)) (Pause le now cascade i)"
proof -
  have claim: "keeps (on_rows (\<lambda>rows. links rows = L)) (exec (pause_claim now j) k)"
    if "\<And>x. keeps (on_rows (\<lambda>rows. links rows = L)) (k x)" for j and k :: "nat option \<Rightarrow> (life_failure list \<times> bool) handler"
    using that by (auto simp: on_rows_def pause_claim_def links_update intro!: keeps_exec)
  have one: "keeps (on_rows (\<lambda>rows. links rows = L)) (pause_one le now ws)" for ws
    by (auto simp: pause_one_def Let_def StopWorkspaceAuto_def intro!: keeps_effect claim row_rules split: option.split)
  have "keeps (on_rows (\<lambda>rows. links rows = L)) (each_counted (pause_one le now) wss)" for wss
    by (induction wss) (auto intro!: keeps_bindp one split: prod.split)
  then show ?thesis
    by (auto simp: Pause_def Let_def simp del: each_counted.simps intro!: keeps_query keeps_bindp split: option.split)
qed

text \<open>The ids a resume takes up.\<close>

definition resume_targets :: "string \<Rightarrow> reg_state \<Rightarrow> string set" where
  "resume_targets i s = insert i (wr_id ` set (descendants (\<lambda>d. wr_status d = StatusPaused) i s))"

lemma run_Pause_clean:
  assumes "row s i = Some r" and "pausable r" and "\<And>j. le_stop le j"
  shows "shifts (- {StatusRemoved, StatusPaused}) StatusPaused 0 (pause_targets i s) s (snd (run (Pause le now True i) [] s))"
proof -
  let ?wss = "(i, wr_name r) # map (\<lambda>d. (wr_id d, wr_name d)) (descendants pausable i s)"
  have p: "snd (run (Pause le now True i) [] s) = snd (run (each_counted (pause_one le now) ?wss) [] s)"
    using assms(1,2) by (simp add: Pause_def run_bindp split_beta del: each_counted.simps)
  have ids: "pause_targets i s = fst ` set ?wss" by (simp add: pause_targets_def image_image)
  show ?thesis unfolding p ids by (rule shifts_each [OF shifts_pause_one [OF assms(3)]]) simp
qed

lemma run_Resume_clean:
  assumes "status_of s i = Some StatusPaused" and "HasProvisioner le" and "paused_ancestor n s i = Some None" and "n \<le> fuel"
  shows "shifts {StatusPaused} StatusProvisioning 1 (resume_targets i s) s (snd (run (Resume le fuel now True i) [] s))"
proof -
  from assms(1) obtain r where r: "row s i = Some r" "wr_status r = StatusPaused" by (auto simp: status_of_def)
  let ?rs = "r # descendants (\<lambda>d. wr_status d = StatusPaused) i s"
  have p: "snd (run (Resume le fuel now True i) [] s) = snd (run (each_counted (resume_one le now) ?rs) [] s)"
    using r assms(2)
    by (simp add: Resume_def run_isParentPaused [OF assms(3,4)] run_bindp split_beta del: each_counted.simps)
  have ids: "resume_targets i s = wr_id ` set ?rs"
    using r(1) by (auto simp: resume_targets_def dest: sql_find_Some_iff)
  show ?thesis unfolding p ids by (rule shifts_each [OF shifts_resume_one [OF assms(2)]]) simp
qed

lemma descendants_satisfy: "r \<in> set (descendants P i s) \<Longrightarrow> r \<in> set (rs_rows s) \<and> P r"
proof -
  have "r \<in> set (levels n P rows frontier) \<Longrightarrow> r \<in> set rows \<and> P r" for n rows frontier
    by (induction n arbitrary: frontier) (auto simp: Let_def split: if_splits)
  then show "r \<in> set (descendants P i s) \<Longrightarrow> r \<in> set (rs_rows s) \<and> P r" unfolding descendants_def .
qed

lemma pause_targets_pausable:
  assumes "unique_key wr_id (rs_rows s)" and "row s i = Some r" and "pausable r" and "j \<in> pause_targets i s"
  shows "status_of s j \<in> Some ` (- {StatusRemoved, StatusPaused})"
proof -
  from assms(2-4) obtain d where "d \<in> set (rs_rows s)" "wr_id d = j" "pausable d"
    by (auto simp: pause_targets_def dest: descendants_satisfy sql_find_Some_iff)
  with sql_find_key [OF assms(1), of d] show ?thesis by (auto simp: status_of_def pausable_def)
qed

text \<open>
  C24: pausing a tree and resuming it brings it back. When no statement fails and every container
  stops, a pause with its descendants leaves the workspace and each of its running descendants
  paused and provisions nothing; a resume with its descendants, unless an ancestor is paused by
  then, takes every one of them to provisioning with exactly one new box. \<open>fuel\<close> only has to
  cover the chain of parents.
\<close>

theorem pause_resume_restores:
  assumes "unique_key wr_id (rs_rows s)" and "row s i = Some r" and "pausable r"
    and "HasProvisioner le" and "\<And>j. le_stop le j"
    and "t = snd (run (Pause le now True i) [] s)" and "u = snd (run (Resume le fuel later True i) [] t)"
    and "paused_ancestor n t i = Some None" and "n \<le> fuel"
    and "j \<in> pause_targets i s"
  shows "status_of t j = Some StatusPaused \<and> boxes j t = boxes j s
    \<and> status_of u j = Some StatusProvisioning \<and> boxes j u = boxes j s + 1"
proof -
  have P: "unique_key wr_id (rs_rows t)" "\<forall>k \<in> pause_targets i s. status_of t k = Some StatusPaused \<and> boxes k t = boxes k s"
    using run_Pause_clean [OF assms(2,3,5), of now, folded assms(6)] assms(1) pause_targets_pausable [OF assms(1-3)]
    by (auto simp: shifts_def)
  have L: "links (rs_rows t) = links (rs_rows s)"
    using run_kept [OF keeps_links_Pause [of "links (rs_rows s)" le now True i], of s "[]"] unfolding assms(6) by (simp add: on_rows_def)
  then have len: "length (rs_rows t) = length (rs_rows s)" unfolding links_def by (metis length_map)
  have "wr_status r' = StatusPaused"
    if "d \<in> set (descendants pausable i s)" "r' \<in> set (rs_rows t)" "wr_id r' = wr_id d" for d r'
  proof -
    have "status_of t (wr_id r') = Some StatusPaused" using P(2) that by (auto simp: pause_targets_def)
    with sql_find_key [OF P(1) that(2)] show ?thesis by (simp add: status_of_def)
  qed
  then have "wr_id ` set (descendants pausable i s) \<subseteq> wr_id ` set (descendants (\<lambda>d. wr_status d = StatusPaused) i t)"
    unfolding descendants_def len by (intro levels_reached [OF L]) auto
  then have j: "j \<in> resume_targets i t" using assms(10) by (auto simp: pause_targets_def resume_targets_def)
  have "status_of t i = Some StatusPaused" using P(2) by (auto simp: pause_targets_def)
  from run_Resume_clean [OF this assms(4,8,9), of later, folded assms(7)] P assms(10) j show ?thesis
    by (auto simp: shifts_def)
qed

text \<open>The pair of a workspace and its child, paused and resumed.\<close>

definition resumed_pair :: reg_state where
  "resumed_pair = snd (run (Resume (docker_env (\<lambda>_. True)) 1 9 True ''w'') [] (snd paused_pair))"

lemma pair_unblocked: "paused_ancestor 1 (snd paused_pair) ''w'' = Some None"
  by code_simp

theorem pause_resume_restores_witness:
  "status_of resumed_pair ''v'' = Some StatusProvisioning \<and> boxes ''v'' resumed_pair = 1"
proof -
  let ?r = "(blank_row ''w'')\<lparr>wr_status := StatusOnline\<rparr>"
  have "unique_key wr_id (rs_rows pair_state)" "row pair_state ''w'' = Some ?r" "pausable ?r"
    by (simp_all add: pair_simps unique_key_def sql_find_Cons pausable_def)
  moreover have "HasProvisioner (docker_env (\<lambda>_. True))" "\<And>j. le_stop (docker_env (\<lambda>_. True)) j"
    by (simp_all add: HasProvisioner_def docker_env_def)
  moreover have "boxes ''v'' pair_state = 0" by (simp add: boxes_def pair_state_def blank_state_def)
  ultimately show ?thesis
    using pause_resume_restores [where r = ?r and n = 1 and fuel = 1 and j = "''v''", OF _ _ _ _ _ _ _ pair_unblocked]
      pair_targets by (simp add: paused_pair_def resumed_pair_def)
qed

end
