(* ===== verification/Spec2Isabelle.thy ===== *)
theory Spec2Isabelle
  imports Access Reparent Pending_Uploads Budget Requests A2A_Drain Desktop_Gateway Lifecycle_Roundtrip
begin

text \<open>
  A verification of the workspace server of EnterOS core
  (\<^verbatim>\<open>src/workspace-server/internal\<close>): the Go service that keeps the organisation of agent
  workspaces, their status and credentials, routes messages between them and enforces limits and
  approvals. File names below are relative to that directory.

  \<^bold>\<open>The parts and how they interact.\<close> A workspace registers, then beats; each call passes the
  token gate, and the beat decides the status of the workspace, books its spend and reports how
  many tasks it can take. Background passes take silent, wedged or stuck workspaces offline, and
  the operator pauses, resumes, hibernates, restarts and deletes them; all of these write the same
  rows. A request of a user or of an agent passes the authentication middlewares (workspace,
  organisation and admin tokens, browser sessions) and the rate limiters. A message from one
  workspace to another passes the access rules and the budget check and is forwarded; when the
  target is busy it is queued in a table and drained when a beat reports capacity. A delegation is
  such a message with a row in the delegation ledger; whoever ends the row owns the reply to the
  caller, and a sweeper ends the rows nobody else ends. Requests and approvals are rows that a
  human or an agent decides once; the mint of an organisation token by an admin token needs one.
  The tree of workspaces is the tenant boundary: access, memory namespaces and organisation tokens
  are confined by it, and a move in it is a guarded transaction. Files for a workspace without a
  public address are staged in a table. The desktop of a workspace is driven by its agent or by a
  human who took over, and is scaled to zero when idle. A workspace that fails is restarted, with
  the restarts coalesced, counted by a crash-loop breaker, and followed by a hold of the queue.

  \<^bold>\<open>Shared theories.\<close>
  \<^item> \<open>Core_Prelude\<close>: times, 64-bit wrap-around, JSON values, tables with SQL updates, and the
    contracts \<open>forward_only\<close> (final statuses), \<open>single_winner\<close> (one transition into a final
    status) and \<open>lifecycle_refinement\<close> (every concrete step is an abstract move or none).
  \<^item> \<open>Db_Program\<close>: a handler as a program of atomic statements that may each fail, run alone or
    interleaved with others. The contracts \<open>protected\<close> (an invariant every statement keeps) and
    \<open>accounted\<close> (a count that grows only by what a program took from it) hold for every
    interleaving.
  \<^item> \<open>Json_Decode\<close> and \<open>Base64url\<close>: decoding into structs, and the text encodings of tokens.
  \<^item> \<open>Textutil\<close>: \<^verbatim>\<open>textutil/truncate.go\<close> on byte strings; the result is the longest valid
    prefix within the cap. \<open>preview_cap\<close> is what the ledger relies on.

  \<^bold>\<open>Workspaces and their status.\<close>
  \<^item> \<open>Workspace_State\<close>: the row, the Redis keys, the runtime overrides and the hooks
    (\<^verbatim>\<open>models/workspace.go\<close>, \<^verbatim>\<open>models/workspace_status.go\<close>, \<^verbatim>\<open>db/redis.go\<close>,
    \<^verbatim>\<open>handlers/runtime_overrides.go\<close>, \<^verbatim>\<open>events/broadcaster.go\<close>). What the server asks others to do
    (events, stops, provisions, hooks) is a log in the state.
  \<^item> \<open>Mcp_Surface\<close>, \<open>Heartbeat_Status\<close>, \<open>Agent_Url\<close>, \<open>Registry\<close>: \<^verbatim>\<open>handlers/registry.go\<close>,
    \<^verbatim>\<open>handlers/ssrf.go\<close> and \<^verbatim>\<open>handlers/agent_card_reconcile.go\<close>. What is corroborated stays so; the status after a
    beat as a function; the warm-up of a platform agent is bounded; the addresses accepted URLs
    reach; nobody speaks for a workspace without its token.
  \<^item> \<open>Status_Sweeps\<close>: one pass of each monitor of \<^verbatim>\<open>registry/\<close> (liveness, health, hibernation,
    wedged agents, provision timeout, instances, orphans and stale tokens).
  \<^item> \<open>Status_Guard\<close>: what agents and passes cannot do in any interleaving: wake what was parked,
    mint a platform agent. \<open>row_invariant\<close> and \<open>status_invariant\<close> are the contracts of such
    invariants of the rows.
  \<^item> \<open>Workspace_Lifecycle\<close>: pause, resume, hibernate, wake, restart and delete
    (\<^verbatim>\<open>handlers/workspace_restart.go\<close>, \<^verbatim>\<open>workspace_dispatchers.go\<close>, \<^verbatim>\<open>workspace_crud.go\<close>).
    \<open>Lifecycle_Guarantees\<close> says what their replies mean and that racing resumes provision one box;
    \<open>Lifecycle_Roundtrip\<close> that a paused tree is brought back by a resume.
  \<^item> \<open>Restart\<close>: the coalescing gate of \<^verbatim>\<open>handlers/workspace_restart.go\<close>, the breaker
    \<^verbatim>\<open>handlers/auto_restart_breaker.go\<close> and the hold \<^verbatim>\<open>handlers/restart_queue_hold.go\<close>.

  \<^bold>\<open>Messages and delegations.\<close>
  \<^item> \<open>Access\<close>: \<open>CanCommunicate\<close> of \<^verbatim>\<open>registry/access.go\<close> over the contract \<open>ref_lookup\<close>; the exact
    rule, isolation of trees, and denial on every lookup fault.
  \<^item> \<open>Delegation_Ledger\<close>: \<^verbatim>\<open>handlers/delegation_ledger.go\<close>. \<open>SetStatus\<close> is a read and a
    compare-and-swap; \<open>ledger_step\<close> interleaves them. One caller owns the reply, terminal rows
    stay, rows refine the transition table.
  \<^item> \<open>Delegation_Replies\<close>, \<open>Delegation_Sweeper\<close>: the gated writers, reply rows and rollout guard of
    \<^verbatim>\<open>handlers/delegation_ledger_writes.go\<close> and \<^verbatim>\<open>delegation.go\<close>; one sweep of
    \<^verbatim>\<open>delegation_sweeper.go\<close> with every fault and the ticker loop.
  \<^item> \<open>A2A_Payload\<close>, \<open>A2A_Queue\<close>, \<open>A2A_Drain\<close>: \<^verbatim>\<open>handlers/a2a_queue.go\<close>. The decoders of message
    bodies, each statement on the queue table, the drain loop with its retries, drops and
    replies. Claims are exclusive, deliveries bounded, rows refine a lease life cycle.
  \<^item> \<open>Budget\<close>, \<open>Rate_Limit\<close>: \<^verbatim>\<open>handlers/budget_periods.go\<close>, \<^verbatim>\<open>budget.go\<close> and the check of the proxy;
    \<^verbatim>\<open>middleware/ratelimit.go\<close> and \<^verbatim>\<open>mcp_ratelimit.go\<close> over the contract \<open>window_limiter\<close>.
  \<^item> \<open>Requests\<close>, \<open>Approvals\<close>: \<^verbatim>\<open>handlers/request_store.go\<close>; \<^verbatim>\<open>approvals/policy.go\<close>,
    \<^verbatim>\<open>handlers/approval_gate.go\<close>, \<^verbatim>\<open>approvals.go\<close>.

  \<^bold>\<open>Tenants and credentials.\<close>
  \<^item> \<open>Org_Tree\<close>, \<open>Reparent\<close>: \<^verbatim>\<open>handlers/org_scope.go\<close>, \<^verbatim>\<open>memory/namespace/resolver.go\<close>,
    \<^verbatim>\<open>handlers/workspace_reparent.go\<close>. Walks end, namespaces are isolated, a move keeps every
    workspace in its organisation.
  \<^item> \<open>Tokens\<close>, \<open>Session_Auth\<close>, \<open>Auth\<close>, \<open>Org_Token_Api\<close>: \<^verbatim>\<open>wsauth/tokens.go\<close>, \<^verbatim>\<open>orgtoken/\<close>,
    \<^verbatim>\<open>middleware/session_auth.go\<close>, \<^verbatim>\<open>middleware/wsauth_middleware.go\<close>, \<^verbatim>\<open>handlers/org_tokens.go\<close>. Who is
    admitted, exactly; revocation is final; the caches return what was stored within their lifetime
    (\<open>ttl_cache\<close>).
  \<^item> \<open>Signed_Tokens\<close>, \<open>Display_Control\<close>, \<open>Desktop_Gateway\<close>: the display and boot tokens, the lock
    between humans and the agent, the gateway (\<^verbatim>\<open>desktopgateway/gateway.go\<close>) over the contract
    \<open>lock_checker\<close>, and the sweep of idle desktops.
  \<^item> \<open>Upload_Names\<close>, \<open>Pending_Uploads\<close>: names and headers of files (\<^verbatim>\<open>handlers/chat_files.go\<close>), and
    the staging table behind the contract \<open>upload_storage\<close> (\<^verbatim>\<open>pendinguploads/storage.go\<close>).

  Every contract is interpreted on the definitions that model the code, in the theory of the
  component that provides them.

  \<^bold>\<open>Conventions.\<close> A Postgres table is the list of its rows; a statement either fails and changes
  nothing or takes effect at once. Which statements fail is an argument: a list of booleans for
  \<open>run\<close>, every choice for \<open>interleave\<close>. Replies and errors are values. Times and durations are
  integers of nanoseconds and wrap at 64 bits where the code multiplies them.

  \<^bold>\<open>Parameters.\<close> Code outside the repository is an argument of the definitions that use it: SHA-256
  and HMAC, the cast of a text to a UUID, the printing of floats and of driver errors, URL and
  address parsing, name resolution, the random sources, the answers of the control plane, of the
  container and sidecar backends and of agents.

  \<^bold>\<open>Bounds and fuel.\<close> The walks up the tree have the bounds of the code (32, 50 and 64 hops), so they
  need no fuel. The root query of the middleware has none in the code: it is a partial function,
  and \<open>None\<close> is that it does not end. \<open>isParentPaused\<close> recurses without a bound; its fuel is an
  argument, and the theorems ask only that it covers the chain of parents. \<open>levels\<close>, the recursive
  query over descendants, has the number of rows as fuel, which is the depth a tree can have. The
  drain loop is bounded by the capacity it is given.

  \<^bold>\<open>Not modelled.\<close> HTTP routing and JSON binding beyond the fields used, log lines and metrics, and the
  texts of replies that no caller decides on. Forwarding of messages to agents and the interpretation of their
  answers (\<^verbatim>\<open>handlers/a2a_proxy.go\<close>) beyond the budget check and the hand-over to the queue. Creation
  and provisioning of workspaces, the installation of the platform agent and of plugins, and the
  provisioner: sequences of calls to Docker and the control plane whose effect is outside the
  repository; a dispatched provision is an entry of the log. Channels, terminals, file transfer and
  websockets, which stream bytes between sockets. Encryption of stored secrets by the standard
  library. The TypeScript canvas. Go's scheduler appears only as the interleaving of statements,
  and transactions only where the code opens one.
\<close>

subsection \<open>Access rules and organisations\<close>

text \<open>
  The access rules read two columns of the table the organisation walks run on.
\<close>

definition access_rows :: "ws_table \<Rightarrow> workspace_row list" where
  "access_rows tbl = map (\<lambda>r. \<lparr>ws_id = wn_id r, ws_parent_id = wn_parent r\<rparr>) tbl"

lemma find_access_rows:
  "sql_find (\<lambda>r. ws_id r = i) (access_rows tbl) = map_option (\<lambda>r. \<lparr>ws_id = wn_id r, ws_parent_id = wn_parent r\<rparr>) (node tbl i)"
  by (induction tbl) (simp_all add: access_rows_def sql_find_Cons)

lemma up_same_root:
  "up (getWorkspaceRef down (access_rows tbl)) k x = Some c \<Longrightarrow> org_root_at tbl x rt d \<Longrightarrow>
    \<exists>e. org_root_at tbl c rt e"
proof (induction k arbitrary: x d)
  case (Suc k)
  from Suc.prems(1) obtain p where p: "parent (getWorkspaceRef down (access_rows tbl)) x = Some p"
    and u: "up (getWorkspaceRef down (access_rows tbl)) k p = Some c" by (auto split: option.splits)
  from p obtain r where "node tbl x = Some r" "wn_parent r = Some p"
    by (auto simp: parent_def getWorkspaceRef_def find_access_rows split: if_splits option.splits)
  with Suc.prems(2) obtain e where "org_root_at tbl p rt e" by (auto elim: org_root_atE)
  with Suc.IH [OF u] show ?case by blast
qed auto

text \<open>
  C27: two different workspaces of a sound tree that the access rules let talk to each other belong
  to one organisation, whatever lookups fail: the hierarchy rules never cross the tenant boundary.
\<close>

theorem access_within_org:
  assumes "tree_ok tbl" and "a \<noteq> b" and "CanCommunicate (getWorkspaceRef down (access_rows tbl)) a b"
  shows "\<exists>root d e. org_root_at tbl a root d \<and> org_root_at tbl b root e"
proof -
  from assms(2,3) have ex: "node tbl a \<noteq> None" "node tbl b \<noteq> None"
    unfolding wsdb.can_communicate_iff by (auto simp: getWorkspaceRef_def find_access_rows split: if_splits option.splits)
  from tree_root [OF assms(1) ex(1)] tree_root [OF assms(1) ex(2)]
  obtain ra da rb db where r: "org_root_at tbl a ra da" "org_root_at tbl b rb db" by blast
  from wsdb.can_communicate_related [OF assms(3)] obtain c i j where
    "up (getWorkspaceRef down (access_rows tbl)) i a = Some c" "up (getWorkspaceRef down (access_rows tbl)) j b = Some c" by blast
  with up_same_root r have "(\<exists>e. org_root_at tbl c ra e) \<and> (\<exists>e. org_root_at tbl c rb e)" by blast
  with org_root_at_det have "ra = rb" by blast
  with r show ?thesis by blast
qed

theorem access_within_org_witness:
  "\<exists>root d e. org_root_at example_nodes ''dev'' root d \<and> org_root_at example_nodes ''root'' root e"
proof -
  have "CanCommunicate (getWorkspaceRef (\<lambda>_. False) (access_rows example_nodes)) ''dev'' ''root''"
    by (simp add: CanCommunicate_def getWorkspaceRef_def access_rows_def example_nodes_def isAncestorOf_def
        maxAncestorWalk_def numeral_eq_Suc sql_find_Cons)
  then show ?thesis using access_within_org [OF example_tree, of "''dev''" "''root''" "\<lambda>_. False"] by simp
qed

end
